(* ===== verification/Prelude.thy ===== *)
theory Prelude
  imports Main "HOL-Library.Word"
begin

unbundle bit_operations_syntax

section \<open>Shared vocabulary of the development\<close>

text \<open>
  Machine integers, C integers used as flags, the 48-byte basic header segment as a list of
  bytes, and the memory accesses of \<^verbatim>\<open>src/ost-2.0.1/src/iscsi.c\<close>: byte stores, 16/32/64-bit stores
  and loads through a casted pointer on the little-endian hosts the code runs on, and the byte
  swaps \<^verbatim>\<open>HTONL\<close>, \<^verbatim>\<open>HTONS\<close> and \<^verbatim>\<open>HTONLL\<close> of \<^verbatim>\<open>util.h\<close>.  The collection \<open>wire\<close> holds the rewrite rules
  that evaluate a load over a chain of stores.
\<close>

named_theorems wire "loads over stores into a header"

type_synonym byte = "8 word"
type_synonym u16 = "16 word"
type_synonym u32 = "32 word"
type_synonym u64 = "64 word"
type_synonym c_int = "32 word"
type_synonym header = "byte list"

definition ISCSI_HEADER_LEN :: nat where
  "ISCSI_HEADER_LEN = 48"

subsection \<open>C truth values and early returns\<close>

definition c_bool :: "bool \<Rightarrow> 'a::len word" where
  "c_bool b = (if b then 1 else 0)"

lemma c_bool_zero_iff [simp]: "c_bool b = (0::'a::len word) \<longleftrightarrow> \<not> b"
  by (simp add: c_bool_def)

lemma c_bool_simps [simp]: "c_bool True = 1" "c_bool False = 0"
  by (simp_all add: c_bool_def)

text \<open>
  A run of \<^verbatim>\<open>RETURN_NOT_EQUAL(name, v1, v2, NO_CLEANUP, rc)\<close> checks: each entry is the passing
  condition and the code returned when it fails; the first failing check decides.
\<close>

fun first_fail :: "(bool \<times> int) list \<Rightarrow> int" where
  "first_fail [] = 0"
| "first_fail ((ok, rc) # cs) = (if ok then first_fail cs else rc)"

lemma first_fail_zero_iff:
  "\<forall>c\<in>set cs. snd c \<noteq> 0 \<Longrightarrow> first_fail cs = 0 \<longleftrightarrow> (\<forall>c\<in>set cs. fst c)"
  by (induction cs rule: first_fail.induct) auto

lemma first_fail_append:
  "first_fail (cs @ ds) = (if first_fail cs = 0 then first_fail ds else first_fail cs)"
  if "\<forall>c\<in>set cs. snd c \<noteq> 0"
  using that by (induction cs rule: first_fail.induct) auto

subsection \<open>Bytes of a word\<close>

definition byte_of :: "'a::len word \<Rightarrow> nat \<Rightarrow> byte" where
  "byte_of w k = ucast (drop_bit (8 * k) w)"

definition make16 :: "byte \<Rightarrow> byte \<Rightarrow> u16" where
  "make16 b0 b1 = ucast b0 OR push_bit 8 (ucast b1)"

definition make32 :: "byte \<Rightarrow> byte \<Rightarrow> byte \<Rightarrow> byte \<Rightarrow> u32" where
  "make32 b0 b1 b2 b3 =
     ucast b0 OR push_bit 8 (ucast b1) OR push_bit 16 (ucast b2) OR push_bit 24 (ucast b3)"

definition make64 :: "byte \<Rightarrow> byte \<Rightarrow> byte \<Rightarrow> byte \<Rightarrow> byte \<Rightarrow> byte \<Rightarrow> byte \<Rightarrow> byte \<Rightarrow> u64" where
  "make64 b0 b1 b2 b3 b4 b5 b6 b7 =
     ucast b0 OR push_bit 8 (ucast b1) OR push_bit 16 (ucast b2) OR push_bit 24 (ucast b3) OR
     push_bit 32 (ucast b4) OR push_bit 40 (ucast b5) OR push_bit 48 (ucast b6) OR
     push_bit 56 (ucast b7)"

lemma bit_byte_of:
  "bit (byte_of w k) n \<longleftrightarrow> n < 8 \<and> bit w (8 * k + n)"
  by (auto simp: byte_of_def bit_simps add.commute)

lemma bit_push_byte:
  "bit (push_bit k (ucast (b::byte)) :: 'a::len word) n \<longleftrightarrow> k \<le> n \<and> bit b (n - k)"
  if "k + 8 \<le> LENGTH('a)"
proof -
  have "k \<le> n \<Longrightarrow> bit b (n - k) \<Longrightarrow> n < LENGTH('a)"
    using that by (auto dest!: bit_imp_le_length)
  then show ?thesis using that by (auto simp: bit_simps)
qed

lemma bit_low_byte:
  "bit (ucast (b::byte) :: 'a::len word) n \<longleftrightarrow> bit b n" if "8 \<le> LENGTH('a)"
  using bit_push_byte [of 0 b n, where 'a = 'a] that by simp

lemma bit_make16:
  "bit (make16 b0 b1) n \<longleftrightarrow> bit b0 n \<or> 8 \<le> n \<and> bit b1 (n - 8)"
  by (simp add: make16_def bit_or_iff bit_push_byte bit_low_byte)

lemma bit_make32:
  "bit (make32 b0 b1 b2 b3) n \<longleftrightarrow>
     bit b0 n \<or> 8 \<le> n \<and> bit b1 (n - 8) \<or> 16 \<le> n \<and> bit b2 (n - 16) \<or> 24 \<le> n \<and> bit b3 (n - 24)"
  by (simp add: make32_def bit_or_iff bit_push_byte bit_low_byte disj_assoc)

lemma bit_make64:
  "bit (make64 b0 b1 b2 b3 b4 b5 b6 b7) n \<longleftrightarrow>
     bit b0 n \<or> 8 \<le> n \<and> bit b1 (n - 8) \<or> 16 \<le> n \<and> bit b2 (n - 16) \<or> 24 \<le> n \<and> bit b3 (n - 24) \<or>
     32 \<le> n \<and> bit b4 (n - 32) \<or> 40 \<le> n \<and> bit b5 (n - 40) \<or> 48 \<le> n \<and> bit b6 (n - 48) \<or>
     56 \<le> n \<and> bit b7 (n - 56)"
  by (simp add: make64_def bit_or_iff bit_push_byte bit_low_byte disj_assoc)

lemma byte_bit_bound [dest]: "bit (b::byte) n \<Longrightarrow> n < 8"
  by (auto dest: bit_imp_le_length)

text \<open>Splitting a word into its bytes and joining them again are inverse to each other.\<close>

lemma make32_byte_of [wire]:
  "make32 (byte_of w 0) (byte_of w 1) (byte_of w 2) (byte_of w 3) = (w :: u32)"
proof (rule bit_word_eqI)
  fix n assume "n < LENGTH(32)"
  then consider "n < 8" | "8 \<le> n" "n < 16" | "16 \<le> n" "n < 24" | "24 \<le> n" "n < 32"
    by (simp, linarith)
  then show "bit (make32 (byte_of w 0) (byte_of w 1) (byte_of w 2) (byte_of w 3)) n = bit w n"
    by cases (auto simp: bit_make32 bit_byte_of)
qed

lemma make16_byte_of [wire]:
  "make16 (byte_of w 0) (byte_of w 1) = (w :: u16)"
  by (rule bit_word_eqI) (auto simp: bit_make16 bit_byte_of)

lemmas make_byte_of_Suc [wire] = make32_byte_of [simplified] make16_byte_of [simplified]

lemma byte_of_make16 [wire]:
  "byte_of (make16 b0 b1) 0 = b0" "byte_of (make16 b0 b1) 1 = b1"
  "byte_of (make16 b0 b1) (Suc 0) = b1"
  by (rule bit_word_eqI; auto simp: bit_make16 bit_byte_of)+

lemma byte_of_make32 [wire]:
  "byte_of (make32 b0 b1 b2 b3) 0 = b0" "byte_of (make32 b0 b1 b2 b3) 1 = b1"
  "byte_of (make32 b0 b1 b2 b3) 2 = b2" "byte_of (make32 b0 b1 b2 b3) 3 = b3"
  "byte_of (make32 b0 b1 b2 b3) (Suc 0) = b1"
  by (rule bit_word_eqI; auto simp: bit_make32 bit_byte_of)+

lemmas bit_bytes = bit_byte_of bit_make16 bit_make32 bit_make64

subsection \<open>Byte swaps\<close>

text \<open>
  \<^verbatim>\<open>HTONL\<close>/\<^verbatim>\<open>NTOHL\<close>, \<^verbatim>\<open>HTONS\<close>/\<^verbatim>\<open>NTOHS\<close> and \<^verbatim>\<open>HTONLL\<close>/\<^verbatim>\<open>NTOHLL\<close> of \<^verbatim>\<open>util.h\<close> on a little-endian host:
  each reverses the bytes of its argument.
\<close>

definition htonl :: "u32 \<Rightarrow> u32" where
  "htonl w = make32 (byte_of w 3) (byte_of w 2) (byte_of w 1) (byte_of w 0)"

definition ntohl :: "u32 \<Rightarrow> u32" where
  "ntohl w = make32 (byte_of w 3) (byte_of w 2) (byte_of w 1) (byte_of w 0)"

definition htons :: "u16 \<Rightarrow> u16" where
  "htons w = make16 (byte_of w 1) (byte_of w 0)"

definition ntohs :: "u16 \<Rightarrow> u16" where
  "ntohs w = make16 (byte_of w 1) (byte_of w 0)"

definition bswap_64 :: "u64 \<Rightarrow> u64" where
  "bswap_64 w = make64 (byte_of w 7) (byte_of w 6) (byte_of w 5) (byte_of w 4)
                       (byte_of w 3) (byte_of w 2) (byte_of w 1) (byte_of w 0)"

lemma ntohl_htonl [wire]: "ntohl (htonl w) = w"
  by (simp add: htonl_def ntohl_def wire)

lemma htonl_eq_0 [wire]: "htonl w = 0 \<longleftrightarrow> w = 0"
proof
  assume "htonl w = 0"
  then have "ntohl (htonl w) = ntohl 0" by simp
  then show "w = 0" by (simp add: ntohl_htonl) (simp add: ntohl_def byte_of_def make32_def)
qed (simp add: htonl_def byte_of_def make32_def)

lemma ntohl_0 [simp]: "ntohl 0 = 0"
  by (simp add: ntohl_def byte_of_def make32_def)

lemma ntohs_htons [wire]: "ntohs (htons w) = w"
  by (simp add: htons_def ntohs_def wire)

lemma byte_of_htonl [wire]:
  "byte_of (htonl w) 0 = byte_of w 3" "byte_of (htonl w) 1 = byte_of w 2"
  "byte_of (htonl w) 2 = byte_of w 1" "byte_of (htonl w) 3 = byte_of w 0"
  "byte_of (htonl w) (Suc 0) = byte_of w 2"
  by (simp_all add: htonl_def wire)

lemma byte_of_htons [wire]:
  "byte_of (htons w) 0 = byte_of w 1" "byte_of (htons w) 1 = byte_of w 0"
  "byte_of (htons w) (Suc 0) = byte_of w 0"
  by (simp_all add: htons_def wire)

lemma byte_of_make64:
  "byte_of (make64 b0 b1 b2 b3 b4 b5 b6 b7) 0 = b0"
  "byte_of (make64 b0 b1 b2 b3 b4 b5 b6 b7) (Suc 0) = b1"
  "byte_of (make64 b0 b1 b2 b3 b4 b5 b6 b7) 2 = b2"
  "byte_of (make64 b0 b1 b2 b3 b4 b5 b6 b7) 3 = b3"
  "byte_of (make64 b0 b1 b2 b3 b4 b5 b6 b7) 4 = b4"
  "byte_of (make64 b0 b1 b2 b3 b4 b5 b6 b7) 5 = b5"
  "byte_of (make64 b0 b1 b2 b3 b4 b5 b6 b7) 6 = b6"
  "byte_of (make64 b0 b1 b2 b3 b4 b5 b6 b7) 7 = b7"
  by (rule bit_word_eqI; auto simp: bit_make64 bit_byte_of)+

lemma byte_of_bswap_64 [wire]:
  "byte_of (bswap_64 w) 0 = byte_of w 7" "byte_of (bswap_64 w) (Suc 0) = byte_of w 6"
  "byte_of (bswap_64 w) 2 = byte_of w 5" "byte_of (bswap_64 w) 3 = byte_of w 4"
  "byte_of (bswap_64 w) 4 = byte_of w 3" "byte_of (bswap_64 w) 5 = byte_of w 2"
  "byte_of (bswap_64 w) 6 = byte_of w 1" "byte_of (bswap_64 w) 7 = byte_of w 0"
  by (simp_all add: bswap_64_def byte_of_make64)

text \<open>
  The 48-bit session identifier is read as the six bytes at 8 to 13, in network order, by loading
  eight bytes and shifting the last two away.
\<close>

lemma word64_cases:
  fixes n :: nat
  assumes "n < 64"
  obtains "n < 8" | "8 \<le> n" "n < 16" | "16 \<le> n" "n < 24" | "24 \<le> n" "n < 32"
    | "32 \<le> n" "n < 40" | "40 \<le> n" "n < 48" | "48 \<le> n" "n < 56" | "56 \<le> n" "n < 64"
  using assms by linarith

lemma drop_bit_16_bswap_64 [wire]:
  "drop_bit 16 (bswap_64 (make64 b0 b1 b2 b3 b4 b5 b6 b7)) = make64 b5 b4 b3 b2 b1 b0 0 0"
  unfolding bswap_64_def One_nat_def byte_of_make64
proof (rule bit_word_eqI)
  fix n assume "n < LENGTH(64)"
  then have "n < 64" by simp
  then show "bit (drop_bit 16 (make64 b7 b6 b5 b4 b3 b2 b1 b0)) n = bit (make64 b5 b4 b3 b2 b1 b0 0 0) n"
    by (cases rule: word64_cases) (auto simp: bit_make64 bit_drop_bit_eq add.commute)
qed

lemma make64_low48 [wire]:
  "make64 (byte_of w 0) (byte_of w (Suc 0)) (byte_of w 2) (byte_of w 3) (byte_of w 4) (byte_of w 5) 0 0
     = take_bit 48 w" for w :: u64
proof (rule bit_word_eqI)
  fix n assume "n < LENGTH(64)"
  then have "n < 64" by simp
  then show "bit (make64 (byte_of w 0) (byte_of w (Suc 0)) (byte_of w 2) (byte_of w 3)
      (byte_of w 4) (byte_of w 5) 0 0) n = bit (take_bit 48 w) n"
    by (cases rule: word64_cases) (auto simp: bit_make64 bit_byte_of bit_take_bit_iff)
qed

lemma byte_of_bytes [simp]: "byte_of (0 :: 'a::len word) k = 0"
  by (simp add: byte_of_def)

subsection \<open>Loads and stores\<close>

text \<open>
  \<^verbatim>\<open>*((unsigned *)(header+k)) = w\<close> stores the bytes of \<open>w\<close>, least significant first;
  \<^verbatim>\<open>*((unsigned *)(header+k))\<close> reads them back.
\<close>

definition store16 :: "header \<Rightarrow> nat \<Rightarrow> u16 \<Rightarrow> header" where
  "store16 h k w = h[k := byte_of w 0, k + 1 := byte_of w 1]"

definition store32 :: "header \<Rightarrow> nat \<Rightarrow> u32 \<Rightarrow> header" where
  "store32 h k w =
     h[k := byte_of w 0, k + 1 := byte_of w 1, k + 2 := byte_of w 2, k + 3 := byte_of w 3]"

definition store64 :: "header \<Rightarrow> nat \<Rightarrow> u64 \<Rightarrow> header" where
  "store64 h k w =
     h[k := byte_of w 0, k + 1 := byte_of w 1, k + 2 := byte_of w 2, k + 3 := byte_of w 3,
       k + 4 := byte_of w 4, k + 5 := byte_of w 5, k + 6 := byte_of w 6, k + 7 := byte_of w 7]"

definition load16 :: "header \<Rightarrow> nat \<Rightarrow> u16" where
  "load16 h k = make16 (h ! k) (h ! (k + 1))"

definition load32 :: "header \<Rightarrow> nat \<Rightarrow> u32" where
  "load32 h k = make32 (h ! k) (h ! (k + 1)) (h ! (k + 2)) (h ! (k + 3))"

definition load64 :: "header \<Rightarrow> nat \<Rightarrow> u64" where
  "load64 h k = make64 (h ! k) (h ! (k + 1)) (h ! (k + 2)) (h ! (k + 3))
                       (h ! (k + 4)) (h ! (k + 5)) (h ! (k + 6)) (h ! (k + 7))"

text \<open>\<^verbatim>\<open>header[k] |= v\<close>, and the same under a C condition.\<close>

definition or_byte :: "header \<Rightarrow> nat \<Rightarrow> byte \<Rightarrow> header" where
  "or_byte h k v = h[k := h ! k OR v]"

definition or_byte_if :: "bool \<Rightarrow> header \<Rightarrow> nat \<Rightarrow> byte \<Rightarrow> header" where
  "or_byte_if b h k v = (if b then or_byte h k v else h)"

text \<open>\<^verbatim>\<open>memset(header, 0, ISCSI_HEADER_LEN)\<close> on a buffer of exactly that length.\<close>

definition zero_header :: header where
  "zero_header = replicate ISCSI_HEADER_LEN 0"

definition memcpy :: "header \<Rightarrow> nat \<Rightarrow> byte list \<Rightarrow> header" where
  "memcpy h k bs = take k h @ bs @ drop (k + length bs) h"

lemma length_store [wire]:
  "length (store16 h k w16) = length h" "length (store32 h k w) = length h"
  "length (store64 h k w64) = length h" "length (or_byte h k b) = length h"
  "length (or_byte_if c h k b) = length h" "length zero_header = 48"
  by (simp_all add: store16_def store32_def store64_def or_byte_def or_byte_if_def
      zero_header_def ISCSI_HEADER_LEN_def)

lemma length_memcpy [wire]: "k + length bs \<le> length h \<Longrightarrow> length (memcpy h k bs) = length h"
  by (simp add: memcpy_def)

lemma nth_store16 [wire]:
  "k + 1 < length h \<Longrightarrow>
   store16 h k w ! j = (if j = k then byte_of w 0 else if j = k + 1 then byte_of w 1 else h ! j)"
  by (auto simp: store16_def nth_list_update)

lemma nth_store32 [wire]:
  "k + 3 < length h \<Longrightarrow>
   store32 h k w ! j =
     (if j = k then byte_of w 0 else if j = k + 1 then byte_of w 1
      else if j = k + 2 then byte_of w 2 else if j = k + 3 then byte_of w 3 else h ! j)"
  by (auto simp: store32_def nth_list_update)

lemma nth_store64 [wire]:
  "k + 7 < length h \<Longrightarrow>
   store64 h k w ! j =
     (if j = k then byte_of w 0 else if j = k + 1 then byte_of w 1
      else if j = k + 2 then byte_of w 2 else if j = k + 3 then byte_of w 3
      else if j = k + 4 then byte_of w 4 else if j = k + 5 then byte_of w 5
      else if j = k + 6 then byte_of w 6 else if j = k + 7 then byte_of w 7 else h ! j)"
  by (auto simp: store64_def nth_list_update)

lemma nth_or_byte [wire]:
  "k < length h \<Longrightarrow> or_byte h k v ! j = (if j = k then h ! j OR v else h ! j)"
  by (auto simp: or_byte_def nth_list_update)

lemma nth_or_byte_if [wire]:
  "k < length h \<Longrightarrow> or_byte_if c h k v ! j = (if j = k \<and> c then h ! j OR v else h ! j)"
  by (auto simp: or_byte_if_def nth_or_byte)

lemma nth_zero_header [wire]: "j < 48 \<Longrightarrow> zero_header ! j = 0"
  by (simp add: zero_header_def ISCSI_HEADER_LEN_def)

lemma nth_list_update_header [wire]:
  "k < length h \<Longrightarrow> (h[k := v]) ! j = (if j = k then v else h ! j)" for h :: header
  by (auto simp: nth_list_update)

text \<open>A 32-bit load over a store to the same place, over a store elsewhere, and over zeros.\<close>

lemma load32_store32 [wire]:
  "k + 3 < length h \<Longrightarrow> load32 (store32 h k w) k = w"
  by (simp add: load32_def nth_store32 wire)

lemma make32_eq_0 [wire]:
  "make32 b0 b1 b2 b3 = 0 \<longleftrightarrow> b0 = 0 \<and> b1 = 0 \<and> b2 = 0 \<and> b3 = 0"
proof
  assume z: "make32 b0 b1 b2 b3 = 0"
  show "b0 = 0 \<and> b1 = 0 \<and> b2 = 0 \<and> b3 = 0"
    using byte_of_make32 [of b0 b1 b2 b3] unfolding z by simp
qed (simp add: make32_def)

lemma load32_eq_0 [wire]:
  "load32 h k = 0 \<longleftrightarrow> h ! k = 0 \<and> h ! (k + 1) = 0 \<and> h ! (k + 2) = 0 \<and> h ! (k + 3) = 0"
  by (simp add: load32_def make32_eq_0)

lemma load32_zero [wire]: "k + 3 < 48 \<Longrightarrow> load32 zero_header k = 0"
  by (simp add: load32_def nth_zero_header make32_def)

lemma load32_other [wire]:
  "k + 3 < j \<or> j + 3 < k \<Longrightarrow> k + 3 < length h \<Longrightarrow> load32 (store32 h k w) j = load32 h j"
  by (auto simp: load32_def nth_store32)

lemma load32_update [wire]:
  "k < j \<or> j + 3 < k \<Longrightarrow> k < length h \<Longrightarrow> load32 (h[k := v]) j = load32 h j"
  by (auto simp: load32_def nth_list_update)

lemma load32_or_byte [wire]:
  "k < j \<or> j + 3 < k \<Longrightarrow> k < length h \<Longrightarrow> load32 (or_byte h k v) j = load32 h j"
  by (auto simp: load32_def nth_or_byte)

lemma load32_or_byte_if [wire]:
  "k < j \<or> j + 3 < k \<Longrightarrow> k < length h \<Longrightarrow> load32 (or_byte_if c h k v) j = load32 h j"
  by (simp add: or_byte_if_def load32_or_byte)

lemma load32_store16 [wire]:
  "k + 1 < j \<or> j + 3 < k \<Longrightarrow> k + 1 < length h \<Longrightarrow> load32 (store16 h k w) j = load32 h j"
  by (auto simp: load32_def nth_store16)

lemma load32_store64 [wire]:
  "k + 7 < j \<or> j + 3 < k \<Longrightarrow> k + 7 < length h \<Longrightarrow> load32 (store64 h k w) j = load32 h j"
  by (auto simp: load32_def nth_store64)

lemma load16_store16 [wire]:
  "k + 1 < length h \<Longrightarrow> load16 (store16 h k w) k = w"
  by (simp add: load16_def nth_store16 wire)

lemma load16_store32 [wire]:
  "k + 3 < j \<or> j + 1 < k \<Longrightarrow> k + 3 < length h \<Longrightarrow> load16 (store32 h k w) j = load16 h j"
  by (auto simp: load16_def nth_store32)

lemma load16_update [wire]:
  "k < j \<or> j + 1 < k \<Longrightarrow> k < length h \<Longrightarrow> load16 (h[k := v]) j = load16 h j"
  by (auto simp: load16_def nth_list_update)

text \<open>16-bit values that are stored and loaded as 32-bit ones.\<close>

lemma ucast_make32 [wire]: "ucast (make32 b0 b1 b2 b3) = make16 b0 b1"
  by (rule bit_word_eqI) (auto simp: bit_make32 bit_make16 bit_ucast_iff)

lemma byte_of_ucast16 [wire]:
  "byte_of (ucast x :: u32) 0 = byte_of x 0" "byte_of (ucast x :: u32) (Suc 0) = byte_of x 1"
  "byte_of (ucast x :: u32) 2 = 0" "byte_of (ucast x :: u32) 3 = 0" for x :: u16
  by (rule bit_word_eqI; auto simp: bit_byte_of bit_ucast_iff dest: bit_imp_le_length)+

lemma ucast_up_down16 [wire]: "ucast (ucast x :: u32) = x" for x :: u16
  by (rule bit_word_eqI) (auto simp: bit_ucast_iff)

lemma ucast_load32 [wire]: "ucast (load32 h k) = load16 h k"
  by (simp add: load32_def load16_def ucast_make32)

lemma load16_store32_ucast [wire]:
  "k + 3 < length h \<Longrightarrow> load16 (store32 h k (ucast x)) k = x"
  by (simp add: load16_def nth_store32 byte_of_ucast16) (simp add: wire)

lemma load16_eq_0 [wire]: "load16 h k = 0 \<longleftrightarrow> h ! k = 0 \<and> h ! (k + 1) = 0"
proof
  assume z: "load16 h k = 0"
  show "h ! k = 0 \<and> h ! (k + 1) = 0"
    using byte_of_make16 [of "h ! k" "h ! (k + 1)"] unfolding z [unfolded load16_def] by simp
qed (simp add: load16_def make16_def)

lemma load16_other [wire]:
  "k + 1 < j \<or> j + 1 < k \<Longrightarrow> k + 1 < length h \<Longrightarrow> load16 (store16 h k w) j = load16 h j"
  by (auto simp: load16_def nth_store16)

text \<open>A block of bytes copied into the tail of the header.\<close>

lemma nth_memcpy [wire]:
  "j < k \<Longrightarrow> k \<le> length h \<Longrightarrow> memcpy h k bs ! j = h ! j"
  by (simp add: memcpy_def nth_append)

lemma load32_memcpy [wire]:
  "j + 3 < k \<Longrightarrow> k \<le> length h \<Longrightarrow> load32 (memcpy h k bs) j = load32 h j"
  by (simp add: load32_def nth_memcpy)

lemma drop_memcpy:
  "k \<le> length h \<Longrightarrow> drop k (memcpy h k bs) = bs @ drop (k + length bs) h"
  by (simp add: memcpy_def)

lemma drop_store [wire]:
  "j + 3 < k \<Longrightarrow> drop k (store32 h j w) = drop k h"
  "j < k \<Longrightarrow> drop k (or_byte h j v) = drop k h"
  "j < k \<Longrightarrow> drop k (or_byte_if c h j v) = drop k h"
  "drop k zero_header = replicate (48 - k) 0"
  by (simp_all add: store32_def or_byte_def or_byte_if_def zero_header_def ISCSI_HEADER_LEN_def)

text \<open>Bytes under masks, and what a zero high byte says of a 32-bit field.\<close>

lemma byte_of_and: "byte_of (a AND b) k = byte_of a k AND byte_of b k"
  by (rule bit_word_eqI) (auto simp: bit_byte_of bit_and_iff)

lemma byte_of_mask24 [wire]:
  "byte_of (w AND 0xFFFFFF) 3 = 0" for w :: u32
  by (simp add: byte_of_and) (simp add: byte_of_def)

lemma byte_of_3_eq_0 [wire]: "byte_of w 3 = 0 \<longleftrightarrow> w < 0x1000000" for w :: u32
proof -
  have "byte_of w 3 = 0 \<longleftrightarrow> unat (byte_of w 3) = 0" by (simp add: unat_eq_zero)
  also have "unat (byte_of w 3) = unat w div 2 ^ 24"
  proof -
    have "unat w < 2 ^ 32" using unsigned_less [of w] by simp
    then have "unat w div 2 ^ 24 < 2 ^ 8" by (simp add: less_mult_imp_div_less)
    then show ?thesis
      by (simp add: byte_of_def unsigned_ucast_eq unsigned_drop_bit_eq drop_bit_eq_div
          unat_div take_bit_nat_eq_self)
  qed
  also have "\<dots> = 0 \<longleftrightarrow> unat w < 2 ^ 24" by (simp add: div_eq_0_iff)
  also have "\<dots> \<longleftrightarrow> w < 0x1000000" by (simp add: word_less_nat_alt)
  finally show ?thesis .
qed

text \<open>A 32-bit value of at most one byte is one whose three upper bytes are zero.\<close>

lemma lt_256_iff_bytes:
  "w < 0x100 \<longleftrightarrow> w < 0x1000000 \<and> byte_of w 2 = 0 \<and> byte_of w (Suc 0) = 0" for w :: u32
proof
  assume "w < 0x100"
  then have "unat w < 2 ^ 8" by (simp add: word_less_nat_alt)
  then have "drop_bit 16 w = 0" "drop_bit 8 w = 0" "unat w < 2 ^ 24"
    by (simp_all add: drop_bit_eq_div unat_eq_zero [symmetric] unat_div del: unat_eq_zero)
  then show "w < 0x1000000 \<and> byte_of w 2 = 0 \<and> byte_of w (Suc 0) = 0"
    by (simp add: byte_of_def word_less_nat_alt)
next
  assume "w < 0x1000000 \<and> byte_of w 2 = 0 \<and> byte_of w (Suc 0) = 0"
  then have "make32 (byte_of w 0) 0 0 0 = w"
    using make32_byte_of [of w] byte_of_3_eq_0 [of w] by simp
  then have "w = ucast (byte_of w 0)" by (simp add: make32_def)
  moreover have "unat (ucast (byte_of w 0) :: u32) < 2 ^ 8"
  proof -
    have "unat (byte_of w 0) < 2 ^ 8" using unsigned_less [of "byte_of w 0"] by simp
    then show ?thesis by (simp add: unsigned_ucast_eq take_bit_nat_eq_self)
  qed
  ultimately have "unat w < 2 ^ 8" by simp
  then show "w < 0x100" by (simp add: word_less_nat_alt)
qed

lemma low_byte_roundtrip [wire]:
  "ucast (ucast (w AND 0xFF) :: byte) = w AND 0xFF" for w :: u64
proof -
  have "w AND 0xFF = take_bit 8 w" by (simp add: take_bit_eq_mask mask_eq_exp_minus_1)
  then show ?thesis by (simp only:) (rule bit_word_eqI, auto simp: bit_simps)
qed

lemma ucast_low_byte_eq_0 [wire]:
  "(ucast (w AND 0xFF) :: byte) = 0 \<longleftrightarrow> w AND 0xFF = 0" for w :: u64
  by (metis low_byte_roundtrip unsigned_0)

lemma and_idem_right [wire]: "(a AND m) AND m = a AND (m :: 'a::len word)"
  by (simp add: and.assoc)

text \<open>The data segment length shares its word with the additional header length in byte 4.\<close>

lemma mask24: "w AND 0xFFFFFF = take_bit 24 w" for w :: u32
  by (simp add: take_bit_eq_mask mask_eq_exp_minus_1)

lemma and_all_ones [wire]: "w AND 0xFFFFFFFF = w" for w :: u32
proof -
  have "w AND 0xFFFFFFFF = take_bit LENGTH(32) w"
    by (simp only: take_bit_eq_mask) (simp add: mask_eq_exp_minus_1)
  then show ?thesis by (simp only: take_bit_length_eq)
qed

lemma make32_length_ahs:
  "make32 (byte_of w 0) (byte_of w (Suc 0)) (byte_of w 2) b = push_bit 24 (ucast b) OR (w AND 0xFFFFFF)"
  for w :: u32
proof (rule bit_word_eqI)
  fix n assume "n < LENGTH(32)"
  then consider "n < 8" | "8 \<le> n" "n < 16" | "16 \<le> n" "n < 24" | "24 \<le> n" "n < 32"
    by (simp, linarith)
  then show "bit (make32 (byte_of w 0) (byte_of w (Suc 0)) (byte_of w 2) b) n =
      bit (push_bit 24 (ucast b) OR (w AND 0xFFFFFF)) n"
    by cases (auto simp: bit_make32 bit_byte_of mask24 bit_or_iff bit_take_bit_iff bit_push_byte)
qed

lemma ntohl_load32_ahs [wire]:
  "k + 3 < length h \<Longrightarrow>
   ntohl (load32 ((store32 h k (htonl w))[k := b]) k) = push_bit 24 (ucast b) OR (w AND 0xFFFFFF)"
  by (simp add: load32_def nth_store32 ntohl_def length_store byte_of_make32 byte_of_htonl
      make32_length_ahs)

lemma ahs_and_mask24 [wire]: "push_bit 24 x AND 0xFFFFFF = 0" for x :: u32
  by (simp only: mask24) (rule bit_word_eqI, auto simp: bit_simps)

subsection \<open>The header accessors of \<^verbatim>\<open>iscsi.h\<close>\<close>

definition iscsi_opcode :: "header \<Rightarrow> byte" where
  "iscsi_opcode h = h ! 0 AND 0x3f"

definition iscsi_itt :: "header \<Rightarrow> u32" where
  "iscsi_itt h = ntohl (load32 h 16)"

definition iscsi_ttt :: "header \<Rightarrow> u32" where
  "iscsi_ttt h = ntohl (load32 h 20)"

definition iscsi_len :: "header \<Rightarrow> u32" where
  "iscsi_len h = ntohl (load32 h 4) AND 0x00ffffff"

definition iscsi_lun :: "header \<Rightarrow> byte" where
  "iscsi_lun h = h ! 9"

definition iscsi_cmd_sn :: "header \<Rightarrow> u32" where
  "iscsi_cmd_sn h = ntohl (load32 h 24)"

lemmas iscsi_accessors =
  iscsi_opcode_def iscsi_itt_def iscsi_ttt_def iscsi_len_def iscsi_lun_def iscsi_cmd_sn_def

text \<open>Opcodes.\<close>

definition "ISCSI_NOP_OUT = (0x00 :: byte)"
definition "ISCSI_SCSI_CMD = (0x01 :: byte)"
definition "ISCSI_TASK_CMD = (0x02 :: byte)"
definition "ISCSI_LOGIN_CMD = (0x03 :: byte)"
definition "ISCSI_TEXT_CMD = (0x04 :: byte)"
definition "ISCSI_WRITE_DATA = (0x05 :: byte)"
definition "ISCSI_LOGOUT_CMD = (0x06 :: byte)"
definition "ISCSI_NOP_IN = (0x20 :: byte)"
definition "ISCSI_SCSI_RSP = (0x21 :: byte)"
definition "ISCSI_TASK_RSP = (0x22 :: byte)"
definition "ISCSI_LOGIN_RSP = (0x23 :: byte)"
definition "ISCSI_TEXT_RSP = (0x24 :: byte)"
definition "ISCSI_READ_DATA = (0x25 :: byte)"
definition "ISCSI_LOGOUT_RSP = (0x26 :: byte)"
definition "ISCSI_R2T = (0x31 :: byte)"
definition "ISCSI_REJECT = (0x3f :: byte)"
definition "ISCSI_ASYNC = (0x32 :: byte)"

lemmas opcodes =
  ISCSI_NOP_OUT_def ISCSI_SCSI_CMD_def ISCSI_TASK_CMD_def ISCSI_LOGIN_CMD_def
  ISCSI_TEXT_CMD_def ISCSI_WRITE_DATA_def ISCSI_LOGOUT_CMD_def ISCSI_NOP_IN_def
  ISCSI_SCSI_RSP_def ISCSI_TASK_RSP_def ISCSI_LOGIN_RSP_def ISCSI_TEXT_RSP_def
  ISCSI_READ_DATA_def ISCSI_LOGOUT_RSP_def ISCSI_R2T_def ISCSI_REJECT_def ISCSI_ASYNC_def

lemmas [wire] = ISCSI_HEADER_LEN_def iscsi_accessors opcodes

subsection \<open>The contract between a PDU writer and the matching reader\<close>

text \<open>
  Every PDU of \<^verbatim>\<open>iscsi.c\<close> has an \<^verbatim>\<open>_encap\<close> that fills a header from a structure and a
  \<^verbatim>\<open>_decap\<close> that fills a structure from a header and checks the reserved bytes.  \<open>wire_form p q\<close>
  is what a reader that passes in the structure \<open>q\<close> gets of a structure \<open>p\<close> that was sent;
  \<open>acceptable p\<close> says that the reader's checks pass.
\<close>

text \<open>
  What a reader's result \<open>r\<close> says: it left the structure \<open>v\<close>, and its status is 0 exactly
  under \<open>ok\<close>.
\<close>

definition received :: "int \<times> 'p \<Rightarrow> 'p \<Rightarrow> bool \<Rightarrow> bool" where
  "received r v ok \<longleftrightarrow> snd r = v \<and> (fst r = 0 \<longleftrightarrow> ok)"

locale pdu_codec =
  fixes encap :: "'p \<Rightarrow> header"
    and decap :: "header \<Rightarrow> 'p \<Rightarrow> int \<times> 'p"
    and wire_form :: "'p \<Rightarrow> 'p \<Rightarrow> 'p"
    and acceptable :: "'p \<Rightarrow> bool"
    and opcode :: byte
  assumes length_encap: "length (encap p) = ISCSI_HEADER_LEN"
    and opcode_encap: "iscsi_opcode (encap p) = opcode"
    and decap_value: "snd (decap (encap p) q) = wire_form p q"
    and decap_status: "fst (decap (encap p) q) = 0 \<longleftrightarrow> acceptable p"
    and decap_opcode: "iscsi_opcode h \<noteq> opcode \<Longrightarrow> fst (decap h q) \<noteq> 0 \<and> snd (decap h q) = q"
begin

lemma decap_encap: "acceptable p \<Longrightarrow> decap (encap p) q = (0, wire_form p q)"
  using decap_value [of p q] decap_status [of p q] by (metis prod.collapse)

lemma received_encap: "received (decap (encap p) q) (wire_form p q) (acceptable p)"
  by (simp add: received_def decap_value decap_status)

lemma decap_success_opcode: "fst (decap h q) = 0 \<Longrightarrow> iscsi_opcode h = opcode"
  using decap_opcode by blast

lemma encap_eq_imp: "encap p = encap p' \<Longrightarrow> wire_form p q = wire_form p' q"
  by (metis decap_value)

lemma encap_eq_acceptable: "encap p = encap p' \<Longrightarrow> acceptable p = acceptable p'"
  by (metis decap_status)

end

text \<open>
  A codec is stable when sending on what was received gives the same header again: the wire form
  is then a normal form.
\<close>

locale stable_codec = pdu_codec +
  assumes encap_wire_form: "encap (wire_form p q) = encap p"
begin

lemma wire_form_idem: "wire_form (wire_form p q) q' = wire_form p q'"
  by (metis decap_value encap_wire_form)

lemma acceptable_wire_form: "acceptable (wire_form p q) = acceptable p"
  by (metis decap_status encap_wire_form)

lemma encap_eq_iff: "encap p = encap p' \<longleftrightarrow> wire_form p q = wire_form p' q"
  by (metis decap_value encap_wire_form)

end

text \<open>A reader never accepts the header of a codec with another opcode.\<close>

locale distinct_codecs =
  a: pdu_codec encap decap wire_form acceptable opcode +
  b: pdu_codec encap' decap' wire_form' acceptable' opcode'
  for encap :: "'p \<Rightarrow> header" and decap wire_form acceptable opcode
    and encap' :: "'q \<Rightarrow> header" and decap' wire_form' acceptable' opcode' +
  assumes opcodes_differ: "opcode \<noteq> opcode'"
begin

lemma foreign_rejected:
  "fst (decap' (encap p) q) \<noteq> 0" "snd (decap' (encap p) q) = q"
  "fst (decap (encap' p') q') \<noteq> 0" "snd (decap (encap' p') q') = q'"
  using a.opcode_encap b.opcode_encap a.decap_opcode b.decap_opcode opcodes_differ by metis+

lemma encap_disjoint: "encap p \<noteq> encap' p'"
  using a.opcode_encap b.opcode_encap opcodes_differ by metis

end

end
