(* ===== verification/MD5.thy ===== *)
theory MD5
  imports Prelude
begin

section \<open>The message digest\<close>

text \<open>
  \<^verbatim>\<open>md5.c\<close>: a context that takes a message in pieces of any size (\<^verbatim>\<open>MD5Init\<close>, \<^verbatim>\<open>MD5Update\<close>) and gives
  its digest (\<^verbatim>\<open>MD5Final\<close>), with the unrolled \<^verbatim>\<open>MD5Transform\<close>.  \<^verbatim>\<open>in\<close> is its 64 bytes, read as 16
  little-endian words; \<^verbatim>\<open>byteSwap\<close> is empty on such hosts.  The second half states the algorithm as
  RFC 1321 defines it, on whole messages, and shows that the code computes it.
\<close>

subsection \<open>The code\<close>

type_synonym md5_state = "u32 \<times> u32 \<times> u32 \<times> u32"

record MD5Context =
  md_buf :: md5_state
  md_lo :: u32
  md_hi :: u32
  md_in :: "byte list"

definition MD5_F1 :: "u32 \<Rightarrow> u32 \<Rightarrow> u32 \<Rightarrow> u32" where
  "MD5_F1 x y z = z XOR (x AND (y XOR z))"

definition MD5_F2 :: "u32 \<Rightarrow> u32 \<Rightarrow> u32 \<Rightarrow> u32" where
  "MD5_F2 x y z = MD5_F1 z x y"

definition MD5_F3 :: "u32 \<Rightarrow> u32 \<Rightarrow> u32 \<Rightarrow> u32" where
  "MD5_F3 x y z = x XOR y XOR z"

definition MD5_F4 :: "u32 \<Rightarrow> u32 \<Rightarrow> u32 \<Rightarrow> u32" where
  "MD5_F4 x y z = y XOR (x OR NOT z)"

definition MD5STEP ::
  "(u32 \<Rightarrow> u32 \<Rightarrow> u32 \<Rightarrow> u32) \<Rightarrow> u32 \<Rightarrow> u32 \<Rightarrow> u32 \<Rightarrow> u32 \<Rightarrow> u32 \<Rightarrow> nat \<Rightarrow> u32" where
  "MD5STEP f w x y z inp s =
    (let w = w + (f x y z + inp) in (push_bit s w OR drop_bit (32 - s) w) + x)"

text \<open>The four rounds of \<^verbatim>\<open>MD5Transform\<close>; \<open>w i\<close> is \<^verbatim>\<open>in[i]\<close>.\<close>

definition MD5Transform_1 :: "(nat \<Rightarrow> u32) \<Rightarrow> md5_state \<Rightarrow> md5_state" where
  "MD5Transform_1 w = (\<lambda>(a, b, c, d).
     let a = MD5STEP MD5_F1 a b c d (w 0 + 0xd76aa478) 7;
         d = MD5STEP MD5_F1 d a b c (w 1 + 0xe8c7b756) 12;
         c = MD5STEP MD5_F1 c d a b (w 2 + 0x242070db) 17;
         b = MD5STEP MD5_F1 b c d a (w 3 + 0xc1bdceee) 22;
         a = MD5STEP MD5_F1 a b c d (w 4 + 0xf57c0faf) 7;
         d = MD5STEP MD5_F1 d a b c (w 5 + 0x4787c62a) 12;
         c = MD5STEP MD5_F1 c d a b (w 6 + 0xa8304613) 17;
         b = MD5STEP MD5_F1 b c d a (w 7 + 0xfd469501) 22;
         a = MD5STEP MD5_F1 a b c d (w 8 + 0x698098d8) 7;
         d = MD5STEP MD5_F1 d a b c (w 9 + 0x8b44f7af) 12;
         c = MD5STEP MD5_F1 c d a b (w 10 + 0xffff5bb1) 17;
         b = MD5STEP MD5_F1 b c d a (w 11 + 0x895cd7be) 22;
         a = MD5STEP MD5_F1 a b c d (w 12 + 0x6b901122) 7;
         d = MD5STEP MD5_F1 d a b c (w 13 + 0xfd987193) 12;
         c = MD5STEP MD5_F1 c d a b (w 14 + 0xa679438e) 17;
         b = MD5STEP MD5_F1 b c d a (w 15 + 0x49b40821) 22
     in (a, b, c, d))"

definition MD5Transform_2 :: "(nat \<Rightarrow> u32) \<Rightarrow> md5_state \<Rightarrow> md5_state" where
  "MD5Transform_2 w = (\<lambda>(a, b, c, d).
     let a = MD5STEP MD5_F2 a b c d (w 1 + 0xf61e2562) 5;
         d = MD5STEP MD5_F2 d a b c (w 6 + 0xc040b340) 9;
         c = MD5STEP MD5_F2 c d a b (w 11 + 0x265e5a51) 14;
         b = MD5STEP MD5_F2 b c d a (w 0 + 0xe9b6c7aa) 20;
         a = MD5STEP MD5_F2 a b c d (w 5 + 0xd62f105d) 5;
         d = MD5STEP MD5_F2 d a b c (w 10 + 0x02441453) 9;
         c = MD5STEP MD5_F2 c d a b (w 15 + 0xd8a1e681) 14;
         b = MD5STEP MD5_F2 b c d a (w 4 + 0xe7d3fbc8) 20;
         a = MD5STEP MD5_F2 a b c d (w 9 + 0x21e1cde6) 5;
         d = MD5STEP MD5_F2 d a b c (w 14 + 0xc33707d6) 9;
         c = MD5STEP MD5_F2 c d a b (w 3 + 0xf4d50d87) 14;
         b = MD5STEP MD5_F2 b c d a (w 8 + 0x455a14ed) 20;
         a = MD5STEP MD5_F2 a b c d (w 13 + 0xa9e3e905) 5;
         d = MD5STEP MD5_F2 d a b c (w 2 + 0xfcefa3f8) 9;
         c = MD5STEP MD5_F2 c d a b (w 7 + 0x676f02d9) 14;
         b = MD5STEP MD5_F2 b c d a (w 12 + 0x8d2a4c8a) 20
     in (a, b, c, d))"

definition MD5Transform_3 :: "(nat \<Rightarrow> u32) \<Rightarrow> md5_state \<Rightarrow> md5_state" where
  "MD5Transform_3 w = (\<lambda>(a, b, c, d).
     let a = MD5STEP MD5_F3 a b c d (w 5 + 0xfffa3942) 4;
         d = MD5STEP MD5_F3 d a b c (w 8 + 0x8771f681) 11;
         c = MD5STEP MD5_F3 c d a b (w 11 + 0x6d9d6122) 16;
         b = MD5STEP MD5_F3 b c d a (w 14 + 0xfde5380c) 23;
         a = MD5STEP MD5_F3 a b c d (w 1 + 0xa4beea44) 4;
         d = MD5STEP MD5_F3 d a b c (w 4 + 0x4bdecfa9) 11;
         c = MD5STEP MD5_F3 c d a b (w 7 + 0xf6bb4b60) 16;
         b = MD5STEP MD5_F3 b c d a (w 10 + 0xbebfbc70) 23;
         a = MD5STEP MD5_F3 a b c d (w 13 + 0x289b7ec6) 4;
         d = MD5STEP MD5_F3 d a b c (w 0 + 0xeaa127fa) 11;
         c = MD5STEP MD5_F3 c d a b (w 3 + 0xd4ef3085) 16;
         b = MD5STEP MD5_F3 b c d a (w 6 + 0x04881d05) 23;
         a = MD5STEP MD5_F3 a b c d (w 9 + 0xd9d4d039) 4;
         d = MD5STEP MD5_F3 d a b c (w 12 + 0xe6db99e5) 11;
         c = MD5STEP MD5_F3 c d a b (w 15 + 0x1fa27cf8) 16;
         b = MD5STEP MD5_F3 b c d a (w 2 + 0xc4ac5665) 23
     in (a, b, c, d))"

definition MD5Transform_4 :: "(nat \<Rightarrow> u32) \<Rightarrow> md5_state \<Rightarrow> md5_state" where
  "MD5Transform_4 w = (\<lambda>(a, b, c, d).
     let a = MD5STEP MD5_F4 a b c d (w 0 + 0xf4292244) 6;
         d = MD5STEP MD5_F4 d a b c (w 7 + 0x432aff97) 10;
         c = MD5STEP MD5_F4 c d a b (w 14 + 0xab9423a7) 15;
         b = MD5STEP MD5_F4 b c d a (w 5 + 0xfc93a039) 21;
         a = MD5STEP MD5_F4 a b c d (w 12 + 0x655b59c3) 6;
         d = MD5STEP MD5_F4 d a b c (w 3 + 0x8f0ccc92) 10;
         c = MD5STEP MD5_F4 c d a b (w 10 + 0xffeff47d) 15;
         b = MD5STEP MD5_F4 b c d a (w 1 + 0x85845dd1) 21;
         a = MD5STEP MD5_F4 a b c d (w 8 + 0x6fa87e4f) 6;
         d = MD5STEP MD5_F4 d a b c (w 15 + 0xfe2ce6e0) 10;
         c = MD5STEP MD5_F4 c d a b (w 6 + 0xa3014314) 15;
         b = MD5STEP MD5_F4 b c d a (w 13 + 0x4e0811a1) 21;
         a = MD5STEP MD5_F4 a b c d (w 4 + 0xf7537e82) 6;
         d = MD5STEP MD5_F4 d a b c (w 11 + 0xbd3af235) 10;
         c = MD5STEP MD5_F4 c d a b (w 2 + 0x2ad7d2bb) 15;
         b = MD5STEP MD5_F4 b c d a (w 9 + 0xeb86d391) 21
     in (a, b, c, d))"

definition MD5Transform :: "md5_state \<Rightarrow> byte list \<Rightarrow> md5_state" where
  "MD5Transform buf inp =
    (let w = (\<lambda>i. load32 inp (4 * i));
         (a, b, c, d) = MD5Transform_4 w (MD5Transform_3 w (MD5Transform_2 w (MD5Transform_1 w buf)));
         (a0, b0, c0, d0) = buf
     in (a0 + a, b0 + b, c0 + c, d0 + d))"

definition MD5Init :: "MD5Context \<Rightarrow> MD5Context" where
  "MD5Init ctx = ctx
    \<lparr>md_buf := (0x67452301, 0xefcdab89, 0x98badcfe, 0x10325476), md_lo := 0, md_hi := 0\<rparr>"

text \<open>\<^verbatim>\<open>MD5Transform(ctx->buf, ctx->in)\<close>.\<close>

definition transform :: "MD5Context \<Rightarrow> MD5Context" where
  "transform ctx = ctx\<lparr>md_buf := MD5Transform (md_buf ctx) (md_in ctx)\<rparr>"

text \<open>The loop over chunks of 64 bytes, and the remaining bytes.\<close>

function MD5Update_loop :: "MD5Context \<Rightarrow> byte list \<Rightarrow> u32 \<Rightarrow> MD5Context" where
  "MD5Update_loop ctx buf len =
    (if len \<ge> 64
     then MD5Update_loop (transform (ctx\<lparr>md_in := memcpy (md_in ctx) 0 (take 64 buf)\<rparr>))
            (drop 64 buf) (len - 64)
     else ctx\<lparr>md_in := memcpy (md_in ctx) 0 (take (unat len) buf)\<rparr>)"
  by pat_completeness auto

termination
  by (relation "measure (\<lambda>(ctx, buf, len). unat len)")
    (auto simp: unat_sub word_le_nat_alt)

declare MD5Update_loop.simps [simp del]

definition MD5Update :: "MD5Context \<Rightarrow> byte list \<Rightarrow> u32 \<Rightarrow> MD5Context" where
  "MD5Update ctx buf len =
    (let t = md_lo ctx;
         ctx = ctx\<lparr>md_lo := t + len\<rparr>;
         ctx = (if md_lo ctx < t then ctx\<lparr>md_hi := md_hi ctx + 1\<rparr> else ctx);
         t = 64 - (t AND 0x3f)
     in if t > len
        then ctx\<lparr>md_in := memcpy (md_in ctx) (64 - unat t) (take (unat len) buf)\<rparr>
        else MD5Update_loop
               (transform (ctx\<lparr>md_in := memcpy (md_in ctx) (64 - unat t) (take (unat t) buf)\<rparr>))
               (drop (unat t) buf) (len - t))"

definition word_bytes :: "u32 \<Rightarrow> byte list" where
  "word_bytes w = map (byte_of w) [0..<4]"

text \<open>
  The digest, and the context that is left: \<^verbatim>\<open>memset(ctx, 0, sizeof(ctx))\<close> clears the 8 bytes of a
  pointer, which are the first two words of \<^verbatim>\<open>buf\<close>.
\<close>

definition MD5Final :: "MD5Context \<Rightarrow> byte list \<times> MD5Context" where
  "MD5Final ctx =
    (let cnt = unat (md_lo ctx AND 0x3f);
         ctx = ctx\<lparr>md_in := (md_in ctx)[cnt := 0x80]\<rparr>;
         p = cnt + 1;
         room = 56 - 1 - int cnt;
         (ctx, p, room) =
           (if room < 0
            then (transform (ctx\<lparr>md_in := memcpy (md_in ctx) p (replicate (nat (room + 8)) 0)\<rparr>), 0, 56)
            else (ctx, p, room));
         ctx = ctx\<lparr>md_in := memcpy (md_in ctx) p (replicate (nat room) 0)\<rparr>;
         ctx = ctx\<lparr>md_in := store32 (md_in ctx) 56 (push_bit 3 (md_lo ctx))\<rparr>;
         ctx = ctx\<lparr>md_in := store32 (md_in ctx) 60
                     (push_bit 3 (md_hi ctx) OR drop_bit 29 (md_lo ctx))\<rparr>;
         ctx = transform ctx;
         (a, b, c, d) = md_buf ctx
     in (concat (map word_bytes [a, b, c, d]), ctx\<lparr>md_buf := (0, 0, c, d)\<rparr>))"

subsection \<open>The algorithm of RFC 1321\<close>

definition rfc_F :: "nat \<Rightarrow> u32 \<Rightarrow> u32 \<Rightarrow> u32 \<Rightarrow> u32" where
  "rfc_F r x y z =
    (if r = 0 then (x AND y) OR (NOT x AND z)
     else if r = 1 then (x AND z) OR (y AND NOT z)
     else if r = 2 then x XOR y XOR z
     else y XOR (x OR NOT z))"

text \<open>Which word of the block, and by how many bits, in step \<open>i\<close>.\<close>

definition rfc_k :: "nat \<Rightarrow> nat" where
  "rfc_k i = [i, 5 * i + 1, 3 * i + 5, 7 * i] ! (i div 16) mod 16"

definition rfc_s :: "nat \<Rightarrow> nat" where
  "rfc_s i = [[7, 12, 17, 22], [5, 9, 14, 20], [4, 11, 16, 23], [6, 10, 15, 21]] ! (i div 16) ! (i mod 4)"

text \<open>The table of the integer parts of \<open>2\<^sup>3\<^sup>2 |sin (i + 1)|\<close>.\<close>

definition rfc_T :: "u32 list" where
  "rfc_T = [
     0xd76aa478, 0xe8c7b756, 0x242070db, 0xc1bdceee, 0xf57c0faf, 0x4787c62a, 0xa8304613,
     0xfd469501, 0x698098d8, 0x8b44f7af, 0xffff5bb1, 0x895cd7be, 0x6b901122, 0xfd987193,
     0xa679438e, 0x49b40821, 0xf61e2562, 0xc040b340, 0x265e5a51, 0xe9b6c7aa, 0xd62f105d,
     0x02441453, 0xd8a1e681, 0xe7d3fbc8, 0x21e1cde6, 0xc33707d6, 0xf4d50d87, 0x455a14ed,
     0xa9e3e905, 0xfcefa3f8, 0x676f02d9, 0x8d2a4c8a, 0xfffa3942, 0x8771f681, 0x6d9d6122,
     0xfde5380c, 0xa4beea44, 0x4bdecfa9, 0xf6bb4b60, 0xbebfbc70, 0x289b7ec6, 0xeaa127fa,
     0xd4ef3085, 0x04881d05, 0xd9d4d039, 0xe6db99e5, 0x1fa27cf8, 0xc4ac5665, 0xf4292244,
     0x432aff97, 0xab9423a7, 0xfc93a039, 0x655b59c3, 0x8f0ccc92, 0xffeff47d, 0x85845dd1,
     0x6fa87e4f, 0xfe2ce6e0, 0xa3014314, 0x4e0811a1, 0xf7537e82, 0xbd3af235, 0x2ad7d2bb,
     0xeb86d391]"

definition rfc_step :: "(nat \<Rightarrow> u32) \<Rightarrow> nat \<Rightarrow> md5_state \<Rightarrow> md5_state" where
  "rfc_step X i = (\<lambda>(a, b, c, d).
     let x = b + word_rotl (rfc_s i) (a + rfc_F (i div 16) b c d + X (rfc_k i) + rfc_T ! i)
     in (d, x, b, c))"

fun rfc_steps :: "(nat \<Rightarrow> u32) \<Rightarrow> nat list \<Rightarrow> md5_state \<Rightarrow> md5_state" where
  "rfc_steps X [] s = s"
| "rfc_steps X (i # is) s = rfc_steps X is (rfc_step X i s)"

definition rfc_compress :: "md5_state \<Rightarrow> byte list \<Rightarrow> md5_state" where
  "rfc_compress s block =
    (case (s, rfc_steps (\<lambda>j. load32 block (4 * j)) [0..<64] s) of
       ((a, b, c, d), (a', b', c', d')) \<Rightarrow> (a + a', b + b', c + c', d + d'))"

text \<open>All full blocks of a message.\<close>

function rfc_blocks :: "md5_state \<Rightarrow> byte list \<Rightarrow> md5_state" where
  "rfc_blocks s m = (if length m < 64 then s else rfc_blocks (rfc_compress s (take 64 m)) (drop 64 m))"
  by pat_completeness auto

termination
  by (relation "measure (\<lambda>(s, m). length m)") auto

declare rfc_blocks.simps [simp del]

definition rfc_padding :: "nat \<Rightarrow> byte list" where
  "rfc_padding n = 0x80 # replicate ((119 - n mod 64) mod 64) 0 @
     map (byte_of (of_nat (8 * n) :: u64)) [0..<8]"

definition rfc_md5 :: "byte list \<Rightarrow> byte list" where
  "rfc_md5 m =
    (case rfc_blocks (0x67452301, 0xefcdab89, 0x98badcfe, 0x10325476) (m @ rfc_padding (length m)) of
       (a, b, c, d) \<Rightarrow> concat (map word_bytes [a, b, c, d]))"

subsection \<open>The unrolled rounds\<close>

lemma MD5_F_rfc:
  "MD5_F1 x y z = rfc_F 0 x y z" "MD5_F2 x y z = rfc_F 1 x y z"
  "MD5_F3 x y z = rfc_F 2 x y z" "MD5_F4 x y z = rfc_F 3 x y z"
  unfolding MD5_F1_def MD5_F2_def MD5_F3_def MD5_F4_def rfc_F_def
  by ((rule bit_word_eqI, simp add: bit_simps, blast), (rule bit_word_eqI, simp add: bit_simps, blast), simp_all)

lemma rotate_left:
  assumes "s < 32"
  shows "push_bit s w OR drop_bit (32 - s) w = word_rotl s (w :: u32)"
proof (rule bit_word_eqI)
  fix n assume n: "n < LENGTH(32)"
  show "bit (push_bit s w OR drop_bit (32 - s) w) n = bit (word_rotl s w) n"
  proof (cases "s \<le> n")
    case True
    then have "(n + (32 - s)) mod 32 = n - s" "32 \<le> 32 - s + n" using n assms by (simp_all add: mod_if)
    then show ?thesis using True n assms by (auto simp: bit_simps bit_word_rotl_iff dest: bit_imp_le_length)
  next
    case False
    then have "(n + (32 - s)) mod 32 = 32 - s + n" using n assms by simp
    then show ?thesis using False n assms by (auto simp: bit_simps bit_word_rotl_iff)
  qed
qed

lemma MD5STEP_rfc:
  "s < 32 \<Longrightarrow> MD5STEP f w x y z (X k + t) s = x + word_rotl s (w + f x y z + X k + t)"
  by (simp add: MD5STEP_def rotate_left ac_simps)

text \<open>A step of the reference as a binding, so that a run of steps keeps its sharing.\<close>

lemma rfc_steps_let:
  "rfc_steps X (i # is) (a, b, c, d) =
    (let x = b + word_rotl (rfc_s i) (a + rfc_F (i div 16) b c d + X (rfc_k i) + rfc_T ! i)
     in rfc_steps X is (d, x, b, c))"
  by (simp add: rfc_step_def Let_def)

lemma bind_eq: "x = y \<Longrightarrow> (\<And>v. f v = g v) \<Longrightarrow> Let x f = Let y g"
  by simp

lemmas rounds = MD5Transform_1_def MD5Transform_2_def MD5Transform_3_def MD5Transform_4_def

lemma rfc_steps_append: "rfc_steps X (is @ js) s = rfc_steps X js (rfc_steps X is s)"
  by (induction "is" arbitrary: s) simp_all

lemma MD5Transform_1_rfc: "MD5Transform_1 X s = rfc_steps X [0,1,2,3,4,5,6,7,8,9,10,11,12,13,14,15] s"
proof (cases s)
  case (fields a b c d)
  show ?thesis unfolding fields rounds prod.case
    by (simp only: rfc_steps_let rfc_steps.simps(1))
      (intro bind_eq; simp add: MD5STEP_rfc MD5_F_rfc rfc_s_def rfc_k_def rfc_T_def)
qed

lemma MD5Transform_2_rfc: "MD5Transform_2 X s = rfc_steps X [16,17,18,19,20,21,22,23,24,25,26,27,28,29,30,31] s"
proof (cases s)
  case (fields a b c d)
  show ?thesis unfolding fields rounds prod.case
    by (simp only: rfc_steps_let rfc_steps.simps(1))
      (intro bind_eq; simp add: MD5STEP_rfc MD5_F_rfc rfc_s_def rfc_k_def rfc_T_def)
qed

lemma MD5Transform_3_rfc: "MD5Transform_3 X s = rfc_steps X [32,33,34,35,36,37,38,39,40,41,42,43,44,45,46,47] s"
proof (cases s)
  case (fields a b c d)
  show ?thesis unfolding fields rounds prod.case
    by (simp only: rfc_steps_let rfc_steps.simps(1))
      (intro bind_eq; simp add: MD5STEP_rfc MD5_F_rfc rfc_s_def rfc_k_def rfc_T_def)
qed

lemma MD5Transform_4_rfc: "MD5Transform_4 X s = rfc_steps X [48,49,50,51,52,53,54,55,56,57,58,59,60,61,62,63] s"
proof (cases s)
  case (fields a b c d)
  show ?thesis unfolding fields rounds prod.case
    by (simp only: rfc_steps_let rfc_steps.simps(1))
      (intro bind_eq; simp add: MD5STEP_rfc MD5_F_rfc rfc_s_def rfc_k_def rfc_T_def)
qed

lemma MD5Transform_rfc: "MD5Transform buf inp = rfc_compress buf inp"
proof -
  have "[0..<64] = [0..<16] @ [16..<32] @ [32..<48] @ [48..<(64::nat)]"
    using upt_add_eq_append [of 0 16 16] upt_add_eq_append [of 0 32 16] upt_add_eq_append [of 0 48 16]
    by simp
  moreover have "[0..<16] = [0,1,2,3,4,5,6,7,8,9,10,11,12,13,14,15]"
    "[16..<32] = [16,17,18,19,20,21,22,23,24,25,26,27,28,29,30,31]"
    "[32..<48] = [32,33,34,35,36,37,38,39,40,41,42,43,44,45,46,47]"
    "[48..<64] = [48,49,50,51,52,53,54,55,56,57,58,59,60,61,62,63::nat]"
    by (simp_all add: upt_rec)
  ultimately have "[0..<64] = [0,1,2,3,4,5,6,7,8,9,10,11,12,13,14,15] @
      [16,17,18,19,20,21,22,23,24,25,26,27,28,29,30,31] @
      [32,33,34,35,36,37,38,39,40,41,42,43,44,45,46,47] @
      [48,49,50,51,52,53,54,55,56,57,58,59,60,61,62,63::nat]"
    by simp
  then show ?thesis
    by (simp only: MD5Transform_def rfc_compress_def rfc_steps_append Let_def MD5Transform_1_rfc
        MD5Transform_2_rfc MD5Transform_3_rfc MD5Transform_4_rfc)
      (simp split: prod.splits)
qed

subsection \<open>A message in pieces\<close>

lemma rfc_blocks_append:
  "64 dvd length xs \<Longrightarrow> rfc_blocks s (xs @ ys) = rfc_blocks (rfc_blocks s xs) ys"
proof (induction s xs rule: rfc_blocks.induct)
  case (1 s xs)
  show ?case
  proof (cases "length xs < 64")
    case True
    then have "xs = []" using 1(2) by (cases xs) (auto dest: dvd_imp_le)
    then show ?thesis by (simp add: rfc_blocks.simps [of s "[]"])
  next
    case False
    then have "rfc_blocks (rfc_compress s (take 64 xs)) (drop 64 xs @ ys) =
        rfc_blocks (rfc_blocks (rfc_compress s (take 64 xs)) (drop 64 xs)) ys"
      using 1 by simp
    then show ?thesis
      using False by (simp add: rfc_blocks.simps [of s "xs @ ys"] rfc_blocks.simps [of s xs])
  qed
qed

lemma rfc_blocks_one: "length b = 64 \<Longrightarrow> rfc_blocks s b = rfc_compress s b"
  by (simp add: rfc_blocks.simps)

lemma transform_simps [simp]:
  "md_buf (transform ctx) = rfc_compress (md_buf ctx) (md_in ctx)" "md_in (transform ctx) = md_in ctx"
  "md_lo (transform ctx) = md_lo ctx" "md_hi (transform ctx) = md_hi ctx"
  by (simp_all add: transform_def MD5Transform_rfc)

lemma MD5Update_loop_blocks:
  assumes "length (md_in ctx) = 64" "unat len = length buf"
  shows "md_buf (MD5Update_loop ctx buf len) = rfc_blocks (md_buf ctx) buf \<and>
    md_lo (MD5Update_loop ctx buf len) = md_lo ctx \<and> md_hi (MD5Update_loop ctx buf len) = md_hi ctx \<and>
    length (md_in (MD5Update_loop ctx buf len)) = 64 \<and>
    take (length buf mod 64) (md_in (MD5Update_loop ctx buf len)) = drop (length buf - length buf mod 64) buf"
  using assms
proof (induction ctx buf len rule: MD5Update_loop.induct)
  case (1 ctx buf len)
  show ?case
  proof (cases "len \<ge> 64")
    case True
    then have n: "64 \<le> length buf" "unat (len - 64) = length (drop 64 buf)"
      using 1(3) by (simp_all add: word_le_nat_alt unat_sub)
    let ?ctx = "transform (ctx\<lparr>md_in := memcpy (md_in ctx) 0 (take 64 buf)\<rparr>)"
    have "md_in ?ctx = take 64 buf" "md_buf ?ctx = rfc_compress (md_buf ctx) (take 64 buf)"
      using 1(2) n by (simp_all add: memcpy_def)
    moreover have "length (drop 64 buf) mod 64 = length buf mod 64"
      using n(1) by (simp add: le_mod_geq)
    moreover have "drop (length (drop 64 buf) - length buf mod 64) (drop 64 buf) =
        drop (length buf - length buf mod 64) buf"
    proof -
      have "length buf mod 64 \<le> length buf - 64"
        using n(1) by (metis le_mod_geq mod_less_eq_dividend)
      then have "length (drop 64 buf) - length buf mod 64 + 64 = length buf - length buf mod 64"
        using n(1) by simp
      then show ?thesis by (simp add: drop_drop)
    qed
    ultimately show ?thesis
      using 1(1) [OF True] 1(2) n True
      by (simp add: MD5Update_loop.simps [of ctx buf len] rfc_blocks.simps [of "md_buf ctx" buf])
  next
    case False
    then have "length buf < 64" using 1(3) by (simp add: word_le_nat_alt)
    then show ?thesis
      using False 1(2,3)
      by (simp add: MD5Update_loop.simps [of ctx buf len] rfc_blocks.simps [of "md_buf ctx" buf] memcpy_def)
  qed
qed

definition md5_start :: md5_state where
  "md5_start = (0x67452301, 0xefcdab89, 0x98badcfe, 0x10325476)"

text \<open>The context has taken the message \<open>m\<close>: its full blocks are digested, the rest is in \<^verbatim>\<open>in\<close>.\<close>

definition took :: "byte list \<Rightarrow> MD5Context \<Rightarrow> bool" where
  "took m ctx \<longleftrightarrow> length (md_in ctx) = 64 \<and> md_lo ctx = of_nat (length m) \<and>
     md_hi ctx = of_nat (length m div 2 ^ 32) \<and> md_buf ctx = rfc_blocks md5_start m \<and>
     take (length m mod 64) (md_in ctx) = drop (length m - length m mod 64) m"

lemma took_init: "length (md_in ctx) = 64 \<Longrightarrow> took [] (MD5Init ctx)"
  by (simp add: took_def MD5Init_def md5_start_def rfc_blocks.simps)

lemma unat_of_nat32: "unat (of_nat n :: u32) = n mod 2 ^ 32"
  by (simp add: unsigned_of_nat take_bit_eq_mod)

lemma low_bits: "unat ((of_nat n :: u32) AND 0x3f) = n mod 64"
proof -
  have "(of_nat n :: u32) AND 0x3f = take_bit 6 (of_nat n)"
    using take_bit_eq_mask [of 6 "of_nat n :: u32"] by (simp add: mask_eq_exp_minus_1)
  also have "unat \<dots> = n mod 2 ^ 32 mod 2 ^ 6"
    by (simp only: unsigned_take_bit_eq) (simp only: take_bit_eq_mod unat_of_nat32)
  finally have "unat ((of_nat n :: u32) AND 0x3f) = n mod 2 ^ 32 mod 2 ^ 6" .
  then show ?thesis by (simp add: mod_mod_cancel)
qed

text \<open>The 64-bit count of bytes in two words.\<close>

lemma count_carry:
  assumes "k < 2 ^ 32"
  shows "(of_nat n + of_nat k :: u32) = of_nat (n + k)"
    "(if of_nat n + of_nat k < (of_nat n :: u32) then of_nat (n div 2 ^ 32) + 1 else of_nat (n div 2 ^ 32) :: u32)
      = of_nat ((n + k) div 2 ^ 32)"
proof -
  show "(of_nat n + of_nat k :: u32) = of_nat (n + k)" by simp
  have "of_nat (n + k) < (of_nat n :: u32) \<longleftrightarrow> (n + k) mod 2 ^ 32 < n mod 2 ^ 32"
    by (simp only: word_less_nat_alt unat_of_nat32)
  also have "\<dots> \<longleftrightarrow> 2 ^ 32 \<le> n mod 2 ^ 32 + k"
    using assms by (auto simp: mod_add_eq [symmetric, of n] mod_if [of "n mod 4294967296 + k"] not_less)
  finally have less: "of_nat (n + k) < (of_nat n :: u32) \<longleftrightarrow> 2 ^ 32 \<le> n mod 2 ^ 32 + k" .
  have div: "(n + k) div 2 ^ 32 = n div 2 ^ 32 + (if 2 ^ 32 \<le> n mod 2 ^ 32 + k then 1 else 0)"
  proof -
    have "n + k = n div 2 ^ 32 * 2 ^ 32 + (n mod 2 ^ 32 + k)" by simp
    then have "(n + k) div 2 ^ 32 = n div 2 ^ 32 + (n mod 2 ^ 32 + k) div 2 ^ 32"
      by (metis div_mult_self3 zero_neq_numeral power_not_zero)
    moreover have "n mod 2 ^ 32 < 2 ^ 32" by simp
    ultimately show ?thesis using assms by (auto simp: div_if not_less)
  qed
  show "(if of_nat n + of_nat k < (of_nat n :: u32) then of_nat (n div 2 ^ 32) + 1 else of_nat (n div 2 ^ 32) :: u32)
      = of_nat ((n + k) div 2 ^ 32)"
    unfolding div of_nat_add using less by simp
qed

lemma took_length:
  "took m ctx \<Longrightarrow> unat (64 - (md_lo ctx AND 0x3f)) = 64 - length m mod 64"
  using low_bits [of "length m"] unat_sub [of "of_nat (length m) AND 0x3f :: u32" 64]
  by (simp add: took_def word_le_nat_alt)

lemma take_memcpy: "k \<le> length h \<Longrightarrow> take (k + length bs) (memcpy h k bs) = take k h @ bs"
  by (simp add: memcpy_def)

lemma rest_of_append:
  assumes "64 dvd length xs"
  shows "length (xs @ ys) mod 64 = length ys mod 64 \<and>
    drop (length (xs @ ys) - length ys mod 64) (xs @ ys) = drop (length ys - length ys mod 64) ys"
proof -
  obtain c where "length xs = 64 * c" using assms by blast
  moreover have "length xs + length ys - length ys mod 64 = length xs + (length ys - length ys mod 64)"
    by simp
  ultimately show ?thesis by simp
qed

lemma split_blocks:
  obtains full part where "m = full @ part" "64 dvd length full" "length part = length m mod 64"
    "drop (length m - length m mod 64) m = part"
proof
  let ?k = "length m - length m mod 64"
  show "m = take ?k m @ drop ?k m" by simp
  show "64 dvd length (take ?k m)" by (simp add: dvd_minus_mod)
  show "length (drop ?k m) = length m mod 64" by simp
qed simp

lemma blocks_short: "length m < 64 \<Longrightarrow> rfc_blocks s m = s"
  by (simp add: rfc_blocks.simps)

lemma took_update:
  assumes t: "took m ctx" and len: "length bs < 2 ^ 32"
  shows "took (m @ bs) (MD5Update ctx bs (of_nat (length bs)))"
proof -
  obtain full part where m: "m = full @ part" "64 dvd length full" "length part = length m mod 64"
    "drop (length m - length m mod 64) m = part"
    by (rule split_blocks)
  define n r k where "n = length m" "r = length part" "k = length bs"
  let ?lo = "md_lo ctx + of_nat k"
  define c1 where "c1 = (if ?lo < md_lo ctx then ctx\<lparr>md_lo := ?lo, md_hi := md_hi ctx + 1\<rparr> else ctx\<lparr>md_lo := ?lo\<rparr>)"
  have r: "r < 64" "n mod 64 = r" using m(3) by (simp_all add: n_r_k_def)
  have k: "unat (of_nat k :: u32) = k" using len by (simp add: unat_of_nat32 n_r_k_def)
  have c1: "md_lo c1 = of_nat (length (m @ bs))" "md_hi c1 = of_nat (length (m @ bs) div 2 ^ 32)"
    "md_buf c1 = md_buf ctx" "md_in c1 = md_in ctx"
    using t count_carry [OF len, of "length m"] by (auto simp: c1_def took_def n_r_k_def split: if_splits)
  have inb: "length (md_in ctx) = 64" "take r (md_in ctx) = part"
    using t m(3,4) by (simp_all add: took_def n_r_k_def)
  have buf: "md_buf ctx = rfc_blocks md5_start full"
    using t r(1) rfc_blocks_append [OF m(2), of md5_start part]
    by (simp add: took_def m(1) n_r_k_def blocks_short)
  have room: "unat (64 - (md_lo ctx AND 0x3f)) = 64 - r" "64 - (64 - r) = r"
    using took_length [OF t] r by (simp_all add: n_r_k_def)
  have less: "of_nat k < (64 - (md_lo ctx AND 0x3f) :: u32) \<longleftrightarrow> k < 64 - r"
    using room k by (simp add: word_less_nat_alt)
  have upd: "MD5Update ctx bs (of_nat k) =
    (if k < 64 - r then c1\<lparr>md_in := memcpy (md_in ctx) r bs\<rparr>
     else MD5Update_loop (transform (c1\<lparr>md_in := memcpy (md_in ctx) r (take (64 - r) bs)\<rparr>))
       (drop (64 - r) bs) (of_nat k - (64 - (md_lo ctx AND 0x3f))))"
    using k room less n_r_k_def(3)
    by (simp add: MD5Update_def Let_def c1_def [symmetric] c1(4)) (simp add: c1_def)
  show ?thesis
  proof (cases "k < 64 - r")
    case True
    have short: "length (part @ bs) < 64" using True by (simp add: n_r_k_def)
    then have bl: "rfc_blocks md5_start (m @ bs) = rfc_blocks md5_start full"
      using rfc_blocks_append [OF m(2), of md5_start "part @ bs"] by (simp add: m(1) blocks_short)
    have "length (m @ bs) mod 64 = length (part @ bs)"
      and "drop (length (m @ bs) - length (part @ bs)) (m @ bs) = part @ bs"
      using rest_of_append [OF m(2), of "part @ bs"] short by (simp_all add: m(1))
    moreover have "take (r + k) (memcpy (md_in ctx) r bs) = part @ bs"
      using take_memcpy [of r "md_in ctx" bs] inb r by (simp add: n_r_k_def)
    moreover have "length (memcpy (md_in ctx) r bs) = 64"
      using inb(1) True by (simp add: length_memcpy n_r_k_def)
    moreover have "MD5Update ctx bs (of_nat k) = c1\<lparr>md_in := memcpy (md_in ctx) r bs\<rparr>"
      using True upd by simp
    ultimately show ?thesis
      using bl buf c1 unfolding took_def n_r_k_def by simp
  next
    case False
    obtain b1 b2 where b: "bs = b1 @ b2" "length b1 = 64 - r" "take (64 - r) bs = b1" "drop (64 - r) bs = b2"
      using False by (metis append_take_drop_id length_take min.absorb2 n_r_k_def(3) not_less)
    define c2 where "c2 = transform (c1\<lparr>md_in := memcpy (md_in ctx) r b1\<rparr>)"
    have blk: "memcpy (md_in ctx) r b1 = part @ b1"
      using take_memcpy [of r "md_in ctx" b1] inb b(2) r length_memcpy [of r b1 "md_in ctx"] by simp
    have b64: "length (part @ b1) = 64" using b(2) r(1) by (simp add: n_r_k_def)
    have d1: "64 dvd length (full @ part @ b1)" using m(2) b64 by simp
    have buf2: "md_buf c2 = rfc_blocks md5_start (full @ part @ b1)"
      using rfc_blocks_append [OF m(2), of md5_start "part @ b1"] buf c1(3) b64
      by (simp add: c2_def blk rfc_blocks_one)
    have len2: "unat (of_nat k - (64 - (md_lo ctx AND 0x3f)) :: u32) = length b2"
      using room(1) k False b(1,2) by (simp add: unat_sub word_le_nat_alt n_r_k_def(3))
    have in2: "length (md_in c2) = 64" using b64 by (simp add: c2_def blk)
    have whole: "m @ bs = (full @ part @ b1) @ b2" by (simp add: m(1) b(1))
    have n': "length (m @ bs) mod 64 = length b2 mod 64"
      and rest: "drop (length (m @ bs) - length b2 mod 64) (m @ bs) = drop (length b2 - length b2 mod 64) b2"
      unfolding whole using rest_of_append [OF d1] by blast+
    have "rfc_blocks md5_start (m @ bs) = rfc_blocks (md_buf c2) b2"
      unfolding buf2 whole by (rule rfc_blocks_append [OF d1])
    moreover have "MD5Update ctx bs (of_nat k) =
        MD5Update_loop c2 b2 (of_nat k - (64 - (md_lo ctx AND 0x3f)))"
      using False upd b by (simp add: c2_def)
    moreover have "md_lo c2 = md_lo c1" "md_hi c2 = md_hi c1" by (simp_all add: c2_def)
    ultimately show ?thesis
      using MD5Update_loop_blocks [OF in2 len2] c1(1,2) n' rest unfolding took_def n_r_k_def(3) [symmetric]
      by (simp only:)
  qed
qed

subsection \<open>Padding and length\<close>

lemma nth_upt_bytes: "i < 4 \<Longrightarrow> word_bytes w ! i = byte_of w i" "length (word_bytes w) = 4"
  by (simp_all add: word_bytes_def)

lemma store32_tail:
  assumes "length h = k + 4"
  shows "store32 h k w = take k h @ word_bytes w"
proof (rule nth_equalityI)
  show "length (store32 h k w) = length (take k h @ word_bytes w)"
    using assms by (simp add: length_store nth_upt_bytes)
  fix i assume "i < length (store32 h k w)"
  then have "i < k \<or> i \<in> {k, k + 1, k + 2, k + 3}" using assms by (auto simp: length_store)
  then show "store32 h k w ! i = (take k h @ word_bytes w) ! i"
    using assms by (auto simp: nth_store32 nth_append nth_upt_bytes)
qed

lemma store32_mid:
  assumes "length h = k + 8"
  shows "store32 (store32 h k v) (k + 4) w = take k h @ word_bytes v @ word_bytes w"
proof -
  have "store32 (store32 h k v) (k + 4) w = take (k + 4) (store32 h k v) @ word_bytes w"
    using assms by (intro store32_tail) (simp add: length_store)
  moreover have "take (k + 4) (store32 h k v) = take k h @ word_bytes v"
  proof (rule nth_equalityI)
    show "length (take (k + 4) (store32 h k v)) = length (take k h @ word_bytes v)"
      using assms by (simp add: length_store nth_upt_bytes)
    fix i assume "i < length (take (k + 4) (store32 h k v))"
    then have "i < k \<or> i \<in> {k, k + 1, k + 2, k + 3}" using assms by (auto simp: length_store)
    then show "take (k + 4) (store32 h k v) ! i = (take k h @ word_bytes v) ! i"
      using assms by (auto simp: nth_store32 nth_append nth_upt_bytes)
  qed
  ultimately show ?thesis by simp
qed

lemma bit_8_times: "bit (8 * n :: nat) j \<longleftrightarrow> 3 \<le> j \<and> bit n (j - 3)"
proof -
  have "8 * n = push_bit 3 n" by (simp add: push_bit_eq_mult)
  then show ?thesis by (simp add: bit_simps)
qed

lemma bit_word_of_nat: "bit (of_nat n :: 'a::len word) j \<longleftrightarrow> j < LENGTH('a) \<and> bit n j"
  by transfer (simp add: bit_take_bit_iff bit_of_nat_iff)

lemma length_bytes:
  "map (byte_of (of_nat (8 * n) :: u64)) [0..<8] =
   word_bytes (push_bit 3 (of_nat n)) @
   word_bytes (push_bit 3 (of_nat (n div 2 ^ 32)) OR drop_bit 29 (of_nat n))"
proof -
  have hi: "n div 2 ^ 32 = drop_bit 32 n" by (simp add: drop_bit_eq_div)
  have lo: "byte_of (of_nat (8 * n) :: u64) i = byte_of (push_bit 3 (of_nat n :: u32)) i" if "i < 4" for i
    using that by (intro bit_word_eqI) (auto simp: bit_byte_of bit_simps bit_word_of_nat bit_8_times simp del: of_nat_mult)
  have up: "byte_of (of_nat (8 * n) :: u64) (4 + i) =
      byte_of (push_bit 3 (of_nat (n div 2 ^ 32)) OR drop_bit 29 (of_nat n) :: u32) i" if "i < 4" for i
  proof (intro bit_word_eqI)
    fix j assume "j < LENGTH(8)"
    then have j: "j < 8" "8 * i + j < 32" using that by auto
    have "3 \<le> 8 * i + j \<Longrightarrow> 32 + (8 * i + j - 3) = 29 + (8 * i + j)" by simp
    moreover have "8 * (4 + i) + j - 3 = 29 + (8 * i + j)" by simp
    ultimately show "bit (byte_of (of_nat (8 * n) :: u64) (4 + i)) j =
        bit (byte_of (push_bit 3 (of_nat (n div 2 ^ 32)) OR drop_bit 29 (of_nat n) :: u32) i) j"
      using j unfolding hi
      by (auto simp: bit_byte_of bit_or_iff bit_push_bit_iff bit_drop_bit_eq bit_word_of_nat bit_8_times
        simp del: of_nat_mult)
  qed
  have "[0..<8] = [0..<4] @ map ((+) 4) [0..<4::nat]"
    by (simp add: upt_rec)
  then show ?thesis
    using lo up by (simp add: word_bytes_def del: upt_Suc)
qed

text \<open>The one or two blocks that \<^verbatim>\<open>MD5Final\<close> builds are the rest of the padded message.\<close>

definition final_block :: "MD5Context \<Rightarrow> byte list \<Rightarrow> byte list" where
  "final_block ctx pre = pre @ word_bytes (push_bit 3 (md_lo ctx)) @
     word_bytes (push_bit 3 (md_hi ctx) OR drop_bit 29 (md_lo ctx))"

lemma MD5Final_blocks:
  assumes inb: "length (md_in ctx) = 64" and r: "unat (md_lo ctx AND 0x3f) = r" "r < 64"
  shows "r \<le> 55 \<Longrightarrow>
      md_in (snd (MD5Final ctx)) = final_block ctx (take r (md_in ctx) @ 0x80 # replicate (55 - r) 0) \<and>
      fst (MD5Final ctx) = (case rfc_compress (md_buf ctx)
        (final_block ctx (take r (md_in ctx) @ 0x80 # replicate (55 - r) 0)) of
          (a, b, c, d) \<Rightarrow> concat (map word_bytes [a, b, c, d]))"
    and "55 < r \<Longrightarrow>
      fst (MD5Final ctx) = (case rfc_compress (rfc_compress (md_buf ctx)
          (take r (md_in ctx) @ 0x80 # replicate (63 - r) 0)) (final_block ctx (replicate 56 0)) of
          (a, b, c, d) \<Rightarrow> concat (map word_bytes [a, b, c, d]))"
proof -
  have upd: "(md_in ctx)[r := 0x80] = take r (md_in ctx) @ 0x80 # drop (r + 1) (md_in ctx)"
    using inb r(2) by (simp add: upd_conv_take_nth_drop)
  have cpy: "memcpy ((md_in ctx)[r := 0x80]) (Suc r) zs = take r (md_in ctx) @ 0x80 # zs @ drop (Suc r + length zs) (md_in ctx)"
    for zs
    unfolding upd memcpy_def using inb r(2) by (simp add: add.commute)
  have tail: "length h = 64 \<Longrightarrow> store32 (store32 h 56 v) 60 w = take 56 h @ word_bytes v @ word_bytes w" for h v w
    using store32_mid [of h 56 v w] by simp
  {
    assume le: "r \<le> 55"
    have "nat (56 - 1 - int r) = 55 - r" "56 - r = Suc (55 - r)" "\<not> 56 - 1 - int r < 0" using le by simp_all
    then show "md_in (snd (MD5Final ctx)) = final_block ctx (take r (md_in ctx) @ 0x80 # replicate (55 - r) 0) \<and>
      fst (MD5Final ctx) = (case rfc_compress (md_buf ctx)
        (final_block ctx (take r (md_in ctx) @ 0x80 # replicate (55 - r) 0)) of
          (a, b, c, d) \<Rightarrow> concat (map word_bytes [a, b, c, d]))"
      using inb le r by (simp add: MD5Final_def Let_def cpy tail final_block_def split: prod.splits)
  next
    assume gt: "55 < r"
    have z: "nat (56 - 1 - int r + 8) = 63 - r" "56 - 1 - int r < 0" using gt r(2) by simp_all
    then show "fst (MD5Final ctx) = (case rfc_compress (rfc_compress (md_buf ctx)
          (take r (md_in ctx) @ 0x80 # replicate (63 - r) 0)) (final_block ctx (replicate 56 0)) of
          (a, b, c, d) \<Rightarrow> concat (map word_bytes [a, b, c, d]))"
      using inb gt r by (simp add: MD5Final_def Let_def cpy tail final_block_def memcpy_def [of _ 0] split: prod.splits)
  }
qed

lemma MD5Final_took:
  assumes t: "took m ctx"
  shows "fst (MD5Final ctx) = rfc_md5 m"
proof -
  obtain full part where m: "m = full @ part" "64 dvd length full" "length part = length m mod 64"
    "drop (length m - length m mod 64) m = part"
    by (rule split_blocks)
  define r where "r = length part"
  have inb: "length (md_in ctx) = 64" "take r (md_in ctx) = part" "md_buf ctx = rfc_blocks md5_start m"
    and lo: "md_lo ctx = of_nat (length m)" "md_hi ctx = of_nat (length m div 2 ^ 32)"
    using t m(3,4) by (simp_all add: took_def r_def)
  have r: "r < 64" "length m mod 64 = r" using m(3) by (simp_all add: r_def)
  have rr: "unat (md_lo ctx AND 0x3f) = r" using low_bits [of "length m"] r(2) by (simp add: lo)
  have buf: "md_buf ctx = rfc_blocks md5_start full"
    using inb(3) r(1) rfc_blocks_append [OF m(2), of md5_start part] by (simp add: m(1) r_def blocks_short)
  define cnt where "cnt = map (byte_of (of_nat (8 * length m) :: u64)) [0..<8]"
  have fb: "final_block ctx pre = pre @ cnt" for pre
    unfolding final_block_def cnt_def lo length_bytes by simp
  have c8: "length cnt = 8" by (simp add: cnt_def)
  have pad: "rfc_padding (length m) = 0x80 # replicate ((119 - r) mod 64) 0 @ cnt"
    by (simp only: rfc_padding_def r(2) cnt_def)
  have rfc: "rfc_md5 m = (case rfc_blocks (md_buf ctx) (part @ rfc_padding (length m)) of
      (a, b, c, d) \<Rightarrow> concat (map word_bytes [a, b, c, d]))"
    using rfc_blocks_append [OF m(2), of md5_start "part @ rfc_padding (length m)"]
    by (simp only: rfc_md5_def md5_start_def [symmetric] m(1) append_assoc buf [unfolded m(1)])
  show ?thesis
  proof (cases "r \<le> 55")
    case True
    have "(55 - r + 64) mod 64 = 55 - r" unfolding mod_add_self2 by simp
    moreover have "119 - r = 55 - r + 64" using True by linarith
    ultimately have z: "(119 - r) mod 64 = 55 - r" by (simp only:)
    have p: "part @ rfc_padding (length m) = part @ 0x80 # replicate (55 - r) 0 @ cnt" unfolding pad z ..
    have "length (part @ 0x80 # replicate (55 - r) 0 @ cnt) = 64" using True c8 by (simp add: r_def [symmetric])
    then show ?thesis
      using MD5Final_blocks(1) [OF inb(1) rr r(1) True] unfolding rfc p
      by (simp add: inb(2) fb rfc_blocks_one)
  next
    case False
    then have "119 - r = (63 - r) + 56" "63 - r + 56 < 64" using r(1) by linarith+
    then have z: "(119 - r) mod 64 = (63 - r) + 56" by (simp only: mod_less)
    have p: "part @ rfc_padding (length m) = (part @ 0x80 # replicate (63 - r) 0) @ (replicate 56 0 @ cnt)"
      unfolding pad z replicate_add append_assoc append_Cons ..
    have l: "length (part @ 0x80 # replicate (63 - r) 0) = 64" "length (replicate 56 (0 :: byte) @ cnt) = 64"
      using r(1) c8 by (simp_all add: r_def [symmetric])
    then have "rfc_blocks (md_buf ctx) (part @ rfc_padding (length m)) =
        rfc_compress (rfc_compress (md_buf ctx) (part @ 0x80 # replicate (63 - r) 0)) (replicate 56 0 @ cnt)"
      unfolding p using rfc_blocks_append [of "part @ 0x80 # replicate (63 - r) 0"] by (simp add: rfc_blocks_one)
    then show ?thesis
      using MD5Final_blocks(2) [OF inb(1) rr r(1)] False unfolding rfc by (simp add: inb(2) fb)
  qed
qed

subsection \<open>Messages in pieces\<close>

text \<open>The calls that digest a message given in pieces, as \<^verbatim>\<open>param_parse_security\<close> makes them.\<close>

definition md5_of_pieces :: "MD5Context \<Rightarrow> byte list list \<Rightarrow> byte list" where
  "md5_of_pieces ctx bss =
    fst (MD5Final (foldl (\<lambda>ctx bs. MD5Update ctx bs (of_nat (length bs))) (MD5Init ctx) bss))"

lemma took_pieces:
  "took m ctx \<Longrightarrow> \<forall>bs\<in>set bss. length bs < 2 ^ 32 \<Longrightarrow>
   took (m @ concat bss) (foldl (\<lambda>ctx bs. MD5Update ctx bs (of_nat (length bs))) ctx bss)"
proof (induction bss arbitrary: m ctx)
  case (Cons bs bss)
  then have "took ((m @ bs) @ concat bss) (foldl (\<lambda>ctx bs. MD5Update ctx bs (of_nat (length bs)))
      (MD5Update ctx bs (of_nat (length bs))) bss)"
    using took_update [OF Cons.prems(1)] by (intro Cons.IH) simp_all
  then show ?case by simp
qed simp

lemma md5_of_pieces_rfc:
  "length (md_in ctx) = 64 \<Longrightarrow> \<forall>bs\<in>set bss. length bs < 2 ^ 32 \<Longrightarrow>
   md5_of_pieces ctx bss = rfc_md5 (concat bss)"
  unfolding md5_of_pieces_def using MD5Final_took [OF took_pieces [OF took_init]] by simp

lemma length_md5_of_pieces: "length (md5_of_pieces ctx bss) = 16"
  by (simp add: md5_of_pieces_def MD5Final_def Let_def nth_upt_bytes split: prod.splits)

lemma length_rfc_md5: "length (rfc_md5 m) = 16"
  by (simp add: rfc_md5_def nth_upt_bytes split: prod.splits)

lemma rfc_md5_abc: "rfc_md5 [0x61, 0x62, 0x63] =
  [0x90, 0x01, 0x50, 0x98, 0x3c, 0xd2, 0x4f, 0xb0, 0xd6, 0x96, 0x3f, 0x7d, 0x28, 0xe1, 0x7f, 0x72]"
  by code_simp

section \<open>Properties of the digest\<close>

text \<open>
  C3. Whatever the pieces in which a message is given, and however long it is, the digest is the one
  that RFC 1321 defines for the whole message.
\<close>

theorem digest_is_rfc1321:
  assumes "length (md_in ctx) = 64" "\<forall>bs\<in>set bss. length bs < 2 ^ 32"
  shows "fst (MD5Final (foldl (\<lambda>ctx bs. MD5Update ctx bs (of_nat (length bs))) (MD5Init ctx) bss)) =
    rfc_md5 (concat bss)"
  using md5_of_pieces_rfc [OF assms] by (simp only: md5_of_pieces_def)

definition junk_context :: MD5Context where
  "junk_context = \<lparr>md_buf = (1, 2, 3, 4), md_lo = 5, md_hi = 6, md_in = replicate 64 7\<rparr>"

theorem digest_is_rfc1321_witness:
  "fst (MD5Final (MD5Update (MD5Update (MD5Init junk_context) [0x61] 1) [0x62, 0x63] 2)) =
   [0x90, 0x01, 0x50, 0x98, 0x3c, 0xd2, 0x4f, 0xb0, 0xd6, 0x96, 0x3f, 0x7d, 0x28, 0xe1, 0x7f, 0x72]"
  using digest_is_rfc1321 [of junk_context "[[0x61], [0x62, 0x63]]"] rfc_md5_abc
  by (simp add: junk_context_def)

text \<open>
  The context that \<^verbatim>\<open>MD5Final\<close> should clear still holds a message of up to 55 bytes, with the
  password in it: only the size of the pointer is cleared.
\<close>

theorem digest_context_not_cleared:
  assumes "length (md_in ctx) = 64" "length (concat bss) \<le> 55"
  shows "take (length (concat bss)) (md_in (snd (MD5Final
    (foldl (\<lambda>ctx bs. MD5Update ctx bs (of_nat (length bs))) (MD5Init ctx) bss)))) = concat bss"
proof -
  let ?ctx = "foldl (\<lambda>ctx bs. MD5Update ctx bs (of_nat (length bs))) (MD5Init ctx) bss"
  let ?m = "concat bss"
  have "\<forall>bs\<in>set bss. length bs \<le> length (concat bss)"
    by (induction bss) auto
  then have "took ?m ?ctx" using took_pieces [OF took_init [OF assms(1)], of bss] assms(2) by fastforce
  then have t: "length (md_in ?ctx) = 64" "unat (md_lo ?ctx AND 0x3f) = length ?m"
    "take (length ?m) (md_in ?ctx) = ?m"
    using assms(2) low_bits [of "length ?m"] by (simp_all add: took_def)
  then show ?thesis
    using MD5Final_blocks(1) [OF t(1,2)] assms(2) by (simp add: final_block_def)
qed

theorem digest_context_not_cleared_witness:
  "take 3 (md_in (snd (MD5Final (MD5Update (MD5Update (MD5Init junk_context) [0x61] 1) [0x62, 0x63] 2)))) =
   [0x61, 0x62, 0x63]"
  using digest_context_not_cleared [of junk_context "[[0x61], [0x62, 0x63]]"]
  by (simp add: junk_context_def numeral_3_eq_3)

end
