(* ===== verification/PDU_Control.thy ===== *)
theory PDU_Control
  imports Prelude
begin

section \<open>Task management, NOP and text PDUs\<close>

text \<open>
  The writers and readers of \<^verbatim>\<open>iscsi.c\<close> for task management commands and responses, NOP-Out,
  NOP-In, text commands and text responses.  A record holds the fields of the C structure that
  the codec touches (the \<^verbatim>\<open>data\<close> and \<^verbatim>\<open>text\<close> pointers of NOP-Out and text commands are not among
  them); the reader takes the structure it fills in, and returns its status with the structure
  as the C function leaves it, on every path.
\<close>

subsection \<open>Task command\<close>

record iscsi_task_cmd_t =
  tc_immediate :: c_int
  tc_function :: byte
  tc_lun :: u64
  tc_tag :: u32
  tc_ref_tag :: u32
  tc_CmdSN :: u32
  tc_ExpStatSN :: u32
  tc_RefCmdSN :: u32
  tc_ExpDataSN :: u32

definition iscsi_task_cmd_encap :: "iscsi_task_cmd_t \<Rightarrow> header" where
  "iscsi_task_cmd_encap cmd =
    (let h = zero_header;
         h = or_byte h 0 ISCSI_TASK_CMD;
         h = or_byte_if (tc_immediate cmd \<noteq> 0) h 0 0x40;
         h = h[1 := tc_function cmd AND 0x80];
         h = h[9 := ucast (tc_lun cmd AND 0xff)];
         h = store32 h 16 (htonl (tc_tag cmd));
         h = store32 h 20 (htonl (tc_ref_tag cmd));
         h = store32 h 24 (htonl (tc_CmdSN cmd));
         h = store32 h 28 (htonl (tc_ExpStatSN cmd));
         h = store32 h 32 (htonl (tc_RefCmdSN cmd));
         h = store32 h 36 (htonl (tc_ExpDataSN cmd))
     in h)"

definition iscsi_task_cmd_decap :: "header \<Rightarrow> iscsi_task_cmd_t \<Rightarrow> int \<times> iscsi_task_cmd_t" where
  "iscsi_task_cmd_decap h cmd =
    (if iscsi_opcode h \<noteq> ISCSI_TASK_CMD then (-1, cmd)
     else
       (first_fail
          [(h ! 1 AND 0x80 = 0x80, 1),
           (h ! 2 = 0, 1),
           (h ! 3 = 0, 1),
           (load32 h 4 = 0, 1),
           (h ! 8 = 0, 1),
           (load32 h 40 = 0, 1),
           (load32 h 44 = 0, 1)],
        cmd\<lparr>tc_immediate := c_bool (h ! 0 AND 0x40 = 0x40),
            tc_function := h ! 1 AND 0x80,
            tc_lun := ucast (h ! 9),
            tc_tag := ntohl (load32 h 16),
            tc_ref_tag := ntohl (load32 h 20),
            tc_CmdSN := iscsi_cmd_sn h,
            tc_ExpStatSN := ntohl (load32 h 28),
            tc_RefCmdSN := ntohl (load32 h 32),
            tc_ExpDataSN := ntohl (load32 h 36)\<rparr>))"

text \<open>What a task command is after the wire: only bit 7 of the function survives.\<close>

definition task_cmd_wire :: "iscsi_task_cmd_t \<Rightarrow> iscsi_task_cmd_t \<Rightarrow> iscsi_task_cmd_t" where
  "task_cmd_wire p q =
     p\<lparr>tc_immediate := c_bool (tc_immediate p \<noteq> 0),
       tc_function := tc_function p AND 0x80,
       tc_lun := tc_lun p AND 0xff\<rparr>"

interpretation task_cmd: stable_codec iscsi_task_cmd_encap iscsi_task_cmd_decap task_cmd_wire
  "\<lambda>p. tc_function p AND 0x80 = 0x80" ISCSI_TASK_CMD
  by unfold_locales
     (simp_all add: iscsi_task_cmd_encap_def iscsi_task_cmd_decap_def task_cmd_wire_def wire)

subsection \<open>Task response\<close>

record iscsi_task_rsp_t =
  tr_response :: byte
  tr_length :: u32
  tr_tag :: u32
  tr_StatSN :: u32
  tr_ExpCmdSN :: u32
  tr_MaxCmdSN :: u32

definition iscsi_task_rsp_encap :: "iscsi_task_rsp_t \<Rightarrow> header" where
  "iscsi_task_rsp_encap rsp =
    (let h = zero_header;
         h = or_byte h 0 ISCSI_TASK_RSP;
         h = or_byte h 1 0x80;
         h = h[2 := tr_response rsp];
         h = store32 h 4 (htonl (tr_length rsp AND 0x00ffffff));
         h = store32 h 16 (htonl (tr_tag rsp));
         h = store32 h 24 (htonl (tr_StatSN rsp));
         h = store32 h 28 (htonl (tr_ExpCmdSN rsp));
         h = store32 h 32 (htonl (tr_MaxCmdSN rsp))
     in h)"

text \<open>
  The reader leaves \<^verbatim>\<open>length\<close> alone and requires it to be zero on the wire.  The check labelled
  "Bytes 20-23" loads the word at offset 23, so it covers byte 23 and the first three bytes of
  the status sequence number.
\<close>

definition iscsi_task_rsp_decap :: "header \<Rightarrow> iscsi_task_rsp_t \<Rightarrow> int \<times> iscsi_task_rsp_t" where
  "iscsi_task_rsp_decap h rsp =
    (if iscsi_opcode h \<noteq> ISCSI_TASK_RSP then (1, rsp)
     else
       (first_fail
          [(h ! 0 AND 0x00 = 0x00, 1),
           (h ! 1 AND 0x80 = 0x80, 1),
           (h ! 3 = 0, 1),
           (load32 h 4 = 0, 1),
           (load32 h 8 = 0, 1),
           (load32 h 12 = 0, 1),
           (load32 h 23 = 0, 1),
           (load32 h 36 = 0, 1),
           (load32 h 40 = 0, 1),
           (load32 h 44 = 0, 1)],
        rsp\<lparr>tr_response := h ! 2,
            tr_tag := ntohl (load32 h 16),
            tr_StatSN := ntohl (load32 h 24),
            tr_ExpCmdSN := ntohl (load32 h 28),
            tr_MaxCmdSN := ntohl (load32 h 32)\<rparr>))"

definition task_rsp_wire :: "iscsi_task_rsp_t \<Rightarrow> iscsi_task_rsp_t \<Rightarrow> iscsi_task_rsp_t" where
  "task_rsp_wire p q = p\<lparr>tr_length := tr_length q\<rparr>"

interpretation task_rsp: pdu_codec iscsi_task_rsp_encap iscsi_task_rsp_decap task_rsp_wire
  "\<lambda>p. tr_length p AND 0xffffff = 0 \<and> tr_StatSN p < 0x100" ISCSI_TASK_RSP
  by unfold_locales
     (simp_all add: iscsi_task_rsp_encap_def iscsi_task_rsp_decap_def task_rsp_wire_def wire
       lt_256_iff_bytes conj_ac)

subsection \<open>NOP-Out\<close>

record iscsi_nop_out_t =
  no_immediate :: c_int
  no_length :: u32
  no_lun :: u64
  no_tag :: u32
  no_transfer_tag :: u32
  no_CmdSN :: u32
  no_ExpStatSN :: u32

definition iscsi_nop_out_encap :: "iscsi_nop_out_t \<Rightarrow> header" where
  "iscsi_nop_out_encap cmd =
    (let h = zero_header;
         h = h[0 := ISCSI_NOP_OUT];
         h = or_byte_if (no_immediate cmd \<noteq> 0) h 0 0x40;
         h = or_byte h 1 0x80;
         h = store32 h 4 (htonl (no_length cmd AND 0x00ffffff));
         h = h[9 := ucast (no_lun cmd AND 0xff)];
         h = store32 h 16 (htonl (no_tag cmd));
         h = store32 h 20 (htonl (no_transfer_tag cmd));
         h = store32 h 24 (htonl (no_CmdSN cmd));
         h = store32 h 28 (htonl (no_ExpStatSN cmd))
     in h)"

definition iscsi_nop_out_decap :: "header \<Rightarrow> iscsi_nop_out_t \<Rightarrow> int \<times> iscsi_nop_out_t" where
  "iscsi_nop_out_decap h cmd =
    (if iscsi_opcode h \<noteq> ISCSI_NOP_OUT then (1, cmd)
     else
       (first_fail
          [(h ! 1 = 0x80, 1),
           (h ! 2 = 0, 1),
           (h ! 3 = 0, 1),
           (h ! 4 = 0, 1),
           (h ! 8 = 0, 1),
           (load32 h 32 = 0, 1),
           (load32 h 36 = 0, 1),
           (load32 h 40 = 0, 1),
           (load32 h 44 = 0, 1)],
        cmd\<lparr>no_immediate := c_bool (h ! 0 AND 0x40 = 0x40),
            no_length := ntohl (load32 h 4),
            no_lun := ucast (h ! 9),
            no_tag := ntohl (load32 h 16),
            no_transfer_tag := ntohl (load32 h 20),
            no_CmdSN := iscsi_cmd_sn h,
            no_ExpStatSN := ntohl (load32 h 28)\<rparr>))"

definition nop_out_wire :: "iscsi_nop_out_t \<Rightarrow> iscsi_nop_out_t \<Rightarrow> iscsi_nop_out_t" where
  "nop_out_wire p q =
     p\<lparr>no_immediate := c_bool (no_immediate p \<noteq> 0),
       no_length := no_length p AND 0xffffff,
       no_lun := no_lun p AND 0xff\<rparr>"

interpretation nop_out: stable_codec iscsi_nop_out_encap iscsi_nop_out_decap nop_out_wire
  "\<lambda>p. True" ISCSI_NOP_OUT
  by unfold_locales
     (simp_all add: iscsi_nop_out_encap_def iscsi_nop_out_decap_def nop_out_wire_def wire)

subsection \<open>NOP-In\<close>

record iscsi_nop_in_t =
  ni_length :: u32
  ni_lun :: u64
  ni_tag :: u32
  ni_transfer_tag :: u32
  ni_StatSN :: u32
  ni_ExpCmdSN :: u32
  ni_MaxCmdSN :: u32

definition iscsi_nop_in_encap :: "iscsi_nop_in_t \<Rightarrow> header" where
  "iscsi_nop_in_encap cmd =
    (let h = zero_header;
         h = h[0 := 0x00 OR ISCSI_NOP_IN];
         h = or_byte h 1 0x80;
         h = store32 h 4 (htonl (ni_length cmd AND 0x00ffffff));
         h = h[9 := ucast (ni_lun cmd AND 0xff)];
         h = store32 h 16 (htonl (ni_tag cmd));
         h = store32 h 20 (htonl (ni_transfer_tag cmd));
         h = store32 h 24 (htonl (ni_StatSN cmd));
         h = store32 h 28 (htonl (ni_ExpCmdSN cmd));
         h = store32 h 32 (htonl (ni_MaxCmdSN cmd))
     in h)"

definition iscsi_nop_in_decap :: "header \<Rightarrow> iscsi_nop_in_t \<Rightarrow> int \<times> iscsi_nop_in_t" where
  "iscsi_nop_in_decap h cmd =
    (if iscsi_opcode h \<noteq> ISCSI_NOP_IN then (1, cmd)
     else
       (first_fail
          [(h ! 0 AND 0xc0 = 0x00, 1),
           (h ! 1 = 0x80, 1),
           (h ! 2 = 0, 1),
           (h ! 3 = 0, 1),
           (h ! 4 = 0, 1),
           (h ! 8 = 0, 1),
           (load32 h 36 = 0, 1),
           (load32 h 40 = 0, 1),
           (load32 h 44 = 0, 1)],
        cmd\<lparr>ni_length := ntohl (load32 h 4),
            ni_lun := ucast (h ! 9),
            ni_tag := ntohl (load32 h 16),
            ni_transfer_tag := ntohl (load32 h 20),
            ni_StatSN := ntohl (load32 h 24),
            ni_ExpCmdSN := ntohl (load32 h 28),
            ni_MaxCmdSN := ntohl (load32 h 32)\<rparr>))"

definition nop_in_wire :: "iscsi_nop_in_t \<Rightarrow> iscsi_nop_in_t \<Rightarrow> iscsi_nop_in_t" where
  "nop_in_wire p q =
     p\<lparr>ni_length := ni_length p AND 0xffffff, ni_lun := ni_lun p AND 0xff\<rparr>"

interpretation nop_in: stable_codec iscsi_nop_in_encap iscsi_nop_in_decap nop_in_wire
  "\<lambda>p. True" ISCSI_NOP_IN
  by unfold_locales
     (simp_all add: iscsi_nop_in_encap_def iscsi_nop_in_decap_def nop_in_wire_def wire)

subsection \<open>Text command\<close>

record iscsi_text_cmd_t =
  xc_immediate :: c_int
  xc_final :: c_int
  xc_cont :: c_int
  xc_length :: u32
  xc_lun :: u64
  xc_tag :: u32
  xc_transfer_tag :: u32
  xc_CmdSN :: u32
  xc_ExpStatSN :: u32

definition iscsi_text_cmd_encap :: "iscsi_text_cmd_t \<Rightarrow> header" where
  "iscsi_text_cmd_encap cmd =
    (let h = zero_header;
         h = or_byte h 0 ISCSI_TEXT_CMD;
         h = or_byte_if (xc_immediate cmd \<noteq> 0) h 0 0x40;
         h = or_byte_if (xc_final cmd \<noteq> 0) h 1 0x80;
         h = or_byte_if (xc_cont cmd \<noteq> 0) h 1 0x40;
         h = store32 h 4 (htonl (xc_length cmd AND 0x00ffffff));
         h = h[9 := ucast (xc_lun cmd AND 0xff)];
         h = store32 h 16 (htonl (xc_tag cmd));
         h = store32 h 20 (htonl (xc_transfer_tag cmd));
         h = store32 h 24 (htonl (xc_CmdSN cmd));
         h = store32 h 28 (htonl (xc_ExpStatSN cmd))
     in h)"

text \<open>The reader requires bytes 8 to 11 to be zero, the writer puts the LUN in byte 9.\<close>

definition iscsi_text_cmd_decap :: "header \<Rightarrow> iscsi_text_cmd_t \<Rightarrow> int \<times> iscsi_text_cmd_t" where
  "iscsi_text_cmd_decap h cmd =
    (if iscsi_opcode h \<noteq> ISCSI_TEXT_CMD then (1, cmd)
     else
       (first_fail
          [(h ! 1 AND 0x00 = 0, 1),
           (h ! 2 = 0, 1),
           (h ! 3 = 0, 1),
           (h ! 4 = 0, 1),
           (load32 h 8 = 0, 1),
           (load32 h 12 = 0, 1),
           (load32 h 32 = 0, 1),
           (load32 h 36 = 0, 1),
           (load32 h 40 = 0, 1),
           (load32 h 44 = 0, 1)],
        cmd\<lparr>xc_immediate := c_bool (h ! 0 AND 0x40 = 0x40),
            xc_final := c_bool (h ! 1 AND 0x80 = 0x80),
            xc_cont := c_bool (h ! 1 AND 0x40 = 0x40),
            xc_length := ntohl (load32 h 4),
            xc_lun := ucast (h ! 9),
            xc_tag := ntohl (load32 h 16),
            xc_transfer_tag := ntohl (load32 h 20),
            xc_CmdSN := iscsi_cmd_sn h,
            xc_ExpStatSN := ntohl (load32 h 28)\<rparr>))"

definition text_cmd_wire :: "iscsi_text_cmd_t \<Rightarrow> iscsi_text_cmd_t \<Rightarrow> iscsi_text_cmd_t" where
  "text_cmd_wire p q =
     p\<lparr>xc_immediate := c_bool (xc_immediate p \<noteq> 0),
       xc_final := c_bool (xc_final p \<noteq> 0),
       xc_cont := c_bool (xc_cont p \<noteq> 0),
       xc_length := xc_length p AND 0xffffff,
       xc_lun := xc_lun p AND 0xff\<rparr>"

interpretation text_cmd: stable_codec iscsi_text_cmd_encap iscsi_text_cmd_decap text_cmd_wire
  "\<lambda>p. xc_lun p AND 0xff = 0" ISCSI_TEXT_CMD
  by unfold_locales
     (simp_all add: iscsi_text_cmd_encap_def iscsi_text_cmd_decap_def text_cmd_wire_def wire)

subsection \<open>Text response\<close>

record iscsi_text_rsp_t =
  xr_final :: c_int
  xr_cont :: c_int
  xr_length :: u32
  xr_lun :: u64
  xr_tag :: u32
  xr_transfer_tag :: u32
  xr_StatSN :: u32
  xr_ExpCmdSN :: u32
  xr_MaxCmdSN :: u32

definition iscsi_text_rsp_encap :: "iscsi_text_rsp_t \<Rightarrow> header" where
  "iscsi_text_rsp_encap rsp =
    (let h = zero_header;
         h = or_byte h 0 (0x00 OR ISCSI_TEXT_RSP);
         h = or_byte_if (xr_final rsp \<noteq> 0) h 1 0x80;
         h = or_byte_if (xr_cont rsp \<noteq> 0) h 1 0x40;
         h = store32 h 4 (htonl (xr_length rsp AND 0x00ffffff));
         h = h[9 := ucast (xr_lun rsp AND 0xff)];
         h = store32 h 16 (htonl (xr_tag rsp));
         h = store32 h 20 (htonl (xr_transfer_tag rsp));
         h = store32 h 24 (htonl (xr_StatSN rsp));
         h = store32 h 28 (htonl (xr_ExpCmdSN rsp));
         h = store32 h 32 (htonl (xr_MaxCmdSN rsp))
     in h)"

definition iscsi_text_rsp_decap :: "header \<Rightarrow> iscsi_text_rsp_t \<Rightarrow> int \<times> iscsi_text_rsp_t" where
  "iscsi_text_rsp_decap h rsp =
    (if iscsi_opcode h \<noteq> ISCSI_TEXT_RSP then (1, rsp)
     else
       (first_fail
          [(h ! 1 AND 0x3f = 0, 1),
           (h ! 2 = 0, 1),
           (h ! 3 = 0, 1),
           (h ! 4 = 0, 1),
           (load32 h 8 = 0, 1),
           (load32 h 12 = 0, 1),
           (load32 h 36 = 0, 1),
           (load32 h 40 = 0, 1),
           (load32 h 44 = 0, 1)],
        rsp\<lparr>xr_final := c_bool (h ! 1 AND 0x80 = 0x80),
            xr_cont := c_bool (h ! 1 AND 0x40 = 0x40),
            xr_length := ntohl (load32 h 4),
            xr_lun := ucast (h ! 9),
            xr_tag := ntohl (load32 h 16),
            xr_transfer_tag := ntohl (load32 h 20),
            xr_StatSN := ntohl (load32 h 24),
            xr_ExpCmdSN := ntohl (load32 h 28),
            xr_MaxCmdSN := ntohl (load32 h 32)\<rparr>))"

definition text_rsp_wire :: "iscsi_text_rsp_t \<Rightarrow> iscsi_text_rsp_t \<Rightarrow> iscsi_text_rsp_t" where
  "text_rsp_wire p q =
     p\<lparr>xr_final := c_bool (xr_final p \<noteq> 0),
       xr_cont := c_bool (xr_cont p \<noteq> 0),
       xr_length := xr_length p AND 0xffffff,
       xr_lun := xr_lun p AND 0xff\<rparr>"

interpretation text_rsp: stable_codec iscsi_text_rsp_encap iscsi_text_rsp_decap text_rsp_wire
  "\<lambda>p. xr_lun p AND 0xff = 0" ISCSI_TEXT_RSP
  by unfold_locales
     (simp_all add: iscsi_text_rsp_encap_def iscsi_text_rsp_decap_def text_rsp_wire_def wire)

end
