(* ===== verification/PDU_Login.thy ===== *)
theory PDU_Login
  imports Prelude
begin

section \<open>Login and logout PDUs\<close>

text \<open>
  The writers and readers of \<^verbatim>\<open>iscsi.c\<close> for login and logout commands and responses.  The login
  command carries the initiator session identifier incremented by one; the login response reader
  decrements it again.
\<close>

subsection \<open>Login command\<close>

record iscsi_login_cmd_t =
  lc_transit :: c_int
  lc_cont :: c_int
  lc_csg :: byte
  lc_nsg :: byte
  lc_version_max :: byte
  lc_version_min :: byte
  lc_AHSlength :: byte
  lc_length :: u32
  lc_isid :: u64
  lc_tsih :: u16
  lc_tag :: u32
  lc_cid :: u16
  lc_CmdSN :: u32
  lc_ExpStatSN :: u32

text \<open>
  The writer increments \<^verbatim>\<open>cmd->isid\<close> before the first store and decrements it at the end, so the
  caller's structure is unchanged; the stores at 6, 4 and byte 4 overlap and come in this order.
\<close>

definition iscsi_login_cmd_encap :: "iscsi_login_cmd_t \<Rightarrow> header" where
  "iscsi_login_cmd_encap cmd =
    (let isid = lc_isid cmd + 1;
         h = zero_header;
         h = or_byte h 0 (0x40 OR ISCSI_LOGIN_CMD);
         h = or_byte_if (lc_transit cmd \<noteq> 0) h 1 0x80;
         h = or_byte_if (lc_cont cmd \<noteq> 0) h 1 0x40;
         h = or_byte h 1 (push_bit 2 (lc_csg cmd) AND 0x0c);
         h = or_byte h 1 (lc_nsg cmd AND 0x03);
         h = h[2 := lc_version_max cmd];
         h = h[3 := lc_version_min cmd];
         h = store64 h 6 (bswap_64 isid);
         h = store32 h 4 (htonl (lc_length cmd AND 0x00ffffff));
         h = h[4 := lc_AHSlength cmd];
         h = store16 h 14 (htons (lc_tsih cmd));
         h = store32 h 16 (htonl (lc_tag cmd));
         h = store16 h 20 (htons (lc_cid cmd));
         h = store32 h 24 (htonl (lc_CmdSN cmd));
         h = store32 h 28 (htonl (lc_ExpStatSN cmd))
     in h)"

definition iscsi_login_cmd_decap :: "header \<Rightarrow> iscsi_login_cmd_t \<Rightarrow> int \<times> iscsi_login_cmd_t" where
  "iscsi_login_cmd_decap h cmd =
    (if iscsi_opcode h \<noteq> ISCSI_LOGIN_CMD then (1, cmd)
     else let cmd' =
        cmd\<lparr>lc_transit := c_bool (h ! 1 AND 0x80 \<noteq> 0),
            lc_cont := c_bool (h ! 1 AND 0x40 \<noteq> 0),
            lc_csg := drop_bit 2 (h ! 1 AND 0x0c),
            lc_nsg := h ! 1 AND 0x03,
            lc_version_max := h ! 2,
            lc_version_min := h ! 3,
            lc_AHSlength := h ! 4,
            lc_length := ntohl (load32 h 4) AND 0x00ffffffff,
            lc_isid := drop_bit 16 (bswap_64 (load64 h 8)),
            lc_tsih := ntohs (load16 h 14),
            lc_tag := ntohl (load32 h 16),
            lc_cid := ntohs (load16 h 20),
            lc_CmdSN := iscsi_cmd_sn h,
            lc_ExpStatSN := ntohl (load32 h 28)\<rparr>
      in (first_fail
           [(drop_bit 4 (h ! 1 AND 0x30) = 0, 1),
            (load16 h 22 = 0, 1),
            (load32 h 32 = 0, 1),
            (load32 h 36 = 0, 1),
            (load32 h 40 = 0, 1),
            (load32 h 44 = 0, 1),
            (\<not> (lc_transit cmd' \<noteq> 0 \<and> lc_nsg cmd' \<le> lc_csg cmd'), -1),
            (\<not> (lc_transit cmd' \<noteq> 0 \<and> lc_nsg cmd' \<noteq> 0 \<and> lc_nsg cmd' \<noteq> 1 \<and> lc_nsg cmd' \<noteq> 3), -1)],
          cmd'))"

text \<open>
  After the wire the length field holds the additional header length in its upper byte, and the
  session identifier is the low 48 bits of the sender's plus one.
\<close>

definition login_cmd_wire :: "iscsi_login_cmd_t \<Rightarrow> iscsi_login_cmd_t \<Rightarrow> iscsi_login_cmd_t" where
  "login_cmd_wire p q =
     p\<lparr>lc_transit := c_bool (lc_transit p \<noteq> 0),
       lc_cont := c_bool (lc_cont p \<noteq> 0),
       lc_csg := lc_csg p AND 3,
       lc_nsg := lc_nsg p AND 3,
       lc_length := push_bit 24 (ucast (lc_AHSlength p)) OR (lc_length p AND 0xffffff),
       lc_isid := take_bit 48 (lc_isid p + 1)\<rparr>"

definition login_cmd_ok :: "iscsi_login_cmd_t \<Rightarrow> bool" where
  "login_cmd_ok p \<longleftrightarrow>
     lc_transit p = 0 \<or> lc_csg p AND 3 < lc_nsg p AND 3 \<and> lc_nsg p AND 3 \<noteq> 2"

subsection \<open>The flag byte of login PDUs\<close>

text \<open>Byte 1 packs two flags and two 2-bit stages; each comes back on its own.\<close>

lemma stage_shift:
  "drop_bit 2 (push_bit 2 csg) AND 3 = csg AND 3" for csg :: byte
proof -
  have m: "(3 :: byte) = mask 2" by (simp add: mask_eq_exp_minus_1)
  show ?thesis
    unfolding m by (rule bit_word_eqI) (auto simp: bit_simps)
qed

lemma stage_cases:
  "s AND 3 = 0 \<or> s AND 3 = 1 \<or> s AND 3 = 2 \<or> s AND 3 = 3" for s :: byte
proof -
  have "s AND 3 = take_bit 2 s" by (simp add: take_bit_eq_mask mask_eq_exp_minus_1)
  then have "unat (s AND 3) < 4" by (simp add: take_bit_eq_mod unat_mod)
  then have "unat (s AND 3) = 0 \<or> unat (s AND 3) = 1 \<or> unat (s AND 3) = 2 \<or> unat (s AND 3) = 3"
    by arith
  then show ?thesis by (simp add: word_unat_eq_iff)
qed

lemmas flag_masks = bit.conj_disj_distrib2 and.assoc stage_shift

interpretation login_cmd: pdu_codec iscsi_login_cmd_encap iscsi_login_cmd_decap login_cmd_wire
  login_cmd_ok ISCSI_LOGIN_CMD
proof unfold_locales
  fix p q :: iscsi_login_cmd_t and h :: header
  let ?h = "iscsi_login_cmd_encap p"
  show "length ?h = ISCSI_HEADER_LEN" "iscsi_opcode ?h = ISCSI_LOGIN_CMD"
    by (simp_all add: iscsi_login_cmd_encap_def wire)
  show "snd (iscsi_login_cmd_decap ?h q) = login_cmd_wire p q"
    by (simp add: iscsi_login_cmd_decap_def iscsi_login_cmd_encap_def login_cmd_wire_def Let_def
        wire flag_masks load64_def)
  show "fst (iscsi_login_cmd_decap ?h q) = 0 \<longleftrightarrow> login_cmd_ok p"
    using stage_cases [of "lc_nsg p"]
    by (auto simp add: iscsi_login_cmd_decap_def iscsi_login_cmd_encap_def login_cmd_ok_def Let_def
        wire flag_masks not_le)
  show "iscsi_opcode h \<noteq> ISCSI_LOGIN_CMD \<Longrightarrow>
      fst (iscsi_login_cmd_decap h q) \<noteq> 0 \<and> snd (iscsi_login_cmd_decap h q) = q"
    by (simp add: iscsi_login_cmd_decap_def)
qed

subsection \<open>Login response\<close>

record iscsi_login_rsp_t =
  lr_transit :: c_int
  lr_cont :: c_int
  lr_csg :: byte
  lr_nsg :: byte
  lr_version_max :: byte
  lr_version_active :: byte
  lr_AHSlength :: byte
  lr_length :: u32
  lr_isid :: u64
  lr_tsih :: u16
  lr_tag :: u32
  lr_StatSN :: u32
  lr_ExpCmdSN :: u32
  lr_MaxCmdSN :: u32
  lr_status_class :: byte
  lr_status_detail :: byte

text \<open>The little-endian branch of the writer: six bytes of the identifier, one at a time.\<close>

definition iscsi_login_rsp_encap :: "iscsi_login_rsp_t \<Rightarrow> header" where
  "iscsi_login_rsp_encap rsp =
    (let h = zero_header;
         h = or_byte h 0 (0x00 OR ISCSI_LOGIN_RSP);
         h = or_byte_if (lr_transit rsp \<noteq> 0) h 1 0x80;
         h = or_byte_if (lr_cont rsp \<noteq> 0) h 1 0x40;
         h = or_byte h 1 (push_bit 2 (lr_csg rsp) AND 0x0c);
         h = or_byte_if (lr_transit rsp \<noteq> 0) h 1 (lr_nsg rsp AND 0x03);
         h = h[2 := lr_version_max rsp];
         h = h[3 := lr_version_active rsp];
         h = h[6 := 0, 7 := 0];
         h = h[8 := byte_of (lr_isid rsp) 5, 9 := byte_of (lr_isid rsp) 4,
               10 := byte_of (lr_isid rsp) 3, 11 := byte_of (lr_isid rsp) 2,
               12 := byte_of (lr_isid rsp) 1, 13 := byte_of (lr_isid rsp) 0];
         h = store32 h 4 (htonl (lr_length rsp AND 0x00ffffff));
         h = h[4 := lr_AHSlength rsp];
         h = store16 h 14 (htons (lr_tsih rsp));
         h = store32 h 16 (htonl (lr_tag rsp));
         h = store32 h 24 (htonl (lr_StatSN rsp));
         h = store32 h 28 (htonl (lr_ExpCmdSN rsp));
         h = store32 h 32 (htonl (lr_MaxCmdSN rsp));
         h = h[36 := lr_status_class rsp];
         h = h[37 := lr_status_detail rsp]
     in h)"

definition iscsi_login_rsp_decap :: "header \<Rightarrow> iscsi_login_rsp_t \<Rightarrow> int \<times> iscsi_login_rsp_t" where
  "iscsi_login_rsp_decap h rsp =
    (if iscsi_opcode h \<noteq> ISCSI_LOGIN_RSP then (1, rsp)
     else
       (first_fail
          [(drop_bit 4 (h ! 1 AND 0x30) = 0, 1),
           (load32 h 20 = 0, 1),
           (h ! 38 = 0, 1),
           (h ! 39 = 0, 1),
           (load32 h 40 = 0, 1),
           (load32 h 44 = 0, 1)],
        rsp\<lparr>lr_transit := ucast (drop_bit 7 (h ! 1 AND 0x80)),
            lr_cont := ucast (drop_bit 6 (h ! 1 AND 0x40)),
            lr_csg := drop_bit 2 (h ! 1 AND 0x0c),
            lr_nsg := h ! 1 AND 0x03,
            lr_version_max := h ! 2,
            lr_version_active := h ! 3,
            lr_AHSlength := h ! 4,
            lr_length := ntohl (load32 h 4) AND 0x00ffffffff,
            lr_isid := drop_bit 16 (bswap_64 (load64 h 8)) - 1,
            lr_tsih := ntohs (load16 h 14),
            lr_tag := ntohl (load32 h 16),
            lr_StatSN := ntohl (load32 h 24),
            lr_ExpCmdSN := ntohl (load32 h 28),
            lr_MaxCmdSN := ntohl (load32 h 32),
            lr_status_class := h ! 36,
            lr_status_detail := h ! 37\<rparr>))"

definition login_rsp_wire :: "iscsi_login_rsp_t \<Rightarrow> iscsi_login_rsp_t \<Rightarrow> iscsi_login_rsp_t" where
  "login_rsp_wire p q =
     p\<lparr>lr_transit := c_bool (lr_transit p \<noteq> 0),
       lr_cont := c_bool (lr_cont p \<noteq> 0),
       lr_csg := lr_csg p AND 3,
       lr_nsg := (if lr_transit p \<noteq> 0 then lr_nsg p AND 3 else 0),
       lr_length := push_bit 24 (ucast (lr_AHSlength p)) OR (lr_length p AND 0xffffff),
       lr_isid := take_bit 48 (lr_isid p) - 1\<rparr>"

interpretation login_rsp: pdu_codec iscsi_login_rsp_encap iscsi_login_rsp_decap login_rsp_wire
  "\<lambda>p. True" ISCSI_LOGIN_RSP
  by unfold_locales
     (simp_all add: iscsi_login_rsp_decap_def iscsi_login_rsp_encap_def login_rsp_wire_def
       wire flag_masks load64_def)

subsection \<open>Logout command\<close>

record iscsi_logout_cmd_t =
  oc_immediate :: c_int
  oc_reason :: byte
  oc_tag :: u32
  oc_cid :: u16
  oc_CmdSN :: u32
  oc_ExpStatSN :: u32

definition iscsi_logout_cmd_encap :: "iscsi_logout_cmd_t \<Rightarrow> header" where
  "iscsi_logout_cmd_encap cmd =
    (let h = zero_header;
         h = h[0 := ISCSI_LOGOUT_CMD];
         h = or_byte_if (oc_immediate cmd \<noteq> 0) h 0 0x40;
         h = h[1 := oc_reason cmd OR 0x80];
         h = store32 h 16 (htonl (oc_tag cmd));
         h = store16 h 20 (htons (oc_cid cmd));
         h = store32 h 24 (htonl (oc_CmdSN cmd));
         h = store32 h 28 (htonl (oc_ExpStatSN cmd))
     in h)"

text \<open>A nonzero word at offset 22 is only warned about.\<close>

definition iscsi_logout_cmd_decap :: "header \<Rightarrow> iscsi_logout_cmd_t \<Rightarrow> int \<times> iscsi_logout_cmd_t" where
  "iscsi_logout_cmd_decap h cmd =
    (if iscsi_opcode h \<noteq> ISCSI_LOGOUT_CMD then (1, cmd)
     else
       (first_fail
          [(drop_bit 7 (h ! 0) = 0, 1),
           (drop_bit 7 (h ! 1) = 1, 1),
           (h ! 2 = 0, 1),
           (h ! 3 = 0, 1),
           (load32 h 4 = 0, 1),
           (load32 h 8 = 0, 1),
           (load32 h 12 = 0, 1),
           (load32 h 32 = 0, 1),
           (load32 h 36 = 0, 1),
           (load32 h 40 = 0, 1),
           (load32 h 44 = 0, 1)],
        cmd\<lparr>oc_immediate := c_bool (h ! 0 AND 0x40 \<noteq> 0),
            oc_reason := h ! 1 AND 0x7f,
            oc_tag := ntohl (load32 h 16),
            oc_cid := ntohs (load16 h 20),
            oc_CmdSN := iscsi_cmd_sn h,
            oc_ExpStatSN := ntohl (load32 h 28)\<rparr>))"

definition logout_cmd_wire :: "iscsi_logout_cmd_t \<Rightarrow> iscsi_logout_cmd_t \<Rightarrow> iscsi_logout_cmd_t" where
  "logout_cmd_wire p q =
     p\<lparr>oc_immediate := c_bool (oc_immediate p \<noteq> 0), oc_reason := oc_reason p AND 0x7f\<rparr>"

lemma top_bit_set: "drop_bit 7 (r OR 0x80) = 1" for r :: byte
proof -
  have "(0x80 :: byte) = push_bit 7 1" by simp
  moreover have "(1 :: byte) = mask 1" by simp
  ultimately show ?thesis
    by (simp only:) (rule bit_word_eqI, auto simp: bit_simps dest: bit_imp_le_length)
qed

lemma low7_or_top: "(r OR 0x80) AND 0x7f = r AND 0x7f" "(r AND 0x7f) OR 0x80 = r OR 0x80" for r :: byte
proof -
  show "(r OR 0x80) AND 0x7f = r AND 0x7f" by (simp add: bit.conj_disj_distrib2)
  have "(r AND 0x7f) OR 0x80 = (r OR 0x80) AND (0x7f OR 0x80)"
    by (simp only: bit.disj_conj_distrib2)
  also have "(0x7f OR 0x80 :: byte) = - 1" by simp
  finally show "(r AND 0x7f) OR 0x80 = r OR 0x80" by simp
qed

interpretation logout_cmd: stable_codec iscsi_logout_cmd_encap iscsi_logout_cmd_decap
  logout_cmd_wire "\<lambda>p. True" ISCSI_LOGOUT_CMD
  by unfold_locales
     (simp_all add: iscsi_logout_cmd_decap_def iscsi_logout_cmd_encap_def logout_cmd_wire_def
       wire top_bit_set low7_or_top del: drop_bit_or)

subsection \<open>Logout response\<close>

record iscsi_logout_rsp_t =
  or_response :: byte
  or_length :: u32
  or_tag :: u32
  or_StatSN :: u32
  or_ExpCmdSN :: u32
  or_MaxCmdSN :: u32
  or_Time2Wait :: u16
  or_Time2Retain :: u16

text \<open>
  The two times are 16-bit values stored through a 32-bit pointer: the second store overwrites
  the upper half of the first, and its own upper half falls on the reserved bytes 44 and 45.
\<close>

definition iscsi_logout_rsp_encap :: "iscsi_logout_rsp_t \<Rightarrow> header" where
  "iscsi_logout_rsp_encap rsp =
    (let h = zero_header;
         h = or_byte h 0 (0x00 OR ISCSI_LOGOUT_RSP);
         h = or_byte h 1 0x80;
         h = h[2 := or_response rsp];
         h = store32 h 4 (htonl (or_length rsp));
         h = store32 h 16 (htonl (or_tag rsp));
         h = store32 h 24 (htonl (or_StatSN rsp));
         h = store32 h 28 (htonl (or_ExpCmdSN rsp));
         h = store32 h 32 (htonl (or_MaxCmdSN rsp));
         h = store32 h 40 (ucast (htons (or_Time2Wait rsp)));
         h = store32 h 42 (ucast (htons (or_Time2Retain rsp)))
     in h)"

definition iscsi_logout_rsp_decap :: "header \<Rightarrow> iscsi_logout_rsp_t \<Rightarrow> int \<times> iscsi_logout_rsp_t" where
  "iscsi_logout_rsp_decap h rsp =
    (if iscsi_opcode h \<noteq> ISCSI_LOGOUT_RSP then (1, rsp)
     else
       (first_fail
          [(h ! 0 AND 0x20 = 0x20, -1),
           (h ! 1 AND 0x80 = 0x80, -1),
           (h ! 3 = 0, -1),
           (load32 h 4 = 0, 1),
           (load32 h 8 = 0, 1),
           (load32 h 12 = 0, 1),
           (load32 h 20 = 0, 1),
           (load32 h 36 = 0, 1),
           (load32 h 44 = 0, 1)],
        rsp\<lparr>or_response := h ! 2,
            or_length := ntohl (load32 h 4),
            or_tag := ntohl (load32 h 16),
            or_StatSN := ntohl (load32 h 24),
            or_ExpCmdSN := ntohl (load32 h 28),
            or_MaxCmdSN := ntohl (load32 h 32),
            or_Time2Wait := ntohs (ucast (load32 h 40)),
            or_Time2Retain := ntohs (ucast (load32 h 42))\<rparr>))"

interpretation logout_rsp: stable_codec iscsi_logout_rsp_encap iscsi_logout_rsp_decap
  "\<lambda>p q. p" "\<lambda>p. or_length p = 0" ISCSI_LOGOUT_RSP
  by unfold_locales
     (simp_all add: iscsi_logout_rsp_decap_def iscsi_logout_rsp_encap_def wire)

end
