(* ===== verification/PDU_Data.thy ===== *)
theory PDU_Data
  imports Prelude
begin

section \<open>SCSI command, response and data PDUs\<close>

text \<open>
  The writers and readers of \<^verbatim>\<open>iscsi.c\<close> for SCSI commands and responses, ready-to-transfer,
  write data, read data and reject PDUs, and the reader of asynchronous messages.  The record of
  a SCSI command has the fields of \<^verbatim>\<open>ISCSI_SCSI_CMD_T\<close> that the codec and the target's session
  code use; the buffer pointers and the time stamps are not among them.  \<^verbatim>\<open>cdb\<close> is a pointer in C
  (the reader points it at byte 32 of the header): here it is the bytes it points at, and
  \<^verbatim>\<open>ext_cdb\<close> is the offset in \<^verbatim>\<open>ahs\<close> that it points at.
\<close>

subsection \<open>SCSI command\<close>

record iscsi_scsi_cmd_t =
  sc_immediate :: c_int
  sc_final :: c_int
  sc_fromdev :: c_int
  sc_bytes_fromdev :: u32
  sc_todev :: c_int
  sc_bytes_todev :: u32
  sc_attr :: byte
  sc_length :: u32
  sc_lun :: u64
  sc_tag :: u32
  sc_trans_len :: u32
  sc_bidi_trans_len :: u32
  sc_CmdSN :: u32
  sc_ExpStatSN :: u32
  sc_cdb :: "byte list"
  sc_ext_cdb :: "nat option"
  sc_ahs :: "byte list"
  sc_ahs_len :: byte
  sc_status :: byte

definition iscsi_scsi_cmd_encap :: "iscsi_scsi_cmd_t \<Rightarrow> header" where
  "iscsi_scsi_cmd_encap cmd =
    (let h = zero_header;
         h = or_byte h 0 ISCSI_SCSI_CMD;
         h = or_byte_if (sc_immediate cmd \<noteq> 0) h 0 0x40;
         h = or_byte_if (sc_final cmd \<noteq> 0) h 1 0x80;
         h = or_byte_if (sc_fromdev cmd \<noteq> 0) h 1 0x40;
         h = or_byte_if (sc_todev cmd \<noteq> 0) h 1 0x20;
         h = or_byte h 1 (sc_attr cmd AND 0x07);
         h = store32 h 4 (htonl (sc_length cmd));
         h = h[4 := sc_ahs_len cmd];
         h = h[9 := ucast (sc_lun cmd AND 0xff)];
         h = store32 h 16 (htonl (sc_tag cmd));
         h = store32 h 20 (htonl (sc_trans_len cmd));
         h = store32 h 24 (htonl (sc_CmdSN cmd));
         h = store32 h 28 (htonl (sc_ExpStatSN cmd));
         h = memcpy h 32 (take 16 (sc_cdb cmd))
     in h)"

definition iscsi_scsi_cmd_decap :: "header \<Rightarrow> iscsi_scsi_cmd_t \<Rightarrow> int \<times> iscsi_scsi_cmd_t" where
  "iscsi_scsi_cmd_decap h cmd =
    (if iscsi_opcode h \<noteq> ISCSI_SCSI_CMD then (1, cmd)
     else
       (first_fail
          [(h ! 1 AND 0x18 = 0, -1),
           (h ! 2 = 0, 1),
           (h ! 3 = 0, 1),
           (h ! 8 = 0, 1)],
        cmd\<lparr>sc_immediate := c_bool (h ! 0 AND 0x40 \<noteq> 0),
            sc_final := c_bool (h ! 1 AND 0x80 \<noteq> 0),
            sc_fromdev := c_bool (h ! 1 AND 0x40 \<noteq> 0),
            sc_todev := c_bool (h ! 1 AND 0x20 \<noteq> 0),
            sc_attr := h ! 1 AND 0x07,
            sc_ahs_len := h ! 4,
            sc_length := ntohl (load32 h 4) AND 0x00ffffff,
            sc_lun := ucast (h ! 9),
            sc_tag := ntohl (load32 h 16),
            sc_trans_len := ntohl (load32 h 20),
            sc_CmdSN := iscsi_cmd_sn h,
            sc_ExpStatSN := ntohl (load32 h 28),
            sc_cdb := take 16 (drop 32 h)\<rparr>))"

text \<open>
  A descriptor block shorter than the 16 bytes copied arrives padded with zeros.  The transfer
  counters, the status and the additional header are the receiver's own.
\<close>

definition scsi_cmd_wire :: "iscsi_scsi_cmd_t \<Rightarrow> iscsi_scsi_cmd_t \<Rightarrow> iscsi_scsi_cmd_t" where
  "scsi_cmd_wire p q =
     q\<lparr>sc_immediate := c_bool (sc_immediate p \<noteq> 0),
       sc_final := c_bool (sc_final p \<noteq> 0),
       sc_fromdev := c_bool (sc_fromdev p \<noteq> 0),
       sc_todev := c_bool (sc_todev p \<noteq> 0),
       sc_attr := sc_attr p AND 7,
       sc_ahs_len := sc_ahs_len p,
       sc_length := sc_length p AND 0xffffff,
       sc_lun := sc_lun p AND 0xff,
       sc_tag := sc_tag p,
       sc_trans_len := sc_trans_len p,
       sc_CmdSN := sc_CmdSN p,
       sc_ExpStatSN := sc_ExpStatSN p,
       sc_cdb := take 16 (take 16 (sc_cdb p) @ replicate 16 0)\<rparr>"

lemma cdb_roundtrip:
  "take 16 (drop 32 (memcpy h 32 (take 16 c))) = take 16 (take 16 c @ replicate 16 0)"
  if "length h = 48" "drop 32 h = replicate 16 0"
proof -
  let ?n = "length (take 16 c)"
  have "drop (32 + ?n) h = drop ?n (drop 32 h)" by (simp add: add.commute)
  also have "\<dots> = replicate (16 - ?n) 0" using that(2) by simp
  finally have "drop 32 (memcpy h 32 (take 16 c)) = take 16 c @ replicate (16 - ?n) 0"
    using that(1) by (simp add: drop_memcpy)
  then show ?thesis by (simp add: min_def)
qed

lemma flag_and_zero [wire]:
  "(x AND 0x07) AND 0x18 = 0" "(x AND 0x07) AND 0x80 = 0" "(x AND 0x07) AND 0x40 = 0"
  "(x AND 0x07) AND 0x20 = 0" for x :: byte
  by (simp_all add: and.assoc)

interpretation scsi_cmd: pdu_codec iscsi_scsi_cmd_encap iscsi_scsi_cmd_decap scsi_cmd_wire
  "\<lambda>p. True" ISCSI_SCSI_CMD
proof unfold_locales
  fix p q :: iscsi_scsi_cmd_t and h :: header
  let ?h = "iscsi_scsi_cmd_encap p"
  show "length ?h = ISCSI_HEADER_LEN" "iscsi_opcode ?h = ISCSI_SCSI_CMD"
    by (simp_all add: iscsi_scsi_cmd_encap_def wire)
  have cdb: "take 16 (drop 32 ?h) = take 16 (take 16 (sc_cdb p) @ replicate 16 0)"
    unfolding iscsi_scsi_cmd_encap_def Let_def
    by (rule cdb_roundtrip) (simp_all add: wire)
  show "snd (iscsi_scsi_cmd_decap ?h q) = scsi_cmd_wire p q"
    unfolding iscsi_scsi_cmd_decap_def cdb scsi_cmd_wire_def
    by (simp add: iscsi_scsi_cmd_encap_def wire bit.conj_disj_distrib2 and.assoc)
  show "fst (iscsi_scsi_cmd_decap ?h q) = 0 \<longleftrightarrow> True"
    by (simp add: iscsi_scsi_cmd_decap_def iscsi_scsi_cmd_encap_def wire
        bit.conj_disj_distrib2 and.assoc)
  show "iscsi_opcode h \<noteq> ISCSI_SCSI_CMD \<Longrightarrow>
      fst (iscsi_scsi_cmd_decap h q) \<noteq> 0 \<and> snd (iscsi_scsi_cmd_decap h q) = q"
    by (simp add: iscsi_scsi_cmd_decap_def)
qed

subsection \<open>SCSI response\<close>

record iscsi_scsi_rsp_t =
  sr_bidi_overflow :: c_int
  sr_bidi_underflow :: c_int
  sr_overflow :: c_int
  sr_underflow :: c_int
  sr_response :: byte
  sr_status :: byte
  sr_ahs_len :: u32
  sr_length :: u32
  sr_tag :: u32
  sr_StatSN :: u32
  sr_ExpCmdSN :: u32
  sr_MaxCmdSN :: u32
  sr_ExpDataSN :: u32
  sr_bidi_res_cnt :: u32
  sr_basic_res_cnt :: u32

definition iscsi_scsi_rsp_encap :: "iscsi_scsi_rsp_t \<Rightarrow> header" where
  "iscsi_scsi_rsp_encap rsp =
    (let h = zero_header;
         h = or_byte h 0 (0x00 OR ISCSI_SCSI_RSP);
         h = or_byte h 1 0x80;
         h = or_byte_if (sr_bidi_overflow rsp \<noteq> 0) h 1 0x10;
         h = or_byte_if (sr_bidi_underflow rsp \<noteq> 0) h 1 0x08;
         h = or_byte_if (sr_overflow rsp \<noteq> 0) h 1 0x04;
         h = or_byte_if (sr_underflow rsp \<noteq> 0) h 1 0x02;
         h = h[2 := sr_response rsp];
         h = h[3 := sr_status rsp];
         h = store32 h 4 (htonl (sr_length rsp));
         h = h[4 := ucast (sr_ahs_len rsp)];
         h = store32 h 16 (htonl (sr_tag rsp));
         h = store32 h 24 (htonl (sr_StatSN rsp));
         h = store32 h 28 (htonl (sr_ExpCmdSN rsp));
         h = store32 h 32 (htonl (sr_MaxCmdSN rsp));
         h = store32 h 36 (htonl (sr_ExpDataSN rsp));
         h = store32 h 40 (htonl (sr_bidi_res_cnt rsp));
         h = store32 h 44 (htonl (sr_basic_res_cnt rsp))
     in h)"

definition iscsi_scsi_rsp_decap :: "header \<Rightarrow> iscsi_scsi_rsp_t \<Rightarrow> int \<times> iscsi_scsi_rsp_t" where
  "iscsi_scsi_rsp_decap h rsp =
    (if iscsi_opcode h \<noteq> ISCSI_SCSI_RSP then (1, rsp)
     else let rsp' =
        rsp\<lparr>sr_bidi_overflow := c_bool (h ! 1 AND 0x10 \<noteq> 0),
            sr_bidi_underflow := c_bool (h ! 1 AND 0x08 \<noteq> 0),
            sr_overflow := c_bool (h ! 1 AND 0x04 \<noteq> 0),
            sr_underflow := c_bool (h ! 1 AND 0x02 \<noteq> 0),
            sr_response := h ! 2,
            sr_status := h ! 3,
            sr_length := ntohl (load32 h 4),
            sr_ahs_len := ucast (h ! 4),
            sr_tag := ntohl (load32 h 16),
            sr_StatSN := ntohl (load32 h 24),
            sr_ExpCmdSN := ntohl (load32 h 28),
            sr_MaxCmdSN := ntohl (load32 h 32),
            sr_ExpDataSN := ntohl (load32 h 36),
            sr_bidi_res_cnt := ntohl (load32 h 40),
            sr_basic_res_cnt := ntohl (load32 h 44)\<rparr>
      in (first_fail
           [(h ! 0 AND 0x00 = 0x00, 1),
            (h ! 1 AND 0x80 = 0x80, 1),
            (sr_bidi_res_cnt rsp' = 0, 1),
            (sr_bidi_overflow rsp' = 0, 1),
            (sr_bidi_underflow rsp' = 0, 1),
            (sr_overflow rsp' = 0, 1)],
          rsp'))"

definition scsi_rsp_wire :: "iscsi_scsi_rsp_t \<Rightarrow> iscsi_scsi_rsp_t \<Rightarrow> iscsi_scsi_rsp_t" where
  "scsi_rsp_wire p q =
     p\<lparr>sr_bidi_overflow := c_bool (sr_bidi_overflow p \<noteq> 0),
       sr_bidi_underflow := c_bool (sr_bidi_underflow p \<noteq> 0),
       sr_overflow := c_bool (sr_overflow p \<noteq> 0),
       sr_underflow := c_bool (sr_underflow p \<noteq> 0),
       sr_length := push_bit 24 (ucast (ucast (sr_ahs_len p) :: byte)) OR (sr_length p AND 0xffffff),
       sr_ahs_len := ucast (ucast (sr_ahs_len p) :: byte)\<rparr>"

definition scsi_rsp_ok :: "iscsi_scsi_rsp_t \<Rightarrow> bool" where
  "scsi_rsp_ok p \<longleftrightarrow>
     sr_bidi_res_cnt p = 0 \<and> sr_bidi_overflow p = 0 \<and> sr_bidi_underflow p = 0 \<and> sr_overflow p = 0"

interpretation scsi_rsp: pdu_codec iscsi_scsi_rsp_encap iscsi_scsi_rsp_decap scsi_rsp_wire
  scsi_rsp_ok ISCSI_SCSI_RSP
proof unfold_locales
  fix p q :: iscsi_scsi_rsp_t and h :: header
  let ?h = "iscsi_scsi_rsp_encap p"
  show "length ?h = ISCSI_HEADER_LEN" and op: "iscsi_opcode ?h = ISCSI_SCSI_RSP"
    by (simp_all add: iscsi_scsi_rsp_encap_def wire)
  have flags: "?h ! 1 AND 0x10 = 0 \<longleftrightarrow> sr_bidi_overflow p = 0"
    "?h ! 1 AND 0x08 = 0 \<longleftrightarrow> sr_bidi_underflow p = 0"
    "?h ! 1 AND 0x04 = 0 \<longleftrightarrow> sr_overflow p = 0"
    "?h ! 1 AND 0x02 = 0 \<longleftrightarrow> sr_underflow p = 0" "?h ! 1 AND 0x80 = 0x80"
    by (simp_all add: iscsi_scsi_rsp_encap_def wire)
  have vals: "ntohl (load32 ?h 40) = sr_bidi_res_cnt p"
    by (simp add: iscsi_scsi_rsp_encap_def wire)
  show "snd (iscsi_scsi_rsp_decap ?h q) = scsi_rsp_wire p q"
    unfolding iscsi_scsi_rsp_decap_def op flags Let_def scsi_rsp_wire_def
    by (simp add: iscsi_scsi_rsp_encap_def wire)
  show "fst (iscsi_scsi_rsp_decap ?h q) = 0 \<longleftrightarrow> scsi_rsp_ok p"
    unfolding iscsi_scsi_rsp_decap_def op flags Let_def scsi_rsp_ok_def vals
    by simp
  show "iscsi_opcode h \<noteq> ISCSI_SCSI_RSP \<Longrightarrow>
      fst (iscsi_scsi_rsp_decap h q) \<noteq> 0 \<and> snd (iscsi_scsi_rsp_decap h q) = q"
    by (simp add: iscsi_scsi_rsp_decap_def)
qed

subsection \<open>Ready to transfer\<close>

record iscsi_r2t_t =
  r2_AHSlength :: u32
  r2_lun :: u64
  r2_tag :: u32
  r2_transfer_tag :: u32
  r2_StatSN :: u32
  r2_ExpCmdSN :: u32
  r2_MaxCmdSN :: u32
  r2_R2TSN :: u32
  r2_offset :: u32
  r2_length :: u32

definition iscsi_r2t_encap :: "iscsi_r2t_t \<Rightarrow> header" where
  "iscsi_r2t_encap cmd =
    (let h = zero_header;
         h = or_byte h 0 (0x00 OR ISCSI_R2T);
         h = or_byte h 1 0x80;
         h = store32 h 4 (htonl (r2_AHSlength cmd AND 0x00ffffff));
         h = h[9 := ucast (r2_lun cmd AND 0xff)];
         h = store32 h 16 (htonl (r2_tag cmd));
         h = store32 h 20 (htonl (r2_transfer_tag cmd));
         h = store32 h 24 (htonl (r2_StatSN cmd));
         h = store32 h 28 (htonl (r2_ExpCmdSN cmd));
         h = store32 h 32 (htonl (r2_MaxCmdSN cmd));
         h = store32 h 36 (htonl (r2_R2TSN cmd));
         h = store32 h 40 (htonl (r2_offset cmd));
         h = store32 h 44 (htonl (r2_length cmd))
     in h)"

definition iscsi_r2t_decap :: "header \<Rightarrow> iscsi_r2t_t \<Rightarrow> int \<times> iscsi_r2t_t" where
  "iscsi_r2t_decap h cmd =
    (if iscsi_opcode h \<noteq> ISCSI_R2T then (1, cmd)
     else
       (first_fail
          [(h ! 1 AND 0x7f = 0, 1),
           (h ! 2 = 0, 1),
           (h ! 3 = 0, 1),
           (load32 h 4 = 0, 1),
           (load32 h 8 = 0, 1),
           (load32 h 12 = 0, 1)],
        cmd\<lparr>r2_AHSlength := ntohl (load32 h 4),
            r2_lun := ucast (h ! 9),
            r2_tag := ntohl (load32 h 16),
            r2_transfer_tag := ntohl (load32 h 20),
            r2_StatSN := ntohl (load32 h 24),
            r2_ExpCmdSN := ntohl (load32 h 28),
            r2_MaxCmdSN := ntohl (load32 h 32),
            r2_R2TSN := ntohl (load32 h 36),
            r2_offset := ntohl (load32 h 40),
            r2_length := ntohl (load32 h 44)\<rparr>))"

definition r2t_wire :: "iscsi_r2t_t \<Rightarrow> iscsi_r2t_t \<Rightarrow> iscsi_r2t_t" where
  "r2t_wire p q =
     p\<lparr>r2_AHSlength := r2_AHSlength p AND 0xffffff, r2_lun := r2_lun p AND 0xff\<rparr>"

interpretation r2t: stable_codec iscsi_r2t_encap iscsi_r2t_decap r2t_wire
  "\<lambda>p. r2_AHSlength p AND 0xffffff = 0 \<and> r2_lun p AND 0xff = 0" ISCSI_R2T
  by unfold_locales
     (simp_all add: iscsi_r2t_encap_def iscsi_r2t_decap_def r2t_wire_def wire)

subsection \<open>Write data\<close>

record iscsi_write_data_t =
  wd_final :: c_int
  wd_length :: u32
  wd_lun :: u64
  wd_tag :: u32
  wd_transfer_tag :: u32
  wd_ExpStatSN :: u32
  wd_DataSN :: u32
  wd_offset :: u32

definition iscsi_write_data_encap :: "iscsi_write_data_t \<Rightarrow> header" where
  "iscsi_write_data_encap cmd =
    (let h = zero_header;
         h = h[0 := 0x00 OR ISCSI_WRITE_DATA];
         h = or_byte_if (wd_final cmd \<noteq> 0) h 1 0x80;
         h = store32 h 4 (htonl (wd_length cmd));
         h = h[9 := ucast (wd_lun cmd AND 0xff)];
         h = store32 h 16 (htonl (wd_tag cmd));
         h = store32 h 20 (htonl (wd_transfer_tag cmd));
         h = store32 h 28 (htonl (wd_ExpStatSN cmd));
         h = store32 h 36 (htonl (wd_DataSN cmd));
         h = store32 h 40 (htonl (wd_offset cmd))
     in h)"

definition iscsi_write_data_decap :: "header \<Rightarrow> iscsi_write_data_t \<Rightarrow> int \<times> iscsi_write_data_t" where
  "iscsi_write_data_decap h cmd =
    (if iscsi_opcode h \<noteq> ISCSI_WRITE_DATA then (1, cmd)
     else
       (first_fail
          [(h ! 1 AND 0x7f = 0, 1),
           (h ! 2 = 0, 1),
           (h ! 3 = 0, 1),
           (h ! 4 = 0, 1),
           (h ! 8 = 0, 1),
           (load32 h 24 = 0, 1),
           (load32 h 32 = 0, 1),
           (load32 h 44 = 0, 1)],
        cmd\<lparr>wd_final := c_bool (h ! 1 AND 0x80 \<noteq> 0),
            wd_length := ntohl (load32 h 4),
            wd_lun := ucast (h ! 9),
            wd_tag := ntohl (load32 h 16),
            wd_transfer_tag := ntohl (load32 h 20),
            wd_ExpStatSN := ntohl (load32 h 28),
            wd_DataSN := ntohl (load32 h 36),
            wd_offset := ntohl (load32 h 40)\<rparr>))"

definition write_data_wire :: "iscsi_write_data_t \<Rightarrow> iscsi_write_data_t \<Rightarrow> iscsi_write_data_t" where
  "write_data_wire p q =
     p\<lparr>wd_final := c_bool (wd_final p \<noteq> 0), wd_lun := wd_lun p AND 0xff\<rparr>"

interpretation write_data: stable_codec iscsi_write_data_encap iscsi_write_data_decap
  write_data_wire "\<lambda>p. wd_length p < 0x1000000" ISCSI_WRITE_DATA
  by unfold_locales
     (simp_all add: iscsi_write_data_encap_def iscsi_write_data_decap_def write_data_wire_def wire)

subsection \<open>Read data\<close>

record iscsi_read_data_t =
  rd_final :: c_int
  rd_ack :: c_int
  rd_overflow :: c_int
  rd_underflow :: c_int
  rd_S_bit :: c_int
  rd_status :: byte
  rd_length :: u32
  rd_lun :: u64
  rd_task_tag :: u32
  rd_transfer_tag :: u32
  rd_StatSN :: u32
  rd_ExpCmdSN :: u32
  rd_MaxCmdSN :: u32
  rd_DataSN :: u32
  rd_offset :: u32
  rd_res_count :: u32

definition iscsi_read_data_encap :: "iscsi_read_data_t \<Rightarrow> header" where
  "iscsi_read_data_encap cmd =
    (let h = zero_header;
         h = h[0 := 0x00 OR ISCSI_READ_DATA];
         h = or_byte_if (rd_final cmd \<noteq> 0) h 1 0x80;
         h = or_byte_if (rd_ack cmd \<noteq> 0) h 1 0x40;
         h = or_byte_if (rd_overflow cmd \<noteq> 0) h 1 0x04;
         h = or_byte_if (rd_underflow cmd \<noteq> 0) h 1 0x02;
         h = or_byte_if (rd_S_bit cmd \<noteq> 0) h 1 0x01;
         h = (if rd_S_bit cmd \<noteq> 0 then h[3 := rd_status cmd] else h);
         h = store32 h 4 (htonl (rd_length cmd));
         h = h[9 := ucast (rd_lun cmd AND 0xff)];
         h = store32 h 16 (htonl (rd_task_tag cmd));
         h = store32 h 20 (htonl (rd_transfer_tag cmd));
         h = (if rd_S_bit cmd \<noteq> 0 then store32 h 24 (htonl (rd_StatSN cmd)) else h);
         h = store32 h 28 (htonl (rd_ExpCmdSN cmd));
         h = store32 h 32 (htonl (rd_MaxCmdSN cmd));
         h = store32 h 36 (htonl (rd_DataSN cmd));
         h = store32 h 40 (htonl (rd_offset cmd));
         h = (if rd_S_bit cmd \<noteq> 0 then store32 h 44 (htonl (rd_res_count cmd)) else h)
     in h)"

text \<open>The underflow bit and the residual count are only warned about.\<close>

definition iscsi_read_data_decap :: "header \<Rightarrow> iscsi_read_data_t \<Rightarrow> int \<times> iscsi_read_data_t" where
  "iscsi_read_data_decap h cmd =
    (if iscsi_opcode h \<noteq> ISCSI_READ_DATA then (1, cmd)
     else
       (first_fail
          [(h ! 0 AND 0xc0 = 0, 1),
           (h ! 1 AND 0x38 = 0, 1),
           (h ! 2 = 0, 1),
           (h ! 4 = 0, 1),
           (load32 h 8 = 0, 1),
           (load32 h 12 = 0, 1)],
        cmd\<lparr>rd_final := c_bool (h ! 1 AND 0x80 \<noteq> 0),
            rd_ack := c_bool (h ! 1 AND 0x40 \<noteq> 0),
            rd_overflow := c_bool (h ! 1 AND 0x04 \<noteq> 0),
            rd_underflow := c_bool (h ! 1 AND 0x02 \<noteq> 0),
            rd_S_bit := c_bool (h ! 1 AND 0x01 \<noteq> 0),
            rd_status := h ! 3,
            rd_length := ntohl (load32 h 4),
            rd_lun := ucast (h ! 9),
            rd_task_tag := ntohl (load32 h 16),
            rd_transfer_tag := ntohl (load32 h 20),
            rd_StatSN := ntohl (load32 h 24),
            rd_ExpCmdSN := ntohl (load32 h 28),
            rd_MaxCmdSN := ntohl (load32 h 32),
            rd_DataSN := ntohl (load32 h 36),
            rd_offset := ntohl (load32 h 40),
            rd_res_count := ntohl (load32 h 44)\<rparr>))"

text \<open>Without the S bit, the status, its sequence number and the residual count stay behind.\<close>

definition read_data_wire :: "iscsi_read_data_t \<Rightarrow> iscsi_read_data_t \<Rightarrow> iscsi_read_data_t" where
  "read_data_wire p q =
     p\<lparr>rd_final := c_bool (rd_final p \<noteq> 0),
       rd_ack := c_bool (rd_ack p \<noteq> 0),
       rd_overflow := c_bool (rd_overflow p \<noteq> 0),
       rd_underflow := c_bool (rd_underflow p \<noteq> 0),
       rd_S_bit := c_bool (rd_S_bit p \<noteq> 0),
       rd_status := (if rd_S_bit p \<noteq> 0 then rd_status p else 0),
       rd_lun := rd_lun p AND 0xff,
       rd_StatSN := (if rd_S_bit p \<noteq> 0 then rd_StatSN p else 0),
       rd_res_count := (if rd_S_bit p \<noteq> 0 then rd_res_count p else 0)\<rparr>"

definition read_data_ok :: "iscsi_read_data_t \<Rightarrow> bool" where
  "read_data_ok p \<longleftrightarrow> rd_length p < 0x1000000 \<and> rd_lun p AND 0xff = 0"

lemma read_data_flags:
  "iscsi_read_data_encap p ! 1 AND 0x80 = 0 \<longleftrightarrow> rd_final p = 0"
  "iscsi_read_data_encap p ! 1 AND 0x40 = 0 \<longleftrightarrow> rd_ack p = 0"
  "iscsi_read_data_encap p ! 1 AND 0x04 = 0 \<longleftrightarrow> rd_overflow p = 0"
  "iscsi_read_data_encap p ! 1 AND 0x02 = 0 \<longleftrightarrow> rd_underflow p = 0"
  "iscsi_read_data_encap p ! 1 AND 0x01 = 0 \<longleftrightarrow> rd_S_bit p = 0"
  "iscsi_read_data_encap p ! 1 AND 0x38 = 0"
  by (cases "rd_S_bit p = 0"; simp add: iscsi_read_data_encap_def wire)+

interpretation read_data: stable_codec iscsi_read_data_encap iscsi_read_data_decap
  read_data_wire read_data_ok ISCSI_READ_DATA
proof unfold_locales
  fix p q :: iscsi_read_data_t and h :: header
  let ?h = "iscsi_read_data_encap p"
  show "length ?h = ISCSI_HEADER_LEN" and op: "iscsi_opcode ?h = ISCSI_READ_DATA"
    by (cases "rd_S_bit p = 0"; simp add: iscsi_read_data_encap_def wire)+
  show "snd (iscsi_read_data_decap ?h q) = read_data_wire p q"
    unfolding iscsi_read_data_decap_def op read_data_flags read_data_wire_def
    by (cases "rd_S_bit p = 0"; simp add: iscsi_read_data_encap_def wire)
  show "fst (iscsi_read_data_decap ?h q) = 0 \<longleftrightarrow> read_data_ok p"
    unfolding iscsi_read_data_decap_def op read_data_flags read_data_ok_def
    by (cases "rd_S_bit p = 0"; simp add: iscsi_read_data_encap_def wire)
  show "iscsi_opcode h \<noteq> ISCSI_READ_DATA \<Longrightarrow>
      fst (iscsi_read_data_decap h q) \<noteq> 0 \<and> snd (iscsi_read_data_decap h q) = q"
    by (simp add: iscsi_read_data_decap_def)
  show "iscsi_read_data_encap (read_data_wire p q) = ?h"
    by (cases "rd_S_bit p = 0"; simp add: iscsi_read_data_encap_def read_data_wire_def wire)
qed

subsection \<open>Reject\<close>

record iscsi_reject_t =
  rj_reason :: byte
  rj_length :: u32
  rj_StatSN :: u32
  rj_ExpCmdSN :: u32
  rj_MaxCmdSN :: u32
  rj_DataSN :: u32

definition iscsi_reject_encap :: "iscsi_reject_t \<Rightarrow> header" where
  "iscsi_reject_encap cmd =
    (let h = zero_header;
         h = or_byte h 0 (0x00 OR ISCSI_REJECT);
         h = or_byte h 1 0x80;
         h = h[2 := rj_reason cmd];
         h = store32 h 4 (htonl (rj_length cmd));
         h = store32 h 24 (htonl (rj_StatSN cmd));
         h = store32 h 28 (htonl (rj_ExpCmdSN cmd));
         h = store32 h 32 (htonl (rj_MaxCmdSN cmd));
         h = store32 h 36 (htonl (rj_DataSN cmd))
     in h)"

definition iscsi_reject_decap :: "header \<Rightarrow> iscsi_reject_t \<Rightarrow> int \<times> iscsi_reject_t" where
  "iscsi_reject_decap h cmd =
    (if iscsi_opcode h \<noteq> ISCSI_REJECT then (1, cmd)
     else
       (first_fail
          [(h ! 0 AND 0xc0 = 0, 1),
           (h ! 1 AND 0x7f = 0, 1),
           (h ! 3 = 0, 1),
           (h ! 4 = 0, 1),
           (load32 h 8 = 0, 1),
           (load32 h 12 = 0, 1),
           (load32 h 20 = 0, 1),
           (load32 h 40 = 0, 1),
           (load32 h 44 = 0, 1)],
        cmd\<lparr>rj_reason := h ! 2,
            rj_length := ntohl (load32 h 4),
            rj_StatSN := ntohl (load32 h 24),
            rj_ExpCmdSN := ntohl (load32 h 28),
            rj_MaxCmdSN := ntohl (load32 h 32),
            rj_DataSN := ntohl (load32 h 36)\<rparr>))"

interpretation reject: stable_codec iscsi_reject_encap iscsi_reject_decap "\<lambda>p q. p"
  "\<lambda>p. rj_length p < 0x1000000" ISCSI_REJECT
  by unfold_locales (simp_all add: iscsi_reject_encap_def iscsi_reject_decap_def wire)

subsection \<open>Asynchronous message\<close>

record iscsi_amsg_t =
  am_AHSlength :: byte
  am_lun :: u64
  am_StatSN :: u32
  am_ExpCmdSN :: u32
  am_MaxCmdSN :: u32
  am_length :: u32
  am_AsyncEvent :: byte
  am_AsyncVCode :: byte

definition iscsi_amsg_decap :: "header \<Rightarrow> iscsi_amsg_t \<Rightarrow> int \<times> iscsi_amsg_t" where
  "iscsi_amsg_decap h msg =
    (if iscsi_opcode h \<noteq> ISCSI_ASYNC then (1, msg)
     else
       (0, msg\<lparr>am_AHSlength := h ! 4,
               am_length := ntohl (load32 h 4),
               am_lun := ucast (h ! 9),
               am_StatSN := ntohl (load32 h 24),
               am_ExpCmdSN := ntohl (load32 h 28),
               am_MaxCmdSN := ntohl (load32 h 32),
               am_AsyncEvent := h ! 36,
               am_AsyncVCode := h ! 37\<rparr>))"

end
