(* ===== verification/PDU_Exchange.thy ===== *)
theory PDU_Exchange
  imports PDU_Control PDU_Login PDU_Data
begin

section \<open>What two ends make of each other's PDUs\<close>

text \<open>
  The codecs of \<^verbatim>\<open>iscsi.c\<close> put together: what a request or a response becomes on the other end
  of the wire, which structures the readers refuse although the writer took them, and which
  PDUs can be taken for one another.  The per-PDU facts are those of the interpretations of
  \<open>pdu_codec\<close> in the PDU theories.
\<close>

interpretation data_or_status: distinct_codecs
  iscsi_read_data_encap iscsi_read_data_decap read_data_wire read_data_ok ISCSI_READ_DATA
  iscsi_scsi_rsp_encap iscsi_scsi_rsp_decap scsi_rsp_wire scsi_rsp_ok ISCSI_SCSI_RSP
  by unfold_locales (simp add: opcodes)

interpretation data_or_r2t: distinct_codecs
  iscsi_read_data_encap iscsi_read_data_decap read_data_wire read_data_ok ISCSI_READ_DATA
  iscsi_r2t_encap iscsi_r2t_decap r2t_wire
    "\<lambda>p. r2_AHSlength p AND 0xffffff = 0 \<and> r2_lun p AND 0xff = 0" ISCSI_R2T
  by unfold_locales (simp add: opcodes)

interpretation status_or_r2t: distinct_codecs
  iscsi_scsi_rsp_encap iscsi_scsi_rsp_decap scsi_rsp_wire scsi_rsp_ok ISCSI_SCSI_RSP
  iscsi_r2t_encap iscsi_r2t_decap r2t_wire
    "\<lambda>p. r2_AHSlength p AND 0xffffff = 0 \<and> r2_lun p AND 0xff = 0" ISCSI_R2T
  by unfold_locales (simp add: opcodes)

text \<open>The session identifier travels increased by one and in 48 bits.\<close>

lemma take_bit_48_self: "take_bit 48 y = y \<longleftrightarrow> y < 2 ^ 48" for y :: u64
proof -
  have "take_bit 48 y = y \<longleftrightarrow> unat (take_bit 48 y) = unat y"
    by (simp only: word_unat_eq_iff)
  also have "\<dots> \<longleftrightarrow> take_bit 48 (unat y) = unat y" by (simp only: unsigned_take_bit_eq)
  also have "\<dots> \<longleftrightarrow> unat y < 2 ^ 48" by (simp only: take_bit_nat_eq_self_iff)
  finally show ?thesis by (simp add: word_less_nat_alt)
qed

lemma isid_echo:
  "take_bit 48 (take_bit 48 (x + 1)) - 1 = x \<longleftrightarrow> x + 1 < 2 ^ 48" for x :: u64
proof -
  have "take_bit 48 (take_bit 48 (x + 1)) - 1 = x \<longleftrightarrow> take_bit 48 (x + 1) = x + 1"
    by (simp add: diff_eq_eq)
  then show ?thesis by (simp only: take_bit_48_self)
qed

section \<open>Properties of the exchange\<close>

text \<open>
  C31. Requests survive the wire: for each PDU an initiator sends, the target's reader returns
  status 0 exactly under the stated condition on the sent structure and, whether or not it does,
  leaves in its own structure exactly the wire form of what was sent (flags normalised to 0 or
  1, lengths to 24 bits, logical units to 8 bits, the session id increased by one, the function
  of a task command cut to bit 7).
\<close>

theorem requests_survive_wire:
  "received (iscsi_scsi_cmd_decap (iscsi_scsi_cmd_encap sc) sc') (scsi_cmd_wire sc sc') True \<and>
   received (iscsi_write_data_decap (iscsi_write_data_encap wd) wd') (write_data_wire wd wd')
     (wd_length wd < 0x1000000) \<and>
   received (iscsi_login_cmd_decap (iscsi_login_cmd_encap lc) lc') (login_cmd_wire lc lc')
     (login_cmd_ok lc) \<and>
   received (iscsi_text_cmd_decap (iscsi_text_cmd_encap xc) xc') (text_cmd_wire xc xc')
     (xc_lun xc AND 0xff = 0) \<and>
   received (iscsi_nop_out_decap (iscsi_nop_out_encap no) no') (nop_out_wire no no') True \<and>
   received (iscsi_task_cmd_decap (iscsi_task_cmd_encap tc) tc') (task_cmd_wire tc tc')
     (tc_function tc AND 0x80 = 0x80) \<and>
   received (iscsi_logout_cmd_decap (iscsi_logout_cmd_encap oc) oc') (logout_cmd_wire oc oc') True"
  by (intro conjI scsi_cmd.received_encap write_data.received_encap login_cmd.received_encap
      text_cmd.received_encap nop_out.received_encap task_cmd.received_encap
      logout_cmd.received_encap)

text \<open>
  C32. Responses survive the wire: the same for the nine PDUs a target sends.  The conditions
  are the code's: a task response is refused unless its StatSN is below 256 and its length is 0,
  a text response, an R2T and a read-data PDU unless the low byte of the logical unit is 0, a
  logout response unless its length is 0, a SCSI response when it carries residual counts the
  initiator does not handle.
\<close>

theorem responses_survive_wire:
  "received (iscsi_scsi_rsp_decap (iscsi_scsi_rsp_encap sr) sr') (scsi_rsp_wire sr sr')
     (scsi_rsp_ok sr) \<and>
   received (iscsi_read_data_decap (iscsi_read_data_encap rd) rd') (read_data_wire rd rd')
     (rd_length rd < 0x1000000 \<and> rd_lun rd AND 0xff = 0) \<and>
   received (iscsi_r2t_decap (iscsi_r2t_encap r2) r2') (r2t_wire r2 r2')
     (r2_AHSlength r2 AND 0xffffff = 0 \<and> r2_lun r2 AND 0xff = 0) \<and>
   received (iscsi_login_rsp_decap (iscsi_login_rsp_encap lr) lr') (login_rsp_wire lr lr') True \<and>
   received (iscsi_text_rsp_decap (iscsi_text_rsp_encap xr) xr') (text_rsp_wire xr xr')
     (xr_lun xr AND 0xff = 0) \<and>
   received (iscsi_nop_in_decap (iscsi_nop_in_encap ni) ni') (nop_in_wire ni ni') True \<and>
   received (iscsi_task_rsp_decap (iscsi_task_rsp_encap tr) tr') (task_rsp_wire tr tr')
     (tr_length tr AND 0xffffff = 0 \<and> tr_StatSN tr < 0x100) \<and>
   received (iscsi_logout_rsp_decap (iscsi_logout_rsp_encap oq) oq') oq (or_length oq = 0) \<and>
   received (iscsi_reject_decap (iscsi_reject_encap rj) rj') rj (rj_length rj < 0x1000000)"
  unfolding read_data_ok_def [symmetric]
  by (intro conjI scsi_rsp.received_encap read_data.received_encap r2t.received_encap
      login_rsp.received_encap text_rsp.received_encap nop_in.received_encap
      task_rsp.received_encap logout_rsp.received_encap reject.received_encap)

text \<open>
  The three PDUs that answer a SCSI command cannot be taken for one another: the initiator's
  reader of any of read data, SCSI response and R2T refuses the header of either of the others
  and leaves its structure as it was.
\<close>

theorem transfer_pdus_distinct:
  "fst (iscsi_scsi_rsp_decap (iscsi_read_data_encap rd) sr) \<noteq> 0 \<and>
   snd (iscsi_scsi_rsp_decap (iscsi_read_data_encap rd) sr) = sr \<and>
   fst (iscsi_r2t_decap (iscsi_read_data_encap rd) r2) \<noteq> 0 \<and>
   snd (iscsi_r2t_decap (iscsi_read_data_encap rd) r2) = r2 \<and>
   fst (iscsi_read_data_decap (iscsi_scsi_rsp_encap sr) rd) \<noteq> 0 \<and>
   snd (iscsi_read_data_decap (iscsi_scsi_rsp_encap sr) rd) = rd \<and>
   fst (iscsi_r2t_decap (iscsi_scsi_rsp_encap sr) r2) \<noteq> 0 \<and>
   snd (iscsi_r2t_decap (iscsi_scsi_rsp_encap sr) r2) = r2 \<and>
   fst (iscsi_read_data_decap (iscsi_r2t_encap r2) rd) \<noteq> 0 \<and>
   snd (iscsi_read_data_decap (iscsi_r2t_encap r2) rd) = rd \<and>
   fst (iscsi_scsi_rsp_decap (iscsi_r2t_encap r2) sr) \<noteq> 0 \<and>
   snd (iscsi_scsi_rsp_decap (iscsi_r2t_encap r2) sr) = sr"
  by (intro conjI data_or_status.foreign_rejected data_or_r2t.foreign_rejected
      status_or_r2t.foreign_rejected)

text \<open>
  The session identifier of a login comes back: when the target answers a login request with
  the identifier it read from it, the initiator reads its own identifier from the response,
  exactly when that identifier plus one fits in 48 bits.
\<close>

theorem login_echoes_isid:
  "lr_isid (snd (iscsi_login_rsp_decap
      (iscsi_login_rsp_encap
         (rsp\<lparr>lr_isid := lc_isid (snd (iscsi_login_cmd_decap (iscsi_login_cmd_encap cmd) cmd'))\<rparr>))
      rsp')) = lc_isid cmd
   \<longleftrightarrow> lc_isid cmd + 1 < 2 ^ 48"
  unfolding login_cmd.decap_value login_rsp.decap_value
  using isid_echo [of "lc_isid cmd"] by (simp add: login_cmd_wire_def login_rsp_wire_def)

end
