(* ===== verification/Ring_Queue.thy ===== *)
theory Ring_Queue
  imports Prelude "HOL-Library.Multiset"
begin

section \<open>The bounded queues of \<^verbatim>\<open>util.c\<close>\<close>

text \<open>
  \<^verbatim>\<open>ISCSI_QUEUE_T\<close> is a ring of \<open>depth\<close> pointers with the indices of the oldest element and of the
  next free slot, and the number of elements.  Every operation runs from start to end under
  \<^verbatim>\<open>q->lock\<close> and releases it on every path, so an operation is one atomic step here; the locking
  primitives are assumed to succeed.  Pointers are numbers, with 0 for \<^verbatim>\<open>NULL\<close>.
\<close>

type_synonym ptr = nat

definition NULL :: ptr where
  "NULL = 0"

subsection \<open>Operations\<close>

record iscsi_queue =
  q_head :: nat
  q_tail :: nat
  q_count :: nat
  q_elem :: "ptr list"
  q_depth :: nat

text \<open>
  The storage comes uninitialised from the allocator: \<open>mem\<close> is what it holds, or \<open>None\<close> if the
  allocation fails.
\<close>

definition iscsi_queue_init :: "iscsi_queue \<Rightarrow> ptr list option \<Rightarrow> nat \<Rightarrow> int \<times> iscsi_queue" where
  "iscsi_queue_init q mem depth =
    (let q = q\<lparr>q_head := 0, q_tail := 0, q_count := 0, q_depth := depth\<rparr>
     in case mem of None \<Rightarrow> (-1, q) | Some m \<Rightarrow> (0, q\<lparr>q_elem := m\<rparr>))"

definition iscsi_queue_full :: "iscsi_queue \<Rightarrow> bool" where
  "iscsi_queue_full q \<longleftrightarrow> q_count q = q_depth q"

definition iscsi_queue_depth :: "iscsi_queue \<Rightarrow> nat" where
  "iscsi_queue_depth q = q_count q"

definition iscsi_queue_insert :: "iscsi_queue \<Rightarrow> ptr \<Rightarrow> int \<times> iscsi_queue" where
  "iscsi_queue_insert q ptr =
    (if iscsi_queue_full q then (-1, q)
     else
       let q = q\<lparr>q_elem := (q_elem q)[q_tail q := ptr]\<rparr>;
           q = q\<lparr>q_tail := q_tail q + 1\<rparr>;
           q = (if q_tail q = q_depth q then q\<lparr>q_tail := 0\<rparr> else q);
           q = q\<lparr>q_count := q_count q + 1\<rparr>
       in (0, q))"

definition iscsi_queue_remove :: "iscsi_queue \<Rightarrow> ptr \<times> iscsi_queue" where
  "iscsi_queue_remove q =
    (if iscsi_queue_depth q = 0 then (NULL, q)
     else
       let q = q\<lparr>q_count := q_count q - 1\<rparr>;
           ptr = q_elem q ! q_head q;
           q = q\<lparr>q_head := q_head q + 1\<rparr>;
           q = (if q_head q = q_depth q then q\<lparr>q_head := 0\<rparr> else q)
       in (ptr, q))"

definition iscsi_queue_get_head :: "iscsi_queue \<Rightarrow> ptr" where
  "iscsi_queue_get_head q = q_elem q ! q_head q"

text \<open>
  The search loop shared by \<^verbatim>\<open>iscsi_queue_get_this\<close> and \<^verbatim>\<open>iscsi_queue_remove_this\<close>: \<open>Some (Some pos)\<close>
  if it stops at a slot that holds \<open>this\<close>, \<open>Some None\<close> if it stops at the tail, \<open>None\<close> if the
  fuel runs out.
\<close>

fun queue_scan :: "nat \<Rightarrow> iscsi_queue \<Rightarrow> ptr \<Rightarrow> nat \<Rightarrow> nat option option" where
  "queue_scan 0 q this pos = None"
| "queue_scan (Suc fuel) q this pos =
    (let pos = (if pos = q_depth q then 0 else pos)
     in if q_elem q ! pos = this then Some (Some pos)
        else if pos = q_tail q then Some None
        else queue_scan fuel q this (pos + 1))"

definition iscsi_queue_get_this :: "iscsi_queue \<Rightarrow> ptr \<Rightarrow> ptr option" where
  "iscsi_queue_get_this q this =
    (if iscsi_queue_depth q = 0 then Some NULL
     else case queue_scan (q_depth q + 1) q this (q_head q) of
       None \<Rightarrow> None
     | Some None \<Rightarrow> Some NULL
     | Some (Some pos) \<Rightarrow> Some (q_elem q ! pos))"

text \<open>\<^verbatim>\<open>for (i=hi; i>lo; i--) q->elem[i] = q->elem[i-1];\<close>\<close>

fun shift_up :: "nat \<Rightarrow> nat \<Rightarrow> ptr list \<Rightarrow> ptr list" where
  "shift_up 0 lo es = es"
| "shift_up (Suc i) lo es = (if lo < Suc i then shift_up i lo (es[Suc i := es ! i]) else es)"

definition iscsi_queue_remove_this :: "iscsi_queue \<Rightarrow> ptr \<Rightarrow> (ptr \<times> iscsi_queue) option" where
  "iscsi_queue_remove_this q this =
    (if iscsi_queue_depth q = 0 then Some (NULL, q)
     else case queue_scan (q_depth q + 1) q this (q_head q) of
       None \<Rightarrow> None
     | Some None \<Rightarrow> Some (NULL, q)
     | Some (Some pos) \<Rightarrow>
        let q = q\<lparr>q_count := q_count q - 1\<rparr>;
            q = (if q_head q = pos then q\<lparr>q_head := q_head q + 1\<rparr>
                 else if q_head q < q_tail q then
                   q\<lparr>q_elem := shift_up pos (q_head q) (q_elem q), q_head := q_head q + 1\<rparr>
                 else if q_head q = q_tail q then q
                 else
                   let es = q_elem q;
                       es = (if pos < q_head q
                             then let es = shift_up pos 0 es;
                                      es = es[0 := es ! (q_depth q - 1)]
                                  in shift_up (q_depth q - 1) (q_head q) es
                             else shift_up pos (q_head q) es)
                   in q\<lparr>q_elem := es, q_head := q_head q + 1\<rparr>);
            q = (if q_head q = q_depth q then q\<lparr>q_head := 0\<rparr> else q)
        in Some (this, q))"

subsection \<open>Invariant and abstraction\<close>

definition queue_inv :: "iscsi_queue \<Rightarrow> bool" where
  "queue_inv q \<longleftrightarrow>
     0 < q_depth q \<and> length (q_elem q) = q_depth q \<and> q_head q < q_depth q \<and>
     q_count q \<le> q_depth q \<and> q_tail q = (q_head q + q_count q) mod q_depth q"

text \<open>The queue a ring stands for, oldest element first.\<close>

definition queue_abs :: "iscsi_queue \<Rightarrow> ptr list" where
  "queue_abs q = map (\<lambda>i. q_elem q ! ((q_head q + i) mod q_depth q)) [0..<q_count q]"

lemma length_queue_abs [simp]: "length (queue_abs q) = q_count q"
  by (simp add: queue_abs_def)

lemma queue_abs_nth [simp]:
  "i < q_count q \<Longrightarrow> queue_abs q ! i = q_elem q ! ((q_head q + i) mod q_depth q)"
  by (simp add: queue_abs_def)

lemma queue_abs_Nil [simp]: "queue_abs q = [] \<longleftrightarrow> q_count q = 0"
  by (simp add: queue_abs_def)

lemma wrap_add_1: "a < d \<Longrightarrow> (if a + 1 = d then 0 else a + 1) = (a + 1) mod d" for d :: nat
  by auto

lemma mod_add_inj:
  "(a + i) mod d = (a + j) mod d \<longleftrightarrow> i = j" if "i < d" "j < d" for a d :: nat
proof
  assume eq: "(a + i) mod d = (a + j) mod d"
  have "(int a + int i) mod int d = (int a + int j) mod int d"
    using eq by (metis of_nat_add of_nat_mod)
  then have "((int a + int i) - int a) mod int d = ((int a + int j) - int a) mod int d"
    by (metis mod_diff_cong)
  then show "i = j" using that by simp
qed simp


lemma mod_sub: "(a - d) mod d = a mod d" if "d \<le> a" for a d :: nat
  using that by (simp add: le_mod_geq [symmetric] mod_if)

lemma wrap_index: "(h + i) mod d = (if h + i < d then h + i else h + i - d)" if "h < d" "i \<le> d" for h :: nat
  using that by (auto simp: mod_if)

subsection \<open>Insertion and removal are those of a bounded list\<close>

lemma queue_inv_init:
  "length m = d \<Longrightarrow> 0 < d \<Longrightarrow> queue_inv (snd (iscsi_queue_init q (Some m) d))"
  "queue_abs (snd (iscsi_queue_init q (Some m) d)) = []"
  by (simp_all add: iscsi_queue_init_def queue_inv_def)

lemma insert_full: "q_count q = q_depth q \<Longrightarrow> iscsi_queue_insert q x = (-1, q)"
  by (simp add: iscsi_queue_insert_def iscsi_queue_full_def)

lemma insert_room:
  assumes "queue_inv q" "q_count q < q_depth q"
  shows "fst (iscsi_queue_insert q x) = 0"
    and "queue_inv (snd (iscsi_queue_insert q x))"
    and "queue_abs (snd (iscsi_queue_insert q x)) = queue_abs q @ [x]"
    and "q_depth (snd (iscsi_queue_insert q x)) = q_depth q"
    and "q_count (snd (iscsi_queue_insert q x)) = q_count q + 1"
proof -
  let ?d = "q_depth q" and ?t = "q_tail q"
  have inv: "length (q_elem q) = ?d" "q_head q < ?d" "?t = (q_head q + q_count q) mod ?d" "?t < ?d"
    using assms by (simp_all add: queue_inv_def)
  have eq: "iscsi_queue_insert q x =
      (0, q\<lparr>q_elem := (q_elem q)[?t := x], q_tail := (?t + 1) mod ?d, q_count := q_count q + 1\<rparr>)"
    using assms inv(4) by (auto simp: iscsi_queue_insert_def iscsi_queue_full_def Let_def)
  show "fst (iscsi_queue_insert q x) = 0" and "q_depth (snd (iscsi_queue_insert q x)) = ?d"
    and "q_count (snd (iscsi_queue_insert q x)) = q_count q + 1"
    by (simp_all add: eq)
  show "queue_inv (snd (iscsi_queue_insert q x))"
    using assms inv by (simp add: eq queue_inv_def) (simp add: mod_Suc_eq)
  show "queue_abs (snd (iscsi_queue_insert q x)) = queue_abs q @ [x]"
  proof -
    have ne: "xa < q_count q \<Longrightarrow> (q_head q + xa) mod ?d \<noteq> (q_head q + q_count q) mod ?d" for xa
      using mod_add_inj [of xa ?d "q_count q" "q_head q"] assms(2) by simp
    have "(q_elem q)[(q_head q + q_count q) mod ?d := x] ! ((q_head q + xa) mod ?d)
        = q_elem q ! ((q_head q + xa) mod ?d)" if "xa < q_count q" for xa
      by (rule nth_list_update_neq) (use ne [OF that] in simp)
    then show ?thesis
      using inv by (simp add: eq queue_abs_def)
  qed
qed

lemma remove_empty: "q_count q = 0 \<Longrightarrow> iscsi_queue_remove q = (NULL, q)"
  by (simp add: iscsi_queue_remove_def iscsi_queue_depth_def)

lemma remove_some:
  assumes "queue_inv q" "0 < q_count q"
  shows "fst (iscsi_queue_remove q) = hd (queue_abs q)"
    and "queue_inv (snd (iscsi_queue_remove q))"
    and "queue_abs (snd (iscsi_queue_remove q)) = tl (queue_abs q)"
    and "q_depth (snd (iscsi_queue_remove q)) = q_depth q"
proof -
  let ?d = "q_depth q" and ?h = "q_head q"
  have inv: "?h < ?d" "q_tail q = (?h + q_count q) mod ?d" using assms by (simp_all add: queue_inv_def)
  have eq: "iscsi_queue_remove q =
      (q_elem q ! ?h, q\<lparr>q_count := q_count q - 1, q_head := (?h + 1) mod ?d\<rparr>)"
    using assms inv(1) by (auto simp: iscsi_queue_remove_def iscsi_queue_depth_def Let_def)
  show "fst (iscsi_queue_remove q) = hd (queue_abs q)" and "q_depth (snd (iscsi_queue_remove q)) = ?d"
    using assms(2) inv(1) by (simp_all add: eq hd_conv_nth)
  show "queue_inv (snd (iscsi_queue_remove q))"
  proof -
    obtain c where c: "q_count q = Suc c" using assms(2) gr0_conv_Suc by auto
    have "(?h + Suc c) mod ?d = (Suc ?h mod ?d + c) mod ?d" by (simp add: mod_simps)
    then show ?thesis using assms(1) c by (simp add: eq queue_inv_def)
  qed
  show "queue_abs (snd (iscsi_queue_remove q)) = tl (queue_abs q)"
    using assms(2) by (auto simp: eq queue_abs_def nth_tl mod_simps intro!: nth_equalityI)
qed

lemma get_head_hd: "queue_inv q \<Longrightarrow> 0 < q_count q \<Longrightarrow> iscsi_queue_get_head q = hd (queue_abs q)"
  by (simp add: iscsi_queue_get_head_def hd_conv_nth queue_inv_def)

subsection \<open>The bounded FIFO contract\<close>

datatype queue_op = Insert ptr | Remove

datatype queue_result = Inserted int | Removed ptr

text \<open>One operation on the list a queue stands for, and on an implementation of it.\<close>

fun fifo_step :: "nat \<Rightarrow> ptr list \<Rightarrow> queue_op \<Rightarrow> queue_result \<times> ptr list" where
  "fifo_step cap xs (Insert x) = (if length xs < cap then (Inserted 0, xs @ [x]) else (Inserted (-1), xs))"
| "fifo_step cap [] Remove = (Removed NULL, [])"
| "fifo_step cap (x # xs) Remove = (Removed x, xs)"

fun op_step ::
  "('q \<Rightarrow> ptr \<Rightarrow> int \<times> 'q) \<Rightarrow> ('q \<Rightarrow> ptr \<times> 'q) \<Rightarrow> 'q \<Rightarrow> queue_op \<Rightarrow> queue_result \<times> 'q" where
  "op_step ins rm q (Insert x) = (case ins q x of (rc, q') \<Rightarrow> (Inserted rc, q'))"
| "op_step ins rm q Remove = (case rm q of (x, q') \<Rightarrow> (Removed x, q'))"

fun run_ops :: "('q \<Rightarrow> queue_op \<Rightarrow> queue_result \<times> 'q) \<Rightarrow> 'q \<Rightarrow> queue_op list \<Rightarrow> queue_result list \<times> 'q" where
  "run_ops step q [] = ([], q)"
| "run_ops step q (a # as) =
    (let (r, q') = step q a; (rs, q'') = run_ops step q' as in (r # rs, q''))"

text \<open>The pointers a run takes in and hands out.\<close>

fun taken_in :: "queue_op list \<Rightarrow> queue_result list \<Rightarrow> ptr multiset" where
  "taken_in (Insert x # as) (Inserted rc # rs) = (if rc = 0 then {#x#} else {#}) + taken_in as rs"
| "taken_in (_ # as) (_ # rs) = taken_in as rs"
| "taken_in _ _ = {#}"

fun handed_out :: "queue_result list \<Rightarrow> ptr multiset" where
  "handed_out (Removed x # rs) = (if x = NULL then {#} else {#x#}) + handed_out rs"
| "handed_out (_ # rs) = handed_out rs"
| "handed_out [] = {#}"

locale bounded_fifo =
  fixes inv :: "'q \<Rightarrow> bool"
    and abs :: "'q \<Rightarrow> ptr list"
    and cap :: "'q \<Rightarrow> nat"
    and ins :: "'q \<Rightarrow> ptr \<Rightarrow> int \<times> 'q"
    and rm :: "'q \<Rightarrow> ptr \<times> 'q"
  assumes abs_cap: "inv q \<Longrightarrow> length (abs q) \<le> cap q"
    and ins_full: "inv q \<Longrightarrow> length (abs q) = cap q \<Longrightarrow> ins q x = (-1, q)"
    and ins_room: "inv q \<Longrightarrow> length (abs q) < cap q \<Longrightarrow> ins q x = (rc, q') \<Longrightarrow>
      rc = 0 \<and> inv q' \<and> abs q' = abs q @ [x] \<and> cap q' = cap q"
    and rm_empty: "inv q \<Longrightarrow> abs q = [] \<Longrightarrow> rm q = (NULL, q)"
    and rm_some: "inv q \<Longrightarrow> abs q = x # xs \<Longrightarrow> rm q = (p, q') \<Longrightarrow>
      p = x \<and> inv q' \<and> abs q' = xs \<and> cap q' = cap q"
begin

lemma step_refines:
  assumes "inv q" "op_step ins rm q a = (r, q')"
  shows "fifo_step (cap q) (abs q) a = (r, abs q')" "inv q'" "cap q' = cap q"
proof -
  have "fifo_step (cap q) (abs q) a = (r, abs q') \<and> inv q' \<and> cap q' = cap q"
  proof (cases a)
    case (Insert x)
    obtain rc q1 where i: "ins q x = (rc, q1)" by fastforce
    with assms(2) Insert have r: "r = Inserted rc" "q' = q1" by auto
    show ?thesis
    proof (cases "length (abs q) < cap q")
      case True
      with ins_room [OF assms(1) True i] Insert r show ?thesis by simp
    next
      case False
      then have "ins q x = (-1, q)"
        using abs_cap [OF assms(1)] ins_full [OF assms(1)] by simp
      with False i Insert r assms(1) show ?thesis by simp
    qed
  next
    case Remove
    obtain p q1 where i: "rm q = (p, q1)" by fastforce
    with assms(2) Remove have r: "r = Removed p" "q' = q1" by auto
    show ?thesis
    proof (cases "abs q")
      case Nil
      with i rm_empty [OF assms(1) Nil] r Remove assms(1) show ?thesis by simp
    next
      case (Cons x xs)
      with rm_some [OF assms(1) Cons i] Remove r show ?thesis by simp
    qed
  qed
  then show "fifo_step (cap q) (abs q) a = (r, abs q')" "inv q'" "cap q' = cap q" by auto
qed

lemma run_refines:
  "inv q \<Longrightarrow> run_ops (op_step ins rm) q as = (rs, q') \<Longrightarrow>
   run_ops (fifo_step (cap q)) (abs q) as = (rs, abs q') \<and> inv q' \<and> cap q' = cap q"
proof (induction as arbitrary: q rs q')
  case (Cons a as)
  obtain r q1 where 1: "op_step ins rm q a = (r, q1)" by fastforce
  obtain rs' q2 where 2: "run_ops (op_step ins rm) q1 as = (rs', q2)" by fastforce
  show ?case
    using Cons.prems 1 2 step_refines [OF Cons.prems(1) 1] Cons.IH [OF _ 2] by simp
qed simp

lemma run_conserves:
  "inv q \<Longrightarrow> NULL \<notin> set (abs q) \<Longrightarrow> Insert NULL \<notin> set as \<Longrightarrow>
   run_ops (op_step ins rm) q as = (rs, q') \<Longrightarrow>
   mset (abs q) + taken_in as rs = mset (abs q') + handed_out rs"
proof (induction as arbitrary: q rs q')
  case (Cons a as)
  obtain r q1 where 1: "op_step ins rm q a = (r, q1)" by fastforce
  obtain rs' q2 where 2: "run_ops (op_step ins rm) q1 as = (rs', q2)" by fastforce
  note ref = step_refines [OF Cons.prems(1) 1]
  have "NULL \<notin> set (snd (fifo_step (cap q) (abs q) a))"
    using Cons.prems(2,3) by (cases a; cases "abs q") auto
  then have "NULL \<notin> set (abs q1)" using ref(1) by simp
  then have "mset (abs q1) + taken_in as rs' = mset (abs q2) + handed_out rs'"
    using Cons.IH [OF ref(2) _ _ 2] Cons.prems(3) by simp
  moreover have "rs = r # rs'" "q' = q2" using Cons.prems(4) 1 2 by auto
  moreover have "mset (abs q) + taken_in [a] [r] = mset (abs q1) + handed_out [r]"
  proof -
    have "abs q1 = snd (fifo_step (cap q) (abs q) a)" "r = fst (fifo_step (cap q) (abs q) a)"
      using ref(1) by simp_all
    moreover have "NULL \<notin> set xs \<Longrightarrow> a \<noteq> Insert NULL \<Longrightarrow>
        mset xs + taken_in [a] [fst (fifo_step c xs a)] =
        mset (snd (fifo_step c xs a)) + handed_out [fst (fifo_step c xs a)]" for xs c
      by (cases a; cases xs) simp_all
    ultimately show ?thesis using Cons.prems(2,3) by (metis list.set_intros(1))
  qed
  moreover have "taken_in (a # as) (r # rs') = taken_in [a] [r] + taken_in as rs'"
    by (cases a; cases r) auto
  moreover have "handed_out (r # rs') = handed_out [r] + handed_out rs'"
    by (cases r) auto
  ultimately show ?case by (metis add.assoc add.commute)
qed simp

end

interpretation ring: bounded_fifo queue_inv queue_abs q_depth iscsi_queue_insert iscsi_queue_remove
proof
  fix q x rc q'
  assume "queue_inv q" "length (queue_abs q) < q_depth q" "iscsi_queue_insert q x = (rc, q')"
  then show "rc = 0 \<and> queue_inv q' \<and> queue_abs q' = queue_abs q @ [x] \<and> q_depth q' = q_depth q"
    using insert_room [of q x] by simp
next
  fix q x xs p q'
  assume "queue_inv q" "queue_abs q = x # xs" "iscsi_queue_remove q = (p, q')"
  then show "p = x \<and> queue_inv q' \<and> queue_abs q' = xs \<and> q_depth q' = q_depth q"
    using remove_some [of q] length_queue_abs [of q] by simp
qed (simp_all add: queue_inv_def insert_full remove_empty)

subsection \<open>The search from the head\<close>

text \<open>
  The loop looks at the slots \<open>head\<close>, \<open>head + 1\<close>, \<dots> and stops after the slot \<open>tail\<close>: the
  occupied slots and the free slot behind them, or, when the ring is full and \<open>head = tail\<close>, the
  head slot alone.
\<close>

definition scan_last :: "iscsi_queue \<Rightarrow> nat" where
  "scan_last q = (if q_count q = q_depth q then 0 else q_count q)"

definition slot :: "iscsi_queue \<Rightarrow> nat \<Rightarrow> nat" where
  "slot q i = (q_head q + i) mod q_depth q"

lemma slot_less: "queue_inv q \<Longrightarrow> slot q i < q_depth q"
  by (simp add: slot_def queue_inv_def)

lemma slot_eq_iff:
  "queue_inv q \<Longrightarrow> i < q_depth q \<Longrightarrow> j < q_depth q \<Longrightarrow> slot q i = slot q j \<longleftrightarrow> i = j"
  by (simp add: slot_def mod_add_inj)

lemma slot_tail: "queue_inv q \<Longrightarrow> slot q (scan_last q) = q_tail q"
  by (simp add: slot_def scan_last_def queue_inv_def)

lemma scan_last_less: "queue_inv q \<Longrightarrow> scan_last q < q_depth q"
  by (auto simp: scan_last_def queue_inv_def)

lemma queue_scan_step:
  assumes "queue_inv q" "pos \<le> q_depth q" "pos mod q_depth q = slot q i"
    and "i \<le> scan_last q" "scan_last q - i < fuel"
  shows "queue_scan fuel q this pos =
    Some (map_option (slot q) (find (\<lambda>j. q_elem q ! slot q j = this) [i..<Suc (scan_last q)]))"
  using assms
proof (induction fuel arbitrary: pos i)
  case (Suc fuel)
  have wrapped: "(if pos = q_depth q then 0 else pos) = slot q i"
    using Suc.prems(2,3) by (auto simp: le_less)
  have upt: "[i..<Suc (scan_last q)] = i # [Suc i..<Suc (scan_last q)]"
    using Suc.prems(4) by (simp add: upt_conv_Cons)
  show ?case
  proof (cases "q_elem q ! slot q i = this \<or> i = scan_last q")
    case True
    then show ?thesis
      using wrapped upt slot_tail [OF Suc.prems(1)]
      by (auto simp only: queue_scan.simps Let_def) (simp_all add: upt)
  next
    case False
    have "slot q i \<noteq> q_tail q"
      using False slot_eq_iff [OF Suc.prems(1)] slot_tail [OF Suc.prems(1)]
        scan_last_less [OF Suc.prems(1)] Suc.prems(4) by (metis le_less_trans)
    moreover have "Suc i \<le> scan_last q" using False Suc.prems(4) by simp
    moreover have "slot q i + 1 \<le> q_depth q" using slot_less [OF Suc.prems(1), of i] by simp
    moreover have "(slot q i + 1) mod q_depth q = slot q (Suc i)"
      by (simp add: slot_def mod_simps)
    ultimately show ?thesis
      using False Suc.prems wrapped Suc.IH [OF Suc.prems(1), of "slot q i + 1" "Suc i"]
      by (simp only: queue_scan.simps Let_def if_False upt find.simps) simp
  qed
qed simp

lemma queue_scan_total:
  assumes "queue_inv q"
  shows "queue_scan (q_depth q + 1) q this (q_head q) =
    Some (map_option (slot q) (find (\<lambda>j. q_elem q ! slot q j = this) [0..<Suc (scan_last q)]))"
  using assms scan_last_less [OF assms]
  by (intro queue_scan_step) (auto simp: slot_def queue_inv_def)

text \<open>What the loop looks at, in order.\<close>

definition queue_window :: "iscsi_queue \<Rightarrow> ptr list" where
  "queue_window q =
    (if iscsi_queue_full q then take 1 (queue_abs q) else queue_abs q @ [q_elem q ! q_tail q])"

lemma queue_window_slots:
  assumes "queue_inv q"
  shows "queue_window q = map (\<lambda>j. q_elem q ! slot q j) [0..<Suc (scan_last q)]"
proof (cases "q_count q = q_depth q")
  case True
  then have "0 < q_count q" using assms by (simp add: queue_inv_def)
  then have "take 1 (queue_abs q) = [queue_abs q ! 0]"
    by (metis One_nat_def length_queue_abs queue_abs_Nil take_Suc_conv_app_nth take0 append_Nil)
  with True \<open>0 < q_count q\<close> show ?thesis
    by (simp add: queue_window_def iscsi_queue_full_def scan_last_def slot_def)
next
  case False
  then show ?thesis
    using assms
    by (simp add: queue_window_def iscsi_queue_full_def scan_last_def slot_def queue_abs_def queue_inv_def)
qed

lemma find_image: "find (\<lambda>j. f j = x) xs = None \<longleftrightarrow> x \<notin> f ` set xs"
  by (auto simp: find_None_iff image_iff)

lemma find_Some_holds: "find P xs = Some j \<Longrightarrow> P j"
  by (auto simp: find_Some_iff)

lemma get_this_window:
  assumes "queue_inv q" "0 < q_count q"
  shows "iscsi_queue_get_this q this = Some (if this \<in> set (queue_window q) then this else NULL)"
proof (cases "find (\<lambda>j. q_elem q ! slot q j = this) [0..<Suc (scan_last q)]")
  case None
  then have "this \<notin> set (queue_window q)"
    using find_image [of "\<lambda>j. q_elem q ! slot q j" this] queue_window_slots [OF assms(1)]
    by (simp del: upt_Suc)
  with None queue_scan_total [OF assms(1), of this] assms(2) show ?thesis
    by (simp add: iscsi_queue_get_this_def iscsi_queue_depth_def del: upt_Suc queue_scan.simps)
next
  case (Some j)
  then have "this \<in> set (queue_window q)" "q_elem q ! slot q j = this"
    using queue_window_slots [OF assms(1)] find_Some_holds [OF Some]
    by (auto simp: find_Some_iff simp del: upt_Suc intro!: image_eqI)
  with Some queue_scan_total [OF assms(1), of this] assms(2) show ?thesis
    by (simp add: iscsi_queue_get_this_def iscsi_queue_depth_def del: upt_Suc queue_scan.simps)
qed

subsection \<open>Removal from the middle\<close>

lemma length_shift_up [simp]: "length (shift_up hi lo es) = length es"
  by (induction hi lo es rule: shift_up.induct) auto

lemma nth_shift_up:
  "hi < length es \<Longrightarrow> shift_up hi lo es ! k = (if lo < k \<and> k \<le> hi then es ! (k - 1) else es ! k)"
proof (induction hi lo es rule: shift_up.induct)
  case (2 i lo es)
  show ?case
  proof (cases "lo < Suc i")
    case True
    then have "shift_up (Suc i) lo es ! k =
        (if lo < k \<and> k \<le> i then es[Suc i := es ! i] ! (k - 1) else es[Suc i := es ! i] ! k)"
      using 2 by simp
    then show ?thesis
      using 2(2) True by (auto simp: nth_list_update le_Suc_eq)
  qed auto
qed simp

text \<open>The elements in front of position \<open>pos\<close> move one slot on.\<close>

definition closed_up :: "iscsi_queue \<Rightarrow> nat \<Rightarrow> ptr list" where
  "closed_up q pos =
    (if q_head q = pos then q_elem q
     else if q_head q < q_tail q then shift_up pos (q_head q) (q_elem q)
     else if pos < q_head q
       then shift_up (q_depth q - 1) (q_head q)
              ((shift_up pos 0 (q_elem q))[0 := shift_up pos 0 (q_elem q) ! (q_depth q - 1)])
     else shift_up pos (q_head q) (q_elem q))"

lemma length_closed_up [simp]: "length (closed_up q pos) = length (q_elem q)"
  by (simp add: closed_up_def)

lemma nth_closed_up:
  assumes inv: "queue_inv q" and "q_count q < q_depth q" "i < q_count q" "0 < j" "j < q_count q"
  shows "closed_up q (slot q i) ! slot q j =
    (if j \<le> i then q_elem q ! slot q (j - 1) else q_elem q ! slot q j)"
proof -
  let ?h = "q_head q" and ?d = "q_depth q" and ?n = "q_count q"
  have b: "?h < ?d" "length (q_elem q) = ?d" "q_tail q = slot q ?n"
    using inv by (simp_all add: queue_inv_def slot_def)
  have sl: "slot q k = (if ?h + k < ?d then ?h + k else ?h + k - ?d)" if "k \<le> ?d" for k
    using wrap_index [OF b(1) that] by (simp add: slot_def)
  have tl: "?h < q_tail q \<longleftrightarrow> ?h + ?n < ?d" using b sl [of ?n] assms by (auto split: if_splits)
  have i: "slot q i = (if ?h + i < ?d then ?h + i else ?h + i - ?d)"
    and j: "slot q j = (if ?h + j < ?d then ?h + j else ?h + j - ?d)"
    and j1: "slot q (j - 1) = (if ?h + (j - 1) < ?d then ?h + (j - 1) else ?h + (j - 1) - ?d)"
    using sl [of i] sl [of j] sl [of "j - 1"] assms by simp_all
  consider "i = 0" | "0 < i" "?h + ?n < ?d" | "0 < i" "?d \<le> ?h + ?n" "?h + i < ?d"
    | "0 < i" "?d \<le> ?h + i" by linarith
  then show ?thesis
  proof cases
    case 1
    then show ?thesis using b(1) \<open>0 < j\<close> i by (simp add: closed_up_def)
  next
    case 2
    then have "?h < q_tail q" "slot q i = ?h + i" "slot q j = ?h + j" "slot q (j - 1) = ?h + (j - 1)"
      using tl i j j1 assms(3,5) by auto
    moreover have "q_head q + (j - 1) < ?d" using 2 assms by simp
    ultimately show ?thesis using 2 b(2) assms by (auto simp: closed_up_def nth_shift_up)
  next
    case 3
    then have "\<not> ?h < q_tail q" "slot q i = ?h + i" using tl i by simp_all
    then have c: "closed_up q (slot q i) = shift_up (?h + i) ?h (q_elem q)"
      using 3 by (simp add: closed_up_def)
    show ?thesis
    proof (cases "?h + j < ?d")
      case True
      then have "slot q j = ?h + j" "slot q (j - 1) = ?h + (j - 1)" using j j1 by auto
      then show ?thesis using 3 b(2) assms(4) by (simp add: c nth_shift_up)
    next
      case False
      then have "slot q j = ?h + j - ?d" "slot q j < ?h" "\<not> j \<le> i" using j 3 assms by auto
      then show ?thesis using 3 b(2) by (simp add: c nth_shift_up)
    qed
  next
    case 4
    let ?es = "shift_up (?h + i - ?d) 0 (q_elem q)"
    have "\<not> ?h < q_tail q" "slot q i = ?h + i - ?d" "slot q i < ?h" using 4 tl i assms by auto
    then have c: "closed_up q (slot q i) = shift_up (?d - 1) ?h (?es[0 := ?es ! (?d - 1)])"
      using 4 by (simp add: closed_up_def)
    have hi: "?h + i - ?d < ?h" "?h \<le> ?d - 1" using 4 assms b(1) by auto
    show ?thesis
    proof (cases "?h + j < ?d")
      case True
      then have s: "slot q j = ?h + j" "slot q (j - 1) = ?h + (j - 1)" "j \<le> i" using j j1 4 by auto
      have "closed_up q (slot q i) ! slot q j = ?es[0 := ?es ! (?d - 1)] ! (?h + j - 1)"
      proof -
        have "?h + j \<le> ?d - 1" using True by simp
        then show ?thesis using b assms(4) s by (simp add: c nth_shift_up)
      qed
      also have "\<dots> = q_elem q ! (?h + j - 1)"
        using True 4 b hi assms(4) by (simp add: nth_list_update nth_shift_up)
      finally show ?thesis using s assms(4) by simp
    next
      case False
      then have s: "slot q j = ?h + j - ?d" "slot q j < ?h" using j 4 assms by auto
      have sj: "closed_up q (slot q i) ! slot q j = ?es[0 := ?es ! (?d - 1)] ! slot q j"
        using s b by (simp add: c nth_shift_up)
      show ?thesis
      proof (cases "?h + j = ?d")
        case True
        then have "slot q j = 0" "slot q (j - 1) = ?d - 1" "j \<le> i" using s j1 b 4 assms(4) by auto
        then show ?thesis using sj b hi True by (simp add: nth_shift_up nth_list_update)
      next
        case False
        with s \<open>\<not> ?h + j < ?d\<close> have "slot q j \<noteq> 0" "slot q (j - 1) = slot q j - 1"
          "slot q j \<le> ?h + i - ?d \<longleftrightarrow> j \<le> i"
          using j1 4 assms(4) by auto
        then show ?thesis using sj b hi s by (simp add: nth_shift_up nth_list_update)
      qed
    qed
  qed
qed

lemma remove1_nth:
  assumes "i < length xs" "xs ! i = x" "\<forall>k<i. xs ! k \<noteq> x"
  shows "remove1 x xs = take i xs @ drop (Suc i) xs"
proof -
  have "x \<notin> set (take i xs)" using assms by (auto simp: in_set_conv_nth)
  then have "remove1 x (take i xs @ x # drop (Suc i) xs) = take i xs @ drop (Suc i) xs"
    by (simp add: remove1_append)
  then show ?thesis using assms id_take_nth_drop [of i xs] by simp
qed

lemma nth_take_drop:
  "i < length xs \<Longrightarrow> j < length xs - 1 \<Longrightarrow>
   (take i xs @ drop (Suc i) xs) ! j = (if j < i then xs ! j else xs ! Suc j)"
  by (auto simp: nth_append min_def)

lemma remove_this_eq:
  assumes inv: "queue_inv q" and "q_count q < q_depth q" "0 < q_count q"
    and scan: "queue_scan (q_depth q + 1) q this (q_head q) = Some (Some pos)"
    and pos: "pos = slot q i" "i < q_count q"
  shows "iscsi_queue_remove_this q this =
    Some (this, q\<lparr>q_count := q_count q - 1, q_elem := closed_up q pos,
                   q_head := (q_head q + 1) mod q_depth q\<rparr>)"
proof -
  have h: "q_head q < q_depth q" using inv by (simp add: queue_inv_def)
  have "q_head q \<noteq> q_tail q"
  proof
    assume "q_head q = q_tail q"
    then have "slot q 0 = slot q (q_count q)" using inv by (simp add: slot_def queue_inv_def)
    then show False using slot_eq_iff [OF inv, of 0 "q_count q"] assms(2,3) by simp
  qed
  with h assms(3) scan show ?thesis
    by (auto simp: iscsi_queue_remove_this_def iscsi_queue_depth_def closed_up_def Let_def
        simp del: queue_scan.simps)
qed

lemma remove_this_member:
  assumes inv: "queue_inv q" and room: "q_count q < q_depth q" and mem: "this \<in> set (queue_abs q)"
  shows "\<exists>q'. iscsi_queue_remove_this q this = Some (this, q') \<and> queue_inv q' \<and>
              queue_abs q' = remove1 this (queue_abs q) \<and> q_depth q' = q_depth q"
proof -
  let ?P = "\<lambda>j. q_elem q ! slot q j = this"
  have n: "scan_last q = q_count q" using room by (simp add: scan_last_def)
  obtain k where k: "k < q_count q" "?P k"
    using mem by (auto simp: in_set_conv_nth slot_def)
  obtain i where i: "find ?P [0..<Suc (q_count q)] = Some i"
    using k find_image [of "\<lambda>j. q_elem q ! slot q j" this "[0..<Suc (q_count q)]"]
    by (cases "find ?P [0..<Suc (q_count q)]") auto
  have first: "i < Suc (q_count q)" "?P i" "\<forall>j<i. \<not> ?P j"
    using i by (auto simp: find_Some_iff simp del: upt_Suc)
  have ile: "i < q_count q" using first k by (metis leI le_less_trans not_less_eq less_antisym)
  have ne: "0 < q_count q" using ile by simp
  define q' where "q' = q\<lparr>q_count := q_count q - 1, q_elem := closed_up q (slot q i),
                   q_head := (q_head q + 1) mod q_depth q\<rparr>"
  have "iscsi_queue_remove_this q this = Some (this, q')"
    unfolding q'_def using remove_this_eq [OF inv room ne _ refl ile, of this]
      queue_scan_total [OF inv, of this] i n by simp
  moreover have "queue_inv q'"
  proof -
    obtain c where c: "q_count q = Suc c" using ne gr0_conv_Suc by auto
    have "(q_head q + Suc c) mod q_depth q = (Suc (q_head q) mod q_depth q + c) mod q_depth q"
      by (simp add: mod_simps)
    then show ?thesis using inv c by (simp add: q'_def queue_inv_def)
  qed
  moreover have "queue_abs q' = remove1 this (queue_abs q)"
  proof -
    have abs_i: "\<forall>j<i. queue_abs q ! j \<noteq> this" "queue_abs q ! i = this"
      using first ile by (auto simp: slot_def)
    have r: "remove1 this (queue_abs q) = take i (queue_abs q) @ drop (Suc i) (queue_abs q)"
      using remove1_nth [of i "queue_abs q" this] ile abs_i by simp
    show ?thesis
    proof (rule nth_equalityI)
      show "length (queue_abs q') = length (remove1 this (queue_abs q))"
        using r ile by (simp add: q'_def)
    next
      fix j assume "j < length (queue_abs q')"
      then have j: "j < q_count q - 1" by (simp add: q'_def)
      have "queue_abs q' ! j = closed_up q (slot q i) ! slot q (Suc j)"
        using j by (simp add: q'_def slot_def mod_simps)
      also have "\<dots> = (if j < i then q_elem q ! slot q j else q_elem q ! slot q (Suc j))"
        using nth_closed_up [OF inv room ile, of "Suc j"] j by (simp add: Suc_le_eq)
      also have "\<dots> = (take i (queue_abs q) @ drop (Suc i) (queue_abs q)) ! j"
        using nth_take_drop [of i "queue_abs q" j] j ile by (simp add: slot_def)
      finally show "queue_abs q' ! j = remove1 this (queue_abs q) ! j" using r by simp
    qed
  qed
  ultimately show ?thesis by (auto simp: q'_def)
qed

subsection \<open>What the rest of the program relies on\<close>

text \<open>C27. A run of insertions and removals on a ring gives, call by call, the answers the bounded
  first-in first-out list gives (error codes included), and ends in a ring that stands for the
  final list.\<close>

theorem queue_run_refines_list:
  "queue_inv q \<Longrightarrow>
   run_ops (op_step iscsi_queue_insert iscsi_queue_remove) q as = (rs, q') \<Longrightarrow>
   run_ops (fifo_step (q_depth q)) (queue_abs q) as = (rs, queue_abs q') \<and> queue_inv q' \<and>
   q_depth q' = q_depth q"
  by (rule ring.run_refines)

definition two_slots :: iscsi_queue where
  "two_slots = \<lparr>q_head = 0, q_tail = 0, q_count = 0, q_elem = [7, 7], q_depth = 2\<rparr>"

definition run_example :: "queue_op list" where
  "run_example = [Insert 5, Insert 6, Insert 8, Remove, Insert 9, Remove]"

lemma two_slots_inv: "queue_inv two_slots"
  by (simp add: two_slots_def queue_inv_def)

lemma run_example_result:
  "run_ops (op_step iscsi_queue_insert iscsi_queue_remove) two_slots run_example =
    ([Inserted 0, Inserted 0, Inserted (-1), Removed 5, Inserted 0, Removed 6],
     \<lparr>q_head = 0, q_tail = 1, q_count = 1, q_elem = [9, 6], q_depth = 2\<rparr>)"
  by code_simp

theorem queue_run_refines_list_witness:
  "run_ops (fifo_step 2) [] run_example =
    ([Inserted 0, Inserted 0, Inserted (-1), Removed 5, Inserted 0, Removed 6], [9])"
  using queue_run_refines_list [OF two_slots_inv run_example_result]
  by (simp add: two_slots_def queue_abs_def)

text \<open>Pointers are neither lost nor duplicated: what was queued and what a run took in is what
  is queued afterwards and what the run handed out, counted with multiplicity.\<close>

theorem queue_run_conserves_pointers:
  "queue_inv q \<Longrightarrow> NULL \<notin> set (queue_abs q) \<Longrightarrow> Insert NULL \<notin> set as \<Longrightarrow>
   run_ops (op_step iscsi_queue_insert iscsi_queue_remove) q as = (rs, q') \<Longrightarrow>
   mset (queue_abs q) + taken_in as rs = mset (queue_abs q') + handed_out rs"
  by (rule ring.run_conserves)

theorem queue_run_conserves_pointers_witness:
  "taken_in run_example [Inserted 0, Inserted 0, Inserted (-1), Removed 5, Inserted 0, Removed 6] =
    {#9#} + {#5, 6#}"
  using queue_run_conserves_pointers [OF two_slots_inv _ _ run_example_result]
  by (simp add: two_slots_def queue_abs_def run_example_def NULL_def)

text \<open>As long as the ring is not full, \<^verbatim>\<open>iscsi_queue_remove_this\<close> on a queued pointer returns it
  and takes out its oldest occurrence, keeping the order of all others.\<close>

theorem remove_this_removes_first:
  assumes "queue_inv q" "q_count q < q_depth q" "this \<in> set (queue_abs q)"
  shows "\<exists>q'. iscsi_queue_remove_this q this = Some (this, q') \<and> queue_inv q' \<and>
              queue_abs q' = remove1 this (queue_abs q) \<and> q_depth q' = q_depth q"
  using assms by (rule remove_this_member)

definition wrapped_ring :: iscsi_queue where
  "wrapped_ring = \<lparr>q_head = 3, q_tail = 2, q_count = 4, q_elem = [13, 14, 7, 11, 12], q_depth = 5\<rparr>"

theorem remove_this_removes_first_witness:
  "\<exists>q'. iscsi_queue_remove_this wrapped_ring 13 = Some (13, q') \<and> queue_abs q' = [11, 12, 14]"
proof -
  have "queue_inv wrapped_ring" "q_count wrapped_ring < q_depth wrapped_ring"
    by (simp_all add: wrapped_ring_def queue_inv_def)
  moreover have "queue_abs wrapped_ring = [11, 12, 13, 14]" by code_simp
  ultimately show ?thesis using remove_this_removes_first [of wrapped_ring 13] by auto
qed

text \<open>The search loop of \<^verbatim>\<open>iscsi_queue_get_this\<close> ends within \<open>depth + 1\<close> rounds on every ring, and
  answers the pointer exactly if it is in one of the slots it looks at: the queued elements and the
  free slot behind the newest one, or only the oldest element when the ring is full.\<close>

theorem get_this_total:
  assumes "queue_inv q" "0 < q_count q"
  shows "iscsi_queue_get_this q this = Some (if this \<in> set (queue_window q) then this else NULL)"
  using assms by (rule get_this_window)

theorem get_this_total_witness: "iscsi_queue_get_this wrapped_ring 14 = Some 14"
  using get_this_total [of wrapped_ring 14]
  by (simp add: wrapped_ring_def queue_inv_def queue_window_def iscsi_queue_full_def
      queue_abs_def upt_rec)

text \<open>Two ways in which the search disagrees with the queue it searches.  On a full ring a queued
  element is not found.  And a pointer that has left the queue can still be found in the free slot:
  removing it \<open>again\<close> then reports success and drops another element.\<close>

theorem search_defects:
  "let full = snd (iscsi_queue_insert (snd (iscsi_queue_insert two_slots 5)) 6);
       later = snd (iscsi_queue_remove full)
   in queue_abs full = [5, 6] \<and> iscsi_queue_get_this full 6 = Some NULL \<and>
      queue_abs later = [6] \<and>
      map_option (\<lambda>(p, q'). (p, queue_abs q')) (iscsi_queue_remove_this later 5) = Some (5, [])"
  by code_simp

end
