(* ===== verification/Hash_Table.thy ===== *)
theory Hash_Table
  imports Ring_Queue
begin

section \<open>The hash tables of \<^verbatim>\<open>util.c\<close>\<close>

text \<open>
  A \<^verbatim>\<open>HASH_T\<close> is an array of singly linked buckets.  The elements live inside the commands they
  index (\<^verbatim>\<open>cmd->hash\<close>) and are linked through their \<open>next\<close> pointers, so the model keeps the heap of
  elements explicit.  Every operation takes the table's lock first: on a table whose lock is held it
  never returns, which is the result \<open>None\<close>; the chain walks are partial functions for the same
  reason.
\<close>

subsection \<open>State\<close>

record hash_elem =
  he_next :: ptr
  he_key :: u32
  he_ptr :: ptr

type_synonym elem_heap = "ptr \<Rightarrow> hash_elem"

record hash_t =
  ht_bucket :: "ptr list"
  ht_collisions :: int
  ht_insertions :: int
  ht_n :: nat
  ht_locked :: bool

type_synonym hash_state = "elem_heap \<times> hash_t"

subsection \<open>Operations\<close>

text \<open>\<open>alloc\<close> tells whether the allocation of the bucket array succeeds.\<close>

definition hash_init :: "bool \<Rightarrow> hash_t \<Rightarrow> nat \<Rightarrow> int \<times> hash_t" where
  "hash_init alloc t n =
    (let t = t\<lparr>ht_locked := False\<rparr>;
         t = t\<lparr>ht_n := n, ht_insertions := 0, ht_collisions := 0\<rparr>
     in if \<not> alloc then (-1, t) else (0, t\<lparr>ht_bucket := replicate n NULL\<rparr>))"

definition hash_lock :: "hash_t \<Rightarrow> hash_t option" where
  "hash_lock t = (if ht_locked t then None else Some (t\<lparr>ht_locked := True\<rparr>))"

definition hash_unlock :: "hash_t \<Rightarrow> hash_t" where
  "hash_unlock t = t\<lparr>ht_locked := False\<rparr>"

definition bucket_index :: "hash_t \<Rightarrow> u32 \<Rightarrow> nat" where
  "bucket_index t key = unat key mod ht_n t"

text \<open>\<^verbatim>\<open>while (ptr) { if (elem->key == ptr->key) return -1; ptr = ptr->next; }\<close>\<close>

partial_function (option) chain_has_key :: "elem_heap \<Rightarrow> u32 \<Rightarrow> ptr \<Rightarrow> bool option" where
  [code]: "chain_has_key hp key p =
    (if p = NULL then Some False
     else if key = he_key (hp p) then Some True
     else chain_has_key hp key (he_next (hp p)))"

definition hash_insert :: "hash_state \<Rightarrow> ptr \<Rightarrow> (int \<times> hash_state) option" where
  "hash_insert s elem =
    (case s of (hp, t) \<Rightarrow>
     case hash_lock t of None \<Rightarrow> None
     | Some t \<Rightarrow>
       let i = bucket_index t (he_key (hp elem))
       in if ht_bucket t ! i = NULL then
            let t = t\<lparr>ht_bucket := (ht_bucket t)[i := elem]\<rparr>;
                hp = hp(elem := (hp elem)\<lparr>he_next := NULL\<rparr>);
                t = t\<lparr>ht_insertions := ht_insertions t + 1\<rparr>
            in Some (0, (hp, hash_unlock t))
          else
            case chain_has_key hp (he_key (hp elem)) (ht_bucket t ! i) of
              None \<Rightarrow> None
            | Some True \<Rightarrow> Some (-1, (hp, t))
            | Some False \<Rightarrow>
                let hp = hp(elem := (hp elem)\<lparr>he_next := ht_bucket t ! i\<rparr>);
                    t = t\<lparr>ht_bucket := (ht_bucket t)[i := elem]\<rparr>;
                    t = t\<lparr>ht_collisions := ht_collisions t + 1\<rparr>;
                    t = t\<lparr>ht_insertions := ht_insertions t + 1\<rparr>
                in Some (0, (hp, hash_unlock t)))"

text \<open>\<^verbatim>\<open>HASH_INSERT_ELSE\<close>: the element \<open>elem\<close> of the object \<open>obj\<close> is filled in and inserted.\<close>

definition hash_put :: "hash_state \<Rightarrow> ptr \<Rightarrow> ptr \<Rightarrow> u32 \<Rightarrow> (int \<times> hash_state) option" where
  "hash_put s elem obj tag =
    (case s of (hp, t) \<Rightarrow>
      hash_insert (hp(elem := (hp elem)\<lparr>he_key := tag, he_ptr := obj\<rparr>), t) elem)"

text \<open>
  \<^verbatim>\<open>while ((cur->key!=key)&&(cur->next!= NULL)) { prev = cur; cur = cur->next; }\<close>
\<close>

partial_function (option) chain_walk ::
  "elem_heap \<Rightarrow> u32 \<Rightarrow> ptr \<Rightarrow> ptr \<Rightarrow> (ptr \<times> ptr) option" where
  [code]: "chain_walk hp key prev cur =
    (if he_key (hp cur) \<noteq> key \<and> he_next (hp cur) \<noteq> NULL
     then chain_walk hp key cur (he_next (hp cur))
     else Some (prev, cur))"

text \<open>\<open>hash_get_elem\<close> is the same search, answering the element instead of its \<open>ptr\<close>.\<close>

definition hash_get_elem :: "hash_state \<Rightarrow> u32 \<Rightarrow> (ptr \<times> hash_state) option" where
  "hash_get_elem s key =
    (case s of (hp, t) \<Rightarrow>
     case hash_lock t of None \<Rightarrow> None
     | Some t \<Rightarrow>
       let i = bucket_index t key
       in if ht_bucket t ! i = NULL then Some (NULL, (hp, hash_unlock t))
          else case chain_walk hp key NULL (ht_bucket t ! i) of
            None \<Rightarrow> None
          | Some (prev, cur) \<Rightarrow>
              let cur = (if he_key (hp cur) \<noteq> key then NULL else cur)
              in Some (cur, (hp, hash_unlock t)))"

definition hash_get :: "hash_state \<Rightarrow> u32 \<Rightarrow> (ptr \<times> hash_state) option" where
  "hash_get s key =
    (case s of (hp, t) \<Rightarrow>
     case hash_lock t of None \<Rightarrow> None
     | Some t \<Rightarrow>
       let i = bucket_index t key
       in if ht_bucket t ! i = NULL then Some (NULL, (hp, hash_unlock t))
          else case chain_walk hp key NULL (ht_bucket t ! i) of
            None \<Rightarrow> None
          | Some (prev, cur) \<Rightarrow>
              let cur = (if he_key (hp cur) \<noteq> key then NULL else cur)
              in Some (if cur \<noteq> NULL then he_ptr (hp cur) else NULL, (hp, hash_unlock t)))"

definition hash_remove_elem :: "hash_state \<Rightarrow> u32 \<Rightarrow> (ptr \<times> hash_state) option" where
  "hash_remove_elem s key =
    (case s of (hp, t) \<Rightarrow>
     case hash_lock t of None \<Rightarrow> None
     | Some t \<Rightarrow>
       let i = bucket_index t key
       in if ht_bucket t ! i = NULL then Some (NULL, (hp, hash_unlock t))
          else case chain_walk hp key NULL (ht_bucket t ! i) of
            None \<Rightarrow> None
          | Some (prev, cur) \<Rightarrow>
              if he_key (hp cur) \<noteq> key then Some (NULL, (hp, hash_unlock t))
              else if prev = NULL then
                let t = t\<lparr>ht_bucket := (ht_bucket t)[i := he_next (hp (ht_bucket t ! i))]\<rparr>
                in Some (cur, (hp, hash_unlock t))
              else
                let hp = hp(prev := (hp prev)\<lparr>he_next := he_next (hp cur)\<rparr>)
                in Some (cur, (hp, hash_unlock t)))"

definition hash_remove :: "hash_state \<Rightarrow> u32 \<Rightarrow> (ptr \<times> hash_state) option" where
  "hash_remove s key =
    (case s of (hp, t) \<Rightarrow>
     case hash_lock t of None \<Rightarrow> None
     | Some t \<Rightarrow>
       let i = bucket_index t key
       in if ht_bucket t ! i = NULL then Some (NULL, (hp, hash_unlock t))
          else case chain_walk hp key NULL (ht_bucket t ! i) of
            None \<Rightarrow> None
          | Some (prev, cur) \<Rightarrow>
              if he_key (hp cur) \<noteq> key then Some (NULL, (hp, hash_unlock t))
              else if prev = NULL then
                let t = t\<lparr>ht_bucket := (ht_bucket t)[i := he_next (hp (ht_bucket t ! i))]\<rparr>
                in Some (he_ptr (hp cur), (hp, hash_unlock t))
              else
                let hp = hp(prev := (hp prev)\<lparr>he_next := he_next (hp cur)\<rparr>)
                in Some (he_ptr (hp cur), (hp, hash_unlock t)))"

text \<open>The loop of \<^verbatim>\<open>hash_remove_head\<close> over the buckets from number \<open>i\<close> on.\<close>

fun first_bucket :: "nat \<Rightarrow> ptr list \<Rightarrow> nat option" where
  "first_bucket i [] = None"
| "first_bucket i (b # bs) = (if b \<noteq> NULL then Some i else first_bucket (i + 1) bs)"

definition hash_remove_head :: "hash_state \<Rightarrow> (ptr \<times> hash_state) option" where
  "hash_remove_head s =
    (case s of (hp, t) \<Rightarrow>
     case hash_lock t of None \<Rightarrow> None
     | Some t \<Rightarrow>
       case first_bucket 0 (take (ht_n t) (ht_bucket t)) of
         None \<Rightarrow> Some (NULL, (hp, hash_unlock t))
       | Some i \<Rightarrow>
           let cur = ht_bucket t ! i;
               t = t\<lparr>ht_bucket := (ht_bucket t)[i := he_next (hp (ht_bucket t ! i))]\<rparr>
           in Some (he_ptr (hp cur), (hp, hash_unlock t)))"

text \<open>\<^verbatim>\<open>while (cur) { cnt++; cur = cur->next; if (cur == h->bucket[i]) break; }\<close>\<close>

partial_function (option) chain_count :: "elem_heap \<Rightarrow> ptr \<Rightarrow> int \<Rightarrow> ptr \<Rightarrow> int option" where
  [code]: "chain_count hp first cnt cur =
    (if cur = NULL then Some cnt
     else if he_next (hp cur) = first then Some (cnt + 1)
     else chain_count hp first (cnt + 1) (he_next (hp cur)))"

fun count_buckets :: "elem_heap \<Rightarrow> int \<Rightarrow> ptr list \<Rightarrow> int option" where
  "count_buckets hp cnt [] = Some cnt"
| "count_buckets hp cnt (b # bs) =
    (case chain_count hp b cnt b of None \<Rightarrow> None | Some cnt \<Rightarrow> count_buckets hp cnt bs)"

definition hash_count :: "hash_state \<Rightarrow> (int \<times> hash_state) option" where
  "hash_count s =
    (case s of (hp, t) \<Rightarrow>
     case hash_lock t of None \<Rightarrow> None
     | Some t \<Rightarrow>
       case count_buckets hp 0 (take (ht_n t) (ht_bucket t)) of
         None \<Rightarrow> None
       | Some cnt \<Rightarrow> Some (cnt, (hp, hash_unlock t)))"

definition hash_destroy :: "hash_t \<Rightarrow> hash_t" where
  "hash_destroy t = t\<lparr>ht_n := 0, ht_bucket := []\<rparr>"

subsection \<open>Chains\<close>

fun chain :: "elem_heap \<Rightarrow> ptr \<Rightarrow> ptr list \<Rightarrow> bool" where
  "chain hp p [] \<longleftrightarrow> p = NULL"
| "chain hp p (a # as) \<longleftrightarrow> p = a \<and> p \<noteq> NULL \<and> chain hp (he_next (hp p)) as"

lemma chain_NULL [simp]: "chain hp NULL as \<longleftrightarrow> as = []"
  by (cases as) auto

lemma chain_nonNULL: "chain hp p as \<Longrightarrow> p \<noteq> NULL \<Longrightarrow> \<exists>bs. as = p # bs"
  by (cases as) auto

lemma chain_members_nonNULL: "chain hp p as \<Longrightarrow> NULL \<notin> set as"
  by (induction as arbitrary: p) auto

text \<open>Only the \<open>next\<close> fields of the members matter.\<close>

lemma chain_cong:
  "\<forall>a\<in>set as. he_next (hp' a) = he_next (hp a) \<Longrightarrow> chain hp' p as \<longleftrightarrow> chain hp p as"
  by (induction as arbitrary: p) auto

lemma chain_unchanged [simp]: "a \<notin> set as \<Longrightarrow> chain (hp(a := e)) p as \<longleftrightarrow> chain hp p as"
  by (rule chain_cong) auto

lemma chain_has_key_chain:
  "chain hp p as \<Longrightarrow> chain_has_key hp k p = Some (k \<in> (\<lambda>a. he_key (hp a)) ` set as)"
proof (induction as arbitrary: p)
  case Nil
  then show ?case by (subst chain_has_key.simps) simp
next
  case (Cons a as)
  then show ?case by (subst chain_has_key.simps) auto
qed

lemma chain_walk_chain:
  assumes "chain hp p (a # as)"
  shows "\<exists>xs c ys. a # as = xs @ c # ys \<and> (\<forall>x\<in>set xs. he_key (hp x) \<noteq> k) \<and>
    chain_walk hp k prev p = Some (if xs = [] then prev else last xs, c) \<and>
    (he_key (hp c) = k \<or> ys = [])"
  using assms
proof (induction as arbitrary: p a prev)
  case Nil
  then show ?case
    by (intro exI [of _ "[]"] exI [of _ a]) (subst chain_walk.simps, auto)
next
  case (Cons b as)
  show ?case
  proof (cases "he_key (hp a) = k")
    case True
    then show ?thesis
      using Cons.prems
      by (intro exI [of _ "[]"] exI [of _ a] exI [of _ "b # as"]) (subst chain_walk.simps, auto)
  next
    case False
    have "chain hp b (b # as)" "p = a" "he_next (hp a) = b" "b \<noteq> NULL" using Cons.prems by auto
    with Cons.IH [of b b a] obtain xs c ys where
      "b # as = xs @ c # ys" "\<forall>x\<in>set xs. he_key (hp x) \<noteq> k"
      "chain_walk hp k a b = Some (if xs = [] then a else last xs, c)" "he_key (hp c) = k \<or> ys = []"
      by blast
    then show ?thesis
      using False \<open>p = a\<close> \<open>he_next (hp a) = b\<close> \<open>b \<noteq> NULL\<close>
      by (intro exI [of _ "a # xs"] exI [of _ c] exI [of _ ys]) (subst chain_walk.simps, auto)
  qed
qed

lemma chain_unlink:
  assumes "chain hp p (xs @ c # ys)" "distinct (xs @ c # ys)" "xs \<noteq> []"
  shows "chain (hp(last xs := (hp (last xs))\<lparr>he_next := he_next (hp c)\<rparr>)) p (xs @ ys)"
  using assms
proof (induction xs arbitrary: p)
  case (Cons a xs)
  let ?hp = "\<lambda>l. hp(l := (hp l)\<lparr>he_next := he_next (hp c)\<rparr>)"
  show ?case
  proof (cases "xs = []")
    case True
    then show ?thesis
      using Cons.prems by (auto simp del: fun_upd_apply) simp_all
  next
    case False
    then have "a \<noteq> last xs" using Cons.prems(2) by auto
    with False Cons show ?thesis by auto
  qed
qed simp

lemma chain_insert_front:
  assumes "chain hp p as" "a \<notin> set as" "a \<noteq> NULL"
  shows "chain (hp(a := (hp a)\<lparr>he_next := p\<rparr>)) a (a # as)"
  using assms chain_cong [of as "hp(a := (hp a)\<lparr>he_next := p\<rparr>)" hp p] by auto

lemma chain_count_chain:
  "chain hp p as \<Longrightarrow> first \<notin> set (tl as) \<Longrightarrow> first \<noteq> NULL \<Longrightarrow>
   chain_count hp first n p = Some (n + int (length as))"
proof (induction as arbitrary: p n)
  case Nil
  then show ?case by (subst chain_count.simps) simp
next
  case (Cons a as)
  then have "he_next (hp a) \<noteq> first" by (cases as) auto
  moreover have "first \<notin> set (tl as)" using Cons.prems(2) by (cases as) auto
  moreover have "p = a" "p \<noteq> NULL" "chain hp (he_next (hp a)) as" using Cons.prems(1) by auto
  ultimately show ?case
    using Cons.IH Cons.prems(3) by (subst chain_count.simps) simp
qed

subsection \<open>What a table stands for\<close>

text \<open>\<open>bs\<close> lists, bucket by bucket, the addresses of the elements.\<close>

definition bucket_keys :: "elem_heap \<Rightarrow> ptr list \<Rightarrow> u32 list" where
  "bucket_keys hp as = map (\<lambda>a. he_key (hp a)) as"

definition hash_repr :: "hash_state \<Rightarrow> ptr list list \<Rightarrow> bool" where
  "hash_repr s bs \<longleftrightarrow> (case s of (hp, t) \<Rightarrow>
     \<not> ht_locked t \<and> 0 < ht_n t \<and> length (ht_bucket t) = ht_n t \<and> length bs = ht_n t \<and>
     (\<forall>i<ht_n t. chain hp (ht_bucket t ! i) (bs ! i) \<and> distinct (bucket_keys hp (bs ! i)) \<and>
        (\<forall>a\<in>set (bs ! i). bucket_index t (he_key (hp a)) = i)))"

definition bucket_map :: "elem_heap \<Rightarrow> ptr list \<Rightarrow> u32 \<rightharpoonup> ptr" where
  "bucket_map hp as = map_of (map (\<lambda>a. (he_key (hp a), he_ptr (hp a))) as)"

definition hash_map :: "hash_state \<Rightarrow> ptr list list \<Rightarrow> u32 \<rightharpoonup> ptr" where
  "hash_map s bs k = (case s of (hp, t) \<Rightarrow> bucket_map hp (bs ! bucket_index t k) k)"

lemma bucket_keys_simps [simp]:
  "bucket_keys hp [] = []" "bucket_keys hp (a # as) = he_key (hp a) # bucket_keys hp as"
  "bucket_keys hp (as @ bs) = bucket_keys hp as @ bucket_keys hp bs"
  by (simp_all add: bucket_keys_def)

lemma distinct_addresses: "distinct (bucket_keys hp as) \<Longrightarrow> distinct as"
  by (simp add: bucket_keys_def distinct_map)

lemma bucket_map_None: "bucket_map hp as k = None \<longleftrightarrow> k \<notin> set (bucket_keys hp as)"
  by (induction as) (auto simp: bucket_map_def bucket_keys_def)

lemma bucket_map_middle:
  "k \<notin> set (bucket_keys hp xs) \<Longrightarrow> he_key (hp c) = k \<Longrightarrow> bucket_map hp (xs @ c # ys) k = Some (he_ptr (hp c))"
  by (induction xs) (auto simp: bucket_map_def bucket_keys_def)

lemma bucket_map_skip:
  "k \<noteq> he_key (hp c) \<Longrightarrow> bucket_map hp (xs @ c # ys) k = bucket_map hp (xs @ ys) k"
  by (induction xs) (auto simp: bucket_map_def)

lemma bucket_map_cong:
  "\<forall>a\<in>set as. he_key (hp' a) = he_key (hp a) \<and> he_ptr (hp' a) = he_ptr (hp a) \<Longrightarrow>
   bucket_map hp' as = bucket_map hp as"
  unfolding bucket_map_def by (rule arg_cong [of _ _ map_of]) auto

lemma bucket_index_less: "0 < ht_n t \<Longrightarrow> bucket_index t k < ht_n t"
  by (simp add: bucket_index_def)

lemma hash_lock_unlocked: "\<not> ht_locked t \<Longrightarrow> hash_lock t = Some (t\<lparr>ht_locked := True\<rparr>)"
  by (simp add: hash_lock_def)

lemma unlock_lock: "\<not> ht_locked t \<Longrightarrow> hash_unlock (t\<lparr>ht_locked := True\<rparr>) = t"
  by (simp add: hash_unlock_def)

text \<open>An operation on a table whose lock is held does not return.\<close>

lemma locked_blocks:
  assumes "ht_locked (snd s)"
  shows "hash_insert s a = None" "hash_get s k = None" "hash_get_elem s k = None"
    "hash_remove s k = None" "hash_remove_elem s k = None" "hash_remove_head s = None"
    "hash_count s = None"
  using assms
  by (cases s; simp add: hash_insert_def hash_get_def hash_get_elem_def hash_remove_def
      hash_remove_elem_def hash_remove_head_def hash_count_def hash_lock_def)+

text \<open>The search in one bucket, seen through the representation.\<close>

lemma bucket_search [consumes 2, case_names found missing]:
  assumes "chain hp p as" "p \<noteq> NULL"
  obtains (found) xs c ys where "as = xs @ c # ys" "k \<notin> set (bucket_keys hp xs)" "he_key (hp c) = k"
      "chain_walk hp k NULL p = Some (if xs = [] then NULL else last xs, c)"
      "bucket_map hp as k = Some (he_ptr (hp c))"
    | (missing) prev c where "chain_walk hp k NULL p = Some (prev, c)" "he_key (hp c) \<noteq> k"
      "bucket_map hp as k = None"
proof -
  obtain bs where bs: "as = p # bs" using chain_nonNULL [OF assms] by blast
  with chain_walk_chain [of hp p p bs k NULL] assms(1) obtain xs c ys where
    w: "as = xs @ c # ys" "\<forall>x\<in>set xs. he_key (hp x) \<noteq> k"
    "chain_walk hp k NULL p = Some (if xs = [] then NULL else last xs, c)" "he_key (hp c) = k \<or> ys = []"
    by auto
  have nk: "k \<notin> set (bucket_keys hp xs)" using w(2) by (auto simp: bucket_keys_def)
  show thesis
  proof (cases "he_key (hp c) = k")
    case True
    show thesis using found [OF w(1) nk True w(3)] bucket_map_middle [OF nk True] w(1) by simp
  next
    case False
    then have "k \<notin> set (bucket_keys hp as)" using w nk by (auto simp: bucket_keys_def)
    then show thesis using missing [OF w(3) False] by (simp add: bucket_map_None)
  qed
qed

lemma hash_get_repr:
  assumes "hash_repr s bs"
  shows "hash_get s k = Some (case hash_map s bs k of None \<Rightarrow> NULL | Some p \<Rightarrow> p, s)"
proof -
  obtain hp t where s: "s = (hp, t)" by fastforce
  let ?i = "bucket_index t k"
  have r: "\<not> ht_locked t" "?i < ht_n t" "chain hp (ht_bucket t ! ?i) (bs ! ?i)"
    using assms bucket_index_less by (auto simp: s hash_repr_def)
  show ?thesis
  proof (cases "ht_bucket t ! ?i = NULL")
    case True
    with r show ?thesis
      by (simp add: s hash_get_def hash_lock_unlocked unlock_lock hash_map_def bucket_index_def
          bucket_map_def)
  next
    case False
    have "NULL \<notin> set (bs ! ?i)" using chain_members_nonNULL [OF r(3)] .
    with r(1) r(3) False show ?thesis
      by (cases rule: bucket_search [OF r(3) False, of k])
        (auto simp: s hash_get_def hash_lock_unlocked unlock_lock hash_map_def bucket_index_def)
  qed
qed

text \<open>Replacing one bucket.\<close>

lemma hash_repr_update:
  assumes "hash_repr (hp, t) bs" "i < ht_n t"
    and t': "ht_n t' = ht_n t" "\<not> ht_locked t'" "ht_bucket t' = (ht_bucket t)[i := p]"
    and others: "\<And>j a. j < ht_n t \<Longrightarrow> j \<noteq> i \<Longrightarrow> a \<in> set (bs ! j) \<Longrightarrow>
      he_next (hp' a) = he_next (hp a) \<and> he_key (hp' a) = he_key (hp a)"
    and new: "chain hp' p as" "distinct (bucket_keys hp' as)"
      "\<And>a. a \<in> set as \<Longrightarrow> bucket_index t (he_key (hp' a)) = i"
  shows "hash_repr (hp', t') (bs[i := as])"
proof -
  have idx: "bucket_index t' = bucket_index t" by (simp add: fun_eq_iff bucket_index_def t')
  have "chain hp' ((ht_bucket t)[i := p] ! j) (bs[i := as] ! j) \<and>
      distinct (bucket_keys hp' (bs[i := as] ! j)) \<and>
      (\<forall>a\<in>set (bs[i := as] ! j). bucket_index t (he_key (hp' a)) = j)" if "j < ht_n t" for j
  proof (cases "j = i")
    case True
    then show ?thesis using assms by (simp add: hash_repr_def)
  next
    case False
    then have "bucket_keys hp' (bs ! j) = bucket_keys hp (bs ! j)"
      using others [OF that] by (simp add: bucket_keys_def)
    then show ?thesis
      using False assms(1) that others [OF that False] chain_cong [of "bs ! j" hp' hp "ht_bucket t ! j"]
      by (simp add: hash_repr_def)
  qed
  then show ?thesis using assms(1) t' idx by (simp add: hash_repr_def)
qed

lemma hash_repr_bucket:
  assumes "hash_repr (hp, t) bs" "i < ht_n t"
  shows "chain hp (ht_bucket t ! i) (bs ! i)" "distinct (bucket_keys hp (bs ! i))"
    "\<And>a. a \<in> set (bs ! i) \<Longrightarrow> bucket_index t (he_key (hp a)) = i"
    "length (ht_bucket t) = ht_n t" "length bs = ht_n t" "\<not> ht_locked t" "0 < ht_n t"
  using assms by (auto simp: hash_repr_def)

lemma hash_put_fresh:
  assumes repr: "hash_repr s bs" and none: "hash_map s bs k = None"
    and fresh: "a \<notin> set (concat bs)" "a \<noteq> NULL" and i: "i = bucket_index (snd s) k"
  shows "\<exists>s'. hash_put s a obj k = Some (0, s') \<and> hash_repr s' (bs[i := a # bs ! i]) \<and>
    hash_map s' (bs[i := a # bs ! i]) = (hash_map s bs)(k \<mapsto> obj)"
proof -
  obtain hp t where s: "s = (hp, t)" by fastforce
  define hp1 where "hp1 = hp(a := (hp a)\<lparr>he_key := k, he_ptr := obj\<rparr>)"
  define hp2 where "hp2 = hp(a := \<lparr>he_next = ht_bucket t ! i, he_key = k, he_ptr = obj\<rparr>)"
  have i': "i = bucket_index t k" "i < ht_n t"
    using i bucket_index_less repr by (auto simp: s hash_repr_def)
  note r = hash_repr_bucket [OF repr [unfolded s] i'(2)]
  have out: "a \<notin> set (bs ! j)" if "j < ht_n t" for j
    using fresh(1) that r(5) by auto
  have same: "hp2 b = hp b" "hp1 b = hp b" if "b \<in> set (bs ! j)" "j < ht_n t" for b j
    using that out by (auto simp: hp1_def hp2_def)
  have nk: "k \<notin> he_key ` hp ` set (bs ! i)"
    using none by (simp add: s hash_map_def i'(1) [symmetric] bucket_map_None bucket_keys_def image_image)
  have hp12: "hp1(a := (hp1 a)\<lparr>he_next := ht_bucket t ! i\<rparr>) = hp2"
    by (cases "hp a") (simp add: hp1_def hp2_def)
  have walk: "ht_bucket t ! i \<noteq> NULL \<Longrightarrow> chain_has_key hp1 k (ht_bucket t ! i) = Some False"
    using chain_has_key_chain [of hp1 "ht_bucket t ! i" "bs ! i" k] r(1) nk
    by (auto simp: chain_cong [of "bs ! i" hp1 hp] same(2) [OF _ i'(2)])
  define t' where "t' = t\<lparr>ht_bucket := (ht_bucket t)[i := a],
    ht_collisions := ht_collisions t + (if ht_bucket t ! i = NULL then 0 else 1),
    ht_insertions := ht_insertions t + 1\<rparr>"
  have k1: "he_key (hp1 a) = k" by (simp add: hp1_def)
  have "hash_put s a obj k = Some (0, (hp2, t'))"
  proof (cases "ht_bucket t ! i = NULL")
    case True
    then show ?thesis
      using r(6) k1 hp12 unlock_lock [of t]
      by (simp add: s hash_put_def hash_insert_def hp1_def [symmetric] hash_lock_unlocked Let_def
          bucket_index_def i'(1) t'_def hash_unlock_def)
  next
    case False
    then show ?thesis
      using r(6) k1 hp12 walk
      by (simp add: s hash_put_def hash_insert_def hp1_def [symmetric] hash_lock_unlocked Let_def
          bucket_index_def i'(1) t'_def hash_unlock_def)
  qed
  moreover have "hash_repr (hp2, t') (bs[i := a # bs ! i])"
  proof (rule hash_repr_update [OF repr [unfolded s] i'(2), where p = a])
    have "chain hp2 (ht_bucket t ! i) (bs ! i)"
      using r(1) out [OF i'(2)] by (simp add: hp2_def)
    then show "chain hp2 a (a # bs ! i)" using fresh(2) by (simp add: hp2_def)
    show "distinct (bucket_keys hp2 (a # bs ! i))"
    proof -
      have "bucket_keys hp2 (bs ! i) = bucket_keys hp (bs ! i)"
        using same(1) [OF _ i'(2)] by (simp add: bucket_keys_def)
      moreover have "he_key (hp2 a) = k" by (simp add: hp2_def)
      ultimately show ?thesis
        using r(2) none by (simp add: s hash_map_def i'(1) [symmetric] bucket_map_None)
    qed
    show "\<And>b. b \<in> set (a # bs ! i) \<Longrightarrow> bucket_index t (he_key (hp2 b)) = i"
      using r(3) same(1) [OF _ i'(2)] i'(1) by (auto simp: hp2_def)
    show "\<And>j b. j < ht_n t \<Longrightarrow> j \<noteq> i \<Longrightarrow> b \<in> set (bs ! j) \<Longrightarrow>
        he_next (hp2 b) = he_next (hp b) \<and> he_key (hp2 b) = he_key (hp b)"
      using same(1) by simp
  qed (use r in \<open>simp_all add: t'_def\<close>)
  moreover have "hash_map (hp2, t') (bs[i := a # bs ! i]) = (hash_map s bs)(k \<mapsto> obj)"
  proof
    fix k'
    let ?j = "bucket_index t k'"
    have j: "?j < ht_n t" using bucket_index_less r(7) by simp
    have idx: "bucket_index t' k' = ?j" by (simp add: t'_def bucket_index_def)
    have old: "bucket_map hp2 (bs ! ?j) = bucket_map hp (bs ! ?j)"
      by (rule bucket_map_cong) (use same(1) [OF _ j] in simp)
    show "hash_map (hp2, t') (bs[i := a # bs ! i]) k' = ((hash_map s bs)(k \<mapsto> obj)) k'"
    proof (cases "?j = i")
      case True
      then show ?thesis
        using idx old i'(2) r(5)
        by (auto simp: hash_map_def s bucket_map_def hp2_def)
    next
      case False
      then have "k' \<noteq> k" using i'(1) by auto
      then show ?thesis using False idx old r(5) by (simp add: hash_map_def s)
    qed
  qed
  ultimately show ?thesis by blast
qed

lemma hash_put_duplicate:
  assumes repr: "hash_repr s bs" and dup: "hash_map s bs k \<noteq> None"
    and fresh: "a \<notin> set (concat bs)" "a \<noteq> NULL"
  shows "\<exists>s'. hash_put s a obj k = Some (-1, s') \<and> ht_locked (snd s')"
proof -
  obtain hp t where s: "s = (hp, t)" by fastforce
  define hp1 where "hp1 = hp(a := (hp a)\<lparr>he_key := k, he_ptr := obj\<rparr>)"
  let ?i = "bucket_index t k"
  have i: "?i < ht_n t" using repr bucket_index_less by (auto simp: s hash_repr_def)
  note r = hash_repr_bucket [OF repr [unfolded s] i]
  have out: "a \<notin> set (bs ! ?i)" using fresh(1) i r(5) by auto
  have "k \<in> he_key ` hp ` set (bs ! ?i)"
    using dup bucket_map_None [of hp "bs ! ?i" k] by (auto simp: s hash_map_def bucket_keys_def)
  then have k: "k \<in> (\<lambda>b. he_key (hp1 b)) ` set (bs ! ?i)"
    using out by (auto simp: hp1_def image_iff)
  then have "bs ! ?i \<noteq> []" by auto
  then have ne: "ht_bucket t ! ?i \<noteq> NULL" using r(1) by auto
  have "chain_has_key hp1 k (ht_bucket t ! ?i) = Some True"
    using chain_has_key_chain [of hp1 "ht_bucket t ! ?i" "bs ! ?i" k] r(1) out k by (simp add: hp1_def)
  then show ?thesis
    using r(6) ne
    by (simp add: s hash_put_def hash_insert_def hp1_def [symmetric] hash_lock_unlocked Let_def)
      (simp add: hp1_def bucket_index_def)
qed

lemma bucket_map_remove:
  assumes "distinct (bucket_keys hp (xs @ c # ys))"
  shows "bucket_map hp (xs @ ys) = (bucket_map hp (xs @ c # ys))(he_key (hp c) := None)"
proof
  fix k
  show "bucket_map hp (xs @ ys) k = ((bucket_map hp (xs @ c # ys))(he_key (hp c) := None)) k"
  proof (cases "k = he_key (hp c)")
    case True
    then have "k \<notin> set (bucket_keys hp (xs @ ys))" using assms by auto
    then show ?thesis using True by (simp add: bucket_map_None)
  qed (simp add: bucket_map_skip)
qed

text \<open>Taking one element out of bucket \<open>i\<close>, as the pointer updates of \<^verbatim>\<open>hash_remove\<close> do.\<close>

lemma hash_repr_unlink:
  assumes repr: "hash_repr (hp, t) bs" and i: "i < ht_n t" and split: "bs ! i = xs @ c # ys"
    and hp': "hp' = (if xs = [] then hp else hp(last xs := (hp (last xs))\<lparr>he_next := he_next (hp c)\<rparr>))"
    and t': "t' = (if xs = [] then t\<lparr>ht_bucket := (ht_bucket t)[i := he_next (hp c)]\<rparr> else t)"
  shows "hash_repr (hp', t') (bs[i := xs @ ys])"
    and "hash_map (hp', t') (bs[i := xs @ ys]) = (hash_map (hp, t) bs)(he_key (hp c) := None)"
proof -
  note r = hash_repr_bucket [OF repr i]
  have ch: "chain hp (ht_bucket t ! i) (xs @ c # ys)" and dist: "distinct (bucket_keys hp (xs @ c # ys))"
    using r(1,2) split by simp_all
  have fields: "he_key (hp' a) = he_key (hp a)" "he_ptr (hp' a) = he_ptr (hp a)" for a
    by (simp_all add: hp')
  have keys: "bucket_keys hp' as = bucket_keys hp as" "bucket_map hp' as = bucket_map hp as" for as
    using fields by (simp_all add: bucket_keys_def bucket_map_def)
  have idx: "bucket_index t' = bucket_index t" by (simp add: fun_eq_iff bucket_index_def t')
  let ?p = "if xs = [] then he_next (hp c) else ht_bucket t ! i"
  show "hash_repr (hp', t') (bs[i := xs @ ys])"
  proof (rule hash_repr_update [OF repr i, where p = ?p])
    show "ht_bucket t' = (ht_bucket t)[i := ?p]" by (simp add: t')
    show "chain hp' ?p (xs @ ys)"
      using ch chain_unlink [OF ch distinct_addresses [OF dist]] by (auto simp: hp')
    show "distinct (bucket_keys hp' (xs @ ys))" using dist unfolding keys by auto
    show "\<And>a. a \<in> set (xs @ ys) \<Longrightarrow> bucket_index t (he_key (hp' a)) = i"
      using r(3) split by (simp add: fields)
    fix j a assume j: "j < ht_n t" "j \<noteq> i" "a \<in> set (bs ! j)"
    have "bucket_index t (he_key (hp a)) = j" using hash_repr_bucket(3) [OF repr j(1) j(3)] .
    moreover have "xs \<noteq> [] \<Longrightarrow> bucket_index t (he_key (hp (last xs))) = i" using r(3) split by simp
    ultimately have "xs \<noteq> [] \<Longrightarrow> a \<noteq> last xs" using j(2) by auto
    then show "he_next (hp' a) = he_next (hp a) \<and> he_key (hp' a) = he_key (hp a)"
      by (simp add: hp')
  qed (use r(6) in \<open>simp_all add: t'\<close>)
  show "hash_map (hp', t') (bs[i := xs @ ys]) = (hash_map (hp, t) bs)(he_key (hp c) := None)"
  proof
    fix k
    have "bucket_index t (he_key (hp c)) = i" using r(3) split by simp
    then show "hash_map (hp', t') (bs[i := xs @ ys]) k = ((hash_map (hp, t) bs)(he_key (hp c) := None)) k"
      using bucket_map_remove [OF dist] split i r(5) idx keys(2)
      by (cases "bucket_index t k = i") (auto simp: hash_map_def)
  qed
qed

lemma hash_remove_present:
  assumes repr: "hash_repr s bs" and some: "hash_map s bs k = Some obj"
  shows "\<exists>xs c ys s'. bs ! bucket_index (snd s) k = xs @ c # ys \<and> he_key (fst s c) = k \<and>
    hash_remove s k = Some (obj, s') \<and> hash_remove_elem s k = Some (c, s') \<and>
    hash_repr s' (bs[bucket_index (snd s) k := xs @ ys]) \<and>
    hash_map s' (bs[bucket_index (snd s) k := xs @ ys]) = (hash_map s bs)(k := None)"
proof -
  obtain hp t where s: "s = (hp, t)" by fastforce
  let ?i = "bucket_index t k"
  have i: "?i < ht_n t" using repr bucket_index_less by (auto simp: s hash_repr_def)
  note r = hash_repr_bucket [OF repr [unfolded s] i]
  have "bs ! ?i \<noteq> []" using some by (auto simp: s hash_map_def bucket_map_def)
  then have ne: "ht_bucket t ! ?i \<noteq> NULL" using r(1) by auto
  show ?thesis
    using r(1) ne
  proof (cases rule: bucket_search [where k = k])
    case (found xs c ys)
    let ?s' = "(if xs = [] then hp else hp(last xs := (hp (last xs))\<lparr>he_next := he_next (hp c)\<rparr>),
                if xs = [] then t\<lparr>ht_bucket := (ht_bucket t)[?i := he_next (hp c)]\<rparr> else t)"
    have obj: "obj = he_ptr (hp c)" using some found(5) by (simp add: s hash_map_def)
    have nz: "xs \<noteq> [] \<Longrightarrow> last xs \<noteq> NULL"
      using chain_members_nonNULL [OF r(1)] found(1) by (metis UnCI last_in_set set_append)
    have hd: "xs = [] \<Longrightarrow> ht_bucket t ! ?i = c" using r(1) found(1) by simp
    have rem: "hash_remove s k = Some (obj, ?s')" "hash_remove_elem s k = Some (c, ?s')"
      using found(3,4) r(6) ne nz hd obj
      by (auto simp: s hash_remove_def hash_remove_elem_def hash_lock_unlocked Let_def
          bucket_index_def hash_unlock_def)
    show ?thesis
      using hash_repr_unlink [OF repr [unfolded s] i found(1) refl refl] found(1,3) rem
      by (intro exI [of _ xs] exI [of _ c] exI [of _ ys] exI [of _ ?s']) (simp add: s)
  next
    case (missing prev c)
    then show ?thesis using some by (simp add: s hash_map_def)
  qed
qed

lemma hash_remove_absent:
  assumes repr: "hash_repr s bs" and none: "hash_map s bs k = None"
  shows "hash_remove s k = Some (NULL, s)" "hash_remove_elem s k = Some (NULL, s)"
proof -
  obtain hp t where s: "s = (hp, t)" by fastforce
  let ?i = "bucket_index t k"
  have i: "?i < ht_n t" using repr bucket_index_less by (auto simp: s hash_repr_def)
  note r = hash_repr_bucket [OF repr [unfolded s] i]
  have "hash_remove s k = Some (NULL, s) \<and> hash_remove_elem s k = Some (NULL, s)"
  proof (cases "ht_bucket t ! ?i = NULL")
    case True
    then show ?thesis
      using r(6) by (simp add: s hash_remove_def hash_remove_elem_def hash_lock_unlocked
          unlock_lock bucket_index_def)
  next
    case False
    show ?thesis
      using r(1) False
    proof (cases rule: bucket_search [where k = k])
      case (found xs c ys)
      then show ?thesis using none by (simp add: s hash_map_def)
    next
      case (missing prev c)
      then show ?thesis
        using r(6) False by (simp add: s hash_remove_def hash_remove_elem_def hash_lock_unlocked
            unlock_lock bucket_index_def)
    qed
  qed
  then show "hash_remove s k = Some (NULL, s)" "hash_remove_elem s k = Some (NULL, s)" by auto
qed

subsection \<open>Draining and counting\<close>

lemma first_bucket_None: "first_bucket k bs = None \<longleftrightarrow> set bs \<subseteq> {NULL}"
  by (induction k bs rule: first_bucket.induct) auto

lemma first_bucket_Some:
  "first_bucket k bs = Some i \<Longrightarrow> k \<le> i \<and> i < k + length bs \<and> bs ! (i - k) \<noteq> NULL"
proof (induction k bs rule: first_bucket.induct)
  case (2 k b bs)
  show ?case
  proof (cases "b = NULL")
    case True
    then have *: "k + 1 \<le> i \<and> i < k + 1 + length bs \<and> bs ! (i - (k + 1)) \<noteq> NULL" using 2 by simp
    then have "i - k = Suc (i - (k + 1))" by linarith
    with * show ?thesis by simp
  next
    case False
    with 2 show ?thesis by simp
  qed
qed simp

lemma in_concat_nth: "a \<in> set (concat bs) \<longleftrightarrow> (\<exists>j<length bs. a \<in> set (bs ! j))"
  by (simp add: Bex_def) (metis in_set_conv_nth)

lemma concat_Nil_nth: "concat bs = [] \<longleftrightarrow> (\<forall>j<length bs. bs ! j = [])"
  by (simp add: concat_eq_Nil_conv all_set_conv_all_nth)

lemma set_bucket_update:
  assumes "i < length bs" "bs ! i = xs @ c # ys" "\<And>j. j < length bs \<Longrightarrow> j \<noteq> i \<Longrightarrow> c \<notin> set (bs ! j)"
    and "c \<notin> set (xs @ ys)"
  shows "set (concat (bs[i := xs @ ys])) = set (concat bs) - {c}"
proof -
  have "a \<in> set (concat (bs[i := xs @ ys])) \<longleftrightarrow> a \<in> set (concat bs) - {c}" for a
  proof
    assume "a \<in> set (concat (bs[i := xs @ ys]))"
    then obtain j where j: "j < length bs" "a \<in> set (bs[i := xs @ ys] ! j)"
      by (auto simp only: in_concat_nth length_list_update)
    then have "a \<in> set (bs ! j)" "a \<noteq> c" using assms by (cases "j = i"; auto)+
    with j(1) have "a \<in> set (concat bs)" unfolding in_concat_nth by blast
    with \<open>a \<noteq> c\<close> show "a \<in> set (concat bs) - {c}" by blast
  next
    assume a: "a \<in> set (concat bs) - {c}"
    then obtain j where j: "j < length bs" "a \<in> set (bs ! j)" "a \<noteq> c"
      unfolding Diff_iff in_concat_nth by blast
    then have "a \<in> set (bs[i := xs @ ys] ! j)" using assms(1,2) by (cases "j = i") auto
    with j(1) show "a \<in> set (concat (bs[i := xs @ ys]))"
      unfolding in_concat_nth length_list_update by blast
  qed
  then show ?thesis by blast
qed

lemma members_after_unlink:
  assumes repr: "hash_repr (hp, t) bs" and i: "i < ht_n t" and split: "bs ! i = xs @ c # ys"
  shows "set (concat (bs[i := xs @ ys])) = set (concat bs) - {c}"
proof (rule set_bucket_update [OF _ split])
  note r = hash_repr_bucket [OF repr i]
  show "i < length bs" using i r(5) by simp
  show "c \<notin> set (xs @ ys)" using distinct_addresses [OF r(2)] split by auto
  fix j assume "j < length bs" "j \<noteq> i"
  then show "c \<notin> set (bs ! j)"
    using hash_repr_bucket(3) [OF repr, of j c] r(3) [of c] split r(5) by auto
qed

lemma hash_remove_head_repr:
  assumes repr: "hash_repr s bs"
  shows "concat bs = [] \<Longrightarrow> hash_remove_head s = Some (NULL, s)"
    and "concat bs \<noteq> [] \<Longrightarrow> \<exists>i c ys s'. bs ! i = c # ys \<and> i < length bs \<and>
      hash_remove_head s = Some (he_ptr (fst s c), s') \<and> hash_repr s' (bs[i := ys]) \<and>
      hash_map s' (bs[i := ys]) = (hash_map s bs)(he_key (fst s c) := None) \<and>
      set (concat (bs[i := ys])) = set (concat bs) - {c}"
proof -
  obtain hp t where s: "s = (hp, t)" by fastforce
  have n: "0 < ht_n t" "\<not> ht_locked t" "length (ht_bucket t) = ht_n t" "length bs = ht_n t"
    using repr by (auto simp: s hash_repr_def)
  have tk: "take (ht_n t) (ht_bucket t) = ht_bucket t" using n(3) by simp
  have nil: "ht_bucket t ! j = NULL \<longleftrightarrow> bs ! j = []" if "j < ht_n t" for j
  proof -
    have "chain hp (ht_bucket t ! j) (bs ! j)" using hash_repr_bucket(1) [OF repr [unfolded s] that] .
    then show ?thesis by (cases "bs ! j") auto
  qed
  {
    assume "concat bs = []"
    then have "\<forall>j<ht_n t. ht_bucket t ! j = NULL" using nil n(4) by (simp add: concat_Nil_nth)
    then have "first_bucket 0 (ht_bucket t) = None"
      using n(3) by (auto simp: first_bucket_None in_set_conv_nth)
    then show "hash_remove_head s = Some (NULL, s)"
      using n(2) tk by (simp add: s hash_remove_head_def hash_lock_unlocked unlock_lock)
  next
    assume "concat bs \<noteq> []"
    then obtain j where "j < ht_n t" "ht_bucket t ! j \<noteq> NULL"
      using nil n(4) unfolding concat_Nil_nth by metis
    then have "\<not> set (ht_bucket t) \<subseteq> {NULL}" using n(3) nth_mem by (metis singletonD subsetD)
    then obtain i where f: "first_bucket 0 (ht_bucket t) = Some i"
      using first_bucket_None [of 0 "ht_bucket t"] by (cases "first_bucket 0 (ht_bucket t)") auto
    then have i: "i < ht_n t" "ht_bucket t ! i \<noteq> NULL" using first_bucket_Some [OF f] n(3) by auto
    obtain c ys where b: "bs ! i = [] @ c # ys" using nil [OF i(1)] i(2) by (cases "bs ! i") auto
    have hd: "ht_bucket t ! i = c" using hash_repr_bucket(1) [OF repr [unfolded s] i(1)] b by simp
    let ?s' = "(hp, t\<lparr>ht_bucket := (ht_bucket t)[i := he_next (hp c)]\<rparr>)"
    have "hash_remove_head s = Some (he_ptr (hp c), ?s')"
      using f tk n(2) hd by (simp add: s hash_remove_head_def hash_lock_unlocked Let_def hash_unlock_def)
    then show "\<exists>i c ys s'. bs ! i = c # ys \<and> i < length bs \<and>
      hash_remove_head s = Some (he_ptr (fst s c), s') \<and> hash_repr s' (bs[i := ys]) \<and>
      hash_map s' (bs[i := ys]) = (hash_map s bs)(he_key (fst s c) := None) \<and>
      set (concat (bs[i := ys])) = set (concat bs) - {c}"
      using hash_repr_unlink [OF repr [unfolded s] i(1) b refl refl] b i(1) n(4)
        members_after_unlink [OF repr [unfolded s] i(1) b]
      by (intro exI [of _ i] exI [of _ c] exI [of _ ys] exI [of _ ?s']) (simp add: s)
  }
qed

lemma count_buckets_chains:
  "length ps = length bs \<Longrightarrow>
   \<forall>i<length bs. chain hp (ps ! i) (bs ! i) \<and> distinct (bs ! i) \<Longrightarrow>
   count_buckets hp n ps = Some (n + int (length (concat bs)))"
proof (induction ps bs arbitrary: n rule: list_induct2)
  case (Cons p ps b bs)
  have b: "chain hp p b" "distinct b" using Cons.prems by auto
  have "chain_count hp p n p = Some (n + int (length b))"
  proof (cases b)
    case Nil
    then show ?thesis using b by (subst chain_count.simps) simp
  next
    case (Cons a as)
    then show ?thesis using b chain_count_chain [of hp p b p n] by auto
  qed
  moreover have "\<forall>i<length bs. chain hp (ps ! i) (bs ! i) \<and> distinct (bs ! i)"
    using Cons.prems by auto
  ultimately show ?case using Cons.IH by simp
qed simp

lemma hash_count_repr:
  assumes "hash_repr s bs"
  shows "hash_count s = Some (int (length (concat bs)), s)"
proof -
  obtain hp t where s: "s = (hp, t)" by fastforce
  have r: "\<not> ht_locked t" "length (ht_bucket t) = ht_n t" "length bs = ht_n t"
    using assms by (auto simp: s hash_repr_def)
  have "count_buckets hp 0 (ht_bucket t) = Some (0 + int (length (concat bs)))"
    using r hash_repr_bucket(1,2) [OF assms [unfolded s]] distinct_addresses
    by (intro count_buckets_chains) auto
  with r show ?thesis by (simp add: s hash_count_def hash_lock_unlocked unlock_lock)
qed

subsection \<open>The contract of a table of commands by tag\<close>

text \<open>
  \<open>rel s A m\<close>: the state \<open>s\<close> holds the elements at the addresses \<open>A\<close> and stands for the map \<open>m\<close>
  from tags to objects.  \<open>stuck s\<close>: no operation on \<open>s\<close> returns.
\<close>

text \<open>
  \<^verbatim>\<open>while ((ptr = hash_remove_head(h)) != NULL) ...\<close>, as the target and the initiator do when a
  session goes away: the objects taken out, in order.
\<close>

partial_function (option) drain_loop ::
  "('s \<Rightarrow> (ptr \<times> 's) option) \<Rightarrow> ptr list \<Rightarrow> 's \<Rightarrow> (ptr list \<times> 's) option" where
  [code]: "drain_loop pop acc s =
    (case pop s of
       None \<Rightarrow> None
     | Some r \<Rightarrow> if fst r = NULL then Some (acc, snd r) else drain_loop pop (acc @ [fst r]) (snd r))"

locale keyed_table =
  fixes rel :: "'s \<Rightarrow> ptr set \<Rightarrow> (u32 \<rightharpoonup> ptr) \<Rightarrow> bool"
    and stuck :: "'s \<Rightarrow> bool"
    and put :: "'s \<Rightarrow> ptr \<Rightarrow> ptr \<Rightarrow> u32 \<Rightarrow> (int \<times> 's) option"
    and get :: "'s \<Rightarrow> u32 \<Rightarrow> (ptr \<times> 's) option"
    and del :: "'s \<Rightarrow> u32 \<Rightarrow> (ptr \<times> 's) option"
    and pop :: "'s \<Rightarrow> (ptr \<times> 's) option"
  assumes put_fresh: "rel s A m \<Longrightarrow> m k = None \<Longrightarrow> a \<notin> A \<Longrightarrow> a \<noteq> NULL \<Longrightarrow>
      \<exists>s'. put s a p k = Some (0, s') \<and> rel s' (insert a A) (m(k \<mapsto> p))"
    and put_dup: "rel s A m \<Longrightarrow> m k \<noteq> None \<Longrightarrow> a \<notin> A \<Longrightarrow> a \<noteq> NULL \<Longrightarrow>
      \<exists>s'. put s a p k = Some (-1, s') \<and> stuck s'"
    and get_rel: "rel s A m \<Longrightarrow> get s k = Some (case m k of None \<Rightarrow> NULL | Some p \<Rightarrow> p, s)"
    and del_some: "rel s A m \<Longrightarrow> m k = Some p \<Longrightarrow>
      \<exists>a\<in>A. \<exists>s'. del s k = Some (p, s') \<and> rel s' (A - {a}) (m(k := None))"
    and del_none: "rel s A m \<Longrightarrow> m k = None \<Longrightarrow> del s k = Some (NULL, s)"
    and pop_some: "rel s A m \<Longrightarrow> A \<noteq> {} \<Longrightarrow>
      \<exists>a\<in>A. \<exists>k p s'. m k = Some p \<and> pop s = Some (p, s') \<and> rel s' (A - {a}) (m(k := None))"
    and pop_none: "rel s {} m \<Longrightarrow> pop s = Some (NULL, s)"
    and stuck_get: "stuck s \<Longrightarrow> get s k = None"
    and stuck_put: "stuck s \<Longrightarrow> put s a p k = None"
    and stuck_del: "stuck s \<Longrightarrow> del s k = None"
    and finite_members: "rel s A m \<Longrightarrow> finite A"
    and map_members: "rel s A m \<Longrightarrow> m = Map.empty \<longleftrightarrow> A = {}"
begin

lemma put_get:
  assumes "rel s A m" "m k = None" "a \<notin> A" "a \<noteq> NULL"
  shows "\<exists>s'. put s a p k = Some (0, s') \<and> rel s' (insert a A) (m(k \<mapsto> p)) \<and>
    get s' k = Some (p, s') \<and> (\<forall>k'. k' \<noteq> k \<longrightarrow> map_option fst (get s' k') = map_option fst (get s k'))"
proof -
  obtain s' where s': "put s a p k = Some (0, s')" "rel s' (insert a A) (m(k \<mapsto> p))"
    using put_fresh [OF assms] by blast
  with get_rel [OF s'(2)] get_rel [OF assms(1)] show ?thesis by (intro exI [of _ s']) simp
qed

lemma put_del:
  assumes "rel s A m" "m k = None" "a \<notin> A" "a \<noteq> NULL"
  shows "\<exists>s' s'' B. put s a p k = Some (0, s') \<and> del s' k = Some (p, s'') \<and> rel s'' B m"
proof -
  obtain s' where s': "put s a p k = Some (0, s')" "rel s' (insert a A) (m(k \<mapsto> p))"
    using put_fresh [OF assms] by blast
  moreover have "m(k \<mapsto> p, k := None) = m" using assms(2) by auto
  ultimately show ?thesis using del_some [OF s'(2), of k p] by (metis fun_upd_same)
qed

lemma put_twice_blocks:
  assumes "rel s A m" "m k \<noteq> None" "a \<notin> A" "a \<noteq> NULL"
  shows "\<exists>s'. put s a p k = Some (-1, s') \<and> get s' k' = None \<and> del s' k' = None \<and>
    put s' b p' k' = None"
  using put_dup [OF assms, of p] stuck_get stuck_put stuck_del by blast

lemma drain_ends:
  "rel s A m \<Longrightarrow> NULL \<notin> ran m \<Longrightarrow>
   \<exists>ps s'. drain_loop pop acc s = Some (acc @ ps, s') \<and> length ps = card A \<and> set ps = ran m \<and>
     rel s' {} Map.empty"
proof (induction "card A" arbitrary: s A m acc)
  case 0
  then have "A = {}" using finite_members by simp
  then have "m = Map.empty" using map_members [OF 0(2)] by simp
  then show ?case
    using \<open>A = {}\<close> 0 pop_none [of s m]
    by (intro exI [of _ "[]"] exI [of _ s]) (subst drain_loop.simps, simp)
next
  case (Suc n)
  then have "A \<noteq> {}" by auto
  then obtain a k p s1 where 1: "a \<in> A" "m k = Some p" "pop s = Some (p, s1)"
      "rel s1 (A - {a}) (m(k := None))"
    using pop_some [OF Suc(3)] by blast
  have n: "n = card (A - {a})" using Suc(2) 1(1) by (simp add: finite_members [OF Suc(3)])
  have sub: "ran (m(k := None)) \<subseteq> ran m" "insert p (ran (m(k := None))) = ran m"
    using 1(2) by (auto simp: ran_def split: if_splits) (metis option.inject)
  have "NULL \<notin> ran (m(k := None))" using Suc(4) sub(1) by blast
  from Suc(1) [OF n 1(4) this, of "acc @ [p]"] obtain ps s' where
    ps: "drain_loop pop (acc @ [p]) s1 = Some ((acc @ [p]) @ ps, s')" "length ps = n"
      "set ps = ran (m(k := None))" "rel s' {} Map.empty"
    unfolding n [symmetric] by blast
  have "p \<noteq> NULL" using 1(2) Suc(4) ranI by metis
  then have "drain_loop pop acc s = Some (acc @ p # ps, s')"
    using 1(3) ps(1) by (subst drain_loop.simps) simp
  then show ?case
    using ps sub Suc(2) by (intro exI [of _ "p # ps"] exI [of _ s']) simp
qed

end

subsection \<open>The hash table keeps the contract\<close>

definition hash_rel :: "hash_state \<Rightarrow> ptr set \<Rightarrow> (u32 \<rightharpoonup> ptr) \<Rightarrow> bool" where
  "hash_rel s A m \<longleftrightarrow> (\<exists>bs. hash_repr s bs \<and> A = set (concat bs) \<and> m = hash_map s bs)"

definition hash_stuck :: "hash_state \<Rightarrow> bool" where
  "hash_stuck s = ht_locked (snd s)"

lemma members_after_link:
  assumes "i < length bs"
  shows "set (concat (bs[i := a # bs ! i])) = insert a (set (concat bs))"
proof -
  have "set (concat (take i bs @ (a # bs ! i) # drop (Suc i) bs)) =
      insert a (set (concat (take i bs @ bs ! i # drop (Suc i) bs)))"
    by auto
  then show ?thesis
    unfolding upd_conv_take_nth_drop [OF assms] id_take_nth_drop [OF assms, symmetric] .
qed

lemma hash_map_member:
  assumes "hash_repr s bs"
  shows "hash_map s bs = Map.empty \<longleftrightarrow> set (concat bs) = {}"
proof -
  obtain hp t where s: "s = (hp, t)" by fastforce
  have n: "0 < ht_n t" "length bs = ht_n t" using assms by (auto simp: s hash_repr_def)
  show ?thesis
  proof
    assume e: "hash_map s bs = Map.empty"
    show "set (concat bs) = {}"
    proof (rule ccontr)
      assume "set (concat bs) \<noteq> {}"
      then obtain a where "a \<in> set (concat bs)" unfolding ex_in_conv [symmetric] by (elim exE)
      then obtain j where "j < ht_n t" "a \<in> set (bs ! j)"
        unfolding in_concat_nth n(2) by blast
      then have "bucket_index t (he_key (hp a)) = j" "he_key (hp a) \<in> set (bucket_keys hp (bs ! j))"
        using assms by (auto simp: s hash_repr_def bucket_keys_def)
      then have "hash_map s bs (he_key (hp a)) \<noteq> None"
        by (simp add: s hash_map_def bucket_map_None)
      with e show False by simp
    qed
  next
    assume "set (concat bs) = {}"
    then have "bs ! j = []" if "j < ht_n t" for j
      using that n(2) concat_Nil_nth [of bs] by simp
    then have "hash_map s bs k = None" for k
      using bucket_index_less [OF n(1)] by (simp add: s hash_map_def bucket_map_def)
    then show "hash_map s bs = Map.empty" by blast
  qed
qed

lemma hash_map_of_member:
  assumes "hash_repr s bs" "c \<in> set (concat bs)"
  shows "hash_map s bs (he_key (fst s c)) = Some (he_ptr (fst s c))"
proof -
  obtain hp t where s: "s = (hp, t)" by fastforce
  obtain j where j: "j < length bs" "c \<in> set (bs ! j)" using assms(2) unfolding in_concat_nth by blast
  then have i: "bucket_index t (he_key (hp c)) = j" "distinct (bucket_keys hp (bs ! j))"
    using assms(1) by (auto simp: s hash_repr_def)
  obtain xs ys where xs: "bs ! j = xs @ c # ys" using j(2) by (meson split_list)
  with i(2) have "he_key (hp c) \<notin> set (bucket_keys hp xs)" by auto
  then show ?thesis using bucket_map_middle xs i(1) by (simp add: s hash_map_def)
qed

lemma hash_init_rel:
  "0 < n \<Longrightarrow> hash_rel (hp, snd (hash_init True t n)) {} Map.empty"
  unfolding hash_rel_def
  by (intro exI [of _ "replicate n []"])
    (auto simp: hash_repr_def hash_init_def hash_map_def bucket_map_def fun_eq_iff bucket_index_def)

interpretation cmds: keyed_table hash_rel hash_stuck hash_put hash_get hash_remove hash_remove_head
proof
  fix s A m k a p
  assume "hash_rel s A m" "m k = None" "a \<notin> A" "a \<noteq> NULL"
  then obtain bs where bs: "hash_repr s bs" "A = set (concat bs)" "m = hash_map s bs"
    by (auto simp: hash_rel_def)
  have i: "bucket_index (snd s) k < length bs"
    using bs(1) bucket_index_less by (auto simp: hash_repr_def split: prod.splits)
  show "\<exists>s'. hash_put s a p k = Some (0, s') \<and> hash_rel s' (insert a A) (m(k \<mapsto> p))"
    using hash_put_fresh [OF bs(1) _ _ \<open>a \<noteq> NULL\<close> refl, of k p] \<open>m k = None\<close> \<open>a \<notin> A\<close>
      members_after_link [OF i, of a]
    unfolding hash_rel_def bs(2,3) by metis
next
  fix s A m k a p
  assume "hash_rel s A m" "m k \<noteq> None" "a \<notin> A" "a \<noteq> NULL"
  then show "\<exists>s'. hash_put s a p k = Some (-1, s') \<and> hash_stuck s'"
    unfolding hash_rel_def hash_stuck_def using hash_put_duplicate by blast
next
  fix s A m k
  assume "hash_rel s A m"
  then show "hash_get s k = Some (case m k of None \<Rightarrow> NULL | Some p \<Rightarrow> p, s)"
    unfolding hash_rel_def using hash_get_repr by blast
next
  fix s A m k p
  assume "hash_rel s A m" "m k = Some p"
  then obtain bs where bs: "hash_repr s bs" "A = set (concat bs)" "m = hash_map s bs"
    by (auto simp: hash_rel_def)
  have i: "bucket_index (snd s) k < length bs" "bucket_index (snd s) k < ht_n (snd s)"
    using bs(1) bucket_index_less by (auto simp: hash_repr_def split: prod.splits)
  obtain xs c ys s' where r: "bs ! bucket_index (snd s) k = xs @ c # ys"
    "hash_remove s k = Some (p, s')" "hash_repr s' (bs[bucket_index (snd s) k := xs @ ys])"
    "hash_map s' (bs[bucket_index (snd s) k := xs @ ys]) = (hash_map s bs)(k := None)"
    using hash_remove_present [OF bs(1), of k p] \<open>m k = Some p\<close> bs(3) by blast
  have mem: "set (concat (bs[bucket_index (snd s) k := xs @ ys])) = set (concat bs) - {c}"
    using members_after_unlink [of "fst s" "snd s"] bs(1) i(2) r(1) by simp
  have "c \<in> A" unfolding bs(2) in_concat_nth using i(1) r(1) by force
  then show "\<exists>a\<in>A. \<exists>s'. hash_remove s k = Some (p, s') \<and> hash_rel s' (A - {a}) (m(k := None))"
    using r mem bs unfolding hash_rel_def by metis
next
  fix s A m k
  assume "hash_rel s A m" "m k = None"
  then show "hash_remove s k = Some (NULL, s)"
    unfolding hash_rel_def using hash_remove_absent(1) by blast
next
  fix s A m
  assume "hash_rel s A m" "A \<noteq> {}"
  then obtain bs where bs: "hash_repr s bs" "A = set (concat bs)" "m = hash_map s bs"
    by (auto simp: hash_rel_def)
  then have "concat bs \<noteq> []" using \<open>A \<noteq> {}\<close> by (metis set_empty)
  then obtain i c ys s' where r: "bs ! i = c # ys" "i < length bs"
    "hash_remove_head s = Some (he_ptr (fst s c), s')" "hash_repr s' (bs[i := ys])"
    "hash_map s' (bs[i := ys]) = (hash_map s bs)(he_key (fst s c) := None)"
    "set (concat (bs[i := ys])) = set (concat bs) - {c}"
    using hash_remove_head_repr(2) [OF bs(1)] by blast
  have "c \<in> A" unfolding bs(2) in_concat_nth using r(1,2) by force
  moreover have "m (he_key (fst s c)) = Some (he_ptr (fst s c))"
    using hash_map_of_member [OF bs(1)] calculation bs(2,3) by simp
  ultimately show "\<exists>a\<in>A. \<exists>k p s'. m k = Some p \<and> hash_remove_head s = Some (p, s') \<and>
      hash_rel s' (A - {a}) (m(k := None))"
    using r bs unfolding hash_rel_def by metis
next
  fix s m
  assume "hash_rel s {} m"
  then show "hash_remove_head s = Some (NULL, s)"
    unfolding hash_rel_def using hash_remove_head_repr(1) by (metis set_empty)
next
  fix s A m
  assume "hash_rel s A m"
  then show "finite A" by (auto simp: hash_rel_def)
next
  fix s A m
  assume "hash_rel s A m"
  then show "m = Map.empty \<longleftrightarrow> A = {}" unfolding hash_rel_def by (metis hash_map_member)
next
  fix s :: hash_state and a p k
  assume "hash_stuck s"
  then show "hash_put s a p k = None"
    by (cases s) (simp add: hash_stuck_def hash_put_def locked_blocks(1))
qed (auto simp: hash_stuck_def locked_blocks)

subsection \<open>Properties of the table\<close>

text \<open>Inserting a command under a fresh tag makes \<^verbatim>\<open>hash_get\<close> answer it under that tag, leaves the
  answer under every other tag unchanged, and keeps the table well formed.\<close>

theorem hash_insert_then_get:
  assumes "hash_rel s A m" "m k = None" "a \<notin> A" "a \<noteq> NULL"
  shows "\<exists>s'. hash_put s a p k = Some (0, s') \<and> hash_rel s' (insert a A) (m(k \<mapsto> p)) \<and>
    hash_get s' k = Some (p, s') \<and>
    (\<forall>k'. k' \<noteq> k \<longrightarrow> map_option fst (hash_get s' k') = map_option fst (hash_get s k'))"
  using assms by (rule cmds.put_get)

definition empty_table :: hash_state where
  "empty_table = (\<lambda>_. \<lparr>he_next = 0, he_key = 0, he_ptr = 0\<rparr>,
     \<lparr>ht_bucket = replicate 4 NULL, ht_collisions = 0, ht_insertions = 0, ht_n = 4, ht_locked = False\<rparr>)"

lemma empty_table_rel: "hash_rel empty_table {} Map.empty"
proof -
  have "empty_table = (fst empty_table, snd (hash_init True (snd empty_table) 4))"
    by (simp add: empty_table_def hash_init_def)
  then show ?thesis using hash_init_rel [of 4 "fst empty_table" "snd empty_table"] by simp
qed

theorem hash_insert_then_get_witness:
  "\<exists>s'. hash_put empty_table 100 90 7 = Some (0, s') \<and> hash_get s' 7 = Some (90, s')"
  using hash_insert_then_get [OF empty_table_rel, where k = 7 and a = 100 and p = 90] by (auto simp: NULL_def)

text \<open>Removing a tag right after it was inserted returns the inserted command and gives back a
  table that stands for the map before the insertion, wherever in its bucket the element sits.\<close>

theorem hash_insert_then_remove:
  assumes "hash_rel s A m" "m k = None" "a \<notin> A" "a \<noteq> NULL"
  shows "\<exists>s' s'' B. hash_put s a p k = Some (0, s') \<and> hash_remove s' k = Some (p, s'') \<and>
    hash_rel s'' B m"
  using assms by (rule cmds.put_del)

theorem hash_insert_then_remove_witness:
  "\<exists>s' s''. hash_put empty_table 100 90 7 = Some (0, s') \<and> hash_remove s' 7 = Some (90, s'')"
  using hash_insert_then_remove [OF empty_table_rel, where k = 7 and a = 100 and p = 90] by (auto simp: NULL_def)

text \<open>C28. Removing a present tag from a table answers the object and takes out only this tag.\<close>

theorem hash_remove_updates_map:
  assumes "hash_rel s A m" "m k = Some p"
  shows "\<exists>a\<in>A. \<exists>s'. hash_remove s k = Some (p, s') \<and> hash_rel s' (A - {a}) (m(k := None))"
  using assms by (rule cmds.del_some)

definition one_entry_table :: hash_state where
  "one_entry_table = ((\<lambda>_. \<lparr>he_next = 0, he_key = 0, he_ptr = 0\<rparr>)(100 := \<lparr>he_next = 0, he_key = 7, he_ptr = 90\<rparr>),
     \<lparr>ht_bucket = [0, 0, 0, 100], ht_collisions = 0, ht_insertions = 1, ht_n = 4, ht_locked = False\<rparr>)"

lemma one_entry_repr: "hash_repr one_entry_table [[], [], [], [100]]"
proof -
  have "(\<forall>i<4. P i) \<longleftrightarrow> P 0 \<and> P 1 \<and> P 2 \<and> P 3" for P :: "nat \<Rightarrow> bool"
  proof -
    have "i < 4 \<longleftrightarrow> i = 0 \<or> i = 1 \<or> i = 2 \<or> i = 3" for i :: nat by arith
    then show ?thesis by auto
  qed
  then show ?thesis
    by (simp add: hash_repr_def one_entry_table_def bucket_index_def NULL_def)
qed

lemma one_entry_rel: "hash_rel one_entry_table {100} [7 \<mapsto> 90]"
proof -
  have "hash_map one_entry_table [[], [], [], [100]] k = [7 \<mapsto> 90] k" for k
  proof (cases "bucket_index (snd one_entry_table) k = 3")
    case True
    then show ?thesis by (simp add: hash_map_def one_entry_table_def bucket_map_def)
  next
    case False
    then have "k \<noteq> 7" by (auto simp: bucket_index_def one_entry_table_def)
    moreover have "bucket_index (snd one_entry_table) k < 4"
      by (simp add: bucket_index_def one_entry_table_def)
    then have "bucket_index (snd one_entry_table) k \<in> {0, 1, 2}" using False by auto
    ultimately show ?thesis
      by (auto simp: hash_map_def one_entry_table_def bucket_map_def)
  qed
  then show ?thesis
    unfolding hash_rel_def using one_entry_repr
    by (intro exI [of _ "[[], [], [], [100]]"]) auto
qed

theorem hash_remove_updates_map_witness:
  "\<exists>s'. hash_remove one_entry_table 7 = Some (90, s') \<and> hash_rel s' {} Map.empty"
proof -
  have "[7 \<mapsto> 90](7 := None) = (Map.empty :: u32 \<rightharpoonup> ptr)" by auto
  then show ?thesis using hash_remove_updates_map [OF one_entry_rel, of 7 90] by auto
qed

text \<open>The loop that empties a session's table with \<^verbatim>\<open>hash_remove_head\<close> ends, hands out every command
  exactly once, and leaves the table empty.\<close>

theorem hash_drain_ends:
  assumes "hash_rel s A m" "NULL \<notin> ran m"
  shows "\<exists>ps s'. drain_loop hash_remove_head acc s = Some (acc @ ps, s') \<and> length ps = card A \<and>
    set ps = ran m \<and> hash_rel s' {} Map.empty"
  using assms by (rule cmds.drain_ends)

theorem hash_drain_ends_witness:
  "\<exists>s'. drain_loop hash_remove_head [] one_entry_table = Some ([90], s') \<and> hash_rel s' {} Map.empty"
proof -
  obtain ps s' where d: "drain_loop hash_remove_head [] one_entry_table = Some ([] @ ps, s')"
    "length ps = card {100 :: ptr}" "set ps = ran [7 :: u32 \<mapsto> 90]" "hash_rel s' {} Map.empty"
    using hash_drain_ends [OF one_entry_rel, where acc = "[]"] by (auto simp: NULL_def)
  then have "length ps = 1" "set ps = {90}" by simp_all
  then have "ps = [90]" by (cases ps) auto
  with d(1,4) show ?thesis by auto
qed

text \<open>Inserting a tag that is already present returns the error code with the lock of the table
  still held: every later operation on the table blocks for ever.\<close>

theorem hash_duplicate_insert_blocks:
  assumes "hash_rel s A m" "m k \<noteq> None" "a \<notin> A" "a \<noteq> NULL"
  shows "\<exists>s'. hash_put s a p k = Some (-1, s') \<and> hash_get s' k' = None \<and> hash_remove s' k' = None \<and>
    hash_put s' b p' k' = None"
  using assms by (rule cmds.put_twice_blocks)

theorem hash_duplicate_insert_blocks_witness:
  "\<exists>s'. hash_put one_entry_table 200 90 7 = Some (-1, s') \<and> hash_get s' 8 = None"
proof -
  obtain s' where "hash_put one_entry_table 200 90 7 = Some (-1, s') \<and> hash_get s' 8 = None \<and>
      hash_remove s' 8 = None \<and> hash_put s' 1 1 8 = None"
    using hash_duplicate_insert_blocks [OF one_entry_rel, where k = 7 and a = 200 and p = 90 and k' = 8
        and b = 1 and p' = 1]
    by (auto simp: NULL_def)
  then show ?thesis by blast
qed

text \<open>\<^verbatim>\<open>hash_count\<close> counts the linked elements and leaves the table as it is.\<close>

theorem hash_count_members:
  assumes "hash_repr s bs"
  shows "hash_count s = Some (int (length (concat bs)), s)"
  using assms by (rule hash_count_repr)

theorem hash_count_members_witness: "hash_count empty_table = Some (0, empty_table)"
proof -
  have "hash_repr empty_table (replicate 4 [])" by (simp add: hash_repr_def empty_table_def bucket_keys_def)
  from hash_count_members [OF this] show ?thesis by simp
qed

end
