(* ===== verification/Socket.thy ===== *)
theory Socket
  imports Ring_Queue
begin

section \<open>Scatter/gather transfers of \<^verbatim>\<open>util.c\<close>\<close>

text \<open>
  \<^verbatim>\<open>iscsi_sock_msg\<close> moves a message through a socket with \<^verbatim>\<open>readv\<close>/\<^verbatim>\<open>writev\<close>.  A call may move only a
  part of the message; \<^verbatim>\<open>modify_iov\<close> then rewrites the vector so that it describes the rest.  An
  \<^verbatim>\<open>iovec\<close> array is a list that is updated in place; the pointer into it is an index.  What a
  transfer moves is recorded as the list of memory addresses, in the order of the bytes on the
  wire.  The results of the system calls are an input: a list of return codes, whose end stands
  for a closed connection.  Lengths are below \<open>2 ^ 31\<close>, as the C code's \<^verbatim>\<open>int\<close> needs.
\<close>

subsection \<open>I/O vectors\<close>

record iovec =
  iov_base :: nat
  iov_len :: nat

definition iov_addrs :: "iovec \<Rightarrow> nat list" where
  "iov_addrs v = [iov_base v..<iov_base v + iov_len v]"

definition iovs_addrs :: "iovec list \<Rightarrow> nat list" where
  "iovs_addrs vs = concat (map iov_addrs vs)"

definition iovs_len :: "iovec list \<Rightarrow> nat" where
  "iovs_len vs = sum_list (map iov_len vs)"

text \<open>
  The first loop of \<^verbatim>\<open>modify_iov\<close>: \<open>Some (i, disp)\<close> if entry \<open>i\<close> contains the byte at \<open>offset\<close>, at
  distance \<open>disp\<close> from its start.
\<close>

fun find_offset :: "iovec list \<Rightarrow> nat \<Rightarrow> nat \<Rightarrow> nat \<Rightarrow> nat \<Rightarrow> (nat \<times> nat) option" where
  "find_offset [] i len disp offset = None"
| "find_offset (v # vs) i len disp offset =
    (let len = len + iov_len v
     in if offset < len then Some (i, disp)
        else find_offset vs (i + 1) len (disp - iov_len v) offset)"

text \<open>The second loop: the entry in which the first \<open>length\<close> bytes end, and the bytes up to its end.\<close>

fun find_end :: "iovec list \<Rightarrow> nat \<Rightarrow> nat \<Rightarrow> nat \<Rightarrow> (nat \<times> nat) option" where
  "find_end [] i len want = None"
| "find_end (v # vs) i len want =
    (let len = len + iov_len v
     in if want \<le> len then Some (i, len) else find_end vs (i + 1) len want)"

text \<open>
  \<open>arr\<close> is the array, \<open>p\<close> the index \<^verbatim>\<open>*iov_ptr\<close> points to and \<open>n\<close> is \<^verbatim>\<open>*iov_len\<close>; the result has
  the return code and the three new values.
\<close>

definition modify_iov ::
  "iovec list \<Rightarrow> nat \<Rightarrow> nat \<Rightarrow> nat \<Rightarrow> nat \<Rightarrow> int \<times> iovec list \<times> nat \<times> nat" where
  "modify_iov arr p n offset want =
    (case find_offset (take n (drop p arr)) 0 0 offset offset of
       None \<Rightarrow> (-1, arr, p, n)
     | Some (i, disp) \<Rightarrow>
         let v = arr ! (p + i);
             v = v\<lparr>iov_len := iov_len v - disp\<rparr>;
             v = v\<lparr>iov_base := iov_base v + disp\<rparr>;
             arr = arr[p + i := v];
             n = n - i;
             p = p + i
         in case find_end (take n (drop p arr)) 0 0 want of
              None \<Rightarrow> (-1, arr, p, n)
            | Some (i, len) \<Rightarrow>
                let v = arr ! (p + i);
                    arr = arr[p + i := v\<lparr>iov_len := iov_len v - (len - want)\<rparr>]
                in (0, arr, p, i + 1))"

subsection \<open>Messages\<close>

definition ISCSI_SOCK_MSG_BYTE_ALIGN :: nat where
  "ISCSI_SOCK_MSG_BYTE_ALIGN = 4"

definition ISCSI_SOCK_HACK_CROSSOVER :: nat where
  "ISCSI_SOCK_HACK_CROSSOVER = 0"

text \<open>
  The loop of \<^verbatim>\<open>iscsi_sock_msg\<close>.  \<open>rcs\<close> are the results of the system calls still to come, \<open>moved\<close>
  the addresses moved so far.  The result tells whether the loop was left by \<^verbatim>\<open>break\<close> or its condition
  (and not by a \<^verbatim>\<open>return -1\<close> of its checks), and has the number of bytes moved, their addresses,
  and the array with its pointer and length.
\<close>

fun sock_loop ::
  "int list \<Rightarrow> nat \<Rightarrow> iovec list \<Rightarrow> nat \<Rightarrow> nat \<Rightarrow> nat \<Rightarrow> nat list \<Rightarrow>
   bool \<times> nat \<times> nat list \<times> iovec list \<times> nat \<times> nat" where
  "sock_loop rcs len arr p cnt n moved =
    (let vs = take cnt (drop p arr)
     in if \<exists>v\<in>set vs. iov_base v = NULL then (False, n, moved, arr, p, cnt)
        else if iovs_len vs \<noteq> len - n then (False, n, moved, arr, p, cnt)
        else case rcs of
          [] \<Rightarrow> (True, n, moved, arr, p, cnt)
        | rc # rcs \<Rightarrow>
            if rc \<le> 0 then (True, n, moved, arr, p, cnt)
            else
              let moved = moved @ take (nat rc) (iovs_addrs vs);
                  n = n + nat rc
              in if n < len then
                   case modify_iov arr p cnt (nat rc) (len - n) of
                     (r, arr, p, cnt) \<Rightarrow>
                       if r \<noteq> 0 then (True, n, moved, arr, p, cnt)
                       else sock_loop rcs len arr p cnt n moved
                 else (True, n, moved, arr, p, cnt))"

text \<open>
  \<^verbatim>\<open>memcpy(iov, iov_orig, iov_len*sizeof(struct iovec))\<close>, meant to restore the caller's vector: it
  writes through the pointer and the length that the loop has advanced.
\<close>

fun overwrite :: "iovec list \<Rightarrow> nat \<Rightarrow> iovec list \<Rightarrow> iovec list" where
  "overwrite arr p [] = arr"
| "overwrite arr p (v # vs) = overwrite (arr[p := v]) (p + 1) vs"

text \<open>
  \<^verbatim>\<open>iscsi_sock_msg(sock, send, len, data, iov_len)\<close>.  \<open>Inl base\<close> is a plain buffer
  (\<^verbatim>\<open>iov_len = 0\<close>), \<open>Inr vs\<close> an array of vectors; \<open>pad\<close> is the address of the padding bytes on the
  stack.  The result is the return code, the addresses moved, and the caller's array afterwards
  (with padding, the loop works on a copy).
\<close>

type_synonym buffer = "nat + iovec list"

definition buffer_iovs :: "buffer \<Rightarrow> nat \<Rightarrow> iovec list" where
  "buffer_iovs data len = (case data of Inl b \<Rightarrow> [\<lparr>iov_base = b, iov_len = len\<rparr>] | Inr vs \<Rightarrow> vs)"

definition padding_for :: "nat \<Rightarrow> nat" where
  "padding_for len =
    (let remainder = len mod ISCSI_SOCK_MSG_BYTE_ALIGN
     in if remainder = 0 then 0 else ISCSI_SOCK_MSG_BYTE_ALIGN - remainder)"

definition iscsi_sock_msg :: "int list \<Rightarrow> nat \<Rightarrow> nat \<Rightarrow> buffer \<Rightarrow> int \<times> nat list \<times> iovec list" where
  "iscsi_sock_msg rcs pad len data =
    (let vs = buffer_iovs data len;
         padding_len = padding_for len;
         iov = (if padding_len = 0 then vs else vs @ [\<lparr>iov_base = pad, iov_len = padding_len\<rparr>]);
         after = (\<lambda>arr. if padding_len = 0 then arr else vs)
     in case sock_loop rcs (len + padding_len) iov 0 (length iov) 0 [] of
          (ok, n, moved, arr, p, cnt) \<Rightarrow>
            if ok then (int n - int padding_len, moved, after (overwrite arr p (take cnt iov)))
            else (-1, moved, after arr))"

text \<open>
  Header and data go out as one message if the data is short, otherwise as two; each call of
  \<^verbatim>\<open>iscsi_sock_msg\<close> has its own list of results.
\<close>

definition iscsi_sock_send_header_and_data ::
  "int list \<Rightarrow> int list \<Rightarrow> nat \<Rightarrow> nat \<Rightarrow> nat \<Rightarrow> buffer \<Rightarrow> nat \<Rightarrow> int \<times> nat list" where
  "iscsi_sock_send_header_and_data rcs rcs' pad header header_len data data_len =
    (if data_len \<noteq> 0 \<and> data_len \<le> ISCSI_SOCK_HACK_CROSSOVER then
       let iov = \<lparr>iov_base = header, iov_len = header_len\<rparr> # buffer_iovs data data_len
       in case iscsi_sock_msg rcs pad (header_len + data_len) (Inr iov) of
            (rc, moved, _) \<Rightarrow>
              if rc \<noteq> int (header_len + data_len) then (-1, moved)
              else (int (header_len + data_len), moved)
     else
       case iscsi_sock_msg rcs pad header_len (Inl header) of
         (rc, moved, _) \<Rightarrow>
           if rc \<noteq> int header_len then (-1, moved)
           else if data_len \<noteq> 0 then
             case iscsi_sock_msg rcs' pad data_len data of
               (rc, moved', _) \<Rightarrow>
                 if rc \<noteq> int data_len then (-1, moved @ moved')
                 else (int (header_len + data_len), moved @ moved')
           else (int (header_len + data_len), moved))"

subsection \<open>Addresses of a vector\<close>

lemma length_iov_addrs [simp]: "length (iov_addrs v) = iov_len v"
  by (simp add: iov_addrs_def)

lemma iovs_simps [simp]:
  "iovs_addrs [] = []" "iovs_addrs (v # vs) = iov_addrs v @ iovs_addrs vs"
  "iovs_addrs (vs @ ws) = iovs_addrs vs @ iovs_addrs ws"
  "iovs_len [] = 0" "iovs_len (v # vs) = iov_len v + iovs_len vs"
  "iovs_len (vs @ ws) = iovs_len vs + iovs_len ws"
  by (simp_all add: iovs_addrs_def iovs_len_def)

lemma length_iovs_addrs [simp]: "length (iovs_addrs vs) = iovs_len vs"
  by (induction vs) simp_all

lemma iov_addrs_advance:
  "d \<le> iov_len v \<Longrightarrow> iov_addrs (v\<lparr>iov_len := iov_len v - d, iov_base := iov_base v + d\<rparr>) = drop d (iov_addrs v)"
  by (simp add: iov_addrs_def drop_upt)

lemma iov_addrs_shorten:
  "iov_addrs (v\<lparr>iov_len := iov_len v - d\<rparr>) = take (iov_len v - d) (iov_addrs v)"
  by (simp add: iov_addrs_def)

lemma find_offset_Some:
  "find_offset vs i len disp offset = Some (i', d) \<Longrightarrow> len + disp = offset \<Longrightarrow>
   \<exists>pre v post. vs = pre @ v # post \<and> i' = i + length pre \<and> offset = len + iovs_len pre + d \<and> d < iov_len v"
proof (induction vs i len disp offset rule: find_offset.induct)
  case (2 v vs i len disp offset)
  show ?case
  proof (cases "offset < len + iov_len v")
    case True
    then show ?thesis
      using 2(2,3) by (intro exI [of _ "[]"] exI [of _ v] exI [of _ vs]) (auto simp: Let_def)
  next
    case False
    then have "find_offset vs (i + 1) (len + iov_len v) (disp - iov_len v) offset = Some (i', d)"
      "len + iov_len v + (disp - iov_len v) = offset"
      using 2(2,3) by (auto simp: Let_def)
    with 2(1) [OF refl False] obtain pre w post where
      "vs = pre @ w # post" "i' = i + 1 + length pre" "offset = len + iov_len v + iovs_len pre + d" "d < iov_len w"
      by blast
    then show ?thesis
      by (intro exI [of _ "v # pre"] exI [of _ w] exI [of _ post]) simp
  qed
qed simp

lemma find_offset_None:
  "len \<le> offset \<Longrightarrow> find_offset vs i len disp offset = None \<longleftrightarrow> len + iovs_len vs \<le> offset"
  by (induction vs i len disp offset rule: find_offset.induct) (auto simp: Let_def not_less add.assoc)

lemma find_end_Some:
  "find_end vs i len want = Some (i', l) \<Longrightarrow>
   \<exists>pre v post. vs = pre @ v # post \<and> i' = i + length pre \<and> l = len + iovs_len pre + iov_len v \<and>
     want \<le> l \<and> (pre = [] \<or> len + iovs_len pre < want)"
proof (induction vs i len want rule: find_end.induct)
  case (2 v vs i len want)
  show ?case
  proof (cases "want \<le> len + iov_len v")
    case True
    then show ?thesis
      using 2(2) by (intro exI [of _ "[]"] exI [of _ v] exI [of _ vs]) (auto simp: Let_def)
  next
    case False
    then have "find_end vs (i + 1) (len + iov_len v) want = Some (i', l)"
      using 2(2) by (auto simp: Let_def)
    with 2(1) [OF refl False] obtain pre w post where
      "vs = pre @ w # post" "i' = i + 1 + length pre" "l = len + iov_len v + iovs_len pre + iov_len w"
      "want \<le> l" "pre = [] \<or> len + iov_len v + iovs_len pre < want"
      by blast
    then show ?thesis
      using False by (intro exI [of _ "v # pre"] exI [of _ w] exI [of _ post]) auto
  qed
qed simp

lemma find_end_None:
  "find_end vs i len want = None \<longleftrightarrow> vs = [] \<or> len + iovs_len vs < want"
  by (induction vs i len want rule: find_end.induct) (auto simp: Let_def not_le add.assoc)

subsection \<open>\<^verbatim>\<open>modify_iov\<close> selects a sub-range\<close>

lemma view_advance:
  assumes "take n (drop p arr) = pre @ v # post"
  shows "take (n - length pre) (drop (p + length pre) (arr[p + length pre := v'])) = v' # post"
proof -
  have "drop (length pre) (take n (drop p arr)) = v # post" using assms by simp
  then have "take (n - length pre) (drop (p + length pre) arr) = v # post"
    by (simp add: drop_take add.commute)
  then show ?thesis by (simp add: drop_update_swap take_update_swap)
qed

lemma view_nth:
  assumes "take n (drop p arr) = pre @ v # post"
  shows "arr ! (p + length pre) = v" "p + length pre < length arr" "length pre < n"
proof -
  have l: "length (take n (drop p arr)) = length pre + Suc (length post)" using assms by simp
  then show "p + length pre < length arr" "length pre < n" by auto
  have "take n (drop p arr) ! length pre = v" using assms by simp
  then show "arr ! (p + length pre) = v" using l by simp
qed

lemma view_shorten:
  assumes "take n (drop p arr) = pre @ v # post"
  shows "take (length pre + 1) (drop p (arr[p + length pre := v'])) = pre @ [v']"
proof -
  have "take (length pre + 1) (take n (drop p arr)) = pre @ [v]" using assms by simp
  moreover have "length pre < n" using view_nth(3) [OF assms] .
  ultimately have "take (length pre + 1) (drop p arr) = pre @ [v]" by (simp add: min_def split: if_splits)
  then show ?thesis by (simp add: drop_update_swap take_update_swap)
qed

lemma modify_iov_view:
  assumes "offset < iovs_len (take n (drop p arr))" "offset + want \<le> iovs_len (take n (drop p arr))"
  shows "\<exists>arr' p' n'. modify_iov arr p n offset want = (0, arr', p', n') \<and>
    iovs_addrs (take n' (drop p' arr')) = take want (drop offset (iovs_addrs (take n (drop p arr)))) \<and>
    length arr' = length arr \<and> (NULL \<notin> iov_base ` set (take n (drop p arr)) \<longrightarrow>
      NULL \<notin> iov_base ` set (take n' (drop p' arr')))"
proof -
  let ?vs = "take n (drop p arr)"
  obtain i d where f: "find_offset ?vs 0 0 offset offset = Some (i, d)"
    using find_offset_None [of 0 offset ?vs 0 offset] assms(1)
    by (cases "find_offset ?vs 0 0 offset offset") auto
  then obtain pre v post where v: "?vs = pre @ v # post" "i = length pre" "offset = iovs_len pre + d"
      "d < iov_len v"
    using find_offset_Some [OF f] by auto
  define v' where "v' = v\<lparr>iov_len := iov_len v - d, iov_base := iov_base v + d\<rparr>"
  define arr1 where "arr1 = arr[p + i := v']"
  have nth: "arr ! (p + i) = v" using view_nth [OF v(1)] v(2) by simp
  have view1: "take (n - i) (drop (p + i) arr1) = v' # post"
    using view_advance [OF v(1), of v'] by (simp add: arr1_def v(2))
  have addrs1: "iovs_addrs (v' # post) = drop offset (iovs_addrs ?vs)"
    using v(3,4) iov_addrs_advance [of d v] by (simp add: v(1) v'_def)
  have len1: "iovs_len (v' # post) = iovs_len ?vs - offset"
    using addrs1 by (metis length_drop length_iovs_addrs)
  obtain j l where e: "find_end (v' # post) 0 0 want = Some (j, l)"
    using find_end_None [of "v' # post" 0 0 want] assms(2) len1
    by (cases "find_end (v' # post) 0 0 want") auto
  then obtain pre2 w post2 where w: "v' # post = pre2 @ w # post2" "j = length pre2"
      "l = iovs_len pre2 + iov_len w" "want \<le> l" "pre2 = [] \<or> iovs_len pre2 < want"
    using find_end_Some [OF e] by auto
  define w' where "w' = w\<lparr>iov_len := iov_len w - (l - want)\<rparr>"
  have view1': "take (n - i) (drop (p + i) arr1) = pre2 @ w # post2" using view1 w(1) by simp
  have nth1: "arr1 ! (p + i + j) = w" using view_nth [OF view1'] w(2) by simp
  have view2: "take (j + 1) (drop (p + i) (arr1[p + i + j := w'])) = pre2 @ [w']"
    using view_shorten [OF view1', of w'] by (simp add: w(2))
  have step1: "arr[p + i := (arr ! (p + i))\<lparr>iov_len := iov_len (arr ! (p + i)) - d,
      iov_base := iov_base (arr ! (p + i)) + d\<rparr>] = arr1"
    by (simp add: nth arr1_def v'_def)
  have "modify_iov arr p n offset want = (0, arr1[p + i + j := w'], p + i, j + 1)"
    using f e view1 nth nth1 step1 by (simp add: modify_iov_def Let_def w'_def)
  moreover have "iovs_addrs (pre2 @ [w']) = take want (drop offset (iovs_addrs ?vs))"
  proof -
    have "iov_addrs w' = take (want - iovs_len pre2) (iov_addrs w)"
      using w(3,4,5) iov_addrs_shorten [of w "l - want"] by (auto simp: w'_def)
    then show ?thesis
      using w(3,4,5) addrs1 [symmetric] by (auto simp: w(1))
  qed
  moreover have "NULL \<notin> iov_base ` set ?vs \<longrightarrow> NULL \<notin> iov_base ` set (pre2 @ [w'])"
  proof
    assume nn: "NULL \<notin> iov_base ` set ?vs"
    have "iov_base v' \<noteq> NULL" using nn v(1) by (auto simp: v'_def NULL_def)
    then have "NULL \<notin> iov_base ` set (v' # post)" using nn v(1) by auto
    then have "NULL \<notin> iov_base ` set (pre2 @ [w])" using w(1) by auto
    then show "NULL \<notin> iov_base ` set (pre2 @ [w'])" by (auto simp: w'_def)
  qed
  ultimately show ?thesis using view2 by (auto simp: arr1_def)
qed

lemma modify_iov_fails:
  assumes "iovs_len (take n (drop p arr)) \<le> offset \<or> iovs_len (take n (drop p arr)) < offset + want"
  shows "fst (modify_iov arr p n offset want) = -1"
proof (cases "find_offset (take n (drop p arr)) 0 0 offset offset")
  case None
  then show ?thesis by (simp add: modify_iov_def)
next
  case (Some r)
  obtain i d where r: "r = (i, d)" by fastforce
  let ?vs = "take n (drop p arr)"
  obtain pre v post where v: "?vs = pre @ v # post" "i = length pre" "offset = iovs_len pre + d"
      "d < iov_len v"
    using find_offset_Some [OF Some [unfolded r]] by auto
  define v' where "v' = v\<lparr>iov_len := iov_len v - d, iov_base := iov_base v + d\<rparr>"
  have nth: "arr ! (p + i) = v" using view_nth [OF v(1)] v(2) by simp
  have view1: "take (n - i) (drop (p + i) (arr[p + i := v'])) = v' # post"
    using view_advance [OF v(1), of v'] by (simp add: v(2))
  have "iovs_len ?vs < offset + want"
    using assms find_offset_None [of 0 offset ?vs 0 offset] Some by auto
  then have "find_end (v' # post) 0 0 want = None"
    unfolding find_end_None using v by (simp add: v'_def)
  then show ?thesis
    using Some r nth view1 by (simp add: modify_iov_def Let_def v'_def)
qed

subsection \<open>What a message transfer moves\<close>

text \<open>
  A system call moves at most what the vector describes.  \<open>bytes_moved rcs left\<close> is how much the calls
  with the results \<open>rcs\<close> move before one fails or nothing is left.
\<close>

fun legal_results :: "int list \<Rightarrow> nat \<Rightarrow> bool" where
  "legal_results [] left \<longleftrightarrow> True"
| "legal_results (rc # rcs) left \<longleftrightarrow>
     rc \<le> int left \<and> (0 < rc \<longrightarrow> legal_results rcs (left - nat rc))"

fun bytes_moved :: "int list \<Rightarrow> nat \<Rightarrow> nat" where
  "bytes_moved [] left = 0"
| "bytes_moved (rc # rcs) left =
     (if rc \<le> 0 then 0
      else if nat rc < left then nat rc + bytes_moved rcs (left - nat rc) else left)"

lemma bytes_moved_le: "legal_results rcs left \<Longrightarrow> bytes_moved rcs left \<le> left"
proof (induction rcs left rule: bytes_moved.induct)
  case (2 rc rcs left)
  show ?case
  proof (cases "rc \<le> 0 \<or> \<not> nat rc < left")
    case False
    then have "bytes_moved rcs (left - nat rc) \<le> left - nat rc" using 2 by auto
    then show ?thesis using False by auto
  qed auto
qed simp

declare sock_loop.simps [simp del]

lemma sock_loop_moves:
  "length all = len \<Longrightarrow> n \<le> len \<Longrightarrow> legal_results rcs (len - n) \<Longrightarrow>
   iovs_addrs (take cnt (drop p arr)) = drop n all \<Longrightarrow> NULL \<notin> iov_base ` set (take cnt (drop p arr)) \<Longrightarrow>
   \<exists>arr' p' cnt' n'. n' = n + bytes_moved rcs (len - n) \<and>
     sock_loop rcs len arr p cnt n (take n all) = (True, n', take n' all, arr', p', cnt')"
proof (induction rcs arbitrary: arr p cnt n)
  case Nil
  have "iovs_len (take cnt (drop p arr)) = len - n"
    using Nil.prems by (metis length_drop length_iovs_addrs)
  moreover have "\<not> (\<exists>v\<in>set (take cnt (drop p arr)). iov_base v = NULL)"
    using Nil.prems(5) by (auto simp: image_iff)
  ultimately show ?case by (subst sock_loop.simps) simp
next
  case (Cons rc rcs)
  let ?vs = "take cnt (drop p arr)"
  have vl: "iovs_len ?vs = len - n" using Cons.prems by (metis length_drop length_iovs_addrs)
  have nn: "\<not> (\<exists>v\<in>set ?vs. iov_base v = NULL)" using Cons.prems(5) by (auto simp: image_iff)
  show ?case
  proof (cases "rc \<le> 0")
    case True
    then show ?thesis using vl nn by (subst sock_loop.simps) simp
  next
    case False
    define m where "m = n + nat rc"
    have legal: "nat rc \<le> len - n" "legal_results rcs (len - m)"
      using Cons.prems(3) False by (auto simp: m_def nat_le_iff)
    have moved: "take n all @ take (nat rc) (iovs_addrs ?vs) = take m all"
      using Cons.prems(4) by (simp add: m_def take_add)
    have mle: "m \<le> len" using legal(1) Cons.prems(2) by (simp add: m_def)
    show ?thesis
    proof (cases "m < len")
      case True
      have "nat rc < iovs_len ?vs" "nat rc + (len - m) \<le> iovs_len ?vs"
        using True vl legal(1) by (auto simp: m_def)
      from modify_iov_view [OF this] obtain arr' p' cnt' where
        mi: "modify_iov arr p cnt (nat rc) (len - m) = (0, arr', p', cnt')"
        "iovs_addrs (take cnt' (drop p' arr')) = take (len - m) (drop (nat rc) (iovs_addrs ?vs))"
        "NULL \<notin> iov_base ` set (take cnt' (drop p' arr'))"
        using Cons.prems(5) by blast
      have "take (len - m) (drop (nat rc) (iovs_addrs ?vs)) = drop m all"
        using Cons.prems(1,4) by (simp add: m_def add.commute)
      with mi(2) have rest: "iovs_addrs (take cnt' (drop p' arr')) = drop m all" by simp
      from Cons.IH [OF Cons.prems(1) mle legal(2) rest mi(3)] obtain arr'' p'' cnt'' n'' where
        ih: "n'' = m + bytes_moved rcs (len - m)"
        "sock_loop rcs len arr' p' cnt' m (take m all) = (True, n'', take n'' all, arr'', p'', cnt'')"
        by blast
      have "sock_loop (rc # rcs) len arr p cnt n (take n all) = sock_loop rcs len arr' p' cnt' m (take m all)"
        using vl nn False True moved mi(1)
        by (subst sock_loop.simps) (simp add: m_def [symmetric])
      moreover have "n'' = n + bytes_moved (rc # rcs) (len - n)"
        using ih(1) False True by (auto simp: m_def)
      ultimately show ?thesis using ih(2) by auto
    next
      case end_reached: False
      have "sock_loop (rc # rcs) len arr p cnt n (take n all) = (True, m, take m all, arr, p, cnt)"
        using vl nn False end_reached moved
        by (subst sock_loop.simps) (simp add: m_def [symmetric])
      moreover have "m = n + bytes_moved (rc # rcs) (len - n)"
        using end_reached False mle by (auto simp: m_def)
      ultimately show ?thesis by blast
    qed
  qed
qed

text \<open>The bytes of a message on the wire: the buffer, then the padding.\<close>

definition message_addrs :: "nat \<Rightarrow> nat \<Rightarrow> buffer \<Rightarrow> nat list" where
  "message_addrs pad len data = iovs_addrs (buffer_iovs data len) @ [pad..<pad + padding_for len]"

definition buffer_ok :: "buffer \<Rightarrow> nat \<Rightarrow> bool" where
  "buffer_ok data len \<longleftrightarrow>
     iovs_len (buffer_iovs data len) = len \<and> NULL \<notin> iov_base ` set (buffer_iovs data len)"

lemma length_message_addrs:
  "buffer_ok data len \<Longrightarrow> length (message_addrs pad len data) = len + padding_for len"
  by (simp add: message_addrs_def buffer_ok_def)

lemma sock_msg_moves:
  assumes ok: "buffer_ok data len" "pad \<noteq> NULL" and legal: "legal_results rcs (len + padding_for len)"
  shows "\<exists>arr. iscsi_sock_msg rcs pad len data =
    (int (bytes_moved rcs (len + padding_for len)) - int (padding_for len),
     take (bytes_moved rcs (len + padding_for len)) (message_addrs pad len data), arr)"
proof -
  let ?vs = "buffer_iovs data len" and ?t = "len + padding_for len"
  let ?iov = "if padding_for len = 0 then ?vs else ?vs @ [\<lparr>iov_base = pad, iov_len = padding_for len\<rparr>]"
  have addrs: "iovs_addrs ?iov = message_addrs pad len data"
    by (simp add: message_addrs_def iov_addrs_def)
  have nn: "NULL \<notin> iov_base ` set ?iov" using ok by (auto simp: buffer_ok_def)
  have "\<exists>arr' p' cnt' n'. n' = 0 + bytes_moved rcs (?t - 0) \<and>
     sock_loop rcs ?t ?iov 0 (length ?iov) 0 (take 0 (message_addrs pad len data)) =
       (True, n', take n' (message_addrs pad len data), arr', p', cnt')"
    by (rule sock_loop_moves)
      (use length_message_addrs [OF ok(1)] legal addrs nn in simp_all)
  then obtain arr' p' cnt' where
    "sock_loop rcs ?t ?iov 0 (length ?iov) 0 [] =
       (True, bytes_moved rcs ?t, take (bytes_moved rcs ?t) (message_addrs pad len data), arr', p', cnt')"
    by auto
  then show ?thesis by (simp add: iscsi_sock_msg_def Let_def)
qed

lemma sock_msg_complete:
  assumes "buffer_ok data len" "pad \<noteq> NULL" "legal_results rcs (len + padding_for len)"
  shows "fst (iscsi_sock_msg rcs pad len data) = int len \<longleftrightarrow>
           bytes_moved rcs (len + padding_for len) = len + padding_for len"
    and "fst (iscsi_sock_msg rcs pad len data) = int len \<Longrightarrow>
           fst (snd (iscsi_sock_msg rcs pad len data)) = message_addrs pad len data"
proof -
  obtain arr where eq: "iscsi_sock_msg rcs pad len data =
    (int (bytes_moved rcs (len + padding_for len)) - int (padding_for len),
     take (bytes_moved rcs (len + padding_for len)) (message_addrs pad len data), arr)"
    using sock_msg_moves [OF assms] by blast
  show iff: "fst (iscsi_sock_msg rcs pad len data) = int len \<longleftrightarrow>
      bytes_moved rcs (len + padding_for len) = len + padding_for len"
    using eq by auto
  show "fst (iscsi_sock_msg rcs pad len data) = int len \<Longrightarrow>
      fst (snd (iscsi_sock_msg rcs pad len data)) = message_addrs pad len data"
    using iff eq length_message_addrs [OF assms(1), of pad] by simp
qed

subsection \<open>Properties of the transfers\<close>



text \<open>C33. However the system splits a message into partial reads or writes, \<^verbatim>\<open>iscsi_sock_msg\<close> moves a
  prefix of buffer and padding, every byte once and in order, and answers the byte count less the
  padding.  It answers the full length exactly if everything was moved.\<close>

theorem sock_msg_moves_prefix:
  assumes "buffer_ok data len" "pad \<noteq> NULL" "legal_results rcs (len + padding_for len)"
  shows "let k = bytes_moved rcs (len + padding_for len);
             (rc, moved, arr) = iscsi_sock_msg rcs pad len data
         in rc = int k - int (padding_for len) \<and> moved = take k (message_addrs pad len data) \<and>
            (rc = int len \<longleftrightarrow> moved = message_addrs pad len data)"
proof -
  obtain arr where eq: "iscsi_sock_msg rcs pad len data =
    (int (bytes_moved rcs (len + padding_for len)) - int (padding_for len),
     take (bytes_moved rcs (len + padding_for len)) (message_addrs pad len data), arr)"
    using sock_msg_moves [OF assms] by blast
  have "bytes_moved rcs (len + padding_for len) \<le> length (message_addrs pad len data)"
    using bytes_moved_le [OF assms(3)] length_message_addrs [OF assms(1)] by simp
  then have "take (bytes_moved rcs (len + padding_for len)) (message_addrs pad len data) =
      message_addrs pad len data \<longleftrightarrow> bytes_moved rcs (len + padding_for len) = len + padding_for len"
    using length_message_addrs [OF assms(1), of pad]
    by (metis length_take min.absorb2 take_all_iff order_refl)
  then show ?thesis using eq by auto
qed

theorem sock_msg_moves_prefix_witness:
  "let (rc, moved, arr) = iscsi_sock_msg [3, 5] 900 7 (Inl 100)
   in rc = 7 \<and> moved = [100, 101, 102, 103, 104, 105, 106, 900]"
proof -
  have "buffer_ok (Inl 100) 7" "padding_for 7 = 1"
    by (simp_all add: buffer_ok_def buffer_iovs_def NULL_def padding_for_def ISCSI_SOCK_MSG_BYTE_ALIGN_def)
  moreover have "message_addrs 900 7 (Inl 100) = [100, 101, 102, 103, 104, 105, 106, 900]"
    using \<open>padding_for 7 = 1\<close> by (simp add: message_addrs_def buffer_iovs_def iov_addrs_def upt_rec)
  ultimately show ?thesis
    using sock_msg_moves_prefix [where data = "Inl 100" and len = 7 and pad = 900 and rcs = "[3, 5]"] by (auto simp: NULL_def split: prod.splits)
qed

text \<open>Header and data are sent completely, header first, exactly if the function answers the sum of
  the two lengths; with a partial transfer it answers \<open>-1\<close>.\<close>

theorem send_header_and_data_complete:
  assumes "header \<noteq> NULL" "pad \<noteq> NULL" "buffer_ok data data_len"
    and "legal_results rcs (header_len + padding_for header_len)"
    and "legal_results rcs' (data_len + padding_for data_len)" "0 < data_len"
  shows "iscsi_sock_send_header_and_data rcs rcs' pad header header_len data data_len =
    (let h = bytes_moved rcs (header_len + padding_for header_len);
         d = bytes_moved rcs' (data_len + padding_for data_len);
         hs = message_addrs pad header_len (Inl header);
         ds = message_addrs pad data_len data
     in if h < header_len + padding_for header_len then (-1, take h hs)
        else if d < data_len + padding_for data_len then (-1, hs @ take d ds)
        else (int (header_len + data_len), hs @ ds))"
proof -
  have hdr: "buffer_ok (Inl header) header_len"
    using assms(1) by (simp add: buffer_ok_def buffer_iovs_def)
  obtain a where a: "iscsi_sock_msg rcs pad header_len (Inl header) =
    (int (bytes_moved rcs (header_len + padding_for header_len)) - int (padding_for header_len),
     take (bytes_moved rcs (header_len + padding_for header_len)) (message_addrs pad header_len (Inl header)), a)"
    using sock_msg_moves [OF hdr assms(2,4)] by blast
  obtain b where b: "iscsi_sock_msg rcs' pad data_len data =
    (int (bytes_moved rcs' (data_len + padding_for data_len)) - int (padding_for data_len),
     take (bytes_moved rcs' (data_len + padding_for data_len)) (message_addrs pad data_len data), b)"
    using sock_msg_moves [OF assms(3,2,5)] by blast
  show ?thesis
    using bytes_moved_le [OF assms(4)] bytes_moved_le [OF assms(5)] assms(6)
      length_message_addrs [OF hdr, of pad] length_message_addrs [OF assms(3), of pad]
    by (auto simp: iscsi_sock_send_header_and_data_def ISCSI_SOCK_HACK_CROSSOVER_def a b Let_def)
qed

theorem send_header_and_data_complete_witness:
  "iscsi_sock_send_header_and_data [2, 2] [1, 3] 900 50 4 (Inl 100) 3 =
     (7, [50, 51, 52, 53, 100, 101, 102, 900])"
proof -
  have "padding_for 3 = 1" "padding_for 4 = 0" "buffer_ok (Inl 100) 3"
    by (simp_all add: buffer_ok_def buffer_iovs_def NULL_def padding_for_def ISCSI_SOCK_MSG_BYTE_ALIGN_def)
  then show ?thesis
    using send_header_and_data_complete [where header = 50 and pad = 900 and data = "Inl 100" and
        data_len = 3 and rcs = "[2, 2]" and header_len = 4 and rcs' = "[1, 3]"]
    by (simp add: NULL_def message_addrs_def buffer_iovs_def iov_addrs_def upt_rec)
qed

text \<open>When a partial transfer ends inside the second of two vectors, the call still moves every
  byte, but the restoration of the caller's array goes through the advanced pointer: the array is
  left with its first vector twice.\<close>

theorem sock_msg_spoils_vector:
  "let vs = [\<lparr>iov_base = 100, iov_len = 4\<rparr>, \<lparr>iov_base = 200, iov_len = 8\<rparr>];
       (rc, moved, after) = iscsi_sock_msg [6, 6] 900 12 (Inr vs)
   in rc = 12 \<and> moved = iovs_addrs vs \<and> after = [vs ! 0, vs ! 0]"
  by code_simp

end
