(* ===== verification/Counters.thy ===== *)
theory Counters
  imports Prelude
begin

section \<open>The device counters of \<^verbatim>\<open>ost.c\<close>\<close>

text \<open>
  Every device has a block of 64-bit counters.  A command is entered by \<^verbatim>\<open>pre\<close> when it is queued and
  by \<^verbatim>\<open>post\<close> when it completes.  Each function holds the counters' lock from its first to its last
  access (or is called with the lock held), so a call is one step here.  All sums wrap around at
  \<open>2 ^ 64\<close>, as the C code's do.
\<close>

subsection \<open>State\<close>

record ost_counters =
  k_ops :: u64
  k_ops_wr :: u64
  k_ops_rd :: u64
  k_ops_bidi :: u64
  k_ops_other :: u64
  k_outstanding :: u64
  k_outstanding_wr :: u64
  k_outstanding_rd :: u64
  k_outstanding_bidi :: u64
  k_outstanding_other :: u64
  k_depths :: u64
  k_depths_wr :: u64
  k_depths_rd :: u64
  k_depths_bidi :: u64
  k_depths_other :: u64
  k_lats :: u64
  k_lats_wr :: u64
  k_lats_rd :: u64
  k_lats_bidi :: u64
  k_lats_other :: u64
  k_last_lba :: u64
  k_last_lba_wr :: u64
  k_last_lba_rd :: u64
  k_jumps :: u64
  k_jumps_wr :: u64
  k_jumps_rd :: u64
  k_blocks :: u64
  k_blocks_wr :: u64
  k_blocks_rd :: u64
  k_bytes :: u64

subsection \<open>Operations\<close>

definition ost_reset_counters :: "ost_counters \<Rightarrow> ost_counters" where
  "ost_reset_counters k = k\<lparr>
     k_ops := 0, k_ops_wr := 0, k_ops_rd := 0, k_ops_bidi := 0, k_ops_other := 0,
     k_depths := 0, k_depths_wr := 0, k_depths_rd := 0, k_depths_bidi := 0, k_depths_other := 0,
     k_lats := 0, k_lats_wr := 0, k_lats_rd := 0, k_lats_bidi := 0, k_lats_other := 0,
     k_last_lba := 0, k_last_lba_wr := 0, k_last_lba_rd := 0,
     k_jumps := 0, k_jumps_wr := 0, k_jumps_rd := 0,
     k_blocks := 0, k_blocks_wr := 0, k_blocks_rd := 0, k_bytes := 0\<rparr>"

text \<open>
  \<^verbatim>\<open>abs(lba - last)\<close>: the 64-bit difference is cut to an \<^verbatim>\<open>int\<close>, and the \<^verbatim>\<open>int\<close> result is extended
  again when it is added.
\<close>

definition abs_jump :: "u64 \<Rightarrow> u64 \<Rightarrow> u64" where
  "abs_jump lba prev =
    (let d = ucast (lba - prev) :: c_int
     in scast (if sint d < 0 then - d else d))"

definition ost_update_counters_pre :: "ost_counters \<Rightarrow> bool \<Rightarrow> u64 \<Rightarrow> u32 \<Rightarrow> ost_counters" where
  "ost_update_counters_pre k writing lba len =
    (let k = k\<lparr>k_outstanding := k_outstanding k + 1\<rparr>;
         k = k\<lparr>k_depths := k_depths k + k_outstanding k\<rparr>;
         k = k\<lparr>k_jumps := k_jumps k + abs_jump lba (k_last_lba k)\<rparr>;
         k = k\<lparr>k_last_lba := lba + ucast len\<rparr>
     in if writing then
          let k = k\<lparr>k_outstanding_wr := k_outstanding_wr k + 1\<rparr>;
              k = k\<lparr>k_depths_wr := k_depths_wr k + k_outstanding_wr k\<rparr>;
              k = k\<lparr>k_jumps_wr := k_jumps_wr k + abs_jump lba (k_last_lba_wr k)\<rparr>
          in k\<lparr>k_last_lba_wr := lba + ucast len\<rparr>
        else
          let k = k\<lparr>k_outstanding_rd := k_outstanding_rd k + 1\<rparr>;
              k = k\<lparr>k_depths_rd := k_depths_rd k + k_outstanding_rd k\<rparr>;
              k = k\<lparr>k_jumps_rd := k_jumps_rd k + abs_jump lba (k_last_lba_rd k)\<rparr>
          in k\<lparr>k_last_lba_rd := lba + ucast len\<rparr>)"

definition ost_update_counters_pre_via_cdb :: "ost_counters \<Rightarrow> byte list \<Rightarrow> ost_counters" where
  "ost_update_counters_pre_via_cdb k cdb =
    (if cdb ! 0 = 0x2a \<or> cdb ! 0 = 0x28 then
       let lba = make32 (cdb ! 5) (cdb ! 4) (cdb ! 3) (cdb ! 2);
           len = make32 (cdb ! 8) (cdb ! 7) 0 0
       in ost_update_counters_pre k (cdb ! 0 = 0x2a) (ucast lba) len
     else
       let k = k\<lparr>k_ops := k_ops k + 1\<rparr>;
           k = k\<lparr>k_outstanding := k_outstanding k + 1\<rparr>;
           k = k\<lparr>k_depths := k_depths k + k_outstanding k\<rparr>;
           k = k\<lparr>k_ops_other := k_ops_other k + 1\<rparr>;
           k = k\<lparr>k_outstanding_other := k_outstanding_other k + 1\<rparr>
       in k\<lparr>k_depths_other := k_depths_other k + k_outstanding_other k\<rparr>)"

definition ost_update_counters_post :: "ost_counters \<Rightarrow> bool \<Rightarrow> u32 \<Rightarrow> u32 \<Rightarrow> ost_counters" where
  "ost_update_counters_post k writing len lat =
    (let k = k\<lparr>k_ops := k_ops k + 1\<rparr>;
         k = k\<lparr>k_outstanding := k_outstanding k - 1\<rparr>;
         k = k\<lparr>k_blocks := k_blocks k + ucast len\<rparr>;
         k = k\<lparr>k_lats := k_lats k + ucast lat\<rparr>
     in if writing then
          let k = k\<lparr>k_ops_wr := k_ops_wr k + 1\<rparr>;
              k = k\<lparr>k_lats_wr := k_lats_wr k + ucast lat\<rparr>;
              k = k\<lparr>k_outstanding_wr := k_outstanding_wr k - 1\<rparr>
          in k\<lparr>k_blocks_wr := k_blocks_wr k + ucast len\<rparr>
        else
          let k = k\<lparr>k_ops_rd := k_ops_rd k + 1\<rparr>;
              k = k\<lparr>k_lats_rd := k_lats_rd k + ucast lat\<rparr>;
              k = k\<lparr>k_outstanding_rd := k_outstanding_rd k - 1\<rparr>
          in k\<lparr>k_blocks_rd := k_blocks_rd k + ucast len\<rparr>)"

text \<open>
  The local variable \<open>len\<close> of the completion is declared without an initial value and only its two
  lower bytes are assigned: \<open>junk\<close> is what the stack held there.
\<close>

definition ost_update_counters_post_via_cdb ::
  "ost_counters \<Rightarrow> byte list \<Rightarrow> u32 \<Rightarrow> u32 \<Rightarrow> ost_counters" where
  "ost_update_counters_post_via_cdb k cdb lat junk =
    (if cdb ! 0 = 0x2a \<or> cdb ! 0 = 0x28 then
       let len = make32 (cdb ! 8) (cdb ! 7) (byte_of junk 2) (byte_of junk 3)
       in ost_update_counters_post k (cdb ! 0 = 0x2a) len lat
     else
       let k = k\<lparr>k_outstanding := k_outstanding k - 1\<rparr>;
           k = k\<lparr>k_lats := k_lats k + ucast lat\<rparr>;
           k = k\<lparr>k_lats_other := k_lats_other k + ucast lat\<rparr>
       in k\<lparr>k_outstanding_other := k_outstanding_other k - 1\<rparr>)"

lemmas counter_ops =
  ost_update_counters_pre_def ost_update_counters_pre_via_cdb_def
  ost_update_counters_post_def ost_update_counters_post_via_cdb_def Let_def

subsection \<open>Runs\<close>

datatype counter_event = Pre "byte list" | Post "byte list" u32 u32 | Reset

fun counter_step :: "ost_counters \<Rightarrow> counter_event \<Rightarrow> ost_counters" where
  "counter_step k (Pre cdb) = ost_update_counters_pre_via_cdb k cdb"
| "counter_step k (Post cdb lat junk) = ost_update_counters_post_via_cdb k cdb lat junk"
| "counter_step k Reset = ost_reset_counters k"

definition counter_run :: "ost_counters \<Rightarrow> counter_event list \<Rightarrow> ost_counters" where
  "counter_run = foldl counter_step"

lemma counter_run_simps [simp]:
  "counter_run k [] = k" "counter_run k (e # es) = counter_run (counter_step k e) es"
  by (simp_all add: counter_run_def)

text \<open>Whether a command is a \<^verbatim>\<open>WRITE(10)\<close> or \<^verbatim>\<open>READ(10)\<close>.\<close>

definition is_rw :: "byte list \<Rightarrow> bool" where
  "is_rw cdb \<longleftrightarrow> cdb ! 0 = 0x2a \<or> cdb ! 0 = 0x28"

text \<open>Every total is the sum of its parts.\<close>

definition counters_consistent :: "ost_counters \<Rightarrow> bool" where
  "counters_consistent k \<longleftrightarrow>
     k_ops k = k_ops_wr k + k_ops_rd k + k_ops_other k \<and>
     k_outstanding k = k_outstanding_wr k + k_outstanding_rd k + k_outstanding_other k \<and>
     k_lats k = k_lats_wr k + k_lats_rd k + k_lats_other k \<and>
     k_blocks k = k_blocks_wr k + k_blocks_rd k"

lemma consistent_pre:
  "counters_consistent k \<Longrightarrow> counters_consistent (ost_update_counters_pre_via_cdb k cdb)"
  by (simp add: counters_consistent_def counter_ops)

lemma consistent_post:
  "counters_consistent k \<Longrightarrow> counters_consistent (ost_update_counters_post_via_cdb k cdb lat junk)"
  by (simp add: counters_consistent_def counter_ops)

lemma consistent_reset:
  "counters_consistent k \<Longrightarrow> counters_consistent (ost_reset_counters k)"
  by (simp add: counters_consistent_def ost_reset_counters_def)

text \<open>How often the events of a kind occur, as a 64-bit number.\<close>

definition tally :: "(counter_event \<Rightarrow> bool) \<Rightarrow> counter_event list \<Rightarrow> u64" where
  "tally P es = of_nat (length (filter P es))"

lemma tally_simps [simp]:
  "tally P [] = 0" "tally P (e # es) = (if P e then 1 else 0) + tally P es"
  by (simp_all add: tally_def)

fun is_pre :: "counter_event \<Rightarrow> bool" where
  "is_pre (Pre _) = True" | "is_pre _ = False"

fun is_post :: "counter_event \<Rightarrow> bool" where
  "is_post (Post _ _ _) = True" | "is_post _ = False"

fun is_pre_other :: "counter_event \<Rightarrow> bool" where
  "is_pre_other (Pre cdb) = (\<not> is_rw cdb)" | "is_pre_other _ = False"

fun is_post_rw :: "counter_event \<Rightarrow> bool" where
  "is_post_rw (Post cdb _ _) = is_rw cdb" | "is_post_rw _ = False"

lemma step_outstanding:
  "k_outstanding (counter_step k e) =
     k_outstanding k + (if is_pre e then 1 else 0) - (if is_post e then 1 else 0)"
  by (cases e) (simp_all add: counter_ops ost_reset_counters_def)

lemma step_ops:
  "e \<noteq> Reset \<Longrightarrow> k_ops (counter_step k e) =
     k_ops k + (if is_pre_other e then 1 else 0) + (if is_post_rw e then 1 else 0)"
  by (cases e) (simp_all add: counter_ops is_rw_def)

lemma run_outstanding: "k_outstanding (counter_run k es) = k_outstanding k + tally is_pre es - tally is_post es"
  by (induction es arbitrary: k) (simp_all add: step_outstanding)

lemma run_ops_count:
  "Reset \<notin> set es \<Longrightarrow> k_ops (counter_run k es) = k_ops k + tally is_pre_other es + tally is_post_rw es"
proof (induction es arbitrary: k)
  case (Cons e es)
  then have "e \<noteq> Reset" "Reset \<notin> set es" by auto
  then show ?case using Cons.IH step_ops [of e k] by simp
qed simp

subsection \<open>Properties\<close>

text \<open>C36. Whatever commands start and complete, in whatever order, and also across resets, the totals
  of operations, outstanding commands, latencies and blocks stay the sums of their parts.\<close>

theorem counters_stay_consistent:
  assumes "counters_consistent k"
  shows "counters_consistent (counter_run k es)"
  using assms
proof (induction es arbitrary: k)
  case (Cons e es)
  then show ?case by (cases e) (simp_all add: consistent_pre consistent_post consistent_reset)
qed simp

definition zero_counters :: ost_counters where
  "zero_counters = \<lparr>k_ops = 0, k_ops_wr = 0, k_ops_rd = 0, k_ops_bidi = 0, k_ops_other = 0,
     k_outstanding = 0, k_outstanding_wr = 0, k_outstanding_rd = 0, k_outstanding_bidi = 0,
     k_outstanding_other = 0, k_depths = 0, k_depths_wr = 0, k_depths_rd = 0, k_depths_bidi = 0,
     k_depths_other = 0, k_lats = 0, k_lats_wr = 0, k_lats_rd = 0, k_lats_bidi = 0, k_lats_other = 0,
     k_last_lba = 0, k_last_lba_wr = 0, k_last_lba_rd = 0, k_jumps = 0, k_jumps_wr = 0,
     k_jumps_rd = 0, k_blocks = 0, k_blocks_wr = 0, k_blocks_rd = 0, k_bytes = 0\<rparr>"

definition read10 :: "byte list" where
  "read10 = [0x28, 0, 0, 0, 0, 8, 0, 0, 4, 0]"

definition test_unit_ready :: "byte list" where
  "test_unit_ready = [0, 0, 0, 0, 0, 0]"

theorem counters_stay_consistent_witness:
  "let k = counter_run zero_counters [Pre read10, Pre test_unit_ready, Post read10 7 0]
   in k_ops k = k_ops_wr k + k_ops_rd k + k_ops_other k"
  using counters_stay_consistent [of zero_counters "[Pre read10, Pre test_unit_ready, Post read10 7 0]"]
  by (simp add: counters_consistent_def zero_counters_def)

text \<open>The number of outstanding commands is what was started less what was completed, and the number
  of operations counts a read or write when it completes and any other command when it starts
  (all modulo \<open>2 ^ 64\<close>).\<close>

theorem counters_count_commands:
  "k_outstanding (counter_run k es) = k_outstanding k + tally is_pre es - tally is_post es \<and>
   (Reset \<notin> set es \<longrightarrow> k_ops (counter_run k es) = k_ops k + tally is_pre_other es + tally is_post_rw es)"
  using run_outstanding run_ops_count by blast

theorem counters_count_commands_witness:
  "k_ops (counter_run zero_counters [Pre read10, Pre test_unit_ready, Post read10 7 0]) = 2"
  using counters_count_commands [of zero_counters "[Pre read10, Pre test_unit_ready, Post read10 7 0]"]
  by (simp add: zero_counters_def is_rw_def read10_def test_unit_ready_def)

text \<open>The block count of a completed read depends on memory that was never written: two runs of the
  same completion that differ only in the stack contents count 4 blocks and 65540 blocks.\<close>

theorem block_count_reads_junk:
  "k_blocks (ost_update_counters_post_via_cdb zero_counters read10 7 0) = 4 \<and>
   k_blocks (ost_update_counters_post_via_cdb zero_counters read10 7 0x10000) = 65540"
  by code_simp

end
