(* ===== verification/Util_Text.thy ===== *)
theory Util_Text
  imports Prelude
begin

section \<open>Numbers and bytes as text\<close>

text \<open>
  The conversions of \<^verbatim>\<open>util.c\<close> and \<^verbatim>\<open>parameters.c\<close> between C strings and numbers or byte buffers.  A C
  string is a HOL string without the terminating NUL; reading the character behind the last one
  gives NUL.  \<^verbatim>\<open>atoi\<close> and \<^verbatim>\<open>sprintf("%i")\<close> are the library's: \<^verbatim>\<open>atoi\<close> skips white space, takes an
  optional sign and the digits that follow, saturates at the range of \<^verbatim>\<open>long\<close> and is cut to 32 bits.
\<close>

definition NUL :: char where
  "NUL = CHR 0x00"

subsection \<open>Decimal numbers\<close>

definition is_space :: "char \<Rightarrow> bool" where
  "is_space c \<longleftrightarrow> c \<in> {CHR '' '', CHR 0x09, CHR 0x0A, CHR 0x0B, CHR 0x0C, CHR 0x0D}"

definition is_digit :: "char \<Rightarrow> bool" where
  "is_digit c \<longleftrightarrow> (48::nat) \<le> of_char c \<and> of_char c \<le> (57::nat)"

definition digit_val :: "char \<Rightarrow> nat" where
  "digit_val c = of_char c - 48"

definition digits_val :: "string \<Rightarrow> nat" where
  "digits_val = foldl (\<lambda>a c. 10 * a + digit_val c) 0"

definition to_long :: "int \<Rightarrow> int" where
  "to_long v = max (- (2 ^ 63)) (min v (2 ^ 63 - 1))"

definition c_atoi :: "string \<Rightarrow> c_int" where
  "c_atoi s =
    (let s = dropWhile is_space s;
         (neg, s) = (case s of
            [] \<Rightarrow> (False, s)
          | c # cs \<Rightarrow> if c = CHR ''-'' then (True, cs) else if c = CHR ''+'' then (False, cs)
                      else (False, s));
         v = int (digits_val (takeWhile is_digit s))
     in word_of_int (to_long (if neg then - v else v)))"

text \<open>\<open>None\<close> is the NULL pointer.\<close>

definition iscsi_atoi :: "string option \<Rightarrow> c_int" where
  "iscsi_atoi value = (case value of None \<Rightarrow> 0 | Some s \<Rightarrow> c_atoi s)"

fun driver_atoi_loop :: "c_int \<Rightarrow> string \<Rightarrow> c_int" where
  "driver_atoi_loop k [] = k"
| "driver_atoi_loop k (c # cs) =
    (if is_digit c then driver_atoi_loop (10 * k + of_nat (digit_val c)) cs else k)"

definition driver_atoi :: "string \<Rightarrow> c_int" where
  "driver_atoi s = driver_atoi_loop 0 s"

definition digit :: "nat \<Rightarrow> char" where
  "digit n = char_of (48 + n)"

fun nat_dec :: "nat \<Rightarrow> string" where
  "nat_dec n = (if n < 10 then [digit n] else nat_dec (n div 10) @ [digit (n mod 10)])"

text \<open>\<^verbatim>\<open>sprintf(s, "%i", n)\<close>\<close>

definition int_dec :: "int \<Rightarrow> string" where
  "int_dec n = (if n < 0 then CHR ''-'' # nat_dec (nat (- n)) else nat_dec (nat n))"

declare nat_dec.simps [simp del]

lemma digit_simps [simp]:
  "n < 10 \<Longrightarrow> is_digit (digit n)" "n < 10 \<Longrightarrow> digit_val (digit n) = n"
  by (simp_all add: is_digit_def digit_val_def digit_def)

lemma nat_dec_digits: "\<forall>c\<in>set (nat_dec n). is_digit c"
proof (induction n rule: nat_dec.induct)
  case (1 n)
  then show ?case by (subst nat_dec.simps) auto
qed

lemma digits_val_append: "digits_val (s @ [c]) = 10 * digits_val s + digit_val c"
  by (simp add: digits_val_def)

lemma digits_val_nat_dec: "digits_val (nat_dec n) = n"
proof (induction n rule: nat_dec.induct)
  case (1 n)
  show ?case
  proof (cases "n < 10")
    case True
    then show ?thesis by (subst nat_dec.simps) (simp add: digits_val_def)
  next
    case False
    then show ?thesis using 1 by (subst nat_dec.simps) (simp add: digits_val_append)
  qed
qed

lemma nat_dec_hd: "\<exists>c cs. nat_dec n = c # cs \<and> is_digit c"
proof -
  have "nat_dec n \<noteq> []" by (subst nat_dec.simps) simp
  then show ?thesis using nat_dec_digits [of n] by (cases "nat_dec n") auto
qed

lemma digit_not_special: "is_digit c \<Longrightarrow> \<not> is_space c \<and> c \<noteq> CHR ''-'' \<and> c \<noteq> CHR ''+''"
  by (auto simp: is_digit_def is_space_def)

lemma takeWhile_digits: "takeWhile is_digit (nat_dec n) = nat_dec n"
  using nat_dec_digits by (simp add: takeWhile_eq_all_conv)

lemma minus_not_space: "\<not> is_space (CHR ''-'')"
  by (simp add: is_space_def)

lemma c_atoi_int_dec_raw: "c_atoi (int_dec n) = word_of_int (to_long n)"
proof (cases "n < 0")
  case True
  then show ?thesis
    by (simp add: c_atoi_def int_dec_def minus_not_space takeWhile_digits digits_val_nat_dec)
next
  case False
  obtain c cs where c: "nat_dec (nat n) = c # cs" "is_digit c" using nat_dec_hd by blast
  then have "dropWhile is_space (nat_dec (nat n)) = nat_dec (nat n)"
    using digit_not_special [OF c(2)] by simp
  moreover have tw: "takeWhile is_digit cs = cs"
    using takeWhile_digits [of "nat n"] c by (simp del: takeWhile_eq_all_conv)
  moreover have "digits_val (c # cs) = nat n" using digits_val_nat_dec [of "nat n"] c(1) by simp
  ultimately show ?thesis
    using False c digit_not_special [OF c(2)] by (simp add: c_atoi_def int_dec_def tw)
qed

lemma c_atoi_int_dec: "- (2 ^ 63) \<le> n \<Longrightarrow> n < 2 ^ 63 \<Longrightarrow> c_atoi (int_dec n) = word_of_int n"
  by (simp add: c_atoi_int_dec_raw to_long_def)

lemma sint_c_int_range: "- (2 ^ 63) \<le> sint (w :: c_int)" "sint (w :: c_int) < 2 ^ 63"
proof -
  have "- (2 ^ 31) \<le> sint w" "sint w < 2 ^ 31"
    using sint_greater_eq [of w] sint_less [of w] by simp_all
  then show "- (2 ^ 63) \<le> sint w" "sint w < 2 ^ 63" by simp_all
qed

lemma c_atoi_sint [simp]: "c_atoi (int_dec (sint w)) = w"
  using c_atoi_int_dec [OF sint_c_int_range] by simp

subsection \<open>Hexadecimal text\<close>

definition HexString :: string where
  "HexString = ''0123456789abcdefABCDEF''"

fun HexStringIndex_loop :: "string \<Rightarrow> char \<Rightarrow> int \<Rightarrow> int" where
  "HexStringIndex_loop [] c n = -1"
| "HexStringIndex_loop (s # ss) c n = (if s = c then n else HexStringIndex_loop ss c (n + 1))"

definition HexStringIndex :: "string \<Rightarrow> char \<Rightarrow> int" where
  "HexStringIndex s c = HexStringIndex_loop s c 0"

text \<open>
  \<open>HexDataToText data textLength\<close> (with \<open>dataLength\<close> the length of \<open>data\<close>): the return value and
  the text written, without its NUL; \<open>text\<close> is what the buffer held before.
\<close>

fun hex_data_loop :: "byte list \<Rightarrow> nat \<Rightarrow> string \<Rightarrow> int \<times> string" where
  "hex_data_loop [] textLength out = (0, out)"
| "hex_data_loop (n # data) textLength out =
    (if textLength < 3 then (-1, out)
     else hex_data_loop data (textLength - 2)
       (out @ [HexString ! unat (drop_bit 4 n AND 0xf), HexString ! unat (n AND 0xf)]))"

definition HexDataToText :: "byte list \<Rightarrow> string \<Rightarrow> nat \<Rightarrow> int \<times> string" where
  "HexDataToText data text textLength =
    (if textLength = 0 then (-1, text)
     else if data = [] then (-1, [])
     else if textLength < 3 then (-1, [])
     else hex_data_loop data (textLength - 2) ''0x'')"

text \<open>
  The loop of \<^verbatim>\<open>HexTextToData\<close>: \<open>len\<close> bytes have been stored, \<open>data\<close> holds them.
\<close>

definition hex_value :: "int \<Rightarrow> byte" where
  "hex_value i = word_of_int (if i > 15 then i - 6 else i)"

fun hex_text_loop :: "string \<Rightarrow> nat \<Rightarrow> nat \<Rightarrow> byte list \<Rightarrow> int \<times> byte list" where
  "hex_text_loop [] dataLength len data = (if len = 0 then -1 else int len, data)"
| "hex_text_loop [c1] dataLength len data = (-1, data)"
| "hex_text_loop (c1 # c2 # text) dataLength len data =
    (let i = HexStringIndex HexString c1
     in if i < 0 then (-1, data)
        else
          let n1 = hex_value i;
              i = HexStringIndex HexString c2
          in if i < 0 then (-1, data)
             else
               let n2 = hex_value i
               in if dataLength \<le> len then (-1, data)
                  else hex_text_loop text dataLength (len + 1) (data @ [push_bit 4 n1 OR n2]))"

text \<open>
  The condition \<^verbatim>\<open>(text[0] == '0') && (text[1] != 'x' || text[1] != 'X')\<close> holds for every text that
  starts with \<open>0\<close>.  A text of one character \<open>0\<close> then moves the pointer behind the terminator:
  the result is \<open>None\<close>.
\<close>

definition HexTextToData :: "string \<Rightarrow> nat \<Rightarrow> (int \<times> byte list) option" where
  "HexTextToData text dataLength =
    (let c = (\<lambda>i. if i < length text then text ! i else NUL);
         prefix = (c 0 = CHR ''0'' \<and> (c 1 \<noteq> CHR ''x'' \<or> c 1 \<noteq> CHR ''X''))
     in if prefix \<and> length text < 2 then None
        else
          let text = (if prefix then drop 2 text else text)
          in if length text mod 2 = 1 then
               let i = HexStringIndex HexString (hd text)
               in if i < 0 then Some (-1, [])
                  else if dataLength < 1 then Some (-1, [])
                  else Some (hex_text_loop (tl text) dataLength 1 [hex_value i])
             else Some (hex_text_loop text dataLength 0 []))"

subsection \<open>Round trip\<close>

definition hex_of_byte :: "byte \<Rightarrow> string" where
  "hex_of_byte n = [HexString ! unat (drop_bit 4 n AND 0xf), HexString ! unat (n AND 0xf)]"

lemma hex_data_loop_eq:
  "2 * length data < textLength \<Longrightarrow>
   hex_data_loop data textLength out = (0, out @ concat (map hex_of_byte data))"
  by (induction data textLength out rule: hex_data_loop.induct) (auto simp: hex_of_byte_def)

lemma nibble_less: "unat (n AND 0xf) < 16" for n :: byte
proof -
  have "n AND 0xf = take_bit 4 n" by (simp add: take_bit_eq_mask mask_eq_exp_minus_1)
  moreover have "unat (take_bit 4 n) = take_bit 4 (unat n)" by (rule unsigned_take_bit_eq)
  ultimately show ?thesis using take_bit_nat_less_exp [of 4 "unat n"] by simp
qed

lemma HexStringIndex_nth: "k < 16 \<Longrightarrow> HexStringIndex HexString (HexString ! k) = int k"
proof -
  have "\<forall>k\<in>set [0..<16]. HexStringIndex HexString (HexString ! k) = int k" by code_simp
  then show "k < 16 \<Longrightarrow> ?thesis" by simp
qed

lemma join_nibbles:
  "push_bit 4 (drop_bit 4 n AND 0xf) OR (n AND 0xf) = n" for n :: byte
proof -
  have m: "x AND 0xf = take_bit 4 x" for x :: byte
    by (simp add: take_bit_eq_mask mask_eq_exp_minus_1)
  show ?thesis unfolding m
    by (rule bit_word_eqI) (auto simp: bit_simps)
qed

lemma hex_text_loop_bytes:
  "len + length bs \<le> dataLength \<Longrightarrow> 0 < len + length bs \<Longrightarrow>
   hex_text_loop (concat (map hex_of_byte bs)) dataLength len data = (int (len + length bs), data @ bs)"
proof (induction bs arbitrary: len data)
  case (Cons b bs)
  have i: "HexStringIndex HexString (HexString ! unat (drop_bit 4 b AND 0xf)) = int (unat (drop_bit 4 b AND 0xf))"
    "HexStringIndex HexString (HexString ! unat (b AND 0xf)) = int (unat (b AND 0xf))"
    using HexStringIndex_nth nibble_less by blast+
  have v: "hex_value (uint (x AND 0xf)) = x AND 0xf" for x :: byte
  proof -
    have "int (unat (x AND 0xf)) < 16" using nibble_less [of x] by linarith
    then have "\<not> 15 < uint (x AND 0xf)" by simp
    then show ?thesis by (simp add: hex_value_def)
  qed
  show ?case
    using Cons.prems Cons.IH [of "len + 1" "data @ [b]"] join_nibbles [of b]
    by (simp add: hex_of_byte_def i v Let_def)
qed simp

lemma length_hex: "length (concat (map hex_of_byte bs)) = 2 * length bs"
  by (induction bs) (auto simp: hex_of_byte_def)

lemma HexDataToText_eq:
  "data \<noteq> [] \<Longrightarrow> 2 * length data + 2 < textLength \<Longrightarrow>
   HexDataToText data text textLength = (0, ''0x'' @ concat (map hex_of_byte data))"
  using hex_data_loop_eq [of data "textLength - 2" "''0x''"] by (simp add: HexDataToText_def)

lemma HexTextToData_prefixed:
  "bs \<noteq> [] \<Longrightarrow> length bs \<le> dataLength \<Longrightarrow>
   HexTextToData (''0x'' @ concat (map hex_of_byte bs)) dataLength = Some (int (length bs), bs)"
  using hex_text_loop_bytes [of 0 bs dataLength "[]"]
  by (simp add: HexTextToData_def length_hex)

subsection \<open>Properties of the conversions\<close>

text \<open>A byte buffer printed by \<^verbatim>\<open>HexDataToText\<close> into a large enough text buffer is read back by
  \<^verbatim>\<open>HexTextToData\<close>: same length, same bytes.\<close>

theorem hex_roundtrip:
  assumes "data \<noteq> []" "2 * length data + 2 < textLength" "length data \<le> dataLength"
  shows "\<exists>text'. HexDataToText data text textLength = (0, text') \<and>
    HexTextToData text' dataLength = Some (int (length data), data)"
  using HexDataToText_eq [OF assms(1,2)] HexTextToData_prefixed [OF assms(1,3)] by blast

theorem hex_roundtrip_witness:
  "\<exists>text'. HexDataToText [0x0a, 0xff] [] 16 = (0, text') \<and> HexTextToData text' 16 = Some (2, [0x0a, 0xff])"
  using hex_roundtrip [of "[0x0a, 0xff]" 16 16 "[]"] by simp

text \<open>Text without the \<open>0x\<close> prefix that starts with the digit 0 loses its first byte: the test for the
  prefix is true for every text that starts with 0.\<close>

theorem hex_prefix_defect:
  "HexTextToData ''0a1b'' 16 = Some (1, [0x1b]) \<and> HexTextToData ''1b0a'' 16 = Some (2, [0x1b, 0x0a]) \<and>
   HexTextToData ''0'' 16 = None"
  by code_simp

text \<open>Every \<^verbatim>\<open>int\<close> that is printed with \<^verbatim>\<open>"%i"\<close> is read back by \<^verbatim>\<open>iscsi_atoi\<close>.\<close>

theorem atoi_roundtrip: "iscsi_atoi (Some (int_dec (sint w))) = w"
  by (simp add: iscsi_atoi_def)

end
