(* ===== verification/Parameters.thy ===== *)
theory Parameters
  imports MD5 Util_Text
begin

section \<open>The parameter lists of \<^verbatim>\<open>parameters.c\<close>\<close>

text \<open>
  A session keeps a list of parameters, each with its type, its list of values and the last offers
  and answers in both directions.  The C list is a chain of heap blocks that nothing else points
  into, searched by key from the front: here a list of records.  A value list is a list of
  strings, \<open>[]\<close> for NULL.  Memory allocation inside the text functions is assumed to succeed; the
  allocations of \<^verbatim>\<open>param_list_add\<close> are arguments, with the contents the allocator returns.
\<close>

subsection \<open>Data\<close>

datatype param_type =
    DECLARATIVE | DECLARE_MULTI | NUMERICAL | NUMERICAL_Z | BINARY_OR | BINARY_AND | LIST
  | UNKNOWN_TYPE int

record iscsi_param =
  p_key :: string
  p_type :: param_type
  p_valid :: string
  p_dflt :: string
  p_value_l :: "string list"
  p_offer_rx :: string
  p_offer_tx :: string
  p_answer_tx :: string
  p_answer_rx :: string
  p_negotiated :: string
  p_tx_offer :: bool
  p_rx_offer :: bool
  p_tx_answer :: bool
  p_rx_answer :: bool
  p_reset :: bool

record iscsi_sess_param =
  max_burst_length :: u32
  first_burst_length :: u32
  max_data_seg_length :: u32
  initial_r2t :: bool
  immediate_data :: bool

definition ISCSI_PARAM_KEY_LEN :: nat where "ISCSI_PARAM_KEY_LEN = 64"
definition ISCSI_PARAM_MAX_LEN :: nat where "ISCSI_PARAM_MAX_LEN = 4096"
definition ISCSI_PARAM_MAX_TEXT_LEN :: nat where "ISCSI_PARAM_MAX_TEXT_LEN = 4096"

subsection \<open>Lists of parameters\<close>

definition binary_valid :: "string list" where
  "binary_valid =
    [''Yes,No'', ''No,Yes'', ''No'', ''Yes'', ''yes,no'', ''no,yes'', ''no'', ''yes'']"

text \<open>
  \<open>blk\<close> is the block allocated for the parameter, \<open>vblk\<close> tells whether the one for its value is
  allocated.  A rejected \<open>valid\<close> or type leaves the new parameter in the list.
\<close>

definition param_list_add ::
  "iscsi_param option \<Rightarrow> bool \<Rightarrow> iscsi_param list \<Rightarrow> param_type \<Rightarrow> string \<Rightarrow> string \<Rightarrow> string \<Rightarrow>
   int \<times> iscsi_param list" where
  "param_list_add blk vblk head type key dflt valid =
    (case blk of
       None \<Rightarrow> (-1, head)
     | Some param \<Rightarrow>
         let param = param\<lparr>p_type := type, p_key := key, p_dflt := dflt, p_valid := valid,
               p_tx_offer := False, p_rx_offer := False, p_tx_answer := False,
               p_rx_answer := False, p_reset := False\<rparr>
         in if \<not> vblk then (-1, head @ [param\<lparr>p_value_l := []\<rparr>])
            else
              let head = head @ [param\<lparr>p_value_l := [dflt]\<rparr>]
              in case type of
                   BINARY_OR \<Rightarrow> if valid \<in> set binary_valid then (0, head) else (-1, head)
                 | BINARY_AND \<Rightarrow> if valid \<in> set binary_valid then (0, head) else (-1, head)
                 | UNKNOWN_TYPE _ \<Rightarrow> (-1, head)
                 | _ \<Rightarrow> (0, head))"

fun param_get :: "iscsi_param list \<Rightarrow> string \<Rightarrow> iscsi_param option" where
  "param_get [] key = None"
| "param_get (p # ps) key = (if p_key p = key then Some p else param_get ps key)"

text \<open>An assignment through the pointer that \<^verbatim>\<open>param_get\<close> returns.\<close>

fun param_upd :: "string \<Rightarrow> (iscsi_param \<Rightarrow> iscsi_param) \<Rightarrow> iscsi_param list \<Rightarrow> iscsi_param list" where
  "param_upd key f [] = []"
| "param_upd key f (p # ps) = (if p_key p = key then f p # ps else p # param_upd key f ps)"

definition param_val_which :: "iscsi_param list \<Rightarrow> string \<Rightarrow> nat \<Rightarrow> string option" where
  "param_val_which head key which =
    (case param_get head key of
       None \<Rightarrow> None
     | Some p \<Rightarrow> if which < length (p_value_l p) then Some (p_value_l p ! which) else None)"

definition param_val :: "iscsi_param list \<Rightarrow> string \<Rightarrow> string option" where
  "param_val head key = param_val_which head key 0"

definition param_val_delete_all :: "iscsi_param list \<Rightarrow> string \<Rightarrow> int \<times> iscsi_param list" where
  "param_val_delete_all head key =
    (case param_get head key of
       None \<Rightarrow> (-1, head)
     | Some p \<Rightarrow> (0, param_upd key (\<lambda>p. p\<lparr>p_value_l := []\<rparr>) head))"

definition param_val_reset :: "iscsi_param list \<Rightarrow> string \<Rightarrow> int \<times> iscsi_param list" where
  "param_val_reset head key =
    (case param_get head key of
       None \<Rightarrow> (-1, head)
     | Some p \<Rightarrow> (0, param_upd key (\<lambda>p. p\<lparr>p_reset := True\<rparr>) head))"

definition param_atoi :: "iscsi_param list \<Rightarrow> string \<Rightarrow> c_int" where
  "param_atoi head key =
    (case param_get head key of
       None \<Rightarrow> 0
     | Some p \<Rightarrow>
         if p_value_l p \<noteq> [] then
           case param_val head key of None \<Rightarrow> 0 | Some v \<Rightarrow> iscsi_atoi (Some v)
         else 0)"

definition param_equiv :: "iscsi_param list \<Rightarrow> string \<Rightarrow> string \<Rightarrow> int" where
  "param_equiv head key val =
    (case param_get head key of
       None \<Rightarrow> -1
     | Some p \<Rightarrow>
         if p_value_l p \<noteq> [] then
           case param_val head key of
             None \<Rightarrow> -1
           | Some v \<Rightarrow> if v = val then 0 else 1
         else -1)"

definition param_num_vals :: "iscsi_param list \<Rightarrow> string \<Rightarrow> int" where
  "param_num_vals head key =
    (case param_get head key of None \<Rightarrow> -1 | Some p \<Rightarrow> int (length (p_value_l p)))"

text \<open>\<^verbatim>\<open>strcpy(param_val(head, key), value)\<close>; a NULL target is undefined.\<close>

definition param_set_val :: "iscsi_param list \<Rightarrow> string \<Rightarrow> string \<Rightarrow> iscsi_param list option" where
  "param_set_val head key v =
    (case param_val head key of
       None \<Rightarrow> None
     | Some _ \<Rightarrow> Some (param_upd key (\<lambda>p. p\<lparr>p_value_l := v # tl (p_value_l p)\<rparr>) head))"

text \<open>
  \<^verbatim>\<open>text\<close> and \<^verbatim>\<open>*len\<close> together are the text built so far, with a NUL behind every entry.
\<close>

definition param_text_add :: "string \<Rightarrow> string \<Rightarrow> string \<Rightarrow> int \<times> string" where
  "param_text_add key val txt =
    (if ISCSI_PARAM_MAX_TEXT_LEN < length txt + length key + 1 + length val + 1 then (-1, txt)
     else (0, txt @ key @ ''='' @ val @ [NUL]))"

definition set_session_parameters :: "iscsi_param list \<Rightarrow> iscsi_sess_param" where
  "set_session_parameters head =
    \<lparr>max_burst_length = param_atoi head ''MaxBurstLength'',
     first_burst_length = param_atoi head ''FirstBurstLength'',
     max_data_seg_length = param_atoi head ''MaxRecvDataSegmentLength'',
     initial_r2t = (param_equiv head ''InitialR2T'' ''Yes'' = 0),
     immediate_data = (param_equiv head ''ImmediateData'' ''Yes'' = 0)\<rparr>"

subsection \<open>Tokens\<close>

text \<open>
  The text of a PDU is a sequence of \<open>key=value\<close> entries separated by NULs.  The buffer has a NUL
  behind its last byte.
\<close>

function text_tokens :: "string \<Rightarrow> string list" where
  "text_tokens txt =
    (case dropWhile (\<lambda>c. c = NUL) txt of
       [] \<Rightarrow> []
     | c # cs \<Rightarrow>
         takeWhile (\<lambda>c. c \<noteq> NUL) (c # cs) # text_tokens (drop 1 (dropWhile (\<lambda>c. c \<noteq> NUL) (c # cs))))"
  by pat_completeness auto

termination
proof (relation "measure length")
  fix s :: string and c cs
  assume "dropWhile (\<lambda>c. c = NUL) s = c # cs"
  then have "length (c # cs) \<le> length s" by (metis length_dropWhile_le)
  moreover have "c \<noteq> NUL" using \<open>dropWhile (\<lambda>c. c = NUL) s = c # cs\<close> by (simp add: dropWhile_eq_Cons_conv)
  then have "length (dropWhile (\<lambda>c. c \<noteq> NUL) (c # cs)) \<le> length cs" by (simp add: length_dropWhile_le)
  ultimately show "(drop 1 (dropWhile (\<lambda>c. c \<noteq> NUL) (c # cs)), s) \<in> measure length" by simp
qed simp

text \<open>\<^verbatim>\<open>strchr(ptr, '=')\<close>\<close>

definition split_token :: "string \<Rightarrow> (string \<times> string) option" where
  "split_token tok =
    (if CHR ''='' \<in> set tok
     then Some (takeWhile (\<lambda>c. c \<noteq> CHR ''='') tok, tl (dropWhile (\<lambda>c. c \<noteq> CHR ''='') tok))
     else None)"

declare text_tokens.simps [simp del]

text \<open>
  \<^verbatim>\<open>param_text_print\<close> copies every key into a buffer of 256 bytes without checking its length, up to
  the first entry without \<open>=\<close>: whether this stays inside the buffer.
\<close>

fun param_text_print_ok :: "string list \<Rightarrow> bool" where
  "param_text_print_ok [] = True"
| "param_text_print_ok (tok # toks) =
    (case split_token tok of
       None \<Rightarrow> True
     | Some (k, v) \<Rightarrow> length k < 256 \<and> param_text_print_ok toks)"

text \<open>The comma-separated elements of a list value.\<close>

fun comma_split :: "string \<Rightarrow> string list" where
  "comma_split [] = [[]]"
| "comma_split (c # cs) =
    (if c = CHR '','' then [] # comma_split cs
     else case comma_split cs of [] \<Rightarrow> [[c]] | x # xs \<Rightarrow> (c # x) # xs)"

subsection \<open>CHAP\<close>

record security_cookie =
  ck_idData :: byte
  ck_chapdata :: "byte list"
  ck_respdata :: "byte list"

definition ISCSI_CHAP_C_MAX_DATA_LENGTH :: nat where "ISCSI_CHAP_C_MAX_DATA_LENGTH = 1024"
definition ISCSI_CHAP_C_DATA_LENGTH_I :: nat where "ISCSI_CHAP_C_DATA_LENGTH_I = 16"
definition ISCSI_CHAP_C_DATA_LENGTH_T :: nat where "ISCSI_CHAP_C_DATA_LENGTH_T = 16"
definition ISCSI_CHAP_R_DATA_LENGTH :: nat where "ISCSI_CHAP_R_DATA_LENGTH = 16"
definition ISCSI_CHAP_STRING_LENGTH :: nat where
  "ISCSI_CHAP_STRING_LENGTH = ISCSI_CHAP_C_MAX_DATA_LENGTH * 2 + 2 + 1"

text \<open>
  What the text functions take from outside: the contents of a freshly allocated digest context, the
  random bytes of \<^verbatim>\<open>GenRandomData\<close>, the contents of a freshly
  allocated cookie, and the user names and passwords.
\<close>

record chap_env =
  e_context :: MD5Context
  e_random :: "nat \<Rightarrow> byte"
  e_fresh :: security_cookie
  e_InitiatorUser :: string
  e_InitiatorPass :: string
  e_TargetUser :: string
  e_TargetPass :: string

text \<open>The state of a text exchange: the list, the text going out, the cookie, the random bytes used.\<close>

record parse_state =
  s_params :: "iscsi_param list"
  s_out :: string
  s_cookie :: "security_cookie option"
  s_rnd :: nat

definition chars_bytes :: "string \<Rightarrow> byte list" where
  "chars_bytes = map (\<lambda>c. of_nat (of_char c))"

definition put_bytes :: "byte list \<Rightarrow> byte list \<Rightarrow> byte list" where
  "put_bytes bs buf = bs @ drop (length bs) buf"

definition random_bytes :: "chap_env \<Rightarrow> parse_state \<Rightarrow> nat \<Rightarrow> byte list" where
  "random_bytes env st n = map (\<lambda>i. e_random env (s_rnd st + i)) [0..<n]"

definition upd_param :: "string \<Rightarrow> (iscsi_param \<Rightarrow> iscsi_param) \<Rightarrow> parse_state \<Rightarrow> parse_state" where
  "upd_param key f st = st\<lparr>s_params := param_upd key f (s_params st)\<rparr>"

definition upd_cookie :: "(security_cookie \<Rightarrow> security_cookie) \<Rightarrow> parse_state \<Rightarrow> parse_state" where
  "upd_cookie f st = st\<lparr>s_cookie := map_option f (s_cookie st)\<rparr>"

definition cookie :: "parse_state \<Rightarrow> security_cookie" where
  "cookie st = the (s_cookie st)"

text \<open>
  \<^verbatim>\<open>PARAM_TEXT_ADD_ELSE(..., PPS_ERROR)\<close>: \<open>add_then key value st k\<close> continues with \<open>k\<close> unless the
  text is full.
\<close>

definition add_then ::
  "string \<Rightarrow> string \<Rightarrow> parse_state \<Rightarrow> (parse_state \<Rightarrow> (int \<times> parse_state) option) \<Rightarrow>
   (int \<times> parse_state) option" where
  "add_then key val st k =
    (case param_text_add key val (s_out st) of
       (rc, out) \<Rightarrow> if rc \<noteq> 0 then Some (-1, st) else k (st\<lparr>s_out := out\<rparr>))"

text \<open>A parameter that must be in the list.\<close>

definition with_param ::
  "string \<Rightarrow> parse_state \<Rightarrow> (iscsi_param \<Rightarrow> (int \<times> parse_state) option) \<Rightarrow>
   (int \<times> parse_state) option" where
  "with_param key st k =
    (case param_get (s_params st) key of None \<Rightarrow> Some (-1, st) | Some p \<Rightarrow> k p)"

definition set_offer :: "bool \<Rightarrow> string \<Rightarrow> iscsi_param \<Rightarrow> iscsi_param" where
  "set_offer tx offer p = p\<lparr>p_tx_offer := tx, p_rx_offer := False, p_offer_tx := offer\<rparr>"

text \<open>
  A challenge: a random identifier under \<open>CHAP_I\<close> and \<open>n\<close> random bytes under \<open>CHAP_C\<close>.
\<close>

definition send_challenge ::
  "chap_env \<Rightarrow> nat \<Rightarrow> bool \<Rightarrow> parse_state \<Rightarrow> (int \<times> parse_state) option" where
  "send_challenge env n check st =
    with_param ''CHAP_I'' st (\<lambda>_.
      let idData = hd (random_bytes env st 1);
          st = upd_cookie (ck_idData_update (\<lambda>_. idData)) st;
          st = st\<lparr>s_rnd := s_rnd st + 1\<rparr>;
          chapstring = int_dec (uint idData);
          st = upd_param ''CHAP_I'' (set_offer False chapstring) st
      in add_then ''CHAP_I'' chapstring st (\<lambda>st.
        with_param ''CHAP_C'' st (\<lambda>_.
          let data = random_bytes env st n;
              st = upd_cookie (ck_chapdata_update (put_bytes data)) st;
              st = st\<lparr>s_rnd := s_rnd st + n\<rparr>;
              (rc, chapstring) = HexDataToText (take n (ck_chapdata (cookie st))) chapstring
                                   ISCSI_CHAP_STRING_LENGTH
          in if check \<and> rc \<noteq> 0 then Some (-1, st)
             else
               let st = upd_param ''CHAP_C'' (set_offer False chapstring) st
               in add_then ''CHAP_C'' chapstring st (\<lambda>st. Some (2, st)))))"

text \<open>
  The branches of \<^verbatim>\<open>param_parse_security\<close>, one per key, with \<open>param_in\<close> the parameter as it is on
  entry.  \<open>None\<close> is a read outside of a text (see \<^verbatim>\<open>HexTextToData\<close>).
\<close>

definition security_AuthMethod :: "iscsi_param \<Rightarrow> parse_state \<Rightarrow> (int \<times> parse_state) option" where
  "security_AuthMethod param_in st =
    (if p_rx_answer param_in \<and> p_answer_rx param_in = ''None'' then Some (0, st)
     else if p_rx_offer param_in \<and> p_offer_rx param_in = ''None'' then Some (0, st)
     else if \<not> p_rx_offer param_in then
       with_param ''CHAP_A'' st (\<lambda>param.
         let st = upd_param ''CHAP_A'' (set_offer True (p_valid param)) st
         in add_then ''CHAP_A'' (p_valid param) st (\<lambda>st. Some (2, st)))
     else Some (1, st))"

definition security_CHAP_A :: "chap_env \<Rightarrow> iscsi_param \<Rightarrow> parse_state \<Rightarrow> (int \<times> parse_state) option" where
  "security_CHAP_A env param_in st =
    (if p_rx_offer param_in then
       add_then ''CHAP_A'' (p_offer_rx param_in) st
         (send_challenge env ISCSI_CHAP_C_DATA_LENGTH_T True)
     else Some (1, st))"

definition security_CHAP_I :: "iscsi_param \<Rightarrow> parse_state \<Rightarrow> (int \<times> parse_state) option" where
  "security_CHAP_I param_in st =
    (let idData = ucast (driver_atoi (if p_rx_offer param_in then p_offer_rx param_in
                                       else p_answer_rx param_in))
     in Some (2, upd_cookie (ck_idData_update (\<lambda>_. idData)) st))"

text \<open>\<^verbatim>\<open>MD5Init\<close>, three times \<^verbatim>\<open>MD5Update\<close> and \<^verbatim>\<open>MD5Final\<close> in the context just allocated.\<close>

definition chap_digest :: "chap_env \<Rightarrow> byte \<Rightarrow> string \<Rightarrow> byte list \<Rightarrow> byte list" where
  "chap_digest env idData pass challenge =
    md5_of_pieces (e_context env) [[idData], chars_bytes pass, challenge]"

text \<open>The response to a challenge of \<open>len\<close> bytes, and a challenge in return.\<close>

definition security_respond ::
  "chap_env \<Rightarrow> iscsi_param \<Rightarrow> nat \<Rightarrow> parse_state \<Rightarrow> (int \<times> parse_state) option" where
  "security_respond env param_in len st =
    with_param ''CHAP_R'' st (\<lambda>_.
      let pass = (if p_rx_offer param_in then e_InitiatorPass env else e_TargetPass env);
          digest = chap_digest env (ck_idData (cookie st)) pass
                     (take len (ck_chapdata (cookie st)));
          st = upd_cookie (ck_chapdata_update (put_bytes digest)) st;
          (rc, chapstring) = HexDataToText
            (take ISCSI_CHAP_R_DATA_LENGTH (ck_chapdata (cookie st))) [] ISCSI_CHAP_STRING_LENGTH;
          st = upd_param ''CHAP_R'' (set_offer True chapstring) st
      in add_then ''CHAP_R'' chapstring st (\<lambda>st.
           if p_rx_offer param_in \<and> e_TargetUser env \<noteq> [] then
             send_challenge env ISCSI_CHAP_C_DATA_LENGTH_I False st
           else Some (2, st)))"

definition security_CHAP_C :: "chap_env \<Rightarrow> iscsi_param \<Rightarrow> parse_state \<Rightarrow> (int \<times> parse_state) option" where
  "security_CHAP_C env param_in st =
    (case (if p_rx_offer param_in
           then HexTextToData (p_offer_rx param_in) ISCSI_CHAP_C_MAX_DATA_LENGTH
           else HexTextToData (p_answer_rx param_in) ISCSI_CHAP_C_DATA_LENGTH_T) of
       None \<Rightarrow> None
     | Some (chapdata_len, bytes) \<Rightarrow>
         let st = upd_cookie (ck_chapdata_update (put_bytes bytes)) st
         in if chapdata_len \<le> 0 then Some (-1, st)
            else with_param ''CHAP_N'' st (\<lambda>_.
              let user = (if p_rx_offer param_in then e_InitiatorUser env else e_TargetUser env);
                  st = upd_param ''CHAP_N'' (set_offer True user) st
              in add_then ''CHAP_N'' user st (security_respond env param_in (nat chapdata_len))))"

definition security_CHAP_N :: "chap_env \<Rightarrow> iscsi_param \<Rightarrow> parse_state \<Rightarrow> (int \<times> parse_state) option" where
  "security_CHAP_N env param_in st =
    (if p_rx_answer param_in then
       if p_answer_rx param_in \<noteq> e_TargetUser env then Some (-1, st) else Some (2, st)
     else
       if p_offer_rx param_in \<noteq> e_InitiatorUser env then Some (-1, st) else Some (2, st))"

definition security_CHAP_R :: "chap_env \<Rightarrow> iscsi_param \<Rightarrow> parse_state \<Rightarrow> (int \<times> parse_state) option" where
  "security_CHAP_R env param_in st =
    (let idData = ck_idData (cookie st);
         (rc, idtext) = HexDataToText [idData] (p_offer_tx param_in) ISCSI_CHAP_STRING_LENGTH;
         st = upd_param ''CHAP_R'' (p_offer_tx_update (\<lambda>_. idtext)) st;
         pass = (if p_rx_offer param_in then e_InitiatorPass env else e_TargetPass env);
         n = (if p_rx_offer param_in then ISCSI_CHAP_C_DATA_LENGTH_T
              else ISCSI_CHAP_C_DATA_LENGTH_I);
         digest = chap_digest env idData pass (take n (ck_chapdata (cookie st)));
         st = upd_cookie (ck_chapdata_update (put_bytes digest)) st
     in case HexTextToData (if p_rx_offer param_in then p_offer_rx param_in
                            else p_answer_rx param_in) ISCSI_CHAP_R_DATA_LENGTH of
          None \<Rightarrow> None
        | Some (len, bytes) \<Rightarrow>
            let st = upd_cookie (ck_respdata_update (put_bytes bytes)) st;
                (rc, text) = HexDataToText
                  (take ISCSI_CHAP_R_DATA_LENGTH (ck_chapdata (cookie st)))
                  (p_offer_rx param_in) ISCSI_CHAP_STRING_LENGTH;
                st = upd_param ''CHAP_R'' (p_offer_rx_update (\<lambda>_. text)) st
            in if take ISCSI_CHAP_R_DATA_LENGTH (ck_respdata (cookie st)) \<noteq>
                  take ISCSI_CHAP_R_DATA_LENGTH (ck_chapdata (cookie st))
               then Some (-1, st)
               else Some (0, st))"

definition with_cookie :: "chap_env \<Rightarrow> parse_state \<Rightarrow> parse_state" where
  "with_cookie env st =
    (case s_cookie st of None \<Rightarrow> st\<lparr>s_cookie := Some (e_fresh env)\<rparr> | Some _ \<Rightarrow> st)"

definition param_parse_security :: "chap_env \<Rightarrow> string \<Rightarrow> parse_state \<Rightarrow> (int \<times> parse_state) option" where
  "param_parse_security env key st =
    (let st = with_cookie env st
     in with_param key st (\<lambda>param_in.
      if key = ''AuthMethod'' then security_AuthMethod param_in st
      else if key = ''CHAP_A'' then security_CHAP_A env param_in st
      else if key = ''CHAP_I'' then security_CHAP_I param_in st
      else if key = ''CHAP_C'' then security_CHAP_C env param_in st
      else if key = ''CHAP_N'' then security_CHAP_N env param_in st
      else if key = ''CHAP_R'' then security_CHAP_R env param_in st
      else Some (1, st)))"

subsection \<open>Answers and negotiated values\<close>

text \<open>The smaller of two numbers, with 0 for \<open>no limit\<close> in the type \<open>NUMERICAL_Z\<close> (signed comparison).\<close>

definition numeric_answer :: "bool \<Rightarrow> c_int \<Rightarrow> c_int \<Rightarrow> c_int" where
  "numeric_answer z offer_i max_i =
    (if z then
       if max_i = 0 then offer_i
       else if offer_i = 0 then max_i
       else if sint offer_i > sint max_i then max_i
       else offer_i
     else if sint offer_i > sint max_i then max_i
     else offer_i)"

definition numeric_negotiated :: "bool \<Rightarrow> c_int \<Rightarrow> c_int \<Rightarrow> c_int" where
  "numeric_negotiated z val1_i val2_i =
    (if z then
       if val1_i = 0 then val2_i
       else if val2_i = 0 then val1_i
       else if sint val1_i > sint val2_i then val2_i
       else val1_i
     else if sint val1_i > sint val2_i then val2_i
     else val1_i)"

text \<open>The loops over the offers and over the valid values: the first offer that is valid.\<close>

fun list_answer :: "string \<Rightarrow> string list \<Rightarrow> string" where
  "list_answer valid [] = ''Reject''"
| "list_answer valid (offer # offers) =
    (if valid \<noteq> [] then
       if offer \<in> set (comma_split valid) then offer else list_answer valid offers
     else offer)"

definition is_yes :: "string \<Rightarrow> bool" where
  "is_yes v \<longleftrightarrow> v = ''yes'' \<or> v = ''Yes''"

text \<open>The answer to an offer, if the type has one.\<close>

definition param_answer :: "iscsi_param \<Rightarrow> string \<Rightarrow> string option" where
  "param_answer p value =
    (if value = ''?'' then
       Some (case p_value_l p of [] \<Rightarrow> [] | v # _ \<Rightarrow> v)
     else case p_type p of
       BINARY_AND \<Rightarrow> Some (if value \<notin> {''yes'', ''no'', ''Yes'', ''No''} then ''Reject''
                      else if CHR '','' \<in> set (p_valid p) then value else p_valid p)
     | BINARY_OR \<Rightarrow> Some (if value \<notin> {''yes'', ''no'', ''Yes'', ''No''} then ''Reject''
                      else if CHR '','' \<in> set (p_valid p) then value else p_valid p)
     | LIST \<Rightarrow> Some (list_answer (p_valid p) (comma_split (p_offer_rx p)))
     | NUMERICAL_Z \<Rightarrow> Some (int_dec (sint (numeric_answer True
                        (iscsi_atoi (Some (p_offer_rx p))) (iscsi_atoi (Some (p_valid p))))))
     | NUMERICAL \<Rightarrow> Some (int_dec (sint (numeric_answer False
                        (iscsi_atoi (Some (p_offer_rx p))) (iscsi_atoi (Some (p_valid p))))))
     | _ \<Rightarrow> None)"

text \<open>
  What \<open>negotiate\<close> makes of the offer and the answer: the value, or the code with which the whole
  parse ends.
\<close>

definition param_negotiate :: "bool \<Rightarrow> iscsi_param \<Rightarrow> int + string" where
  "param_negotiate outgoing p =
    (let val1 = (if outgoing then p_offer_rx p else p_answer_rx p);
         val2 = (if outgoing then p_answer_tx p else p_offer_tx p);
         declared = (if outgoing then p_offer_tx p
                     else if p_rx_offer p then p_offer_rx p else p_answer_rx p);
         bad_binary = (\<not> outgoing \<and> val1 \<notin> {''Yes'', ''No'', ''yes'', ''no'', ''Irrelevant''})
     in case p_type p of
       DECLARE_MULTI \<Rightarrow> Inr declared
     | DECLARATIVE \<Rightarrow> Inr declared
     | BINARY_AND \<Rightarrow> if bad_binary then Inl 0
                     else Inr (if is_yes val1 \<and> is_yes val2 then ''Yes'' else ''No'')
     | BINARY_OR \<Rightarrow> if bad_binary then Inl 0
                    else Inr (if is_yes val1 \<or> is_yes val2 then ''Yes'' else ''No'')
     | NUMERICAL_Z \<Rightarrow> Inr (int_dec (sint (numeric_negotiated True
                        (iscsi_atoi (Some val1)) (iscsi_atoi (Some val2)))))
     | NUMERICAL \<Rightarrow> Inr (int_dec (sint (numeric_negotiated False
                        (iscsi_atoi (Some val1)) (iscsi_atoi (Some val2)))))
     | LIST \<Rightarrow>
         if outgoing \<and> (p_tx_offer p \<or> \<not> p_tx_answer p) then Inl (-1)
         else if \<not> outgoing \<and> (p_rx_offer p \<or> \<not> p_rx_answer p) then Inl (-1)
         else
           let val1 = (if outgoing then p_answer_tx p else p_answer_rx p)
           in if val1 \<in> {''None'', ''Reject'', ''Irrelevant'', ''NotUnderstood''} then Inr val1
              else if p_valid p = [] then Inl (-1)
              else if val1 \<in> set (comma_split (p_valid p)) then Inr val1
              else Inl (-1)
     | UNKNOWN_TYPE _ \<Rightarrow> Inr (p_negotiated p))"

text \<open>Inquiries (\<open>key=?\<close>) are not committed.\<close>

definition is_inquiry :: "iscsi_param \<Rightarrow> bool" where
  "is_inquiry p \<longleftrightarrow>
     p_tx_offer p \<and> p_offer_tx p = ''?'' \<or> p_rx_offer p \<and> p_offer_rx p = ''?'' \<or>
     p_tx_answer p \<and> p_offer_rx p = ''?'' \<or> p_rx_answer p \<and> p_offer_tx p = ''?''"

text \<open>
  The slot of the value list a value is stored in: for \<open>DECLARE_MULTI\<close> the first empty one, or the
  last one if there is none.
\<close>

fun multi_store :: "string \<Rightarrow> string list \<Rightarrow> string list" where
  "multi_store v [] = [v]"
| "multi_store v [x] = [v]"
| "multi_store v (x # y # ys) = (if x = [] then v # y # ys else x # multi_store v (y # ys))"

definition param_commit :: "iscsi_param \<Rightarrow> iscsi_param" where
  "param_commit p =
    (let p = (if p_reset p then p\<lparr>p_value_l := [], p_reset := False\<rparr> else p);
         values = (if p_value_l p \<noteq> [] then
                     if p_type p = DECLARE_MULTI then multi_store (p_negotiated p) (p_value_l p)
                     else p_negotiated p # tl (p_value_l p)
                   else [p_negotiated p])
     in p\<lparr>p_value_l := values\<rparr>)"

subsection \<open>Parsing\<close>

text \<open>
  What handling one token leads to: the next token, with the contents of the buffers \<open>key\<close> and
  \<open>value\<close>; the end of the parse with a return code; or undefined behaviour.
\<close>

datatype parse_step = Next parse_state string "string option" | Stop int parse_state | Undefined

definition text_add_next ::
  "string \<Rightarrow> string \<Rightarrow> parse_state \<Rightarrow> string \<Rightarrow> string option \<Rightarrow> parse_step" where
  "text_add_next k v st key value =
    (case param_text_add k v (s_out st) of
       (rc, out) \<Rightarrow> if rc \<noteq> 0 then Stop (-1) st else Next (st\<lparr>s_out := out\<rparr>) key value)"

text \<open>From the label \<open>negotiate\<close> to the end of the loop body.\<close>

definition negotiate_step :: "bool \<Rightarrow> parse_state \<Rightarrow> string \<Rightarrow> string \<Rightarrow> parse_step" where
  "negotiate_step outgoing st key value =
    (case param_get (s_params st) key of
       None \<Rightarrow> Undefined
     | Some p \<Rightarrow>
         (case param_negotiate outgoing p of
           Inl rc \<Rightarrow> Stop rc st
         | Inr v \<Rightarrow>
             let p = p\<lparr>p_negotiated := v\<rparr>
             in if is_inquiry p then Next (upd_param key (\<lambda>_. p) st) key (Some value)
                else Next (upd_param key (\<lambda>_. param_commit p) st) key (Some value)))"

text \<open>From the label \<open>answer\<close>.\<close>

definition answer_step :: "parse_state \<Rightarrow> string \<Rightarrow> string \<Rightarrow> parse_step" where
  "answer_step st key value =
    (case param_get (s_params st) key of
       None \<Rightarrow> Undefined
     | Some p \<Rightarrow>
         (case param_answer p value of
           None \<Rightarrow> Next st key (Some value)
         | Some a \<Rightarrow>
             text_add_next key a (upd_param key (p_answer_tx_update (\<lambda>_. a)) st) key (Some value)))"

definition declarative :: "iscsi_param \<Rightarrow> bool" where
  "declarative p \<longleftrightarrow> p_type p = DECLARATIVE \<or> p_type p = DECLARE_MULTI"

text \<open>\<^verbatim>\<open>strcpy(auth_result->value_l->value, v)\<close>\<close>

definition set_auth_result :: "string \<Rightarrow> parse_state \<Rightarrow> parse_state option" where
  "set_auth_result v st =
    (case param_get (s_params st) ''AuthResult'' of
       None \<Rightarrow> Some st
     | Some p \<Rightarrow>
         if p_value_l p = [] then None
         else Some (upd_param ''AuthResult'' (\<lambda>p. p\<lparr>p_value_l := v # tl (p_value_l p)\<rparr>) st))"

text \<open>Sending or receiving an offer or an answer for the parameter \<open>p\<close> with the key \<open>key\<close>.\<close>

definition outgoing_step :: "parse_state \<Rightarrow> string \<Rightarrow> string \<Rightarrow> iscsi_param \<Rightarrow> parse_step" where
  "outgoing_step st key value p =
    (if p_rx_offer p then
       negotiate_step True
         (upd_param key (\<lambda>p. p\<lparr>p_tx_answer := True, p_answer_tx := value\<rparr>) st) key value
     else
       let st = upd_param key (\<lambda>p. p\<lparr>p_tx_offer := True, p_rx_offer := False, p_offer_tx := value\<rparr>) st
       in if declarative p then negotiate_step True st key value
          else Next st key (Some value))"

definition incoming_step :: "chap_env \<Rightarrow> parse_state \<Rightarrow> string \<Rightarrow> string \<Rightarrow> iscsi_param \<Rightarrow> parse_step" where
  "incoming_step env st key value p =
    (if p_tx_offer p then
       let st = upd_param key (\<lambda>p. p\<lparr>p_rx_answer := True, p_tx_offer := False, p_answer_rx := value\<rparr>) st
       in (case param_parse_security env key st of
             None \<Rightarrow> Undefined
           | Some (ret, st) \<Rightarrow>
               if ret < 0 then Stop (-2) st else negotiate_step False st key value)
     else
       let st = upd_param key (\<lambda>p. p\<lparr>p_rx_offer := True, p_offer_rx := value\<rparr>) st
       in (case param_parse_security env key st of
             None \<Rightarrow> Undefined
           | Some (ret, st) \<Rightarrow>
               if ret > 1 then Next st key (Some value)
               else if ret < 0 then
                 (case set_auth_result ''Fail'' st of None \<Rightarrow> Undefined | Some st \<Rightarrow> Stop (-2) st)
               else
                 (case (if ret = 0 then set_auth_result ''Yes'' st else Some st) of
                    None \<Rightarrow> Undefined
                  | Some st \<Rightarrow>
                      (case param_get (s_params st) key of
                         None \<Rightarrow> Undefined
                       | Some p \<Rightarrow>
                           if p_offer_rx p \<noteq> ''?'' \<and> declarative p
                           then negotiate_step False st key value
                           else answer_step st key value))))"

text \<open>
  The lookup of the key.  An entry without \<open>=\<close> leaves \<open>key\<close> and \<open>value\<close> as the previous entry set
  them; before the first entry \<open>value\<close> is NULL.  A value as long as the buffer overruns it.
\<close>

definition lookup_step ::
  "chap_env \<Rightarrow> bool \<Rightarrow> parse_state \<Rightarrow> string \<Rightarrow> string option \<Rightarrow> parse_step" where
  "lookup_step env outgoing st key value =
    (case param_get (s_params st) key of
       None \<Rightarrow>
         if \<not> outgoing then text_add_next key ''NotUnderstood'' st key value
         else Next st key value
     | Some p \<Rightarrow>
         (case value of
           None \<Rightarrow> Undefined
         | Some v \<Rightarrow>
             if ISCSI_PARAM_MAX_LEN < length v then Stop (-1) st
             else if ISCSI_PARAM_MAX_LEN = length v then Undefined
             else if outgoing then outgoing_step st key v p
             else incoming_step env st key v p))"

definition token_step ::
  "chap_env \<Rightarrow> bool \<Rightarrow> parse_state \<Rightarrow> string \<Rightarrow> string option \<Rightarrow> string \<Rightarrow> parse_step" where
  "token_step env outgoing st key value tok =
    (case split_token tok of
       Some (k, v) \<Rightarrow>
         if ISCSI_PARAM_KEY_LEN - 1 \<le> length k then
           if \<not> outgoing then text_add_next k ''NotUnderstood'' st key value
           else Next st key value
         else lookup_step env outgoing st k (Some v)
     | None \<Rightarrow> lookup_step env outgoing st key value)"

fun parse_tokens ::
  "chap_env \<Rightarrow> bool \<Rightarrow> string list \<Rightarrow> parse_state \<Rightarrow> string \<Rightarrow> string option \<Rightarrow>
   (int \<times> parse_state) option" where
  "parse_tokens env outgoing [] st key value = Some (0, st)"
| "parse_tokens env outgoing (tok # toks) st key value =
    (case token_step env outgoing st key value tok of
       Next st key value \<Rightarrow> parse_tokens env outgoing toks st key value
     | Stop rc st \<Rightarrow> Some (rc, st)
     | Undefined \<Rightarrow> None)"

text \<open>
  \<open>key0\<close> is what the freshly allocated key buffer holds.  The result is the return code and the
  state with the outgoing text, or \<open>None\<close> where the C code's behaviour is undefined.
\<close>

definition param_text_parse ::
  "chap_env \<Rightarrow> string \<Rightarrow> bool \<Rightarrow> string \<Rightarrow> parse_state \<Rightarrow> (int \<times> parse_state) option" where
  "param_text_parse env key0 outgoing text_in st =
    (if \<not> param_text_print_ok (text_tokens text_in) then None
     else
       let st = (if outgoing then st else st\<lparr>s_out := []\<rparr>)
       in parse_tokens env outgoing (text_tokens text_in) st key0 None)"

subsection \<open>Lookup\<close>

lemma param_get_key: "param_get ps key = Some p \<Longrightarrow> p_key p = key"
  by (induction ps key rule: param_get.induct) (auto split: if_splits)

lemma param_get_mem: "param_get ps key = Some p \<Longrightarrow> p \<in> set ps"
  by (induction ps key rule: param_get.induct) (auto split: if_splits)

lemma param_get_upd:
  assumes "\<And>p. p_key (f p) = p_key p"
  shows "param_get (param_upd key f ps) key' =
    (if key' = key then map_option f (param_get ps key) else param_get ps key')"
  using assms by (induction ps) auto

lemma param_get_upd_same [simp]:
  "param_get ps key = Some p \<Longrightarrow> p_key (f p) = key \<Longrightarrow> param_get (param_upd key f ps) key = Some (f p)"
  by (induction ps) (auto split: if_splits)

lemma param_upd_mem:
  "q \<in> set (param_upd key f ps) \<Longrightarrow> q \<in> set ps \<or> (\<exists>p. param_get ps key = Some p \<and> q = f p)"
  by (induction ps) (auto split: if_splits)

lemma map_param_upd:
  "(\<And>p. param_get ps key = Some p \<Longrightarrow> c (f p) = c p) \<Longrightarrow> map c (param_upd key f ps) = map c ps"
  by (induction ps) (auto split: if_splits)

text \<open>The part of a parameter that the exchange of texts never changes, and the part it may commit.\<close>

definition p_fixed :: "iscsi_param \<Rightarrow> string \<times> param_type \<times> string \<times> string" where
  "p_fixed p = (p_key p, p_type p, p_valid p, p_dflt p)"

definition p_core :: "iscsi_param \<Rightarrow> (string \<times> param_type \<times> string \<times> string) \<times> string list" where
  "p_core p = (p_fixed p, p_value_l p)"

subsection \<open>The security step changes no value\<close>

definition extends :: "parse_state \<Rightarrow> parse_state \<Rightarrow> bool" where
  "extends st st' \<longleftrightarrow> map p_core (s_params st') = map p_core (s_params st) \<and>
     (length (s_out st) \<le> ISCSI_PARAM_MAX_TEXT_LEN \<longrightarrow> length (s_out st') \<le> ISCSI_PARAM_MAX_TEXT_LEN)"

lemma extends_refl [simp]: "extends st st"
  by (simp add: extends_def)

lemma extends_trans: "extends st st' \<Longrightarrow> extends st' st'' \<Longrightarrow> extends st st''"
  by (simp add: extends_def)

lemma extends_simps [simp]:
  "extends st0 (upd_cookie f st) = extends st0 st" "extends st0 (st\<lparr>s_rnd := n\<rparr>) = extends st0 st"
  "extends st0 (st\<lparr>s_cookie := c\<rparr>) = extends st0 st"
  by (simp_all add: extends_def upd_cookie_def)

lemma extends_upd:
  "(\<And>p. p_core (f p) = p_core p) \<Longrightarrow> extends st0 (upd_param key f st) = extends st0 st"
  by (simp add: extends_def upd_param_def map_param_upd)

lemma p_core_set_offer [simp]: "p_core (set_offer tx v p) = p_core p"
  by (simp add: p_core_def p_fixed_def set_offer_def)

lemma p_core_updates [simp]:
  "p_core (p_offer_tx_update f p) = p_core p" "p_core (p_offer_rx_update f p) = p_core p"
  "p_core (p_answer_tx_update f p) = p_core p" "p_core (p_answer_rx_update f p) = p_core p"
  "p_core (p_rx_answer_update g p) = p_core p" "p_core (p_tx_answer_update g p) = p_core p"
  "p_core (p_rx_offer_update g p) = p_core p" "p_core (p_tx_offer_update g p) = p_core p"
  "p_core (p_negotiated_update f p) = p_core p"
  by (simp_all add: p_core_def p_fixed_def)

lemma param_text_add_bound:
  "param_text_add k v out = (rc, out') \<Longrightarrow> length out \<le> ISCSI_PARAM_MAX_TEXT_LEN \<Longrightarrow>
   length out' \<le> ISCSI_PARAM_MAX_TEXT_LEN"
  by (auto simp: param_text_add_def split: if_splits)

definition result_extends :: "parse_state \<Rightarrow> (int \<times> parse_state) option \<Rightarrow> bool" where
  "result_extends st0 r \<longleftrightarrow> (\<forall>rc st. r = Some (rc, st) \<longrightarrow> extends st0 st)"

lemma result_extends_simps [simp]:
  "result_extends st0 None" "result_extends st0 (Some (rc, st)) = extends st0 st"
  by (auto simp: result_extends_def)

lemma add_then_extends [intro!]:
  assumes "extends st0 st" "\<And>st'. extends st0 st' \<Longrightarrow> result_extends st0 (k st')"
  shows "result_extends st0 (add_then key v st k)"
proof -
  obtain rc out where 1: "param_text_add key v (s_out st) = (rc, out)" by fastforce
  have "extends st0 (st\<lparr>s_out := out\<rparr>)"
    using assms(1) param_text_add_bound [OF 1] by (auto simp: extends_def)
  then show ?thesis using assms 1 by (simp add: add_then_def)
qed

lemma with_param_extends [intro!]:
  assumes "extends st0 st" "\<And>p. result_extends st0 (k p)"
  shows "result_extends st0 (with_param key st k)"
  using assms by (simp add: with_param_def split: option.splits)

lemma send_challenge_extends:
  "extends st0 st \<Longrightarrow> result_extends st0 (send_challenge env n check st)"
  unfolding send_challenge_def Let_def
  by (intro with_param_extends add_then_extends)
    (auto simp: extends_upd split: prod.splits intro!: add_then_extends)

lemma security_respond_extends:
  "extends st0 st \<Longrightarrow> result_extends st0 (security_respond env p len st)"
  unfolding security_respond_def Let_def
  by (intro with_param_extends)
    (auto simp: extends_upd send_challenge_extends split: prod.splits intro!: add_then_extends)

lemma security_AuthMethod_extends:
  "extends st0 st \<Longrightarrow> result_extends st0 (security_AuthMethod p st)"
  unfolding security_AuthMethod_def Let_def
  by (auto simp: extends_upd)

lemma security_CHAP_A_extends:
  "extends st0 st \<Longrightarrow> result_extends st0 (security_CHAP_A env p st)"
  unfolding security_CHAP_A_def by (auto simp: send_challenge_extends)

lemma security_CHAP_C_extends:
  "extends st0 st \<Longrightarrow> result_extends st0 (security_CHAP_C env p st)"
  unfolding security_CHAP_C_def Let_def
  by (auto simp: extends_upd security_respond_extends split: option.splits prod.splits
      intro!: with_param_extends add_then_extends)

lemma security_CHAP_R_extends:
  "extends st0 st \<Longrightarrow> result_extends st0 (security_CHAP_R env p st)"
  unfolding security_CHAP_R_def Let_def
  by (auto simp: extends_upd split: option.splits prod.splits)

lemma with_cookie_extends: "extends st (with_cookie env st)"
  by (simp add: with_cookie_def split: option.splits)

lemma security_extends: "result_extends st (param_parse_security env key st)"
  unfolding param_parse_security_def Let_def
  by (rule with_param_extends [OF with_cookie_extends])
    (simp add: with_cookie_extends security_AuthMethod_extends security_CHAP_A_extends
      security_CHAP_I_def security_CHAP_C_extends security_CHAP_N_def security_CHAP_R_extends Let_def)

subsection \<open>Values stay valid\<close>

definition special_answers :: "string set" where
  "special_answers = {''None'', ''Reject'', ''Irrelevant'', ''NotUnderstood''}"

fun value_ok :: "string \<times> param_type \<times> string \<times> string \<Rightarrow> string \<Rightarrow> bool" where
  "value_ok (key, LIST, valid, dflt) v \<longleftrightarrow> v \<in> set (comma_split valid) \<or> v \<in> special_answers"
| "value_ok (key, BINARY_OR, valid, dflt) v \<longleftrightarrow> v \<in> {''Yes'', ''No''}"
| "value_ok (key, BINARY_AND, valid, dflt) v \<longleftrightarrow> v \<in> {''Yes'', ''No''}"
| "value_ok (key, NUMERICAL, valid, dflt) v \<longleftrightarrow> v = int_dec (sint (iscsi_atoi (Some v)))"
| "value_ok (key, NUMERICAL_Z, valid, dflt) v \<longleftrightarrow> v = int_dec (sint (iscsi_atoi (Some v)))"
| "value_ok (key, _, valid, dflt) v \<longleftrightarrow> True"

definition core_ok :: "(string \<times> param_type \<times> string \<times> string) \<times> string list \<Rightarrow> bool" where
  "core_ok c \<longleftrightarrow> (\<forall>v\<in>set (snd c). value_ok (fst c) v) \<and>
     (fst (fst c) = ''AuthResult'' \<longrightarrow> value_ok (fst c) ''Yes'' \<and> value_ok (fst c) ''Fail'')"

definition params_ok :: "iscsi_param list \<Rightarrow> bool" where
  "params_ok ps \<longleftrightarrow> (\<forall>c\<in>set (map p_core ps). core_ok c)"

text \<open>Values valid, text within its bound, and the fixed parts of the parameters as in \<open>fs\<close>.\<close>

definition parse_inv :: "(string \<times> param_type \<times> string \<times> string) list \<Rightarrow> parse_state \<Rightarrow> bool" where
  "parse_inv fs st \<longleftrightarrow> params_ok (s_params st) \<and> map p_fixed (s_params st) = fs \<and>
     length (s_out st) \<le> ISCSI_PARAM_MAX_TEXT_LEN"

lemma extends_inv: "extends st st' \<Longrightarrow> parse_inv fs st \<Longrightarrow> parse_inv fs st'"
proof -
  assume e: "extends st st'" and i: "parse_inv fs st"
  have fixed: "map p_fixed ps = map fst (map p_core ps)" for ps
    by (simp add: p_core_def)
  show ?thesis
    using e i unfolding extends_def parse_inv_def params_ok_def fixed by simp
qed

lemma security_inv:
  "parse_inv fs st \<Longrightarrow> param_parse_security env key st = Some (ret, st') \<Longrightarrow> parse_inv fs st'"
  using security_extends [of st env key] extends_inv by (auto simp: result_extends_def)

lemma inv_upd_core:
  "(\<And>p. p_core (f p) = p_core p) \<Longrightarrow> parse_inv fs st \<Longrightarrow> parse_inv fs (upd_param key f st)"
  using extends_inv [of st "upd_param key f st"] by (simp add: extends_upd)

text \<open>Storing new values for the first parameter with the key.\<close>

lemma inv_upd_values:
  assumes inv: "parse_inv fs st" and get: "param_get (s_params st) key = Some p"
    and f: "p_fixed (f p) = p_fixed p" "\<forall>v\<in>set (p_value_l (f p)). value_ok (p_fixed p) v"
  shows "parse_inv fs (upd_param key f st)"
proof -
  have "core_ok (p_core p)"
    using inv param_get_mem [OF get] by (auto simp: parse_inv_def params_ok_def)
  then have "core_ok (p_core (f p))" using f by (auto simp: core_ok_def p_core_def)
  then have "params_ok (param_upd key f (s_params st))"
    using inv get unfolding params_ok_def parse_inv_def
    by (fastforce dest: param_upd_mem)
  moreover have "map p_fixed (param_upd key f (s_params st)) = map p_fixed (s_params st)"
    using get f(1) by (intro map_param_upd) simp
  ultimately show ?thesis using inv by (simp add: parse_inv_def upd_param_def)
qed

lemma negotiate_value_ok:
  assumes "param_negotiate outgoing p = Inr v"
  shows "value_ok (p_fixed p) v"
  using assms
  by (cases "p_type p")
    (auto simp: param_negotiate_def p_fixed_def Let_def special_answers_def iscsi_atoi_def
      split: if_splits)

lemma p_fixed_commit [simp]: "p_fixed (param_commit p) = p_fixed p"
  by (simp add: param_commit_def p_fixed_def Let_def)

lemma p_fixed_negotiated [simp]: "p_fixed (p\<lparr>p_negotiated := v\<rparr>) = p_fixed p"
  by (simp add: p_fixed_def)

lemma multi_store_set: "set (multi_store v xs) \<subseteq> insert v (set xs)"
  by (induction v xs rule: multi_store.induct) auto

lemma commit_values: "set (p_value_l (param_commit p)) \<subseteq> insert (p_negotiated p) (set (p_value_l p))"
  using multi_store_set [of "p_negotiated p" "p_value_l p"]
  by (auto simp: param_commit_def Let_def dest: list.set_sel(2) split: if_splits)

definition step_inv :: "(string \<times> param_type \<times> string \<times> string) list \<Rightarrow> parse_step \<Rightarrow> bool" where
  "step_inv fs r \<longleftrightarrow> (case r of Next st _ _ \<Rightarrow> parse_inv fs st | Stop _ st \<Rightarrow> parse_inv fs st
     | Undefined \<Rightarrow> True)"

lemma step_inv_simps [simp]:
  "step_inv fs (Next st k v) = parse_inv fs st" "step_inv fs (Stop rc st) = parse_inv fs st"
  "step_inv fs Undefined"
  by (simp_all add: step_inv_def)

lemma text_add_next_inv: "parse_inv fs st \<Longrightarrow> step_inv fs (text_add_next k v st key value)"
  unfolding text_add_next_def
  by (auto simp: parse_inv_def split: prod.splits dest: param_text_add_bound)

lemma get_values_ok:
  "parse_inv fs st \<Longrightarrow> param_get (s_params st) key = Some p \<Longrightarrow> v \<in> set (p_value_l p) \<Longrightarrow>
   value_ok (p_fixed p) v"
  using param_get_mem by (fastforce simp: parse_inv_def params_ok_def core_ok_def p_core_def)

lemma negotiate_step_inv:
  assumes inv: "parse_inv fs st"
  shows "step_inv fs (negotiate_step outgoing st key value)"
proof (cases "param_get (s_params st) key")
  case None
  then show ?thesis by (simp add: negotiate_step_def)
next
  case (Some p)
  show ?thesis
  proof (cases "param_negotiate outgoing p")
    case (Inl rc)
    then show ?thesis using Some inv by (simp add: negotiate_step_def)
  next
    case (Inr v)
    define p' where "p' = p\<lparr>p_negotiated := v\<rparr>"
    have "\<forall>w\<in>set (p_value_l p). value_ok (p_fixed p) w" using get_values_ok [OF inv Some] by blast
    moreover have "value_ok (p_fixed p) v" using negotiate_value_ok [OF Inr] .
    ultimately have "\<forall>w\<in>set (p_value_l (param_commit p')). value_ok (p_fixed p) w"
      using commit_values [of p'] by (auto simp: p'_def)
    then have "parse_inv fs (upd_param key (\<lambda>_. param_commit p') st)"
      using inv_upd_values [OF inv Some, of "\<lambda>_. param_commit p'"] by (simp add: p'_def)
    moreover have "parse_inv fs (upd_param key (\<lambda>_. p') st)"
      using inv_upd_values [OF inv Some, of "\<lambda>_. p'"] get_values_ok [OF inv Some] by (simp add: p'_def)
    ultimately show ?thesis using Some Inr by (simp add: negotiate_step_def p'_def [symmetric])
  qed
qed

lemma answer_step_inv: "parse_inv fs st \<Longrightarrow> step_inv fs (answer_step st key value)"
  unfolding answer_step_def
  by (auto split: option.splits intro!: text_add_next_inv inv_upd_core)

lemma auth_result_inv:
  assumes inv: "parse_inv fs st" and v: "v = ''Yes'' \<or> v = ''Fail''"
    and set: "set_auth_result v st = Some st'"
  shows "parse_inv fs st'"
proof (cases "param_get (s_params st) ''AuthResult''")
  case None
  then show ?thesis using inv set by (simp add: set_auth_result_def)
next
  case (Some p)
  have "core_ok (p_core p)"
    using inv param_get_mem [OF Some] by (auto simp: parse_inv_def params_ok_def)
  moreover have "p_key p = ''AuthResult''" using param_get_key [OF Some] .
  ultimately have "value_ok (p_fixed p) v" using v by (auto simp: core_ok_def p_core_def p_fixed_def)
  moreover have "\<forall>w\<in>set (p_value_l p). value_ok (p_fixed p) w" using get_values_ok [OF inv Some] by blast
  moreover have "st' = upd_param ''AuthResult'' (\<lambda>p. p\<lparr>p_value_l := v # tl (p_value_l p)\<rparr>) st"
    using Some set by (simp add: set_auth_result_def split: if_splits)
  ultimately show ?thesis
    using inv_upd_values [OF inv Some, of "\<lambda>p. p\<lparr>p_value_l := v # tl (p_value_l p)\<rparr>"]
    by (auto simp: p_fixed_def dest: list.set_sel(2) split: list.splits)
      (metis list.set_sel(2) tl_Nil)
qed

lemma outgoing_step_inv: "parse_inv fs st \<Longrightarrow> step_inv fs (outgoing_step st key value p)"
  unfolding outgoing_step_def Let_def
  by (auto intro!: negotiate_step_inv inv_upd_core)

lemma incoming_step_inv:
  assumes inv: "parse_inv fs st"
  shows "step_inv fs (incoming_step env st key value p)"
proof (cases "p_tx_offer p")
  case True
  let ?st = "upd_param key (\<lambda>p. p\<lparr>p_rx_answer := True, p_tx_offer := False, p_answer_rx := value\<rparr>) st"
  have "parse_inv fs ?st" using inv by (intro inv_upd_core) simp_all
  then show ?thesis
    using True security_inv
    by (auto simp: incoming_step_def Let_def split: option.splits intro!: negotiate_step_inv)
next
  case False
  let ?st = "upd_param key (\<lambda>p. p\<lparr>p_rx_offer := True, p_offer_rx := value\<rparr>) st"
  have i: "parse_inv fs ?st" using inv by (intro inv_upd_core) simp_all
  show ?thesis
  proof (cases "param_parse_security env key ?st")
    case None
    then show ?thesis using False by (simp add: incoming_step_def Let_def)
  next
    case (Some r)
    obtain ret st1 where r: "r = (ret, st1)" by fastforce
    have i1: "parse_inv fs st1" using security_inv [OF i] Some r by blast
    have yes: "set_auth_result ''Yes'' st1 = Some st2 \<Longrightarrow> parse_inv fs st2" for st2
      using auth_result_inv [OF i1] by blast
    have fail: "set_auth_result ''Fail'' st1 = Some st2 \<Longrightarrow> parse_inv fs st2" for st2
      using auth_result_inv [OF i1] by blast
    consider "ret > 1" | "ret < 0" | "ret = 0" | "ret = 1" by linarith
    then show ?thesis
    proof cases
      case 1
      then show ?thesis using False Some r i1 by (simp add: incoming_step_def)
    next
      case 2
      then show ?thesis
        using False Some r fail by (auto simp: incoming_step_def split: option.splits)
    next
      case 3
      then show ?thesis
        using False Some r yes
        by (auto simp: incoming_step_def negotiate_step_inv answer_step_inv split: option.splits)
    next
      case 4
      then show ?thesis
        using False Some r i1
        by (auto simp: incoming_step_def negotiate_step_inv answer_step_inv split: option.splits)
    qed
  qed
qed

lemma token_step_inv: "parse_inv fs st \<Longrightarrow> step_inv fs (token_step env outgoing st key value tok)"
  unfolding token_step_def lookup_step_def
  by (auto split: option.splits intro!: text_add_next_inv outgoing_step_inv incoming_step_inv)

lemma parse_tokens_inv:
  "parse_inv fs st \<Longrightarrow> parse_tokens env outgoing toks st key value = Some (rc, st') \<Longrightarrow> parse_inv fs st'"
proof (induction env outgoing toks st key "value" rule: parse_tokens.induct)
  case (2 env outgoing tok toks st key val)
  then show ?case
    using token_step_inv [OF 2(2), of env outgoing key val tok]
    by (auto split: parse_step.splits)
qed simp

lemma param_text_parse_inv:
  "parse_inv fs st \<Longrightarrow> param_text_parse env key0 outgoing text st = Some (rc, st') \<Longrightarrow> parse_inv fs st'"
proof -
  assume inv: "parse_inv fs st" and p: "param_text_parse env key0 outgoing text st = Some (rc, st')"
  let ?st = "if outgoing then st else st\<lparr>s_out := []\<rparr>"
  have "parse_inv fs ?st" using inv by (simp add: parse_inv_def)
  moreover have "parse_tokens env outgoing (text_tokens text) ?st key0 None = Some (rc, st')"
    using p by (simp add: param_text_parse_def Let_def del: text_tokens.simps split: if_splits)
  ultimately show "parse_inv fs st'" by (rule parse_tokens_inv)
qed

end
