(* ===== verification/Negotiation.thy ===== *)
theory Negotiation
  imports Parameters
begin

section \<open>What a negotiation leads to\<close>

text \<open>
  The answer rules of \<^verbatim>\<open>param_text_parse\<close> against their specification, the exchange of one parameter
  between two ends, and the CHAP exchange.
\<close>

subsection \<open>Numbers\<close>

text \<open>The order in which 0 is above every other number: \<open>no limit\<close>.\<close>

definition within :: "bool \<Rightarrow> c_int \<Rightarrow> c_int \<Rightarrow> bool" where
  "within z a b \<longleftrightarrow> (if z then b = 0 \<or> (a \<noteq> 0 \<and> sint a \<le> sint b) else sint a \<le> sint b)"

lemma sint_eq_iff: "sint a = sint b \<longleftrightarrow> a = b" for a b :: c_int
  by (auto intro: signed_word_eqI)

lemma sint_0_iff: "sint a = 0 \<longleftrightarrow> a = 0" for a :: c_int
  using sint_eq_iff [of a 0] by simp

lemma within_refl: "within z a a"
  by (simp add: within_def)

lemma within_antisym: "within z a b \<Longrightarrow> within z b a \<Longrightarrow> a = b"
  by (auto simp: within_def sint_eq_iff split: if_splits dest!: order_antisym)

text \<open>The answer to a number is the greatest one within both limits.\<close>

lemma numeric_answer_glb:
  "within z (numeric_answer z a b) a" "within z (numeric_answer z a b) b"
  "within z c a \<Longrightarrow> within z c b \<Longrightarrow> within z c (numeric_answer z a b)"
  by (auto simp: within_def numeric_answer_def split: if_splits)

lemma numeric_negotiated_comm: "numeric_negotiated z a b = numeric_negotiated z b a"
  by (auto simp: numeric_negotiated_def sint_eq_iff sint_0_iff not_less)

lemma numeric_negotiated_answer:
  "numeric_negotiated z a (numeric_answer z a b) = numeric_answer z a b"
  by (auto simp: numeric_negotiated_def numeric_answer_def)

subsection \<open>Lists\<close>

lemma list_answer_first:
  assumes "valid \<noteq> []"
  shows "list_answer valid offers =
    (case filter (\<lambda>o'. o' \<in> set (comma_split valid)) offers of [] \<Rightarrow> ''Reject'' | a # _ \<Rightarrow> a)"
  using assms by (induction valid offers rule: list_answer.induct) auto

lemma list_answer_cases:
  "valid \<noteq> [] \<Longrightarrow> list_answer valid offers = ''Reject'' \<or>
   (list_answer valid offers \<in> set offers \<and> list_answer valid offers \<in> set (comma_split valid))"
  by (induction valid offers rule: list_answer.induct) auto

subsection \<open>One entry of text\<close>

definition entry :: "string \<Rightarrow> string \<Rightarrow> string" where
  "entry k v = k @ ''='' @ v @ [NUL]"

definition key_ok :: "string \<Rightarrow> bool" where
  "key_ok k \<longleftrightarrow> k \<noteq> [] \<and> NUL \<notin> set k \<and> CHR ''='' \<notin> set k \<and> length k < ISCSI_PARAM_KEY_LEN - 1 \<and>
     k \<notin> {''AuthMethod'', ''CHAP_A'', ''CHAP_I'', ''CHAP_C'', ''CHAP_N'', ''CHAP_R''}"

definition text_ok :: "string \<Rightarrow> string \<Rightarrow> bool" where
  "text_ok k v \<longleftrightarrow> NUL \<notin> set v \<and> length k + length v + 2 \<le> ISCSI_PARAM_MAX_TEXT_LEN"

lemma equals_not_NUL: "CHR ''='' \<noteq> NUL"
  by (simp add: NUL_def)

lemma text_tokens_entry:
  assumes "k \<noteq> []" "NUL \<notin> set k" "NUL \<notin> set v"
  shows "text_tokens (entry k v) = [k @ ''='' @ v]"
proof -
  obtain c cs where k: "k = c # cs" using assms(1) by (cases k) auto
  then have c: "c \<noteq> NUL" using assms(2) by auto
  have all: "\<forall>x\<in>set (k @ ''='' @ v). x \<noteq> NUL" using assms equals_not_NUL by auto
  have 1: "takeWhile (\<lambda>c. c \<noteq> NUL) ((k @ ''='' @ v) @ [NUL]) = k @ ''='' @ v"
    and 2: "dropWhile (\<lambda>c. c \<noteq> NUL) ((k @ ''='' @ v) @ [NUL]) = [NUL]"
    using all by (simp_all add: takeWhile_append2 dropWhile_append2)
  have "text_tokens [] = []" by (subst text_tokens.simps) simp
  with 1 2 c show ?thesis
    by (subst text_tokens.simps) (simp add: entry_def k)
qed

lemma split_token_entry:
  "CHR ''='' \<notin> set k \<Longrightarrow> split_token (k @ ''='' @ v) = Some (k, v)"
proof -
  assume a: "CHR ''='' \<notin> set k"
  then have "\<forall>x\<in>set k. x \<noteq> CHR ''=''" by auto
  then have "takeWhile (\<lambda>c. c \<noteq> CHR ''='') (k @ CHR ''='' # v) = k"
    "dropWhile (\<lambda>c. c \<noteq> CHR ''='') (k @ CHR ''='' # v) = CHR ''='' # v"
    by (simp_all add: takeWhile_append2 dropWhile_append2)
  then show ?thesis by (simp add: split_token_def)
qed

definition step_result :: "parse_step \<Rightarrow> (int \<times> parse_state) option" where
  "step_result r = (case r of Next st _ _ \<Rightarrow> Some (0, st) | Stop rc st \<Rightarrow> Some (rc, st) | Undefined \<Rightarrow> None)"

lemma parse_entry:
  assumes "key_ok k" "text_ok k v" "param_get (s_params st) k = Some p"
  shows "param_text_parse env key0 outgoing (entry k v) st =
    step_result (if outgoing then outgoing_step st k v p
                 else incoming_step env (st\<lparr>s_out := []\<rparr>) k v p)"
proof -
  have k: "k \<noteq> []" "NUL \<notin> set k" "CHR ''='' \<notin> set k" "NUL \<notin> set v" "length k < 63"
    using assms by (auto simp: key_ok_def text_ok_def ISCSI_PARAM_KEY_LEN_def)
  have toks: "text_tokens (entry k v) = [k @ ''='' @ v]" using text_tokens_entry [OF k(1,2,4)] .
  have len: "length v < ISCSI_PARAM_MAX_LEN"
    using assms(2) k(1) by (simp add: text_ok_def ISCSI_PARAM_MAX_LEN_def ISCSI_PARAM_MAX_TEXT_LEN_def)
  show ?thesis
    using k(5) len assms(3) split_token_entry [OF k(3)]
    by (simp add: param_text_parse_def toks token_step_def lookup_step_def ISCSI_PARAM_KEY_LEN_def
        step_result_def split: parse_step.splits)
qed

lemma security_other_key:
  "key_ok k \<Longrightarrow> param_get (s_params st) k = Some p \<Longrightarrow>
   param_parse_security env k st = Some (1, with_cookie env st)"
  by (simp add: param_parse_security_def with_param_def key_ok_def with_cookie_def split: option.splits)

lemma with_cookie_simps [simp]:
  "s_params (with_cookie env st) = s_params st" "s_out (with_cookie env st) = s_out st"
  by (simp_all add: with_cookie_def split: option.splits)

lemma get_upd_param [simp]:
  "param_get (s_params st) k = Some p \<Longrightarrow> p_key (f p) = k \<Longrightarrow>
   param_get (s_params (upd_param k f st)) k = Some (f p)"
  by (simp add: upd_param_def)

lemma s_out_upd_param [simp]: "s_out (upd_param k f st) = s_out st"
  by (simp add: upd_param_def)

subsection \<open>The four steps of a negotiation\<close>

definition quiet :: "iscsi_param \<Rightarrow> bool" where
  "quiet p \<longleftrightarrow> \<not> p_tx_offer p \<and> \<not> p_rx_offer p \<and> \<not> p_tx_answer p \<and> \<not> p_rx_answer p"

definition offered :: "string \<Rightarrow> iscsi_param \<Rightarrow> iscsi_param" where
  "offered v p = p\<lparr>p_tx_offer := True, p_rx_offer := False, p_offer_tx := v\<rparr>"

definition answering :: "string \<Rightarrow> string \<Rightarrow> iscsi_param \<Rightarrow> iscsi_param" where
  "answering v a p = p\<lparr>p_rx_offer := True, p_offer_rx := v, p_answer_tx := a\<rparr>"

definition answered :: "string \<Rightarrow> iscsi_param \<Rightarrow> iscsi_param" where
  "answered a p = p\<lparr>p_tx_answer := True, p_answer_tx := a\<rparr>"

definition got_answer :: "string \<Rightarrow> iscsi_param \<Rightarrow> iscsi_param" where
  "got_answer a p = p\<lparr>p_rx_answer := True, p_tx_offer := False, p_answer_rx := a\<rparr>"

lemmas marks = offered_def answering_def answered_def got_answer_def

lemma send_offer:
  assumes "key_ok k" "text_ok k v" "param_get (s_params st) k = Some p" "quiet p" "\<not> declarative p"
  shows "\<exists>st'. param_text_parse env key0 True (entry k v) st = Some (0, st') \<and>
    param_get (s_params st') k = Some (offered v p)"
  using assms param_get_key [OF assms(3)]
  by (auto simp: parse_entry step_result_def outgoing_step_def Let_def quiet_def offered_def)

lemma receive_offer:
  assumes k: "key_ok k" "text_ok k v" "param_get (s_params st) k = Some p" "quiet p" "\<not> declarative p"
    and a: "param_answer (p\<lparr>p_rx_offer := True, p_offer_rx := v\<rparr>) v = Some a" "text_ok k a"
  shows "\<exists>st'. param_text_parse env key0 False (entry k v) st = Some (0, st') \<and>
    param_get (s_params st') k = Some (answering v a p) \<and> s_out st' = entry k a"
proof -
  let ?p1 = "p\<lparr>p_rx_offer := True, p_offer_rx := v\<rparr>"
  let ?st1 = "upd_param k (\<lambda>p. p\<lparr>p_rx_offer := True, p_offer_rx := v\<rparr>) (st\<lparr>s_out := []\<rparr>)"
  have key: "p_key p = k" using param_get_key [OF k(3)] .
  have get1: "param_get (s_params ?st1) k = Some ?p1" using k(3) key by simp
  have "param_text_add k a [] = (0, entry k a)"
    using a(2) by (simp add: param_text_add_def text_ok_def entry_def)
  moreover have "\<not> declarative ?p1" using k(5) by (simp add: declarative_def)
  moreover have "param_get (s_params (upd_param k (p_answer_tx_update (\<lambda>_. a)) (with_cookie env ?st1))) k
      = Some (answering v a p)"
    using get1 key by (subst get_upd_param [where p = ?p1]) (simp_all add: answering_def)
  ultimately show ?thesis
    using k a(1) get1 security_other_key [OF k(1) get1, of env]
    by (simp add: parse_entry step_result_def incoming_step_def Let_def quiet_def answer_step_def
        text_add_next_def)
qed

lemma commit_hd:
  "p_type p \<noteq> DECLARE_MULTI \<Longrightarrow> \<exists>vs. p_value_l (param_commit p) = p_negotiated p # vs"
  by (simp add: param_commit_def Let_def)

lemma p_key_commit [simp]: "p_key (param_commit p) = p_key p"
  by (simp add: param_commit_def Let_def)

text \<open>The step from the label \<open>negotiate\<close>, when it ends in a commit.\<close>

lemma negotiate_commits:
  assumes "param_get (s_params st) k = Some p" "param_negotiate outgoing p = Inr n"
    and "\<not> is_inquiry (p\<lparr>p_negotiated := n\<rparr>)" "p_type p \<noteq> DECLARE_MULTI"
  shows "\<exists>st'. step_result (negotiate_step outgoing st k v) = Some (0, st') \<and>
    param_val (s_params st') k = Some n"
proof -
  let ?p = "param_commit (p\<lparr>p_negotiated := n\<rparr>)"
  obtain vs where vs: "p_value_l ?p = n # vs" using commit_hd [of "p\<lparr>p_negotiated := n\<rparr>"] assms(4) by auto
  have "param_get (s_params (upd_param k (\<lambda>_. ?p) st)) k = Some ?p"
    using assms(1) param_get_key [OF assms(1)] by simp
  then have "param_val (s_params (upd_param k (\<lambda>_. ?p) st)) k = Some n"
    using vs by (simp add: param_val_def param_val_which_def)
  then show ?thesis
    using assms by (simp add: negotiate_step_def step_result_def)
qed

lemma send_answer:
  assumes "key_ok k" "text_ok k a" "param_get (s_params st) k = Some (answering v a p)" "quiet p"
    and "v \<noteq> ''?''" "p_type p \<noteq> DECLARE_MULTI"
    and "param_negotiate True (answered a (answering v a p)) = Inr n"
  shows "\<exists>st'. param_text_parse env key0 True (entry k a) st = Some (0, st') \<and>
    param_val (s_params st') k = Some n"
proof -
  have key: "p_key (answering v a p) = k" using param_get_key [OF assms(3)] .
  let ?st = "upd_param k (\<lambda>p. p\<lparr>p_tx_answer := True, p_answer_tx := a\<rparr>) st"
  have "param_get (s_params ?st) k = Some (answered a (answering v a p))"
    using assms(3) key by (simp add: answered_def)
  then obtain st' where "step_result (negotiate_step True ?st k a) = Some (0, st')"
    "param_val (s_params st') k = Some n"
    using negotiate_commits [of ?st k "answered a (answering v a p)" True n] assms(4-7)
    by (auto simp: is_inquiry_def marks quiet_def)
  then show ?thesis
    using assms(1-3) by (auto simp: parse_entry outgoing_step_def answering_def)
qed

lemma receive_answer:
  assumes "key_ok k" "text_ok k a" "param_get (s_params st) k = Some (offered v p)" "quiet p"
    and "v \<noteq> ''?''" "p_type p \<noteq> DECLARE_MULTI"
    and "param_negotiate False (got_answer a (offered v p)) = Inr n"
  shows "\<exists>st'. param_text_parse env key0 False (entry k a) st = Some (0, st') \<and>
    param_val (s_params st') k = Some n"
proof -
  have key: "p_key (offered v p) = k" using param_get_key [OF assms(3)] .
  let ?st = "upd_param k (\<lambda>p. p\<lparr>p_rx_answer := True, p_tx_offer := False, p_answer_rx := a\<rparr>)
               (st\<lparr>s_out := []\<rparr>)"
  have get: "param_get (s_params ?st) k = Some (got_answer a (offered v p))"
    using assms(3) key by (simp add: got_answer_def)
  then obtain st' where "step_result (negotiate_step False (with_cookie env ?st) k a) = Some (0, st')"
    "param_val (s_params st') k = Some n"
    using negotiate_commits [of "with_cookie env ?st" k "got_answer a (offered v p)" False n] assms(4-7)
    by (auto simp: is_inquiry_def marks quiet_def)
  moreover have "step_result (incoming_step env (st\<lparr>s_out := []\<rparr>) k a (offered v p)) =
      step_result (negotiate_step False (with_cookie env ?st) k a)"
    using security_other_key [OF assms(1) get, of env] by (simp add: incoming_step_def Let_def offered_def)
  ultimately show ?thesis
    using assms(1-3) by (auto simp: parse_entry)
qed

subsection \<open>Both ends commit the same value\<close>

text \<open>The offers the theorem covers: binary values, numbers, and lists of values valid at both ends.\<close>

definition binary_texts :: "string set" where
  "binary_texts = {''yes'', ''no'', ''Yes'', ''No''}"

definition offer_fits :: "iscsi_param \<Rightarrow> iscsi_param \<Rightarrow> string \<Rightarrow> bool" where
  "offer_fits pa pb v \<longleftrightarrow> (case p_type pb of
       BINARY_OR \<Rightarrow> v \<in> binary_texts \<and> (CHR '','' \<in> set (p_valid pb) \<or> p_valid pb \<in> binary_texts)
     | BINARY_AND \<Rightarrow> v \<in> binary_texts \<and> (CHR '','' \<in> set (p_valid pb) \<or> p_valid pb \<in> binary_texts)
     | NUMERICAL \<Rightarrow> True
     | NUMERICAL_Z \<Rightarrow> True
     | LIST \<Rightarrow> p_valid pa \<noteq> [] \<and> p_valid pb \<noteq> [] \<and> set (comma_split v) \<subseteq> set (comma_split (p_valid pa))
     | _ \<Rightarrow> False)"

lemma both_negotiate:
  assumes t: "p_type pa = p_type pb" and q: "quiet pa" "quiet pb" and v: "v \<noteq> ''?''"
    and fits: "offer_fits pa pb v"
    and a: "param_answer (pb\<lparr>p_rx_offer := True, p_offer_rx := v\<rparr>) v = Some a"
  shows "\<exists>n. param_negotiate True (answered a (answering v a pb)) = Inr n \<and>
    param_negotiate False (got_answer a (offered v pa)) = Inr n"
proof (cases "p_type pb")
  case NUMERICAL
  then show ?thesis
    using t numeric_negotiated_comm by (auto simp: param_negotiate_def marks Let_def)
next
  case NUMERICAL_Z
  then show ?thesis
    using t numeric_negotiated_comm by (auto simp: param_negotiate_def marks Let_def)
next
  case BINARY_OR
  then have "a \<in> binary_texts"
    using fits a v by (auto simp: offer_fits_def param_answer_def binary_texts_def split: if_splits)
  then show ?thesis
    using BINARY_OR t by (auto simp: param_negotiate_def marks Let_def binary_texts_def is_yes_def)
next
  case BINARY_AND
  then have "a \<in> binary_texts"
    using fits a v by (auto simp: offer_fits_def param_answer_def binary_texts_def split: if_splits)
  then show ?thesis
    using BINARY_AND t by (auto simp: param_negotiate_def marks Let_def binary_texts_def is_yes_def)
next
  case LIST
  then have "a = list_answer (p_valid pb) (comma_split v)"
    using a v by (simp add: param_answer_def)
  then have "a = ''Reject'' \<or> (a \<in> set (comma_split v) \<and> a \<in> set (comma_split (p_valid pb)))"
    using list_answer_cases [of "p_valid pb" "comma_split v"] fits LIST by (auto simp: offer_fits_def)
  then have "a = ''Reject'' \<or> (a \<in> set (comma_split (p_valid pa)) \<and> a \<in> set (comma_split (p_valid pb)))"
    using fits LIST by (auto simp: offer_fits_def)
  then show ?thesis
    using LIST t q fits by (auto simp: param_negotiate_def marks Let_def quiet_def offer_fits_def)
qed (use fits in \<open>simp_all add: offer_fits_def\<close>)

lemma fits_not_declarative:
  "offer_fits pa pb v \<Longrightarrow> \<not> declarative pb \<and> p_type pb \<noteq> DECLARE_MULTI"
  by (auto simp: offer_fits_def declarative_def)

lemma exchange_agrees:
  assumes ok: "key_ok k" "text_ok k v" "text_ok k a" and v: "v \<noteq> ''?''"
    and get: "param_get (s_params sa) k = Some pa" "param_get (s_params sb) k = Some pb"
    and p: "p_type pa = p_type pb" "quiet pa" "quiet pb" "offer_fits pa pb v"
    and a: "param_answer (pb\<lparr>p_rx_offer := True, p_offer_rx := v\<rparr>) v = Some a"
  shows "\<exists>sa1 sb1 sb2 sa2 n.
    param_text_parse ea key1 True (entry k v) sa = Some (0, sa1) \<and>
    param_text_parse eb key2 False (entry k v) sb = Some (0, sb1) \<and>
    param_text_parse eb key3 True (s_out sb1) sb1 = Some (0, sb2) \<and>
    param_text_parse ea key4 False (s_out sb1) sa1 = Some (0, sa2) \<and>
    param_val (s_params sb2) k = Some n \<and> param_val (s_params sa2) k = Some n"
proof -
  have nd: "\<not> declarative pa" "\<not> declarative pb" "p_type pa \<noteq> DECLARE_MULTI" "p_type pb \<noteq> DECLARE_MULTI"
    using fits_not_declarative [OF p(4)] p(1) by (auto simp: declarative_def)
  obtain sa1 where 1: "param_text_parse ea key1 True (entry k v) sa = Some (0, sa1)"
    "param_get (s_params sa1) k = Some (offered v pa)"
    using send_offer [OF ok(1,2) get(1) p(2) nd(1)] by blast
  obtain sb1 where 2: "param_text_parse eb key2 False (entry k v) sb = Some (0, sb1)"
    "param_get (s_params sb1) k = Some (answering v a pb)" "s_out sb1 = entry k a"
    using receive_offer [OF ok(1,2) get(2) p(3) nd(2) a ok(3)] by blast
  obtain n where n: "param_negotiate True (answered a (answering v a pb)) = Inr n"
    "param_negotiate False (got_answer a (offered v pa)) = Inr n"
    using both_negotiate [OF p(1,2,3) v p(4) a] by blast
  obtain sb2 where 3: "param_text_parse eb key3 True (entry k a) sb1 = Some (0, sb2)"
    "param_val (s_params sb2) k = Some n"
    using send_answer [OF ok(1,3) 2(2) p(3) v nd(4) n(1)] by blast
  obtain sa2 where 4: "param_text_parse ea key4 False (entry k a) sa1 = Some (0, sa2)"
    "param_val (s_params sa2) k = Some n"
    using receive_answer [OF ok(1,3) 1(2) p(2) v nd(3) n(2)] by blast
  show ?thesis using 1 2 3 4 by auto
qed

subsection \<open>CHAP\<close>

lemma take_put_bytes: "length bs = n \<Longrightarrow> take n (put_bytes bs buf) = bs"
  by (simp add: put_bytes_def)

lemma cookie_upd [simp]:
  "s_cookie st = Some c \<Longrightarrow> cookie (upd_cookie f st) = f c" "cookie (upd_param k g st) = cookie st"
  "s_cookie (upd_param k g st) = s_cookie st" "s_cookie (upd_cookie f st) = map_option f (s_cookie st)"
  by (simp_all add: cookie_def upd_cookie_def upd_param_def)

lemma length_chap_digest: "length (chap_digest env idData pass challenge) = ISCSI_CHAP_R_DATA_LENGTH"
  by (simp add: chap_digest_def length_md5_of_pieces ISCSI_CHAP_R_DATA_LENGTH_def)

lemma chap_digest_rfc:
  assumes "length (md_in (e_context env)) = 64" "length pass < 2 ^ 32" "length challenge < 2 ^ 32"
  shows "chap_digest env idData pass challenge = rfc_md5 ([idData] @ chars_bytes pass @ challenge)"
  using assms by (simp add: chap_digest_def md5_of_pieces_rfc chars_bytes_def)

lemma chap_response_check:
  assumes c: "s_cookie st = Some c" and rx: "p_rx_offer p"
    and resp: "HexTextToData (p_offer_rx p) ISCSI_CHAP_R_DATA_LENGTH = Some (len, bytes)"
    and full: "length bytes = ISCSI_CHAP_R_DATA_LENGTH"
  shows "\<exists>st'. security_CHAP_R env p st = Some
    (if bytes = chap_digest env (ck_idData c) (e_InitiatorPass env)
                           (take ISCSI_CHAP_C_DATA_LENGTH_T (ck_chapdata c)) then 0 else -1, st')"
proof -
  have "cookie st = c" using c by (simp add: cookie_def)
  then show ?thesis
    using assms take_put_bytes [OF full] take_put_bytes [OF length_chap_digest]
    by (auto simp: security_CHAP_R_def Let_def split: prod.splits)
qed

text \<open>The text \<^verbatim>\<open>security_CHAP_C\<close> sends as response.\<close>

definition chap_response :: "chap_env \<Rightarrow> byte \<Rightarrow> string \<Rightarrow> byte list \<Rightarrow> string" where
  "chap_response env idData pass challenge =
    snd (HexDataToText (chap_digest env idData pass challenge) [] ISCSI_CHAP_STRING_LENGTH)"

lemma chap_response_accepted:
  assumes c: "s_cookie st = Some c" and rx: "p_rx_offer p"
    and resp: "p_offer_rx p = chap_response env (ck_idData c) (e_InitiatorPass env)
                 (take ISCSI_CHAP_C_DATA_LENGTH_T (ck_chapdata c))"
  shows "\<exists>st'. security_CHAP_R env p st = Some (0, st')"
proof -
  let ?d = "chap_digest env (ck_idData c) (e_InitiatorPass env)
              (take ISCSI_CHAP_C_DATA_LENGTH_T (ck_chapdata c))"
  have l: "length ?d = 16" using length_chap_digest by (simp add: ISCSI_CHAP_R_DATA_LENGTH_def)
  then have "?d \<noteq> []" by auto
  then obtain r where r: "HexDataToText ?d [] ISCSI_CHAP_STRING_LENGTH = (0, r)"
    "HexTextToData r ISCSI_CHAP_R_DATA_LENGTH = Some (int (length ?d), ?d)"
    using HexDataToText_eq [of ?d ISCSI_CHAP_STRING_LENGTH "[]"] HexTextToData_prefixed [of ?d 16] l
    by (auto simp: ISCSI_CHAP_STRING_LENGTH_def ISCSI_CHAP_C_MAX_DATA_LENGTH_def
        ISCSI_CHAP_R_DATA_LENGTH_def)
  then have "p_offer_rx p = r" using resp by (simp add: chap_response_def)
  then show ?thesis
    using chap_response_check [OF c rx, where env = env and bytes = ?d] r(2) l by (simp add: ISCSI_CHAP_R_DATA_LENGTH_def)
qed

subsection \<open>Properties of the negotiation\<close>

text \<open>C30. Both ends of a negotiation commit the same value.  One end sends the offer \<open>v\<close> for the parameter
  \<open>k\<close>, the other parses it, answers, and parses its own answer as outgoing text; the first parses the
  answer.  All four parses succeed and the values stored at both ends agree, for binary, numerical
  and list parameters.\<close>

theorem both_ends_agree:
  assumes "key_ok k" "text_ok k v" "text_ok k a" "v \<noteq> ''?''"
    and "param_get (s_params sa) k = Some pa" "param_get (s_params sb) k = Some pb"
    and "p_type pa = p_type pb" "quiet pa" "quiet pb" "offer_fits pa pb v"
    and "param_answer (pb\<lparr>p_rx_offer := True, p_offer_rx := v\<rparr>) v = Some a"
  shows "\<exists>sa1 sb1 sb2 sa2 n.
    param_text_parse ea key1 True (entry k v) sa = Some (0, sa1) \<and>
    param_text_parse eb key2 False (entry k v) sb = Some (0, sb1) \<and>
    param_text_parse eb key3 True (s_out sb1) sb1 = Some (0, sb2) \<and>
    param_text_parse ea key4 False (s_out sb1) sa1 = Some (0, sa2) \<and>
    param_val (s_params sb2) k = Some n \<and> param_val (s_params sa2) k = Some n"
  using assms by (rule exchange_agrees)

definition blank_param :: iscsi_param where
  "blank_param = \<lparr>p_key = [], p_type = DECLARATIVE, p_valid = [], p_dflt = [], p_value_l = [],
     p_offer_rx = [], p_offer_tx = [], p_answer_tx = [], p_answer_rx = [], p_negotiated = [],
     p_tx_offer = False, p_rx_offer = False, p_tx_answer = False, p_rx_answer = False, p_reset = False\<rparr>"

definition param_of :: "param_type \<Rightarrow> string \<Rightarrow> string \<Rightarrow> string \<Rightarrow> iscsi_param" where
  "param_of t k d v = blank_param\<lparr>p_type := t, p_key := k, p_dflt := d, p_valid := v, p_value_l := [d]\<rparr>"

definition state_of :: "iscsi_param list \<Rightarrow> parse_state" where
  "state_of ps = \<lparr>s_params = ps, s_out = [], s_cookie = None, s_rnd = 0\<rparr>"

definition sample_env :: chap_env where
  "sample_env = \<lparr>e_context = junk_context, e_random = (\<lambda>n. of_nat n),
     e_fresh = \<lparr>ck_idData = 0, ck_chapdata = replicate 1024 0, ck_respdata = replicate 16 0\<rparr>,
     e_InitiatorUser = ''foo'', e_InitiatorPass = ''bar'', e_TargetUser = ''foo'', e_TargetPass = ''bar''\<rparr>"

theorem both_ends_agree_witness:
  "\<exists>sb1 sb2 n.
    param_text_parse sample_env [] False (entry ''MaxConnections'' ''8'')
      (state_of [param_of NUMERICAL ''MaxConnections'' ''1'' ''4'']) = Some (0, sb1) \<and>
    param_text_parse sample_env [] True (s_out sb1) sb1 = Some (0, sb2) \<and>
    param_val (s_params sb2) ''MaxConnections'' = Some n"
proof -
  let ?k = "''MaxConnections''"
  have "key_ok ?k" "text_ok ?k ''8''" "text_ok ?k ''4''"
    by (simp_all add: key_ok_def text_ok_def NUL_def ISCSI_PARAM_KEY_LEN_def ISCSI_PARAM_MAX_TEXT_LEN_def)
  moreover have "param_answer ((param_of NUMERICAL ?k ''1'' ''4'')\<lparr>p_rx_offer := True, p_offer_rx := ''8''\<rparr>) ''8''
      = Some ''4''"
    by code_simp
  moreover have "quiet (param_of NUMERICAL ?k d m)" "offer_fits (param_of NUMERICAL ?k d m) (param_of NUMERICAL ?k d' m') v"
      for d m d' m' v
    by (simp_all add: quiet_def offer_fits_def param_of_def blank_param_def)
  ultimately show ?thesis
    using both_ends_agree [of ?k "''8''" "''4''" "state_of [param_of NUMERICAL ?k ''1'' ''16'']"
        "param_of NUMERICAL ?k ''1'' ''16''" "state_of [param_of NUMERICAL ?k ''1'' ''4'']"
        "param_of NUMERICAL ?k ''1'' ''4''" sample_env "[]" sample_env "[]" "[]" "[]"]
    by (auto simp: state_of_def param_of_def blank_param_def)
qed

text \<open>The answer to a number is the greatest number within the peer's offer and the own maximum, where
  0 means \<open>no limit\<close> for the parameters that allow it; and negotiating the answer against the offer
  leaves the answer.\<close>

theorem numeric_answer_is_meet:
  "within z (numeric_answer z offer limit) offer \<and> within z (numeric_answer z offer limit) limit \<and>
   (within z c offer \<and> within z c limit \<longrightarrow> within z c (numeric_answer z offer limit)) \<and>
   numeric_negotiated z offer (numeric_answer z offer limit) = numeric_answer z offer limit"
  using numeric_answer_glb numeric_negotiated_answer by blast

theorem numeric_answer_is_meet_witness:
  "within True 4096 (numeric_answer True 8192 0) \<and> numeric_answer True 8192 0 = 8192"
  using numeric_answer_is_meet [of True 8192 0 4096] by (simp add: within_def numeric_answer_def)

text \<open>The answer to a list is the first offered value that is valid, in the order of the offer, or
  \<open>Reject\<close> if none is.\<close>

theorem list_answer_is_first_valid:
  assumes "p_type p = LIST" "p_valid p \<noteq> []" "value \<noteq> ''?''"
  shows "param_answer p value = Some
    (case filter (\<lambda>o'. o' \<in> set (comma_split (p_valid p))) (comma_split (p_offer_rx p)) of
       [] \<Rightarrow> ''Reject'' | a # _ \<Rightarrow> a)"
  using assms by (simp add: param_answer_def list_answer_first)

theorem list_answer_is_first_valid_witness:
  "param_answer ((param_of LIST ''AuthMethod'' ''CHAP'' ''CHAP,None'')\<lparr>p_offer_rx := ''KRB5,None,CHAP''\<rparr>)
     ''KRB5,None,CHAP'' = Some ''None''"
  using list_answer_is_first_valid [of "(param_of LIST ''AuthMethod'' ''CHAP'' ''CHAP,None'')
    \<lparr>p_offer_rx := ''KRB5,None,CHAP''\<rparr>" "''KRB5,None,CHAP''"]
  by (simp add: param_of_def blank_param_def)


lemma sample_parse:
  "param_text_parse sample_env [] False (entry ''ImmediateData'' ''maybe'')
     (state_of [param_of BINARY_AND ''ImmediateData'' ''Yes'' ''Yes,No'']) =
   Some (0, (state_of [(param_of BINARY_AND ''ImmediateData'' ''Yes'' ''Yes,No'')
       \<lparr>p_rx_offer := True, p_offer_rx := ''maybe'', p_answer_tx := ''Reject''\<rparr>])
     \<lparr>s_out := entry ''ImmediateData'' ''Reject'', s_cookie := Some (e_fresh sample_env)\<rparr>)"
  by code_simp


text \<open>C35. A target that has sent a challenge accepts a complete CHAP response exactly if it is the MD5
  digest, as RFC 1321 defines it, of identifier, password and challenge; and it accepts the response
  the initiator's code computes.\<close>

theorem chap_accepts_digest_only:
  assumes "length (md_in (e_context env)) = 64" "length (e_InitiatorPass env) < 2 ^ 32"
    and "s_cookie st = Some c" "p_rx_offer p"
  shows "(\<forall>len bytes. HexTextToData (p_offer_rx p) ISCSI_CHAP_R_DATA_LENGTH = Some (len, bytes) \<and>
        length bytes = ISCSI_CHAP_R_DATA_LENGTH \<longrightarrow>
      (\<exists>st'. security_CHAP_R env p st = Some
        (if bytes = rfc_md5 ([ck_idData c] @ chars_bytes (e_InitiatorPass env) @
           take ISCSI_CHAP_C_DATA_LENGTH_T (ck_chapdata c)) then 0 else -1, st'))) \<and>
    (p_offer_rx p = chap_response env (ck_idData c) (e_InitiatorPass env)
        (take ISCSI_CHAP_C_DATA_LENGTH_T (ck_chapdata c)) \<longrightarrow>
      (\<exists>st'. security_CHAP_R env p st = Some (0, st')))"
proof -
  have "chap_digest env (ck_idData c) (e_InitiatorPass env) (take ISCSI_CHAP_C_DATA_LENGTH_T (ck_chapdata c)) =
      rfc_md5 ([ck_idData c] @ chars_bytes (e_InitiatorPass env) @
        take ISCSI_CHAP_C_DATA_LENGTH_T (ck_chapdata c))"
    using assms(1,2) by (intro chap_digest_rfc) (auto simp: ISCSI_CHAP_C_DATA_LENGTH_T_def min_def)
  then show ?thesis
    using chap_response_check [OF assms(3,4), where env = env]
      chap_response_accepted [OF assms(3,4), where env = env]
    by (intro conjI allI impI) (erule conjE, simp, blast+)
qed

theorem chap_accepts_digest_only_witness:
  "\<exists>st'. security_CHAP_R sample_env (blank_param\<lparr>p_rx_offer := True, p_offer_rx :=
       chap_response sample_env 0 ''bar'' (replicate 16 0)\<rparr>)
     ((state_of [])\<lparr>s_cookie := Some (e_fresh sample_env)\<rparr>) = Some (0, st')"
  using chap_accepts_digest_only [of sample_env "(state_of [])\<lparr>s_cookie := Some (e_fresh sample_env)\<rparr>"
      "e_fresh sample_env" "blank_param\<lparr>p_rx_offer := True, p_offer_rx :=
       chap_response sample_env 0 ''bar'' (replicate 16 0)\<rparr>"]
  by (simp add: sample_env_def junk_context_def ISCSI_CHAP_R_DATA_LENGTH_def ISCSI_CHAP_C_DATA_LENGTH_T_def
      state_of_def)

text \<open>An entry with a key of 256 characters or more overruns the stack buffer of the parameter
  printer, in whichever list and direction it is parsed.\<close>

theorem long_key_overruns_buffer:
  assumes "256 \<le> length k" "NUL \<notin> set k" "CHR ''='' \<notin> set k" "NUL \<notin> set v"
  shows "param_text_parse env key0 outgoing (entry k v) st = None"
proof -
  have "k \<noteq> []" using assms(1) by auto
  then have "text_tokens (entry k v) = [k @ ''='' @ v]" using text_tokens_entry assms by blast
  then show ?thesis
    using assms(1) split_token_entry [OF assms(3)] by (simp add: param_text_parse_def)
qed

theorem long_key_overruns_buffer_witness:
  "param_text_parse sample_env [] False (entry (replicate 256 CHR ''k'') ''1'') (state_of []) = None"
  using long_key_overruns_buffer [of "replicate 256 CHR ''k''" "''1''"] by (simp add: NUL_def)

text \<open>An entry without \<open>=\<close> is not skipped: as the first entry it is answered with whatever the key
  buffer held (here \<open>secret\<close>), and behind a proper entry it repeats that entry.  And an answer that is
  no binary value ends the parse with success, leaving the rest of the text unread.\<close>

theorem entry_defects:
  "map_option (s_out \<circ> snd) (param_text_parse sample_env ''secret'' False (''junk'' @ [NUL]) (state_of [])) =
     Some (entry ''secret'' ''NotUnderstood'') \<and>
   map_option (s_out \<circ> snd) (param_text_parse sample_env [] False
       (entry ''MaxConnections'' ''8'' @ ''junk'' @ [NUL])
       (state_of [param_of NUMERICAL ''MaxConnections'' ''1'' ''4''])) =
     Some (entry ''MaxConnections'' ''4'' @ entry ''MaxConnections'' ''4'') \<and>
   map_option (\<lambda>(rc, st). (rc, param_val (s_params st) ''MaxConnections''))
     (param_text_parse sample_env [] False (entry ''OFMarker'' ''Reject'' @ entry ''MaxConnections'' ''4'')
       (state_of [(param_of BINARY_AND ''OFMarker'' ''No'' ''Yes,No'')\<lparr>p_tx_offer := True, p_offer_tx := ''Yes''\<rparr>,
                  (param_of NUMERICAL ''MaxConnections'' ''1'' ''4'')\<lparr>p_tx_offer := True, p_offer_tx := ''4''\<rparr>])) =
     Some (0, Some ''1'')"
  by code_simp

end
