(* ===== verification/Session_Base.thy ===== *)
theory Session_Base
  imports PDU_Exchange Hash_Table Socket Negotiation
begin

section \<open>What both ends of a session share\<close>

text \<open>
  Protocol constants of \<^verbatim>\<open>iscsi.h\<close>, the structures that the handlers clear before they fill them,
  text as bytes, and the cutting of a transfer into pieces, which the loops of the target and of the
  initiator are measured against.
\<close>

definition bytes_text :: "byte list \<Rightarrow> string" where
  "bytes_text = map (\<lambda>b. char_of (unat b))"

subsection \<open>Login and logout constants\<close>

definition ISCSI_VERSION :: byte where "ISCSI_VERSION = 0"
definition ISCSI_LOGIN_STATUS_INITIATOR_ERROR :: byte where "ISCSI_LOGIN_STATUS_INITIATOR_ERROR = 2"
definition ISCSI_LOGIN_STAGE_SECURITY :: byte where "ISCSI_LOGIN_STAGE_SECURITY = 0"
definition ISCSI_LOGIN_STAGE_NEGOTIATE :: byte where "ISCSI_LOGIN_STAGE_NEGOTIATE = 1"
definition ISCSI_LOGIN_STAGE_FULL_FEATURE :: byte where "ISCSI_LOGIN_STAGE_FULL_FEATURE = 3"

definition ISCSI_LOGOUT_CLOSE_SESSION :: byte where "ISCSI_LOGOUT_CLOSE_SESSION = 0"
definition ISCSI_LOGOUT_STATUS_SUCCESS :: byte where "ISCSI_LOGOUT_STATUS_SUCCESS = 0"

subsection \<open>Cleared structures\<close>

definition blank_nop_out :: iscsi_nop_out_t where
  "blank_nop_out = \<lparr>no_immediate = 0, no_length = 0, no_lun = 0, no_tag = 0, no_transfer_tag = 0,
     no_CmdSN = 0, no_ExpStatSN = 0\<rparr>"

definition blank_text_cmd :: iscsi_text_cmd_t where
  "blank_text_cmd = \<lparr>xc_immediate = 0, xc_final = 0, xc_cont = 0, xc_length = 0, xc_lun = 0,
     xc_tag = 0, xc_transfer_tag = 0, xc_CmdSN = 0, xc_ExpStatSN = 0\<rparr>"

definition blank_login_cmd :: iscsi_login_cmd_t where
  "blank_login_cmd = \<lparr>lc_transit = 0, lc_cont = 0, lc_csg = 0, lc_nsg = 0, lc_version_max = 0,
     lc_version_min = 0, lc_AHSlength = 0, lc_length = 0, lc_isid = 0, lc_tsih = 0, lc_tag = 0,
     lc_cid = 0, lc_CmdSN = 0, lc_ExpStatSN = 0\<rparr>"

definition blank_login_rsp :: iscsi_login_rsp_t where
  "blank_login_rsp = \<lparr>lr_transit = 0, lr_cont = 0, lr_csg = 0, lr_nsg = 0, lr_version_max = 0,
     lr_version_active = 0, lr_AHSlength = 0, lr_length = 0, lr_isid = 0, lr_tsih = 0, lr_tag = 0,
     lr_StatSN = 0, lr_ExpCmdSN = 0, lr_MaxCmdSN = 0, lr_status_class = 0, lr_status_detail = 0\<rparr>"

definition blank_logout_cmd :: iscsi_logout_cmd_t where
  "blank_logout_cmd = \<lparr>oc_immediate = 0, oc_reason = 0, oc_tag = 0, oc_cid = 0, oc_CmdSN = 0,
     oc_ExpStatSN = 0\<rparr>"

definition CONFIG_ISCSI_MAX_AHS_LEN :: nat where "CONFIG_ISCSI_MAX_AHS_LEN = 128"

definition blank_scsi_cmd :: iscsi_scsi_cmd_t where
  "blank_scsi_cmd = \<lparr>sc_immediate = 0, sc_final = 0, sc_fromdev = 0, sc_bytes_fromdev = 0, sc_todev = 0,
     sc_bytes_todev = 0, sc_attr = 0, sc_length = 0, sc_lun = 0, sc_tag = 0, sc_trans_len = 0,
     sc_bidi_trans_len = 0, sc_CmdSN = 0, sc_ExpStatSN = 0, sc_cdb = [], sc_ext_cdb = None,
     sc_ahs = replicate CONFIG_ISCSI_MAX_AHS_LEN 0, sc_ahs_len = 0, sc_status = 0\<rparr>"

definition blank_write_data :: iscsi_write_data_t where
  "blank_write_data = \<lparr>wd_final = 0, wd_length = 0, wd_lun = 0, wd_tag = 0, wd_transfer_tag = 0,
     wd_ExpStatSN = 0, wd_DataSN = 0, wd_offset = 0\<rparr>"

subsection \<open>Minimum\<close>

definition MIN_u32 :: "u32 \<Rightarrow> u32 \<Rightarrow> u32" where
  "MIN_u32 a b = (if a < b then a else b)"

lemma add_words_eq: "unat a + unat b \<le> unat c \<Longrightarrow> unat (a + b) = unat a + unat b" for a b c :: u32
proof -
  assume "unat a + unat b \<le> unat c"
  also have "unat c < 2 ^ LENGTH(32)" by (rule unsigned_less)
  finally show ?thesis by (rule unat_add_lem [THEN iffD1])
qed

subsection \<open>Pieces\<close>

function pieces :: "nat \<Rightarrow> nat \<Rightarrow> nat \<Rightarrow> (nat \<times> nat) list" where
  "pieces b n off =
    (if n = 0 \<or> b = 0 then [] else (off, min n b) # pieces b (n - min n b) (off + min n b))"
  by pat_completeness auto

termination by (relation "measure (\<lambda>(b, n, off). n)") auto

declare pieces.simps [simp del]

lemma pieces_0 [simp]: "pieces b 0 off = []"
  by (simp add: pieces.simps)

lemma pieces_step: "0 < n \<Longrightarrow> 0 < b \<Longrightarrow>
    pieces b n off = (off, min n b) # pieces b (n - min n b) (off + min n b)"
  by (subst pieces.simps) simp

lemma pieces_tile: "0 < b \<Longrightarrow> concat (map (\<lambda>(o', l). [o'..<o' + l]) (pieces b n off)) = [off..<off + n]"
proof (induction b n off rule: pieces.induct)
  case (1 b n off)
  show ?case
  proof (cases "n = 0")
    case False
    have "[off..<off + min n b] @ [off + min n b..<off + n] = [off..<off + n]"
      using upt_add_eq_append [of off "off + min n b" "n - min n b"] by simp
    then show ?thesis using 1 False by (subst pieces.simps) simp
  qed simp
qed

lemma pieces_bounds: "(o', l) \<in> set (pieces b n off) \<Longrightarrow> 0 < l \<and> l \<le> b \<and> off \<le> o' \<and> o' + l \<le> off + n"
proof (induction b n off rule: pieces.induct)
  case (1 b n off)
  then have nz: "\<not> (n = 0 \<or> b = 0)" by (subst (asm) pieces.simps) (auto split: if_splits)
  with 1(2) have "(o', l) = (off, min n b) \<or> (o', l) \<in> set (pieces b (n - min n b) (off + min n b))"
    by (subst (asm) pieces.simps) auto
  then show ?case
  proof
    assume "(o', l) \<in> set (pieces b (n - min n b) (off + min n b))"
    from 1(1) [OF nz this] show ?thesis by auto
  qed (use nz in auto)
qed

subsection \<open>Memory\<close>

text \<open>Bytes that arrive in memory, at the addresses of a scatter list.\<close>

definition put_mem :: "nat list \<Rightarrow> byte list \<Rightarrow> (nat \<Rightarrow> byte) \<Rightarrow> nat \<Rightarrow> byte" where
  "put_mem addrs bs m = fold (\<lambda>(a, b) m. m(a := b)) (zip addrs bs) m"

lemma put_mem_Nil [simp]: "put_mem [] bs m = m" "put_mem as [] m = m"
  by (simp_all add: put_mem_def)

lemma put_mem_append:
  "length as = length bs \<Longrightarrow> put_mem (as @ as') (bs @ bs') m = put_mem as' bs' (put_mem as bs m)"
  by (simp add: put_mem_def)

lemma put_mem_other: "a \<notin> set as \<Longrightarrow> put_mem as bs m a = m a"
proof (induction as arbitrary: bs m)
  case (Cons x as)
  then show ?case by (cases bs) (simp_all add: put_mem_def)
qed simp

lemma put_mem_nth:
  assumes "distinct as" "length as = length bs" "i < length as"
  shows "put_mem as bs m (as ! i) = bs ! i"
proof -
  have "put_mem as bs m = put_mem (drop (Suc i) as) (drop (Suc i) bs)
      (put_mem (take (Suc i) as) (take (Suc i) bs) m)"
    using put_mem_append [of "take (Suc i) as" "take (Suc i) bs" "drop (Suc i) as" "drop (Suc i) bs"]
      assms(2) by simp
  moreover have "as ! i \<notin> set (drop (Suc i) as)"
    using assms(1,3) by (metis Cons_nth_drop_Suc distinct.simps(2) distinct_drop)
  moreover have "put_mem (take (Suc i) as) (take (Suc i) bs) m =
      put_mem [as ! i] [bs ! i] (put_mem (take i as) (take i bs) m)"
    using put_mem_append [of "take i as" "take i bs" "[as ! i]" "[bs ! i]"] assms(2,3)
    by (simp add: take_Suc_conv_app_nth)
  ultimately show ?thesis by (simp add: put_mem_other) (simp add: put_mem_def)
qed

lemma put_mem_same: "distinct as \<Longrightarrow> length as = length bs \<Longrightarrow> map (put_mem as bs m) as = bs"
  by (intro nth_equalityI) (simp_all add: put_mem_nth)

text \<open>Pieces that are stored one after the other.\<close>

definition store_pieces ::
  "(nat \<times> nat) list \<Rightarrow> nat list \<Rightarrow> byte list \<Rightarrow> (nat \<Rightarrow> byte) \<Rightarrow> nat \<Rightarrow> byte" where
  "store_pieces ps D bs = fold (\<lambda>(off, len). put_mem (take len (drop off D)) (take len (drop off bs))) ps"

lemma store_pieces_simps [simp]:
  "store_pieces [] D bs m = m"
  "store_pieces ((off, len) # ps) D bs m =
     store_pieces ps D bs (put_mem (take len (drop off D)) (take len (drop off bs)) m)"
  by (simp_all add: store_pieces_def)

lemma store_pieces_all:
  "0 < b \<Longrightarrow> off + n = length D \<Longrightarrow> length bs = length D \<Longrightarrow>
   store_pieces (pieces b n off) D bs m = put_mem (drop off D) (drop off bs) m"
proof (induction b n off arbitrary: m rule: pieces.induct)
  case (1 b n off)
  show ?case
  proof (cases "n = 0")
    case False
    let ?k = "min n b"
    have "drop off xs = take ?k (drop off xs) @ drop (off + ?k) xs" for xs :: "'x list"
      by (metis append_take_drop_id drop_drop add.commute)
    then have "put_mem (drop off D) (drop off bs) m =
        put_mem (drop (off + ?k) D) (drop (off + ?k) bs) (put_mem (take ?k (drop off D)) (take ?k (drop off bs)) m)"
      using put_mem_append [of "take ?k (drop off D)" "take ?k (drop off bs)"] 1(4) by (metis length_drop length_take)
    then show ?thesis using False 1 by (subst pieces_step) simp_all
  qed (use 1 in simp)
qed

subsection \<open>Messages on the wire\<close>

text \<open>A message as it travels, and a list of them.\<close>

definition padded :: "byte list \<Rightarrow> byte list" where
  "padded m = m @ replicate (padding_for (length m)) 0"

definition on_wire :: "byte list list \<Rightarrow> byte list" where
  "on_wire ms = concat (map padded ms)"

lemma on_wire_simps [simp]: "on_wire [] = []" "on_wire (m # ms) = padded m @ on_wire ms"
  by (simp_all add: on_wire_def)

lemma padded_header: "length h = ISCSI_HEADER_LEN \<Longrightarrow> padded h = h"
  by (simp add: padded_def padding_for_def ISCSI_HEADER_LEN_def ISCSI_SOCK_MSG_BYTE_ALIGN_def)

end
