(* ===== verification/Disk_State.thy ===== *)
theory Disk_State
  imports Session_Base
begin

section \<open>The state of a disk device\<close>

text \<open>
  The global variables of \<^verbatim>\<open>disk-alpha.c\<close>, as one record that every session of the target shares.
  Addresses are numbers; the memory itself is a field of the session's state, because the target
  reads it when it sends a scatter list.
\<close>

subsection \<open>Globals of the device\<close>

text \<open>The kind of medium behind the logical units (\<^verbatim>\<open>g_type\<close>).\<close>

datatype disk_type = DISK_RAM | DISK_SG | DISK_SD | DISK_FS | DISK_RAW | DISK_CTRL

text \<open>The part of \<^verbatim>\<open>DEVICE_STATS_T\<close> that the code updates.\<close>

record device_stats =
  ds_jumps :: u64
  ds_jumps_write :: u64
  ds_jumps_read :: u64
  ds_last_lba :: u64
  ds_last_wr_lba :: u64
  ds_last_rd_lba :: u64

definition blank_stats :: device_stats where
  "blank_stats = \<lparr>ds_jumps = 0, ds_jumps_write = 0, ds_jumps_read = 0, ds_last_lba = 0,
     ds_last_wr_lba = 0, ds_last_rd_lba = 0\<rparr>"

text \<open>
  Arrays over the logical units are lists of \<^verbatim>\<open>CONFIG_DISK_MAX_LUNS\<close> entries.  \<open>g_work\<close> are the flags
  \<^verbatim>\<open>HAS_WORK\<close> of the workers, \<open>g_fptr\<close> tells whether a trace file is open, \<open>g_trace\<close> are the lines
  written to it without their times (write or read, byte offset, byte count), \<open>g_tracefile\<close> is the
  address of the buffer with its name, and \<open>g_medium\<close> are the bytes of the device or file \<^verbatim>\<open>g_device\<close>.
\<close>

record disk =
  g_type :: disk_type
  g_direct :: bool
  g_sync :: bool
  g_disk_num_blocks :: u64
  g_disk_block_len :: u32
  g_disk_num_luns :: u32
  g_ramdisk :: "ptr list"
  g_device_stats :: "device_stats list"
  g_cmd_queue :: "iscsi_queue list"
  g_staging_queue :: "iscsi_queue list"
  g_work :: "bool list list"
  g_crash :: int
  g_tracing :: bool
  g_fptr :: "bool list"
  g_trace :: "(bool \<times> u64 \<times> u32) list"
  g_tracefile :: ptr
  g_medium :: "nat \<Rightarrow> byte"

definition CONFIG_DISK_MAX_LUNS :: nat where "CONFIG_DISK_MAX_LUNS = 1"
definition CONFIG_DISK_MAX_BURST :: u32 where "CONFIG_DISK_MAX_BURST = 1048576"
definition CONFIG_LUN_QUEUE_DEPTH :: nat where "CONFIG_LUN_QUEUE_DEPTH = 256"
definition CONFIG_MAX_FILENAME :: nat where "CONFIG_MAX_FILENAME = 1024"

definition blank_disk :: disk where
  "blank_disk = \<lparr>g_type = DISK_RAM, g_direct = False, g_sync = False, g_disk_num_blocks = 262144,
     g_disk_block_len = 512, g_disk_num_luns = 1, g_ramdisk = [NULL], g_device_stats = [blank_stats],
     g_cmd_queue = [\<lparr>q_head = 0, q_tail = 0, q_count = 0, q_elem = [], q_depth = 0\<rparr>],
     g_staging_queue = [\<lparr>q_head = 0, q_tail = 0, q_count = 0, q_elem = [], q_depth = 0\<rparr>],
     g_work = [[]], g_crash = - 1, g_tracing = True, g_fptr = [False], g_trace = [],
     g_tracefile = NULL, g_medium = (\<lambda>_. 0)\<rparr>"

end
