(* ===== verification/Osd_State.thy ===== *)
theory Osd_State
  imports Session_Base "HOL-Library.AList"
begin

section \<open>The state of an object-based storage device\<close>

text \<open>
  The device of \<^verbatim>\<open>osd.c\<close> keeps its objects as files: group \<open>g\<close> of unit \<open>l\<close> is the directory
  \<^verbatim>\<open>base_dir/lun_l/0xg\<close>, object \<open>u\<close> of it the file \<^verbatim>\<open>0xu\<close> there, and attribute \<open>i\<close> of page \<open>p\<close> of that
  object the file \<^verbatim>\<open>0xu.0xp.i\<close> beside it.  This theory has the names and the calls of the file system that
  the device makes, as POSIX describes them, on a list of directories and a list of named files;
  every call may also be refused by the system, which the device's parameters decide.
\<close>

subsection \<open>Names\<close>

definition hex_digit :: "nat \<Rightarrow> char" where
  "hex_digit n = (if n < 10 then char_of (48 + n) else char_of (87 + n))"

text \<open>\<^verbatim>\<open>sprintf(s, "%x", n)\<close>\<close>

fun nat_hex :: "nat \<Rightarrow> string" where
  "nat_hex n = (if n < 16 then [hex_digit n] else nat_hex (n div 16) @ [hex_digit (n mod 16)])"

declare nat_hex.simps [simp del]

definition lun_path :: "string \<Rightarrow> u64 \<Rightarrow> string" where
  "lun_path base lun = base @ ''/lun_'' @ nat_dec (unat lun)"

definition group_path :: "string \<Rightarrow> u64 \<Rightarrow> u32 \<Rightarrow> string" where
  "group_path base lun gid = lun_path base lun @ ''/0x'' @ nat_hex (unat gid)"

definition object_path :: "string \<Rightarrow> u64 \<Rightarrow> u32 \<Rightarrow> u64 \<Rightarrow> string" where
  "object_path base lun gid uid = group_path base lun gid @ ''/0x'' @ nat_hex (unat uid)"

definition attr_path :: "string \<Rightarrow> u64 \<Rightarrow> u32 \<Rightarrow> u64 \<Rightarrow> u32 \<Rightarrow> u32 \<Rightarrow> string" where
  "attr_path base lun gid uid page index =
     object_path base lun gid uid @ ''.0x'' @ nat_hex (unat page) @ ''.'' @ nat_dec (unat index)"

subsection \<open>State\<close>

text \<open>\<open>o_rands\<close> counts the calls of \<^verbatim>\<open>rand()\<close>.\<close>

record osd =
  o_num_luns :: u32
  o_base :: string
  o_dirs :: "string list"
  o_files :: "(string \<times> byte list) list"
  o_queue :: "iscsi_queue list"
  o_rands :: nat

definition blank_osd :: osd where
  "blank_osd = \<lparr>o_num_luns = 1, o_base = ''/tmp/iscsi_osd'', o_dirs = [], o_files = [], o_queue = [], o_rands = 0\<rparr>"

definition osd_file :: "osd \<Rightarrow> string \<Rightarrow> byte list option" where
  "osd_file d f = map_of (o_files d) f"

subsection \<open>Calls of the file system\<close>

datatype 'a call = Done 'a | Exists | Refused

text \<open>\<^verbatim>\<open>mkdir\<close>; \<open>ok\<close> tells whether the system allows it.\<close>

definition fs_mkdir :: "bool \<Rightarrow> string \<Rightarrow> string \<Rightarrow> osd \<Rightarrow> osd call" where
  "fs_mkdir ok parent dir d =
    (if dir \<in> set (o_dirs d) \<or> osd_file d dir \<noteq> None then Exists
     else if parent \<notin> set (o_dirs d) \<or> \<not> ok then Refused
     else Done (d\<lparr>o_dirs := dir # o_dirs d\<rparr>))"

definition under :: "string \<Rightarrow> string \<Rightarrow> bool" where
  "under dir f \<longleftrightarrow> take (length dir + 1) f = dir @ ''/''"

text \<open>\<^verbatim>\<open>rmdir\<close> removes an empty directory.\<close>

definition fs_rmdir :: "bool \<Rightarrow> string \<Rightarrow> osd \<Rightarrow> osd call" where
  "fs_rmdir ok dir d =
    (if dir \<notin> set (o_dirs d) \<or> \<not> ok \<or> list_ex (under dir) (o_dirs d) \<or> list_ex (under dir \<circ> fst) (o_files d)
     then Refused
     else Done (d\<lparr>o_dirs := removeAll dir (o_dirs d)\<rparr>))"

text \<open>
  \<^verbatim>\<open>open\<close> with \<^verbatim>\<open>O_CREAT\<close>, and with \<^verbatim>\<open>O_TRUNC\<close> if \<open>trunc\<close>: the file exists afterwards.
\<close>

definition fs_create :: "bool \<Rightarrow> bool \<Rightarrow> string \<Rightarrow> string \<Rightarrow> osd \<Rightarrow> osd call" where
  "fs_create ok trunc parent f d =
    (if parent \<notin> set (o_dirs d) \<or> f \<in> set (o_dirs d) \<or> \<not> ok then Refused
     else if osd_file d f = None \<or> trunc then Done (d\<lparr>o_files := AList.update f [] (o_files d)\<rparr>)
     else Done d)"

text \<open>\<^verbatim>\<open>lseek\<close> and \<^verbatim>\<open>write\<close>: a gap behind the end of the file reads as zeros.\<close>

definition splice :: "nat \<Rightarrow> byte list \<Rightarrow> byte list \<Rightarrow> byte list" where
  "splice off bs old = take off (old @ replicate (off - length old) 0) @ bs @ drop (off + length bs) old"

definition fs_write :: "string \<Rightarrow> nat \<Rightarrow> byte list \<Rightarrow> osd \<Rightarrow> osd" where
  "fs_write f off bs d =
    (case osd_file d f of
       None \<Rightarrow> d
     | Some old \<Rightarrow> if bs = [] then d else d\<lparr>o_files := AList.update f (splice off bs old) (o_files d)\<rparr>)"

text \<open>\<^verbatim>\<open>lseek\<close> and \<^verbatim>\<open>read\<close>: what there is, up to \<open>n\<close> bytes.\<close>

definition fs_read :: "string \<Rightarrow> nat \<Rightarrow> nat \<Rightarrow> osd \<Rightarrow> byte list" where
  "fs_read f off n d = (case osd_file d f of None \<Rightarrow> [] | Some bs \<Rightarrow> take n (drop off bs))"

text \<open>
  \<^verbatim>\<open>rm -f prefix*\<close> through the shell, for a prefix that ends within a name: the star does not match
  a slash.
\<close>

definition matches :: "string \<Rightarrow> string \<Rightarrow> bool" where
  "matches prefix f \<longleftrightarrow> take (length prefix) f = prefix \<and> CHR ''/'' \<notin> set (drop (length prefix) f)"

definition fs_remove_matching :: "string \<Rightarrow> osd \<Rightarrow> osd" where
  "fs_remove_matching prefix d = d\<lparr>o_files := filter (\<lambda>(f, bs). \<not> matches prefix f) (o_files d)\<rparr>"

end
