(* ===== verification/Target_Session.thy ===== *)
theory Target_Session
  imports Session_Base Counters Disk_State Osd_State
begin

section \<open>The session of a target\<close>

text \<open>
  The state of a \<^verbatim>\<open>TARGET_SESSION_T\<close> of \<^verbatim>\<open>target.h\<close> with what belongs to it in \<^verbatim>\<open>target.c\<close> (the
  queues of free headers and commands, the cookie, the counters of the devices) and its
  connection, and the handlers of \<^verbatim>\<open>target.c\<close> that answer on their own: reject, task management,
  NOP-Out, text, login and logout, and the check that comes before all of them.  The parameter
  list, the outgoing text and the cookie form a \<open>parse_state\<close> as in \<open>Parameters\<close>; the table of
  commands and the queues are those of \<open>Hash_Table\<close> and \<open>Ring_Queue\<close>.
\<close>

subsection \<open>State\<close>

text \<open>
  A target command.  \<open>tg_gather\<close> is \<^verbatim>\<open>gather_list\<close> up to \<^verbatim>\<open>gather_len\<close>, \<open>tg_scatter\<close> likewise, \<open>tg_send_data\<close>
  tells whether \<^verbatim>\<open>scsi_cmd.send_data\<close> is not NULL, and \<open>tg_header\<close> is the pointer to the PDU's header.
  The scatter list and what follows it belong to the device; \<open>tg_lba\<close> and \<open>tg_len\<close> are its private
  data in \<^verbatim>\<open>scsi_cmd\<close>.  The session's state ends with the memory that scatter and gather lists point
  to, the state of the device (of the disk or of the object device, whichever the program was linked
  with), and the connection.
\<close>

record target_cmd =
  tg_scsi :: iscsi_scsi_cmd_t
  tg_header :: ptr
  tg_gather :: "iovec list"
  tg_send_data :: bool
  tg_r2t_flag :: bool
  tg_ready :: bool
  tg_immediate :: "byte list"
  tg_scatter :: "iovec list"
  tg_scatter_type :: "nat \<Rightarrow> nat"
  tg_scatter_align :: "nat \<Rightarrow> nat"
  tg_gather_type :: "nat \<Rightarrow> nat"
  tg_gather_align :: "nat \<Rightarrow> nat"
  tg_done :: bool
  tg_is_write :: bool
  tg_lba :: u64
  tg_len :: u64

record target_session =
  t_id :: nat
  t_cid :: u16
  t_StatSN :: u32
  t_ExpCmdSN :: u32
  t_MaxCmdSN :: u32
  t_UsePhaseCollapsedRead :: bool
  t_IsFullFeature :: bool
  t_IsLoggedIn :: bool
  t_LoginStarted :: bool
  t_Authenticated :: bool
  t_isid :: u64
  t_tsih :: c_int
  t_text :: parse_state
  t_sess_params :: iscsi_sess_param
  t_slock :: bool
  t_cmds :: hash_state
  t_cmd_mem :: "ptr \<Rightarrow> target_cmd"
  t_cmd_q :: iscsi_queue
  t_header_mem :: "ptr \<Rightarrow> header"
  t_header_q :: iscsi_queue
  t_counters :: "u64 \<Rightarrow> ost_counters"
  t_nop_flag :: bool
  t_mem :: "nat \<Rightarrow> byte"
  t_disk :: disk
  t_osd :: osd
  t_in :: "byte list"
  t_out :: "byte list list"
  t_sends :: nat

text \<open>
  What the session takes from outside: the digest, the random bytes and the contents of fresh
  memory for the text functions, whether the \<open>n\<close>-th message on the connection can be sent, the
  name of the target and its address.
\<close>

record target_env =
  e_chap :: chap_env
  e_key0 :: string
  e_send_ok :: "nat \<Rightarrow> bool"
  e_hostname :: string
  e_TargetAddress :: string

text \<open>
  How a call ends: it returns a code; it ends the process by \<^verbatim>\<open>exit(1)\<close>; it waits for a lock or a
  signal that no step of its own will give; it loops for ever; or its behaviour is undefined (or
  stopped by an assertion).
\<close>

datatype outcome =
    Return int target_session | Exits target_session | Blocks target_session | Diverges | Undef

definition params :: "target_session \<Rightarrow> iscsi_param list" where
  "params s = s_params (t_text s)"

definition set_params :: "iscsi_param list \<Rightarrow> target_session \<Rightarrow> target_session" where
  "set_params ps s = s\<lparr>t_text := (t_text s)\<lparr>s_params := ps\<rparr>\<rparr>"

subsection \<open>The connection\<close>

text \<open>
  \<^verbatim>\<open>iscsi_sock_msg\<close> and \<^verbatim>\<open>iscsi_sock_send_header_and_data\<close> as the session sees them: a message is moved
  whole, with its padding, or the call fails (theory \<open>Socket\<close>).  \<open>t_in\<close> are the bytes the peer has
  sent and \<open>t_out\<close> the messages sent, without padding.
\<close>

definition sock_recv :: "nat \<Rightarrow> target_session \<Rightarrow> byte list option \<times> target_session" where
  "sock_recv len s =
    (let total = len + padding_for len
     in if len < 2 ^ 31 \<and> total \<le> length (t_in s)
        then (Some (take len (t_in s)), s\<lparr>t_in := drop total (t_in s)\<rparr>)
        else (None, s\<lparr>t_in := []\<rparr>))"

definition sock_send :: "'e target_env_scheme \<Rightarrow> byte list \<Rightarrow> target_session \<Rightarrow> bool \<times> target_session" where
  "sock_send env msg s =
    (let ok = e_send_ok env (t_sends s);
         s = s\<lparr>t_sends := t_sends s + 1\<rparr>
     in (ok, if ok then s\<lparr>t_out := t_out s @ [msg]\<rparr> else s))"

definition send_header_and_data ::
  "'e target_env_scheme \<Rightarrow> header \<Rightarrow> byte list \<Rightarrow> target_session \<Rightarrow> bool \<times> target_session" where
  "send_header_and_data env h data s =
    (case sock_send env h s of
       (ok, s) \<Rightarrow> if ok \<and> data \<noteq> [] then sock_send env data s else (ok, s))"

text \<open>\<^verbatim>\<open>ISCSI_SPIN_LOCK_ELSE(&sess->slock, ...)\<close> and \<^verbatim>\<open>ISCSI_SPIN_UNLOCK_ELSE\<close>.\<close>

definition spin_lock :: "target_session \<Rightarrow> (target_session \<Rightarrow> outcome) \<Rightarrow> outcome" where
  "spin_lock s k = (if t_slock s then Blocks s else k (s\<lparr>t_slock := True\<rparr>))"

definition spin_unlock :: "target_session \<Rightarrow> target_session" where
  "spin_unlock s = s\<lparr>t_slock := False\<rparr>"

text \<open>Lock, send, unlock on both ways out: \<open>k\<close> continues after a message that was sent.\<close>

definition locked_send ::
  "'e target_env_scheme \<Rightarrow> header \<Rightarrow> byte list \<Rightarrow> target_session \<Rightarrow> (target_session \<Rightarrow> outcome) \<Rightarrow> outcome" where
  "locked_send env h data s k =
    spin_lock s (\<lambda>s.
      case send_header_and_data env h data s of
        (ok, s) \<Rightarrow> if \<not> ok then Return (-1) (spin_unlock s) else k (spin_unlock s))"

subsection \<open>Reject\<close>

definition reject_t :: "'e target_env_scheme \<Rightarrow> header \<Rightarrow> byte \<Rightarrow> target_session \<Rightarrow> outcome" where
  "reject_t env h reason s =
    (let s = s\<lparr>t_StatSN := t_StatSN s + 1\<rparr>;
         reject = \<lparr>rj_reason = reason, rj_length = of_nat ISCSI_HEADER_LEN, rj_StatSN = t_StatSN s,
                   rj_ExpCmdSN = t_ExpCmdSN s, rj_MaxCmdSN = t_MaxCmdSN s, rj_DataSN = 0\<rparr>
     in locked_send env (iscsi_reject_encap reject) h s (Return 0))"

subsection \<open>Task management\<close>

definition ISCSI_TASK_RSP_FUNCTION_COMPLETE :: byte where "ISCSI_TASK_RSP_FUNCTION_COMPLETE = 0"
definition ISCSI_TASK_RSP_REJECTED :: byte where "ISCSI_TASK_RSP_REJECTED = 255"

definition blank_task_cmd :: iscsi_task_cmd_t where
  "blank_task_cmd = \<lparr>tc_immediate = 0, tc_function = 0, tc_lun = 0, tc_tag = 0, tc_ref_tag = 0,
     tc_CmdSN = 0, tc_ExpStatSN = 0, tc_RefCmdSN = 0, tc_ExpDataSN = 0\<rparr>"

definition task_command_t :: "'e target_env_scheme \<Rightarrow> header \<Rightarrow> target_session \<Rightarrow> outcome" where
  "task_command_t env h s =
    (case iscsi_task_cmd_decap h blank_task_cmd of
       (rc, cmd) \<Rightarrow>
         if rc \<noteq> 0 then Return (-1) s
         else
           let s = (if tc_CmdSN cmd \<noteq> t_ExpCmdSN s then s\<lparr>t_ExpCmdSN := tc_CmdSN cmd\<rparr> else s);
               s = s\<lparr>t_MaxCmdSN := t_MaxCmdSN s + 1\<rparr>;
               response = (if tc_function cmd \<in> {1, 2, 3, 4, 5, 6, 7, 8}
                           then ISCSI_TASK_RSP_FUNCTION_COMPLETE else ISCSI_TASK_RSP_REJECTED);
               s = s\<lparr>t_StatSN := t_StatSN s + 1\<rparr>;
               rsp = \<lparr>tr_response = response, tr_length = 0, tr_tag = tc_tag cmd,
                      tr_StatSN = t_StatSN s, tr_ExpCmdSN = t_ExpCmdSN s, tr_MaxCmdSN = t_MaxCmdSN s\<rparr>
           in case sock_send env (iscsi_task_rsp_encap rsp) s of
                (ok, s) \<Rightarrow> if \<not> ok then Return (-1) s else Return 0 s)"

subsection \<open>NOP-Out\<close>

text \<open>
  The static \<^verbatim>\<open>flag\<close> of the function (\<open>t_nop_flag\<close>) limits not only the message but also the
  correction of \<^verbatim>\<open>ExpCmdSN\<close> to the first mismatch.
\<close>

definition nop_out_t :: "'e target_env_scheme \<Rightarrow> header \<Rightarrow> target_session \<Rightarrow> outcome" where
  "nop_out_t env h s =
    (case iscsi_nop_out_decap h blank_nop_out of
       (rc, nop) \<Rightarrow>
         if rc \<noteq> 0 then Return (-1) s
         else
           let s = (if no_CmdSN nop \<noteq> t_ExpCmdSN s \<and> \<not> t_nop_flag s
                    then s\<lparr>t_ExpCmdSN := no_CmdSN nop, t_nop_flag := True\<rparr> else s)
           in case (if no_length nop \<noteq> 0 then sock_recv (unat (no_length nop)) s else (Some [], s)) of
                (None, s) \<Rightarrow> Return (-1) s
              | (Some ping, s) \<Rightarrow>
                  if no_tag nop \<noteq> 0xffffffff then
                    let stat = t_StatSN s;
                        s = s\<lparr>t_StatSN := t_StatSN s + 1\<rparr>;
                        s = s\<lparr>t_ExpCmdSN := t_ExpCmdSN s + 1\<rparr>;
                        s = s\<lparr>t_MaxCmdSN := t_MaxCmdSN s + 1\<rparr>;
                        nop_in = \<lparr>ni_length = no_length nop, ni_lun = no_lun nop, ni_tag = no_tag nop,
                                  ni_transfer_tag = 0xffffffff, ni_StatSN = stat,
                                  ni_ExpCmdSN = t_ExpCmdSN s, ni_MaxCmdSN = t_MaxCmdSN s\<rparr>
                    in locked_send env (iscsi_nop_in_encap nop_in) ping s (Return 0)
                  else Return 0 s)"

subsection \<open>Text\<close>

definition CONFIG_TARGET_USER_IN :: string where "CONFIG_TARGET_USER_IN = ''foo''"
definition CONFIG_TARGET_PASS_IN :: string where "CONFIG_TARGET_PASS_IN = ''bar''"
definition CONFIG_TARGET_USER_OUT :: string where "CONFIG_TARGET_USER_OUT = ''foo''"
definition CONFIG_TARGET_PASS_OUT :: string where "CONFIG_TARGET_PASS_OUT = ''bar''"

text \<open>The names and passwords that the handlers give to \<^verbatim>\<open>param_text_parse\<close>.\<close>

definition chap_config :: "'e target_env_scheme \<Rightarrow> string \<Rightarrow> chap_env" where
  "chap_config env user = (e_chap env)
     \<lparr>e_InitiatorUser := user, e_InitiatorPass := CONFIG_TARGET_PASS_IN,
      e_TargetUser := CONFIG_TARGET_USER_OUT, e_TargetPass := CONFIG_TARGET_PASS_OUT\<rparr>"

text \<open>\<^verbatim>\<open>param_val(sess->params, "CHAP_N")\<close>; the parameter table always has the key with a value.\<close>

definition chap_user :: "target_session \<Rightarrow> string" where
  "chap_user s = (case param_val (params s) ''CHAP_N'' of None \<Rightarrow> [] | Some u \<Rightarrow> u)"

text \<open>\<^verbatim>\<open>param_text_parse\<close> on the session: the return code, or \<open>Undef\<close>.\<close>

definition parse_then ::
  "'e target_env_scheme \<Rightarrow> string \<Rightarrow> bool \<Rightarrow> string \<Rightarrow> target_session \<Rightarrow>
   (int \<Rightarrow> target_session \<Rightarrow> outcome) \<Rightarrow> outcome" where
  "parse_then env user outgoing txt s k =
    (case param_text_parse (chap_config env user) (e_key0 env) outgoing txt (t_text s) of
       None \<Rightarrow> Undef
     | Some (rc, st) \<Rightarrow> k rc (s\<lparr>t_text := st\<rparr>))"

text \<open>\<^verbatim>\<open>PARAM_TEXT_ADD_ELSE\<close> with an error branch that returns -1.\<close>

definition text_add_then ::
  "string \<Rightarrow> string \<Rightarrow> target_session \<Rightarrow> (target_session \<Rightarrow> outcome) \<Rightarrow> outcome" where
  "text_add_then key val s k =
    (case param_text_add key val (s_out (t_text s)) of
       (rc, out) \<Rightarrow> if rc \<noteq> 0 then Return (-1) s
                    else k (s\<lparr>t_text := (t_text s)\<lparr>s_out := out\<rparr>\<rparr>))"

text \<open>The answer to \<^verbatim>\<open>SendTargets\<close>, which the parameter code does not give.\<close>

definition send_targets_then ::
  "'e target_env_scheme \<Rightarrow> target_session \<Rightarrow> (target_session \<Rightarrow> outcome) \<Rightarrow> outcome" where
  "send_targets_then env s k =
    (case param_get (params s) ''SendTargets'' of
       None \<Rightarrow> Return (-1) s
     | Some p \<Rightarrow>
         let clear = (\<lambda>s. k (set_params (param_upd ''SendTargets'' (p_rx_offer_update (\<lambda>_. False)) (params s)) s))
         in if p_rx_offer p then
              if p_offer_rx p = ''All'' \<and> param_equiv (params s) ''SessionType'' ''Discovery'' \<noteq> 0
              then text_add_then ''SendTargets'' ''Reject'' s clear
              else text_add_then ''TargetName'' (e_hostname env) s (\<lambda>s.
                     text_add_then ''TargetAddress'' (e_TargetAddress env) s clear)
            else k s)"

definition text_respond ::
  "'e target_env_scheme \<Rightarrow> iscsi_text_cmd_t \<Rightarrow> target_session \<Rightarrow> outcome" where
  "text_respond env cmd s =
    (let s = (if t_IsFullFeature s
              then s\<lparr>t_sess_params := set_session_parameters (params s)\<rparr> else s);
         text_out = s_out (t_text s);
         stat = t_StatSN s;
         s = s\<lparr>t_StatSN := t_StatSN s + 1\<rparr>;
         rsp = \<lparr>xr_final = xc_final cmd, xr_cont = 0, xr_length = of_nat (length text_out),
                xr_lun = xc_lun cmd, xr_tag = xc_tag cmd,
                xr_transfer_tag = (if xc_final cmd \<noteq> 0 then 0xffffffff else 0x1234),
                xr_StatSN = stat, xr_ExpCmdSN = t_ExpCmdSN s, xr_MaxCmdSN = t_MaxCmdSN s\<rparr>
     in case sock_send env (iscsi_text_rsp_encap rsp) s of
          (ok, s) \<Rightarrow>
            if \<not> ok then Return (-1) s
            else if text_out \<noteq> [] then
              case sock_send env (chars_bytes text_out) s of
                (ok, s) \<Rightarrow> if \<not> ok then Return (-1) s else Return 0 s
            else Return 0 s)"

definition text_command_t :: "'e target_env_scheme \<Rightarrow> header \<Rightarrow> target_session \<Rightarrow> outcome" where
  "text_command_t env h s =
    (case iscsi_text_cmd_decap h blank_text_cmd of
       (rc, cmd) \<Rightarrow>
         if rc \<noteq> 0 then Return (-1) s
         else if xc_cont cmd \<noteq> 0 then Return (-1) s
         else if xc_CmdSN cmd \<noteq> t_ExpCmdSN s then Return (-1) s
         else
           let s = s\<lparr>t_ExpCmdSN := t_ExpCmdSN s + 1\<rparr>;
               s = s\<lparr>t_MaxCmdSN := t_MaxCmdSN s + 1\<rparr>;
               s = s\<lparr>t_text := (t_text s)\<lparr>s_out := []\<rparr>\<rparr>
           in if xc_length cmd \<noteq> 0 then
                case sock_recv (unat (xc_length cmd)) s of
                  (None, s) \<Rightarrow> Return (-1) s
                | (Some bytes, s) \<Rightarrow>
                    parse_then env (chap_user s) False (bytes_text bytes) s (\<lambda>rc s.
                      if rc \<noteq> 0 then Return (-1) s
                      else send_targets_then env s (\<lambda>s.
                        if s_out (t_text s) \<noteq> [] then
                          parse_then env (chap_user s) True (s_out (t_text s)) s (\<lambda>rc s.
                            if rc \<noteq> 0 then Return (-1) s else text_respond env cmd s)
                        else text_respond env cmd s))
              else text_respond env cmd s)"

subsection \<open>Login\<close>

text \<open>The last stage of a login is asked for: the flag \<^verbatim>\<open>transit\<close> with the full-feature stage next.\<close>

definition to_full_feature :: "iscsi_login_cmd_t \<Rightarrow> bool" where
  "to_full_feature cmd \<longleftrightarrow> lc_transit cmd \<noteq> 0 \<and> lc_nsg cmd = ISCSI_LOGIN_STAGE_FULL_FEATURE"

text \<open>The checks of the request: the response with which it is refused, or \<open>None\<close>.\<close>

definition login_refusal :: "iscsi_login_cmd_t \<Rightarrow> iscsi_login_rsp_t \<Rightarrow> iscsi_login_rsp_t option" where
  "login_refusal cmd rsp =
    (if lc_cont cmd \<noteq> 0 \<and> lc_transit cmd \<noteq> 0 then Some rsp
     else if lc_version_max cmd < ISCSI_VERSION \<or> lc_version_min cmd > ISCSI_VERSION then
       Some (rsp\<lparr>lr_status_class := ISCSI_LOGIN_STATUS_INITIATOR_ERROR, lr_status_detail := 5,
                 lr_version_max := ISCSI_VERSION, lr_version_active := ISCSI_VERSION\<rparr>)
     else if lc_tsih cmd \<noteq> 0 then Some rsp
     else None)"

text \<open>The conditions on the parameters before the full-feature phase.\<close>

definition login_post_ok :: "'e target_env_scheme \<Rightarrow> target_session \<Rightarrow> bool" where
  "login_post_ok env s =
    (let ps = params s
     in if param_equiv ps ''InitiatorName'' [] = 0 then False
        else if param_equiv ps ''SessionType'' ''Normal'' = 0 \<and>
                (param_equiv ps ''TargetName'' [] = 0 \<or>
                 param_equiv ps ''TargetName'' (e_hostname env) \<noteq> 0) then False
        else param_equiv ps ''SessionType'' [] \<noteq> 0)"

text \<open>From the label \<open>response\<close> on.\<close>

definition login_respond ::
  "'e target_env_scheme \<Rightarrow> iscsi_login_cmd_t \<Rightarrow> iscsi_login_rsp_t \<Rightarrow> target_session \<Rightarrow> outcome" where
  "login_respond env cmd rsp s =
    (let s = s\<lparr>t_ExpCmdSN := lc_CmdSN cmd, t_MaxCmdSN := lc_CmdSN cmd\<rparr>;
         rsp = rsp\<lparr>lr_isid := lc_isid cmd, lr_StatSN := lc_ExpStatSN cmd, lr_tag := lc_tag cmd,
                   lr_cont := lc_cont cmd, lr_ExpCmdSN := t_ExpCmdSN s, lr_MaxCmdSN := t_MaxCmdSN s\<rparr>;
         done = (lr_status_class rsp = 0 \<and> lr_transit rsp \<noteq> 0 \<and>
                 lr_nsg rsp = ISCSI_LOGIN_STAGE_FULL_FEATURE);
         s = (if done then s\<lparr>t_StatSN := t_StatSN s + 1\<rparr> else s);
         rsp = (if done then rsp\<lparr>lr_version_max := ISCSI_VERSION, lr_version_active := ISCSI_VERSION,
                                 lr_StatSN := t_StatSN s, lr_tsih := ucast (t_tsih s)\<rparr> else rsp);
         data = take (unat (lr_length rsp)) (chars_bytes (s_out (t_text s)))
     in locked_send env (iscsi_login_rsp_encap rsp) data s (\<lambda>s.
          if lr_status_class rsp \<noteq> 0 then Return (-1) s
          else if to_full_feature cmd then
            if param_val (params s) ''AuthMethod'' = None \<or> param_val (params s) ''InitiatorName'' = None
            then Undef
            else Return 0 (s\<lparr>t_StatSN := t_StatSN s + 1\<rparr>)
          else Return 0 s))"

text \<open>The session enters the full-feature phase.\<close>

definition login_enter ::
  "iscsi_login_cmd_t \<Rightarrow> target_session \<Rightarrow> (target_session \<Rightarrow> outcome) \<Rightarrow> outcome" where
  "login_enter cmd s k =
    (let s = s\<lparr>t_ExpCmdSN := lc_CmdSN cmd, t_MaxCmdSN := lc_CmdSN cmd, t_cid := lc_cid cmd,
               t_isid := lc_isid cmd, t_tsih := of_nat (t_id s + 1), t_IsFullFeature := True,
               t_IsLoggedIn := True\<rparr>;
         go = (\<lambda>s. k (s\<lparr>t_sess_params := set_session_parameters (params s)\<rparr>))
     in if param_equiv (params s) ''SessionType'' ''Discovery'' = 0 then
          case param_set_val (params s) ''MaxConnections'' ''1'' of
            None \<Rightarrow> Undef
          | Some ps \<Rightarrow> go (set_params ps s)
        else go s)"

text \<open>After the text is parsed and answered.\<close>

definition login_stage ::
  "'e target_env_scheme \<Rightarrow> iscsi_login_cmd_t \<Rightarrow> iscsi_login_rsp_t \<Rightarrow> target_session \<Rightarrow> outcome" where
  "login_stage env cmd rsp s =
    (let s = s\<lparr>t_LoginStarted := True\<rparr>;
         rsp = rsp\<lparr>lr_csg := lc_csg cmd, lr_nsg := lc_nsg cmd, lr_transit := lc_transit cmd\<rparr>;
         security = (lc_csg cmd = ISCSI_LOGIN_STAGE_SECURITY);
         auth = (\<lambda>v. param_equiv (params s) ''AuthResult'' v = 0);
         rsp = (if security \<and> auth ''No'' then rsp\<lparr>lr_transit := 0\<rparr> else rsp)
     in if security \<and> \<not> auth ''No'' \<and> auth ''Fail'' then
          login_respond env cmd (rsp\<lparr>lr_status_class := 1, lr_status_detail := 1\<rparr>) s
        else
          let s = (if security \<and> auth ''Yes'' then s\<lparr>t_Authenticated := True\<rparr> else s);
              success = (\<lambda>s. login_respond env cmd
                 (rsp\<lparr>lr_status_class := 0, lr_status_detail := 0,
                      lr_length := of_nat (length (s_out (t_text s)))\<rparr>) s)
          in if to_full_feature cmd then
               if \<not> login_post_ok env s then login_respond env cmd rsp s
               else login_enter cmd s success
             else success s)"

definition login_command_t :: "'e target_env_scheme \<Rightarrow> header \<Rightarrow> target_session \<Rightarrow> outcome" where
  "login_command_t env h s =
    (let rsp = blank_login_rsp\<lparr>lr_status_class := ISCSI_LOGIN_STATUS_INITIATOR_ERROR\<rparr>;
         s = s\<lparr>t_text := (t_text s)\<lparr>s_out := []\<rparr>\<rparr>
     in case iscsi_login_cmd_decap h blank_login_cmd of
       (rc, cmd) \<Rightarrow>
         if rc \<noteq> 0 then login_respond env cmd rsp s
         else case login_refusal cmd rsp of
           Some rsp \<Rightarrow> login_respond env cmd rsp s
         | None \<Rightarrow>
             if lc_length cmd \<noteq> 0 then
               case sock_recv (unat (lc_length cmd)) s of
                 (None, s) \<Rightarrow> Return (-1) s
               | (Some bytes, s) \<Rightarrow>
                   parse_then env CONFIG_TARGET_USER_IN False (bytes_text bytes) s (\<lambda>status s.
                     if status \<noteq> 0 then
                       login_respond env cmd (rsp\<lparr>lr_status_detail := (if status = -2 then 1 else 0)\<rparr>) s
                     else
                       let offer = (\<lambda>s.
                             if s_out (t_text s) \<noteq> [] then
                               parse_then env (chap_user s) True (s_out (t_text s)) s (\<lambda>rc s.
                                 if rc \<noteq> 0 then Return (-1) s else login_stage env cmd rsp s)
                             else login_stage env cmd rsp s)
                       in if \<not> t_LoginStarted s
                          then text_add_then ''TargetPortalGroupTag'' ''1'' s offer
                          else offer s)
             else login_stage env cmd rsp s)"

subsection \<open>Logout\<close>

definition ISCSI_LOGOUT_CLOSE_RECOVERY :: byte where "ISCSI_LOGOUT_CLOSE_RECOVERY = 2"
definition ISCSI_LOGOUT_STATUS_NO_RECOVERY :: byte where "ISCSI_LOGOUT_STATUS_NO_RECOVERY = 2"

text \<open>The check of \<^verbatim>\<open>ExpStatSN\<close> compares the number with the copy just made of it.\<close>

definition logout_command_t :: "'e target_env_scheme \<Rightarrow> header \<Rightarrow> target_session \<Rightarrow> outcome" where
  "logout_command_t env h s =
    (case iscsi_logout_cmd_decap h blank_logout_cmd of
       (rc, cmd) \<Rightarrow>
         if rc \<noteq> 0 then Return (-1) s
         else
           let s = s\<lparr>t_StatSN := oc_ExpStatSN cmd\<rparr>;
               response = (if oc_reason cmd = ISCSI_LOGOUT_CLOSE_RECOVERY \<and>
                              param_equiv (params s) ''ErrorRecoveryLevel'' ''0'' = 0
                           then ISCSI_LOGOUT_STATUS_NO_RECOVERY else 0)
           in if oc_ExpStatSN cmd \<noteq> t_StatSN s then Return (-1) s
              else
                let s = s\<lparr>t_ExpCmdSN := t_ExpCmdSN s + 1\<rparr>;
                    rsp = \<lparr>or_response = response, or_length = 0, or_tag = oc_tag cmd,
                           or_StatSN = t_StatSN s, or_ExpCmdSN = t_ExpCmdSN s,
                           or_MaxCmdSN = t_MaxCmdSN s, or_Time2Wait = 0, or_Time2Retain = 0\<rparr>
                in case sock_send env (iscsi_logout_rsp_encap rsp) s of
                     (ok, s) \<Rightarrow> if \<not> ok then Return (-1) s
                                else Return 0 (s\<lparr>t_IsLoggedIn := False\<rparr>))"

subsection \<open>The check before every handler\<close>

text \<open>The login response with which a request before the full-feature phase is refused.\<close>

definition phase_reject :: iscsi_login_rsp_t where
  "phase_reject = blank_login_rsp
     \<lparr>lr_status_class := ISCSI_LOGIN_STATUS_INITIATOR_ERROR, lr_status_detail := 0x0b,
      lr_version_max := ISCSI_VERSION, lr_version_active := ISCSI_VERSION\<rparr>"

definition verify_cmd_t :: "'e target_env_scheme \<Rightarrow> header \<Rightarrow> target_session \<Rightarrow> outcome" where
  "verify_cmd_t env h s =
    (let op = iscsi_opcode h
     in if \<not> t_LoginStarted s \<and> op \<noteq> ISCSI_LOGIN_CMD then Return (-1) s
        else if \<not> t_IsFullFeature s \<and> op \<noteq> ISCSI_LOGIN_CMD \<and> op \<noteq> ISCSI_LOGOUT_CMD then
          locked_send env (iscsi_login_rsp_encap phase_reject) [] s (Return (-1))
        else Return 0 s)"

end
