(* ===== verification/Target_Data.thy ===== *)
theory Target_Data
  imports Target_Session
begin

section \<open>SCSI commands and their data\<close>

text \<open>
  The handlers of \<^verbatim>\<open>target.c\<close> that work with the device: a SCSI command from its arrival
  (\<^verbatim>\<open>scsi_command_t\<close>) to its response (\<^verbatim>\<open>device_command_done\<close>), the transfer of write data
  (\<^verbatim>\<open>target_transfer_data\<close> and the write-data case of \<^verbatim>\<open>execute_t\<close>), the dispatcher and the loop of
  the session's thread.  The device that the target is linked with (\<^verbatim>\<open>device_enqueue\<close> and
  \<^verbatim>\<open>device_place_data\<close>) is a parameter, as are the memory that its scatter lists point to, the
  addresses of the commands' scatter lists, the measured latencies and the signal that stops
  the session's thread.
\<close>

subsection \<open>The device\<close>

record device_env = target_env +
  e_gather_addr :: "ptr \<Rightarrow> nat"
  e_latency :: "ptr \<Rightarrow> target_session \<Rightarrow> u32"
  e_junk :: "ptr \<Rightarrow> target_session \<Rightarrow> u32"
  e_enqueue :: "ptr \<Rightarrow> target_session \<Rightarrow> outcome"
  e_place_data :: "ptr \<Rightarrow> u32 \<Rightarrow> u32 \<Rightarrow> target_session \<Rightarrow> outcome"
  e_stopping :: "target_session \<Rightarrow> bool"

definition CONFIG_TARGET_MAX_QUEUE :: nat where "CONFIG_TARGET_MAX_QUEUE = 65"
definition CONFIG_TARGET_MAX_IMMEDIATE :: nat where "CONFIG_TARGET_MAX_IMMEDIATE = 65536"

text \<open>Assignments through the pointer to a command.\<close>

definition upd_cmd :: "ptr \<Rightarrow> (target_cmd \<Rightarrow> target_cmd) \<Rightarrow> target_session \<Rightarrow> target_session" where
  "upd_cmd p f s = s\<lparr>t_cmd_mem := (t_cmd_mem s)(p := f (t_cmd_mem s p))\<rparr>"

definition upd_scsi :: "ptr \<Rightarrow> (iscsi_scsi_cmd_t \<Rightarrow> iscsi_scsi_cmd_t) \<Rightarrow> target_session \<Rightarrow> target_session" where
  "upd_scsi p f = upd_cmd p (tg_scsi_update f)"

definition scsi_of :: "target_session \<Rightarrow> ptr \<Rightarrow> iscsi_scsi_cmd_t" where
  "scsi_of s p = tg_scsi (t_cmd_mem s p)"

text \<open>
  A header and a vector of data: \<^verbatim>\<open>iscsi_sock_msg\<close> refuses a vector with a NULL base or with another
  total length than announced.
\<close>

definition send_header_and_iov ::
  "'e device_env_scheme \<Rightarrow> header \<Rightarrow> nat \<Rightarrow> iovec list \<Rightarrow> target_session \<Rightarrow> bool \<times> target_session" where
  "send_header_and_iov env h len vs s =
    (case sock_send env h s of
       (ok, s) \<Rightarrow>
         if \<not> ok \<or> len = 0 then (ok, s)
         else if (\<exists>v\<in>set vs. iov_base v = NULL) \<or> iovs_len vs \<noteq> len then (False, s)
         else sock_send env (map (t_mem s) (iovs_addrs vs)) s)"

subsection \<open>Sending data and status\<close>

definition segment_len :: "u32 \<Rightarrow> u32 \<Rightarrow> u32 \<Rightarrow> u32" where
  "segment_len seg trans_len offset =
    (if seg \<noteq> 0 then MIN_u32 (trans_len - offset) seg else trans_len - offset)"

definition segment_inc :: "u32 \<Rightarrow> u32 \<Rightarrow> u32" where
  "segment_inc seg trans_len = (if seg \<noteq> 0 then seg else trans_len)"

definition read_data_pdu :: "target_session \<Rightarrow> iscsi_scsi_cmd_t \<Rightarrow> bool \<Rightarrow> u32 \<Rightarrow> u32 \<Rightarrow> u32 \<Rightarrow> iscsi_read_data_t" where
  "read_data_pdu s sc fin len DataSN offset =
    \<lparr>rd_final = c_bool fin, rd_ack = 0, rd_overflow = 0, rd_underflow = 0, rd_S_bit = 0,
     rd_status = (if fin \<and> t_UsePhaseCollapsedRead s then sc_status sc else 0), rd_length = len,
     rd_lun = 0, rd_task_tag = sc_tag sc, rd_transfer_tag = 0,
     rd_StatSN = (if fin \<and> t_UsePhaseCollapsedRead s then t_StatSN s else 0),
     rd_ExpCmdSN = t_ExpCmdSN s, rd_MaxCmdSN = t_MaxCmdSN s, rd_DataSN = DataSN,
     rd_offset = offset, rd_res_count = 0\<rparr>"

text \<open>
  One round of the loop over the segments.  The result is the end of the whole call, or the
  state after the segment.  A failed send leaves the lock taken.
\<close>

definition read_data_step ::
  "'e device_env_scheme \<Rightarrow> ptr \<Rightarrow> iovec list \<Rightarrow> u32 \<Rightarrow> u32 \<Rightarrow> u32 \<Rightarrow> target_session \<Rightarrow>
   outcome + target_session" where
  "read_data_step env p sg_orig trans_len offset DataSN s =
    (let len = segment_len (max_data_seg_length (t_sess_params s)) trans_len offset;
         (rc, arr, i, n) = (if len \<noteq> trans_len
                            then modify_iov sg_orig 0 (length sg_orig) (unat offset) (unat len)
                            else (0, sg_orig, 0, length sg_orig))
     in if rc \<noteq> 0 then Inl (Return (-1) s)
        else if offset + len \<noteq> trans_len \<and> offset + len > trans_len then Inl (Return (-1) s)
        else
          let fin = (offset + len = trans_len);
              s = (if fin \<and> t_UsePhaseCollapsedRead s then s\<lparr>t_StatSN := t_StatSN s + 1\<rparr> else s);
              data = read_data_pdu s (scsi_of s p) fin len DataSN offset
          in if t_slock s then Inl (Blocks s)
             else case send_header_and_iov env (iscsi_read_data_encap data) (unat len)
                         (take n (drop i arr)) (s\<lparr>t_slock := True\<rparr>) of
                    (ok, s) \<Rightarrow>
                      if \<not> ok then Inl (Return (-1) s)
                      else Inr (upd_scsi p (\<lambda>sc. sc\<lparr>sc_bytes_fromdev := sc_bytes_fromdev sc + len\<rparr>)
                                  (spin_unlock s)))"

text \<open>
  \<^verbatim>\<open>for (offset=0; offset<trans_len; offset+=offset_inc)\<close>.  The offset is a 32-bit number, so the
  loop may go round for ever: the result is then \<open>None\<close>.
\<close>

partial_function (option) read_data_loop ::
  "'e device_env_scheme \<Rightarrow> ptr \<Rightarrow> iovec list \<Rightarrow> u32 \<Rightarrow> u32 \<Rightarrow> u32 \<Rightarrow> u32 \<Rightarrow> target_session \<Rightarrow>
   (outcome + u32 \<times> target_session) option" where
  [code]: "read_data_loop env p sg_orig trans_len offset_inc offset DataSN s =
    (if offset < trans_len then
       case read_data_step env p sg_orig trans_len offset DataSN s of
         Inl r \<Rightarrow> Some (Inl r)
       | Inr s \<Rightarrow> read_data_loop env p sg_orig trans_len offset_inc (offset + offset_inc) (DataSN + 1) s
     else Some (Inr (DataSN, s)))"

definition send_read_data ::
  "'e device_env_scheme \<Rightarrow> ptr \<Rightarrow> target_session \<Rightarrow> (u32 \<Rightarrow> target_session \<Rightarrow> outcome) \<Rightarrow> outcome" where
  "send_read_data env p s k =
    (let sc = scsi_of s p;
         trans_len = (if sc_todev sc \<noteq> 0 then sc_bidi_trans_len sc else sc_trans_len sc);
         gather = tg_gather (t_cmd_mem s p);
         sg_orig = (if gather \<noteq> [] then gather
                    else [\<lparr>iov_base = e_gather_addr env p, iov_len = unat trans_len\<rparr>]);
         seg = max_data_seg_length (t_sess_params s)
     in case read_data_loop env p sg_orig trans_len (segment_inc seg trans_len) 0 0 s of
          None \<Rightarrow> Diverges
        | Some (Inl r) \<Rightarrow> r
        | Some (Inr (DataSN, s)) \<Rightarrow> k DataSN s)"

text \<open>The response PDU, and whether all bytes of the command were moved.\<close>

definition scsi_response ::
  "'e device_env_scheme \<Rightarrow> ptr \<Rightarrow> u32 \<Rightarrow> target_session \<Rightarrow> (target_session \<Rightarrow> outcome) \<Rightarrow> outcome" where
  "scsi_response env p DataSN s k =
    (let sc = scsi_of s p;
         gather = tg_gather (t_cmd_mem s p);
         stat = t_StatSN s;
         s = s\<lparr>t_StatSN := t_StatSN s + 1\<rparr>;
         rsp = \<lparr>sr_bidi_overflow = 0, sr_bidi_underflow = 0, sr_overflow = 0, sr_underflow = 0,
                sr_response = 0, sr_status = sc_status sc, sr_ahs_len = 0,
                sr_length = (if sc_status sc \<noteq> 0 then sc_length sc else 0), sr_tag = sc_tag sc,
                sr_StatSN = stat, sr_ExpCmdSN = t_ExpCmdSN s, sr_MaxCmdSN = t_MaxCmdSN s,
                sr_ExpDataSN = (if sc_status sc = 0 \<and> sc_fromdev sc \<noteq> 0 then DataSN else 0),
                sr_bidi_res_cnt = 0, sr_basic_res_cnt = 0\<rparr>;
         len = unat (sr_length rsp);
         sg = (if gather \<noteq> [] then gather else [\<lparr>iov_base = e_gather_addr env p, iov_len = len\<rparr>])
     in spin_lock s (\<lambda>s.
          case send_header_and_iov env (iscsi_scsi_rsp_encap rsp) len sg s of
            (ok, s) \<Rightarrow>
              if \<not> ok then Return (-1) s
              else
                let s = spin_unlock s
                in if sc_todev sc \<noteq> 0 \<and> sc_status sc = 0 then
                     if sc_bytes_todev sc \<noteq> sc_trans_len sc then Return (-1) s
                     else if sc_fromdev sc \<noteq> 0 \<and> sc_bytes_fromdev sc \<noteq> sc_bidi_trans_len sc
                     then Return (-1) s
                     else k s
                   else if sc_fromdev sc \<noteq> 0 \<and> sc_status sc = 0 \<and> sc_bytes_fromdev sc \<noteq> sc_trans_len sc
                   then Return (-1) s
                   else k s))"

text \<open>Counters, table and queues after the response.\<close>

definition command_release :: "'e device_env_scheme \<Rightarrow> ptr \<Rightarrow> target_session \<Rightarrow> outcome" where
  "command_release env p s =
    (let sc = scsi_of s p;
         lun = sc_lun sc;
         s = s\<lparr>t_counters := (t_counters s)(lun :=
                ost_update_counters_post_via_cdb (t_counters s lun) (sc_cdb sc)
                  (e_latency env p s) (e_junk env p s))\<rparr>
     in case hash_remove (t_cmds s) (sc_tag sc) of
          None \<Rightarrow> Blocks s
        | Some (q, cmds) \<Rightarrow>
            let s = s\<lparr>t_cmds := cmds\<rparr>
            in if q = NULL then Exits s
               else case iscsi_queue_insert (t_header_q s) (tg_header (t_cmd_mem s p)) of
                 (rc, hq) \<Rightarrow>
                   let s = s\<lparr>t_header_q := hq\<rparr>
                   in if rc \<noteq> 0 then Return (-1) s
                      else case iscsi_queue_insert (t_cmd_q s) p of
                        (rc, cq) \<Rightarrow>
                          let s = s\<lparr>t_cmd_q := cq\<rparr>
                          in if rc \<noteq> 0 then Return (-1) s else Return 0 s)"

definition device_command_done :: "'e device_env_scheme \<Rightarrow> ptr \<Rightarrow> target_session \<Rightarrow> outcome" where
  "device_command_done env p s =
    (if tg_send_data (t_cmd_mem s p) then Undef
     else
       let s = upd_cmd p (\<lambda>c. c\<lparr>tg_send_data := True\<rparr>) s;
           s = upd_scsi p (\<lambda>sc. sc\<lparr>sc_bytes_fromdev := 0\<rparr>) s;
           sc = scsi_of s p;
           finish = (\<lambda>DataSN s.
             if \<not> t_UsePhaseCollapsedRead s \<or> sc_length (scsi_of s p) = 0 \<or> sc_status (scsi_of s p) \<noteq> 0
             then scsi_response env p DataSN s (command_release env p)
             else command_release env p s)
       in if sc_status sc = 0 \<and> sc_fromdev sc \<noteq> 0 then send_read_data env p s finish
          else finish 0 s)"

subsection \<open>A SCSI command arrives\<close>

definition blank_target_cmd :: target_cmd where
  "blank_target_cmd = \<lparr>tg_scsi = blank_scsi_cmd, tg_header = NULL, tg_gather = [], tg_send_data = False,
     tg_r2t_flag = False, tg_ready = False, tg_immediate = [], tg_scatter = [],
     tg_scatter_type = (\<lambda>i. 0), tg_scatter_align = (\<lambda>i. 0), tg_gather_type = (\<lambda>i. 0),
     tg_gather_align = (\<lambda>i. 0), tg_done = False, tg_is_write = False, tg_lba = 0, tg_len = 0\<rparr>"

text \<open>
  The loop over the additional header segments: \<open>len\<close> is the total length, \<open>pos\<close> the position.  The
  segment lengths come from the wire; a length of 0 keeps the loop where it is.  The first
  result tells whether every segment had a known type, the second is the command with what was
  found; \<open>Inr ()\<close> is a read behind the buffer.
\<close>

partial_function (option) ahs_loop ::
  "byte list \<Rightarrow> nat \<Rightarrow> nat \<Rightarrow> iscsi_scsi_cmd_t \<Rightarrow> (bool \<times> iscsi_scsi_cmd_t + unit) option" where
  [code]: "ahs_loop ahs len pos sc =
    (if pos < len - 1 then
       if length ahs \<le> pos + 2 then Some (Inr ())
       else
         let ahs_len = unat (ntohs (load16 ahs pos));
             ahs_type = ahs ! (pos + 2)
         in if ahs_type = 1 then ahs_loop ahs len (pos + ahs_len) (sc\<lparr>sc_ext_cdb := Some (pos + 4)\<rparr>)
            else if ahs_type = 2 then
              if length ahs < pos + 8 then Some (Inr ())
              else ahs_loop ahs len (pos + ahs_len)
                     (sc\<lparr>sc_bidi_trans_len := ntohl (load32 ahs (pos + 4))\<rparr>)
            else Some (Inl (False, sc))
     else Some (Inl (True, sc)))"

text \<open>The label \<open>error\<close>: the command is answered with the status \<open>CHECK CONDITION\<close> right away.\<close>

definition scsi_error :: "'e device_env_scheme \<Rightarrow> ptr \<Rightarrow> target_session \<Rightarrow> outcome" where
  "scsi_error env p s =
    device_command_done env p (upd_scsi p (\<lambda>sc. sc\<lparr>sc_status := 2, sc_length := 0\<rparr>) s)"

definition read_ahs ::
  "'e device_env_scheme \<Rightarrow> ptr \<Rightarrow> target_session \<Rightarrow> (target_session \<Rightarrow> outcome) \<Rightarrow> outcome" where
  "read_ahs env p s k =
    (let len = unat (sc_ahs_len (scsi_of s p))
     in if len = 0 then k s
        else if CONFIG_ISCSI_MAX_AHS_LEN < len then Undef
        else case sock_recv len s of
          (None, s) \<Rightarrow> scsi_error env p s
        | (Some bytes, s) \<Rightarrow>
            let s = upd_scsi p (sc_ahs_update (put_bytes bytes)) s
            in case ahs_loop (sc_ahs (scsi_of s p)) len 0 (scsi_of s p) of
                 None \<Rightarrow> Diverges
               | Some (Inr _) \<Rightarrow> Undef
               | Some (Inl (ok, sc)) \<Rightarrow>
                   let s = upd_scsi p (\<lambda>_. sc) s
                   in if \<not> ok then scsi_error env p s else k s)"

text \<open>The outstanding commands: a command whose tag is already there is not added.\<close>

definition rehash_then :: "ptr \<Rightarrow> target_session \<Rightarrow> (target_session \<Rightarrow> outcome) \<Rightarrow> outcome" where
  "rehash_then p s k =
    (let tag = sc_tag (scsi_of s p)
     in case hash_get (t_cmds s) tag of
          None \<Rightarrow> Blocks s
        | Some (q, cmds) \<Rightarrow>
            let s = s\<lparr>t_cmds := cmds\<rparr>
            in if q \<noteq> NULL then k s
               else case hash_put (t_cmds s) p p tag of
                 None \<Rightarrow> Blocks s
               | Some (rc, cmds) \<Rightarrow>
                   let s = s\<lparr>t_cmds := cmds\<rparr> in if rc \<noteq> 0 then Return (-1) s else k s)"

text \<open>
  Immediate data is read into the buffer \<^verbatim>\<open>immediate\<close> of the command, whose length is not checked.
\<close>

definition read_immediate ::
  "header \<Rightarrow> ptr \<Rightarrow> target_session \<Rightarrow> (target_session \<Rightarrow> outcome) \<Rightarrow> outcome" where
  "read_immediate h p s k =
    (let sp = t_sess_params s; len = sc_length (scsi_of s p)
     in if \<not> immediate_data sp \<and> len \<noteq> 0 then Return (-1) s
        else if immediate_data sp \<and> len \<noteq> 0 then
          if max_data_seg_length sp \<noteq> 0 \<and> iscsi_len h > max_data_seg_length sp then Return (-1) s
          else if CONFIG_TARGET_MAX_IMMEDIATE < unat len then Undef
          else case sock_recv (unat len) s of
            (None, s) \<Rightarrow> Exits s
          | (Some bytes, s) \<Rightarrow> k (upd_cmd p (\<lambda>c. c\<lparr>tg_immediate := bytes\<rparr>) s)
        else k s)"

definition scsi_command_t :: "'e device_env_scheme \<Rightarrow> ptr \<Rightarrow> target_session \<Rightarrow> outcome" where
  "scsi_command_t env hp s =
    (case iscsi_queue_remove (t_cmd_q s) of
       (p, q) \<Rightarrow>
         let s = s\<lparr>t_cmd_q := q\<rparr>; h = t_header_mem s hp
         in if p = NULL then Return (-1) s
            else
              case iscsi_scsi_cmd_decap h blank_scsi_cmd of
                (rc, sc) \<Rightarrow>
                  let s = upd_cmd p (\<lambda>_. blank_target_cmd\<lparr>tg_header := hp, tg_scsi := sc\<rparr>) s
                  in if rc \<noteq> 0 then scsi_error env p s
                     else
                       let s = upd_scsi p (\<lambda>sc. sc\<lparr>sc_tag := iscsi_itt h\<rparr>) s;
                           sc = scsi_of s p;
                           sp = t_sess_params s;
                           s = (if sc_CmdSN sc \<noteq> t_ExpCmdSN s then s\<lparr>t_ExpCmdSN := sc_CmdSN sc\<rparr> else s)
                       in if first_burst_length sp \<noteq> 0 \<and> sc_length sc > first_burst_length sp
                          then scsi_error env p s
                          else if max_data_seg_length sp \<noteq> 0 \<and> sc_length sc > max_data_seg_length sp
                          then scsi_error env p s
                          else read_ahs env p s (\<lambda>s.
                            let s = s\<lparr>t_ExpCmdSN := t_ExpCmdSN s + 1, t_MaxCmdSN := t_MaxCmdSN s + 1\<rparr>;
                                lun = sc_lun (scsi_of s p);
                                s = s\<lparr>t_counters := (t_counters s)(lun :=
                                      ost_update_counters_pre_via_cdb (t_counters s lun)
                                        (sc_cdb (scsi_of s p)))\<rparr>;
                                s = upd_scsi p (\<lambda>sc. sc\<lparr>sc_fromdev := 0\<rparr>) s
                            in read_immediate h p s (\<lambda>s.
                                 rehash_then p s (\<lambda>s.
                                   case e_enqueue env p s of
                                     Return rc s \<Rightarrow> if rc \<noteq> 0 then scsi_error env p s else Return 0 s
                                   | r \<Rightarrow> r))))"

subsection \<open>Write data\<close>

definition r2t_pdu :: "target_session \<Rightarrow> iscsi_scsi_cmd_t \<Rightarrow> u32 \<Rightarrow> u32 \<Rightarrow> iscsi_r2t_t" where
  "r2t_pdu s sc len offset =
    \<lparr>r2_AHSlength = 0, r2_lun = 0, r2_tag = sc_tag sc, r2_transfer_tag = 0x1234,
     r2_StatSN = t_StatSN s, r2_ExpCmdSN = t_ExpCmdSN s, r2_MaxCmdSN = t_MaxCmdSN s, r2_R2TSN = 0,
     r2_offset = offset, r2_length = len\<rparr>"

text \<open>An R2T goes out under the lock; a failed send leaves the lock taken.\<close>

definition send_r2t ::
  "'e device_env_scheme \<Rightarrow> ptr \<Rightarrow> u32 \<Rightarrow> u32 \<Rightarrow> target_session \<Rightarrow> outcome + target_session" where
  "send_r2t env p len offset s =
    (if t_slock s then Inl (Blocks s)
     else case sock_send env (iscsi_r2t_encap (r2t_pdu s (scsi_of s p) len offset))
                 (s\<lparr>t_slock := True\<rparr>) of
            (ok, s) \<Rightarrow>
              if \<not> ok then Inl (Return (-1) s)
              else Inr (upd_cmd p (\<lambda>c. c\<lparr>tg_r2t_flag := True\<rparr>) (spin_unlock s)))"

text \<open>
  \<^verbatim>\<open>while (remaining)\<close>: the transfer is asked for in bursts.  A burst limit of 0, which stands for
  \<open>no limit\<close> in the negotiation, makes bursts of length 0 here, for ever.
\<close>

partial_function (option) r2t_loop ::
  "'e device_env_scheme \<Rightarrow> ptr \<Rightarrow> u32 \<Rightarrow> u32 \<Rightarrow> target_session \<Rightarrow> (outcome + target_session) option" where
  [code]: "r2t_loop env p remaining transferred s =
    (if remaining \<noteq> 0 then
       let burst = max_burst_length (t_sess_params s);
           desired = (if remaining > burst then burst else remaining)
       in case send_r2t env p desired (sc_bytes_todev (scsi_of s p) + transferred) s of
            Inl r \<Rightarrow> Some (Inl r)
          | Inr s \<Rightarrow> r2t_loop env p (remaining - desired) (transferred + desired) s
     else Some (Inr s))"

definition target_transfer_data :: "'e device_env_scheme \<Rightarrow> ptr \<Rightarrow> target_session \<Rightarrow> outcome" where
  "target_transfer_data env p s =
    (let sc = scsi_of s p;
         remaining = sc_trans_len sc - sc_bytes_todev sc;
         first = first_burst_length (t_sess_params s);
         wake = (\<lambda>s. Return 0 (upd_cmd p (\<lambda>c. c\<lparr>tg_ready := True\<rparr>) s))
     in if remaining = 0 then
          if sc_final sc \<noteq> 1 then Return (-1) s
          else case e_place_data env p 0 0 s of
                 Return rc s \<Rightarrow> if rc \<noteq> 0 then Exits s else Return 0 s
               | r \<Rightarrow> r
        else if initial_r2t (t_sess_params s) \<or> first \<noteq> 0 \<and> sc_bytes_todev sc \<ge> first then
          case r2t_loop env p remaining 0 s of
            None \<Rightarrow> Diverges
          | Some (Inl r) \<Rightarrow> r
          | Some (Inr s) \<Rightarrow> wake s
        else wake s)"

text \<open>After the checks: the device takes the data; the last piece is acknowledged to it.\<close>

definition place_write_data ::
  "'e device_env_scheme \<Rightarrow> ptr \<Rightarrow> iscsi_write_data_t \<Rightarrow> target_session \<Rightarrow> outcome" where
  "place_write_data env p data s =
    (case e_place_data env p (wd_offset data) (wd_length data) s of
       Return rc s \<Rightarrow>
         if (word_of_int rc :: u32) \<noteq> wd_length data then Exits s
         else
           let s = upd_scsi p (\<lambda>sc. sc\<lparr>sc_bytes_todev := sc_bytes_todev sc + wd_length data\<rparr>) s;
               sc = scsi_of s p;
               sp = t_sess_params s
           in if sc_trans_len sc - sc_bytes_todev sc = 0 then
                case e_place_data env p 0 0 s of
                  Return rc s \<Rightarrow> if rc \<noteq> 0 then Return (-1) s else Return 0 s
                | r \<Rightarrow> r
              else if \<not> tg_r2t_flag (t_cmd_mem s p) \<and> \<not> initial_r2t sp \<and>
                      first_burst_length sp \<noteq> 0 \<and> sc_bytes_todev sc \<ge> first_burst_length sp then
                case send_r2t env p (sc_trans_len sc - sc_bytes_todev sc) (sc_bytes_todev sc) s of
                  Inl r \<Rightarrow> r
                | Inr s \<Rightarrow> Return 0 s
              else Return 0 s
     | r \<Rightarrow> r)"

definition write_data_t :: "'e device_env_scheme \<Rightarrow> header \<Rightarrow> target_session \<Rightarrow> outcome" where
  "write_data_t env h s =
    (case iscsi_write_data_decap h blank_write_data of
       (rc, data) \<Rightarrow>
         if rc \<noteq> 0 then Return (-1) s
         else case hash_get (t_cmds s) (wd_tag data) of
           None \<Rightarrow> Blocks s
         | Some (p, cmds) \<Rightarrow>
             let s = s\<lparr>t_cmds := cmds\<rparr>;
                 sp = t_sess_params s;
                 sc = scsi_of s p;
                 fail = (\<lambda>s. Return (-1) (upd_scsi p (\<lambda>sc. sc\<lparr>sc_status := 2\<rparr>) s));
                 total = sc_bytes_todev sc + wd_length data;
                 place = (\<lambda>s. if sc_trans_len sc - total = 0 \<and> wd_final data \<noteq> 1 then Return (-1) s
                               else place_write_data env p data s)
             in if p = NULL then Exits s
                else if \<not> tg_ready (t_cmd_mem s p) then Blocks s
                else if max_data_seg_length sp \<noteq> 0 \<and> wd_length data > max_data_seg_length sp then fail s
                else if total > sc_trans_len sc then fail s
                else if wd_tag data \<noteq> sc_tag sc then
                  if wd_final data \<noteq> 0 then fail s
                  else case reject_t env h 9 s of
                         Return rc s \<Rightarrow> if rc \<noteq> 0 then Return 1 s else place s
                       | r \<Rightarrow> r
                else place s)"

subsection \<open>The dispatcher\<close>

text \<open>\<^verbatim>\<open>if (f(sess, header) != 0) return -1;\<close> and then \<^verbatim>\<open>return queued\<close>.\<close>

definition dispatched :: "int \<Rightarrow> outcome \<Rightarrow> outcome" where
  "dispatched queued r =
    (case r of Return rc s \<Rightarrow> if rc \<noteq> 0 then Return (-1) s else Return queued s | r \<Rightarrow> r)"

definition execute_t :: "'e device_env_scheme \<Rightarrow> ptr \<Rightarrow> target_session \<Rightarrow> outcome" where
  "execute_t env hp s =
    (let h = t_header_mem s hp; op = iscsi_opcode h
     in case verify_cmd_t env h s of
          Return rc s \<Rightarrow>
            if rc \<noteq> 0 then Return (-1) s
            else if op = ISCSI_TASK_CMD then dispatched 0 (task_command_t env h s)
            else if op = ISCSI_NOP_OUT then dispatched 0 (nop_out_t env h s)
            else if op = ISCSI_LOGIN_CMD then dispatched 0 (login_command_t env h s)
            else if op = ISCSI_TEXT_CMD then dispatched 0 (text_command_t env h s)
            else if op = ISCSI_LOGOUT_CMD then dispatched 0 (logout_command_t env h s)
            else if op = ISCSI_SCSI_CMD then dispatched 1 (scsi_command_t env hp s)
            else if op = ISCSI_WRITE_DATA then write_data_t env h s
            else dispatched 0 (reject_t env h 4 s)
        | r \<Rightarrow> r)"

subsection \<open>The thread of a session\<close>

text \<open>The parameters a session starts with: type, key, default and valid values.\<close>

definition worker_param_table :: "(param_type \<times> string \<times> string \<times> string) list" where
  "worker_param_table =
    [(LIST, ''AuthMethod'', ''CHAP'', ''CHAP,None''),
     (LIST, ''CHAP_A'', ''5'', ''5''),
     (DECLARATIVE, ''CHAP_N'', '''', ''''),
     (DECLARATIVE, ''CHAP_R'', '''', ''''),
     (DECLARATIVE, ''CHAP_I'', '''', ''''),
     (DECLARATIVE, ''CHAP_C'', '''', ''''),
     (DECLARATIVE, ''TargetPortalGroupTag'', ''1'', ''1''),
     (LIST, ''HeaderDigest'', ''None'', ''None''),
     (LIST, ''DataDigest'', ''None'', ''None''),
     (NUMERICAL, ''MaxConnections'', ''1'', ''1''),
     (DECLARATIVE, ''SendTargets'', '''', ''''),
     (DECLARATIVE, ''TargetName'', '''', ''''),
     (DECLARATIVE, ''InitiatorName'', '''', ''''),
     (DECLARATIVE, ''TargetAlias'', '''', ''''),
     (DECLARATIVE, ''InitiatorAlias'', '''', ''''),
     (DECLARATIVE, ''TargetAddress'', '''', ''''),
     (BINARY_OR, ''InitialR2T'', ''Yes'', ''Yes,No''),
     (BINARY_AND, ''OFMarker'', ''No'', ''Yes,No''),
     (BINARY_AND, ''IFMarker'', ''No'', ''Yes,No''),
     (NUMERICAL_Z, ''OFMarkInt'', ''1'', ''65536''),
     (NUMERICAL_Z, ''IFMarkInt'', ''1'', ''65536''),
     (BINARY_AND, ''ImmediateData'', ''Yes'', ''Yes,No''),
     (NUMERICAL_Z, ''MaxRecvDataSegmentLength'', ''8192'', ''1048576''),
     (NUMERICAL_Z, ''FirstBurstLength'', ''65536'', ''1048576''),
     (NUMERICAL_Z, ''MaxBurstLength'', ''262144'', ''1048576''),
     (NUMERICAL, ''DefaultTime2Wait'', ''2'', ''2''),
     (NUMERICAL, ''DefaultTime2Retain'', ''20'', ''20''),
     (NUMERICAL, ''MaxOutstandingR2T'', ''1'', ''1''),
     (BINARY_OR, ''DataPDUInOrder'', ''Yes'', ''Yes,No''),
     (BINARY_OR, ''DataSequenceInOrder'', ''Yes'', ''Yes,No''),
     (NUMERICAL, ''ErrorRecoveryLevel'', ''0'', ''0''),
     (DECLARATIVE, ''SessionType'', ''Normal'', ''Normal,Discovery''),
     (LIST, ''AuthResult'', ''No'', ''Yes,No,Fail'')]"

text \<open>\<open>blk\<close> is what the allocated parameter blocks hold before they are filled in.\<close>

definition worker_params :: "iscsi_param \<Rightarrow> iscsi_param list" where
  "worker_params blk =
    foldl (\<lambda>ps (type, key, dflt, valid). snd (param_list_add (Some blk) True ps type key dflt valid))
      [] worker_param_table"

text \<open>
  \<^verbatim>\<open>target_listen\<close> clears the session except for its id before a connection is accepted, and the
  thread adds the parameters and the table of commands; the queues, the memory of commands and
  headers and the counters stay as earlier sessions left them.
\<close>

definition session_start :: "iscsi_param \<Rightarrow> target_session \<Rightarrow> target_session" where
  "session_start blk s = s
    \<lparr>t_cid := 0, t_StatSN := 0, t_ExpCmdSN := 0, t_MaxCmdSN := 0, t_UsePhaseCollapsedRead := False,
     t_IsFullFeature := False, t_IsLoggedIn := False, t_LoginStarted := False,
     t_Authenticated := False, t_isid := 0, t_tsih := 0,
     t_text := (t_text s)\<lparr>s_params := worker_params blk, s_out := [], s_cookie := None\<rparr>,
     t_sess_params := \<lparr>max_burst_length = 0, first_burst_length = 0, max_data_seg_length = 0,
                       initial_r2t = False, immediate_data = False\<rparr>,
     t_slock := False,
     t_cmds := (fst (t_cmds s), snd (hash_init True (snd (t_cmds s)) CONFIG_TARGET_MAX_QUEUE))\<rparr>"

text \<open>The end of the thread: the commands still outstanding are dropped.\<close>

definition worker_end :: "target_session \<Rightarrow> outcome" where
  "worker_end s =
    (case hash_count (t_cmds s) of
       None \<Rightarrow> Blocks s
     | Some (cnt, cmds) \<Rightarrow>
         let s = s\<lparr>t_cmds := cmds\<rparr>;
             finish = (\<lambda>s. Return 0 (s\<lparr>t_cmds := (fst (t_cmds s), hash_destroy (snd (t_cmds s))),
                         t_text := (t_text s)\<lparr>s_params := [], s_cookie := None\<rparr>,
                         t_IsLoggedIn := False\<rparr>))
         in if cnt \<noteq> 0 then
              case drain_loop hash_remove_head [] (t_cmds s) of
                None \<Rightarrow> Diverges
              | Some (ps, cmds) \<Rightarrow> finish (s\<lparr>t_cmds := cmds\<rparr>)
            else finish s)"

text \<open>
  The loop: a free header, 48 bytes from the connection, \<^verbatim>\<open>execute_t\<close>.  A header goes back to its
  queue unless the PDU is a command that the device now has, or \<^verbatim>\<open>execute_t\<close> failed.
\<close>

partial_function (option) worker_loop ::
  "'e device_env_scheme \<Rightarrow> target_session \<Rightarrow> outcome option" where
  [code]: "worker_loop env s =
    (if e_stopping env s then Some (worker_end s)
     else case iscsi_queue_remove (t_header_q s) of
       (hp, q) \<Rightarrow>
         let s = s\<lparr>t_header_q := q\<rparr>
         in if hp = NULL then Some (Return (-1) (s\<lparr>t_IsLoggedIn := False\<rparr>))
            else case sock_recv ISCSI_HEADER_LEN s of
              (None, s) \<Rightarrow> Some (worker_end (s\<lparr>t_header_q := snd (iscsi_queue_insert (t_header_q s) hp)\<rparr>))
            | (Some h, s) \<Rightarrow>
                let s = s\<lparr>t_header_mem := (t_header_mem s)(hp := h)\<rparr>
                in case execute_t env hp s of
                     Return queued s \<Rightarrow>
                       if queued < 0 then Some (worker_end s)
                       else
                         let (rc, q) = (if queued = 0 then iscsi_queue_insert (t_header_q s) hp
                                        else (0, t_header_q s));
                             s = s\<lparr>t_header_q := q\<rparr>
                         in if rc \<noteq> 0 then Some (worker_end s)
                            else if iscsi_opcode (t_header_mem s hp) = ISCSI_LOGOUT_CMD
                            then Some (worker_end s)
                            else worker_loop env s
                   | r \<Rightarrow> Some r)"

definition worker_proc_t :: "'e device_env_scheme \<Rightarrow> iscsi_param \<Rightarrow> target_session \<Rightarrow> outcome" where
  "worker_proc_t env blk s =
    (case worker_loop env (session_start blk s) of None \<Rightarrow> Diverges | Some r \<Rightarrow> r)"

end
