(* ===== verification/Target_Transfer.thy ===== *)
theory Target_Transfer
  imports Target_Data
begin

section \<open>Transfers in pieces\<close>

text \<open>
  Both directions of a transfer are cut into pieces: read data into segments of at most
  \<^verbatim>\<open>MaxRecvDataSegmentLength\<close>, write data into bursts of at most \<^verbatim>\<open>MaxBurstLength\<close>.  The reference
  is \<open>pieces b n off\<close>, which cuts \<open>n\<close> bytes from \<open>off\<close> on into pieces of \<open>b\<close> bytes and a rest; the
  loops of the code, over 32-bit numbers, are shown to send one PDU per piece.
\<close>

subsection \<open>R2T\<close>

text \<open>What every message on the connection leaves of the session.\<close>

definition sent :: "nat \<Rightarrow> byte list list \<Rightarrow> target_session \<Rightarrow> target_session" where
  "sent n msgs s = s\<lparr>t_sends := t_sends s + n, t_out := t_out s @ msgs\<rparr>"

definition sends_ok :: "'e target_env_scheme \<Rightarrow> nat \<Rightarrow> target_session \<Rightarrow> bool" where
  "sends_ok env n s \<longleftrightarrow> (\<forall>i<n. e_send_ok env (t_sends s + i))"

lemma sock_send_ok: "e_send_ok env (t_sends s) \<Longrightarrow> sock_send env msg s = (True, sent 1 [msg] s)"
  by (simp add: sock_send_def sent_def)

lemma sent_simps [simp]:
  "sent 0 [] s = s"
  "sent n ms (sent m ns s) = sent (m + n) (ns @ ms) s"
  "t_sends (sent n ms s) = t_sends s + n" "t_out (sent n ms s) = t_out s @ ms"
  "t_slock (sent n ms s) = t_slock s" "t_sess_params (sent n ms s) = t_sess_params s"
  "t_cmd_mem (sent n ms s) = t_cmd_mem s" "t_StatSN (sent n ms s) = t_StatSN s"
  "t_ExpCmdSN (sent n ms s) = t_ExpCmdSN s" "t_MaxCmdSN (sent n ms s) = t_MaxCmdSN s"
  "t_UsePhaseCollapsedRead (sent n ms s) = t_UsePhaseCollapsedRead s"
  "t_mem (sent n ms s) = t_mem s" "t_disk (sent n ms s) = t_disk s" "t_osd (sent n ms s) = t_osd s"
  by (simp_all add: sent_def add.assoc)

lemma unlock_after_lock [simp]: "\<not> t_slock s \<Longrightarrow> spin_unlock (sent n ms (s\<lparr>t_slock := True\<rparr>)) = sent n ms s"
  by (simp add: spin_unlock_def sent_def)

lemma upd_cmd_simps [simp]:
  "t_sends (upd_cmd p f s) = t_sends s" "t_out (upd_cmd p f s) = t_out s"
  "t_slock (upd_cmd p f s) = t_slock s" "t_sess_params (upd_cmd p f s) = t_sess_params s"
  "t_StatSN (upd_cmd p f s) = t_StatSN s" "t_ExpCmdSN (upd_cmd p f s) = t_ExpCmdSN s"
  "t_MaxCmdSN (upd_cmd p f s) = t_MaxCmdSN s"
  "t_UsePhaseCollapsedRead (upd_cmd p f s) = t_UsePhaseCollapsedRead s"
  "t_mem (upd_cmd p f s) = t_mem s" "t_disk (upd_cmd p f s) = t_disk s" "t_osd (upd_cmd p f s) = t_osd s"
  "t_cmd_mem (upd_cmd p f s) = (t_cmd_mem s)(p := f (t_cmd_mem s p))"
  "upd_cmd p f (upd_cmd p g s) = upd_cmd p (\<lambda>c. f (g c)) s"
  "upd_cmd p f (sent n ms s) = sent n ms (upd_cmd p f s)"
  by (simp_all add: upd_cmd_def sent_def)

definition with_r2t_flag :: "ptr \<Rightarrow> target_session \<Rightarrow> target_session" where
  "with_r2t_flag p = upd_cmd p (\<lambda>c. c\<lparr>tg_r2t_flag := True\<rparr>)"

lemma with_r2t_flag_simps [simp]:
  "t_sends (with_r2t_flag p s) = t_sends s" "t_out (with_r2t_flag p s) = t_out s" "t_slock (with_r2t_flag p s) = t_slock s"
  "t_sess_params (with_r2t_flag p s) = t_sess_params s"
  "scsi_of (with_r2t_flag p s) q = scsi_of s q"
  "r2t_pdu (with_r2t_flag p s) sc len off = r2t_pdu s sc len off"
  "with_r2t_flag p (with_r2t_flag p s) = with_r2t_flag p s"
  "with_r2t_flag p (sent n ms s) = sent n ms (with_r2t_flag p s)"
  by (simp_all add: with_r2t_flag_def scsi_of_def r2t_pdu_def)

lemma r2t_pdu_sent [simp]:
  "r2t_pdu (sent n ms s) sc len off = r2t_pdu s sc len off" "scsi_of (sent n ms s) p = scsi_of s p"
  by (simp_all add: r2t_pdu_def scsi_of_def)

lemma send_r2t_ok:
  assumes "\<not> t_slock s" "e_send_ok env (t_sends s)"
  shows "send_r2t env p len off s =
    Inr (with_r2t_flag p (sent 1 [iscsi_r2t_encap (r2t_pdu s (scsi_of s p) len off)] s))"
proof -
  have "e_send_ok env (t_sends (s\<lparr>t_slock := True\<rparr>))" using assms(2) by simp
  from sock_send_ok [OF this] show ?thesis
    using assms(1) by (simp add: send_r2t_def with_r2t_flag_def)
qed

text \<open>The headers of the R2Ts for a list of pieces.\<close>

definition r2t_headers :: "target_session \<Rightarrow> ptr \<Rightarrow> (nat \<times> nat) list \<Rightarrow> header list" where
  "r2t_headers s p =
     map (\<lambda>(off, len). iscsi_r2t_encap (r2t_pdu s (scsi_of s p) (of_nat len) (of_nat off)))"

lemma r2t_loop_pieces:
  fixes remaining transferred :: u32
  assumes "\<not> t_slock s" "0 < b" "b = unat (max_burst_length (t_sess_params s))"
    and "n = unat remaining" "off = unat (sc_bytes_todev (scsi_of s p)) + unat transferred"
    and "off + n < 2 ^ 32" "sends_ok env (length (pieces b n off)) s"
  shows "r2t_loop env p remaining transferred s =
    Some (Inr (let ms = r2t_headers s p (pieces b n off)
               in sent (length ms) ms (if n = 0 then s else with_r2t_flag p s)))"
  using assms
proof (induction b n off arbitrary: remaining transferred s rule: pieces.induct)
  case (1 b n off)
  show ?case
  proof (cases "n = 0")
    case True
    then have "remaining = 0" using 1(5) by (simp add: unat_eq_0)
    then show ?thesis using True by (subst r2t_loop.simps) (simp add: r2t_headers_def)
  next
    case False
    let ?burst = "max_burst_length (t_sess_params s)"
    define desired where "desired = (if remaining > ?burst then ?burst else remaining)"
    have d: "unat desired = min n b"
      using 1(4,5) by (auto simp: desired_def word_less_nat_alt min_def)
    have rem: "remaining \<noteq> 0" using False 1(5) by (simp add: unat_eq_0)
    have le: "min n b \<le> n" by simp
    have rem': "unat (remaining - desired) = n - min n b"
      using 1(5) d le by (simp add: unat_sub word_le_nat_alt)
    have "unat transferred + unat desired < 2 ^ LENGTH(32)"
      using 1(6,7) le by (simp add: d)
    then have "unat (transferred + desired) = unat transferred + unat desired"
      by (rule unat_add_lem [THEN iffD1])
    then have tr: "unat (transferred + desired) = unat transferred + min n b" by (simp add: d)
    have offw: "sc_bytes_todev (scsi_of s p) + transferred = of_nat off"
      using 1(6) by (simp add: word_of_nat_eq_iff unat_of_nat) 
    have desw: "desired = of_nat (min n b)" using arg_cong [OF d, of "of_nat :: nat \<Rightarrow> u32"] by simp
    have ok: "e_send_ok env (t_sends s)" "sends_ok env (length (pieces b (n - min n b) (off + min n b))) (sent 1 ms s')"
      if "t_sends s' = t_sends s" for ms s'
      using 1(8) False 1(3) that unfolding sends_ok_def
      by (subst (asm) pieces.simps; force)+
    let ?h = "iscsi_r2t_encap (r2t_pdu s (scsi_of s p) desired (of_nat off))"
    let ?s = "sent 1 [?h] (with_r2t_flag p s)"
    have IH: "r2t_loop env p (remaining - desired) (transferred + desired) ?s =
      Some (Inr (let ms = r2t_headers ?s p (pieces b (n - min n b) (off + min n b))
               in sent (length ms) ms (if n - min n b = 0 then ?s else with_r2t_flag p ?s)))"
      by (rule 1(1)) (use False 1 rem' tr ok in \<open>simp_all\<close>)
    show ?thesis
      using rem False 1(2,3) IH send_r2t_ok [OF 1(2), of env p desired "of_nat off"] ok(1)
      by (subst r2t_loop.simps, subst pieces.simps)
        (simp add: Let_def desired_def [symmetric] offw r2t_headers_def desw [symmetric])
  qed
qed

text \<open>With a limit of 0 the loop never ends, as long as its messages can be sent.\<close>

lemma r2t_loop_zero_burst:
  assumes "r2t_loop env p remaining transferred s = Some r"
  shows "\<not> (\<not> t_slock s \<and> (\<forall>i. e_send_ok env i) \<and> max_burst_length (t_sess_params s) = 0 \<and> remaining \<noteq> 0)"
proof (rule r2t_loop.raw_induct [OF _ assms])
  fix f and env :: "'a device_env_scheme" and p remaining transferred s r
  assume IH: "\<And>env p remaining transferred s r. f env p remaining transferred s = Some r \<Longrightarrow>
      \<not> (\<not> t_slock s \<and> (\<forall>i. e_send_ok env i) \<and> max_burst_length (t_sess_params s) = 0 \<and> remaining \<noteq> 0)"
    and body: "(if remaining \<noteq> 0
      then let burst = max_burst_length (t_sess_params s);
               desired = if remaining > burst then burst else remaining
           in case send_r2t env p desired (sc_bytes_todev (scsi_of s p) + transferred) s of
              Inl r \<Rightarrow> Some (Inl r)
              | Inr s \<Rightarrow> f env p (remaining - desired) (transferred + desired) s
      else Some (Inr s)) = Some r"
  show "\<not> (\<not> t_slock s \<and> (\<forall>i. e_send_ok env i) \<and> max_burst_length (t_sess_params s) = 0 \<and> remaining \<noteq> 0)"
  proof
    assume *: "\<not> t_slock s \<and> (\<forall>i. e_send_ok env i) \<and> max_burst_length (t_sess_params s) = 0 \<and> remaining \<noteq> 0"
    then have "0 < remaining" by (simp add: word_neq_0_conv)
    with * body show False
      using send_r2t_ok [of s env p 0 "sc_bytes_todev (scsi_of s p) + transferred"]
      by (auto dest!: IH)
  qed
qed

subsection \<open>Read data\<close>

text \<open>The messages for a list of segments: a header and its data for each.\<close>

fun read_messages ::
  "target_session \<Rightarrow> iscsi_scsi_cmd_t \<Rightarrow> nat list \<Rightarrow> u32 \<Rightarrow> (nat \<times> nat) list \<Rightarrow> byte list list" where
  "read_messages s sc addrs DataSN [] = []"
| "read_messages s sc addrs DataSN ((off, len) # ps) =
    [iscsi_read_data_encap (read_data_pdu s sc (off + len = length addrs) (of_nat len) DataSN (of_nat off)),
     map (t_mem s) (take len (drop off addrs))] @
    read_messages s sc addrs (DataSN + 1) ps"

lemma length_read_messages [simp]: "length (read_messages s sc addrs DataSN ps) = 2 * length ps"
  by (induction ps arbitrary: DataSN) auto

lemma pieces_slices:
  "0 < b \<Longrightarrow> off + n = length xs \<Longrightarrow>
   concat (map (\<lambda>(o', l). take l (drop o' xs)) (pieces b n off)) = drop off xs"
proof (induction b n off rule: pieces.induct)
  case (1 b n off)
  show ?case
  proof (cases "n = 0")
    case False
    have "take (min n b) (drop off xs) @ drop (off + min n b) xs = drop off xs"
      by (metis append_take_drop_id drop_drop add.commute)
    then show ?thesis using 1 False by (subst pieces.simps) simp
  qed (use 1 in simp)
qed

lemma read_data_pdu_cong:
  "\<not> t_UsePhaseCollapsedRead s \<Longrightarrow> \<not> t_UsePhaseCollapsedRead s' \<Longrightarrow> sc_tag sc' = sc_tag sc \<Longrightarrow>
   t_ExpCmdSN s' = t_ExpCmdSN s \<Longrightarrow> t_MaxCmdSN s' = t_MaxCmdSN s \<Longrightarrow>
   read_data_pdu s' sc' fin len sn off = read_data_pdu s sc fin len sn off"
  by (simp add: read_data_pdu_def)

lemma read_messages_cong:
  "\<not> t_UsePhaseCollapsedRead s \<Longrightarrow> \<not> t_UsePhaseCollapsedRead s' \<Longrightarrow> sc_tag sc' = sc_tag sc \<Longrightarrow>
   t_ExpCmdSN s' = t_ExpCmdSN s \<Longrightarrow> t_MaxCmdSN s' = t_MaxCmdSN s \<Longrightarrow> t_mem s' = t_mem s \<Longrightarrow>
   read_messages s' sc' addrs sn ps = read_messages s sc addrs sn ps"
proof (induction ps arbitrary: sn)
  case (Cons a ps)
  then show ?case
    by (cases a) (simp add: read_data_pdu_cong [of s s' sc' sc])
qed simp

text \<open>One segment.\<close>

lemma send_header_and_iov_ok:
  assumes "sends_ok env 2 s" "NULL \<notin> iov_base ` set vs" "iovs_len vs = len" "len \<noteq> 0"
  shows "send_header_and_iov env h len vs s = (True, sent 2 [h, map (t_mem s) (iovs_addrs vs)] s)"
proof -
  have "e_send_ok env (t_sends s)" "e_send_ok env (t_sends s + 1)"
    using assms(1) by (auto simp: sends_ok_def dest: spec [of _ 0] spec [of _ 1])
  then show ?thesis
    using assms sock_send_ok [of env s h] sock_send_ok [of env "sent 1 [h] s"]
    by (auto simp: send_header_and_iov_def image_iff numeral_2_eq_2)
qed

definition add_fromdev :: "ptr \<Rightarrow> u32 \<Rightarrow> target_session \<Rightarrow> target_session" where
  "add_fromdev p len = upd_scsi p (\<lambda>sc. sc\<lparr>sc_bytes_fromdev := sc_bytes_fromdev sc + len\<rparr>)"

lemma add_fromdev_simps [simp]:
  "t_sends (add_fromdev p len s) = t_sends s" "t_slock (add_fromdev p len s) = t_slock s"
  "t_sess_params (add_fromdev p len s) = t_sess_params s"
  "t_ExpCmdSN (add_fromdev p len s) = t_ExpCmdSN s" "t_MaxCmdSN (add_fromdev p len s) = t_MaxCmdSN s"
  "t_UsePhaseCollapsedRead (add_fromdev p len s) = t_UsePhaseCollapsedRead s"
  "t_mem (add_fromdev p len s) = t_mem s" "t_disk (add_fromdev p len s) = t_disk s"
  "sc_tag (scsi_of (add_fromdev p len s) p) = sc_tag (scsi_of s p)"
  "add_fromdev p len (sent n ms s) = sent n ms (add_fromdev p len s)"
  "add_fromdev p len (add_fromdev p len' s) = add_fromdev p (len' + len) s"
  by (simp_all add: add_fromdev_def upd_scsi_def scsi_of_def add.assoc comp_def)

lemma segment_len_unat:
  assumes "offset < trans_len"
  shows "unat (segment_len seg trans_len offset) =
    (if seg = 0 then unat trans_len - unat offset else min (unat trans_len - unat offset) (unat seg))"
proof -
  have "unat (trans_len - offset) = unat trans_len - unat offset"
    using assms by (simp add: unat_sub less_imp_le)
  then show ?thesis by (auto simp: segment_len_def MIN_u32_def word_less_nat_alt min_def)
qed

lemma read_data_step_ok:
  assumes "\<not> t_slock s" "\<not> t_UsePhaseCollapsedRead s" "sends_ok env 2 s"
    and "NULL \<notin> iov_base ` set sg" "iovs_len sg = unat trans_len" "offset < trans_len"
    and len: "len = segment_len (max_data_seg_length (t_sess_params s)) trans_len offset"
  shows "read_data_step env p sg trans_len offset DataSN s =
    Inr (add_fromdev p len (sent 2
      [iscsi_read_data_encap (read_data_pdu s (scsi_of s p) (unat offset + unat len = unat trans_len)
         len DataSN offset),
       map (t_mem s) (take (unat len) (drop (unat offset) (iovs_addrs sg)))] s))"
proof -
  have l: "0 < unat len" "unat offset + unat len \<le> unat trans_len"
    using assms(6) segment_len_unat [OF assms(6)] unat_gt_0 [of "max_data_seg_length (t_sess_params s)"]
    by (auto simp: len word_less_nat_alt)
  have sum: "unat (offset + len) = unat offset + unat len" using l(2) by (rule add_words_eq)
  have fin: "offset + len = trans_len \<longleftrightarrow> unat offset + unat len = unat trans_len"
    using sum by (metis word_unat_eq_iff)
  have notgt: "\<not> offset + len > trans_len" using sum l(2) by (simp add: word_less_nat_alt)
  obtain arr i n where m: "(if len \<noteq> trans_len then modify_iov sg 0 (length sg) (unat offset) (unat len)
        else (0, sg, 0, length sg)) = (0, arr, i, n)"
      "iovs_addrs (take n (drop i arr)) = take (unat len) (drop (unat offset) (iovs_addrs sg))"
      "NULL \<notin> iov_base ` set (take n (drop i arr))"
  proof (cases "len = trans_len")
    case True
    then have "unat offset = 0" using l(2) by simp
    then show ?thesis using that [of sg 0 "length sg"] True assms(4,5) by simp
  next
    case False
    have "\<exists>arr' p' n'. modify_iov sg 0 (length sg) (unat offset) (unat len) = (0, arr', p', n') \<and>
        iovs_addrs (take n' (drop p' arr')) = take (unat len) (drop (unat offset) (iovs_addrs sg)) \<and>
        NULL \<notin> iov_base ` set (take n' (drop p' arr'))"
      using modify_iov_view [of "unat offset" "length sg" 0 sg "unat len"] assms(4,5,6) l
      by (auto simp: word_less_nat_alt)
    then show ?thesis using that False by force
  qed
  have "iovs_len (take n (drop i arr)) = unat len"
    using m(2) l(2) assms(5) by (metis length_iovs_addrs length_take length_drop le_diff_conv2 
        add.commute min.absorb2 add_leD1)
  moreover have "sends_ok env 2 (s\<lparr>t_slock := True\<rparr>)" using assms(3) by (simp add: sends_ok_def)
  ultimately show ?thesis
    using send_header_and_iov_ok [of env "s\<lparr>t_slock := True\<rparr>" "take n (drop i arr)" "unat len"] m l(1)
      assms(1,2) notgt
    by (simp add: read_data_step_def len [symmetric] fin add_fromdev_def split: prod.splits)
qed

text \<open>
  The whole loop.  \<open>n\<close> bytes are left at the offset; the increment is the segment limit, or the
  whole length if there is no limit.  Where the last increment stays below \<open>2 ^ 32\<close>, the loop ends.
\<close>

lemma read_data_loop_pieces:
  assumes "\<not> t_slock s" "\<not> t_UsePhaseCollapsedRead s" "sends_ok env (2 * length (pieces b n (unat offset))) s"
    and "NULL \<notin> iov_base ` set sg" "iovs_len sg = unat trans_len"
    and "inc = segment_inc (max_data_seg_length (t_sess_params s)) trans_len" "b = unat inc" "0 < b" "unat trans_len + b \<le> 2 ^ 32"
    and "n = unat trans_len - unat offset"
  shows "read_data_loop env p sg trans_len inc offset DataSN s =
    Some (Inr (let ps = pieces b n (unat offset);
                   ms = read_messages s (scsi_of s p) (iovs_addrs sg) DataSN ps
               in (DataSN + of_nat (length ps),
                   if ps = [] then s else add_fromdev p (of_nat n) (sent (length ms) ms s))))"
  using assms
proof (induction n arbitrary: offset DataSN s rule: less_induct)
  case (less n)
  note a = less.prems
  show ?case
  proof (cases "n = 0")
    case True
    then have "\<not> offset < trans_len" using a(10) by (simp add: word_less_nat_alt)
    then show ?thesis using True by (subst read_data_loop.simps) simp
  next
    case False
    then have lt: "offset < trans_len" "unat offset < unat trans_len"
      using a(10) by (simp_all add: word_less_nat_alt)
    let ?seg = "max_data_seg_length (t_sess_params s)"
    define len where "len = segment_len ?seg trans_len offset"
    have l: "unat len = min n b"
      using segment_len_unat [OF lt(1), of ?seg] a(6,7,10) by (auto simp: len_def segment_inc_def min_def)
    have len_nat: "len = of_nat (min n b)" using arg_cong [OF l, of "of_nat :: nat \<Rightarrow> u32"] by simp
    let ?ps = "pieces b n (unat offset)" and ?rest = "pieces b (n - min n b) (unat offset + min n b)"
    have ps: "?ps = (unat offset, min n b) # ?rest" using False a(8) by (simp add: pieces_step)
    have ok: "sends_ok env 2 s" "sends_ok env (2 * length ?rest) (sent 2 ms s)" for ms
      using a(3) unfolding ps sends_ok_def by (auto simp: add.assoc dest: spec [of _ "Suc (Suc _)"])
    have "unat offset + b < 2 ^ LENGTH(32)" using lt(2) a(9) by simp
    then have off: "unat (offset + inc) = unat offset + b"
      unfolding a(7) by (rule unat_add_lem [THEN iffD1])
    define msg where "msg = [iscsi_read_data_encap (read_data_pdu s (scsi_of s p)
          (unat offset + unat len = unat trans_len) len DataSN offset),
        map (t_mem s) (take (unat len) (drop (unat offset) (iovs_addrs sg)))]"
    have msg: "length msg = 2" "read_messages s (scsi_of s p) (iovs_addrs sg) DataSN ?ps =
        msg @ read_messages s (scsi_of s p) (iovs_addrs sg) (DataSN + 1) ?rest"
      using a(5) by (simp_all add: ps msg_def l len_nat [symmetric])
    let ?s = "add_fromdev p len (sent 2 msg s)"
    have step: "read_data_step env p sg trans_len offset DataSN s = Inr ?s"
      unfolding msg_def using a ok(1) lt(1) len_def by (intro read_data_step_ok) simp_all
    have n': "n - min n b = unat trans_len - unat (offset + inc)"
      using off a(10) by (simp add: min_def)
    have rest_eq: "?rest = pieces b (n - min n b) (unat (offset + inc))"
      using off by (cases "n \<le> b") (simp_all add: min_def)
    have same: "\<not> t_slock ?s" "\<not> t_UsePhaseCollapsedRead ?s"
        "inc = segment_inc (max_data_seg_length (t_sess_params ?s)) trans_len"
      using a(1,2,6) by simp_all
    have ok': "sends_ok env (2 * length (pieces b (n - min n b) (unat (offset + inc)))) ?s"
      using ok(2) unfolding rest_eq sends_ok_def by simp
    have IH: "read_data_loop env p sg trans_len inc (offset + inc) (DataSN + 1) ?s =
      Some (Inr (let ms = read_messages ?s (scsi_of ?s p) (iovs_addrs sg) (DataSN + 1) ?rest
               in (DataSN + 1 + of_nat (length ?rest),
                   if ?rest = [] then ?s else add_fromdev p (of_nat (n - min n b)) (sent (length ms) ms ?s))))"
      unfolding rest_eq Let_def
      by (rule less.IH [unfolded Let_def, OF _ same(1,2) ok' a(4,5) same(3) a(7-9) n'])
        (use False a(8) in simp)
    have msgs: "read_messages ?s (scsi_of ?s p) (iovs_addrs sg) (DataSN + 1) ?rest =
        read_messages s (scsi_of s p) (iovs_addrs sg) (DataSN + 1) ?rest"
      using a(2) by (intro read_messages_cong) simp_all
    have rest_nil: "?rest = [] \<longleftrightarrow> n \<le> b"
      using a(8) by (subst pieces.simps) (auto simp: min_def)
    have total: "len + of_nat (n - min n b) = of_nat n"
      unfolding len_nat by (metis le_add_diff_inverse min.cobounded1 of_nat_add)
    have cnt: "2 * length ?ps = 2 + 2 * length ?rest" "length ?ps = Suc (length ?rest)" "?ps \<noteq> []"
      by (simp_all add: ps)
    show ?thesis
    proof (cases "?rest = []")
      case True
      then have "len = of_nat n" using total rest_nil by simp
      then show ?thesis
        using lt(1) step IH msg cnt True by (subst read_data_loop.simps) simp
    next
      case False
      then show ?thesis
        using lt(1) step IH msg cnt msgs total
        by (subst read_data_loop.simps) (simp add: Let_def add.assoc)
    qed
  qed
qed

section \<open>Properties of the transfers of a target\<close>

subsection \<open>A sample session\<close>

definition sample_device :: device_env where
  "sample_device = \<lparr>e_chap = sample_env, e_key0 = [], e_send_ok = (\<lambda>n. True), e_hostname = ''disk'',
     e_TargetAddress = ''10.0.0.1:3260,1'', e_gather_addr = (\<lambda>p. 4096),
     e_latency = (\<lambda>p s. 5), e_junk = (\<lambda>p s. 0), e_enqueue = (\<lambda>p s. Return 0 s),
     e_place_data = (\<lambda>p off len s. Return (int (unat len)) s), e_stopping = (\<lambda>s. False)\<rparr>"

definition sample_cmd :: target_cmd where
  "sample_cmd = blank_target_cmd
     \<lparr>tg_scsi := blank_scsi_cmd\<lparr>sc_tag := 7, sc_fromdev := 1, sc_trans_len := 10\<rparr>,
      tg_gather := [\<lparr>iov_base = 100, iov_len = 4\<rparr>, \<lparr>iov_base = 200, iov_len = 6\<rparr>]\<rparr>"

definition sample_session :: target_session where
  "sample_session = session_start blank_param
     \<lparr>t_id = 0, t_cid = 0, t_StatSN = 0, t_ExpCmdSN = 0, t_MaxCmdSN = 0,
      t_UsePhaseCollapsedRead = False, t_IsFullFeature = False, t_IsLoggedIn = False,
      t_LoginStarted = False, t_Authenticated = False, t_isid = 0, t_tsih = 0,
      t_text = state_of [], t_sess_params = \<lparr>max_burst_length = 0, first_burst_length = 0,
        max_data_seg_length = 0, initial_r2t = False, immediate_data = False\<rparr>,
      t_slock = False, t_cmds = empty_table, t_cmd_mem = (\<lambda>p. sample_cmd),
      t_cmd_q = \<lparr>q_head = 0, q_tail = 0, q_count = 2, q_elem = [100, 101], q_depth = 2\<rparr>,
      t_header_mem = (\<lambda>p. zero_header),
      t_header_q = \<lparr>q_head = 0, q_tail = 0, q_count = 2, q_elem = [200, 201], q_depth = 2\<rparr>,
      t_counters = (\<lambda>lun. zero_counters), t_nop_flag = False, t_mem = of_nat, t_disk = blank_disk, t_osd = blank_osd,
      t_in = [], t_out = [], t_sends = 0\<rparr>"

definition limits :: "u32 \<Rightarrow> u32 \<Rightarrow> u32 \<Rightarrow> iscsi_sess_param" where
  "limits seg first burst = \<lparr>max_burst_length = burst, first_burst_length = first,
     max_data_seg_length = seg, initial_r2t = True, immediate_data = True\<rparr>"

lemma sample_simps [simp]:
  "\<not> t_slock sample_session" "\<not> t_UsePhaseCollapsedRead sample_session"
  "scsi_of (sample_session\<lparr>t_sess_params := sp\<rparr>) p =
     blank_scsi_cmd\<lparr>sc_tag := 7, sc_fromdev := 1, sc_trans_len := 10\<rparr>"
  "tg_gather (t_cmd_mem sample_session p) = [\<lparr>iov_base = 100, iov_len = 4\<rparr>, \<lparr>iov_base = 200, iov_len = 6\<rparr>]"
  "sends_ok sample_device n s"
  by (simp_all add: sample_session_def session_start_def scsi_of_def sample_cmd_def sends_ok_def
      sample_device_def)

subsection \<open>Requests for write data\<close>

text \<open>
  C7. A target that asks for the write data of a command by R2Ts asks for every byte that is
  still missing exactly once, in order, in bursts of at least one and at most \<^verbatim>\<open>MaxBurstLength\<close>
  bytes, and then marks the command ready.
\<close>

theorem r2t_covers_transfer:
  fixes s :: target_session and p :: ptr
  defines "sc \<equiv> scsi_of s p" and "burst \<equiv> max_burst_length (t_sess_params s)"
  defines "ps \<equiv> pieces (unat burst) (unat (sc_trans_len sc) - unat (sc_bytes_todev sc)) (unat (sc_bytes_todev sc))"
  assumes "\<not> t_slock s" "initial_r2t (t_sess_params s)" "burst \<noteq> 0"
    and "sc_bytes_todev sc < sc_trans_len sc" "sends_ok env (length ps) s"
  shows "\<exists>s'. target_transfer_data env p s = Return 0 s' \<and> t_out s' = t_out s @ r2t_headers s p ps \<and>
    tg_ready (t_cmd_mem s' p) \<and> \<not> t_slock s' \<and>
    concat (map (\<lambda>(off, len). [off..<off + len]) ps) = [unat (sc_bytes_todev sc)..<unat (sc_trans_len sc)] \<and>
    (\<forall>(off, len)\<in>set ps. 0 < len \<and> len \<le> unat burst)"
proof -
  let ?n = "unat (sc_trans_len sc) - unat (sc_bytes_todev sc)"
  have lt: "unat (sc_bytes_todev sc) < unat (sc_trans_len sc)" using assms(7) by (simp add: word_less_nat_alt)
  have n: "?n = unat (sc_trans_len sc - sc_bytes_todev sc)"
    using assms(7) by (simp add: unat_sub less_imp_le)
  have b: "0 < unat burst" using assms(6) by (simp add: unat_gt_0)
  have sum: "unat (sc_bytes_todev sc) + ?n < 2 ^ 32"
  proof -
    have "unat (sc_trans_len sc) < 2 ^ LENGTH(32)" by (rule unsigned_less)
    then show ?thesis using lt by simp
  qed
  have loop: "r2t_loop env p (sc_trans_len sc - sc_bytes_todev sc) 0 s =
    Some (Inr (let ms = r2t_headers s p ps in sent (length ms) ms (with_r2t_flag p s)))"
    using r2t_loop_pieces [of s "unat burst" ?n "sc_trans_len sc - sc_bytes_todev sc"
        "unat (sc_bytes_todev sc)" p 0 env] assms(4,8) b n sum lt
    by (simp add: ps_def sc_def burst_def)
  have nz: "sc_trans_len sc - sc_bytes_todev sc \<noteq> 0" using assms(7) by auto
  have "concat (map (\<lambda>(off, len). [off..<off + len]) ps) = [unat (sc_bytes_todev sc)..<unat (sc_trans_len sc)]"
    using pieces_tile [OF b, of ?n "unat (sc_bytes_todev sc)"] lt by (simp add: ps_def)
  moreover have "\<forall>(off, len)\<in>set ps. 0 < len \<and> len \<le> unat burst"
    using pieces_bounds unfolding ps_def by blast
  ultimately show ?thesis
    using loop nz assms(4,5) by (simp add: target_transfer_data_def sc_def [symmetric] Let_def)
qed

lemma sample_pieces: "pieces 4 10 0 = [(0, 4), (4, 4), (8, 2)]"
  by (simp add: pieces.simps)

theorem r2t_covers_transfer_witness:
  "\<exists>s'. target_transfer_data sample_device 100 (sample_session\<lparr>t_sess_params := limits 0 0 4\<rparr>) = Return 0 s' \<and>
    length (t_out s') = 3"
  using r2t_covers_transfer [where s = "sample_session\<lparr>t_sess_params := limits 0 0 4\<rparr>" and p = 100 and
      env = sample_device]
  by (auto simp: blank_scsi_cmd_def limits_def sample_pieces r2t_headers_def)
    (simp add: sample_session_def session_start_def)

text \<open>
  C8. If the negotiated burst limit is 0, which the parameters of that type understand as
  no limit, a target that has to ask for write data never returns: it sends R2Ts of length 0 for
  as long as they can be sent.
\<close>

theorem zero_burst_never_ends:
  assumes "\<not> t_slock s" "\<forall>i. e_send_ok env i" "initial_r2t (t_sess_params s)"
    and "max_burst_length (t_sess_params s) = 0" "sc_trans_len (scsi_of s p) \<noteq> sc_bytes_todev (scsi_of s p)"
  shows "target_transfer_data env p s = Diverges"
proof -
  have "r2t_loop env p (sc_trans_len (scsi_of s p) - sc_bytes_todev (scsi_of s p)) 0 s = None"
    using r2t_loop_zero_burst [of env p "sc_trans_len (scsi_of s p) - sc_bytes_todev (scsi_of s p)" 0 s] assms
    by (cases "r2t_loop env p (sc_trans_len (scsi_of s p) - sc_bytes_todev (scsi_of s p)) 0 s") auto
  then show ?thesis using assms by (simp add: target_transfer_data_def)
qed

theorem zero_burst_never_ends_witness:
  "target_transfer_data sample_device 100 (sample_session\<lparr>t_sess_params := limits 0 0 0\<rparr>) = Diverges"
  by (rule zero_burst_never_ends) (simp_all add: sample_device_def limits_def blank_scsi_cmd_def)

subsection \<open>Sending read data\<close>

lemma send_read_data_pieces:
  fixes s :: target_session and p :: ptr
  defines "sc \<equiv> scsi_of s p" and "gather \<equiv> tg_gather (t_cmd_mem s p)"
    and "seg \<equiv> max_data_seg_length (t_sess_params s)"
  assumes "ps = pieces (unat seg) (unat (sc_trans_len sc)) 0"
    and "\<not> t_slock s" "\<not> t_UsePhaseCollapsedRead s" "sends_ok env (2 * length ps) s"
    and "sc_todev sc = 0" "0 < sc_trans_len sc" "gather \<noteq> []" "NULL \<notin> iov_base ` set gather"
    and "iovs_len gather = unat (sc_trans_len sc)" "unat (sc_trans_len sc) + unat seg \<le> 2 ^ 32" "seg \<noteq> 0"
  shows "send_read_data env p s k = k (of_nat (length ps))
      (add_fromdev p (sc_trans_len sc)
        (sent (2 * length ps) (read_messages s sc (iovs_addrs gather) 0 ps) s))"
proof -
  have inc: "segment_inc seg (sc_trans_len sc) = seg" using assms(14) by (simp add: segment_inc_def)
  have b: "0 < unat seg" using assms(14) by (simp add: unat_gt_0)
  have n: "unat (sc_trans_len sc) \<noteq> 0" using assms(9) by (simp add: unat_eq_0 word_neq_0_conv [symmetric])
  then have ne: "ps \<noteq> []" using b by (simp add: assms(4) pieces.simps)
  have ps_eq: "pieces (unat seg) (unat (sc_trans_len sc)) (unat (0 :: u32)) = ps"
    by (simp add: assms(4))
  have lim: "seg = segment_inc (max_data_seg_length (t_sess_params s)) (sc_trans_len sc)"
    using inc by (simp add: seg_def)
  have left: "unat (sc_trans_len sc) = unat (sc_trans_len sc) - unat (0 :: u32)" by simp
  have "read_data_loop env p gather (sc_trans_len sc) seg 0 0 s =
    Some (Inr (of_nat (length ps), add_fromdev p (sc_trans_len sc)
        (sent (2 * length ps) (read_messages s sc (iovs_addrs gather) 0 ps) s)))"
    using read_data_loop_pieces [OF assms(5,6) _ assms(11,12) lim refl b assms(13) left,
        of env p 0, unfolded ps_eq sc_def [symmetric] Let_def] assms(7) ne
    by simp
  then show ?thesis
    using assms(8,10) inc
    by (simp add: send_read_data_def sc_def [symmetric] gather_def [symmetric] seg_def [symmetric])
qed

text \<open>
  C6. The data of a read command goes out whole: one PDU for each piece of at most
  \<^verbatim>\<open>MaxRecvDataSegmentLength\<close> bytes, numbered from 0, each with its offset and length and followed by
  exactly the bytes of the scatter list at that offset, the last and only the last one marked
  final; together the data segments are the bytes of the scatter list.  The byte count of the
  command grows by the length of the transfer.
\<close>

theorem read_data_covers_transfer:
  fixes s :: target_session and p :: ptr
  defines "sc \<equiv> scsi_of s p" and "gather \<equiv> tg_gather (t_cmd_mem s p)"
    and "seg \<equiv> max_data_seg_length (t_sess_params s)"
  defines "ps \<equiv> pieces (unat (segment_inc seg (sc_trans_len sc))) (unat (sc_trans_len sc)) 0"
  assumes "\<not> t_slock s" "\<not> t_UsePhaseCollapsedRead s" "sends_ok env (2 * length ps) s"
    and "sc_todev sc = 0" "0 < sc_trans_len sc" "gather \<noteq> []" "NULL \<notin> iov_base ` set gather"
    and "iovs_len gather = unat (sc_trans_len sc)" "unat (sc_trans_len sc) + unat seg \<le> 2 ^ 32" "seg \<noteq> 0"
  shows "send_read_data env p s k = k (of_nat (length ps))
      (add_fromdev p (sc_trans_len sc)
        (sent (2 * length ps) (read_messages s sc (iovs_addrs gather) 0 ps) s)) \<and>
    concat (map (\<lambda>(off, len). take len (drop off (iovs_addrs gather))) ps) = iovs_addrs gather \<and>
    (\<forall>(off, len)\<in>set ps. 0 < len \<and> len \<le> unat seg \<and> off + len \<le> unat (sc_trans_len sc))"
proof -
  have inc: "segment_inc seg (sc_trans_len sc) = seg" using assms(14) by (simp add: segment_inc_def)
  have b: "0 < unat seg" using assms(14) by (simp add: unat_gt_0)
  have "concat (map (\<lambda>(off, len). take len (drop off (iovs_addrs gather))) ps) = iovs_addrs gather"
    using pieces_slices [OF b, of 0 "unat (sc_trans_len sc)" "iovs_addrs gather"] assms(12) inc
    by (simp add: ps_def)
  moreover have "\<forall>(off, len)\<in>set ps. 0 < len \<and> len \<le> unat seg \<and> off + len \<le> unat (sc_trans_len sc)"
    using pieces_bounds inc unfolding ps_def by fastforce
  moreover have eq: "ps = pieces (unat seg) (unat (sc_trans_len sc)) 0" by (simp add: ps_def inc)
  note send_read_data_pieces [OF eq [unfolded seg_def sc_def] assms(5-14) [unfolded sc_def gather_def seg_def],
      of k, folded sc_def gather_def]
  ultimately show ?thesis by simp
qed

theorem read_data_covers_transfer_witness:
  "\<exists>s'. send_read_data sample_device 100 (sample_session\<lparr>t_sess_params := limits 4 0 0\<rparr>) (\<lambda>n s. Return (int (unat n)) s)
      = Return 3 s' \<and> length (t_out s') = 6"
  using read_data_covers_transfer [where s = "sample_session\<lparr>t_sess_params := limits 4 0 0\<rparr>" and p = 100 and
      env = sample_device and k = "\<lambda>n s. Return (int (unat n)) s"]
  by (auto simp: blank_scsi_cmd_def limits_def sample_pieces segment_inc_def NULL_def add_fromdev_def upd_scsi_def)
    (simp add: sample_session_def session_start_def)

end
