(* ===== verification/Target_Invariants.thy ===== *)
theory Target_Invariants
  imports Target_Transfer
begin

section \<open>What the handlers of a session keep\<close>

text \<open>
  Invariants of the session's handlers: \<open>ends_in P r\<close> says that every state in which the call can
  end satisfies \<open>P\<close>.  The locale \<open>handler_invariant\<close> lists what an invariant must not depend on, or
  must survive, for the handlers that answer on their own to keep it (its part \<open>connection_invariant\<close> is enough
  for those that only send an answer); \<open>session_invariant\<close> adds what
  the handlers of SCSI commands touch.  The first is interpreted on the commands of a session, which
  no handler of its own touches, the second on the validity of its parameters.
\<close>

fun ends_in :: "(target_session \<Rightarrow> bool) \<Rightarrow> outcome \<Rightarrow> bool" where
  "ends_in P (Return rc s) \<longleftrightarrow> P s"
| "ends_in P (Exits s) \<longleftrightarrow> P s"
| "ends_in P (Blocks s) \<longleftrightarrow> P s"
| "ends_in P Diverges \<longleftrightarrow> True"
| "ends_in P Undef \<longleftrightarrow> True"

lemma ends_in_mono: "ends_in P r \<Longrightarrow> (\<And>s. P s \<Longrightarrow> Q s) \<Longrightarrow> ends_in Q r"
  by (cases r) simp_all

text \<open>Rules that follow the structure of a handler; \<open>walk\<close> collects them.\<close>

named_theorems walk "rules along the structure of a handler"

lemma ends_in_if [walk]:
  "(b \<Longrightarrow> ends_in P x) \<Longrightarrow> (\<not> b \<Longrightarrow> ends_in P y) \<Longrightarrow> ends_in P (if b then x else y)"
  by simp

lemma ends_in_let [walk]: "ends_in P (f x) \<Longrightarrow> ends_in P (Let x f)"
  by simp

lemma ends_in_option [walk]:
  "(x = None \<Longrightarrow> ends_in P a) \<Longrightarrow> (\<And>y. x = Some y \<Longrightarrow> ends_in P (f y)) \<Longrightarrow>
   ends_in P (case x of None \<Rightarrow> a | Some y \<Rightarrow> f y)"
  by (cases x) simp_all

lemma ends_in_prod [walk]:
  "(\<And>a b. x = (a, b) \<Longrightarrow> ends_in P (f a b)) \<Longrightarrow> ends_in P (case x of (a, b) \<Rightarrow> f a b)"
  by (cases x) simp_all

lemma ends_in_bind [walk]:
  "ends_in P r \<Longrightarrow> (\<And>rc s. P s \<Longrightarrow> ends_in P (f rc s)) \<Longrightarrow>
   ends_in P (case r of Return rc s \<Rightarrow> f rc s | Exits s \<Rightarrow> Exits s | Blocks s \<Rightarrow> Blocks s
     | Diverges \<Rightarrow> Diverges | Undef \<Rightarrow> Undef)"
  by (cases r) simp_all

text \<open>The same for a step that ends the call or goes on.\<close>

fun step_in :: "(target_session \<Rightarrow> bool) \<Rightarrow> outcome + target_session \<Rightarrow> bool" where
  "step_in P (Inl r) \<longleftrightarrow> ends_in P r"
| "step_in P (Inr s) \<longleftrightarrow> P s"

lemma step_in_if [walk]:
  "(b \<Longrightarrow> step_in P x) \<Longrightarrow> (\<not> b \<Longrightarrow> step_in P y) \<Longrightarrow> step_in P (if b then x else y)"
  by simp

lemma step_in_let [walk]: "step_in P (f x) \<Longrightarrow> step_in P (Let x f)"
  by simp

lemma step_in_prod [walk]:
  "(\<And>a b. x = (a, b) \<Longrightarrow> step_in P (f a b)) \<Longrightarrow> step_in P (case x of (a, b) \<Rightarrow> f a b)"
  by (cases x) simp_all

lemma ends_in_sum:
  "step_in P r \<Longrightarrow> (\<And>s. P s \<Longrightarrow> ends_in P (f s)) \<Longrightarrow>
   ends_in P (case r of Inl r \<Rightarrow> r | Inr s \<Rightarrow> f s)"
  by (cases r) simp_all

lemma ends_in_loop:
  "step_in P (map_sum id snd r) \<Longrightarrow> (\<And>sn s. P s \<Longrightarrow> ends_in P (k sn s)) \<Longrightarrow>
   ends_in P (case r of Inl r \<Rightarrow> r | Inr (sn, s) \<Rightarrow> k sn s)"
  by (cases r) auto

lemma text_added_bound:
  "param_text_add key val out = (0, out') \<Longrightarrow> length out' \<le> ISCSI_PARAM_MAX_TEXT_LEN"
  by (auto simp: param_text_add_def split: if_splits)

lemma dispatched_ends [simp]: "ends_in P (dispatched q r) = ends_in P r"
  by (cases r) (simp_all add: dispatched_def)

lemma execute_early:
  assumes "\<not> t_IsFullFeature s"
  shows "execute_t env hp s =
    (let h = t_header_mem s hp; op = iscsi_opcode h
     in if \<not> t_LoginStarted s \<and> op \<noteq> ISCSI_LOGIN_CMD then Return (-1) s
        else if op = ISCSI_LOGIN_CMD then dispatched 0 (login_command_t env h s)
        else if op = ISCSI_LOGOUT_CMD then dispatched 0 (logout_command_t env h s)
        else locked_send env (iscsi_login_rsp_encap phase_reject) [] s (Return (-1)))"
proof -
  have refuse: "(case locked_send env h d s (Return (-1)) of
      Return rc s \<Rightarrow> if rc \<noteq> 0 then Return (-1) s else f rc s
    | Exits s \<Rightarrow> Exits s | Blocks s \<Rightarrow> Blocks s | Diverges \<Rightarrow> Diverges | Undef \<Rightarrow> Undef) =
    locked_send env h d s (Return (-1))" for h d f
    by (simp add: locked_send_def spin_lock_def split: prod.splits)
  consider "iscsi_opcode (t_header_mem s hp) = ISCSI_LOGIN_CMD"
    | "iscsi_opcode (t_header_mem s hp) = ISCSI_LOGOUT_CMD"
    | "iscsi_opcode (t_header_mem s hp) \<notin> {ISCSI_LOGIN_CMD, ISCSI_LOGOUT_CMD}"
    by blast
  then show ?thesis
  proof cases
    case 1
    then show ?thesis by (simp add: execute_t_def verify_cmd_t_def opcodes)
  next
    case 2
    then show ?thesis by (simp add: execute_t_def verify_cmd_t_def opcodes)
  next
    case 3
    then show ?thesis
      using assms by (simp add: execute_t_def verify_cmd_t_def refuse Let_def)
  qed
qed

subsection \<open>Handlers that answer on their own\<close>

locale connection_invariant =
  fixes P :: "target_session \<Rightarrow> bool"
  assumes connection: "\<And>s x. P (s\<lparr>t_in := x\<rparr>) = P s" "\<And>s x. P (s\<lparr>t_out := x\<rparr>) = P s"
      "\<And>s x. P (s\<lparr>t_sends := x\<rparr>) = P s" "\<And>s x. P (s\<lparr>t_slock := x\<rparr>) = P s"
    and numbers: "\<And>s x. P (s\<lparr>t_StatSN := x\<rparr>) = P s" "\<And>s x. P (s\<lparr>t_ExpCmdSN := x\<rparr>) = P s"
      "\<And>s x. P (s\<lparr>t_MaxCmdSN := x\<rparr>) = P s" "\<And>s x. P (s\<lparr>t_nop_flag := x\<rparr>) = P s"
begin

lemmas kept [simp] = connection numbers

lemma sock_send_kept [simp]: "P (snd (sock_send env msg s)) = P s"
  by (simp add: sock_send_def Let_def)

lemma sock_recv_kept [simp]: "P (snd (sock_recv n s)) = P s"
  by (simp add: sock_recv_def Let_def)

lemma send_data_kept [simp]: "P (snd (send_header_and_data env h d s)) = P s"
  using sock_send_kept [of env h s]
  by (auto simp: send_header_and_data_def split: prod.splits simp del: sock_send_kept)
    (metis snd_conv sock_send_kept)+

lemma sent_kept: "sock_send env msg s = (ok, s') \<Longrightarrow> P s' = P s"
  using sock_send_kept [of env msg s] by simp

lemma data_sent_kept: "send_header_and_data env h d s = (ok, s') \<Longrightarrow> P s' = P s"
  using send_data_kept [of env h d s] by simp

lemma received_kept: "sock_recv n s = (r, s') \<Longrightarrow> P s' = P s"
  using sock_recv_kept [of n s] by simp

lemma unlock_kept [simp]: "P (spin_unlock s) = P s"
  by (simp add: spin_unlock_def)

lemma locked_send_keeps:
  assumes "P s" "\<And>s'. P s' \<Longrightarrow> ends_in P (k s')"
  shows "ends_in P (locked_send env h d s k)"
  using assms by (auto simp: locked_send_def spin_lock_def data_sent_kept split: prod.splits)

lemma reject_keeps: "P s \<Longrightarrow> ends_in P (reject_t env h r s)"
  by (auto simp: reject_t_def Let_def intro!: locked_send_keeps)

lemma task_command_keeps: "P s \<Longrightarrow> ends_in P (task_command_t env h s)"
  by (auto simp: task_command_t_def Let_def sent_kept split: prod.splits)

lemma nop_out_keeps: "P s \<Longrightarrow> ends_in P (nop_out_t env h s)"
  by (auto simp: nop_out_t_def Let_def received_kept split: prod.splits option.splits
      intro!: locked_send_keeps split: if_splits)

lemma verify_keeps: "P s \<Longrightarrow> ends_in P (verify_cmd_t env h s)"
  by (auto simp: verify_cmd_t_def Let_def intro!: locked_send_keeps)

lemma login_respond_keeps: "P s \<Longrightarrow> ends_in P (login_respond env cmd rsp s)"
  by (auto simp: login_respond_def Let_def intro!: locked_send_keeps)

end

locale handler_invariant = connection_invariant +
  assumes flags: "\<And>s x. P (s\<lparr>t_LoginStarted := x\<rparr>) = P s" "\<And>s x. P (s\<lparr>t_Authenticated := x\<rparr>) = P s"
      "\<And>s x. P (s\<lparr>t_IsFullFeature := x\<rparr>) = P s" "\<And>s x. P (s\<lparr>t_IsLoggedIn := x\<rparr>) = P s"
      "\<And>s x. P (s\<lparr>t_cid := x\<rparr>) = P s" "\<And>s x. P (s\<lparr>t_isid := x\<rparr>) = P s" "\<And>s x. P (s\<lparr>t_tsih := x\<rparr>) = P s"
      "\<And>s x. P (s\<lparr>t_sess_params := x\<rparr>) = P s"
    and texts: "\<And>s x. P s \<Longrightarrow> length x \<le> ISCSI_PARAM_MAX_TEXT_LEN \<Longrightarrow>
        P (s\<lparr>t_text := (t_text s)\<lparr>s_out := x\<rparr>\<rparr>)"
      "\<And>s ce key0 outgoing tx rc st. P s \<Longrightarrow>
        param_text_parse ce key0 outgoing tx (t_text s) = Some (rc, st) \<Longrightarrow> P (s\<lparr>t_text := st\<rparr>)"
    and lists: "\<And>s key f. P s \<Longrightarrow> P (set_params (param_upd key (p_rx_offer_update f) (params s)) s)"
      "\<And>s ps. P s \<Longrightarrow> param_set_val (params s) ''MaxConnections'' ''1'' = Some ps \<Longrightarrow> P (set_params ps s)"
begin

lemmas flags_kept [simp] = flags

lemma logout_keeps: "P s \<Longrightarrow> ends_in P (logout_command_t env h s)"
  by (auto simp: logout_command_t_def Let_def sent_kept split: prod.splits)

lemma parse_then_keeps:
  assumes "P s" "\<And>rc s'. P s' \<Longrightarrow> ends_in P (k rc s')"
  shows "ends_in P (parse_then env user outgoing tx s k)"
  using assms texts(2) by (auto simp: parse_then_def split: option.splits)

lemma text_add_then_keeps:
  assumes "P s" "\<And>s'. P s' \<Longrightarrow> ends_in P (k s')"
  shows "ends_in P (text_add_then key val s k)"
  using assms
  by (auto simp: text_add_then_def split: prod.splits intro!: assms(2) texts(1) dest: text_added_bound)

lemma send_targets_keeps:
  assumes "P s" "\<And>s'. P s' \<Longrightarrow> ends_in P (k s')"
  shows "ends_in P (send_targets_then env s k)"
proof (cases "param_get (params s) ''SendTargets''")
  case None
  then show ?thesis using assms(1) by (simp add: send_targets_then_def)
next
  case (Some p)
  have clear: "P s' \<Longrightarrow> ends_in P (k (set_params (param_upd ''SendTargets''
      (p_rx_offer_update (\<lambda>_. False)) (params s')) s'))" for s'
    by (intro assms(2) lists(1))
  show ?thesis
    unfolding send_targets_then_def Some option.case
    by (intro walk text_add_then_keeps clear assms)
qed

lemma clear_kept:
  assumes "P s"
  shows "P (s\<lparr>t_text := (t_text s)\<lparr>s_out := []\<rparr>\<rparr>)"
    "P (s\<lparr>t_ExpCmdSN := a, t_MaxCmdSN := b, t_text := (t_text s)\<lparr>s_out := []\<rparr>\<rparr>)"
  using texts(1) [of s "[]"] texts(1) [of "s\<lparr>t_ExpCmdSN := a, t_MaxCmdSN := b\<rparr>" "[]"] assms
  by simp_all

lemma text_respond_keeps: "P s \<Longrightarrow> ends_in P (text_respond env cmd s)"
  unfolding text_respond_def by (intro walk) (simp_all add: sent_kept)

lemma text_command_keeps: "P s \<Longrightarrow> ends_in P (text_command_t env h s)"
  unfolding text_command_t_def
  by (intro walk parse_then_keeps send_targets_keeps text_respond_keeps)
    (simp_all add: received_kept clear_kept)

lemma login_enter_keeps:
  assumes "P s" "\<And>s'. P s' \<Longrightarrow> ends_in P (k s')"
  shows "ends_in P (login_enter cmd s k)"
proof -
  define s1 where "s1 = s\<lparr>t_ExpCmdSN := lc_CmdSN cmd, t_MaxCmdSN := lc_CmdSN cmd, t_cid := lc_cid cmd,
               t_isid := lc_isid cmd, t_tsih := of_nat (t_id s + 1), t_IsFullFeature := True,
               t_IsLoggedIn := True\<rparr>"
  have "P s1" using assms(1) by (simp add: s1_def)
  then have "P (set_params ps s1)" if "param_set_val (params s1) ''MaxConnections'' ''1'' = Some ps" for ps
    using that by (rule lists(2))
  then show ?thesis
    using assms(2) \<open>P s1\<close> unfolding login_enter_def Let_def s1_def [symmetric]
    by (auto split: option.splits intro!: assms(2))
qed

lemma login_stage_keeps: "P s \<Longrightarrow> ends_in P (login_stage env cmd rsp s)"
  by (auto simp: login_stage_def Let_def intro!: login_respond_keeps login_enter_keeps)

lemma login_command_keeps: "P s \<Longrightarrow> ends_in P (login_command_t env h s)"
  unfolding login_command_t_def
  by (intro walk parse_then_keeps text_add_then_keeps login_respond_keeps login_stage_keeps)
    (simp_all add: received_kept clear_kept)

text \<open>Before the full-feature phase, \<^verbatim>\<open>execute_t\<close> lets only logins and logouts through.\<close>

lemma early_execute_keeps:
  "P s \<Longrightarrow> \<not> t_IsFullFeature s \<Longrightarrow> ends_in P (execute_t env hp s)"
  unfolding execute_early
  by (intro walk locked_send_keeps) (simp_all add: login_command_keeps logout_keeps)

end

subsection \<open>Handlers of commands and data\<close>

text \<open>The device behind the target keeps \<open>P\<close>.\<close>

definition device_keeps :: "(target_session \<Rightarrow> bool) \<Rightarrow> 'e device_env_scheme \<Rightarrow> bool" where
  "device_keeps P env \<longleftrightarrow> (\<forall>p s. P s \<longrightarrow> ends_in P (e_enqueue env p s)) \<and>
     (\<forall>p off len s. P s \<longrightarrow> ends_in P (e_place_data env p off len s))"

text \<open>An invariant may speak of the scatter lists of the commands, which belong to the device.\<close>

locale session_invariant = handler_invariant +
  assumes commands: "\<And>s x. P (s\<lparr>t_cmds := x\<rparr>) = P s"
      "\<And>s x. P (s\<lparr>t_cmd_q := x\<rparr>) = P s" "\<And>s x. P (s\<lparr>t_header_q := x\<rparr>) = P s"
      "\<And>s x. P (s\<lparr>t_header_mem := x\<rparr>) = P s" "\<And>s x. P (s\<lparr>t_counters := x\<rparr>) = P s"
    and command_fields: "\<And>p f s. (\<And>c. tg_scatter (f c) = tg_scatter c) \<Longrightarrow> P (upd_cmd p f s) = P s"
    and command_fresh: "\<And>p c s. tg_scatter c = [] \<Longrightarrow> P s \<Longrightarrow> P (upd_cmd p (\<lambda>_. c) s)"
begin

lemmas commands_kept [simp] = commands command_fields

lemma upd_kept [simp]: "P (upd_scsi p g s) = P s"
  by (simp add: upd_scsi_def)

lemma iov_sent_kept: "send_header_and_iov env h len vs s = (ok, s') \<Longrightarrow> P s' = P s"
  by (auto simp: send_header_and_iov_def dest!: sent_kept split: prod.splits if_splits)

lemma read_data_step_keeps: "P s \<Longrightarrow> step_in P (read_data_step env p sg n off sn s)"
  unfolding read_data_step_def
  by (intro walk) (simp_all add: iov_sent_kept)

lemma read_data_loop_keeps:
  assumes "read_data_loop env p sg n inc off sn s = Some r"
  shows "P s \<longrightarrow> step_in P (map_sum id snd r)"
proof (rule read_data_loop.raw_induct [OF _ assms])
  fix f and env :: "'a device_env_scheme" and p sg n inc off sn s r
  assume IH: "\<And>env p sg n inc off sn s r. f env p sg n inc off sn s = Some r \<Longrightarrow>
      P s \<longrightarrow> step_in P (map_sum id snd r)"
    and body: "(if off < n
      then case read_data_step env p sg n off sn s of
             Inl r \<Rightarrow> Some (Inl r)
           | Inr s \<Rightarrow> f env p sg n inc (off + inc) (sn + 1) s
      else Some (Inr (sn, s))) = Some r"
  show "P s \<longrightarrow> step_in P (map_sum id snd r)"
    using body IH read_data_step_keeps [of s env p sg n off sn]
    by (auto split: if_splits sum.splits)
qed

lemma send_read_data_keeps:
  assumes "P s" "\<And>sn s'. P s' \<Longrightarrow> ends_in P (k sn s')"
  shows "ends_in P (send_read_data env p s k)"
  unfolding send_read_data_def
  by (intro walk ends_in_loop [of P]) (auto intro: assms dest!: read_data_loop_keeps)

lemma scsi_response_keeps:
  assumes "P s" "\<And>s'. P s' \<Longrightarrow> ends_in P (k s')"
  shows "ends_in P (scsi_response env p sn s k)"
  unfolding scsi_response_def spin_lock_def
  by (intro walk) (simp_all add: iov_sent_kept assms)

lemma command_release_keeps: "P s \<Longrightarrow> ends_in P (command_release env p s)"
  unfolding command_release_def by (intro walk) simp_all

lemma device_command_done_keeps: "P s \<Longrightarrow> ends_in P (device_command_done env p s)"
  unfolding device_command_done_def Let_def
  by (intro walk send_read_data_keeps scsi_response_keeps command_release_keeps) simp_all

lemma scsi_error_keeps: "P s \<Longrightarrow> ends_in P (scsi_error env p s)"
  unfolding scsi_error_def by (intro device_command_done_keeps) simp

lemma read_ahs_keeps:
  assumes "P s" "\<And>s'. P s' \<Longrightarrow> ends_in P (k s')"
  shows "ends_in P (read_ahs env p s k)"
  unfolding read_ahs_def
  by (intro walk) (auto simp: received_kept assms scsi_error_keeps Let_def split: sum.splits)

lemma rehash_then_keeps:
  assumes "P s" "\<And>s'. P s' \<Longrightarrow> ends_in P (k s')"
  shows "ends_in P (rehash_then p s k)"
  unfolding rehash_then_def by (intro walk) (simp_all add: assms)

lemma read_immediate_keeps:
  assumes "P s" "\<And>s'. P s' \<Longrightarrow> ends_in P (k s')"
  shows "ends_in P (read_immediate h p s k)"
  unfolding read_immediate_def by (intro walk) (simp_all add: received_kept assms)

lemma device:
  "device_keeps P env \<Longrightarrow> P s \<Longrightarrow> ends_in P (e_enqueue env p s)"
  "device_keeps P env \<Longrightarrow> P s \<Longrightarrow> ends_in P (e_place_data env p off len s)"
  by (simp_all add: device_keeps_def)

lemma scsi_command_keeps: "device_keeps P env \<Longrightarrow> P s \<Longrightarrow> ends_in P (scsi_command_t env hp s)"
  unfolding scsi_command_t_def
  by (intro walk scsi_error_keeps read_ahs_keeps read_immediate_keeps rehash_then_keeps device)
    (simp_all add: command_fresh blank_target_cmd_def)

lemma send_r2t_keeps: "P s \<Longrightarrow> step_in P (send_r2t env p len off s)"
  unfolding send_r2t_def by (intro walk) (simp_all add: sent_kept)

lemma r2t_loop_keeps:
  assumes "r2t_loop env p remaining transferred s = Some r"
  shows "P s \<longrightarrow> step_in P r"
proof (rule r2t_loop.raw_induct [OF _ assms])
  fix f and env :: "'a device_env_scheme" and p remaining transferred s r
  assume IH: "\<And>env p remaining transferred s r. f env p remaining transferred s = Some r \<Longrightarrow> P s \<longrightarrow> step_in P r"
    and body: "(if remaining \<noteq> 0
      then let burst = max_burst_length (t_sess_params s);
               desired = if remaining > burst then burst else remaining
           in case send_r2t env p desired (sc_bytes_todev (scsi_of s p) + transferred) s of
              Inl r \<Rightarrow> Some (Inl r)
              | Inr s \<Rightarrow> f env p (remaining - desired) (transferred + desired) s
      else Some (Inr s)) = Some r"
  have sent: "step_in P x" if "send_r2t env p len off s = x" "P s" for len off x
    using send_r2t_keeps [of s env p len off] that by simp
  show "P s \<longrightarrow> step_in P r"
    using body by (auto simp: Let_def send_r2t_keeps split: if_splits sum.splits dest!: IH sent)
qed

text \<open>A transfer that has something to ask for does not call the device.\<close>

lemma target_transfer_data_keeps:
  assumes "P s" "sc_trans_len (scsi_of s p) - sc_bytes_todev (scsi_of s p) \<noteq> 0"
  shows "ends_in P (target_transfer_data env p s)"
proof -
  have "ends_in P (case r2t_loop env p r t s of None \<Rightarrow> Diverges | Some (Inl r) \<Rightarrow> r
      | Some (Inr s) \<Rightarrow> Return 0 (upd_cmd p (\<lambda>c. c\<lparr>tg_ready := True\<rparr>) s))" for r t
    using r2t_loop_keeps [of env p r t s] assms(1)
    by (auto split: option.splits sum.splits)
  then show ?thesis using assms by (simp add: target_transfer_data_def Let_def)
qed

lemma place_write_data_keeps: "device_keeps P env \<Longrightarrow> P s \<Longrightarrow> ends_in P (place_write_data env p data s)"
  unfolding place_write_data_def
  by (intro walk ends_in_sum send_r2t_keeps device) simp_all

lemma write_data_keeps: "device_keeps P env \<Longrightarrow> P s \<Longrightarrow> ends_in P (write_data_t env h s)"
  unfolding write_data_t_def Let_def
  by (intro walk place_write_data_keeps reject_keeps) simp_all

lemma execute_keeps: "device_keeps P env \<Longrightarrow> P s \<Longrightarrow> ends_in P (execute_t env hp s)"
  unfolding execute_t_def
  by (intro walk verify_keeps)
    (simp_all add: task_command_keeps nop_out_keeps login_command_keeps text_command_keeps logout_keeps
      scsi_command_keeps write_data_keeps reject_keeps)

end

subsection \<open>Commands, and the parameters of a session\<close>

text \<open>The part of a session that SCSI commands live in.\<close>

definition commands_of :: "target_session \<Rightarrow>
    hash_state \<times> (ptr \<Rightarrow> target_cmd) \<times> iscsi_queue \<times> iscsi_queue \<times> (u64 \<Rightarrow> ost_counters)" where
  "commands_of s = (t_cmds s, t_cmd_mem s, t_cmd_q s, t_header_q s, t_counters s)"

interpretation commands: handler_invariant "\<lambda>s. commands_of s = c" for c
  by unfold_locales (simp_all add: commands_of_def set_params_def)

text \<open>What a session's parameters are fixed to: key, type, valid values and default.\<close>

definition worker_fixed :: "(string \<times> param_type \<times> string \<times> string) list" where
  "worker_fixed = map (\<lambda>(type, key, dflt, valid). (key, type, valid, dflt)) worker_param_table"

definition texts_ok :: "target_session \<Rightarrow> bool" where
  "texts_ok s \<longleftrightarrow> parse_inv worker_fixed (t_text s)"

lemma MaxConnections_fixed:
  "(''MaxConnections'', t, valid, dflt) \<in> set worker_fixed \<Longrightarrow> t = NUMERICAL"
  by (simp add: worker_fixed_def worker_param_table_def)

lemma texts_ok_set_val:
  assumes "texts_ok s" "param_set_val (params s) ''MaxConnections'' ''1'' = Some ps"
  shows "texts_ok (set_params ps s)"
proof -
  let ?f = "\<lambda>p. p\<lparr>p_value_l := ''1'' # tl (p_value_l p)\<rparr>"
  obtain p where p: "param_get (params s) ''MaxConnections'' = Some p"
    and ps: "ps = param_upd ''MaxConnections'' ?f (params s)"
    using assms(2) by (auto simp: param_set_val_def param_val_def param_val_which_def split: option.splits)
  have inv: "parse_inv worker_fixed (t_text s)" using assms(1) by (simp add: texts_ok_def)
  have mem: "p \<in> set (s_params (t_text s))" using param_get_mem [OF p] by (simp add: params_def)
  then have "p_fixed p \<in> set worker_fixed"
    using inv by (metis parse_inv_def image_eqI list.set_map)
  then have t: "p_type p = NUMERICAL"
    using param_get_key [OF p] MaxConnections_fixed by (simp add: p_fixed_def)
  have "\<forall>v\<in>set (p_value_l p). value_ok (p_fixed p) v"
    using inv mem by (auto simp: parse_inv_def params_ok_def core_ok_def p_core_def)
  moreover have "int_dec (sint (iscsi_atoi (Some ''1''))) = ''1''" by code_simp
  ultimately have "\<forall>v\<in>set (p_value_l (?f p)). value_ok (p_fixed p) v"
    using t by (cases "p_value_l p") (auto simp: p_fixed_def)
  then have "parse_inv worker_fixed (upd_param ''MaxConnections'' ?f (t_text s))"
    using inv p by (intro inv_upd_values) (simp_all add: params_def p_fixed_def)
  then show ?thesis by (simp add: texts_ok_def set_params_def ps upd_param_def params_def)
qed

interpretation texts: session_invariant texts_ok
proof unfold_locales
  fix s x
  show "texts_ok s \<Longrightarrow> length x \<le> ISCSI_PARAM_MAX_TEXT_LEN \<Longrightarrow> texts_ok (s\<lparr>t_text := (t_text s)\<lparr>s_out := x\<rparr>\<rparr>)"
    by (simp add: texts_ok_def parse_inv_def)
next
  fix s ce key0 outgoing tx rc st
  show "texts_ok s \<Longrightarrow> param_text_parse ce key0 outgoing tx (t_text s) = Some (rc, st) \<Longrightarrow>
      texts_ok (s\<lparr>t_text := st\<rparr>)"
    by (simp add: texts_ok_def param_text_parse_inv)
next
  fix s key f
  show "texts_ok s \<Longrightarrow> texts_ok (set_params (param_upd key (p_rx_offer_update f) (params s)) s)"
    using inv_upd_core [of "p_rx_offer_update f" worker_fixed "t_text s" key]
    by (simp add: texts_ok_def set_params_def params_def upd_param_def)
qed (erule (1) texts_ok_set_val | simp add: texts_ok_def upd_cmd_def)+

lemma worker_params_map:
  "worker_params blk = map (\<lambda>(type, key, dflt, valid). blk\<lparr>p_type := type, p_key := key, p_dflt := dflt,
     p_valid := valid, p_tx_offer := False, p_rx_offer := False, p_tx_answer := False,
     p_rx_answer := False, p_reset := False, p_value_l := [dflt]\<rparr>) worker_param_table"
proof -
  have add: "snd (param_list_add (Some blk) True ps type key dflt valid) = ps @ [blk\<lparr>p_type := type,
     p_key := key, p_dflt := dflt, p_valid := valid, p_tx_offer := False, p_rx_offer := False,
     p_tx_answer := False, p_rx_answer := False, p_reset := False, p_value_l := [dflt]\<rparr>]"
    for ps type key dflt valid
    by (simp add: param_list_add_def Let_def split: param_type.split)
  have "foldl (\<lambda>ps (type, key, dflt, valid). snd (param_list_add (Some blk) True ps type key dflt valid)) ps t =
    ps @ map (\<lambda>(type, key, dflt, valid). blk\<lparr>p_type := type, p_key := key, p_dflt := dflt,
     p_valid := valid, p_tx_offer := False, p_rx_offer := False, p_tx_answer := False,
     p_rx_answer := False, p_reset := False, p_value_l := [dflt]\<rparr>) t" for ps t
    by (induction t arbitrary: ps) (auto simp: add)
  then show ?thesis by (simp add: worker_params_def)
qed

lemma digits:
  "digit 0 = CHR ''0''" "digit (Suc 0) = CHR ''1''" "digit 1 = CHR ''1''" "digit 2 = CHR ''2''"
  "digit 3 = CHR ''3''" "digit 4 = CHR ''4''" "digit 5 = CHR ''5''" "digit 6 = CHR ''6''"
  "digit 7 = CHR ''7''" "digit 8 = CHR ''8''" "digit 9 = CHR ''9''"
  by code_simp+

lemma decimals:
  "int_dec 262144 = ''262144''" "int_dec 65536 = ''65536''" "int_dec 8192 = ''8192''"
  "int_dec 20 = ''20''" "int_dec 2 = ''2''" "int_dec 1 = ''1''" "int_dec 0 = ''0''"
  by (simp_all add: int_dec_def nat_dec.simps digits)

lemma decimal_stable:
  "0 \<le> n \<Longrightarrow> n < 2 ^ 31 \<Longrightarrow> int_dec n = v \<Longrightarrow> int_dec (sint (iscsi_atoi (Some v))) = v"
  using c_atoi_int_dec [of n] by (auto simp: iscsi_atoi_def signed_of_int signed_take_bit_int_eq_self)

lemmas default_numbers = decimals [THEN decimal_stable [rotated 2], simplified]

lemma worker_values_ok:
  "\<forall>(type, key, dflt, valid) \<in> set worker_param_table. core_ok ((key, type, valid, dflt), [dflt])"
  by (simp add: worker_param_table_def core_ok_def default_numbers)

lemma session_start_texts: "texts_ok (session_start blk s)"
proof -
  have "map p_fixed (worker_params blk) = worker_fixed"
    by (auto simp: worker_params_map worker_fixed_def p_fixed_def)
  moreover have "params_ok (worker_params blk)"
    using worker_values_ok by (fastforce simp: worker_params_map params_ok_def p_core_def p_fixed_def)
  ultimately show ?thesis by (simp add: texts_ok_def session_start_def parse_inv_def)
qed

end
