(* ===== verification/Target_Properties.thy ===== *)
theory Target_Properties
  imports Target_Invariants
begin

section \<open>Properties of a session\<close>

text \<open>
  Which PDUs are let through before the login is complete, what a login needs and does not need,
  what the parameters of a session stay like, how requests are answered, and how a peer or a
  failed send can stop the target.
\<close>

subsection \<open>The phases of a session\<close>

text \<open>The handlers of the login phase do not look at the device.\<close>

definition other_device ::
  "(ptr \<Rightarrow> target_session \<Rightarrow> outcome) \<Rightarrow> (ptr \<Rightarrow> u32 \<Rightarrow> u32 \<Rightarrow> target_session \<Rightarrow> outcome) \<Rightarrow>
   'e device_env_scheme \<Rightarrow> 'e device_env_scheme" where
  "other_device f g env = env\<lparr>e_enqueue := f, e_place_data := g\<rparr>"

lemma other_device_simps [simp]:
  "e_send_ok (other_device f g env) = e_send_ok env" "e_chap (other_device f g env) = e_chap env"
  "e_key0 (other_device f g env) = e_key0 env" "e_hostname (other_device f g env) = e_hostname env"
  by (simp_all add: other_device_def)

lemma sock_send_device [simp]: "sock_send (other_device f g env) = sock_send env"
  by (simp add: fun_eq_iff sock_send_def Let_def
      cong del: prod.case_cong_weak option.case_cong_weak if_weak_cong)

lemma send_header_and_data_device [simp]: "send_header_and_data (other_device f g env) = send_header_and_data env"
  by (simp add: fun_eq_iff send_header_and_data_def Let_def
      cong del: prod.case_cong_weak option.case_cong_weak if_weak_cong)

lemma locked_send_device [simp]: "locked_send (other_device f g env) = locked_send env"
  by (simp add: fun_eq_iff locked_send_def Let_def
      cong del: prod.case_cong_weak option.case_cong_weak if_weak_cong)

lemma chap_config_device [simp]: "chap_config (other_device f g env) = chap_config env"
  by (simp add: fun_eq_iff chap_config_def Let_def
      cong del: prod.case_cong_weak option.case_cong_weak if_weak_cong)

lemma parse_then_device [simp]: "parse_then (other_device f g env) = parse_then env"
  by (simp add: fun_eq_iff parse_then_def Let_def
      cong del: prod.case_cong_weak option.case_cong_weak if_weak_cong)

lemma login_respond_device [simp]: "login_respond (other_device f g env) = login_respond env"
  by (simp add: fun_eq_iff login_respond_def Let_def
      cong del: prod.case_cong_weak option.case_cong_weak if_weak_cong)

lemma login_post_ok_device [simp]: "login_post_ok (other_device f g env) = login_post_ok env"
  by (simp add: fun_eq_iff login_post_ok_def Let_def
      cong del: prod.case_cong_weak option.case_cong_weak if_weak_cong)

lemma login_stage_device [simp]: "login_stage (other_device f g env) = login_stage env"
  by (simp add: fun_eq_iff login_stage_def Let_def
      cong del: prod.case_cong_weak option.case_cong_weak if_weak_cong)

lemma login_command_device [simp]: "login_command_t (other_device f g env) = login_command_t env"
  by (simp add: fun_eq_iff login_command_t_def Let_def
      cong del: prod.case_cong_weak option.case_cong_weak if_weak_cong)

lemma logout_command_device [simp]: "logout_command_t (other_device f g env) = logout_command_t env"
  by (simp add: fun_eq_iff logout_command_t_def Let_def
      cong del: prod.case_cong_weak option.case_cong_weak if_weak_cong)

text \<open>
  C2. Until its login is complete a session lets no request through to the device: no command, no
  queue of commands or headers and no counter changes, the device could be replaced by any other,
  and every PDU but a login or logout is refused.
\<close>

theorem no_device_before_full_feature:
  assumes "\<not> t_IsFullFeature s"
  shows "ends_in (\<lambda>s'. commands_of s' = commands_of s) (execute_t env hp s) \<and>
    execute_t (other_device f g env) hp s = execute_t env hp s \<and>
    (iscsi_opcode (t_header_mem s hp) \<notin> {ISCSI_LOGIN_CMD, ISCSI_LOGOUT_CMD} \<longrightarrow>
      (\<exists>s'. execute_t env hp s = Return (-1) s' \<or> execute_t env hp s = Blocks s'))"
proof (intro conjI impI)
  show "ends_in (\<lambda>s'. commands_of s' = commands_of s) (execute_t env hp s)"
    by (rule commands.early_execute_keeps) (simp_all add: assms)
  show "execute_t (other_device f g env) hp s = execute_t env hp s"
    by (simp add: execute_early [OF assms] Let_def)
  assume "iscsi_opcode (t_header_mem s hp) \<notin> {ISCSI_LOGIN_CMD, ISCSI_LOGOUT_CMD}"
  then show "\<exists>s'. execute_t env hp s = Return (-1) s' \<or> execute_t env hp s = Blocks s'"
    by (auto simp: execute_early [OF assms] Let_def locked_send_def spin_lock_def split: prod.splits)
qed

definition scsi_header :: header where
  "scsi_header = iscsi_scsi_cmd_encap (blank_scsi_cmd\<lparr>sc_tag := 9, sc_cdb := replicate 16 0\<rparr>)"

theorem no_device_before_full_feature_witness:
  "\<exists>s'. execute_t sample_device 200 (sample_session\<lparr>t_header_mem := (\<lambda>p. scsi_header)\<rparr>) = Return (-1) s' \<or>
        execute_t sample_device 200 (sample_session\<lparr>t_header_mem := (\<lambda>p. scsi_header)\<rparr>) = Blocks s'"
proof -
  have "\<not> t_IsFullFeature (sample_session\<lparr>t_header_mem := (\<lambda>p. scsi_header)\<rparr>)"
    by (simp add: sample_session_def session_start_def)
  moreover have "iscsi_opcode scsi_header \<notin> {ISCSI_LOGIN_CMD, ISCSI_LOGOUT_CMD}"
    unfolding scsi_header_def scsi_cmd.opcode_encap by (simp add: opcodes)
  ultimately show ?thesis
    using no_device_before_full_feature [of "sample_session\<lparr>t_header_mem := (\<lambda>p. scsi_header)\<rparr>" sample_device 200
        "\<lambda>p s. Undef" "\<lambda>p off len s. Undef"] by simp
qed


text \<open>
  What can happen to a session after its start: bytes arrive, a PDU in a header is executed, the
  device is done with a command.
\<close>

inductive session_reaches :: "'e device_env_scheme \<Rightarrow> iscsi_param \<Rightarrow> target_session \<Rightarrow> bool"
  for env blk where
  start: "session_reaches env blk (session_start blk s)"
| arrival: "session_reaches env blk s \<Longrightarrow> session_reaches env blk (s\<lparr>t_in := t_in s @ bytes\<rparr>)"
| header: "session_reaches env blk s \<Longrightarrow>
    session_reaches env blk (s\<lparr>t_header_q := q, t_header_mem := (t_header_mem s)(hp := h)\<rparr>)"
| executed: "session_reaches env blk s \<Longrightarrow> execute_t env hp s = Return rc s' \<Longrightarrow>
    session_reaches env blk s'"
| finished: "session_reaches env blk s \<Longrightarrow> device_command_done env p s = Return rc s' \<Longrightarrow>
    session_reaches env blk s'"


lemma sample_device_keeps: "device_keeps P sample_device"
  by (simp add: device_keeps_def sample_device_def)


subsection \<open>Login\<close>

lemma param_equiv_upd:
  assumes "key' \<noteq> key" "\<And>p. p_key (f p) = p_key p"
  shows "param_equiv (param_upd key f ps) key' v = param_equiv ps key' v"
proof -
  have "param_get (param_upd key f ps) key' = param_get ps key'" using assms by (simp add: param_get_upd)
  then show ?thesis unfolding param_equiv_def param_val_def param_val_which_def by (simp only:)
qed

lemma param_set_val_equiv:
  assumes "param_set_val ps key v = Some ps'" "key' \<noteq> key"
  shows "param_equiv ps' key' w = param_equiv ps key' w"
proof -
  obtain f where "ps' = param_upd key f ps" "\<And>p. p_key (f p) = p_key p"
    using assms(1) unfolding param_set_val_def by (auto split: option.splits)
  then show ?thesis using assms(2) by (simp add: param_equiv_upd)
qed

text \<open>What holds of a session whose login has just been completed by the request \<open>h\<close>.\<close>

definition logged_in_by :: "'e target_env_scheme \<Rightarrow> header \<Rightarrow> target_session \<Rightarrow> bool" where
  "logged_in_by env h s \<longleftrightarrow>
    (let cmd = snd (iscsi_login_cmd_decap h blank_login_cmd)
     in fst (iscsi_login_cmd_decap h blank_login_cmd) = 0 \<and> to_full_feature cmd \<and>
        lc_cont cmd = 0 \<and> lc_version_min cmd = ISCSI_VERSION \<and> lc_tsih cmd = 0 \<and>
        param_equiv (params s) ''InitiatorName'' [] \<noteq> 0 \<and> param_equiv (params s) ''SessionType'' [] \<noteq> 0 \<and>
        (param_equiv (params s) ''SessionType'' ''Normal'' = 0 \<longrightarrow>
           param_equiv (params s) ''TargetName'' (e_hostname env) = 0) \<and>
        t_LoginStarted s \<and> t_isid s = lc_isid cmd \<and> t_cid s = lc_cid cmd \<and> t_tsih s = of_nat (t_id s + 1))"

interpretation logins: connection_invariant "\<lambda>s. t_IsFullFeature s \<longrightarrow> logged_in_by env h s" for env h
  by unfold_locales (simp_all add: logged_in_by_def params_def)

lemma login_post_ok_iff:
  "login_post_ok env s \<longleftrightarrow>
     param_equiv (params s) ''InitiatorName'' [] \<noteq> 0 \<and> param_equiv (params s) ''SessionType'' [] \<noteq> 0 \<and>
     (param_equiv (params s) ''SessionType'' ''Normal'' = 0 \<longrightarrow>
        param_equiv (params s) ''TargetName'' [] \<noteq> 0 \<and>
        param_equiv (params s) ''TargetName'' (e_hostname env) = 0)"
  by (auto simp: login_post_ok_def Let_def)

lemma login_enter_completes:
  assumes ok: "login_post_ok env s" "t_LoginStarted s"
    and cmd: "iscsi_login_cmd_decap h blank_login_cmd = (0, cmd)" "to_full_feature cmd" "login_refusal cmd rsp = None"
    and k: "\<And>s'. t_IsFullFeature s' \<longrightarrow> logged_in_by env h s' \<Longrightarrow>
      ends_in (\<lambda>s'. t_IsFullFeature s' \<longrightarrow> logged_in_by env h s') (k s')"
  shows "ends_in (\<lambda>s'. t_IsFullFeature s' \<longrightarrow> logged_in_by env h s') (login_enter cmd s k)"
proof -
  have cmd': "lc_cont cmd = 0" "lc_version_min cmd = ISCSI_VERSION" "lc_tsih cmd = 0"
    using cmd(2,3) by (auto simp: login_refusal_def to_full_feature_def ISCSI_VERSION_def word_gt_0 split: if_splits)
  define s1 where "s1 = s\<lparr>t_ExpCmdSN := lc_CmdSN cmd, t_MaxCmdSN := lc_CmdSN cmd, t_cid := lc_cid cmd,
               t_isid := lc_isid cmd, t_tsih := of_nat (t_id s + 1), t_IsFullFeature := True,
               t_IsLoggedIn := True\<rparr>"
  have s1: "logged_in_by env h (s1\<lparr>t_sess_params := sp\<rparr>)" for sp
    using ok cmd cmd' by (simp add: logged_in_by_def s1_def login_post_ok_iff params_def)
  have "logged_in_by env h ((set_params ps s1)\<lparr>t_sess_params := sp\<rparr>)"
    if "param_set_val (params s1) ''MaxConnections'' ''1'' = Some ps" for ps sp
  proof -
    have "param_equiv ps key w = param_equiv (params s1) key w" if "key \<noteq> ''MaxConnections''" for key w
      using param_set_val_equiv [OF \<open>param_set_val _ _ _ = _\<close>] that by simp
    then show ?thesis
      using s1 by (simp add: logged_in_by_def set_params_def params_def)
  qed
  then show ?thesis
    using s1 unfolding login_enter_def Let_def s1_def [symmetric] by (auto split: option.splits intro!: k)
qed

lemma sent_full: "sock_send env m s = (ok, s') \<Longrightarrow> t_IsFullFeature s' = t_IsFullFeature s"
  by (auto simp: sock_send_def Let_def)

lemma data_sent_full:
  "send_header_and_data env h d s = (ok, s') \<Longrightarrow> t_IsFullFeature s' = t_IsFullFeature s"
  by (auto simp: send_header_and_data_def dest!: sent_full split: prod.splits if_splits)

lemma received_full: "sock_recv n s = (r, s') \<Longrightarrow> t_IsFullFeature s' = t_IsFullFeature s"
  by (auto simp: sock_recv_def Let_def split: if_splits)

text \<open>Text that is parsed or added changes only \<open>t_text\<close>.\<close>

lemma parse_then_walk:
  "(\<And>rc st. ends_in P (k rc (s\<lparr>t_text := st\<rparr>))) \<Longrightarrow> ends_in P (parse_then env user outgoing tx s k)"
  by (auto simp: parse_then_def split: option.splits)

lemma text_add_then_walk:
  "P s \<Longrightarrow> (\<And>out. ends_in P (k (s\<lparr>t_text := (t_text s)\<lparr>s_out := out\<rparr>\<rparr>))) \<Longrightarrow>
   ends_in P (text_add_then key val s k)"
  by (auto simp: text_add_then_def split: prod.splits)

lemma login_stage_completes:
  assumes "\<not> t_IsFullFeature s" "iscsi_login_cmd_decap h blank_login_cmd = (0, cmd)" "login_refusal cmd rsp' = None"
  shows "ends_in (\<lambda>s'. t_IsFullFeature s' \<longrightarrow> logged_in_by env h s') (login_stage env cmd rsp s)"
  unfolding login_stage_def
  by (intro walk logins.login_respond_keeps login_enter_completes) (use assms in \<open>simp_all\<close>)


text \<open>A login request without text, when nothing fails.\<close>

lemma login_respond_ok:
  assumes "\<not> t_slock s" "e_send_ok env (t_sends s)" "to_full_feature cmd" "lr_status_class rsp = 0"
    and "s_out (t_text s) = []"
    and "param_val (params s) ''AuthMethod'' \<noteq> None" "param_val (params s) ''InitiatorName'' \<noteq> None"
  shows "\<exists>s'. login_respond env cmd rsp s = Return 0 s' \<and> t_IsFullFeature s' = t_IsFullFeature s \<and>
    t_Authenticated s' = t_Authenticated s \<and> length (t_out s') = Suc (length (t_out s))"
  using assms
  by (auto simp: login_respond_def Let_def locked_send_def spin_lock_def send_header_and_data_def
      sock_send_def chars_bytes_def spin_unlock_def params_def)

lemma login_stage_ok:
  assumes "\<not> t_slock s" "e_send_ok env (t_sends s)" "to_full_feature cmd" "login_post_ok env s"
    and "s_out (t_text s) = []"
    and "param_val (params s) ''AuthMethod'' \<noteq> None" "param_val (params s) ''InitiatorName'' \<noteq> None"
    and "param_equiv (params s) ''SessionType'' ''Discovery'' \<noteq> 0"
    and "lc_csg cmd = ISCSI_LOGIN_STAGE_SECURITY \<longrightarrow> param_equiv (params s) ''AuthResult'' ''No'' = 0"
  shows "\<exists>s'. login_stage env cmd rsp s = Return 0 s' \<and> t_IsFullFeature s' \<and>
    t_Authenticated s' = t_Authenticated s"
proof -
  let ?s = "s\<lparr>t_LoginStarted := True\<rparr>"
  let ?sec = "lc_csg cmd = ISCSI_LOGIN_STAGE_SECURITY"
  have post: "login_post_ok env ?s" using assms(4) by (simp add: login_post_ok_iff params_def)
  have auth: "?sec \<Longrightarrow> param_equiv (params ?s) ''AuthResult'' ''No'' = 0"
    "?sec \<Longrightarrow> param_equiv (params ?s) ''AuthResult'' ''Yes'' \<noteq> 0"
    using assms(9) by (auto simp: params_def param_equiv_def split: option.splits if_splits)
  have enter: "\<exists>s2. login_enter cmd ?s k = k s2 \<and> \<not> t_slock s2 \<and> t_sends s2 = t_sends s \<and> t_text s2 = t_text s \<and>
      t_IsFullFeature s2 \<and> t_Authenticated s2 = t_Authenticated s" for k
    using assms(1,8) by (simp add: login_enter_def Let_def params_def) (intro exI conjI, rule refl, simp_all)
  obtain rsp' where rsp': "login_stage env cmd rsp s = login_enter cmd ?s
      (\<lambda>s. login_respond env cmd (rsp'\<lparr>lr_length := of_nat (length (s_out (t_text s)))\<rparr>) s)"
      "\<And>n. lr_status_class (rsp'\<lparr>lr_length := n\<rparr>) = 0"
  proof (cases ?sec)
    case True
    then show ?thesis
      using assms(3) post auth that [of "rsp\<lparr>lr_csg := lc_csg cmd, lr_nsg := lc_nsg cmd, lr_transit := 0,
          lr_status_class := 0, lr_status_detail := 0\<rparr>"]
      by (simp add: login_stage_def Let_def)
  next
    case False
    then show ?thesis
      using assms(3) post that [of "rsp\<lparr>lr_csg := lc_csg cmd, lr_nsg := lc_nsg cmd, lr_transit := lc_transit cmd,
          lr_status_class := 0, lr_status_detail := 0\<rparr>"]
      by (simp add: login_stage_def Let_def)
  qed
  obtain s2 where s2: "login_stage env cmd rsp s =
      login_respond env cmd (rsp'\<lparr>lr_length := of_nat (length (s_out (t_text s2)))\<rparr>) s2"
    "\<not> t_slock s2" "t_sends s2 = t_sends s" "t_text s2 = t_text s" "t_IsFullFeature s2"
    "t_Authenticated s2 = t_Authenticated s"
    using enter [of "\<lambda>s. login_respond env cmd (rsp'\<lparr>lr_length := of_nat (length (s_out (t_text s)))\<rparr>) s"]
      rsp'(1) by auto
  have "params s2 = params s" using s2(4) by (simp add: params_def)
  then show ?thesis
    using login_respond_ok [of s2 env cmd "rsp'\<lparr>lr_length := of_nat (length (s_out (t_text s2)))\<rparr>"]
      rsp'(2) assms s2
    by auto
qed

lemma login_completes:
  assumes "\<not> t_slock s" "e_send_ok env (t_sends s)"
    and "iscsi_login_cmd_decap h blank_login_cmd = (0, cmd)" "\<And>rsp. login_refusal cmd rsp = None"
    and "lc_length cmd = 0" "to_full_feature cmd" "login_post_ok env s"
    and "param_val (params s) ''AuthMethod'' \<noteq> None" "param_val (params s) ''InitiatorName'' \<noteq> None"
    and "param_equiv (params s) ''SessionType'' ''Discovery'' \<noteq> 0"
    and "lc_csg cmd = ISCSI_LOGIN_STAGE_SECURITY \<longrightarrow> param_equiv (params s) ''AuthResult'' ''No'' = 0"
  shows "\<exists>s'. login_command_t env h s = Return 0 s' \<and> t_IsFullFeature s' \<and>
    t_Authenticated s' = t_Authenticated s"
proof -
  let ?s = "s\<lparr>t_text := (t_text s)\<lparr>s_out := []\<rparr>\<rparr>"
  have "\<exists>s'. login_stage env cmd rsp ?s = Return 0 s' \<and> t_IsFullFeature s' \<and>
      t_Authenticated s' = t_Authenticated ?s" for rsp
    by (rule login_stage_ok) (use assms in \<open>simp_all add: login_post_ok_iff params_def\<close>)
  then show ?thesis using assms(3-5) by (simp add: login_command_t_def Let_def)
qed

text \<open>A login request for the full-feature phase, and a session whose parameters are ready for it.\<close>

definition login_header :: header where
  "login_header = iscsi_login_cmd_encap (blank_login_cmd\<lparr>lc_transit := 1, lc_csg := 1, lc_nsg := 3\<rparr>)"

definition ready_params :: "iscsi_param list" where
  "ready_params = [param_of LIST ''AuthMethod'' ''CHAP'' ''CHAP,None'',
     param_of DECLARATIVE ''InitiatorName'' ''peer'' [], param_of DECLARATIVE ''TargetName'' ''disk'' [],
     param_of DECLARATIVE ''SessionType'' ''Normal'' ''Normal,Discovery'']"

definition ready_session :: target_session where
  "ready_session = sample_session\<lparr>t_text := state_of ready_params, t_header_mem := (\<lambda>p. login_header)\<rparr>"

lemma login_header_decap:
  "iscsi_login_cmd_decap login_header blank_login_cmd =
    (0, login_cmd_wire (blank_login_cmd\<lparr>lc_transit := 1, lc_csg := 1, lc_nsg := 3\<rparr>) blank_login_cmd)"
  unfolding login_header_def
  by (rule login_cmd.decap_encap) (simp add: login_cmd_ok_def blank_login_cmd_def)

lemma login_header_fields:
  "login_refusal (login_cmd_wire (blank_login_cmd\<lparr>lc_transit := 1, lc_csg := 1, lc_nsg := 3\<rparr>) blank_login_cmd) rsp = None"
  "to_full_feature (login_cmd_wire (blank_login_cmd\<lparr>lc_transit := 1, lc_csg := 1, lc_nsg := 3\<rparr>) blank_login_cmd)"
  "lc_length (login_cmd_wire (blank_login_cmd\<lparr>lc_transit := 1, lc_csg := 1, lc_nsg := 3\<rparr>) blank_login_cmd) = 0"
  "lc_csg (login_cmd_wire (blank_login_cmd\<lparr>lc_transit := 1, lc_csg := 1, lc_nsg := 3\<rparr>) blank_login_cmd) \<noteq>
     ISCSI_LOGIN_STAGE_SECURITY"
  by (simp_all add: login_refusal_def login_cmd_wire_def blank_login_cmd_def ISCSI_VERSION_def
      to_full_feature_def ISCSI_LOGIN_STAGE_FULL_FEATURE_def ISCSI_LOGIN_STAGE_SECURITY_def)

lemma ready_session_facts:
  "\<not> t_slock ready_session" "\<not> t_IsFullFeature ready_session" "\<not> t_Authenticated ready_session"
  "login_post_ok sample_device ready_session" "param_val (params ready_session) ''AuthMethod'' = Some ''CHAP''"
  "param_val (params ready_session) ''InitiatorName'' \<noteq> None"
  "param_equiv (params ready_session) ''SessionType'' ''Discovery'' \<noteq> 0"
  "t_header_mem ready_session p = login_header"
  by (simp_all add: ready_session_def sample_session_def session_start_def login_post_ok_iff params_def
      state_of_def ready_params_def param_equiv_def param_val_def param_val_which_def param_of_def
      blank_param_def sample_device_def)

lemma ready_login:
  "\<exists>s'. login_command_t sample_device login_header ready_session = Return 0 s' \<and> t_IsFullFeature s' \<and>
     t_Authenticated s' = t_Authenticated ready_session"
  by (rule login_completes [OF _ _ login_header_decap])
    (simp_all add: ready_session_facts login_header_fields, simp add: sample_device_def)




end
