(* ===== verification/Target_Requests.thy ===== *)
theory Target_Requests
  imports Target_Invariants
begin

section \<open>Single requests of a session\<close>

text \<open>
  How a session answers a NOP-Out, a task management request, write data and malformed requests,
  and what a send that fails does to it.
\<close>

subsection \<open>Answers\<close>

lemma and_24_bits:
  assumes "unat x < 2 ^ 24"
  shows "x AND 0xffffff = (x :: u32)"
proof -
  have "x AND mask 24 = x"
    using assms by (simp add: word_unat_eq_iff unsigned_take_bit_eq take_bit_nat_eq_self flip: take_bit_eq_mask)
  then show ?thesis by (simp add: mask_eq_exp_minus_1)
qed

text \<open>
  A NOP-Out that asks for an answer gets exactly one NOP-In, with its tag, logical unit and
  data, and the command window moves on by one.
\<close>

theorem nop_out_echoed:
  assumes "\<not> t_slock s" "sends_ok env 2 s" "no_tag p \<noteq> 0xffffffff" "no_CmdSN p = t_ExpCmdSN s"
    and "unat (no_length p) = length ping" "length ping < 2 ^ 24" "no_lun p AND 0xff = no_lun p"
    and "t_in s = ping @ replicate (padding_for (length ping)) 0 @ rest"
  shows "\<exists>s' nop. nop_out_t env (iscsi_nop_out_encap p) s = Return 0 s' \<and> t_in s' = rest \<and>
    t_out s' = t_out s @ iscsi_nop_in_encap nop # (if ping = [] then [] else [ping]) \<and>
    ni_tag nop = no_tag p \<and> ni_lun nop = no_lun p \<and> ni_length nop = no_length p \<and>
    ni_StatSN nop = t_StatSN s \<and> t_StatSN s' = t_StatSN s + 1 \<and>
    t_ExpCmdSN s' = t_ExpCmdSN s + 1 \<and> t_MaxCmdSN s' = t_MaxCmdSN s + 1"
proof -
  have "unat (no_length p) < 2 ^ 24" using assms(5,6) by simp
  then have len: "no_length p AND 0xffffff = no_length p" by (rule and_24_bits)
  let ?nop = "nop_out_wire p blank_nop_out"
  have nop: "no_CmdSN ?nop = t_ExpCmdSN s" "no_tag ?nop = no_tag p" "no_length ?nop = no_length p"
    "no_lun ?nop = no_lun p"
    using assms(4,7) len by (simp_all add: nop_out_wire_def)
  have decap: "iscsi_nop_out_decap (iscsi_nop_out_encap p) blank_nop_out = (0, ?nop)"
    by (rule nop_out.decap_encap) simp
  have ok: "e_send_ok env (t_sends s)" "e_send_ok env (Suc (t_sends s))"
    using assms(2) by (auto simp: sends_ok_def dest: spec [of _ 0] spec [of _ 1])
  let ?in = "\<lparr>ni_length = no_length p, ni_lun = no_lun p, ni_tag = no_tag p, ni_transfer_tag = 0xffffffff,
      ni_StatSN = t_StatSN s, ni_ExpCmdSN = t_ExpCmdSN s + 1, ni_MaxCmdSN = t_MaxCmdSN s + 1\<rparr>"
  show ?thesis
  proof (cases "ping = []")
    case True
    then have zero: "no_length p = 0" using assms(5) by (simp add: unat_eq_0)
    have "rest = t_in s" using True assms(8) by (simp add: padding_for_def)
    then show ?thesis
      using True zero assms(1,3) ok nop
      by (intro exI [of _ "s\<lparr>t_StatSN := t_StatSN s + 1, t_ExpCmdSN := t_ExpCmdSN s + 1,
            t_MaxCmdSN := t_MaxCmdSN s + 1, t_sends := t_sends s + 1, t_out := t_out s @ [iscsi_nop_in_encap ?in]\<rparr>"]
          exI [of _ ?in])
        (simp add: nop_out_t_def decap locked_send_def spin_lock_def spin_unlock_def
          send_header_and_data_def sock_send_def Let_def)
  next
    case False
    then have nz: "no_length p \<noteq> 0" using assms(5) by auto
    have recv: "sock_recv (unat (no_length p)) s = (Some ping, s\<lparr>t_in := rest\<rparr>)"
      using assms(5,6,8) by (simp add: sock_recv_def Let_def)
    show ?thesis
      using False nz assms(1,3) ok nop
      by (intro exI [of _ "s\<lparr>t_in := rest, t_StatSN := t_StatSN s + 1, t_ExpCmdSN := t_ExpCmdSN s + 1,
            t_MaxCmdSN := t_MaxCmdSN s + 1, t_sends := t_sends s + 2,
            t_out := t_out s @ [iscsi_nop_in_encap ?in, ping]\<rparr>"] exI [of _ ?in])
        (simp add: nop_out_t_def decap recv locked_send_def spin_lock_def spin_unlock_def
          send_header_and_data_def sock_send_def Let_def)
  qed
qed

theorem nop_out_echoed_witness:
  "\<exists>s' nop. nop_out_t sample_device (iscsi_nop_out_encap (blank_nop_out\<lparr>no_length := 3, no_tag := 7\<rparr>))
      (sample_session\<lparr>t_in := [1, 2, 3, 0]\<rparr>) = Return 0 s' \<and>
    t_out s' = [iscsi_nop_in_encap nop, [1, 2, 3]] \<and> ni_tag nop = 7"
proof -
  have "padding_for (length [1, 2, 3 :: byte]) = 1" by (simp add: padding_for_def ISCSI_SOCK_MSG_BYTE_ALIGN_def)
  then show ?thesis
    using nop_out_echoed [of "sample_session\<lparr>t_in := [1, 2, 3, 0]\<rparr>" sample_device
        "blank_nop_out\<lparr>no_length := 3, no_tag := 7\<rparr>" "[1, 2, 3]" "[]"]
    by (auto simp: blank_nop_out_def sample_session_def session_start_def sends_ok_def sample_device_def)
qed

text \<open>
  No task management function is ever performed: a request for one of the functions 1 to 8 that
  the initiator's code sends ends the session without an answer, and every request that the target
  accepts is answered as rejected.
\<close>

theorem task_management_rejected:
  "(tc_function p \<in> {1, 2, 3, 4, 5, 6, 7, 8} \<longrightarrow> task_command_t env (iscsi_task_cmd_encap p) s = Return (-1) s) \<and>
   (\<forall>s'. task_command_t env h s = Return 0 s' \<longrightarrow>
     (\<exists>rsp. t_out s' = t_out s @ [iscsi_task_rsp_encap rsp] \<and> tr_response rsp = ISCSI_TASK_RSP_REJECTED))"
proof (intro conjI allI impI)
  assume "tc_function p \<in> {1, 2, 3, 4, 5, 6, 7, 8}"
  then have "tc_function p AND 0x80 \<noteq> 0x80" by auto
  then have "fst (iscsi_task_cmd_decap (iscsi_task_cmd_encap p) blank_task_cmd) \<noteq> 0"
    using task_cmd.decap_status by blast
  then obtain rc cmd where "iscsi_task_cmd_decap (iscsi_task_cmd_encap p) blank_task_cmd = (rc, cmd)" "rc \<noteq> 0"
    by (cases "iscsi_task_cmd_decap (iscsi_task_cmd_encap p) blank_task_cmd") auto
  then show "task_command_t env (iscsi_task_cmd_encap p) s = Return (-1) s"
    by (simp add: task_command_t_def)
next
  fix s' assume r: "task_command_t env h s = Return 0 s'"
  obtain rc cmd where d: "iscsi_task_cmd_decap h blank_task_cmd = (rc, cmd)" by fastforce
  then have rc: "rc = 0" using r by (auto simp: task_command_t_def split: if_splits)
  then have "tc_function cmd = 0x80"
    using d by (auto simp: iscsi_task_cmd_decap_def split: if_splits)
  then have "tc_function cmd \<notin> {1, 2, 3, 4, 5, 6, 7, 8}" by simp
  then show "\<exists>rsp. t_out s' = t_out s @ [iscsi_task_rsp_encap rsp] \<and> tr_response rsp = ISCSI_TASK_RSP_REJECTED"
    using r d rc by (auto simp: task_command_t_def sock_send_def Let_def split: if_splits)
qed

theorem task_management_rejected_witness:
  "task_command_t sample_device (iscsi_task_cmd_encap (blank_task_cmd\<lparr>tc_function := 5\<rparr>)) sample_session =
     Return (-1) sample_session"
  using task_management_rejected [of "blank_task_cmd\<lparr>tc_function := 5\<rparr>" sample_device sample_session zero_header]
  by simp

subsection \<open>Write data\<close>

text \<open>
  The numbers of bytes that the commands expect and have received; \<open>grown m len m'\<close>: from \<open>m\<close> to \<open>m'\<close>
  no command has more than \<open>len\<close> bytes added, and none has more than it expects.
\<close>

definition expected :: "(ptr \<Rightarrow> target_cmd) \<Rightarrow> ptr \<Rightarrow> u32" where
  "expected mem p = sc_trans_len (tg_scsi (mem p))"

definition arrived :: "(ptr \<Rightarrow> target_cmd) \<Rightarrow> ptr \<Rightarrow> u32" where
  "arrived mem p = sc_bytes_todev (tg_scsi (mem p))"

definition grown :: "(ptr \<Rightarrow> target_cmd) \<Rightarrow> nat \<Rightarrow> (ptr \<Rightarrow> target_cmd) \<Rightarrow> bool" where
  "grown m len m' \<longleftrightarrow> expected m' = expected m \<and>
     (\<forall>p. unat (arrived m' p) \<in> {unat (arrived m p), unat (arrived m p) + len} \<and> arrived m' p \<le> expected m' p)"

interpretation memory: handler_invariant "\<lambda>s. Q (t_cmd_mem s)" for Q
  by unfold_locales (simp_all add: set_params_def)

text \<open>The device leaves the counts of the commands alone.\<close>

definition counts_of :: "target_session \<Rightarrow> (ptr \<Rightarrow> u32) \<times> (ptr \<Rightarrow> u32)" where
  "counts_of s = (expected (t_cmd_mem s), arrived (t_cmd_mem s))"

definition device_keeps_counts :: "'e device_env_scheme \<Rightarrow> bool" where
  "device_keeps_counts env \<longleftrightarrow>
     (\<forall>p off len s. ends_in (\<lambda>s'. counts_of s' = counts_of s) (e_place_data env p off len s))"

lemma grown_cong: "counts_of s = counts_of s' \<Longrightarrow> grown m len (t_cmd_mem s) = grown m len (t_cmd_mem s')"
  by (simp add: counts_of_def grown_def)

lemma place_data_keeps:
  assumes "device_keeps_counts env" "grown m n (t_cmd_mem s)"
  shows "ends_in (\<lambda>s'. grown m n (t_cmd_mem s')) (e_place_data env p off len s)"
proof -
  have "ends_in (\<lambda>s'. counts_of s' = counts_of s) (e_place_data env p off len s)"
    using assms(1) by (simp add: device_keeps_counts_def)
  then show ?thesis using assms(2) by (cases "e_place_data env p off len s") (auto dest: grown_cong)
qed

lemma sent_memory: "sock_send env msg s = (ok, s') \<Longrightarrow> t_cmd_mem s' = t_cmd_mem s"
  using memory.sent_kept [where Q = "\<lambda>m. m = t_cmd_mem s"] by blast

lemma write_length_bound:
  assumes "iscsi_write_data_decap h blank_write_data = (0, data)"
  shows "unat (wd_length data) < 2 ^ 24"
proof -
  have "h ! 4 = 0" "wd_length data = ntohl (load32 h 4)"
    using assms by (auto simp: iscsi_write_data_decap_def split: if_splits)
  moreover have "ntohl (load32 h 4) = take_bit 24 (ntohl (load32 h 4))" if "h ! 4 = 0"
    using that by (intro bit_word_eqI) (auto simp: ntohl_def load32_def bit_take_bit_iff bit_make32 bit_byte_of)
  ultimately have "unat (wd_length data) = take_bit 24 (unat (wd_length data))"
    by (metis unsigned_take_bit_eq)
  then show ?thesis by (metis take_bit_nat_less_exp)
qed

lemma counts_upd [simp]:
  assumes "\<And>c. sc_trans_len (tg_scsi (f c)) = sc_trans_len (tg_scsi c)"
    and "\<And>c. sc_bytes_todev (tg_scsi (f c)) = sc_bytes_todev (tg_scsi c)"
  shows "expected (m(p := f (m p))) = expected m" "arrived (m(p := f (m p))) = arrived m"
  using assms by (auto simp: expected_def arrived_def)

lemma grown_upd:
  assumes "\<And>c. sc_trans_len (tg_scsi (f c)) = sc_trans_len (tg_scsi c)"
    and "\<And>c. sc_bytes_todev (tg_scsi (f c)) = sc_bytes_todev (tg_scsi c)"
  shows "grown m0 len (m(p := f (m p))) = grown m0 len m"
  using assms by (simp add: grown_def)

lemma send_r2t_grown: "grown m0 len (t_cmd_mem s) \<Longrightarrow> step_in (\<lambda>s'. grown m0 len (t_cmd_mem s')) (send_r2t env p l off s)"
  unfolding send_r2t_def
  by (intro walk) (auto simp: grown_upd spin_unlock_def dest!: sent_memory)

lemma grown_start:
  "\<forall>p. arrived m p \<le> expected m p \<Longrightarrow> grown m len m"
  by (simp add: grown_def)

lemma grown_add:
  assumes "\<forall>p. arrived m p \<le> expected m p \<and> unat (expected m p) \<le> 2 ^ 32 - 2 ^ 24"
    and "unat len < 2 ^ 24" "\<not> arrived m p + len > expected m p"
  shows "grown m (unat len) (m(p := tg_scsi_update (\<lambda>sc. sc\<lparr>sc_bytes_todev := sc_bytes_todev sc + len\<rparr>) (m p)))"
proof -
  have "unat (arrived m p) \<le> 2 ^ 32 - 2 ^ 24"
    using assms(1) by (meson le_trans word_le_nat_alt)
  then have "unat (arrived m p) + unat len < 2 ^ LENGTH(32)" using assms(2) by simp
  then have "unat (arrived m p + len) = unat (arrived m p) + unat len" by (rule unat_add_lem [THEN iffD1])
  then show ?thesis using assms by (auto simp: grown_def arrived_def expected_def not_less)
qed

lemma counts_add:
  assumes "counts_of s' = counts_of s"
  shows "counts_of (upd_scsi p (\<lambda>sc. sc\<lparr>sc_bytes_todev := sc_bytes_todev sc + len\<rparr>) s') =
    counts_of (upd_scsi p (\<lambda>sc. sc\<lparr>sc_bytes_todev := sc_bytes_todev sc + len\<rparr>) s)"
  using assms by (auto simp: counts_of_def expected_def arrived_def upd_scsi_def upd_cmd_def fun_eq_iff)

lemma place_write_data_grown:
  assumes "device_keeps_counts env" "grown m0 (unat (wd_length data)) (t_cmd_mem s)"
    and "grown m0 (unat (wd_length data)) ((t_cmd_mem s)(p := tg_scsi_update
           (\<lambda>sc. sc\<lparr>sc_bytes_todev := sc_bytes_todev sc + wd_length data\<rparr>) (t_cmd_mem s p)))"
  shows "ends_in (\<lambda>s'. grown m0 (unat (wd_length data)) (t_cmd_mem s')) (place_write_data env p data s)"
proof -
  let ?n = "unat (wd_length data)" and ?add = "upd_scsi p (\<lambda>sc. sc\<lparr>sc_bytes_todev := sc_bytes_todev sc + wd_length data\<rparr>)"
  have counts: "ends_in (\<lambda>s'. counts_of s' = counts_of s) (e_place_data env p (wd_offset data) (wd_length data) s)"
    using assms(1) by (simp add: device_keeps_counts_def)
  have first: "ends_in (\<lambda>s'. grown m0 ?n (t_cmd_mem s')) (e_place_data env p (wd_offset data) (wd_length data) s)"
    using assms by (intro place_data_keeps) simp_all
  show ?thesis
  proof (cases "e_place_data env p (wd_offset data) (wd_length data) s")
    case (Return rc s1)
    have "grown m0 ?n (t_cmd_mem (?add s))" using assms(3) by (simp add: upd_scsi_def)
    then have g: "grown m0 ?n (t_cmd_mem (?add s1))"
      using counts Return counts_add [of s1 s] by (auto dest: grown_cong)
    have stop: "ends_in (\<lambda>s'. grown m0 ?n (t_cmd_mem s')) (Exits s1)" using first Return by simp
    show ?thesis
      unfolding place_write_data_def Return outcome.case Let_def
      by (intro walk ends_in_sum send_r2t_grown place_data_keeps [OF assms(1)] stop g)
        (use g assms(2) in \<open>simp_all\<close>)
  qed (use first assms(2) in \<open>simp_all add: place_write_data_def\<close>)
qed

text \<open>Write data that fits is counted.\<close>

lemma counted_data_placed:
  assumes "device_keeps_counts env" "unat (wd_length data) < 2 ^ 24" "t_cmd_mem s' = t_cmd_mem s"
    and "\<forall>p. arrived (t_cmd_mem s) p \<le> expected (t_cmd_mem s) p \<and> unat (expected (t_cmd_mem s) p) \<le> 2 ^ 32 - 2 ^ 24"
    and "\<not> sc_bytes_todev (scsi_of s p) + wd_length data > sc_trans_len (scsi_of s p)"
  shows "ends_in (\<lambda>s'. grown (t_cmd_mem s) (unat (wd_length data)) (t_cmd_mem s')) (place_write_data env p data s')"
proof (rule place_write_data_grown [OF assms(1)])
  show "grown (t_cmd_mem s) (unat (wd_length data)) (t_cmd_mem s')" using assms(3,4) by (simp add: grown_start)
  show "grown (t_cmd_mem s) (unat (wd_length data)) ((t_cmd_mem s')(p := tg_scsi_update
      (\<lambda>sc. sc\<lparr>sc_bytes_todev := sc_bytes_todev sc + wd_length data\<rparr>) (t_cmd_mem s' p)))"
    unfolding assms(3) using assms(5) by (intro grown_add [OF assms(4,2)]) (simp add: arrived_def expected_def scsi_of_def)
qed

text \<open>
  C5. No command ever counts more write data than it expects, and the counts never wrap around: a PDU
  of write data leaves the count of every command alone or adds exactly its own length to it,
  provided that the device leaves the counts alone and no transfer is longer than
  \<open>2\<^sup>3\<^sup>2 - 2\<^sup>2\<^sup>4\<close> bytes.
\<close>

theorem write_data_counts_bounded:
  assumes "\<forall>p. sc_bytes_todev (scsi_of s p) \<le> sc_trans_len (scsi_of s p)"
    and "\<forall>p. unat (sc_trans_len (scsi_of s p)) \<le> 2 ^ 32 - 2 ^ 24"
    and "device_keeps_counts env"
  shows "ends_in (\<lambda>s'. \<forall>p. sc_trans_len (scsi_of s' p) = sc_trans_len (scsi_of s p) \<and>
      sc_bytes_todev (scsi_of s' p) \<le> sc_trans_len (scsi_of s' p) \<and>
      unat (sc_bytes_todev (scsi_of s' p)) \<in> {unat (sc_bytes_todev (scsi_of s p)),
        unat (sc_bytes_todev (scsi_of s p)) + unat (wd_length (snd (iscsi_write_data_decap h blank_write_data)))})
    (write_data_t env h s)"
proof -
  obtain rc data where d: "iscsi_write_data_decap h blank_write_data = (rc, data)" by fastforce
  let ?m = "t_cmd_mem s" and ?n = "unat (wd_length data)"
  let ?P = "\<lambda>s'. grown ?m ?n (t_cmd_mem s')"
  have ok: "\<forall>p. arrived ?m p \<le> expected ?m p \<and> unat (expected ?m p) \<le> 2 ^ 32 - 2 ^ 24"
    using assms(1,2) by (simp add: arrived_def expected_def scsi_of_def)
  have start: "grown ?m ?n ?m" using ok by (intro grown_start) simp
  have failed: "?P (upd_scsi p (\<lambda>sc. sc\<lparr>sc_status := 2\<rparr>) (s\<lparr>t_cmds := c\<rparr>))" for p c
    using start by (simp add: upd_scsi_def grown_upd)
  have place: "ends_in ?P (place_write_data env p data s')"
    if "rc = 0" "t_cmd_mem s' = ?m" "\<not> sc_bytes_todev (scsi_of s p) + wd_length data > sc_trans_len (scsi_of s p)"
    for p s'
    using counted_data_placed [OF assms(3) write_length_bound that(2) ok that(3)] d that(1) by blast
  have rejected: "ends_in (\<lambda>s'. t_cmd_mem s' = ?m) (reject_t env h 9 (s\<lparr>t_cmds := c\<rparr>))" for c
    by (rule memory.reject_keeps [where Q = "\<lambda>m. m = ?m"]) simp
  have "ends_in ?P (write_data_t env h s)"
  proof (cases "rc = 0")
    case True
    have scsi: "scsi_of (s\<lparr>t_cmds := c\<rparr>) p = scsi_of s p" for c p by (simp add: scsi_of_def)
    have rej: "ends_in ?P (case reject_t env h 9 (s\<lparr>t_cmds := c\<rparr>) of
          Return rc s \<Rightarrow> if rc \<noteq> 0 then Return 1 s
            else (if b then Return (-1) s else place_write_data env p data s)
        | Exits s \<Rightarrow> Exits s | Blocks s \<Rightarrow> Blocks s | Diverges \<Rightarrow> Diverges | Undef \<Rightarrow> Undef)"
      if "\<not> sc_bytes_todev (scsi_of s p) + wd_length data > sc_trans_len (scsi_of s p)" for b p c
      using rejected [of c] start place [OF True _ that]
      by (cases "reject_t env h 9 (s\<lparr>t_cmds := c\<rparr>)") simp_all
    show ?thesis
      unfolding write_data_t_def d prod.case Let_def scsi
      by (intro ends_in_if ends_in_option ends_in_prod rej place True) (use start in \<open>simp_all add: failed\<close>)
  next
    case False
    then show ?thesis using start by (simp add: write_data_t_def d)
  qed
  moreover have "?P s' \<Longrightarrow> \<forall>p. sc_trans_len (scsi_of s' p) = sc_trans_len (scsi_of s p) \<and>
      sc_bytes_todev (scsi_of s' p) \<le> sc_trans_len (scsi_of s' p) \<and>
      unat (sc_bytes_todev (scsi_of s' p)) \<in> {unat (sc_bytes_todev (scsi_of s p)),
        unat (sc_bytes_todev (scsi_of s p)) + ?n}" for s'
    by (simp add: grown_def arrived_def expected_def scsi_of_def fun_eq_iff) metis
  ultimately show ?thesis unfolding d snd_conv by (rule ends_in_mono)
qed

lemma sample_device_keeps_counts: "device_keeps_counts sample_device"
  by (simp add: device_keeps_counts_def sample_device_def)

theorem write_data_counts_bounded_witness:
  "ends_in (\<lambda>s'. unat (sc_bytes_todev (scsi_of s' 100)) \<in> {0, 5})
    (write_data_t sample_device (iscsi_write_data_encap (blank_write_data\<lparr>wd_tag := 7, wd_length := 5\<rparr>)) sample_session)"
proof -
  let ?h = "iscsi_write_data_encap (blank_write_data\<lparr>wd_tag := 7, wd_length := 5\<rparr>)"
  have l: "wd_length (snd (iscsi_write_data_decap ?h blank_write_data)) = 5"
    by (simp add: write_data.decap_value write_data_wire_def)
  have "scsi_of sample_session p = blank_scsi_cmd\<lparr>sc_tag := 7, sc_fromdev := 1, sc_trans_len := 10\<rparr>" for p
    by (simp add: sample_session_def session_start_def scsi_of_def sample_cmd_def)
  then have "ends_in (\<lambda>s'. \<forall>p. sc_trans_len (scsi_of s' p) = 10 \<and> sc_bytes_todev (scsi_of s' p) \<le> sc_trans_len (scsi_of s' p) \<and>
      unat (sc_bytes_todev (scsi_of s' p)) \<in> {0, 5}) (write_data_t sample_device ?h sample_session)"
    using write_data_counts_bounded [of sample_session sample_device ?h] sample_device_keeps_counts l
    by (simp add: blank_scsi_cmd_def)
  then show ?thesis by (cases "write_data_t sample_device ?h sample_session") simp_all
qed

subsection \<open>Ends and deadlocks\<close>

text \<open>
  C38. A send that fails while an R2T or a response goes out stops the session for good: the call
  returns with the session's lock taken, and every later answer that needs the lock blocks.
\<close>

theorem failed_send_blocks_session:
  assumes "\<not> t_slock s" "\<not> e_send_ok env (t_sends s)"
    and "call = target_transfer_data env p s \<and> initial_r2t (t_sess_params s) \<and>
           sc_trans_len (scsi_of s p) \<noteq> sc_bytes_todev (scsi_of s p) \<or>
         call = device_command_done env p s \<and> \<not> tg_send_data (t_cmd_mem s p) \<and> sc_status (scsi_of s p) \<noteq> 0"
  shows "\<exists>s'. call = Return (-1) s' \<and> (\<forall>h d k. locked_send env h d s' k = Blocks s')"
proof -
  have "\<exists>s'. call = Return (-1) s' \<and> t_slock s'"
    using assms(3)
  proof (elim disjE conjE)
    assume "call = target_transfer_data env p s" "initial_r2t (t_sess_params s)"
      "sc_trans_len (scsi_of s p) \<noteq> sc_bytes_todev (scsi_of s p)"
    then show ?thesis
      using assms(1,2) by (simp add: target_transfer_data_def r2t_loop.simps send_r2t_def sock_send_def Let_def)
  next
    assume "call = device_command_done env p s" "\<not> tg_send_data (t_cmd_mem s p)" "sc_status (scsi_of s p) \<noteq> 0"
    then show ?thesis
      using assms(1,2)
      by (simp add: device_command_done_def scsi_response_def spin_lock_def send_header_and_iov_def
          sock_send_def upd_cmd_def upd_scsi_def scsi_of_def Let_def)
  qed
  then show ?thesis by (auto simp: locked_send_def spin_lock_def)
qed

theorem failed_send_blocks_session_witness:
  "\<exists>s'. target_transfer_data (sample_device\<lparr>e_send_ok := (\<lambda>n. False)\<rparr>) 100
      (sample_session\<lparr>t_sess_params := limits 0 0 4\<rparr>) = Return (-1) s' \<and>
    (\<forall>h d k. locked_send (sample_device\<lparr>e_send_ok := (\<lambda>n. False)\<rparr>) h d s' k = Blocks s')"
  by (rule failed_send_blocks_session [where p = 100 and s = "sample_session\<lparr>t_sess_params := limits 0 0 4\<rparr>"])
    (simp_all add: limits_def blank_scsi_cmd_def)

text \<open>
  C37. A logged-in peer can end the whole target process: by write data for a tag that no command
  has, and by a command that is refused because its data is longer than the negotiated
  \<^verbatim>\<open>FirstBurstLength\<close>.
\<close>

theorem peer_can_end_target:
  assumes "t_IsFullFeature s" "t_LoginStarted s" "hash_rel (t_cmds s) A m" "\<not> t_slock s" "e_send_ok env (t_sends s)"
    and "iscsi_write_data_decap (t_header_mem s hp) blank_write_data = (0, data) \<and> m (wd_tag data) = None \<or>
      iscsi_scsi_cmd_decap (t_header_mem s hp) blank_scsi_cmd = (0, sc) \<and>
        first_burst_length (t_sess_params s) \<noteq> 0 \<and> sc_length sc > first_burst_length (t_sess_params s) \<and>
        m (iscsi_itt (t_header_mem s hp)) = None \<and> fst (iscsi_queue_remove (t_cmd_q s)) \<noteq> NULL"
  shows "\<exists>s'. execute_t env hp s = Exits s'"
proof -
  let ?h = "t_header_mem s hp"
  have verify: "verify_cmd_t env ?h s = Return 0 s" using assms(1,2) by (simp add: verify_cmd_t_def Let_def)
  from assms(6) show ?thesis
  proof (elim disjE conjE)
    assume w: "iscsi_write_data_decap ?h blank_write_data = (0, data)" "m (wd_tag data) = None"
    then have "iscsi_opcode ?h = ISCSI_WRITE_DATA"
      using write_data.decap_success_opcode [of ?h blank_write_data] by simp
    moreover have "hash_get (t_cmds s) (wd_tag data) = Some (NULL, t_cmds s)"
      using cmds.get_rel [OF assms(3)] w(2) by simp
    ultimately show ?thesis
      using w(1) by (simp add: execute_t_def Let_def verify opcodes write_data_t_def)
  next
    assume c: "iscsi_scsi_cmd_decap ?h blank_scsi_cmd = (0, sc)" "first_burst_length (t_sess_params s) \<noteq> 0"
      "sc_length sc > first_burst_length (t_sess_params s)" "m (iscsi_itt ?h) = None"
      "fst (iscsi_queue_remove (t_cmd_q s)) \<noteq> NULL"
    obtain p q where q: "iscsi_queue_remove (t_cmd_q s) = (p, q)" "p \<noteq> NULL"
      using c(5) by (cases "iscsi_queue_remove (t_cmd_q s)") auto
    have op: "iscsi_opcode ?h = ISCSI_SCSI_CMD"
      using c(1) scsi_cmd.decap_success_opcode [of ?h blank_scsi_cmd] by simp
    have del: "hash_remove (t_cmds s) (iscsi_itt ?h) = Some (NULL, t_cmds s)"
      using cmds.del_none [OF assms(3) c(4)] .
    have "\<exists>s'. scsi_command_t env hp s = Exits s'"
      using c(1-3) q assms(4,5)
      by (simp add: scsi_command_t_def Let_def scsi_error_def device_command_done_def scsi_response_def
          spin_lock_def spin_unlock_def send_header_and_iov_def sock_send_def command_release_def
          upd_cmd_def upd_scsi_def scsi_of_def blank_target_cmd_def del)
    then show ?thesis by (auto simp: execute_t_def Let_def verify op opcodes dispatched_def)
  qed
qed

theorem peer_can_end_target_witness:
  "\<exists>s'. execute_t sample_device 200 (sample_session\<lparr>t_IsFullFeature := True, t_LoginStarted := True,
     t_cmds := empty_table, t_header_mem := (\<lambda>p. iscsi_write_data_encap (blank_write_data\<lparr>wd_tag := 9\<rparr>))\<rparr>) = Exits s'"
proof -
  let ?p = "blank_write_data\<lparr>wd_tag := 9\<rparr>"
  have "iscsi_write_data_decap (iscsi_write_data_encap ?p) blank_write_data =
      (0, write_data_wire ?p blank_write_data)"
    by (rule write_data.decap_encap) (simp add: blank_write_data_def)
  then show ?thesis
    by (intro peer_can_end_target [where data = "write_data_wire ?p blank_write_data" and m = Map.empty and A = "{}"])
      (simp_all add: empty_table_rel sample_device_def)
qed

end
