(* ===== verification/Initiator_Session.thy ===== *)
theory Initiator_Session
  imports Session_Base
begin

section \<open>The session of an initiator\<close>

text \<open>
  One session of \<^verbatim>\<open>initiator.c\<close>: the \<^verbatim>\<open>INITIATOR_SESSION_T\<close> with the entries of the global arrays
  that belong to it (\<^verbatim>\<open>g_target\<close>, \<^verbatim>\<open>g_tx_queue\<close>, \<^verbatim>\<open>g_cmd_hash\<close>, \<^verbatim>\<open>g_nop_out\<close>, \<^verbatim>\<open>g_cookie\<close>), its
  connection and the memory of the caller, and the functions that queue, send, answer and complete
  commands other than SCSI commands.  The client's callback is called by \<^verbatim>\<open>iscsi_done_i\<close>: the model
  records the call, and its return code is a parameter.
\<close>

subsection \<open>State\<close>

text \<open>
  \<^verbatim>\<open>ISCSI_SCSI_CMD_T\<close> with its buffers: \<open>is_send_sg\<close> are the \<^verbatim>\<open>send_sg_len\<close> vectors that \<^verbatim>\<open>send_data\<close>
  points to; with none of them, \<^verbatim>\<open>send_data\<close> is the buffer itself.  Likewise for receiving.
\<close>

record initiator_scsi =
  is_cmd :: iscsi_scsi_cmd_t
  is_send_data :: ptr
  is_send_sg :: "iovec list"
  is_recv_data :: ptr
  is_recv_sg :: "iovec list"

text \<open>What \<^verbatim>\<open>cmd->ptr\<close> points to, with the bytes that the structure's own pointer leads to.\<close>

datatype request =
    No_Req
  | Scsi_Req initiator_scsi
  | Nop_Req iscsi_nop_out_t "byte list"
  | Text_Req iscsi_text_cmd_t string
  | Login_Req iscsi_login_cmd_t string
  | Logout_Req iscsi_logout_cmd_t

record initiator_cmd =
  ic_ptr :: request
  ic_type :: byte
  ic_tx_done :: bool
  ic_status :: int
  ic_tag :: u32
  ic_r2t_request :: int
  ic_r2t :: iscsi_r2t_t
  ic_aborted :: bool

record initiator_session =
  i_CmdSN :: u32
  i_ExpStatSN :: u32
  i_MaxCmdSN :: u32
  i_isid :: u64
  i_tsih :: u16
  i_cid :: u16
  i_text :: parse_state
  i_sess_params :: iscsi_sess_param
  i_redirected :: bool
  i_full_feature :: bool
  i_logged_in :: bool
  i_error :: bool
  i_destroying :: bool
  i_ip :: string
  i_port :: c_int
  i_cmds :: hash_state
  i_cmd_mem :: "ptr \<Rightarrow> initiator_cmd"
  i_tx_queue :: iscsi_queue
  i_nop_out :: iscsi_nop_out_t
  i_nop_out_waiting :: bool
  i_nop_in_count :: u32
  i_tag :: u32
  i_hostno :: nat
  i_in :: "byte list"
  i_out :: "byte list list"
  i_sends :: nat
  i_mem :: "nat \<Rightarrow> byte"
  i_done :: "(ptr \<times> int) list"

text \<open>
  What the session takes from outside: the digest and the names and passwords of the target's
  entry in \<^verbatim>\<open>g_target\<close>, its text settings, which messages can be sent, the return codes of the
  callbacks, and the size of the buffer that the texts of the login are built in.
\<close>

record initiator_env =
  n_chap :: chap_env
  n_key0 :: string
  n_hostname :: string
  n_TargetName :: string
  n_InitialR2T :: string
  n_ImmediateData :: string
  n_MaxRecvDataSegmentLength :: string
  n_FirstBurstLength :: string
  n_MaxBurstLength :: string
  n_fix_address :: bool
  n_num_targets :: nat
  n_send_ok :: "nat \<Rightarrow> bool"
  n_callback :: "nat \<Rightarrow> int"
  n_text_room :: nat

text \<open>
  How a call ends: it returns a code, it ends the process (\<^verbatim>\<open>PANIC\<close>), it waits for a lock or a signal, it loops for ever, or its
  behaviour is undefined.
\<close>

datatype i_outcome =
    IReturn int initiator_session | IExits initiator_session | IWaits initiator_session | IDiverges | IUndef

definition i_params :: "initiator_session \<Rightarrow> iscsi_param list" where
  "i_params s = s_params (i_text s)"

definition i_upd :: "ptr \<Rightarrow> (initiator_cmd \<Rightarrow> initiator_cmd) \<Rightarrow> initiator_session \<Rightarrow> initiator_session" where
  "i_upd p f s = s\<lparr>i_cmd_mem := (i_cmd_mem s)(p := f (i_cmd_mem s p))\<rparr>"

definition i_set_status :: "ptr \<Rightarrow> int \<Rightarrow> initiator_session \<Rightarrow> initiator_session" where
  "i_set_status p v = i_upd p (\<lambda>c. c\<lparr>ic_status := v\<rparr>)"

definition i_set_req :: "ptr \<Rightarrow> request \<Rightarrow> initiator_session \<Rightarrow> initiator_session" where
  "i_set_req p r = i_upd p (\<lambda>c. c\<lparr>ic_ptr := r\<rparr>)"

subsection \<open>The connection\<close>

text \<open>
  \<^verbatim>\<open>iscsi_sock_msg\<close> as the session sees it.  Receiving returns the number of bytes read less the
  padding, which is short of the length if the peer closes the connection; the bytes read so far
  are in the buffer then.  A length of \<open>2 ^ 31\<close> or more fails.  A message that is sent arrives
  whole; sending nothing succeeds.
\<close>

definition i_recv :: "nat \<Rightarrow> initiator_session \<Rightarrow> int \<times> byte list \<times> initiator_session" where
  "i_recv len s =
    (if len < 2 ^ 31 then
       let pad = padding_for len;
           n = min (len + pad) (length (i_in s))
       in (int n - int pad, take (min n len) (i_in s), s\<lparr>i_in := drop n (i_in s)\<rparr>)
     else (-1, [], s))"

definition i_send :: "'e initiator_env_scheme \<Rightarrow> byte list \<Rightarrow> initiator_session \<Rightarrow> bool \<times> initiator_session" where
  "i_send env msg s =
    (if msg = [] then (True, s)
     else let ok = n_send_ok env (i_sends s);
              s = s\<lparr>i_sends := i_sends s + 1\<rparr>
          in (ok, if ok then s\<lparr>i_out := i_out s @ [msg]\<rparr> else s))"

definition i_send_header_and_data ::
  "'e initiator_env_scheme \<Rightarrow> header \<Rightarrow> byte list \<Rightarrow> initiator_session \<Rightarrow> bool \<times> initiator_session" where
  "i_send_header_and_data env h data s =
    (case i_send env h s of (ok, s) \<Rightarrow> if ok then i_send env data s else (False, s))"

text \<open>The data comes from a scatter list, whose lengths \<^verbatim>\<open>iscsi_sock_msg\<close> compares with \<open>len\<close>.\<close>

definition i_send_iov ::
  "'e initiator_env_scheme \<Rightarrow> nat \<Rightarrow> iovec list \<Rightarrow> initiator_session \<Rightarrow> bool \<times> initiator_session" where
  "i_send_iov env len vs s =
    (if (\<exists>v\<in>set vs. iov_base v = NULL) \<or> iovs_len vs \<noteq> len then (False, s)
     else i_send env (map (i_mem s) (iovs_addrs vs)) s)"

definition i_send_header_and_iov ::
  "'e initiator_env_scheme \<Rightarrow> header \<Rightarrow> nat \<Rightarrow> iovec list \<Rightarrow> initiator_session \<Rightarrow> bool \<times> initiator_session" where
  "i_send_header_and_iov env h len vs s =
    (case i_send env h s of
       (ok, s) \<Rightarrow> if ok \<and> len \<noteq> 0 then i_send_iov env len vs s else (ok, s))"

subsection \<open>Completion\<close>

text \<open>The comparison of the bytes transferred with those of the command.\<close>

definition transfer_status :: "iscsi_scsi_cmd_t \<Rightarrow> int \<Rightarrow> int" where
  "transfer_status sc status =
    (if sc_fromdev sc \<noteq> 0 \<and> sc_todev sc \<noteq> 0 then
       if sc_bytes_todev sc = sc_trans_len sc \<and> sc_bytes_fromdev sc = sc_bidi_trans_len sc
       then status else -1
     else if sc_fromdev sc \<noteq> 0 then status
     else if sc_todev sc \<noteq> 0 then if sc_bytes_todev sc = sc_trans_len sc then status else -1
     else if sc_bytes_todev sc = 0 \<and> sc_bytes_fromdev sc = 0 then status else -1)"

definition iscsi_done_i :: "'e initiator_env_scheme \<Rightarrow> ptr \<Rightarrow> initiator_session \<Rightarrow> i_outcome" where
  "iscsi_done_i env p s =
    (let c = i_cmd_mem s p;
         call = (\<lambda>s. let rc = n_callback env (length (i_done s));
                        s = s\<lparr>i_done := i_done s @ [(p, ic_status (i_cmd_mem s p))]\<rparr>
                    in IReturn (if rc \<noteq> 0 then -1 else 0) s)
     in case hash_remove (i_cmds s) (ic_tag c) of
          None \<Rightarrow> IWaits s
        | Some (obj, cmds) \<Rightarrow>
            let s = s\<lparr>i_cmds := cmds\<rparr>
            in if obj = NULL \<and> \<not> ic_aborted c then IReturn (-1) s
               else if ic_aborted c \<or> ic_type c \<noteq> ISCSI_SCSI_CMD then call s
               else (case ic_ptr c of
                       Scsi_Req q \<Rightarrow> call (i_set_status p (transfer_status (is_cmd q) (ic_status c)) s)
                     | _ \<Rightarrow> IUndef))"

text \<open>\<open>bind_i r k\<close>: go on with the code and the state of a call that returns.\<close>

fun bind_i :: "i_outcome \<Rightarrow> (int \<Rightarrow> initiator_session \<Rightarrow> i_outcome) \<Rightarrow> i_outcome" where
  "bind_i (IReturn rc s) k = k rc s"
| "bind_i (IExits s) k = IExits s"
| "bind_i (IWaits s) k = IWaits s"
| "bind_i IDiverges k = IDiverges"
| "bind_i IUndef k = IUndef"

text \<open>The label \<open>callback\<close> of most handlers: complete the command, return -1 if that fails.\<close>

definition i_callback :: "'e initiator_env_scheme \<Rightarrow> ptr \<Rightarrow> int \<Rightarrow> initiator_session \<Rightarrow> i_outcome" where
  "i_callback env p ret s =
    bind_i (iscsi_done_i env p s) (\<lambda>rc s. IReturn (if rc \<noteq> 0 then -1 else ret) s)"

subsection \<open>Queueing and aborting\<close>

definition blank_r2t :: iscsi_r2t_t where
  "blank_r2t = \<lparr>r2_AHSlength = 0, r2_lun = 0, r2_tag = 0, r2_transfer_tag = 0, r2_StatSN = 0,
     r2_ExpCmdSN = 0, r2_MaxCmdSN = 0, r2_R2TSN = 0, r2_offset = 0, r2_length = 0\<rparr>"

definition blank_initiator_cmd :: initiator_cmd where
  "blank_initiator_cmd = \<lparr>ic_ptr = No_Req, ic_type = 0, ic_tx_done = False, ic_status = 0, ic_tag = 0,
     ic_r2t_request = 0, ic_r2t = blank_r2t, ic_aborted = False\<rparr>"

definition initiator_enqueue ::
  "'e initiator_env_scheme \<Rightarrow> byte \<Rightarrow> request \<Rightarrow> ptr \<Rightarrow> initiator_session \<Rightarrow> i_outcome" where
  "initiator_enqueue env type req p s =
    (if \<not> unat (i_isid s) < n_num_targets env then IReturn (-1) s
     else
       let s = i_upd p (\<lambda>c. blank_initiator_cmd\<lparr>ic_type := type, ic_ptr := req, ic_status := -1\<rparr>) s;
           s = i_upd p (\<lambda>c. c\<lparr>ic_tag := i_tag s\<rparr>) (s\<lparr>i_tag := i_tag s + 1\<rparr>)
       in case iscsi_queue_insert (i_tx_queue s) p of
            (rc, q) \<Rightarrow> IReturn (if rc \<noteq> 0 then -1 else 0) (s\<lparr>i_tx_queue := q\<rparr>))"

text \<open>
  \<^verbatim>\<open>ISCSI_WAKE_ELSE((iscsi_queue_insert(...)==0), ...)\<close> inserts the command and ignores whether that
  succeeded (only the version for the kernel looks at it).
\<close>

definition i_wake_tx :: "ptr \<Rightarrow> initiator_session \<Rightarrow> initiator_session" where
  "i_wake_tx p s = s\<lparr>i_tx_queue := snd (iscsi_queue_insert (i_tx_queue s) p)\<rparr>"

text \<open>
  The loop of \<^verbatim>\<open>initiator_abort\<close> takes commands off the queue until it finds one with the tag, and
  puts the others back at the end; \<open>start\<close> is the first that was put back, \<open>NULL\<close> before.  The result
  is \<open>False\<close> if a command cannot be put back.
\<close>

partial_function (option) abort_loop ::
  "(ptr \<Rightarrow> initiator_cmd) \<Rightarrow> u32 \<Rightarrow> ptr \<Rightarrow> iscsi_queue \<Rightarrow> (bool \<times> iscsi_queue) option" where
  [code]: "abort_loop mem tag start q =
    (case iscsi_queue_remove q of
       (p, q) \<Rightarrow>
         if p = NULL then Some (True, q)
         else if ic_tag (mem p) = tag then Some (True, q)
         else case iscsi_queue_insert q p of
                (rc, q) \<Rightarrow>
                  if rc \<noteq> 0 then Some (False, q)
                  else if start = p then Some (True, q)
                  else abort_loop mem tag (if start = NULL then p else start) q)"

definition initiator_abort :: "'e initiator_env_scheme \<Rightarrow> ptr \<Rightarrow> initiator_session \<Rightarrow> i_outcome" where
  "initiator_abort env p s =
    (let s = i_upd p (\<lambda>c. c\<lparr>ic_status := -1, ic_aborted := True\<rparr>) s
     in case abort_loop (i_cmd_mem s) (ic_tag (i_cmd_mem s p)) NULL (i_tx_queue s) of
          None \<Rightarrow> IDiverges
        | Some (ok, q) \<Rightarrow>
            let s = s\<lparr>i_tx_queue := q\<rparr>
            in if \<not> ok then IReturn (-1) s else i_callback env p 0 s)"

end
