(* ===== verification/Initiator_Control.thy ===== *)
theory Initiator_Control
  imports Initiator_Session
begin

section \<open>Text, login, logout and NOP on the initiator\<close>

text \<open>
  The functions of \<^verbatim>\<open>initiator.c\<close> that send the commands other than SCSI commands, and those that
  handle the answers to them, rejects and asynchronous messages.  A handler takes the command that
  the receiving thread found for the PDU, \<open>NULL\<close> if there is none.  A \<^verbatim>\<open>cmd->ptr\<close> of another type
  than the PDU's is a cast of one structure into another: undefined behaviour.
\<close>

subsection \<open>Texts\<close>

text \<open>\<^verbatim>\<open>PARAM_TEXT_PARSE_ELSE\<close> on the session.\<close>

definition i_parse_then ::
  "'e initiator_env_scheme \<Rightarrow> bool \<Rightarrow> string \<Rightarrow> initiator_session \<Rightarrow>
   (int \<Rightarrow> initiator_session \<Rightarrow> i_outcome) \<Rightarrow> i_outcome" where
  "i_parse_then env outgoing txt s k =
    (case param_text_parse (n_chap env) (n_key0 env) outgoing txt (i_text s) of
       None \<Rightarrow> IUndef
     | Some (rc, st) \<Rightarrow> k rc (s\<lparr>i_text := st\<rparr>))"

text \<open>Keys and values that are added to a text one after the other.\<close>

fun text_add_all :: "(string \<times> string) list \<Rightarrow> string \<Rightarrow> int \<times> string" where
  "text_add_all [] out = (0, out)"
| "text_add_all ((key, val) # kvs) out =
    (case param_text_add key val out of
       (rc, out) \<Rightarrow> if rc \<noteq> 0 then (-1, out) else text_add_all kvs out)"

datatype sess_type = SESS_TYPE_DISCOVERY | SESS_TYPE_NORMAL | SESS_TYPE_NONE

definition params_list ::
  "'e initiator_env_scheme \<Rightarrow> nat \<Rightarrow> sess_type \<Rightarrow> bool \<Rightarrow> (string \<times> string) list" where
  "params_list env hostno type security =
    [(''InitiatorName'', n_hostname env @ ''-'' @ nat_dec hostno), (''InitiatorAlias'', ''Intel'')] @
    (if security
     then [(''AuthMethod'', if e_InitiatorUser (n_chap env) \<noteq> [] then ''CHAP'' else ''None'')]
     else []) @
    (case type of
       SESS_TYPE_DISCOVERY \<Rightarrow> [(''SessionType'', ''Discovery'')]
     | SESS_TYPE_NORMAL \<Rightarrow> [(''SessionType'', ''Normal''), (''TargetName'', n_TargetName env)]
     | SESS_TYPE_NONE \<Rightarrow>
         List.filter (\<lambda>(k, v). v \<noteq> [])
           [(''InitialR2T'', n_InitialR2T env), (''ImmediateData'', n_ImmediateData env),
            (''MaxRecvDataSegmentLength'', n_MaxRecvDataSegmentLength env),
            (''FirstBurstLength'', n_FirstBurstLength env),
            (''MaxBurstLength'', n_MaxBurstLength env)])"

text \<open>The text is \<open>s_out\<close>, which the caller has cleared or filled; \<open>k\<close> gets the return code.\<close>

definition params_out ::
  "'e initiator_env_scheme \<Rightarrow> sess_type \<Rightarrow> bool \<Rightarrow> initiator_session \<Rightarrow>
   (int \<Rightarrow> initiator_session \<Rightarrow> i_outcome) \<Rightarrow> i_outcome" where
  "params_out env type security s k =
    (if i_destroying s then k (-1) s
     else
       case text_add_all (params_list env (i_hostno s) type security) (s_out (i_text s)) of
         (rc, out) \<Rightarrow>
           let s = s\<lparr>i_hostno := i_hostno s + 1, i_text := (i_text s)\<lparr>s_out := out\<rparr>\<rparr>
           in if rc \<noteq> 0 then k (-1) s
              else i_parse_then env True out s (\<lambda>rc s. k (if rc \<noteq> 0 then -1 else 0) s))"

subsection \<open>NOP\<close>

definition nop_out_i ::
  "'e initiator_env_scheme \<Rightarrow> iscsi_nop_out_t \<Rightarrow> byte list \<Rightarrow> initiator_session \<Rightarrow>
   int \<times> iscsi_nop_out_t \<times> initiator_session" where
  "nop_out_i env nop data s =
    (let nop = nop\<lparr>no_CmdSN := i_CmdSN s, no_ExpStatSN := i_ExpStatSN s\<rparr>;
         s = (if no_tag nop = 0xffffffff then s else s\<lparr>i_CmdSN := i_CmdSN s + 1\<rparr>)
     in case i_send_header_and_data env (iscsi_nop_out_encap nop) (take (unat (no_length nop)) data) s of
          (ok, s) \<Rightarrow> (if ok then 0 else -1, nop, s))"

definition blank_nop_in :: iscsi_nop_in_t where
  "blank_nop_in = \<lparr>ni_length = 0, ni_lun = 0, ni_tag = 0, ni_transfer_tag = 0, ni_StatSN = 0,
     ni_ExpCmdSN = 0, ni_MaxCmdSN = 0\<rparr>"

text \<open>
  An unsolicited NOP-In that wants an answer: \<^verbatim>\<open>memset(&g_nop_out, ...)\<close> clears the entry of session
  0, whatever the session.
\<close>

definition nop_in_unsolicited :: "iscsi_nop_in_t \<Rightarrow> initiator_session \<Rightarrow> i_outcome" where
  "nop_in_unsolicited nop_in s =
    (if ni_tag nop_in \<noteq> 0xffffffff then IReturn (-1) s
     else if ni_length nop_in \<noteq> 0 then IReturn (-1) s
     else
       let s = s\<lparr>i_nop_in_count := i_nop_in_count s + 1\<rparr>
       in if ni_transfer_tag nop_in \<noteq> 0xffffffff then
            let old = (if i_isid s = 0 then blank_nop_out else i_nop_out s);
                nop = old\<lparr>no_tag := 0xffffffff, no_immediate := 1,
                          no_transfer_tag := ni_transfer_tag nop_in, no_lun := ni_lun nop_in,
                          no_ExpStatSN := i_ExpStatSN s, no_CmdSN := ni_ExpCmdSN nop_in\<rparr>
            in IReturn 0 (s\<lparr>i_nop_out := nop, i_nop_out_waiting := True\<rparr>)
          else IReturn 0 s)"

text \<open>The ping data must be that of the NOP-Out; beyond its length the comparison is out of bounds.\<close>

definition nop_in_i :: "'e initiator_env_scheme \<Rightarrow> ptr \<Rightarrow> header \<Rightarrow> initiator_session \<Rightarrow> i_outcome" where
  "nop_in_i env p h s =
    (case iscsi_nop_in_decap h blank_nop_in of
       (rc, nop_in) \<Rightarrow>
         if rc \<noteq> 0 then IReturn (-1) s
         else
           let len = unat (ni_length nop_in);
               answer = (\<lambda>ping s.
                 if p = NULL then nop_in_unsolicited nop_in s
                 else (case ic_ptr (i_cmd_mem s p) of
                   Nop_Req nop data \<Rightarrow>
                     if take (length data) ping \<noteq> take len data then IReturn (-1) s
                     else if length data < len then IUndef
                     else if ni_length nop_in \<noteq> no_length nop then IReturn (-1) s
                     else i_callback env p 0 (i_set_status p 0 (s\<lparr>i_ExpStatSN := i_ExpStatSN s + 1\<rparr>))
                 | _ \<Rightarrow> IUndef))
           in if len \<noteq> 0 then
                case i_recv len s of
                  (n, ping, s) \<Rightarrow> if n \<noteq> int len then IReturn (-1) s else answer ping s
              else answer [] s)"

subsection \<open>Logout\<close>

definition logout_command_i ::
  "'e initiator_env_scheme \<Rightarrow> iscsi_logout_cmd_t \<Rightarrow> initiator_session \<Rightarrow> int \<times> initiator_session" where
  "logout_command_i env cmd s =
    (case i_send env (iscsi_logout_cmd_encap cmd) s of (ok, s) \<Rightarrow> (if ok then 0 else -1, s))"

text \<open>\<^verbatim>\<open>logout_phase_i\<close> up to the wait for the answer; the tag goes into the logout command only.\<close>

definition logout_phase_i ::
  "ptr \<Rightarrow> initiator_session \<Rightarrow> int \<times> initiator_session" where
  "logout_phase_i p s =
    (let cmd = blank_logout_cmd\<lparr>oc_cid := i_cid s, oc_reason := ISCSI_LOGOUT_CLOSE_SESSION,
           oc_tag := i_tag s, oc_ExpStatSN := i_ExpStatSN s, oc_CmdSN := i_CmdSN s\<rparr>;
         s = s\<lparr>i_tag := i_tag s + 1, i_CmdSN := i_CmdSN s + 1\<rparr>;
         s = i_upd p (\<lambda>c. blank_initiator_cmd\<lparr>ic_type := ISCSI_LOGOUT_CMD, ic_ptr := Logout_Req cmd\<rparr>) s
     in if i_destroying s then (-1, s) else (0, i_wake_tx p s))"

definition blank_logout_rsp :: iscsi_logout_rsp_t where
  "blank_logout_rsp = \<lparr>or_response = 0, or_length = 0, or_tag = 0, or_StatSN = 0, or_ExpCmdSN = 0,
     or_MaxCmdSN = 0, or_Time2Wait = 0, or_Time2Retain = 0\<rparr>"

definition logout_response_i ::
  "'e initiator_env_scheme \<Rightarrow> ptr \<Rightarrow> header \<Rightarrow> initiator_session \<Rightarrow> i_outcome" where
  "logout_response_i env p h s =
    (let fail = (\<lambda>s. i_callback env p 0 (i_set_status p (-1) s))
     in if p = NULL then IReturn (-1) s
        else if ic_ptr (i_cmd_mem s p) = No_Req then fail s
        else case iscsi_logout_rsp_decap h blank_logout_rsp of
          (rc, rsp) \<Rightarrow>
            if rc \<noteq> 0 then fail s
            else if or_response rsp \<noteq> ISCSI_LOGOUT_STATUS_SUCCESS then fail s
            else (case ic_ptr (i_cmd_mem s p) of
              Logout_Req cmd \<Rightarrow>
                if or_tag rsp \<noteq> oc_tag cmd then fail s
                else if or_StatSN rsp \<noteq> i_ExpStatSN s then fail s
                else
                  let s = s\<lparr>i_ExpStatSN := i_ExpStatSN s + 1\<rparr>
                  in if or_ExpCmdSN rsp \<noteq> i_CmdSN s then fail s
                     else i_callback env p 0 (i_set_status p 0 (s\<lparr>i_MaxCmdSN := or_MaxCmdSN rsp\<rparr>))
            | _ \<Rightarrow> IUndef))"

subsection \<open>Text\<close>

definition text_command_i ::
  "'e initiator_env_scheme \<Rightarrow> iscsi_text_cmd_t \<Rightarrow> string \<Rightarrow> initiator_session \<Rightarrow>
   int \<times> iscsi_text_cmd_t \<times> initiator_session" where
  "text_command_i env cmd txt s =
    (let cmd = cmd\<lparr>xc_ExpStatSN := i_ExpStatSN s, xc_CmdSN := i_CmdSN s\<rparr>;
         s = s\<lparr>i_CmdSN := i_CmdSN s + 1\<rparr>
     in case i_send_header_and_data env (iscsi_text_cmd_encap cmd)
               (take (unat (xc_length cmd)) (chars_bytes txt)) s of
          (ok, s) \<Rightarrow> (if ok then 0 else -1, cmd, s))"

definition blank_text_rsp :: iscsi_text_rsp_t where
  "blank_text_rsp = \<lparr>xr_final = 0, xr_cont = 0, xr_length = 0, xr_lun = 0, xr_tag = 0,
     xr_transfer_tag = 0, xr_StatSN = 0, xr_ExpCmdSN = 0, xr_MaxCmdSN = 0\<rparr>"

text \<open>
  The text that arrived is parsed, and the answer to it becomes the text of the next command; it is
  copied into the command's buffer of \<open>n_text_room\<close> bytes.  \<open>k\<close> gets \<open>None\<close> on an error, else the
  new text, if it is replaced.
\<close>

definition text_answer ::
  "'e initiator_env_scheme \<Rightarrow> iscsi_text_rsp_t \<Rightarrow> string \<Rightarrow> initiator_session \<Rightarrow>
   (string option \<Rightarrow> initiator_session \<Rightarrow> i_outcome) \<Rightarrow> i_outcome" where
  "text_answer env rsp text_in s k =
    (case param_val_reset (i_params s) ''TargetName'' of
       (rc, ps) \<Rightarrow>
         if rc \<noteq> 0 then k None s
         else case param_val_reset ps ''TargetAddress'' of
           (rc', ps') \<Rightarrow>
             let s' = s\<lparr>i_text := (i_text s)\<lparr>s_params := if rc' \<noteq> 0 then ps else ps'\<rparr>\<rparr>
             in if rc' \<noteq> 0 then k None s'
                else i_parse_then env False text_in s' (\<lambda>rc s.
                  let out = s_out (i_text s)
                  in if rc \<noteq> 0 then k None s
                     else if out = [] then k (Some []) s
                     else if xr_final rsp \<noteq> 0 then k None s
                     else i_parse_then env True out s (\<lambda>rc s.
                       if rc \<noteq> 0 then k None s
                       else if n_text_room env < length out then IUndef
                       else k (Some out) s)))"

definition text_response_i ::
  "'e initiator_env_scheme \<Rightarrow> ptr \<Rightarrow> header \<Rightarrow> initiator_session \<Rightarrow> i_outcome" where
  "text_response_i env p h s =
    (let callback = (\<lambda>s. i_callback env p (if ic_status (i_cmd_mem s p) = -1 then -1 else 0) s);
         fail = (\<lambda>s. callback (i_set_status p (-1) s))
     in if p = NULL then IReturn (-1) s
        else case iscsi_text_rsp_decap h blank_text_rsp of
          (rc, rsp) \<Rightarrow>
            if rc \<noteq> 0 then fail s
            else (case ic_ptr (i_cmd_mem s p) of
              Text_Req cmd txt \<Rightarrow>
                let done = (\<lambda>cmd txt s.
                      callback (i_set_req p (Text_Req (cmd\<lparr>xc_final := xr_final rsp\<rparr>) txt) s))
                in if xr_tag rsp \<noteq> xc_tag cmd \<or> xr_transfer_tag rsp \<noteq> 0xffffffff \<or>
                      xr_StatSN rsp \<noteq> i_ExpStatSN s \<or> xr_ExpCmdSN rsp \<noteq> i_CmdSN s then fail s
                   else
                     let s = s\<lparr>i_ExpStatSN := xr_StatSN rsp + 1, i_text := (i_text s)\<lparr>s_out := []\<rparr>\<rparr>;
                         len = unat (xr_length rsp)
                     in if len \<noteq> 0 then
                          case i_recv len s of
                            (n, bytes, s) \<Rightarrow>
                              if n \<noteq> int len then fail s
                              else text_answer env rsp (bytes_text bytes) s (\<lambda>r s.
                                case r of
                                  None \<Rightarrow> fail s
                                | Some out \<Rightarrow>
                                    done (cmd\<lparr>xc_length := of_nat (length out)\<rparr>)
                                         (out @ drop (length out) txt) s)
                        else done cmd txt s
            | _ \<Rightarrow> IUndef))"

text \<open>
  \<^verbatim>\<open>full_feature_negotiation_phase_i\<close>, one round of its loop up to the wait: the first with a new
  command, the next ones with the text that \<^verbatim>\<open>text_response_i\<close> has left.
\<close>

definition negotiation_round ::
  "ptr \<Rightarrow> iscsi_text_cmd_t \<Rightarrow> string \<Rightarrow> initiator_session \<Rightarrow> int \<times> initiator_session" where
  "negotiation_round p cmd txt s =
    (let cmd = cmd\<lparr>xc_final := 1, xc_cont := 0, xc_tag := i_tag s, xc_transfer_tag := 0xffffffff\<rparr>;
         s = s\<lparr>i_tag := i_tag s + 1\<rparr>;
         s = i_upd p (\<lambda>c. c\<lparr>ic_type := ISCSI_TEXT_CMD, ic_ptr := Text_Req cmd txt\<rparr>) s
     in if i_destroying s then (-1, s)
        else case iscsi_queue_insert (i_tx_queue s) p of
               (rc, q) \<Rightarrow> (if rc \<noteq> 0 then -1 else 0, s\<lparr>i_tx_queue := q\<rparr>))"

definition full_feature_negotiation_phase_i ::
  "ptr \<Rightarrow> string \<Rightarrow> nat \<Rightarrow> initiator_session \<Rightarrow> int \<times> initiator_session" where
  "full_feature_negotiation_phase_i p txt len s =
    negotiation_round p (blank_text_cmd\<lparr>xc_length := of_nat len\<rparr>) txt
      (i_upd p (\<lambda>c. blank_initiator_cmd) s)"

subsection \<open>Login\<close>

definition login_command_i ::
  "'e initiator_env_scheme \<Rightarrow> iscsi_login_cmd_t \<Rightarrow> string \<Rightarrow> initiator_session \<Rightarrow>
   int \<times> iscsi_login_cmd_t \<times> initiator_session" where
  "login_command_i env cmd txt s =
    (let cmd = cmd\<lparr>lc_ExpStatSN := i_ExpStatSN s\<rparr>
     in case i_send_header_and_data env (iscsi_login_cmd_encap cmd)
               (take (unat (lc_length cmd)) (chars_bytes txt)) s of
          (ok, s) \<Rightarrow> (if ok then 0 else -1, cmd, s))"

text \<open>One round of the loop of \<^verbatim>\<open>login_phase_i\<close> up to the wait.\<close>

definition login_round ::
  "ptr \<Rightarrow> iscsi_login_cmd_t \<Rightarrow> string \<Rightarrow> initiator_session \<Rightarrow> int \<times> initiator_session" where
  "login_round p cmd txt s =
    (let s = s\<lparr>i_cid := ucast (i_isid s)\<rparr>;
         cmd = cmd\<lparr>lc_cont := 0, lc_version_min := ISCSI_VERSION, lc_version_max := ISCSI_VERSION,
                   lc_cid := i_cid s, lc_isid := i_isid s, lc_tsih := 0\<rparr>;
         s = i_upd p (\<lambda>c. c\<lparr>ic_type := ISCSI_LOGIN_CMD, ic_ptr := Login_Req cmd txt\<rparr>) s
     in if i_destroying s then (-1, s) else (0, i_wake_tx p s))"

definition login_phase_i ::
  "ptr \<Rightarrow> string \<Rightarrow> initiator_session \<Rightarrow> int \<times> initiator_session" where
  "login_phase_i p txt s =
    (let s = i_upd p (\<lambda>c. blank_initiator_cmd\<lparr>ic_tag := i_tag s\<rparr>) s;
         s = s\<lparr>i_tag := i_tag s + 1, i_CmdSN := 1\<rparr>
     in login_round p (blank_login_cmd\<lparr>lc_length := of_nat (length txt), lc_transit := 1,
          lc_csg := ISCSI_LOGIN_STAGE_SECURITY, lc_nsg := ISCSI_LOGIN_STAGE_NEGOTIATE, lc_CmdSN := 1\<rparr>) txt s)"

text \<open>After the wait: \<open>None\<close> ends the phase with a code, \<open>Some\<close> goes round again.\<close>

definition login_phase_next :: "ptr \<Rightarrow> initiator_session \<Rightarrow> int option" where
  "login_phase_next p s =
    (if ic_status (i_cmd_mem s p) \<noteq> 0 \<or> i_destroying s then Some (-1)
     else if i_logged_in s then Some 0 else None)"

text \<open>A redirection: \<^verbatim>\<open>TargetAddress\<close> is copied into 256 bytes and cut at the colon.\<close>

definition login_redirect :: "'e initiator_env_scheme \<Rightarrow> initiator_session \<Rightarrow> initiator_session option" where
  "login_redirect env s =
    (case param_val (i_params s) ''TargetAddress'' of
       None \<Rightarrow> None
     | Some address \<Rightarrow>
         if 256 \<le> length address then None
         else if n_fix_address env then Some (s\<lparr>i_redirected := True\<rparr>)
         else
           let ip = takeWhile (\<lambda>c. c \<noteq> CHR '':'') address;
               rest = dropWhile (\<lambda>c. c \<noteq> CHR '':'') address;
               s = (if rest \<noteq> [] then s\<lparr>i_port := iscsi_atoi (Some (tl rest))\<rparr> else s)
           in Some (s\<lparr>i_ip := ip, i_redirected := True\<rparr>))"

text \<open>
  The transition to the full-feature stage: \<open>None\<close> is an error.  \<^verbatim>\<open>g_target[sess->isid]\<close> is accessed
  with the identifier of the response, of which only the lower 32 bits have been compared.
\<close>

definition login_full_feature ::
  "iscsi_login_cmd_t \<Rightarrow> iscsi_login_rsp_t \<Rightarrow> initiator_session \<Rightarrow>
   (bool \<Rightarrow> initiator_session \<Rightarrow> i_outcome) \<Rightarrow> i_outcome" where
  "login_full_feature cmd rsp s k =
    (if lr_tsih rsp = 0 then k False s
     else if (ucast (lr_isid rsp) :: u32) \<noteq> ucast (lc_isid cmd) then k False s
     else if lr_ExpCmdSN rsp > lr_MaxCmdSN rsp then k False s
     else
       let s' = s\<lparr>i_CmdSN := lr_ExpCmdSN rsp, i_MaxCmdSN := lr_MaxCmdSN rsp,
                  i_tsih := lr_tsih rsp, i_isid := lr_isid rsp\<rparr>
       in if param_equiv (i_params s') ''SessionType'' ''Normal'' \<noteq> 0 \<and>
             param_equiv (i_params s') ''SessionType'' ''Discovery'' \<noteq> 0 then k False s'
          else if i_isid s' \<noteq> i_isid s then IUndef
          else k True (s'\<lparr>i_logged_in := True\<rparr>))"

text \<open>The response is good; \<open>k\<close> is the label \<open>callback\<close>, with \<open>False\<close> after \<^verbatim>\<open>LIR_ERROR\<close>.\<close>

definition login_accepted ::
  "'e initiator_env_scheme \<Rightarrow> ptr \<Rightarrow> iscsi_login_cmd_t \<Rightarrow> string \<Rightarrow> iscsi_login_rsp_t \<Rightarrow>
   initiator_session \<Rightarrow> (bool \<Rightarrow> initiator_session \<Rightarrow> i_outcome) \<Rightarrow> i_outcome" where
  "login_accepted env p cmd txt rsp s k =
    (let copy = (\<lambda>cmd s.
           let out = s_out (i_text s)
           in if n_text_room env < length out then IUndef
              else k True (i_set_req p (Login_Req (cmd\<lparr>lc_length := of_nat (length out)\<rparr>)
                                                 (out @ drop (length out) txt)) s))
     in if lr_transit rsp \<noteq> 0 then
          if lc_transit cmd \<noteq> 1 then k False s
          else if lr_nsg rsp = ISCSI_LOGIN_STAGE_NEGOTIATE then
            let cmd = cmd\<lparr>lc_csg := lc_nsg cmd, lc_nsg := ISCSI_LOGIN_STAGE_FULL_FEATURE\<rparr>;
                s = i_set_req p (Login_Req cmd txt) s
            in params_out env SESS_TYPE_NONE False s (\<lambda>rc s. if rc \<noteq> 0 then k False s else copy cmd s)
          else if lr_nsg rsp = ISCSI_LOGIN_STAGE_FULL_FEATURE then login_full_feature cmd rsp s k
          else k False s
        else if s_out (i_text s) \<noteq> [] then
          i_parse_then env True (s_out (i_text s)) s (\<lambda>rc s.
            if rc \<noteq> 0 then k False s
            else copy (if take 7 (s_out (i_text s)) = ''CHAP_N=''
                       then cmd\<lparr>lc_nsg := ISCSI_LOGIN_STAGE_NEGOTIATE, lc_transit := 1\<rparr> else cmd) s)
        else k True (i_set_req p (Login_Req (cmd\<lparr>lc_length := 0\<rparr>) txt) s))"

text \<open>
  The buffer of the received text has one byte more than the text, which the code does not set: a
  text whose last byte is not 0 is read past its end.
\<close>

definition login_response_i ::
  "'e initiator_env_scheme \<Rightarrow> ptr \<Rightarrow> header \<Rightarrow> initiator_session \<Rightarrow> i_outcome" where
  "login_response_i env p h s =
    (let callback = (\<lambda>ok s. i_callback env p 0 (if ok then s else i_set_status p (-1) s));
         s = s\<lparr>i_text := (i_text s)\<lparr>s_out := []\<rparr>\<rparr>
     in if p = NULL then IUndef
        else case iscsi_login_rsp_decap h blank_login_rsp of
          (rc, rsp) \<Rightarrow>
            let len = unat (lr_length rsp);
                checked = (\<lambda>s.
                  if lr_status_class rsp = 2 \<and> (lr_status_detail rsp = 1 \<or> lr_status_detail rsp = 2)
                  then callback False s
                  else if lr_status_class rsp \<noteq> 0 \<and> lr_status_detail rsp = 1 then
                    (case login_redirect env s of None \<Rightarrow> IUndef | Some s \<Rightarrow> callback False s)
                  else if lr_status_class rsp \<noteq> 0 then callback False s
                  else (case ic_ptr (i_cmd_mem s p) of
                    Login_Req cmd txt \<Rightarrow>
                      if lr_tag rsp \<noteq> lc_tag cmd then callback False s
                      else login_accepted env p cmd txt rsp
                             (s\<lparr>i_ExpStatSN := lr_StatSN rsp + 1\<rparr>) callback
                  | _ \<Rightarrow> IUndef))
            in if rc \<noteq> 0 then callback False s
               else if 8192 < len then IReturn (-1) s
               else if len \<noteq> 0 then
                 (case i_recv len s of
                   (n, bytes, s) \<Rightarrow>
                     if n \<noteq> int len then callback False s
                     else if hd (rev bytes) \<noteq> 0 then IUndef
                     else i_parse_then env False (bytes_text bytes) s (\<lambda>rc s.
                       if rc \<noteq> 0 then callback False s else checked s))
               else checked s)"

subsection \<open>Reject and asynchronous messages\<close>

definition blank_reject :: iscsi_reject_t where
  "blank_reject = \<lparr>rj_reason = 0, rj_length = 0, rj_StatSN = 0, rj_ExpCmdSN = 0, rj_MaxCmdSN = 0,
     rj_DataSN = 0\<rparr>"

text \<open>The bad header that follows is looked up by its tag; without a command, \<^verbatim>\<open>cmd->status\<close> is a null pointer access.\<close>

definition reject_i :: "'e initiator_env_scheme \<Rightarrow> header \<Rightarrow> initiator_session \<Rightarrow> i_outcome" where
  "reject_i env h s =
    (case iscsi_reject_decap h blank_reject of
       (rc, reject) \<Rightarrow>
         if rc \<noteq> 0 then IReturn (-1) s
         else if unat (rj_length reject) \<noteq> ISCSI_HEADER_LEN then IReturn (-1) s
         else case i_recv ISCSI_HEADER_LEN s of
           (n, bad_header, s) \<Rightarrow>
             if n \<noteq> int ISCSI_HEADER_LEN then IReturn (-1) s
             else
               let tag = ntohl (load32 bad_header 16)
               in if tag = 0xffffffff then IUndef
                  else (case hash_get (i_cmds s) tag of
                    None \<Rightarrow> IWaits s
                  | Some (p, cmds) \<Rightarrow>
                      let s = s\<lparr>i_cmds := cmds\<rparr>
                      in if p = NULL then IUndef
                         else if \<not> ic_tx_done (i_cmd_mem s p) then IWaits s
                         else i_callback env p 0 (i_set_status p (-1) s)))"

definition blank_amsg :: iscsi_amsg_t where
  "blank_amsg = \<lparr>am_AHSlength = 0, am_lun = 0, am_StatSN = 0, am_ExpCmdSN = 0, am_MaxCmdSN = 0,
     am_length = 0, am_AsyncEvent = 0, am_AsyncVCode = 0\<rparr>"

text \<open>
  Events 1 and 4 start a logout and wait for its end in the receiving thread itself.  \<open>fresh\<close> is
  the command that \<^verbatim>\<open>logout_phase_i\<close> allocates.
\<close>

definition async_msg_i :: "ptr \<Rightarrow> header \<Rightarrow> initiator_session \<Rightarrow> i_outcome" where
  "async_msg_i fresh h s =
    (case iscsi_amsg_decap h blank_amsg of
       (rc, msg) \<Rightarrow>
         if rc \<noteq> 0 then IReturn (-1) s
         else
           let s = s\<lparr>i_CmdSN := am_ExpCmdSN msg, i_MaxCmdSN := am_MaxCmdSN msg,
                     i_ExpStatSN := am_StatSN msg + 1\<rparr>;
               len = unat (am_length msg);
               event = am_AsyncEvent msg;
               react = (\<lambda>s.
                 if event = 1 \<or> event = 4 then
                   case logout_phase_i fresh s of
                     (rc, s) \<Rightarrow> if rc = 0 then IWaits s else IReturn (-1) s
                 else if event = 2 \<or> event = 3 then IReturn (-1) s
                 else IReturn 0 s)
           in if len \<noteq> 0 then
                case i_recv len s of
                  (n, _, s) \<Rightarrow> if n \<noteq> int len then IReturn (-1) s else react s
              else react s)"

end
