(* ===== verification/Initiator_Data.thy ===== *)
theory Initiator_Data
  imports Initiator_Session
begin

section \<open>SCSI commands on the initiator\<close>

text \<open>
  The functions of \<^verbatim>\<open>initiator.c\<close> that move the data of a SCSI command: the command with its
  immediate and unsolicited data (\<^verbatim>\<open>scsi_command_i\<close>), the data that R2Ts ask for (\<^verbatim>\<open>scsi_r2t_rx_i\<close>,
  \<^verbatim>\<open>scsi_r2t_tx_i\<close>), read data (\<^verbatim>\<open>scsi_read_data_i\<close>) and the response (\<^verbatim>\<open>scsi_response_i\<close>).  Offsets and
  lengths are 32-bit numbers and wrap around; the lengths of scatter lists are natural numbers as
  in \<open>Socket\<close>.
\<close>

definition i_scsi :: "ptr \<Rightarrow> initiator_session \<Rightarrow> initiator_scsi option" where
  "i_scsi p s = (case ic_ptr (i_cmd_mem s p) of Scsi_Req q \<Rightarrow> Some q | _ \<Rightarrow> None)"

definition upd_is_cmd ::
  "ptr \<Rightarrow> (iscsi_scsi_cmd_t \<Rightarrow> iscsi_scsi_cmd_t) \<Rightarrow> initiator_session \<Rightarrow> initiator_session" where
  "upd_is_cmd p f = i_upd p (\<lambda>c. case ic_ptr c of
     Scsi_Req q \<Rightarrow> c\<lparr>ic_ptr := Scsi_Req (q\<lparr>is_cmd := f (is_cmd q)\<rparr>)\<rparr> | _ \<Rightarrow> c)"

definition sent_todev :: "ptr \<Rightarrow> u32 \<Rightarrow> initiator_session \<Rightarrow> initiator_session" where
  "sent_todev p len = upd_is_cmd p (\<lambda>sc. sc\<lparr>sc_bytes_todev := sc_bytes_todev sc + len\<rparr>)"

text \<open>The data to be sent as a scatter list.\<close>

definition send_iov :: "initiator_scsi \<Rightarrow> iovec list" where
  "send_iov q =
    (if is_send_sg q \<noteq> [] then is_send_sg q
     else [\<lparr>iov_base = is_send_data q, iov_len = unat (sc_trans_len (is_cmd q))\<rparr>])"

text \<open>\<open>modify_iov\<close> on a copy of a scatter list.\<close>

definition sub_iov :: "iovec list \<Rightarrow> u32 \<Rightarrow> u32 \<Rightarrow> iovec list option" where
  "sub_iov sg offset len =
    (case modify_iov sg 0 (length sg) (unat offset) (unat len) of
       (rc, arr, p, n) \<Rightarrow> if rc \<noteq> 0 then None else Some (take n (drop p arr)))"

definition CONFIG_INITIATOR_MAX_SG :: nat where "CONFIG_INITIATOR_MAX_SG = 128"

definition MIN_3 :: "u32 \<Rightarrow> u32 \<Rightarrow> u32 \<Rightarrow> u32" where
  "MIN_3 a b c = (if a < b then if a < c then a else c else if b < c then b else c)"

subsection \<open>Commands\<close>

text \<open>How much immediate data goes with the command, and whether the F bit is set.\<close>

definition immediate_length :: "iscsi_sess_param \<Rightarrow> iscsi_scsi_cmd_t \<Rightarrow> u32" where
  "immediate_length sp sc =
    (if sc_todev sc \<noteq> 0 \<and> immediate_data sp then
       if max_data_seg_length sp \<noteq> 0 then MIN_u32 (max_data_seg_length sp) (sc_trans_len sc)
       else sc_trans_len sc
     else 0)"

definition command_final :: "iscsi_sess_param \<Rightarrow> iscsi_scsi_cmd_t \<Rightarrow> c_int" where
  "command_final sp sc =
    (if sc_todev sc \<noteq> 0 \<and> immediate_data sp \<and> immediate_length sp sc = sc_trans_len sc then 1
     else if initial_r2t sp then 1 else 0)"

text \<open>The command as it is sent.\<close>

definition prepared_command :: "initiator_session \<Rightarrow> iscsi_scsi_cmd_t \<Rightarrow> iscsi_scsi_cmd_t" where
  "prepared_command s sc =
    sc\<lparr>sc_status := 0, sc_ExpStatSN := i_ExpStatSN s, sc_CmdSN := i_CmdSN s, sc_bytes_todev := 0,
       sc_bytes_fromdev := 0, sc_length := immediate_length (i_sess_params s) sc,
       sc_final := command_final (i_sess_params s) sc\<rparr>"

text \<open>The length of the next unsolicited data PDU.\<close>

definition unsolicited_length :: "iscsi_sess_param \<Rightarrow> iscsi_scsi_cmd_t \<Rightarrow> u32" where
  "unsolicited_length sp sc =
    (let seg = max_data_seg_length sp; first = first_burst_length sp;
         rest = sc_trans_len sc - sc_bytes_todev sc; burst = first - sc_bytes_todev sc
     in if seg \<noteq> 0 then if first \<noteq> 0 then MIN_3 burst seg rest else MIN_u32 seg rest
        else if first \<noteq> 0 then MIN_u32 burst rest else rest)"

definition unsolicited_pdu ::
  "initiator_session \<Rightarrow> iscsi_scsi_cmd_t \<Rightarrow> u32 \<Rightarrow> u32 \<Rightarrow> iscsi_write_data_t" where
  "unsolicited_pdu s sc len DataSN =
    blank_write_data
      \<lparr>wd_length := len,
       wd_final := (if sc_bytes_todev sc + len = sc_trans_len sc \<or>
                       sc_bytes_todev sc + len \<ge> first_burst_length (i_sess_params s) then 1 else 0),
       wd_tag := sc_tag sc, wd_transfer_tag := 0xffffffff, wd_ExpStatSN := i_ExpStatSN s,
       wd_DataSN := DataSN, wd_offset := sc_bytes_todev sc\<rparr>"

text \<open>
  The loop over unsolicited data PDUs: \<open>Inl\<close> leaves the function with a code, \<open>Inr\<close> goes on behind
  the loop.
\<close>

partial_function (option) unsolicited_loop ::
  "'e initiator_env_scheme \<Rightarrow> ptr \<Rightarrow> iovec list \<Rightarrow> u32 \<Rightarrow> initiator_session \<Rightarrow>
   (i_outcome + initiator_session) option" where
  [code]: "unsolicited_loop env p sg DataSN s =
    (case i_scsi p s of
       None \<Rightarrow> Some (Inl IUndef)
     | Some q \<Rightarrow>
         let sc = is_cmd q; sp = i_sess_params s;
             len = unsolicited_length sp sc
         in if len = 0 then Some (Inl (IReturn (-1) s))
            else if len \<noteq> sc_trans_len sc \<and> CONFIG_INITIATOR_MAX_SG < length sg then Some (Inl (IExits s))
            else (case (if len \<noteq> sc_trans_len sc then sub_iov sg (sc_bytes_todev sc) len else Some sg) of
              None \<Rightarrow> Some (Inl (IReturn (-1) s))
            | Some vs \<Rightarrow>
                case i_send_header_and_iov env (iscsi_write_data_encap (unsolicited_pdu s sc len DataSN))
                       (unat len) vs s of
                  (ok, s) \<Rightarrow>
                    if \<not> ok then Some (Inl (IReturn (-1) s))
                    else
                      let todev = sc_bytes_todev sc + len; first = first_burst_length sp
                      in if todev < sc_trans_len sc \<and> (todev < first \<or> first = 0)
                         then unsolicited_loop env p sg (DataSN + 1) (sent_todev p len s)
                         else Some (Inr (sent_todev p len s))))"

text \<open>
  The command PDU, its additional header segments (\<^verbatim>\<open>scsi_cmd->ahs\<close> is an array, hence never NULL)
  and its immediate data.
\<close>

definition send_command ::
  "'e initiator_env_scheme \<Rightarrow> ptr \<Rightarrow> iscsi_scsi_cmd_t \<Rightarrow> iovec list \<Rightarrow> initiator_session \<Rightarrow>
   bool \<times> initiator_session" where
  "send_command env p sc sg s =
    (let h = iscsi_scsi_cmd_encap sc; ahs = take (unat (sc_ahs_len sc)) (sc_ahs sc)
     in if sc_length sc \<noteq> 0 \<and> immediate_data (i_sess_params s) then
          case sub_iov sg 0 (sc_length sc) of
            None \<Rightarrow> (False, s)
          | Some vs \<Rightarrow>
              case i_send env h s of
                (ok, s) \<Rightarrow>
                  if \<not> ok then (False, s)
                  else case i_send env ahs s of
                    (ok, s) \<Rightarrow>
                      if \<not> ok then (False, s)
                      else case i_send_iov env (unat (sc_length sc)) vs s of
                        (ok, s) \<Rightarrow> if ok then (True, sent_todev p (sc_length sc) s) else (False, s)
        else
          case i_send env h s of (ok, s) \<Rightarrow> if ok then i_send env ahs s else (False, s))"

definition scsi_command_i :: "'e initiator_env_scheme \<Rightarrow> ptr \<Rightarrow> initiator_session \<Rightarrow> i_outcome" where
  "scsi_command_i env p s =
    (case i_scsi p s of
       None \<Rightarrow> IUndef
     | Some q \<Rightarrow>
         let sp = i_sess_params s
         in if sc_bytes_todev (is_cmd q) \<noteq> 0 then IReturn (-1) s
            else
              let s = upd_is_cmd p (\<lambda>sc. sc\<lparr>sc_status := 0\<rparr>) s
              in if max_burst_length sp = 0 then IReturn (-1) s
                 else if \<not> unat (i_isid s) < n_num_targets env then IReturn (-1) s
                 else if sc_length (is_cmd q) > sc_trans_len (is_cmd q) then IReturn (-1) s
                 else
                   let sc = prepared_command s (is_cmd q);
                       s = upd_is_cmd p (\<lambda>_. sc) s;
                       sg = (if sc_todev sc \<noteq> 0 then send_iov q else [])
                   in case send_command env p sc sg s of
                        (ok, s) \<Rightarrow>
                          let todev = (if sc_length sc \<noteq> 0 \<and> immediate_data sp then sc_length sc else 0);
                              finish = (\<lambda>s. IReturn 0 (s\<lparr>i_CmdSN := i_CmdSN s + 1\<rparr>))
                          in if \<not> ok then IReturn (-1) s
                             else if sc_todev sc \<noteq> 0 \<and> \<not> initial_r2t sp \<and> todev \<noteq> sc_trans_len sc \<and>
                                     (first_burst_length sp = 0 \<or> todev < first_burst_length sp)
                             then (case unsolicited_loop env p sg 0 s of
                                     None \<Rightarrow> IDiverges
                                   | Some (Inl r) \<Rightarrow> r
                                   | Some (Inr s) \<Rightarrow> finish s)
                             else finish s)"

subsection \<open>Data that was asked for\<close>

text \<open>The command keeps one R2T; a second one replaces the first.\<close>

definition scsi_r2t_rx_i :: "ptr \<Rightarrow> header \<Rightarrow> initiator_session \<Rightarrow> i_outcome" where
  "scsi_r2t_rx_i p h s =
    (if p = NULL then IUndef
     else
       let many = (ic_r2t_request (i_cmd_mem s p) > 1);
           s = i_upd p (\<lambda>c. c\<lparr>ic_r2t_request := ic_r2t_request c + 1\<rparr>) s
       in if many then IReturn (-1) s
          else case iscsi_r2t_decap h (ic_r2t (i_cmd_mem s p)) of
            (rc, r2t) \<Rightarrow>
              let s = i_upd p (\<lambda>c. c\<lparr>ic_r2t := r2t\<rparr>) s
              in if rc \<noteq> 0 then IReturn (-1) s
                 else (case i_scsi p s of
                   None \<Rightarrow> IUndef
                 | Some q \<Rightarrow>
                     if r2_offset r2t + r2_length r2t = sc_trans_len (is_cmd q) then
                       (case hash_remove (i_cmds s) (ic_tag (i_cmd_mem s p)) of
                         None \<Rightarrow> IWaits s
                       | Some (obj, cmds) \<Rightarrow>
                           let s = s\<lparr>i_cmds := cmds\<rparr>
                           in if obj = NULL then IReturn (-1) s else IReturn 0 (i_wake_tx p s))
                     else IReturn 0 (i_wake_tx p s)))"

definition r2t_data_length :: "iscsi_sess_param \<Rightarrow> iscsi_r2t_t \<Rightarrow> u32 \<Rightarrow> u32" where
  "r2t_data_length sp r2t done =
    (if max_data_seg_length sp \<noteq> 0 then MIN_u32 (max_data_seg_length sp) (r2_length r2t - done)
     else r2_length r2t - done)"

definition r2t_data_pdu ::
  "initiator_session \<Rightarrow> iscsi_scsi_cmd_t \<Rightarrow> iscsi_r2t_t \<Rightarrow> u32 \<Rightarrow> u32 \<Rightarrow> u32 \<Rightarrow> iscsi_write_data_t" where
  "r2t_data_pdu s sc r2t len done DataSN =
    blank_write_data
      \<lparr>wd_length := len, wd_final := (if done + len = r2_length r2t then 1 else 0),
       wd_tag := r2_tag r2t, wd_transfer_tag := r2_transfer_tag r2t, wd_ExpStatSN := i_ExpStatSN s,
       wd_DataSN := DataSN, wd_offset := r2_offset r2t + done, wd_lun := sc_lun sc\<rparr>"

text \<open>
  The loop over the data PDUs of an R2T, \<open>done\<close> bytes of which are sent.  The whole scatter list is
  used, unchanged, if one PDU carries all of the R2T and the R2T starts at offset 0.
\<close>

partial_function (option) r2t_data_loop ::
  "'e initiator_env_scheme \<Rightarrow> ptr \<Rightarrow> iscsi_r2t_t \<Rightarrow> iovec list \<Rightarrow> u32 \<Rightarrow> u32 \<Rightarrow> initiator_session \<Rightarrow>
   i_outcome option" where
  [code]: "r2t_data_loop env p r2t sg done DataSN s =
    (case i_scsi p s of
       None \<Rightarrow> Some IUndef
     | Some q \<Rightarrow>
         let len = r2t_data_length (i_sess_params s) r2t done;
             cut = (len < r2_length r2t \<or> r2_offset r2t \<noteq> 0)
         in if cut \<and> CONFIG_INITIATOR_MAX_SG < length sg then Some (IExits s)
            else (case (if cut then sub_iov sg (r2_offset r2t + done) len else Some sg) of
              None \<Rightarrow> Some (IReturn (-1) s)
            | Some vs \<Rightarrow>
                case i_send_header_and_iov env
                       (iscsi_write_data_encap (r2t_data_pdu s (is_cmd q) r2t len done DataSN))
                       (unat len) vs s of
                  (ok, s) \<Rightarrow>
                    if \<not> ok then Some (IReturn (-1) s)
                    else if done + len < r2_length r2t
                    then r2t_data_loop env p r2t sg (done + len) (DataSN + 1) (sent_todev p len s)
                    else Some (IReturn 0 (sent_todev p len s))))"

definition scsi_r2t_tx_i :: "'e initiator_env_scheme \<Rightarrow> ptr \<Rightarrow> initiator_session \<Rightarrow> i_outcome" where
  "scsi_r2t_tx_i env p s =
    (let c = i_cmd_mem s p; r2t = ic_r2t c
     in if p = NULL \<or> ic_ptr c = No_Req then IReturn (-1) s
        else case i_scsi p s of
          None \<Rightarrow> IUndef
        | Some q \<Rightarrow>
            if is_send_sg q = [] \<and> is_send_data q = NULL then IReturn (-1) s
            else if ic_tag c \<noteq> sc_tag (is_cmd q) then IReturn (-1) s
            else if r2_length r2t = 0 then IReturn (-1) s
            else (case r2t_data_loop env p r2t (send_iov q) 0 0 (s\<lparr>i_MaxCmdSN := r2_MaxCmdSN r2t\<rparr>) of
                    None \<Rightarrow> IDiverges
                  | Some r \<Rightarrow> r))"

subsection \<open>Read data\<close>

definition blank_read_data :: iscsi_read_data_t where
  "blank_read_data = \<lparr>rd_final = 0, rd_ack = 0, rd_overflow = 0, rd_underflow = 0, rd_S_bit = 0,
     rd_status = 0, rd_length = 0, rd_lun = 0, rd_task_tag = 0, rd_transfer_tag = 0, rd_StatSN = 0,
     rd_ExpCmdSN = 0, rd_MaxCmdSN = 0, rd_DataSN = 0, rd_offset = 0, rd_res_count = 0\<rparr>"

text \<open>
  The part of a scatter list for \<open>len\<close> bytes at an offset, found by two loops like those of
  \<^verbatim>\<open>modify_iov\<close>, but without their checks: \<open>None\<close> is an access behind the end of the list.
\<close>

definition read_view :: "iovec list \<Rightarrow> nat \<Rightarrow> nat \<Rightarrow> iovec list option" where
  "read_view sg offset len =
    (case find_offset sg 0 0 offset offset of
       None \<Rightarrow> None
     | Some (i, disp) \<Rightarrow>
         let v = sg ! i;
             sg = drop i (sg[i := v\<lparr>iov_len := iov_len v - disp, iov_base := iov_base v + disp\<rparr>])
         in (case find_end sg 0 0 len of
               None \<Rightarrow> None
             | Some (i, stop) \<Rightarrow>
                 let v = sg ! i
                 in Some (take (i + 1) (sg[i := v\<lparr>iov_len := iov_len v - (stop - len)\<rparr>]))))"

text \<open>A read into a scatter list.\<close>

definition i_recv_iov :: "nat \<Rightarrow> iovec list \<Rightarrow> initiator_session \<Rightarrow> int \<times> initiator_session" where
  "i_recv_iov len vs s =
    (if (\<exists>v\<in>set vs. iov_base v = NULL) \<or> iovs_len vs \<noteq> len then (-1, s)
     else case i_recv len s of
            (n, bytes, s) \<Rightarrow> (n, s\<lparr>i_mem := put_mem (iovs_addrs vs) bytes (i_mem s)\<rparr>))"

text \<open>
  The data of a PDU: \<open>Inl\<close> leaves the handler.  Without a scatter list the loop of the code ends after
  one round whatever was read, since it counts \<^verbatim>\<open>data.length\<close> bytes for any read that does not fail.
\<close>

definition read_data_into ::
  "initiator_scsi \<Rightarrow> u32 \<Rightarrow> u32 \<Rightarrow> ptr \<Rightarrow> initiator_session \<Rightarrow> i_outcome + initiator_session" where
  "read_data_into q offset dlen p s =
    (let count = upd_is_cmd p (\<lambda>sc. sc\<lparr>sc_bytes_fromdev := sc_bytes_fromdev sc + dlen\<rparr>);
         len = unat dlen
     in if is_recv_sg q \<noteq> [] then
          (case (if dlen \<noteq> sc_trans_len (is_cmd q) then read_view (is_recv_sg q) (unat offset) len
                else Some (is_recv_sg q)) of
            None \<Rightarrow> Inl IUndef
          | Some vs \<Rightarrow>
              case i_recv_iov len vs s of
                (n, s) \<Rightarrow> if n \<noteq> int len then Inl (IReturn (-1) s) else Inr (count s))
        else if len = 0 then Inr s
        else case i_recv_iov len [\<lparr>iov_base = is_recv_data q + unat offset, iov_len = len\<rparr>] s of
               (n, s) \<Rightarrow> if n < 0 then Inl (IReturn (-1) s) else Inr (count s))"

text \<open>\<^verbatim>\<open>WARN_NOT_EQUAL("StatSN", data.StatSN, sess->ExpStatSN++)\<close> evaluates its argument twice if the numbers differ.\<close>

definition scsi_read_data_i ::
  "'e initiator_env_scheme \<Rightarrow> ptr \<Rightarrow> header \<Rightarrow> initiator_session \<Rightarrow> i_outcome" where
  "scsi_read_data_i env p h s =
    (let failed = (\<lambda>s. bind_i (iscsi_done_i env p (i_set_status p (-1) s)) (\<lambda>_ s. IReturn (-1) s));
         seg = max_data_seg_length (i_sess_params s)
     in if p = NULL then IUndef
        else if ic_ptr (i_cmd_mem s p) = No_Req then failed s
        else case iscsi_read_data_decap h blank_read_data of
          (rc, data) \<Rightarrow>
            if rc \<noteq> 0 then failed s
            else if ic_type (i_cmd_mem s p) \<noteq> ISCSI_SCSI_CMD then failed s
            else (case i_scsi p s of
              None \<Rightarrow> IUndef
            | Some q \<Rightarrow>
                if seg \<noteq> 0 \<and> rd_length data > seg then failed s
                else (case read_data_into q (rd_offset data) (rd_length data) p
                            (s\<lparr>i_MaxCmdSN := rd_MaxCmdSN data\<rparr>) of
                  Inl r \<Rightarrow> r
                | Inr s \<Rightarrow>
                    if rd_S_bit data = 0 then IReturn 0 s
                    else if rd_final data \<noteq> 1 then IReturn (-1) s
                    else
                      let step = (if rd_StatSN data \<noteq> i_ExpStatSN s then 2 else 1);
                          s = s\<lparr>i_ExpStatSN := i_ExpStatSN s + step\<rparr>;
                          s = upd_is_cmd p (\<lambda>sc. sc\<lparr>sc_status := 0\<rparr>) s
                      in i_callback env p 0 (i_set_status p 0 s))))"

subsection \<open>Response\<close>

definition blank_scsi_rsp :: iscsi_scsi_rsp_t where
  "blank_scsi_rsp = \<lparr>sr_bidi_overflow = 0, sr_bidi_underflow = 0, sr_overflow = 0, sr_underflow = 0,
     sr_response = 0, sr_status = 0, sr_ahs_len = 0, sr_length = 0, sr_tag = 0, sr_StatSN = 0,
     sr_ExpCmdSN = 0, sr_MaxCmdSN = 0, sr_ExpDataSN = 0, sr_bidi_res_cnt = 0, sr_basic_res_cnt = 0\<rparr>"

definition scsi_response_i ::
  "'e initiator_env_scheme \<Rightarrow> ptr \<Rightarrow> header \<Rightarrow> initiator_session \<Rightarrow> i_outcome" where
  "scsi_response_i env p h s =
    (let complete = (\<lambda>v rc s. bind_i (iscsi_done_i env p (i_set_status p v s)) (\<lambda>_ s. IReturn rc s));
         failed = complete (-1) (-1);
         seg = max_data_seg_length (i_sess_params s)
     in if p = NULL \<or> ic_ptr (i_cmd_mem s p) = No_Req then IReturn (-1) s
        else case iscsi_scsi_rsp_decap h blank_scsi_rsp of
          (rc, rsp) \<Rightarrow>
            if rc \<noteq> 0 then IReturn (-1) s
            else if sr_bidi_overflow rsp \<noteq> 0 \<or> sr_bidi_underflow rsp \<noteq> 0 \<or> sr_overflow rsp \<noteq> 0 \<or>
                    sr_response rsp \<noteq> 0 then failed s
            else (case i_scsi p s of
              None \<Rightarrow> IUndef
            | Some q \<Rightarrow>
                let sc = is_cmd q;
                    good = (\<lambda>s. complete 0 0 (upd_is_cmd p (\<lambda>sc. sc\<lparr>sc_status := sr_status rsp\<rparr>) s))
                in if sr_tag rsp \<noteq> sc_tag sc then failed s
                   else if sr_bidi_res_cnt rsp \<noteq> 0 then failed s
                   else
                     let s = s\<lparr>i_ExpStatSN := sr_StatSN rsp + 1\<rparr>
                     in if seg \<noteq> 0 \<and> sr_length rsp > seg then failed s
                        else if sr_status rsp = 0 \<and> sr_length rsp \<noteq> 0 then IReturn (-1) s
                        else
                          let s = s\<lparr>i_MaxCmdSN := sr_MaxCmdSN rsp\<rparr>
                          in if sr_status rsp = 0 then
                               if sc_todev sc \<noteq> 0 \<and>
                                  (sc_bytes_todev sc \<noteq> sc_trans_len sc \<or>
                                   sc_fromdev sc \<noteq> 0 \<and> sc_bytes_fromdev sc \<noteq> sc_bidi_trans_len sc)
                               then failed s
                               else good s
                             else if sr_length rsp \<noteq> 0 then
                               case i_recv (unat (sr_length rsp)) s of
                                 (n, _, s) \<Rightarrow>
                                   if n \<noteq> int (unat (sr_length rsp)) then IReturn (-1) s else good s
                             else good s))"

end
