(* ===== verification/Initiator_Worker.thy ===== *)
theory Initiator_Worker
  imports Initiator_Control Initiator_Data
begin

section \<open>The two threads of a session\<close>

text \<open>
  \<^verbatim>\<open>tx_worker_proc_i\<close> takes commands off the queue, enters them in the table of outstanding commands
  and sends them; \<^verbatim>\<open>rx_worker_proc_i\<close> reads PDUs, finds their commands in the table and handles
  them.  A step is one round of a thread's loop: it returns 0 if the thread goes on, -1 if it ends
  because of an error; \<open>IWaits\<close> says that the thread cannot go on in this state.  \<open>session_step\<close> lets
  the two threads, the clients and the peer take turns.
\<close>

subsection \<open>Sending\<close>

definition tx_failure :: "initiator_session \<Rightarrow> i_outcome" where
  "tx_failure s = IReturn (-1) (s\<lparr>i_error := True\<rparr>)"

text \<open>The command is given the tag of \<^verbatim>\<open>INITIATOR_CMD_T\<close> and sent.\<close>

definition tx_scsi :: "'e initiator_env_scheme \<Rightarrow> ptr \<Rightarrow> initiator_session \<Rightarrow> i_outcome" where
  "tx_scsi env p s =
    (let c = i_cmd_mem s p;
         s = upd_is_cmd p (\<lambda>sc. sc\<lparr>sc_tag := ic_tag c\<rparr>) s
     in case i_scsi p s of
          None \<Rightarrow> IUndef
        | Some q \<Rightarrow>
            if ic_r2t_request c \<noteq> 0 then
              bind_i (scsi_r2t_tx_i env p s) (\<lambda>rc s.
                if rc \<noteq> 0 then tx_failure s
                else IReturn 0 (i_upd p (\<lambda>c. c\<lparr>ic_r2t_request := ic_r2t_request c - 1\<rparr>) s))
            else if sc_bytes_todev (is_cmd q) \<noteq> 0 then tx_failure s
            else bind_i (scsi_command_i env p s) (\<lambda>rc s. if rc \<noteq> 0 then tx_failure s else IReturn 0 s))"

definition tx_execute :: "'e initiator_env_scheme \<Rightarrow> ptr \<Rightarrow> initiator_session \<Rightarrow> i_outcome" where
  "tx_execute env p s =
    (let c = i_cmd_mem s p; type = ic_type c;
         sent = (\<lambda>rc s. if rc \<noteq> 0 then tx_failure s else IReturn 0 s)
     in if type = ISCSI_LOGIN_CMD then
          (case ic_ptr c of
            Login_Req cmd txt \<Rightarrow>
              (case login_command_i env (cmd\<lparr>lc_tag := ic_tag c\<rparr>) txt s of
                 (rc, cmd, s) \<Rightarrow> sent rc (i_set_req p (Login_Req cmd txt) s))
          | _ \<Rightarrow> IUndef)
        else if type = ISCSI_TEXT_CMD then
          (case ic_ptr c of
            Text_Req cmd txt \<Rightarrow>
              (case text_command_i env (cmd\<lparr>xc_tag := ic_tag c\<rparr>) txt s of
                 (rc, cmd, s) \<Rightarrow> sent rc (i_set_req p (Text_Req cmd txt) s))
          | _ \<Rightarrow> IUndef)
        else if type = ISCSI_SCSI_CMD then tx_scsi env p s
        else if type = ISCSI_NOP_OUT then
          (case ic_ptr c of
            Nop_Req nop data \<Rightarrow>
              let nop = (if no_tag nop \<noteq> 0xffffffff
                         then nop\<lparr>no_tag := ic_tag c, no_transfer_tag := 0xffffffff\<rparr> else nop)
              in (case nop_out_i env nop data s of
                    (rc, nop, s) \<Rightarrow>
                      let s = i_set_req p (Nop_Req nop data) s
                      in sent rc (if rc = 0 then i_set_status p 0 s else s))
          | _ \<Rightarrow> IUndef)
        else if type = ISCSI_LOGOUT_CMD then
          (case ic_ptr c of
            Logout_Req cmd \<Rightarrow>
              let cmd = cmd\<lparr>oc_tag := ic_tag c\<rparr>
              in (case logout_command_i env cmd s of (rc, s) \<Rightarrow> sent rc (i_set_req p (Logout_Req cmd) s))
          | _ \<Rightarrow> IUndef)
        else IReturn 0 (i_set_status p (-1) s))"

text \<open>A NOP-Out that wants no answer is completed here, all others by the answer.\<close>

definition tx_finish :: "'e initiator_env_scheme \<Rightarrow> ptr \<Rightarrow> initiator_session \<Rightarrow> i_outcome" where
  "tx_finish env p s =
    (let no_answer = (case ic_ptr (i_cmd_mem s p) of
           Nop_Req nop _ \<Rightarrow> no_tag nop = 0xffffffff | _ \<Rightarrow> False)
     in if ic_type (i_cmd_mem s p) = ISCSI_NOP_OUT \<and> no_answer then
          bind_i (iscsi_done_i env p s) (\<lambda>rc s. if rc \<noteq> 0 then tx_failure s else IReturn 0 s)
        else IReturn 0 (i_upd p (\<lambda>c. c\<lparr>ic_tx_done := True\<rparr>) s))"

definition early_command :: "byte \<Rightarrow> bool" where
  "early_command type \<longleftrightarrow> type = ISCSI_LOGIN_CMD \<or> type = ISCSI_TEXT_CMD \<or> type = ISCSI_LOGOUT_CMD"

definition tx_step :: "'e initiator_env_scheme \<Rightarrow> initiator_session \<Rightarrow> i_outcome" where
  "tx_step env s =
    (if iscsi_queue_depth (i_tx_queue s) \<noteq> 0 then
       case iscsi_queue_remove (i_tx_queue s) of
         (p, q) \<Rightarrow>
           let s = s\<lparr>i_tx_queue := q\<rparr>; c = i_cmd_mem s p
           in if p = NULL then tx_failure s
              else if \<not> i_full_feature s \<and> \<not> early_command (ic_type c) then
                (case iscsi_queue_insert q p of
                   (rc, q) \<Rightarrow> if rc \<noteq> 0 then tx_failure s else IReturn 0 (s\<lparr>i_tx_queue := q\<rparr>))
              else (case hash_get (i_cmds s) (ic_tag c) of
                None \<Rightarrow> IWaits s
              | Some (obj, cmds) \<Rightarrow>
                  let go = (\<lambda>s.
                        if ic_aborted c then IReturn 0 s
                        else bind_i (tx_execute env p (i_upd p (\<lambda>c. c\<lparr>ic_tx_done := False\<rparr>) s)) (\<lambda>rc s.
                          if rc \<noteq> 0 then IReturn rc s else tx_finish env p s))
                  in if obj \<noteq> NULL then go (s\<lparr>i_cmds := cmds\<rparr>)
                     else case hash_put cmds p p (ic_tag c) of
                       None \<Rightarrow> IWaits s
                     | Some (rc, cmds) \<Rightarrow>
                         if rc \<noteq> 0 then IReturn (-1) (s\<lparr>i_cmds := cmds\<rparr>) else go (s\<lparr>i_cmds := cmds\<rparr>))
     else if i_nop_out_waiting s then
       case nop_out_i env (i_nop_out s) [] s of
         (rc, nop, s) \<Rightarrow>
           let s = s\<lparr>i_nop_out := nop\<rparr>
           in if rc \<noteq> 0 then tx_failure s else IReturn 0 (s\<lparr>i_nop_out_waiting := False\<rparr>)
     else IWaits s)"

subsection \<open>Receiving\<close>

definition rx_execute ::
  "'e initiator_env_scheme \<Rightarrow> ptr \<Rightarrow> ptr \<Rightarrow> header \<Rightarrow> initiator_session \<Rightarrow> i_outcome" where
  "rx_execute env fresh p h s =
    (let op = iscsi_opcode h
     in if op = ISCSI_SCSI_RSP then scsi_response_i env p h s
        else if op = ISCSI_READ_DATA then scsi_read_data_i env p h s
        else if op = ISCSI_R2T then scsi_r2t_rx_i p h s
        else if op = ISCSI_NOP_IN then nop_in_i env p h s
        else if op = ISCSI_LOGIN_RSP then login_response_i env p h s
        else if op = ISCSI_TEXT_RSP then text_response_i env p h s
        else if op = ISCSI_LOGOUT_RSP then logout_response_i env p h s
        else if op = ISCSI_REJECT then reject_i env h s
        else if op = ISCSI_ASYNC then async_msg_i fresh h s
        else IReturn (-1) s)"

definition rx_dispatch ::
  "'e initiator_env_scheme \<Rightarrow> ptr \<Rightarrow> ptr \<Rightarrow> header \<Rightarrow> initiator_session \<Rightarrow> i_outcome" where
  "rx_dispatch env fresh p h s =
    bind_i (rx_execute env fresh p h s) (\<lambda>rc s. if rc \<noteq> 0 then tx_failure s else IReturn 0 s)"

definition rx_step :: "'e initiator_env_scheme \<Rightarrow> ptr \<Rightarrow> initiator_session \<Rightarrow> i_outcome" where
  "rx_step env fresh s =
    (case i_recv ISCSI_HEADER_LEN s of
       (n, h, s) \<Rightarrow>
         if n \<noteq> int ISCSI_HEADER_LEN then tx_failure s
         else if iscsi_opcode h = ISCSI_REJECT \<or> iscsi_opcode h = ISCSI_ASYNC then
           rx_dispatch env fresh NULL h s
         else case hash_get (i_cmds s) (ntohl (load32 h 16)) of
           None \<Rightarrow> IWaits s
         | Some (p, cmds) \<Rightarrow>
             let s = s\<lparr>i_cmds := cmds\<rparr>
             in if p = NULL then
                  if iscsi_opcode h \<noteq> ISCSI_NOP_IN then tx_failure s else rx_dispatch env fresh NULL h s
                else if \<not> ic_tx_done (i_cmd_mem s p) then IWaits s
                else rx_dispatch env fresh p h s)"

text \<open>The loop of the thread: it ends at the first error.\<close>

fun rx_rounds :: "'e initiator_env_scheme \<Rightarrow> ptr \<Rightarrow> nat \<Rightarrow> initiator_session \<Rightarrow> i_outcome" where
  "rx_rounds env fresh 0 s = IReturn 0 s"
| "rx_rounds env fresh (Suc n) s =
    bind_i (rx_step env fresh s) (\<lambda>rc s. if rc \<noteq> 0 then IReturn rc s else rx_rounds env fresh n s)"

subsection \<open>The session as a whole\<close>

text \<open>
  One step of the session: a client queues a command in memory that is not in use, one of the
  threads goes once round its loop, a client aborts a command, or bytes of the peer arrive.
\<close>

inductive session_step :: "'e initiator_env_scheme \<Rightarrow> initiator_session \<Rightarrow> initiator_session \<Rightarrow> bool"
  for env where
  enqueue: "initiator_enqueue env type req p s = IReturn rc s' \<Longrightarrow> p \<noteq> NULL \<Longrightarrow> session_step env s s'"
| sending: "tx_step env s = IReturn rc s' \<Longrightarrow> session_step env s s'"
| receiving: "rx_step env fresh s = IReturn rc s' \<Longrightarrow> session_step env s s'"
| abort: "initiator_abort env p s = IReturn rc s' \<Longrightarrow> session_step env s s'"
| arrival: "session_step env s (s\<lparr>i_in := i_in s @ bytes\<rparr>)"

end
