(* ===== verification/Initiator_Transfer.thy ===== *)
theory Initiator_Transfer
  imports Initiator_Worker
begin

section \<open>The write data of an initiator\<close>

text \<open>
  The loops of \<open>Initiator_Data\<close> that send write data, against the reference \<open>pieces\<close>: each sends one
  header and one message of data per piece.
\<close>

subsection \<open>Messages that are sent\<close>

definition i_sent :: "nat \<Rightarrow> byte list list \<Rightarrow> initiator_session \<Rightarrow> initiator_session" where
  "i_sent n msgs s = s\<lparr>i_sends := i_sends s + n, i_out := i_out s @ msgs\<rparr>"

definition i_sends_ok :: "'e initiator_env_scheme \<Rightarrow> nat \<Rightarrow> initiator_session \<Rightarrow> bool" where
  "i_sends_ok env n s \<longleftrightarrow> (\<forall>i<n. n_send_ok env (i_sends s + i))"

lemma i_send_ok:
  "n_send_ok env (i_sends s) \<Longrightarrow> msg \<noteq> [] \<Longrightarrow> i_send env msg s = (True, i_sent 1 [msg] s)"
  by (simp add: i_send_def i_sent_def)

lemma i_sends_okD: "i_sends_ok env n s \<Longrightarrow> i < n \<Longrightarrow> n_send_ok env (i_sends s + i)"
  by (simp add: i_sends_ok_def)

lemma i_sends_ok_sent: "i_sends_ok env n s \<Longrightarrow> i_sends_ok env (n - m) (i_sent m ms s)"
  using i_sends_okD [of env n s "m + _"] by (simp add: i_sends_ok_def i_sent_def add.assoc)

lemma i_sent_simps [simp]:
  "i_sent 0 [] s = s" "i_sent n ms (i_sent m ns s) = i_sent (m + n) (ns @ ms) s"
  "i_sends (i_sent n ms s) = i_sends s + n" "i_out (i_sent n ms s) = i_out s @ ms"
  "i_mem (i_sent n ms s) = i_mem s" "i_sess_params (i_sent n ms s) = i_sess_params s"
  "i_ExpStatSN (i_sent n ms s) = i_ExpStatSN s" "i_cmd_mem (i_sent n ms s) = i_cmd_mem s"
  "i_CmdSN (i_sent n ms s) = i_CmdSN s" "i_done (i_sent n ms s) = i_done s"
  "i_cmds (i_sent n ms s) = i_cmds s" "i_tx_queue (i_sent n ms s) = i_tx_queue s"
  "i_scsi p (i_sent n ms s) = i_scsi p s" "i_MaxCmdSN (i_sent n ms s) = i_MaxCmdSN s"
  by (simp_all add: i_sent_def add.assoc i_scsi_def)

lemma upd_is_cmd_simps [simp]:
  "i_sends (upd_is_cmd p f s) = i_sends s" "i_out (upd_is_cmd p f s) = i_out s"
  "i_mem (upd_is_cmd p f s) = i_mem s" "i_sess_params (upd_is_cmd p f s) = i_sess_params s"
  "i_ExpStatSN (upd_is_cmd p f s) = i_ExpStatSN s" "i_CmdSN (upd_is_cmd p f s) = i_CmdSN s"
  "i_done (upd_is_cmd p f s) = i_done s" "i_cmds (upd_is_cmd p f s) = i_cmds s"
  "i_isid (upd_is_cmd p f s) = i_isid s" "i_MaxCmdSN (upd_is_cmd p f s) = i_MaxCmdSN s"
  "i_tx_queue (upd_is_cmd p f s) = i_tx_queue s"
  "upd_is_cmd p f (i_sent n ms s) = i_sent n ms (upd_is_cmd p f s)"
  "upd_is_cmd p f (upd_is_cmd p g s) = upd_is_cmd p (\<lambda>sc. f (g sc)) s"
  by (simp_all add: upd_is_cmd_def i_upd_def i_sent_def comp_def fun_eq_iff split: request.splits)

lemma i_scsi_upd [simp]: "i_scsi p (upd_is_cmd p f s) = map_option (\<lambda>q. q\<lparr>is_cmd := f (is_cmd q)\<rparr>) (i_scsi p s)"
  by (simp add: upd_is_cmd_def i_upd_def i_scsi_def split: request.splits)

lemma sent_todev_twice [simp]: "sent_todev p m (sent_todev p n s) = sent_todev p (n + m) s"
  by (simp add: sent_todev_def add.assoc)

lemma i_sends_ok_upd [simp]:
  "i_sends_ok env n (upd_is_cmd p f s) = i_sends_ok env n s"
  "i_sends_ok env n (sent_todev p len s) = i_sends_ok env n s"
  by (simp_all add: i_sends_ok_def sent_todev_def)

subsection \<open>One piece\<close>

lemma sub_iov_ok:
  assumes "unat off < iovs_len sg" "unat off + unat len \<le> iovs_len sg" "NULL \<notin> iov_base ` set sg"
  shows "\<exists>vs. sub_iov sg off len = Some vs \<and> NULL \<notin> iov_base ` set vs \<and>
    iovs_addrs vs = take (unat len) (drop (unat off) (iovs_addrs sg))"
  using modify_iov_view [of "unat off" "length sg" 0 sg "unat len"] assms
  by (auto simp: sub_iov_def)

lemma i_send_piece:
  assumes "i_sends_ok env 2 s" "NULL \<notin> iov_base ` set vs" "h \<noteq> []" "0 < len"
    and "iovs_addrs vs = take len (drop off addrs)" "off + len \<le> length addrs"
  shows "i_send_header_and_iov env h len vs s =
    (True, i_sent 2 [h, map (i_mem s) (take len (drop off addrs))] s)"
proof -
  have n: "n_send_ok env (i_sends s)" "n_send_ok env (i_sends s + 1)"
    using i_sends_okD [OF assms(1), of 0] i_sends_okD [OF assms(1), of 1] by simp_all
  have l: "iovs_len vs = len" "take len (drop off addrs) \<noteq> []"
    using assms(4-6) by (simp_all flip: length_iovs_addrs)
  show ?thesis
    using n l assms(2-5) i_send_ok [of env "i_sent 1 [h] s"]
    by (auto simp: i_send_header_and_iov_def i_send_ok i_send_iov_def image_iff numeral_2_eq_2)
qed

text \<open>The messages for a list of pieces: \<open>f\<close> gives the PDU from its number, offset and length.\<close>

fun data_messages ::
  "(u32 \<Rightarrow> nat \<Rightarrow> nat \<Rightarrow> iscsi_write_data_t) \<Rightarrow> (nat \<Rightarrow> byte) \<Rightarrow> nat list \<Rightarrow> u32 \<Rightarrow> (nat \<times> nat) list \<Rightarrow>
   byte list list" where
  "data_messages f mem addrs sn [] = []"
| "data_messages f mem addrs sn ((off, len) # ps) =
    [iscsi_write_data_encap (f sn off len), map mem (take len (drop off addrs))] @
    data_messages f mem addrs (sn + 1) ps"

lemma length_data_messages [simp]: "length (data_messages f mem addrs sn ps) = 2 * length ps"
  by (induction ps arbitrary: sn) auto

lemma write_data_encap_not_Nil [simp]: "iscsi_write_data_encap p \<noteq> []"
  using write_data.length_encap [of p] by (auto simp: ISCSI_HEADER_LEN_def)

subsection \<open>The answer to an R2T\<close>

text \<open>The PDUs of an answer, by absolute offset.\<close>

definition r2t_answer :: "initiator_session \<Rightarrow> iscsi_scsi_cmd_t \<Rightarrow> iscsi_r2t_t \<Rightarrow> u32 \<Rightarrow> nat \<Rightarrow> nat \<Rightarrow> iscsi_write_data_t" where
  "r2t_answer s sc r2t sn off len =
    r2t_data_pdu s sc r2t (of_nat len) (of_nat off - r2_offset r2t) sn"

lemma r2t_answer_cong [simp]:
  "r2t_answer (upd_is_cmd p f s) sc = r2t_answer s sc" "r2t_answer (i_sent n ms s) sc = r2t_answer s sc"
  "r2t_answer s (sc\<lparr>sc_bytes_todev := x\<rparr>) = r2t_answer s sc"
  "r2t_answer (s\<lparr>i_MaxCmdSN := y\<rparr>) sc = r2t_answer s sc"
  by (simp_all add: fun_eq_iff r2t_answer_def r2t_data_pdu_def sent_todev_def)

text \<open>Of an R2T that is answered by one PDU from offset 0 on, the whole scatter list is sent.\<close>

definition whole_or_cut :: "nat \<Rightarrow> nat \<Rightarrow> iscsi_r2t_t \<Rightarrow> bool" where
  "whole_or_cut b whole r2t \<longleftrightarrow>
    (r2_offset r2t = 0 \<and> unat (r2_length r2t) \<le> b \<longrightarrow> unat (r2_length r2t) = whole)"

lemma r2t_data_length_unat:
  assumes "done < r2_length r2t"
  shows "unat (r2t_data_length sp r2t done) =
    (if max_data_seg_length sp = 0 then unat (r2_length r2t) - unat done
     else min (unat (r2_length r2t) - unat done) (unat (max_data_seg_length sp)))"
proof -
  have "unat (r2_length r2t - done) = unat (r2_length r2t) - unat done"
    using assms by (simp add: unat_sub less_imp_le)
  then show ?thesis by (auto simp: r2t_data_length_def MIN_u32_def word_less_nat_alt min_def)
qed

lemma r2t_data_loop_pieces:
  fixes r2t :: iscsi_r2t_t and total :: nat
  assumes "i_scsi p s = Some q" "NULL \<notin> iov_base ` set sg" "iovs_len sg = total"
    and "length sg \<le> CONFIG_INITIATOR_MAX_SG" "unat (r2_offset r2t) + unat (r2_length r2t) \<le> total"
    and "total < 2 ^ 32" "whole_or_cut b total r2t"
    and "b = unat (if max_data_seg_length (i_sess_params s) = 0 then r2_length r2t
                   else max_data_seg_length (i_sess_params s))"
    and "done < r2_length r2t" "n = unat (r2_length r2t) - unat done"
    and "off = unat (r2_offset r2t) + unat done"
    and "i_sends_ok env (2 * length (pieces b n off)) s"
  shows "r2t_data_loop env p r2t sg done sn s = Some (IReturn 0 (sent_todev p (of_nat n)
     (i_sent (2 * length (pieces b n off))
        (data_messages (r2t_answer s (is_cmd q) r2t) (i_mem s) (iovs_addrs sg) sn (pieces b n off)) s)))"
  using assms
proof (induction n arbitrary: off "done" sn s q rule: less_induct)
  case (less n)
  note a = less.prems
  have ul: "unat done < unat (r2_length r2t)" using a(9) by (simp add: word_less_nat_alt)
  have b: "0 < b" using a(8) ul unat_gt_0 [of "max_data_seg_length (i_sess_params s)"] by auto
  let ?sp = "i_sess_params s"
  define len where "len = r2t_data_length ?sp r2t done"
  have l: "unat len = min n b"
    using r2t_data_length_unat [OF a(9), of ?sp] a(8,10) by (auto simp: len_def)
  have n0: "0 < n" using a(10) ul by simp
  have len_nat: "len = of_nat (min n b)" using arg_cong [OF l, of "of_nat :: nat \<Rightarrow> u32"] by simp
  let ?rest = "pieces b (n - min n b) (off + min n b)"
  have ps: "pieces b n off = (off, min n b) # ?rest" using n0 b by (rule pieces_step)
  have offw: "r2_offset r2t + done = of_nat off" by (simp add: a(11))
  have "unat (r2_offset r2t) + unat done < 2 ^ LENGTH(32)" using a(5,6) ul by simp
  then have "unat (r2_offset r2t + done) = off" unfolding a(11) by (rule unat_add_lem [THEN iffD1])
  then have off32: "unat (of_nat off :: u32) = off" by (simp only: offw)
  have fits: "off + min n b \<le> total" "off < total" using a(5,10,11) ul n0 by auto
  have done': "unat (done + len) = unat done + min n b"
    using add_words_eq [of "done" len "r2_length r2t"] a(10) ul by (simp add: l)
  define cut where "cut \<longleftrightarrow> len < r2_length r2t \<or> r2_offset r2t \<noteq> 0"
  obtain vs where vs: "(if cut then sub_iov sg (r2_offset r2t + done) len else Some sg) = Some vs"
      "NULL \<notin> iov_base ` set vs" "iovs_addrs vs = take (min n b) (drop off (iovs_addrs sg))"
  proof (cases cut)
    case True
    then show ?thesis
      using that sub_iov_ok [of "of_nat off" sg len] fits off32 l a(2,3) offw by auto
  next
    case False
    then have "r2_offset r2t = 0" "unat (r2_length r2t) \<le> min n b"
      by (auto simp: cut_def l word_less_nat_alt)
    moreover from this ul a(10) have "unat done = 0" by linarith
    ultimately have "off = 0" "min n b = total"
      using a(7,10,11) by (simp_all add: whole_or_cut_def)
    then show ?thesis using that [of sg] False a(2,3) by simp
  qed
  have ok: "i_sends_ok env 2 s" "i_sends_ok env (2 * length ?rest) (i_sent 2 ms s)" for ms
    using a(12) i_sends_ok_sent [OF a(12), of 2] unfolding ps by (auto simp: i_sends_ok_def)
  define msg where "msg = [iscsi_write_data_encap (r2t_answer s (is_cmd q) r2t sn off (min n b)),
      map (i_mem s) (take (min n b) (drop off (iovs_addrs sg)))]"
  have pdu: "r2t_data_pdu s (is_cmd q) r2t len done sn = r2t_answer s (is_cmd q) r2t sn off (min n b)"
    using offw by (simp add: r2t_answer_def len_nat [symmetric] flip: offw)
  have send: "i_send_header_and_iov env (iscsi_write_data_encap (r2t_data_pdu s (is_cmd q) r2t len done sn))
      (unat len) vs s = (True, i_sent 2 msg s)"
    unfolding msg_def pdu l using ok(1) vs(2,3) fits n0 b a(3)
    by (intro i_send_piece) simp_all
  have max: "\<not> CONFIG_INITIATOR_MAX_SG < length sg" using a(4) by simp
  let ?s = "sent_todev p len (i_sent 2 msg s)"
  have unfold: "r2t_data_loop env p r2t sg done sn s =
      (if done + len < r2_length r2t then r2t_data_loop env p r2t sg (done + len) (sn + 1) ?s
       else Some (IReturn 0 ?s))"
    by (subst r2t_data_loop.simps)
      (use a(1) max vs(1) send in \<open>simp add: Let_def flip: len_def cut_def\<close>)
  have more: "done + len < r2_length r2t \<longleftrightarrow> 0 < n - min n b"
    using done' a(10) ul by (auto simp: word_less_nat_alt)
  show ?case
  proof (cases "0 < n - min n b")
    case False
    then have "min n b = n" by simp
    then show ?thesis
      using unfold more False ps by (simp add: msg_def len_nat)
  next
    case True
    define q' where "q' = q\<lparr>is_cmd := (is_cmd q)\<lparr>sc_bytes_todev := sc_bytes_todev (is_cmd q) + len\<rparr>\<rparr>"
    have IH: "r2t_data_loop env p r2t sg (done + len) (sn + 1) ?s =
      Some (IReturn 0 (sent_todev p (of_nat (n - min n b)) (i_sent (2 * length ?rest)
        (data_messages (r2t_answer ?s (is_cmd q') r2t) (i_mem ?s) (iovs_addrs sg) (sn + 1) ?rest) ?s)))"
    proof (rule less.IH)
      show "n - min n b < n" using n0 b by simp
      show "i_scsi p ?s = Some q'" using a(1) by (simp add: sent_todev_def q'_def)
      show "done + len < r2_length r2t" using more True by simp
      show "n - min n b = unat (r2_length r2t) - unat (done + len)" using done' a(10) by simp
      show "off + min n b = unat (r2_offset r2t) + unat (done + len)" using done' a(11) by simp
      show "i_sends_ok env (2 * length ?rest) ?s" using ok(2) by simp
      show "b = unat (if max_data_seg_length (i_sess_params ?s) = 0 then r2_length r2t
                   else max_data_seg_length (i_sess_params ?s))"
        using a(8) by (simp add: sent_todev_def)
    qed (use a in simp_all)
    have total: "len + of_nat (n - min n b) = of_nat n"
      unfolding len_nat by (metis le_add_diff_inverse min.cobounded1 of_nat_add)
    have cnt: "2 * length (pieces b n off) = 2 + 2 * length ?rest" by (simp add: ps)
    show ?thesis
      using unfold more True IH total
      by (simp add: ps cnt msg_def q'_def sent_todev_def)
  qed
qed

text \<open>Where the whole list would be needed in part, its length does not fit and the send fails.\<close>

lemma i_send_wrong_length:
  "iovs_len vs \<noteq> len \<Longrightarrow> len \<noteq> 0 \<Longrightarrow> \<exists>s'. i_send_header_and_iov env h len vs s = (False, s')"
  by (cases "i_send env h s") (auto simp: i_send_header_and_iov_def i_send_iov_def)

lemma r2t_data_loop_wrong:
  assumes "i_scsi p s = Some q" "r2_offset r2t = 0" "r2_length r2t \<noteq> 0" "iovs_len sg \<noteq> unat (r2_length r2t)"
    and "max_data_seg_length (i_sess_params s) = 0 \<or> r2_length r2t \<le> max_data_seg_length (i_sess_params s)"
  shows "\<exists>s'. r2t_data_loop env p r2t sg 0 0 s = Some (IReturn (-1) s')"
proof -
  have len: "r2t_data_length (i_sess_params s) r2t 0 = r2_length r2t"
    using assms(5) by (auto simp: r2t_data_length_def MIN_u32_def)
  obtain s' where "i_send_header_and_iov env (iscsi_write_data_encap (r2t_data_pdu s (is_cmd q) r2t (r2_length r2t) 0 0))
      (unat (r2_length r2t)) sg s = (False, s')"
    using i_send_wrong_length [OF assms(4)] assms(3) by (metis unat_eq_0)
  then show ?thesis
    by (subst r2t_data_loop.simps) (simp add: assms(1,2) len)
qed

subsection \<open>Unsolicited data\<close>

text \<open>Unsolicited data ends at \<^verbatim>\<open>FirstBurstLength\<close>, unless that is 0, or with the transfer.\<close>

definition unsolicited_end :: "iscsi_sess_param \<Rightarrow> iscsi_scsi_cmd_t \<Rightarrow> nat" where
  "unsolicited_end sp sc =
    (if first_burst_length sp = 0 then unat (sc_trans_len sc)
     else min (unat (first_burst_length sp)) (unat (sc_trans_len sc)))"

definition unsolicited_answer ::
  "initiator_session \<Rightarrow> iscsi_scsi_cmd_t \<Rightarrow> u32 \<Rightarrow> nat \<Rightarrow> nat \<Rightarrow> iscsi_write_data_t" where
  "unsolicited_answer s sc sn off len =
    unsolicited_pdu s (sc\<lparr>sc_bytes_todev := of_nat off\<rparr>) (of_nat len) sn"

lemma unsolicited_answer_cong [simp]:
  "unsolicited_answer (upd_is_cmd p f s) sc = unsolicited_answer s sc"
  "unsolicited_answer (i_sent n ms s) sc = unsolicited_answer s sc"
  "unsolicited_answer s (sc\<lparr>sc_bytes_todev := x\<rparr>) = unsolicited_answer s sc"
  by (simp_all add: fun_eq_iff unsolicited_answer_def unsolicited_pdu_def)

lemma unsolicited_end_todev [simp]:
  "unsolicited_end sp (sc\<lparr>sc_bytes_todev := x\<rparr>) = unsolicited_end sp sc"
  by (simp add: unsolicited_end_def)

lemma unsolicited_length_unat:
  assumes "unat (sc_bytes_todev sc) < unsolicited_end sp sc"
  shows "unat (unsolicited_length sp sc) =
    (let n = unsolicited_end sp sc - unat (sc_bytes_todev sc)
     in if max_data_seg_length sp = 0 then n else min n (unat (max_data_seg_length sp)))"
proof -
  have "sc_bytes_todev sc < sc_trans_len sc"
    and "first_burst_length sp \<noteq> 0 \<Longrightarrow> sc_bytes_todev sc < first_burst_length sp"
    using assms by (auto simp: unsolicited_end_def word_less_nat_alt split: if_splits)
  then have "unat (sc_trans_len sc - sc_bytes_todev sc) = unat (sc_trans_len sc) - unat (sc_bytes_todev sc)"
    and "first_burst_length sp \<noteq> 0 \<Longrightarrow> unat (first_burst_length sp - sc_bytes_todev sc) =
      unat (first_burst_length sp) - unat (sc_bytes_todev sc)"
    by (simp_all add: unat_sub less_imp_le)
  then show ?thesis
    by (auto simp: unsolicited_length_def unsolicited_end_def MIN_3_def MIN_u32_def Let_def
        word_less_nat_alt min_def)
qed

lemma unsolicited_loop_pieces:
  assumes "i_scsi p s = Some q" "NULL \<notin> iov_base ` set sg" "iovs_len sg = unat (sc_trans_len (is_cmd q))"
    and "length sg \<le> CONFIG_INITIATOR_MAX_SG"
    and "b = (if max_data_seg_length (i_sess_params s) = 0 then unat (sc_trans_len (is_cmd q))
              else unat (max_data_seg_length (i_sess_params s)))"
    and "off = unat (sc_bytes_todev (is_cmd q))" "n = unsolicited_end (i_sess_params s) (is_cmd q) - off" "0 < n"
    and "i_sends_ok env (2 * length (pieces b n off)) s"
  shows "unsolicited_loop env p sg sn s = Some (Inr (sent_todev p (of_nat n)
     (i_sent (2 * length (pieces b n off))
        (data_messages (unsolicited_answer s (is_cmd q)) (i_mem s) (iovs_addrs sg) sn (pieces b n off)) s)))"
  using assms
proof (induction n arbitrary: off sn s q rule: less_induct)
  case (less n)
  note a = less.prems
  let ?sp = "i_sess_params s" and ?sc = "is_cmd q"
  have goal_le: "unsolicited_end ?sp ?sc \<le> unat (sc_trans_len ?sc)"
    by (simp add: unsolicited_end_def)
  have lt: "unat (sc_bytes_todev ?sc) < unsolicited_end ?sp ?sc" using a(6-8) by simp
  have b: "0 < b"
    using a(5) lt goal_le unat_gt_0 [of "max_data_seg_length ?sp"] by (auto split: if_splits)
  define len where "len = unsolicited_length ?sp ?sc"
  have l: "unat len = min n b"
    using unsolicited_length_unat [OF lt] a(5-7) goal_le by (auto simp: len_def Let_def)
  have len_nat: "len = of_nat (min n b)" using arg_cong [OF l, of "of_nat :: nat \<Rightarrow> u32"] by simp
  have len0: "len \<noteq> 0" using l a(8) b by (metis min_less_iff_conj unat_0 less_numeral_extra(3))
  let ?rest = "pieces b (n - min n b) (off + min n b)"
  have ps: "pieces b n off = (off, min n b) # ?rest" using a(8) b by (rule pieces_step)
  have fits: "off + min n b \<le> unat (sc_trans_len ?sc)" "off < unat (sc_trans_len ?sc)"
    using a(6-8) goal_le by auto
  have todev': "unat (sc_bytes_todev ?sc + len) = off + min n b"
    using add_words_eq [of "sc_bytes_todev ?sc" len "sc_trans_len ?sc"] fits by (simp add: l a(6))
  define cut where "cut \<longleftrightarrow> len \<noteq> sc_trans_len ?sc"
  obtain vs where vs: "(if cut then sub_iov sg (sc_bytes_todev ?sc) len else Some sg) = Some vs"
      "NULL \<notin> iov_base ` set vs" "iovs_addrs vs = take (min n b) (drop off (iovs_addrs sg))"
  proof (cases cut)
    case False
    then have "min n b = unat (sc_trans_len ?sc)" using l by (simp add: cut_def)
    moreover from this fits(1) have "off = 0" by linarith
    ultimately show ?thesis using that [of sg] False a(2,3) by simp
  next
    case True
    then show ?thesis
      using that sub_iov_ok [of "sc_bytes_todev ?sc" sg len] fits l a(2,3,6) by auto
  qed
  have ok: "i_sends_ok env 2 s" "i_sends_ok env (2 * length ?rest) (i_sent 2 ms s)" for ms
    using a(9) i_sends_ok_sent [OF a(9), of 2] unfolding ps by (auto simp: i_sends_ok_def)
  define msg where "msg = [iscsi_write_data_encap (unsolicited_answer s ?sc sn off (min n b)),
      map (i_mem s) (take (min n b) (drop off (iovs_addrs sg)))]"
  have pdu: "unsolicited_pdu s ?sc len sn = unsolicited_answer s ?sc sn off (min n b)"
    by (simp add: unsolicited_answer_def len_nat [symmetric] a(6))
  have send: "i_send_header_and_iov env (iscsi_write_data_encap (unsolicited_pdu s ?sc len sn))
      (unat len) vs s = (True, i_sent 2 msg s)"
    unfolding msg_def pdu l using ok(1) vs(2,3) fits a(8) b a(3)
    by (intro i_send_piece) simp_all
  have max: "\<not> CONFIG_INITIATOR_MAX_SG < length sg" using a(4) by simp
  let ?s = "sent_todev p len (i_sent 2 msg s)"
  define more where "more \<longleftrightarrow> sc_bytes_todev ?sc + len < sc_trans_len ?sc \<and>
      (sc_bytes_todev ?sc + len < first_burst_length ?sp \<or> first_burst_length ?sp = 0)"
  have unfold: "unsolicited_loop env p sg sn s =
      (if more then unsolicited_loop env p sg (sn + 1) ?s else Some (Inr ?s))"
    using a(1) max vs(1) send len0
    by (cases cut; subst unsolicited_loop.simps; simp add: Let_def flip: len_def more_def cut_def)
  have more: "more \<longleftrightarrow> 0 < n - min n b"
    using todev' a(6-8) by (auto simp: more_def word_less_nat_alt unsolicited_end_def)
  show ?case
  proof (cases "0 < n - min n b")
    case False
    then have "min n b = n" by simp
    then show ?thesis using unfold more False ps by (simp add: msg_def len_nat)
  next
    case True
    define q' where "q' = q\<lparr>is_cmd := ?sc\<lparr>sc_bytes_todev := sc_bytes_todev ?sc + len\<rparr>\<rparr>"
    have IH: "unsolicited_loop env p sg (sn + 1) ?s =
      Some (Inr (sent_todev p (of_nat (n - min n b)) (i_sent (2 * length ?rest)
        (data_messages (unsolicited_answer ?s (is_cmd q')) (i_mem ?s) (iovs_addrs sg) (sn + 1) ?rest) ?s)))"
    proof (rule less.IH)
      show "n - min n b < n" using a(8) b by simp
      show "i_scsi p ?s = Some q'" using a(1) by (simp add: sent_todev_def q'_def)
      show "iovs_len sg = unat (sc_trans_len (is_cmd q'))" using a(3) by (simp add: q'_def)
      show "off + min n b = unat (sc_bytes_todev (is_cmd q'))" using todev' by (simp add: q'_def)
      show "n - min n b = unsolicited_end (i_sess_params ?s) (is_cmd q') - (off + min n b)"
        using a(7) by (simp add: q'_def sent_todev_def)
      show "b = (if max_data_seg_length (i_sess_params ?s) = 0 then unat (sc_trans_len (is_cmd q'))
              else unat (max_data_seg_length (i_sess_params ?s)))"
        using a(5) by (simp add: q'_def sent_todev_def)
      show "i_sends_ok env (2 * length ?rest) ?s" using ok(2) by simp
    qed (use a True in simp_all)
    have all: "len + of_nat (n - min n b) = of_nat n"
      unfolding len_nat by (metis le_add_diff_inverse min.cobounded1 of_nat_add)
    have cnt: "2 * length (pieces b n off) = 2 + 2 * length ?rest" by (simp add: ps)
    show ?thesis
      using unfold more True IH all
      by (simp add: ps cnt msg_def q'_def sent_todev_def)
  qed
qed

subsection \<open>The command with its first data\<close>

definition command_messages :: "(nat \<Rightarrow> byte) \<Rightarrow> nat list \<Rightarrow> iscsi_scsi_cmd_t \<Rightarrow> byte list list" where
  "command_messages mem addrs sc =
    iscsi_scsi_cmd_encap sc #
    List.filter (\<lambda>m. m \<noteq> []) [take (unat (sc_ahs_len sc)) (sc_ahs sc), map mem (take (unat (sc_length sc)) addrs)]"

lemma i_send_cases:
  assumes "i_sends_ok env n s" "msg \<noteq> [] \<Longrightarrow> 0 < n"
  shows "i_send env msg s = (True, if msg = [] then s else i_sent 1 [msg] s)"
  using assms i_sends_okD [of env n s 0] by (auto simp: i_send_def i_sent_def)

lemma send_command_ok:
  assumes "NULL \<notin> iov_base ` set sg" "unat (sc_length sc) \<le> iovs_len sg"
    and "sc_length sc \<noteq> 0 \<Longrightarrow> immediate_data (i_sess_params s)"
    and "i_sends_ok env (length (command_messages (i_mem s) (iovs_addrs sg) sc)) s"
  shows "send_command env p sc sg s =
    (True, let s' = i_sent (length (command_messages (i_mem s) (iovs_addrs sg) sc))
                      (command_messages (i_mem s) (iovs_addrs sg) sc) s
           in if sc_length sc = 0 then s' else sent_todev p (sc_length sc) s')"
proof -
  let ?h = "iscsi_scsi_cmd_encap sc" and ?ahs = "take (unat (sc_ahs_len sc)) (sc_ahs sc)"
  let ?data = "map (i_mem s) (take (unat (sc_length sc)) (iovs_addrs sg))"
  let ?n = "length (command_messages (i_mem s) (iovs_addrs sg) sc)"
  have h: "?h \<noteq> []" using scsi_cmd.length_encap [of sc] by (auto simp: ISCSI_HEADER_LEN_def)
  have s1: "i_send env ?h s = (True, i_sent 1 [?h] s)"
    using h i_send_cases [OF assms(4), of ?h] by (simp add: command_messages_def)
  have ok2: "i_sends_ok env (?n - 1) (i_sent 1 [?h] s)"
    using assms(4) by (rule i_sends_ok_sent)
  have s2: "i_send env ?ahs (i_sent 1 [?h] s) =
      (True, if ?ahs = [] then i_sent 1 [?h] s else i_sent (Suc (Suc 0)) [?h, ?ahs] s)"
    using i_send_cases [OF ok2, of ?ahs] by (simp add: command_messages_def)
  show ?thesis
  proof (cases "sc_length sc = 0")
    case True
    then show ?thesis using s1 s2 by (simp add: send_command_def command_messages_def Let_def)
  next
    case False
    then have l: "0 < unat (sc_length sc)" by (simp add: unat_gt_0)
    then have data: "?data \<noteq> []" using assms(2) by (auto simp flip: length_iovs_addrs)
    obtain vs where vs: "sub_iov sg 0 (sc_length sc) = Some vs" "NULL \<notin> iov_base ` set vs"
        "iovs_addrs vs = take (unat (sc_length sc)) (iovs_addrs sg)"
      using sub_iov_ok [of 0 sg "sc_length sc"] assms(1,2) l by auto
    have len: "iovs_len vs = unat (sc_length sc)"
      using vs(3) assms(2) by (simp flip: length_iovs_addrs)
    let ?s2 = "if ?ahs = [] then i_sent 1 [?h] s else i_sent (Suc (Suc 0)) [?h, ?ahs] s"
    have ok3: "n_send_ok env (i_sends ?s2)"
      using i_sends_okD [OF assms(4), of 1] i_sends_okD [OF assms(4), of 2] data
      by (cases "?ahs = []") (simp_all add: command_messages_def)
    have s3: "i_send_iov env (unat (sc_length sc)) vs ?s2 =
        (True, i_sent ?n (command_messages (i_mem s) (iovs_addrs sg) sc) s)"
      using ok3 vs(2,3) len data i_send_ok [of env ?s2 ?data]
      by (cases "?ahs = []") (auto simp: i_send_iov_def image_iff command_messages_def)
    show ?thesis
      using False s1 s2 s3 vs(1) assms(3) by (simp add: send_command_def Let_def)
  qed
qed

lemma immediate_length_le: "immediate_length sp sc \<le> sc_trans_len sc"
  by (auto simp: immediate_length_def MIN_u32_def)

lemma immediate_length_data: "immediate_length sp sc \<noteq> 0 \<Longrightarrow> immediate_data sp"
  by (auto simp: immediate_length_def split: if_splits)

lemma prepared_simps [simp]:
  "sc_todev (prepared_command s sc) = sc_todev sc" "sc_trans_len (prepared_command s sc) = sc_trans_len sc"
  "sc_bytes_todev (prepared_command s sc) = 0" "sc_tag (prepared_command s sc) = sc_tag sc"
  "sc_length (prepared_command s sc) = immediate_length (i_sess_params s) sc"
  "unsolicited_end sp (prepared_command s sc) = unsolicited_end sp sc"
  "prepared_command (upd_is_cmd p f s) sc = prepared_command s sc"
  by (simp_all add: prepared_command_def unsolicited_end_def)

text \<open>How far a write command gets before it needs an R2T.\<close>

definition first_burst :: "iscsi_sess_param \<Rightarrow> iscsi_scsi_cmd_t \<Rightarrow> nat" where
  "first_burst sp sc =
    (let imm = unat (immediate_length sp sc)
     in if initial_r2t sp then imm else max imm (unsolicited_end sp sc))"

lemma first_burst_more:
  fixes sc :: iscsi_scsi_cmd_t and sp :: iscsi_sess_param
  defines "imm \<equiv> immediate_length sp sc"
  shows "(\<not> initial_r2t sp \<and> imm \<noteq> sc_trans_len sc \<and>
      (first_burst_length sp = 0 \<or> imm < first_burst_length sp)) \<longleftrightarrow> unat imm < first_burst sp sc"
    and "unat imm < first_burst sp sc \<Longrightarrow> first_burst sp sc = unsolicited_end sp sc"
    and "unat imm \<le> first_burst sp sc"
proof -
  have "unat imm \<le> unat (sc_trans_len sc)"
    using immediate_length_le [of sp sc] by (simp add: imm_def word_le_nat_alt)
  moreover have "imm \<noteq> sc_trans_len sc \<longleftrightarrow> unat imm \<noteq> unat (sc_trans_len sc)" by (simp add: word_unat_eq_iff)
  ultimately show "(\<not> initial_r2t sp \<and> imm \<noteq> sc_trans_len sc \<and>
      (first_burst_length sp = 0 \<or> imm < first_burst_length sp)) \<longleftrightarrow> unat imm < first_burst sp sc"
    by (auto simp: first_burst_def unsolicited_end_def imm_def [symmetric] word_less_nat_alt
        less_max_iff_disj Let_def split: if_splits)
  show "unat imm < first_burst sp sc \<Longrightarrow> first_burst sp sc = unsolicited_end sp sc"
    by (auto simp: first_burst_def imm_def Let_def split: if_splits)
  show "unat imm \<le> first_burst sp sc" by (simp add: first_burst_def imm_def Let_def)
qed

lemma scsi_command_i_ok:
  fixes s :: initiator_session
  assumes "i_scsi p s = Some q" "sc_todev (is_cmd q) \<noteq> 0" "sc_bytes_todev (is_cmd q) = 0"
    and "sc_length (is_cmd q) \<le> sc_trans_len (is_cmd q)" "sp = i_sess_params s"
    and "max_burst_length sp \<noteq> 0" "unat (i_isid s) < n_num_targets env"
    and "NULL \<notin> iov_base ` set (send_iov q)" "iovs_len (send_iov q) = unat (sc_trans_len (is_cmd q))"
    and "length (send_iov q) \<le> CONFIG_INITIATOR_MAX_SG" "sc = prepared_command s (is_cmd q)"
    and "imm = unat (immediate_length sp (is_cmd q))"
    and "ps = pieces (if max_data_seg_length sp = 0 then unat (sc_trans_len sc)
                      else unat (max_data_seg_length sp)) (first_burst sp (is_cmd q) - imm) imm"
    and "ms = command_messages (i_mem s) (iovs_addrs (send_iov q)) sc @
              data_messages (unsolicited_answer s sc) (i_mem s) (iovs_addrs (send_iov q)) 0 ps"
    and "i_sends_ok env (length ms) s"
  shows "scsi_command_i env p s = IReturn 0 ((i_sent (length ms) ms
     (upd_is_cmd p (\<lambda>_. sc\<lparr>sc_bytes_todev := of_nat (first_burst sp (is_cmd q))\<rparr>) s))\<lparr>i_CmdSN := i_CmdSN s + 1\<rparr>)"
proof -
  let ?sg = "send_iov q"
  define cm where "cm = command_messages (i_mem s) (iovs_addrs ?sg) sc"
  define s1 where "s1 = upd_is_cmd p (\<lambda>_. sc) s"
  define s2 where "s2 = upd_is_cmd p (\<lambda>_. sc\<lparr>sc_bytes_todev := sc_length sc\<rparr>) (i_sent (length cm) cm s)"
  have imm: "sc_length sc = immediate_length sp (is_cmd q)" "unat (sc_length sc) = imm"
    using assms(5,11,12) by simp_all
  have ok1: "i_sends_ok env (length cm) s1" and okd: "i_sends_ok env (2 * length ps) (i_sent (length cm) cm s)"
    using assms(15) i_sends_ok_sent [OF assms(15), of "length cm" cm]
    by (auto simp: assms(14) cm_def s1_def i_sends_ok_def)
  have send: "send_command env p sc ?sg s1 = (True, s2)"
  proof -
    have "unat (sc_length sc) \<le> iovs_len ?sg"
      using immediate_length_le [of sp "is_cmd q"] assms(9) imm(1) by (simp add: word_le_nat_alt)
    then have "send_command env p sc ?sg s1 = (True, let s' = i_sent (length cm) cm s1
           in if sc_length sc = 0 then s' else sent_todev p (sc_length sc) s')"
      using send_command_ok [of ?sg sc s1 env p] assms(5,8) ok1 immediate_length_data imm(1)
      by (simp add: cm_def s1_def)
    moreover have "sc\<lparr>sc_bytes_todev := 0\<rparr> = sc" by (simp add: assms(11) prepared_command_def)
    then have "upd_is_cmd p (\<lambda>_. sc\<lparr>sc_bytes_todev := 0\<rparr>) s = upd_is_cmd p (\<lambda>_. sc) s" by simp
    moreover have "sc_bytes_todev sc = 0" by (simp add: assms(11))
    ultimately show ?thesis
      using imm(1) by (auto simp: s1_def s2_def sent_todev_def Let_def)
  qed
  define q2 where "q2 = q\<lparr>is_cmd := sc\<lparr>sc_bytes_todev := sc_length sc\<rparr>\<rparr>"
  have scsi2: "i_scsi p s2 = Some q2" using assms(1) by (simp add: s2_def q2_def)
  note fb = first_burst_more [of sp "is_cmd q"]
  let ?more = "\<not> initial_r2t sp \<and> sc_length sc \<noteq> sc_trans_len sc \<and>
      (first_burst_length sp = 0 \<or> sc_length sc < first_burst_length sp)"
  have more: "?more \<longleftrightarrow> imm < first_burst sp (is_cmd q)"
    using fb(1) assms(5,11,12) by simp
  have todev: "(if sc_length sc \<noteq> 0 \<and> immediate_data sp then sc_length sc else 0) = sc_length sc"
    using immediate_length_data imm(1) by auto
  have short: "\<not> sc_length (is_cmd q) > sc_trans_len (is_cmd q)" using assms(4) by simp
  have body: "scsi_command_i env p s =
      (if ?more then case unsolicited_loop env p ?sg 0 s2 of
                       None \<Rightarrow> IDiverges | Some (Inl r) \<Rightarrow> r
                     | Some (Inr s) \<Rightarrow> IReturn 0 (s\<lparr>i_CmdSN := i_CmdSN s + 1\<rparr>)
       else IReturn 0 (s2\<lparr>i_CmdSN := i_CmdSN s2 + 1\<rparr>))"
    unfolding scsi_command_i_def assms(1) option.case Let_def assms(5) [symmetric] prepared_simps(7)
      assms(11) [symmetric] todev
    using assms(2,3,6,7,11) short send by (simp add: s1_def)
  show ?thesis
  proof (cases "imm < first_burst sp (is_cmd q)")
    case False
    then have "first_burst sp (is_cmd q) = imm" using fb(3) assms(12) by simp
    moreover from this have "ms = cm" using assms(13,14) by (simp add: cm_def)
    moreover have "of_nat imm = sc_length sc" by (simp add: imm(2) [symmetric])
    ultimately show ?thesis using body more False by (simp add: s2_def)
  next
    case True
    have goal: "first_burst sp (is_cmd q) = unsolicited_end sp (is_cmd q)" using fb(2) True assms(12) by simp
    have total: "sc_length sc + of_nat (first_burst sp (is_cmd q) - imm) = of_nat (first_burst sp (is_cmd q))"
      using True by (simp add: of_nat_diff imm(2) [symmetric])
    have loop: "unsolicited_loop env p ?sg 0 s2 = Some (Inr (sent_todev p (of_nat (first_burst sp (is_cmd q) - imm))
       (i_sent (2 * length ps) (data_messages (unsolicited_answer s2 (is_cmd q2))
          (i_mem s2) (iovs_addrs ?sg) 0 ps) s2)))"
      unfolding assms(13)
    proof (rule unsolicited_loop_pieces [OF scsi2 assms(8)])
      show "i_sends_ok env (2 * length (pieces (if max_data_seg_length sp = 0 then unat (sc_trans_len sc)
          else unat (max_data_seg_length sp)) (first_burst sp (is_cmd q) - imm) imm)) s2"
        using okd unfolding assms(13) [symmetric] by (simp add: s2_def i_sends_ok_def)
      show "first_burst sp (is_cmd q) - imm = unsolicited_end (i_sess_params s2) (is_cmd q2) - imm"
        using goal assms(5,11) by (simp add: s2_def q2_def)
    qed (use True imm(2) assms(5,9,10,11) in \<open>simp_all add: s2_def q2_def\<close>)
    show ?thesis
      using body more True loop total
      by (simp add: s2_def q2_def sent_todev_def assms(14) cm_def add.assoc)
  qed
qed

end
