(* ===== verification/Initiator_Read.thy ===== *)
theory Initiator_Read
  imports Initiator_Transfer
begin

section \<open>The read data of an initiator\<close>

text \<open>
  What \<^verbatim>\<open>scsi_read_data_i\<close> makes of a read data PDU, and what the receiving thread makes of a whole
  stream of them: every byte at the offset that its PDU names, nothing else in the caller's memory.
\<close>

subsection \<open>Bytes on the wire\<close>

lemma i_recv_padded:
  "i_in s = padded m @ rest \<Longrightarrow> length m < 2 ^ 31 \<Longrightarrow>
   i_recv (length m) s = (int (length m), m, s\<lparr>i_in := rest\<rparr>)"
  by (simp add: i_recv_def padded_def Let_def)

subsection \<open>The part of a scatter list\<close>

text \<open>
  The loops that \<^verbatim>\<open>scsi_read_data_i\<close> has of its own for finding a part of a scatter list are
  equivalent to \<^verbatim>\<open>modify_iov\<close>: they give its result where it succeeds, and run behind the end of the
  list where it reports an error.
\<close>

lemma read_view_is_modify_iov:
  "read_view sg offset len =
    (case modify_iov sg 0 (length sg) offset len of
       (rc, arr, p, n) \<Rightarrow> if rc = 0 then Some (take n (drop p arr)) else None)"
proof (cases "find_offset sg 0 0 offset offset")
  case None
  then show ?thesis by (simp add: read_view_def modify_iov_def)
next
  case (Some r)
  then obtain i disp where r: "find_offset sg 0 0 offset offset = Some (i, disp)" by (cases r) auto
  let ?v = "(sg ! i)\<lparr>iov_len := iov_len (sg ! i) - disp, iov_base := iov_base (sg ! i) + disp\<rparr>"
  have view: "take (length sg - i) (drop i (sg[i := ?v])) = drop i (sg[i := ?v])" by simp
  show ?thesis
  proof (cases "find_end (drop i (sg[i := ?v])) 0 0 len")
    case None
    then show ?thesis using r view by (simp add: read_view_def modify_iov_def Let_def)
  next
    case (Some e)
    then obtain j stop where e: "find_end (drop i (sg[i := ?v])) 0 0 len = Some (j, stop)" by (cases e) auto
    have "drop i (sg[i := ?v]) ! j = sg[i := ?v] ! (i + j)"
      using find_offset_Some [OF r] by (intro nth_drop) auto
    moreover have "drop i (sg[i := ?v, i + j := w]) = (drop i (sg[i := ?v]))[j := w]" for w
      by (simp add: drop_update_swap)
    ultimately show ?thesis using r view e by (simp add: read_view_def modify_iov_def Let_def)
  qed
qed

lemma read_view_ok:
  assumes "off < iovs_len sg" "off + len \<le> iovs_len sg" "NULL \<notin> iov_base ` set sg"
  shows "\<exists>vs. read_view sg off len = Some vs \<and> NULL \<notin> iov_base ` set vs \<and>
    iovs_addrs vs = take len (drop off (iovs_addrs sg))"
  using modify_iov_view [of off "length sg" 0 sg len] assms
  by (auto simp: read_view_is_modify_iov)

subsection \<open>One PDU\<close>

text \<open>The addresses that a command reads into, and when its buffers are fit for it.\<close>

definition recv_addrs :: "initiator_scsi \<Rightarrow> nat list" where
  "recv_addrs q =
    (if is_recv_sg q \<noteq> [] then iovs_addrs (is_recv_sg q)
     else [is_recv_data q..<is_recv_data q + unat (sc_trans_len (is_cmd q))])"

definition recv_ready :: "initiator_scsi \<Rightarrow> bool" where
  "recv_ready q \<longleftrightarrow>
    (if is_recv_sg q \<noteq> [] then NULL \<notin> iov_base ` set (is_recv_sg q) \<and>
       iovs_len (is_recv_sg q) = unat (sc_trans_len (is_cmd q))
     else is_recv_data q \<noteq> NULL)"

lemma recv_addrs_upd [simp]:
  "recv_addrs (q\<lparr>is_cmd := (is_cmd q)\<lparr>sc_bytes_fromdev := x\<rparr>\<rparr>) = recv_addrs q"
  "recv_ready (q\<lparr>is_cmd := (is_cmd q)\<lparr>sc_bytes_fromdev := x\<rparr>\<rparr>) = recv_ready q"
  by (simp_all add: recv_addrs_def recv_ready_def)

lemma length_recv_addrs: "recv_ready q \<Longrightarrow> length (recv_addrs q) = unat (sc_trans_len (is_cmd q))"
  by (auto simp: recv_addrs_def recv_ready_def)

text \<open>What is left when \<open>data\<close> has arrived for the offset \<open>off\<close> of a command.\<close>

definition data_stored ::
  "ptr \<Rightarrow> nat list \<Rightarrow> byte list \<Rightarrow> byte list \<Rightarrow> initiator_session \<Rightarrow> initiator_session" where
  "data_stored p addrs data rest s =
    upd_is_cmd p (\<lambda>sc. sc\<lparr>sc_bytes_fromdev := sc_bytes_fromdev sc + of_nat (length data)\<rparr>)
      (s\<lparr>i_in := rest, i_mem := put_mem addrs data (i_mem s)\<rparr>)"

lemma i_recv_iov_padded:
  assumes "i_in s = padded data @ rest" "length data < 2 ^ 31" "NULL \<notin> iov_base ` set vs"
    and "iovs_len vs = length data"
  shows "i_recv_iov (length data) vs s =
    (int (length data), s\<lparr>i_in := rest, i_mem := put_mem (iovs_addrs vs) data (i_mem s)\<rparr>)"
  using assms i_recv_padded [OF assms(1,2)] by (auto simp: i_recv_iov_def image_iff)

lemma read_data_into_ok:
  assumes "recv_ready q" "i_in s = padded data @ rest" "length data = unat dlen" "0 < length data"
    and "length data < 2 ^ 31" "unat offset + length data \<le> unat (sc_trans_len (is_cmd q))"
  shows "read_data_into q offset dlen p s =
    Inr (data_stored p (take (length data) (drop (unat offset) (recv_addrs q))) data rest s)"
proof -
  let ?as = "take (length data) (drop (unat offset) (recv_addrs q))"
  have dlen: "dlen = of_nat (length data)" using assms(3) by simp
  have len: "unat dlen = length data" using assms(3) by simp
  show ?thesis
  proof (cases "is_recv_sg q = []")
    case True
    let ?v = "\<lparr>iov_base = is_recv_data q + unat offset, iov_len = length data\<rparr>"
    have addrs: "iovs_addrs [?v] = ?as"
      using True assms(6) by (simp add: recv_addrs_def iov_addrs_def drop_upt take_upt add.commute add.left_commute)
    have "i_recv_iov (length data) [?v] s =
        (int (length data), s\<lparr>i_in := rest, i_mem := put_mem ?as data (i_mem s)\<rparr>)"
      unfolding addrs [symmetric]
      using i_recv_iov_padded [OF assms(2,5), of "[?v]"] assms(1) True
      by (simp add: recv_ready_def NULL_def)
    then show ?thesis
      using True assms(4) unfolding read_data_into_def len by (simp add: data_stored_def dlen Let_def)
  next
    case False
    let ?sg = "is_recv_sg q"
    have sg: "NULL \<notin> iov_base ` set ?sg" "iovs_len ?sg = unat (sc_trans_len (is_cmd q))"
        "recv_addrs q = iovs_addrs ?sg"
      using assms(1) False by (simp_all add: recv_ready_def recv_addrs_def)
    obtain vs where vs: "(if dlen \<noteq> sc_trans_len (is_cmd q) then read_view ?sg (unat offset) (unat dlen)
          else Some ?sg) = Some vs" "NULL \<notin> iov_base ` set vs" "iovs_addrs vs = ?as"
    proof (cases "dlen = sc_trans_len (is_cmd q)")
      case True
      then have "unat offset = 0" "length data = unat (sc_trans_len (is_cmd q))"
        using assms(3,6) by simp_all
      then show ?thesis using that [of ?sg] True sg by simp
    next
      case False
      have "unat offset < iovs_len ?sg" using assms(4,6) sg(2) by linarith
      then show ?thesis
        using read_view_ok [of "unat offset" ?sg "length data"] assms(6) sg False that
        unfolding len by auto
    qed
    have "iovs_len vs = length data"
      using vs(3) assms(6) sg by (simp flip: length_iovs_addrs)
    then have "i_recv_iov (length data) vs s =
        (int (length data), s\<lparr>i_in := rest, i_mem := put_mem ?as data (i_mem s)\<rparr>)"
      unfolding vs(3) [symmetric] using i_recv_iov_padded [OF assms(2,5) vs(2)] by simp
    then show ?thesis
      using False vs(1) unfolding read_data_into_def len
      by (simp add: data_stored_def dlen Let_def)
  qed
qed

lemma iscsi_itt_read_data: "ntohl (load32 (iscsi_read_data_encap d) 16) = rd_task_tag d"
  by (cases "rd_S_bit d = 0"; simp add: iscsi_read_data_encap_def wire)

text \<open>A command that the receiving thread can hand read data to.\<close>

definition reading :: "ptr \<Rightarrow> u32 \<Rightarrow> initiator_scsi \<Rightarrow> initiator_session \<Rightarrow> bool" where
  "reading p tag q s \<longleftrightarrow>
    hash_get (i_cmds s) tag = Some (p, i_cmds s) \<and> p \<noteq> NULL \<and> ic_tx_done (i_cmd_mem s p) \<and>
    ic_type (i_cmd_mem s p) = ISCSI_SCSI_CMD \<and> i_scsi p s = Some q \<and> recv_ready q"

lemma rx_step_read_data:
  assumes "reading p (rd_task_tag d) q s" "read_data_ok d" "rd_S_bit d = 0"
    and "i_in s = padded (iscsi_read_data_encap d) @ padded data @ rest"
    and "length data = unat (rd_length d)" "0 < length data"
    and "max_data_seg_length (i_sess_params s) = 0 \<or> rd_length d \<le> max_data_seg_length (i_sess_params s)"
    and "unat (rd_offset d) + length data \<le> unat (sc_trans_len (is_cmd q))"
  shows "rx_step env fresh s = IReturn 0
    (data_stored p (take (length data) (drop (unat (rd_offset d)) (recv_addrs q))) data rest
       (s\<lparr>i_MaxCmdSN := rd_MaxCmdSN d\<rparr>))"
proof -
  let ?h = "iscsi_read_data_encap d" and ?s = "s\<lparr>i_in := padded data @ rest\<rparr>"
  note h = read_data.length_encap [of d] read_data.opcode_encap [of d]
  have dec: "iscsi_read_data_decap ?h blank_read_data = (0, read_data_wire d blank_read_data)"
    using assms(2) by (rule read_data.decap_encap)
  have fields: "rd_length (read_data_wire d x) = rd_length d" "rd_offset (read_data_wire d x) = rd_offset d"
    "rd_S_bit (read_data_wire d x) = 0" "rd_MaxCmdSN (read_data_wire d x) = rd_MaxCmdSN d" for x
    using assms(3) by (simp_all add: read_data_wire_def c_bool_def)
  have "rd_length d < 0x1000000" using assms(2) by (simp add: read_data_ok_def)
  then have small: "length data < 2 ^ 31" using assms(5) by (simp add: word_less_nat_alt)
  have recv: "i_recv ISCSI_HEADER_LEN s = (int ISCSI_HEADER_LEN, ?h, ?s)"
    using i_recv_padded [OF assms(4)] by (simp add: h ISCSI_HEADER_LEN_def)
  have scsi: "i_scsi p (s\<lparr>i_in := x, i_MaxCmdSN := y\<rparr>) = i_scsi p s"
      "i_scsi p (s\<lparr>i_in := x\<rparr>) = i_scsi p s" for x y
    by (simp_all add: i_scsi_def)
  have "ic_ptr (i_cmd_mem s p) \<noteq> No_Req" using assms(1) by (auto simp: reading_def i_scsi_def)
  then have handler: "scsi_read_data_i env p ?h ?s = IReturn 0
      (data_stored p (take (length data) (drop (unat (rd_offset d)) (recv_addrs q))) data rest
         (s\<lparr>i_MaxCmdSN := rd_MaxCmdSN d\<rparr>))"
    using assms(1,5-8) read_data_into_ok [of q "?s\<lparr>i_MaxCmdSN := rd_MaxCmdSN d\<rparr>" data rest
        "rd_length d" "rd_offset d" p] small
    by (simp add: scsi_read_data_i_def dec fields reading_def scsi Let_def data_stored_def)
      (metis linorder_not_less)
  show ?thesis
    using assms(1) handler
    by (simp add: rx_step_def recv h(2) iscsi_itt_read_data reading_def rx_dispatch_def rx_execute_def opcodes)
qed

end
