(* ===== verification/Target_Read.thy ===== *)
theory Target_Read
  imports Target_Transfer
begin

section \<open>A read command at the target\<close>

text \<open>
  What \<^verbatim>\<open>device_command_done\<close> sends for a read command that went well: the data in pieces, and the
  response.  The initiator's side of the exchange and the disk device rest on it.
\<close>

text \<open>The response of a target to a read command that went well.\<close>

definition read_response :: "target_session \<Rightarrow> u32 \<Rightarrow> u32 \<Rightarrow> iscsi_scsi_rsp_t" where
  "read_response t tag DataSN =
    \<lparr>sr_bidi_overflow = 0, sr_bidi_underflow = 0, sr_overflow = 0, sr_underflow = 0, sr_response = 0,
     sr_status = 0, sr_ahs_len = 0, sr_length = 0, sr_tag = tag, sr_StatSN = t_StatSN t,
     sr_ExpCmdSN = t_ExpCmdSN t, sr_MaxCmdSN = t_MaxCmdSN t, sr_ExpDataSN = DataSN,
     sr_bidi_res_cnt = 0, sr_basic_res_cnt = 0\<rparr>"

lemma command_release_out:
  "command_release env p s = Return rc s' \<Longrightarrow> t_out s' = t_out s"
  by (auto simp: command_release_def Let_def split: option.splits prod.splits if_splits)

lemma device_command_done_read:
  fixes t :: target_session and tp :: ptr
  defines "sc \<equiv> scsi_of t tp" and "gather \<equiv> tg_gather (t_cmd_mem t tp)"
    and "seg \<equiv> max_data_seg_length (t_sess_params t)"
  assumes "ps = pieces (unat seg) (unat (sc_trans_len sc)) 0"
    and "\<not> tg_send_data (t_cmd_mem t tp)" "\<not> t_slock t" "\<not> t_UsePhaseCollapsedRead t"
    and "sends_ok env (2 * length ps + 1) t"
    and "sc_status sc = 0" "sc_fromdev sc \<noteq> 0" "sc_todev sc = 0" "0 < sc_trans_len sc"
    and "gather \<noteq> []" "NULL \<notin> iov_base ` set gather" "iovs_len gather = unat (sc_trans_len sc)"
    and "unat (sc_trans_len sc) + unat seg \<le> 2 ^ 32" "seg \<noteq> 0"
  shows "\<exists>t'. device_command_done env tp t = command_release env tp t' \<and>
    t_out t' = t_out t @ read_messages t sc (iovs_addrs gather) 0 ps @
      [iscsi_scsi_rsp_encap (read_response t (sc_tag sc) (of_nat (length ps)))] \<and>
    t_cmds t' = t_cmds t \<and> t_header_q t' = t_header_q t \<and> t_cmd_q t' = t_cmd_q t \<and>
    sc_tag (scsi_of t' tp) = sc_tag sc \<and> tg_header (t_cmd_mem t' tp) = tg_header (t_cmd_mem t tp) \<and>
    sc_cdb (scsi_of t' tp) = sc_cdb sc \<and> t_mem t' = t_mem t \<and> t_disk t' = t_disk t \<and> t_osd t' = t_osd t \<and>
    t_cmd_mem t' tp = (t_cmd_mem t tp)\<lparr>tg_send_data := True, tg_scsi := scsi_of t' tp\<rparr> \<and> \<not> t_slock t'"
proof -
  define t1 where "t1 = upd_scsi tp (\<lambda>sc. sc\<lparr>sc_bytes_fromdev := 0\<rparr>) (upd_cmd tp (\<lambda>c. c\<lparr>tg_send_data := True\<rparr>) t)"
  have sc1: "scsi_of t1 tp = sc\<lparr>sc_bytes_fromdev := 0\<rparr>" and g1: "tg_gather (t_cmd_mem t1 tp) = gather"
    by (simp_all add: t1_def scsi_of_def upd_scsi_def sc_def gather_def)
  have same: "t_slock t1 = t_slock t" "t_UsePhaseCollapsedRead t1 = t_UsePhaseCollapsedRead t"
      "t_sess_params t1 = t_sess_params t" "t_sends t1 = t_sends t" "t_out t1 = t_out t"
      "t_StatSN t1 = t_StatSN t" "t_ExpCmdSN t1 = t_ExpCmdSN t" "t_MaxCmdSN t1 = t_MaxCmdSN t" "t_mem t1 = t_mem t"
    by (simp_all add: t1_def upd_scsi_def)
  define ms where "ms = read_messages t sc (iovs_addrs gather) 0 ps"
  have ms1: "read_messages t1 (scsi_of t1 tp) (iovs_addrs gather) 0 ps = ms"
    unfolding ms_def using assms(7) by (intro read_messages_cong) (simp_all add: same sc1)
  let ?t2 = "add_fromdev tp (sc_trans_len sc) (sent (2 * length ps) ms t1)"
  have send: "send_read_data env tp t1 k = k (of_nat (length ps)) ?t2" for k
    using send_read_data_pieces [of ps t1 tp env k] assms(4-17) sc1 g1 ms1
    by (simp add: same seg_def sends_ok_def)
  have body: "device_command_done env tp t = scsi_response env tp (of_nat (length ps)) ?t2 (command_release env tp)"
    using assms(5,7,9,10) send
    by (simp add: device_command_done_def t1_def [symmetric] sc1 Let_def same)
  have sc2: "scsi_of ?t2 tp = sc\<lparr>sc_bytes_fromdev := sc_trans_len sc\<rparr>"
    using sc1 by (simp add: add_fromdev_def scsi_of_def upd_scsi_def)
  have t2: "t_slock ?t2 = False" "t_StatSN ?t2 = t_StatSN t" "t_ExpCmdSN ?t2 = t_ExpCmdSN t"
      "t_MaxCmdSN ?t2 = t_MaxCmdSN t" "t_out ?t2 = t_out t @ ms"
      "t_sends ?t2 = t_sends t + 2 * length ps"
    using assms(6) by (simp_all add: same) (simp_all add: add_fromdev_def upd_scsi_def same)
  have ok: "e_send_ok env (t_sends t + 2 * length ps)"
    using assms(8) by (simp add: sends_ok_def)
  have rel: "t_cmds ?t2 = t_cmds t" "t_header_q ?t2 = t_header_q t" "t_cmd_q ?t2 = t_cmd_q t"
      "tg_header (t_cmd_mem ?t2 tp) = tg_header (t_cmd_mem t tp)" "t_mem ?t2 = t_mem t" "t_disk ?t2 = t_disk t"
      "t_osd ?t2 = t_osd t" "t_cmd_mem ?t2 tp = (t_cmd_mem t tp)\<lparr>tg_send_data := True, tg_scsi := scsi_of ?t2 tp\<rparr>"
    by (simp_all add: t1_def sent_def add_fromdev_def upd_scsi_def upd_cmd_def scsi_of_def)
  show ?thesis
    using body sc2 t2 rel ok assms(9-11)
    by (auto simp: scsi_response_def Let_def spin_lock_def send_header_and_iov_def sock_send_def
        read_response_def ms_def [symmetric] spin_unlock_def scsi_of_def)
qed

text \<open>The response to a command without data from the device.\<close>

definition status_response :: "target_session \<Rightarrow> iscsi_scsi_cmd_t \<Rightarrow> iscsi_scsi_rsp_t" where
  "status_response t sc = (read_response t (sc_tag sc) 0)\<lparr>sr_status := sc_status sc\<rparr>"

lemma device_command_done_status:
  fixes t :: target_session and tp :: ptr
  defines "sc \<equiv> scsi_of t tp"
  assumes "\<not> tg_send_data (t_cmd_mem t tp)" "\<not> t_slock t" "\<not> t_UsePhaseCollapsedRead t"
    and "e_send_ok env (t_sends t)" "sc_fromdev sc = 0" "sc_status sc \<noteq> 0 \<Longrightarrow> sc_length sc = 0"
    and "sc_todev sc \<noteq> 0 \<Longrightarrow> sc_status sc = 0 \<Longrightarrow> sc_bytes_todev sc = sc_trans_len sc"
  shows "\<exists>t'. device_command_done env tp t = command_release env tp t' \<and>
    t_out t' = t_out t @ [iscsi_scsi_rsp_encap (status_response t sc)] \<and>
    t_cmds t' = t_cmds t \<and> t_header_q t' = t_header_q t \<and> t_cmd_q t' = t_cmd_q t \<and>
    sc_tag (scsi_of t' tp) = sc_tag sc \<and> tg_header (t_cmd_mem t' tp) = tg_header (t_cmd_mem t tp) \<and>
    sc_cdb (scsi_of t' tp) = sc_cdb sc \<and> t_mem t' = t_mem t \<and> t_disk t' = t_disk t \<and> t_osd t' = t_osd t \<and>
    t_cmd_mem t' tp = (t_cmd_mem t tp)\<lparr>tg_send_data := True, tg_scsi := scsi_of t' tp\<rparr> \<and> \<not> t_slock t'"
  using assms(2-8)
  by (auto simp: device_command_done_def scsi_response_def Let_def spin_lock_def send_header_and_iov_def
      sock_send_def status_response_def read_response_def spin_unlock_def scsi_of_def upd_scsi_def
      upd_cmd_def sc_def)

subsection \<open>Release\<close>

text \<open>What the end of a command needs: its tag in the table, and room in the queues.\<close>

definition releasable :: "target_session \<Rightarrow> ptr \<Rightarrow> bool" where
  "releasable s p \<longleftrightarrow>
     (\<exists>A m q. hash_rel (t_cmds s) A m \<and> m (sc_tag (scsi_of s p)) = Some q \<and> q \<noteq> NULL) \<and>
     q_count (t_header_q s) < q_depth (t_header_q s) \<and> q_count (t_cmd_q s) < q_depth (t_cmd_q s)"

lemma releasable_cong:
  "t_cmds s' = t_cmds s \<Longrightarrow> t_header_q s' = t_header_q s \<Longrightarrow> t_cmd_q s' = t_cmd_q s \<Longrightarrow>
   sc_tag (scsi_of s' p) = sc_tag (scsi_of s p) \<Longrightarrow> releasable s' p = releasable s p"
  by (simp add: releasable_def)

lemma command_release_ok:
  assumes "releasable s p"
  shows "\<exists>s'. command_release env p s = Return 0 s' \<and> t_out s' = t_out s \<and> t_mem s' = t_mem s \<and>
    t_disk s' = t_disk s \<and> t_osd s' = t_osd s \<and> t_cmd_mem s' = t_cmd_mem s \<and> t_slock s' = t_slock s"
proof -
  obtain A m q where h: "hash_rel (t_cmds s) A m" "m (sc_tag (scsi_of s p)) = Some q" "q \<noteq> NULL"
    using assms by (auto simp: releasable_def)
  obtain t where "hash_remove (t_cmds s) (sc_tag (scsi_of s p)) = Some (q, t)"
    using cmds.del_some [OF h(1,2)] by blast
  then show ?thesis
    using assms h(3)
    by (auto simp: command_release_def Let_def releasable_def iscsi_queue_insert_def iscsi_queue_full_def)
qed

end
