(* ===== verification/Initiator_Exchange.thy ===== *)
theory Initiator_Exchange
  imports Target_Read Initiator_Read
begin

section \<open>A command on both ends\<close>

text \<open>
  The target's side of a transfer and the initiator's put together: what \<^verbatim>\<open>device_command_done\<close> of
  \<^verbatim>\<open>target.c\<close> sends is read by \<^verbatim>\<open>rx_worker_proc_i\<close> of \<^verbatim>\<open>initiator.c\<close>.
\<close>

subsection \<open>The read data of a command\<close>

lemma data_stored_simps [simp]:
  "i_in (data_stored p addrs data rest s) = rest"
  "i_mem (data_stored p addrs data rest s) = put_mem addrs data (i_mem s)"
  "i_sess_params (data_stored p addrs data rest s) = i_sess_params s"
  "i_cmds (data_stored p addrs data rest s) = i_cmds s"
  "i_scsi p (data_stored p addrs data rest s) = map_option (\<lambda>q. q\<lparr>is_cmd := (is_cmd q)
     \<lparr>sc_bytes_fromdev := sc_bytes_fromdev (is_cmd q) + of_nat (length data)\<rparr>\<rparr>) (i_scsi p s)"
  "ic_tx_done (i_cmd_mem (data_stored p addrs data rest s) p) = ic_tx_done (i_cmd_mem s p)"
  "ic_type (i_cmd_mem (data_stored p addrs data rest s) p) = ic_type (i_cmd_mem s p)"
  "ic_tag (i_cmd_mem (data_stored p addrs data rest s) p) = ic_tag (i_cmd_mem s p)"
  "ic_aborted (i_cmd_mem (data_stored p addrs data rest s) p) = ic_aborted (i_cmd_mem s p)"
  "i_done (data_stored p addrs data rest s) = i_done s"
  by (simp_all add: data_stored_def) (simp_all add: i_scsi_def upd_is_cmd_def i_upd_def split: request.split)

lemma reading_stored:
  "reading p tag q s \<Longrightarrow> reading p tag (q\<lparr>is_cmd := (is_cmd q)
     \<lparr>sc_bytes_fromdev := sc_bytes_fromdev (is_cmd q) + of_nat (length data)\<rparr>\<rparr>)
     (data_stored p addrs data rest (s\<lparr>i_MaxCmdSN := mx\<rparr>))"
  by (auto simp: reading_def) (auto simp: i_scsi_def)

text \<open>What the data of a command leaves of it.\<close>

definition same_command :: "ptr \<Rightarrow> initiator_session \<Rightarrow> initiator_session \<Rightarrow> bool" where
  "same_command p s s' \<longleftrightarrow>
    i_cmds s' = i_cmds s \<and> i_done s' = i_done s \<and> ic_tag (i_cmd_mem s' p) = ic_tag (i_cmd_mem s p) \<and>
    ic_aborted (i_cmd_mem s' p) = ic_aborted (i_cmd_mem s p)"

lemma same_command_stored:
  "same_command p (data_stored p addrs data rest (s\<lparr>i_MaxCmdSN := mx\<rparr>)) s' \<Longrightarrow> same_command p s s'"
  by (simp add: same_command_def)

lemma rx_rounds_read_data:
  assumes "reading p (sc_tag sc) q s" "\<not> t_UsePhaseCollapsedRead t"
    and "i_in s = on_wire (read_messages t sc addrs sn ps) @ rest"
    and "length addrs = unat (sc_trans_len (is_cmd q))"
    and "\<forall>(off, len)\<in>set ps. 0 < len \<and> len < 2 ^ 24 \<and> off + len \<le> length addrs \<and>
           (max_data_seg_length (i_sess_params s) = 0 \<or> len \<le> unat (max_data_seg_length (i_sess_params s)))"
  shows "\<exists>s' q'. rx_rounds env fresh (length ps) s = IReturn 0 s' \<and> i_in s' = rest \<and>
    i_mem s' = store_pieces ps (recv_addrs q) (map (t_mem t) addrs) (i_mem s) \<and>
    reading p (sc_tag sc) q' s' \<and> same_command p s s' \<and> q' = q\<lparr>is_cmd := (is_cmd q)
     \<lparr>sc_bytes_fromdev := sc_bytes_fromdev (is_cmd q) + of_nat (sum_list (map snd ps))\<rparr>\<rparr>"
  using assms
proof (induction ps arbitrary: s q sn)
  case Nil
  then show ?case by (simp add: same_command_def)
next
  case (Cons pc ps)
  obtain off len where pc: "pc = (off, len)" by (cases pc)
  note a = Cons.prems [unfolded pc]
  define d where "d = read_data_pdu t sc (off + len = length addrs) (of_nat len) sn (of_nat off)"
  define data where "data = map (t_mem t) (take len (drop off addrs))"
  have b: "0 < len" "len < 2 ^ 24" "off + len \<le> length addrs"
      "max_data_seg_length (i_sess_params s) = 0 \<or> len \<le> unat (max_data_seg_length (i_sess_params s))"
    using a(5) by auto
  have lim: "length addrs < 2 ^ LENGTH(32)" unfolding a(4) by (rule unsigned_less)
  have w: "unat (of_nat len :: u32) = len" "unat (of_nat off :: u32) = off"
    using b lim by (auto intro!: of_nat_inverse)
  have d: "rd_task_tag d = sc_tag sc" "rd_S_bit d = 0" "rd_length d = of_nat len" "rd_offset d = of_nat off"
      "rd_MaxCmdSN d = t_MaxCmdSN t" "rd_lun d = 0"
    by (simp_all add: d_def read_data_pdu_def)
  have len: "length data = len" using b(3) by (simp add: data_def)
  let ?in = "on_wire (read_messages t sc addrs (sn + 1) ps) @ rest"
  let ?s = "data_stored p (take len (drop off (recv_addrs q))) data ?in (s\<lparr>i_MaxCmdSN := t_MaxCmdSN t\<rparr>)"
  let ?q = "q\<lparr>is_cmd := (is_cmd q)\<lparr>sc_bytes_fromdev := sc_bytes_fromdev (is_cmd q) + of_nat (length data)\<rparr>\<rparr>"
  have step: "rx_step env fresh s = IReturn 0 ?s"
    using rx_step_read_data [of p d q s data ?in env fresh] a(1,3,4) b
    by (simp add: d w len read_data_ok_def word_less_nat_alt word_le_nat_alt)
      (simp add: d_def data_def)
  have "reading p (sc_tag sc) ?q ?s" using reading_stored [OF a(1)] .
  from Cons.IH [OF this a(2)] obtain s' where
    "rx_rounds env fresh (length ps) ?s = IReturn 0 s'" "i_in s' = rest"
    "i_mem s' = store_pieces ps (recv_addrs ?q) (map (t_mem t) addrs) (i_mem ?s)"
    "reading p (sc_tag sc) (?q\<lparr>is_cmd := (is_cmd ?q)
     \<lparr>sc_bytes_fromdev := sc_bytes_fromdev (is_cmd ?q) + of_nat (sum_list (map snd ps))\<rparr>\<rparr>) s'" "same_command p ?s s'"
    using a(4,5) by auto
  then show ?case
    using step len same_command_stored by (auto simp: pc data_def take_map drop_map add.assoc)
qed

subsection \<open>A whole read command\<close>

text \<open>The initiator gets the response.\<close>

lemma iscsi_itt_scsi_rsp: "ntohl (load32 (iscsi_scsi_rsp_encap r) 16) = sr_tag r"
  by (simp add: iscsi_scsi_rsp_encap_def wire)

definition completed :: "ptr \<Rightarrow> int \<Rightarrow> initiator_session \<Rightarrow> initiator_session \<Rightarrow> bool" where
  "completed p st s s' \<longleftrightarrow> i_done s' = i_done s @ [(p, st)] \<and> i_mem s' = i_mem s \<and>
    (\<exists>A m. hash_rel (i_cmds s') A m \<and> m (ic_tag (i_cmd_mem s p)) = None)"

lemma rx_step_good_response:
  assumes "hash_rel (i_cmds s) A m" "m (sr_tag r) = Some p" "p \<noteq> NULL"
    and "ic_tx_done (i_cmd_mem s p)" "\<not> ic_aborted (i_cmd_mem s p)"
    and "ic_type (i_cmd_mem s p) = ISCSI_SCSI_CMD" "ic_tag (i_cmd_mem s p) = sr_tag r"
    and "i_scsi p s = Some q" "sc_tag (is_cmd q) = sr_tag r"
    and "sc_todev (is_cmd q) = 0" "sc_fromdev (is_cmd q) \<noteq> 0"
    and "r = read_response t (sr_tag r) sn" "i_in s = padded (iscsi_scsi_rsp_encap r) @ rest"
    and "n_callback env (length (i_done s)) = 0"
  shows "\<exists>s'. rx_step env fresh s = IReturn 0 s' \<and> completed p 0 s s' \<and> i_in s' = rest \<and>
    i_scsi p s' = Some (q\<lparr>is_cmd := (is_cmd q)\<lparr>sc_status := 0\<rparr>\<rparr>)"
proof -
  let ?h = "iscsi_scsi_rsp_encap r" and ?s = "s\<lparr>i_in := rest\<rparr>"
  note h = scsi_rsp.length_encap [of r] scsi_rsp.opcode_encap [of r]
  have f: "sr_bidi_overflow r = 0" "sr_bidi_underflow r = 0" "sr_overflow r = 0" "sr_underflow r = 0"
    "sr_response r = 0" "sr_status r = 0" "sr_length r = 0" "sr_bidi_res_cnt r = 0" "sr_ahs_len r = 0"
    by (subst assms(12); simp add: read_response_def)+
  have dec: "iscsi_scsi_rsp_decap ?h blank_scsi_rsp = (0, scsi_rsp_wire r blank_scsi_rsp)"
    by (rule scsi_rsp.decap_encap) (simp add: scsi_rsp_ok_def f)
  have recv: "i_recv ISCSI_HEADER_LEN s = (int ISCSI_HEADER_LEN, ?h, ?s)"
    using i_recv_padded [OF assms(13)] by (simp add: h ISCSI_HEADER_LEN_def)
  have get: "hash_get (i_cmds s) (sr_tag r) = Some (p, i_cmds s)"
    using cmds.get_rel [OF assms(1), of "sr_tag r"] assms(2) by simp
  obtain a h' where del: "hash_remove (i_cmds s) (sr_tag r) = Some (p, h')" "hash_rel h' (A - {a}) (m(sr_tag r := None))"
    using cmds.del_some [OF assms(1,2)] by blast
  have ptr: "ic_ptr (i_cmd_mem s p) = Scsi_Req q"
    using assms(8) by (simp add: i_scsi_def split: request.splits)
  show ?thesis
    using assms(3-7,9-11,14) get del ptr
    by (simp add: rx_step_def recv h(2) iscsi_itt_scsi_rsp rx_dispatch_def rx_execute_def opcodes
        scsi_response_i_def dec scsi_rsp_wire_def f c_bool_def i_scsi_def upd_is_cmd_def i_upd_def
        i_set_status_def iscsi_done_i_def Let_def transfer_status_def completed_def)
      (rule exI [of _ "A - {a}"], rule exI [of _ "m(sr_tag r := None)"], simp)
qed

lemma rx_rounds_append:
  "rx_rounds env fresh n s = IReturn 0 s' \<Longrightarrow> rx_rounds env fresh (n + m) s = rx_rounds env fresh m s'"
proof (induction n arbitrary: s)
  case (Suc n)
  then show ?case by (cases "rx_step env fresh s") (auto split: if_splits)
qed simp

lemma pieces_total: "0 < b \<Longrightarrow> sum_list (map snd (pieces b n off)) = n"
proof (induction b n off rule: pieces.induct)
  case (1 b n off)
  then show ?case by (cases "n = 0") (simp_all add: pieces_step)
qed

end
