(* ===== verification/Initiator_Invariants.thy ===== *)
theory Initiator_Invariants
  imports Initiator_Worker
begin

section \<open>What a completed command has done\<close>

text \<open>
  Whatever thread of a session completes a command, and by whatever PDU: a write command that was
  not aborted is reported as good only when all its bytes have been sent.  The proof goes through
  every handler of \<open>Initiator_Control\<close>, \<open>Initiator_Data\<close> and \<open>Initiator_Worker\<close>: each either leaves the
  list of completions alone, or ends with \<^verbatim>\<open>iscsi_done_i\<close>.
\<close>

subsection \<open>Completions of an outcome\<close>

definition all_sent :: "ptr \<Rightarrow> initiator_session \<Rightarrow> bool" where
  "all_sent p s \<longleftrightarrow> (\<forall>q. ic_ptr (i_cmd_mem s p) = Scsi_Req q \<and> ic_type (i_cmd_mem s p) = ISCSI_SCSI_CMD \<and>
     \<not> ic_aborted (i_cmd_mem s p) \<and> sc_todev (is_cmd q) \<noteq> 0 \<longrightarrow>
       sc_bytes_todev (is_cmd q) = sc_trans_len (is_cmd q))"

text \<open>\<open>l\<close> are the completions before.\<close>

definition done_ok :: "(ptr \<times> int) list \<Rightarrow> i_outcome \<Rightarrow> bool" where
  "done_ok l r \<longleftrightarrow> (\<forall>rc s. r = IReturn rc s \<longrightarrow>
     i_done s = l \<or> (\<exists>p v. i_done s = l @ [(p, v)] \<and> (v = 0 \<longrightarrow> all_sent p s)))"

definition silent :: "(ptr \<times> int) list \<Rightarrow> i_outcome \<Rightarrow> bool" where
  "silent l r \<longleftrightarrow> (\<forall>rc s. r = IReturn rc s \<longrightarrow> i_done s = l)"

lemma done_ok_simps [simp]:
  "done_ok l (IExits s)" "done_ok l (IWaits s)" "done_ok l IDiverges" "done_ok l IUndef"
  "silent l (IExits s)" "silent l (IWaits s)" "silent l IDiverges" "silent l IUndef"
  "silent l (IReturn rc s) \<longleftrightarrow> i_done s = l"
  by (simp_all add: done_ok_def silent_def)

lemma done_ok_return [intro]: "i_done s = l \<Longrightarrow> done_ok l (IReturn rc s)"
  by (simp add: done_ok_def)

lemma silent_done: "silent l r \<Longrightarrow> done_ok l r"
  by (simp add: silent_def done_ok_def)

lemma done_ok_bind:
  "silent l r \<Longrightarrow> (\<And>rc s. i_done s = l \<Longrightarrow> done_ok l (k rc s)) \<Longrightarrow> done_ok l (bind_i r k)"
  by (cases r) (auto simp: silent_def)

lemma silent_bind:
  "silent l r \<Longrightarrow> (\<And>rc s. i_done s = l \<Longrightarrow> silent l (k rc s)) \<Longrightarrow> silent l (bind_i r k)"
  by (cases r) (auto simp: silent_def)

lemma done_ok_last:
  "done_ok l r \<Longrightarrow> done_ok l (bind_i r (\<lambda>rc s. IReturn (f rc s) s))"
  by (cases r) (auto simp: done_ok_def)

text \<open>What the setters leave alone.\<close>

lemma i_done_upd [simp]:
  "i_done (i_upd p f s) = i_done s" "i_done (i_set_status p v s) = i_done s"
  "i_done (i_set_req p r s) = i_done s" "i_done (upd_is_cmd p g s) = i_done s"
  "i_done (sent_todev p n s) = i_done s" "i_done (i_wake_tx p s) = i_done s"
  by (simp_all add: i_upd_def i_set_status_def i_set_req_def upd_is_cmd_def sent_todev_def i_wake_tx_def)

lemma done_ok_iscsi_done [intro]: "i_done s = l \<Longrightarrow> done_ok l (iscsi_done_i env p s)"
  by (auto simp: iscsi_done_i_def Let_def done_ok_def all_sent_def i_set_status_def i_upd_def
      transfer_status_def split: option.splits prod.splits if_splits request.splits)

lemma done_ok_complete [intro]:
  "i_done s = l \<Longrightarrow> done_ok l (bind_i (iscsi_done_i env p s) (\<lambda>rc s. IReturn (f rc) s))"
  "i_done s = l \<Longrightarrow> done_ok l (i_callback env p ret s)"
  unfolding i_callback_def by (rule done_ok_last, rule done_ok_iscsi_done, assumption)+

text \<open>The branches of a handler one by one.\<close>

lemma done_ok_if: "(c \<Longrightarrow> done_ok l a) \<Longrightarrow> (\<not> c \<Longrightarrow> done_ok l b) \<Longrightarrow> done_ok l (if c then a else b)"
  by simp

lemma done_ok_let: "(\<And>y. y = x \<Longrightarrow> done_ok l (f y)) \<Longrightarrow> done_ok l (let y = x in f y)"
  by (simp add: Let_def)

lemma done_ok_pair: "(\<And>a b. x = (a, b) \<Longrightarrow> done_ok l (f a b)) \<Longrightarrow> done_ok l (case x of (a, b) \<Rightarrow> f a b)"
  by (cases x) simp

lemma done_ok_option:
  "(x = None \<Longrightarrow> done_ok l a) \<Longrightarrow> (\<And>y. x = Some y \<Longrightarrow> done_ok l (f y)) \<Longrightarrow>
   done_ok l (case x of None \<Rightarrow> a | Some y \<Rightarrow> f y)"
  by (cases x) simp_all

lemma done_ok_sum:
  "(\<And>y. x = Inl y \<Longrightarrow> done_ok l (f y)) \<Longrightarrow> (\<And>y. x = Inr y \<Longrightarrow> done_ok l (g y)) \<Longrightarrow>
   done_ok l (case x of Inl y \<Rightarrow> f y | Inr y \<Rightarrow> g y)"
  by (cases x) simp_all

lemma done_ok_request:
  "(r = No_Req \<Longrightarrow> done_ok l a) \<Longrightarrow> (\<And>q. r = Scsi_Req q \<Longrightarrow> done_ok l (f1 q)) \<Longrightarrow>
   (\<And>q d. r = Nop_Req q d \<Longrightarrow> done_ok l (f2 q d)) \<Longrightarrow> (\<And>q d. r = Text_Req q d \<Longrightarrow> done_ok l (f3 q d)) \<Longrightarrow>
   (\<And>q d. r = Login_Req q d \<Longrightarrow> done_ok l (f4 q d)) \<Longrightarrow> (\<And>q. r = Logout_Req q \<Longrightarrow> done_ok l (f5 q)) \<Longrightarrow>
   done_ok l (case r of No_Req \<Rightarrow> a | Scsi_Req q \<Rightarrow> f1 q | Nop_Req q d \<Rightarrow> f2 q d | Text_Req q d \<Rightarrow> f3 q d
     | Login_Req q d \<Rightarrow> f4 q d | Logout_Req q \<Rightarrow> f5 q)"
  by (cases r) simp_all

lemmas done_branches = done_ok_if done_ok_pair done_ok_option done_ok_sum done_ok_request

lemma silent_branches:
  "(c \<Longrightarrow> silent l a) \<Longrightarrow> (\<not> c \<Longrightarrow> silent l b) \<Longrightarrow> silent l (if c then a else b)"
  "(\<And>y z. pr = (y, z) \<Longrightarrow> silent l (f y z)) \<Longrightarrow> silent l (case pr of (y, z) \<Rightarrow> f y z)"
  "(op = None \<Longrightarrow> silent l a) \<Longrightarrow> (\<And>y. op = Some y \<Longrightarrow> silent l (g y)) \<Longrightarrow>
   silent l (case op of None \<Rightarrow> a | Some y \<Rightarrow> g y)"
  "(\<And>y. sm = Inl y \<Longrightarrow> silent l (g1 y)) \<Longrightarrow> (\<And>z. sm = Inr z \<Longrightarrow> silent l (g2 z)) \<Longrightarrow>
   silent l (case sm of Inl y \<Rightarrow> g1 y | Inr z \<Rightarrow> g2 z)"
  "(rq = No_Req \<Longrightarrow> silent l a) \<Longrightarrow> (\<And>q. rq = Scsi_Req q \<Longrightarrow> silent l (f1 q)) \<Longrightarrow>
   (\<And>q d. rq = Nop_Req q d \<Longrightarrow> silent l (f2 q d)) \<Longrightarrow> (\<And>q d. rq = Text_Req q d \<Longrightarrow> silent l (f3 q d)) \<Longrightarrow>
   (\<And>q d. rq = Login_Req q d \<Longrightarrow> silent l (f4 q d)) \<Longrightarrow> (\<And>q. rq = Logout_Req q \<Longrightarrow> silent l (f5 q)) \<Longrightarrow>
   silent l (case rq of No_Req \<Rightarrow> a | Scsi_Req q \<Rightarrow> f1 q | Nop_Req q d \<Rightarrow> f2 q d | Text_Req q d \<Rightarrow> f3 q d
     | Login_Req q d \<Rightarrow> f4 q d | Logout_Req q \<Rightarrow> f5 q)"
  by (simp, cases pr, simp, cases op, simp, simp, cases sm, simp, simp, cases rq, simp_all)

subsection \<open>Messages\<close>

lemma i_done_send:
  "i_send env m s = (ok, s') \<Longrightarrow> i_done s' = i_done s"
  "i_send_iov env n vs s = (ok, s') \<Longrightarrow> i_done s' = i_done s"
  by (auto simp: i_send_def i_send_iov_def Let_def split: if_splits)

lemma i_done_send_two:
  "i_send_header_and_data env h d s = (ok, s') \<Longrightarrow> i_done s' = i_done s"
  "i_send_header_and_iov env h n vs s = (ok, s') \<Longrightarrow> i_done s' = i_done s"
  by (auto simp: i_send_header_and_data_def i_send_header_and_iov_def dest!: i_done_send
      split: prod.splits if_splits)

lemma i_done_recv:
  "i_recv n s = (m, bs, s') \<Longrightarrow> i_done s' = i_done s"
  "i_recv_iov n vs s = (m, s') \<Longrightarrow> i_done s' = i_done s"
  by (auto simp: i_recv_def i_recv_iov_def Let_def split: if_splits prod.splits)

lemmas i_done_io = i_done_send i_done_send_two i_done_recv

lemma i_parse_then_done:
  "i_done s = l \<Longrightarrow> (\<And>rc s. i_done s = l \<Longrightarrow> done_ok l (k rc s)) \<Longrightarrow> done_ok l (i_parse_then env out txt s k)"
  by (auto simp: i_parse_then_def split: option.splits)

lemma params_out_done:
  "i_done s = l \<Longrightarrow> (\<And>rc s. i_done s = l \<Longrightarrow> done_ok l (k rc s)) \<Longrightarrow> done_ok l (params_out env ty sec s k)"
  by (auto simp: params_out_def Let_def split: prod.splits intro!: i_parse_then_done)

subsection \<open>Control\<close>

lemma login_redirect_done: "login_redirect env s = Some s' \<Longrightarrow> i_done s' = i_done s"
  by (auto simp: login_redirect_def Let_def split: option.splits if_splits)

lemma logout_phase_i_done: "logout_phase_i p s = (rc, s') \<Longrightarrow> i_done s' = i_done s"
  by (auto simp: logout_phase_i_def Let_def split: if_splits)

lemmas i_done_parts = i_done_io login_redirect_done logout_phase_i_done

lemma nop_out_i_done: "nop_out_i env nop data s = (rc, nop', s') \<Longrightarrow> i_done s' = i_done s"
  by (auto simp: nop_out_i_def Let_def split: prod.splits if_splits dest!: i_done_io)

lemma text_command_i_done: "text_command_i env cmd txt s = (rc, cmd', s') \<Longrightarrow> i_done s' = i_done s"
  by (auto simp: text_command_i_def Let_def split: prod.splits dest!: i_done_io)

lemma login_command_i_done: "login_command_i env cmd txt s = (rc, cmd', s') \<Longrightarrow> i_done s' = i_done s"
  by (auto simp: login_command_i_def Let_def split: prod.splits dest!: i_done_io)

lemma logout_command_i_done: "logout_command_i env cmd s = (rc, s') \<Longrightarrow> i_done s' = i_done s"
  by (auto simp: logout_command_i_def split: prod.splits dest!: i_done_io)

lemma nop_in_i_done: "done_ok (i_done s) (nop_in_i env p h s)"
  unfolding nop_in_i_def nop_in_unsolicited_def Let_def
  by (intro done_branches) (auto dest!: i_done_parts)

lemma logout_response_i_done: "done_ok (i_done s) (logout_response_i env p h s)"
  unfolding logout_response_i_def  Let_def
  by (intro done_branches) (auto dest!: i_done_parts)

lemma text_answer_done:
  "i_done s = l \<Longrightarrow> (\<And>r s. i_done s = l \<Longrightarrow> done_ok l (k r s)) \<Longrightarrow> done_ok l (text_answer env rsp txt s k)"
  by (auto simp: text_answer_def Let_def split: prod.splits intro!: i_parse_then_done)

lemma text_response_i_done: "done_ok (i_done s) (text_response_i env p h s)"
  unfolding text_response_i_def  Let_def
  by (intro done_branches text_answer_done) (auto dest!: i_done_parts)

lemma login_accepted_done:
  assumes "i_done s = l" "\<And>ok s. i_done s = l \<Longrightarrow> done_ok l (k ok s)"
  shows "done_ok l (login_accepted env p cmd txt rsp s k)"
  using assms
  by (auto simp: login_accepted_def login_full_feature_def Let_def intro!: params_out_done i_parse_then_done)

lemma login_response_i_done: "done_ok (i_done s) (login_response_i env p h s)"
  unfolding login_response_i_def  Let_def
  by (intro done_branches login_accepted_done i_parse_then_done) (auto dest!: i_done_parts)

lemma reject_i_done: "done_ok (i_done s) (reject_i env h s)"
  unfolding reject_i_def  Let_def
  by (intro done_branches) (auto dest!: i_done_parts)

lemma async_msg_i_done: "done_ok (i_done s) (async_msg_i fresh h s)"
  unfolding async_msg_i_def Let_def
  by (intro done_branches) (auto dest!: i_done_parts)

subsection \<open>Data\<close>

text \<open>The loops that send data complete nothing.\<close>

lemma r2t_data_loop_silent:
  assumes "r2t_data_loop env p r2t sg dn sn s = Some r"
  shows "silent (i_done s) r"
proof (rule r2t_data_loop.raw_induct [OF _ assms], goal_cases)
  case (1 f env p r2t sg dn sn s r)
  from 1(2) show ?case
    by (auto simp: Let_def split: option.splits prod.splits if_splits dest!: 1(1) i_done_io)
qed

lemma unsolicited_loop_silent:
  assumes "unsolicited_loop env p sg sn s = Some r"
  shows "case r of Inl o' \<Rightarrow> silent (i_done s) o' | Inr s' \<Rightarrow> i_done s' = i_done s"
proof (rule unsolicited_loop.raw_induct [OF _ assms], goal_cases)
  case (1 f env p sg sn s r)
  from 1(2) show ?case
    by (auto simp: Let_def split: option.splits prod.splits if_splits sum.splits dest!: 1(1) i_done_io)
qed

lemma send_command_done: "send_command env p sc sg s = (ok, s') \<Longrightarrow> i_done s' = i_done s"
  by (auto simp: send_command_def Let_def split: option.splits prod.splits if_splits dest!: i_done_io)

lemma scsi_command_i_silent: "silent (i_done s) (scsi_command_i env p s)"
  unfolding scsi_command_i_def Let_def
  by (intro silent_branches) (auto dest!: send_command_done unsolicited_loop_silent)

lemma scsi_r2t_tx_i_silent: "silent (i_done s) (scsi_r2t_tx_i env p s)"
  by (auto simp: scsi_r2t_tx_i_def Let_def split: option.splits dest!: r2t_data_loop_silent)

lemma scsi_r2t_rx_i_done: "done_ok (i_done s) (scsi_r2t_rx_i p h s)"
  unfolding scsi_r2t_rx_i_def Let_def by (intro done_branches) auto

lemma read_data_into_done:
  "read_data_into q off len p s = Inr s' \<Longrightarrow> i_done s' = i_done s"
  "read_data_into q off len p s = Inl r \<Longrightarrow> silent (i_done s) r"
  by (auto simp: read_data_into_def Let_def split: option.splits prod.splits if_splits dest!: i_done_io)

lemma scsi_read_data_i_done: "done_ok (i_done s) (scsi_read_data_i env p h s)"
  unfolding scsi_read_data_i_def Let_def
  by (intro done_branches) (auto dest!: read_data_into_done intro: silent_done)

lemma scsi_response_i_done: "done_ok (i_done s) (scsi_response_i env p h s)"
  unfolding scsi_response_i_def Let_def by (intro done_branches) (auto dest!: i_done_io)

subsection \<open>The threads\<close>

lemma tx_failure_done: "i_done s = l \<Longrightarrow> silent l (tx_failure s)"
  by (simp add: tx_failure_def)

lemma send_silent:
  "i_done s = l \<Longrightarrow> silent l (scsi_command_i env p s)" "i_done s = l \<Longrightarrow> silent l (scsi_r2t_tx_i env p s)"
  using scsi_command_i_silent scsi_r2t_tx_i_silent by fastforce+

lemma tx_scsi_silent: "i_done s = l \<Longrightarrow> silent l (tx_scsi env p s)"
  unfolding tx_scsi_def Let_def
  by (intro silent_branches silent_bind send_silent tx_failure_done) simp_all

lemma tx_execute_silent: "i_done s = l \<Longrightarrow> silent l (tx_execute env p s)"
  unfolding tx_execute_def Let_def
  by (intro silent_branches tx_failure_done tx_scsi_silent)
    (simp_all add: nop_out_i_done text_command_i_done login_command_i_done logout_command_i_done)

lemma tx_finish_done: "i_done s = l \<Longrightarrow> done_ok l (tx_finish env p s)"
proof -
  assume "i_done s = l"
  then have "done_ok l (iscsi_done_i env p s)" ..
  then show ?thesis
    using \<open>i_done s = l\<close>
    by (cases "iscsi_done_i env p s")
      (auto simp: tx_finish_def Let_def tx_failure_def done_ok_def all_sent_def split: request.splits if_splits)
qed

lemma tx_step_done: "done_ok (i_done s) (tx_step env s)"
  unfolding tx_step_def Let_def
  by (intro done_branches done_ok_bind tx_execute_silent tx_finish_done tx_failure_done [THEN silent_done])
    (auto dest!: nop_out_i_done)

lemma rx_execute_done: "done_ok (i_done s) (rx_execute env fresh p h s)"
  unfolding rx_execute_def Let_def
  by (intro done_branches scsi_response_i_done scsi_read_data_i_done scsi_r2t_rx_i_done nop_in_i_done
      login_response_i_done text_response_i_done logout_response_i_done reject_i_done async_msg_i_done)
    auto

lemma rx_dispatch_done: "i_done s = l \<Longrightarrow> done_ok l (rx_dispatch env fresh p h s)"
  using rx_execute_done [of s env fresh p h]
  by (cases "rx_execute env fresh p h s")
    (auto simp: rx_dispatch_def tx_failure_def done_ok_def all_sent_def)

lemma rx_step_done: "done_ok (i_done s) (rx_step env fresh s)"
  unfolding rx_step_def Let_def
  by (intro done_branches rx_dispatch_done tx_failure_done [THEN silent_done]) (auto dest!: i_done_io)

lemma initiator_abort_done: "done_ok (i_done s) (initiator_abort env p s)"
  unfolding initiator_abort_def Let_def
  by (intro done_branches) auto

lemma initiator_enqueue_done: "done_ok (i_done s) (initiator_enqueue env type req p s)"
  unfolding initiator_enqueue_def Let_def
  by (intro done_branches) auto

end
