(* ===== verification/Initiator_Properties.thy ===== *)
theory Initiator_Properties
  imports Initiator_Exchange Initiator_Invariants
begin

section \<open>Properties of an initiator\<close>

text \<open>
  The properties of a session of \<^verbatim>\<open>initiator.c\<close>: whole read and write commands, what their
  completion means, the order of the queue, and where the code fails.
\<close>

subsection \<open>The queue of commands\<close>

lemma iscsi_done_i_queue: "iscsi_done_i env p s = IReturn rc s' \<Longrightarrow> i_tx_queue s' = i_tx_queue s"
  by (auto simp: iscsi_done_i_def Let_def i_set_status_def i_upd_def
      split: option.splits prod.splits if_splits request.splits)

lemma i_callback_queue: "i_callback env p ret s = IReturn rc s' \<Longrightarrow> i_tx_queue s' = i_tx_queue s"
  by (cases "iscsi_done_i env p s") (auto simp: i_callback_def dest: iscsi_done_i_queue)

text \<open>Taking the first command off and putting it back at the end.\<close>

lemma queue_turn:
  assumes "queue_inv q" "queue_abs q = x # xs"
  shows "\<exists>q1 q2. iscsi_queue_remove q = (x, q1) \<and> queue_abs q1 = xs \<and>
    iscsi_queue_insert q1 x = (0, q2) \<and> queue_inv q2 \<and> queue_abs q2 = xs @ [x]"
proof -
  have c: "q_count q = Suc (length xs)" using assms(2) by (metis length_Cons length_queue_abs)
  note r = remove_some [OF assms(1)]
  obtain y q1 where q1: "iscsi_queue_remove q = (y, q1)" by fastforce
  then have q1': "y = x" "queue_inv q1" "queue_abs q1 = xs" "q_depth q1 = q_depth q"
    using r c assms(2) by simp_all
  have "q_count q1 = length xs" using q1'(3) by (metis length_queue_abs)
  moreover have "q_count q \<le> q_depth q" using assms(1) by (simp add: queue_inv_def)
  ultimately have "q_count q1 < q_depth q1" using c q1'(4) by simp
  note i = insert_room [OF q1'(2) this, of x]
  obtain rc q2 where q2: "iscsi_queue_insert q1 x = (rc, q2)" by fastforce
  show ?thesis using q1 q1' q2 i by simp
qed

lemma abort_loop_found:
  assumes "queue_inv q" "queue_abs q = xs @ p # ys" "NULL \<notin> set xs" "p \<noteq> NULL" "distinct xs"
    and "start \<notin> set xs" "ic_tag (mem p) = tag" "\<forall>x\<in>set xs. ic_tag (mem x) \<noteq> tag"
  shows "\<exists>q'. abort_loop mem tag start q = Some (True, q') \<and> queue_abs q' = ys @ xs"
  using assms
proof (induction xs arbitrary: q start ys)
  case Nil
  then have "queue_abs q = p # ys" by simp
  from queue_turn [OF Nil(1) this] obtain q1 where
    "iscsi_queue_remove q = (p, q1)" "queue_abs q1 = ys" by blast
  then show ?case using Nil by (subst abort_loop.simps) simp
next
  case (Cons x xs)
  then have "queue_abs q = x # xs @ p # ys" by simp
  from queue_turn [OF Cons.prems(1) this] obtain q1 q2 where
    q: "iscsi_queue_remove q = (x, q1)" "iscsi_queue_insert q1 x = (0, q2)" "queue_inv q2"
      "queue_abs q2 = xs @ p # (ys @ [x])" by auto
  let ?start = "if start = NULL then x else start"
  have "?start \<notin> set xs" using Cons.prems by auto
  then obtain q' where "abort_loop mem tag ?start q2 = Some (True, q')" "queue_abs q' = (ys @ [x]) @ xs"
    using Cons.IH [OF q(3,4), of ?start] Cons.prems by auto
  then show ?case
    using q Cons.prems by (subst abort_loop.simps) auto
qed

lemma abort_loop_once_round:
  assumes "queue_inv q" "queue_abs q = ws @ start # vs" "NULL \<notin> set ws" "start \<noteq> NULL" "start \<notin> set ws"
    and "\<forall>x\<in>set (ws @ [start]). ic_tag (mem x) \<noteq> tag"
  shows "\<exists>q'. abort_loop mem tag start q = Some (True, q') \<and> queue_abs q' = vs @ ws @ [start]"
  using assms
proof (induction ws arbitrary: q vs)
  case Nil
  then have "queue_abs q = start # vs" by simp
  from queue_turn [OF Nil(1) this] obtain q1 q2 where
    "iscsi_queue_remove q = (start, q1)" "iscsi_queue_insert q1 start = (0, q2)"
    "queue_abs q2 = vs @ [start]" by blast
  then show ?case using Nil by (subst abort_loop.simps) simp
next
  case (Cons x ws)
  then have "queue_abs q = x # ws @ start # vs" by simp
  from queue_turn [OF Cons.prems(1) this] obtain q1 q2 where
    q: "iscsi_queue_remove q = (x, q1)" "iscsi_queue_insert q1 x = (0, q2)" "queue_inv q2"
      "queue_abs q2 = ws @ start # (vs @ [x])" by auto
  from Cons.IH [OF q(3,4)] Cons.prems obtain q' where
    "abort_loop mem tag start q2 = Some (True, q')" "queue_abs q' = (vs @ [x]) @ ws @ [start]" by auto
  then show ?case using q Cons.prems by (subst abort_loop.simps) auto
qed

lemma abort_loop_absent:
  assumes "queue_inv q" "NULL \<notin> set (queue_abs q)" "distinct (queue_abs q)"
    and "\<forall>x\<in>set (queue_abs q). ic_tag (mem x) \<noteq> tag"
  shows "\<exists>q'. abort_loop mem tag NULL q = Some (True, q') \<and> queue_abs q' = rotate1 (queue_abs q)"
proof (cases "queue_abs q")
  case Nil
  then have "q_count q = 0" by simp
  then show ?thesis using Nil by (subst abort_loop.simps) (simp add: remove_empty)
next
  case (Cons x xs)
  from queue_turn [OF assms(1) Cons] obtain q1 q2 where
    q: "iscsi_queue_remove q = (x, q1)" "iscsi_queue_insert q1 x = (0, q2)" "queue_inv q2"
      "queue_abs q2 = xs @ x # []" by auto
  from abort_loop_once_round [OF q(3,4), of mem tag] assms(2-4) Cons obtain q' where
    "abort_loop mem tag x q2 = Some (True, q')" "queue_abs q' = [] @ xs @ [x]" by auto
  then show ?thesis using q Cons assms(2,4) by (subst abort_loop.simps) auto
qed

text \<open>Buffers that the data of a write command can be sent from.\<close>

definition send_ready :: "initiator_scsi \<Rightarrow> bool" where
  "send_ready q \<longleftrightarrow> NULL \<notin> iov_base ` set (send_iov q) \<and>
    iovs_len (send_iov q) = unat (sc_trans_len (is_cmd q)) \<and> length (send_iov q) \<le> CONFIG_INITIATOR_MAX_SG"

lemma send_ready_given: "send_ready q \<Longrightarrow> \<not> (is_send_sg q = [] \<and> is_send_data q = NULL)"
  by (auto simp: send_ready_def send_iov_def)

lemma ic_ptr_of_scsi: "i_scsi p s = Some q \<Longrightarrow> ic_ptr (i_cmd_mem s p) = Scsi_Req q"
  by (simp add: i_scsi_def split: request.splits)

lemma i_scsi_CmdSN: "i_scsi p (s\<lparr>i_CmdSN := x\<rparr>) = i_scsi p s"
  by (simp add: i_scsi_def)

text \<open>A read command that is waiting for its data.\<close>

definition outstanding_read :: "ptr \<Rightarrow> iscsi_scsi_cmd_t \<Rightarrow> initiator_scsi \<Rightarrow> initiator_session \<Rightarrow> bool" where
  "outstanding_read p sc q s \<longleftrightarrow>
    (\<exists>A m. hash_rel (i_cmds s) A m \<and> m (sc_tag sc) = Some p) \<and> p \<noteq> NULL \<and>
    ic_tx_done (i_cmd_mem s p) \<and> \<not> ic_aborted (i_cmd_mem s p) \<and>
    ic_type (i_cmd_mem s p) = ISCSI_SCSI_CMD \<and> ic_tag (i_cmd_mem s p) = sc_tag sc \<and>
    i_scsi p s = Some q \<and> recv_ready q \<and> distinct (recv_addrs q) \<and>
    sc_tag (is_cmd q) = sc_tag sc \<and> sc_trans_len (is_cmd q) = sc_trans_len sc \<and>
    sc_todev (is_cmd q) = 0 \<and> sc_fromdev (is_cmd q) \<noteq> 0 \<and> sc_bytes_fromdev (is_cmd q) = 0"


subsection \<open>A sample session\<close>

definition sample_initiator_env :: initiator_env where
  "sample_initiator_env = \<lparr>n_chap = sample_env, n_key0 = [], n_hostname = ''host'', n_TargetName = ''disk'',
     n_InitialR2T = ''Yes'', n_ImmediateData = [], n_MaxRecvDataSegmentLength = [],
     n_FirstBurstLength = [], n_MaxBurstLength = [], n_fix_address = False, n_num_targets = 1,
     n_send_ok = (\<lambda>n. True), n_callback = (\<lambda>n. 0), n_text_room = 1024\<rparr>"

definition sample_scsi :: initiator_scsi where
  "sample_scsi = \<lparr>is_cmd = blank_scsi_cmd\<lparr>sc_tag := 7, sc_fromdev := 1, sc_trans_len := 10\<rparr>,
     is_send_data = NULL, is_send_sg = [], is_recv_data = NULL,
     is_recv_sg = [\<lparr>iov_base = 300, iov_len = 3\<rparr>, \<lparr>iov_base = 400, iov_len = 7\<rparr>]\<rparr>"

definition sample_initiator :: initiator_session where
  "sample_initiator =
    \<lparr>i_CmdSN = 1, i_ExpStatSN = 1, i_MaxCmdSN = 8, i_isid = 0, i_tsih = 1, i_cid = 0, i_text = state_of [],
     i_sess_params = limits 0 0 8, i_redirected = False, i_full_feature = True, i_logged_in = True,
     i_error = False, i_destroying = False, i_ip = ''10.0.0.1'', i_port = 3260, i_cmds = one_entry_table,
     i_cmd_mem = (\<lambda>p. blank_initiator_cmd\<lparr>ic_ptr := Scsi_Req sample_scsi, ic_type := ISCSI_SCSI_CMD,
        ic_tx_done := True, ic_status := -1, ic_tag := 7\<rparr>),
     i_tx_queue = \<lparr>q_head = 0, q_tail = 0, q_count = 0, q_elem = [0, 0], q_depth = 1\<rparr>,
     i_nop_out = blank_nop_out, i_nop_out_waiting = False, i_nop_in_count = 0, i_tag = 8, i_hostno = 0,
     i_in = [], i_out = [], i_sends = 0, i_mem = (\<lambda>a. 0), i_done = []\<rparr>"

definition writing_scsi :: initiator_scsi where
  "writing_scsi = \<lparr>is_cmd = blank_scsi_cmd\<lparr>sc_tag := 7, sc_todev := 1, sc_trans_len := 10\<rparr>,
     is_send_data = NULL, is_send_sg = [\<lparr>iov_base = 300, iov_len = 3\<rparr>, \<lparr>iov_base = 400, iov_len = 7\<rparr>],
     is_recv_data = NULL, is_recv_sg = []\<rparr>"

definition sample_writer :: "iscsi_sess_param \<Rightarrow> u32 \<Rightarrow> u32 \<Rightarrow> initiator_session" where
  "sample_writer sp off len = sample_initiator\<lparr>i_sess_params := sp,
     i_cmd_mem := (\<lambda>p. blank_initiator_cmd\<lparr>ic_ptr := Scsi_Req writing_scsi, ic_type := ISCSI_SCSI_CMD,
        ic_tag := 7, ic_r2t := blank_r2t\<lparr>r2_offset := off, r2_length := len\<rparr>\<rparr>)\<rparr>"

lemma sample_writer_simps [simp]:
  "i_scsi p (sample_writer sp off len) = Some writing_scsi"
  "ic_tag (i_cmd_mem (sample_writer sp off len) p) = 7"
  "r2_offset (ic_r2t (i_cmd_mem (sample_writer sp off len) p)) = off"
  "r2_length (ic_r2t (i_cmd_mem (sample_writer sp off len) p)) = len"
  "i_sess_params (sample_writer sp off len) = sp" "i_out (sample_writer sp off len) = []"
  "i_isid (sample_writer sp off len) = 0" "i_CmdSN (sample_writer sp off len) = 1"
  by (simp_all add: sample_writer_def i_scsi_def sample_initiator_def)

lemma writing_ready: "send_ready writing_scsi"
  by (simp add: send_ready_def send_iov_def writing_scsi_def NULL_def CONFIG_INITIATOR_MAX_SG_def
      blank_scsi_cmd_def)

definition reading_target :: target_session where
  "reading_target = sample_session\<lparr>t_sess_params := limits 4 0 0, t_cmds := one_entry_table,
     t_cmd_q := \<lparr>q_head = 0, q_tail = 0, q_count = 0, q_elem = [0, 0], q_depth = 1\<rparr>,
     t_header_q := \<lparr>q_head = 0, q_tail = 0, q_count = 0, q_elem = [0, 0], q_depth = 1\<rparr>\<rparr>"

subsection \<open>Read commands\<close>

lemma read_sent_on_wire:
  fixes t :: target_session and tp :: ptr
  defines "sc \<equiv> scsi_of t tp" and "gather \<equiv> tg_gather (t_cmd_mem t tp)"
    and "seg \<equiv> max_data_seg_length (t_sess_params t)"
  defines "ps \<equiv> pieces (unat seg) (unat (sc_trans_len sc)) 0"
  assumes "\<not> tg_send_data (t_cmd_mem t tp)" "\<not> t_slock t" "\<not> t_UsePhaseCollapsedRead t"
    and "\<forall>i. e_send_ok denv i" "sc_status sc = 0" "sc_fromdev sc \<noteq> 0" "sc_todev sc = 0"
    and "0 < sc_trans_len sc" "gather \<noteq> []" "NULL \<notin> iov_base ` set gather"
    and "iovs_len gather = unat (sc_trans_len sc)" "unat (sc_trans_len sc) + unat seg \<le> 2 ^ 32"
    and "seg \<noteq> 0" "device_command_done denv tp t = Return 0 t'"
  shows "on_wire (drop (length (t_out t)) (t_out t')) =
    on_wire (read_messages t sc (iovs_addrs gather) 0 ps) @
      padded (iscsi_scsi_rsp_encap (read_response t (sc_tag sc) (of_nat (length ps))))"
proof -
  let ?r = "iscsi_scsi_rsp_encap (read_response t (sc_tag sc) (of_nat (length ps)))"
  obtain t1 where "device_command_done denv tp t = command_release denv tp t1"
      "t_out t1 = t_out t @ read_messages t sc (iovs_addrs gather) 0 ps @ [?r]"
    using device_command_done_read [of ps t tp denv] assms(5-17)
    by (auto simp: ps_def sc_def gather_def seg_def sends_ok_def)
  then have "t_out t' = t_out t @ read_messages t sc (iovs_addrs gather) 0 ps @ [?r]"
    using assms(18) command_release_out [of denv tp t1 0 t'] by simp
  then show ?thesis by (simp add: on_wire_def)
qed

text \<open>The response after all data completes the command.\<close>

lemma good_response_completes:
  assumes "outstanding_read p sc q s" "same_command p s s1" "reading p (sc_tag sc) q1 s1"
    and "i_in s1 = padded (iscsi_scsi_rsp_encap (read_response t (sc_tag sc) n))" "n_callback ienv (length (i_done s)) = 0"
    and "is_cmd q1 = (is_cmd q)\<lparr>sc_bytes_fromdev := b\<rparr>"
  shows "\<exists>s'. rx_step ienv fresh s1 = IReturn 0 s' \<and> completed p 0 s1 s' \<and> i_in s' = [] \<and>
    i_scsi p s' = Some (q1\<lparr>is_cmd := (is_cmd q1)\<lparr>sc_status := 0\<rparr>\<rparr>)"
proof -
  obtain A m where am: "hash_rel (i_cmds s) A m" "m (sc_tag sc) = Some p"
    using assms(1) by (auto simp: outstanding_read_def)
  show ?thesis
  proof (rule rx_step_good_response)
    show "hash_rel (i_cmds s1) A m" using am(1) assms(2) by (simp add: same_command_def)
    let ?r = "read_response t (sc_tag sc) n"
    show "?r = read_response t (sr_tag ?r) n" by (simp add: read_response_def)
    show "i_in s1 = padded (iscsi_scsi_rsp_encap ?r) @ []" using assms(4) by simp
    show "n_callback ienv (length (i_done s1)) = 0" using assms(2,5) by (simp add: same_command_def)
  qed (use am(2) assms in \<open>simp_all add: read_response_def reading_def same_command_def outstanding_read_def\<close>)
qed

lemma outstanding_reading:
  assumes "outstanding_read p sc q s"
  shows "reading p (sc_tag sc) q s" "recv_ready q" "distinct (recv_addrs q)"
    "sc_trans_len (is_cmd q) = sc_trans_len sc" "sc_bytes_fromdev (is_cmd q) = 0"
proof -
  obtain A m where am: "hash_rel (i_cmds s) A m" "m (sc_tag sc) = Some p"
    using assms by (auto simp: outstanding_read_def)
  show "reading p (sc_tag sc) q s"
    using cmds.get_rel [OF am(1), of "sc_tag sc"] am(2) assms by (simp add: reading_def outstanding_read_def)
qed (use assms in \<open>simp_all add: outstanding_read_def\<close>)

text \<open>
  C9. A read command completes: if the initiator has a read outstanding under the tag of a target's
  command, and its connection carries exactly what the target's \<^verbatim>\<open>device_command_done\<close> has sent for
  it, then the receiving thread takes all of it, reports the command done with status 0 once, has
  the bytes of the target's scatter list in the buffers of the command in order, and no other byte
  of memory is changed.
\<close>

theorem read_command_completes:
  fixes t :: target_session and tp :: ptr and s :: initiator_session and p :: ptr
  defines "sc \<equiv> scsi_of t tp" and "gather \<equiv> tg_gather (t_cmd_mem t tp)"
    and "seg \<equiv> max_data_seg_length (t_sess_params t)"
  assumes "\<not> tg_send_data (t_cmd_mem t tp)" "\<not> t_slock t" "\<not> t_UsePhaseCollapsedRead t"
    and "\<forall>i. e_send_ok denv i" "sc_status sc = 0" "sc_fromdev sc \<noteq> 0" "sc_todev sc = 0"
    and "0 < sc_trans_len sc" "gather \<noteq> []" "NULL \<notin> iov_base ` set gather"
    and "iovs_len gather = unat (sc_trans_len sc)" "unat (sc_trans_len sc) + unat seg \<le> 2 ^ 32"
    and "seg \<noteq> 0" "seg < 2 ^ 24" "device_command_done denv tp t = Return 0 t'"
    and "outstanding_read p sc q s" "i_in s = on_wire (drop (length (t_out t)) (t_out t'))"
    and "max_data_seg_length (i_sess_params s) = 0 \<or> seg \<le> max_data_seg_length (i_sess_params s)"
    and "n_callback ienv (length (i_done s)) = 0"
  shows "\<exists>n s' q'. rx_rounds ienv fresh n s = IReturn 0 s' \<and> i_in s' = [] \<and>
    i_done s' = i_done s @ [(p, 0)] \<and>
    map (i_mem s') (recv_addrs q) = map (t_mem t) (iovs_addrs gather) \<and>
    (\<forall>a. a \<notin> set (recv_addrs q) \<longrightarrow> i_mem s' a = i_mem s a) \<and>
    i_scsi p s' = Some q' \<and> sc_bytes_fromdev (is_cmd q') = sc_trans_len sc"
proof -
  define ps where "ps = pieces (unat seg) (unat (sc_trans_len sc)) 0"
  let ?A = "iovs_addrs gather"
  define r where "r = read_response t (sc_tag sc) (of_nat (length ps))"
  have b: "0 < unat seg" using assms(16) by (simp add: unat_gt_0)
  have i: "i_in s = on_wire (read_messages t sc ?A 0 ps) @ padded (iscsi_scsi_rsp_encap r)"
    using read_sent_on_wire [of t tp denv t'] assms(4-16,18,20)
    by (simp add: ps_def r_def sc_def gather_def seg_def)
  note o = outstanding_reading [OF assms(19)]
  have A: "length ?A = unat (sc_trans_len (is_cmd q))" using assms(14) o(4) by simp
  have "unat seg < 2 ^ 24" using assms(17) by (simp add: word_less_nat_alt)
  then have pcs: "\<forall>(off, len)\<in>set ps. 0 < len \<and> len < 2 ^ 24 \<and> off + len \<le> length ?A \<and>
      (max_data_seg_length (i_sess_params s) = 0 \<or> len \<le> unat (max_data_seg_length (i_sess_params s)))"
    using pieces_bounds [of _ _ "unat seg" "unat (sc_trans_len sc)" 0] assms(21) A o(4)
    by (fastforce simp: ps_def word_le_nat_alt)
  obtain s1 q1 where 1: "rx_rounds ienv fresh (length ps) s = IReturn 0 s1" "i_in s1 = padded (iscsi_scsi_rsp_encap r)"
      "i_mem s1 = store_pieces ps (recv_addrs q) (map (t_mem t) ?A) (i_mem s)"
      "reading p (sc_tag sc) q1 s1" "same_command p s s1"
      "q1 = q\<lparr>is_cmd := (is_cmd q)\<lparr>sc_bytes_fromdev := sc_bytes_fromdev (is_cmd q) + of_nat (sum_list (map snd ps))\<rparr>\<rparr>"
    using rx_rounds_read_data [OF o(1) assms(6) i A pcs] by blast
  obtain s2 where 2: "rx_step ienv fresh s1 = IReturn 0 s2" "completed p 0 s1 s2" "i_in s2 = []"
      "i_scsi p s2 = Some (q1\<lparr>is_cmd := (is_cmd q1)\<lparr>sc_status := 0\<rparr>\<rparr>)"
    using good_response_completes [OF assms(19) 1(5,4) 1(2) [unfolded r_def] assms(22)] 1(6) by auto
  have run: "rx_rounds ienv fresh (length ps + 1) s = IReturn 0 s2"
    using rx_rounds_append [OF 1(1), of 1] 2(1) by simp
  have mem: "i_mem s2 = put_mem (recv_addrs q) (map (t_mem t) ?A) (i_mem s)"
    using 1(3) 2(2) b A length_recv_addrs [OF o(2)] o(4)
    by (simp add: completed_def ps_def store_pieces_all)
  moreover have "map (i_mem s2) (recv_addrs q) = map (t_mem t) ?A"
    using put_mem_nth [OF o(3)] length_recv_addrs [OF o(2)] A mem by (intro nth_equalityI) simp_all
  moreover have "sum_list (map snd ps) = unat (sc_trans_len sc)"
    using pieces_total [OF b] by (simp add: ps_def)
  moreover have "i_done s2 = i_done s @ [(p, 0)]" using 2(2) 1(5) by (simp add: completed_def same_command_def)
  ultimately show ?thesis
    using run 2(3,4) 1(6) o(5) by (intro exI [of _ "length ps + 1"] exI [of _ s2] exI) (auto simp: put_mem_other)
qed

lemma sample_outstanding:
  "outstanding_read 90 (scsi_of reading_target 100) sample_scsi (sample_initiator\<lparr>i_in := x\<rparr>)"
  using exI [of "\<lambda>A. \<exists>m. hash_rel one_entry_table A m \<and> m 7 = Some 90" "{100}"]
    exI [of "\<lambda>m. hash_rel one_entry_table {100} m \<and> m 7 = Some 90" "[7 \<mapsto> 90]"] one_entry_rel
  by (auto simp: outstanding_read_def reading_target_def sample_initiator_def sample_scsi_def i_scsi_def
      scsi_of_def sample_session_def session_start_def sample_cmd_def blank_target_cmd_def blank_scsi_cmd_def
      NULL_def recv_ready_def recv_addrs_def iov_addrs_def blank_initiator_cmd_def)

theorem read_command_completes_witness:
  "\<exists>t' n s'. device_command_done sample_device 100 reading_target = Return 0 t' \<and>
     rx_rounds sample_initiator_env 200 n
       (sample_initiator\<lparr>i_in := on_wire (drop (length (t_out reading_target)) (t_out t'))\<rparr>) = IReturn 0 s' \<and>
     i_done s' = [(90, 0)]"
proof -
  let ?t = reading_target
  have t: "\<not> tg_send_data (t_cmd_mem ?t 100)" "\<not> t_slock ?t" "\<not> t_UsePhaseCollapsedRead ?t"
    "\<forall>i. e_send_ok sample_device i" "sends_ok sample_device n ?t"
    "scsi_of ?t 100 = blank_scsi_cmd\<lparr>sc_tag := 7, sc_fromdev := 1, sc_trans_len := 10\<rparr>"
    "tg_gather (t_cmd_mem ?t 100) = [\<lparr>iov_base = 100, iov_len = 4\<rparr>, \<lparr>iov_base = 200, iov_len = 6\<rparr>]"
    "max_data_seg_length (t_sess_params ?t) = 4" "t_cmds ?t = one_entry_table" for n
    by (simp_all add: reading_target_def sample_session_def session_start_def scsi_of_def sample_cmd_def
        sends_ok_def sample_device_def limits_def blank_target_cmd_def)
  obtain t1 where t1: "device_command_done sample_device 100 ?t = command_release sample_device 100 t1"
      "t_cmds t1 = one_entry_table" "t_header_q t1 = t_header_q ?t" "t_cmd_q t1 = t_cmd_q ?t"
      "sc_tag (scsi_of t1 100) = 7"
    using device_command_done_read [of _ ?t 100 sample_device, OF refl t(1-3,5)] t
    by (auto simp: blank_scsi_cmd_def NULL_def)
  obtain h where "hash_remove one_entry_table 7 = Some (90, h)"
    using cmds.del_some [OF one_entry_rel, of 7 90] by auto
  then obtain t' where t': "device_command_done sample_device 100 ?t = Return 0 t'"
    using t1 by (auto simp: command_release_def NULL_def reading_target_def iscsi_queue_insert_def
        iscsi_queue_full_def Let_def)
  then show ?thesis
    using read_command_completes [OF t(1-4) _ _ _ _ _ _ _ _ _ _ t' sample_outstanding,
        of "on_wire (drop (length (t_out ?t)) (t_out t'))" sample_initiator_env 200] t
    by (simp add: blank_scsi_cmd_def NULL_def sample_initiator_def limits_def sample_initiator_env_def) blast
qed

subsection \<open>Write commands\<close>

text \<open>Each piece of an answer has its offset and its length, and the last is marked.\<close>

lemma r2t_answer_piece:
  assumes "(off, len) \<in> set (pieces b (unat (r2_length r2t)) (unat (r2_offset r2t)))"
  shows "wd_offset (r2t_answer s sc r2t sn off len) = of_nat off"
    "wd_length (r2t_answer s sc r2t sn off len) = of_nat len"
    "wd_final (r2t_answer s sc r2t sn off len) \<noteq> 0 \<longleftrightarrow> off + len = unat (r2_offset r2t) + unat (r2_length r2t)"
proof -
  let ?n = "unat (r2_length r2t)" and ?k = "off + len - unat (r2_offset r2t)"
  from pieces_bounds [OF assms] have l: "unat (r2_offset r2t) \<le> off" "off + len \<le> unat (r2_offset r2t) + ?n" by auto
  have sum: "(of_nat off :: u32) - r2_offset r2t + of_nat len = of_nat ?k"
    using l by (simp add: of_nat_diff)
  have "?n < 2 ^ LENGTH(32)" by (rule unsigned_less)
  then have "unat (of_nat ?k :: u32) = ?k" using l by (intro of_nat_inverse [OF refl]) simp
  then have "(of_nat ?k :: u32) = r2_length r2t \<longleftrightarrow> ?k = ?n" by (simp only: word_unat_eq_iff)
  moreover have "?k = ?n \<longleftrightarrow> off + len = unat (r2_offset r2t) + ?n" using l by linarith
  ultimately show "wd_offset (r2t_answer s sc r2t sn off len) = of_nat off"
    "wd_length (r2t_answer s sc r2t sn off len) = of_nat len"
    "wd_final (r2t_answer s sc r2t sn off len) \<noteq> 0 \<longleftrightarrow> off + len = unat (r2_offset r2t) + ?n"
    by (simp_all add: r2t_answer_def r2t_data_pdu_def sum)
qed

text \<open>
  C10. The answer to an R2T is exactly what it asks for: data PDUs of at least one and at most
  \<^verbatim>\<open>MaxRecvDataSegmentLength\<close> bytes, each with its offset and length and followed by those bytes of
  the command's buffers, which together cover the range of the R2T once and in order; the last one
  and only that is marked final.  (R2Ts from offset 0 that are answered by one PDU must ask for the
  whole transfer, see \<open>r2t_from_start_fails\<close>.)
\<close>

theorem r2t_answer_covers:
  fixes s :: initiator_session and p :: ptr
  defines "r2t \<equiv> ic_r2t (i_cmd_mem s p)" and "seg \<equiv> max_data_seg_length (i_sess_params s)"
  defines "first \<equiv> unat (r2_offset r2t)" and "n \<equiv> unat (r2_length r2t)"
  defines "ps \<equiv> pieces (unat (if seg = 0 then r2_length r2t else seg)) n first"
  assumes "p \<noteq> NULL" "i_scsi p s = Some q" "ic_tag (i_cmd_mem s p) = sc_tag (is_cmd q)" "send_ready q"
    and "r2_length r2t \<noteq> 0" "first + n \<le> unat (sc_trans_len (is_cmd q))"
    and "r2_offset r2t = 0 \<longrightarrow> r2_length r2t = sc_trans_len (is_cmd q) \<or> seg \<noteq> 0 \<and> seg < r2_length r2t"
    and "\<forall>i. n_send_ok env i"
  shows "\<exists>s'. scsi_r2t_tx_i env p s = IReturn 0 s' \<and>
    i_out s' = i_out s @ data_messages (r2t_answer s (is_cmd q) r2t) (i_mem s) (iovs_addrs (send_iov q)) 0 ps \<and>
    map_option (sc_bytes_todev \<circ> is_cmd) (i_scsi p s') = Some (sc_bytes_todev (is_cmd q) + r2_length r2t) \<and>
    concat (map (\<lambda>(off, len). [off..<off + len]) ps) = [first..<first + n] \<and>
    (\<forall>(off, len)\<in>set ps. 0 < len \<and> (seg \<noteq> 0 \<longrightarrow> len \<le> unat seg) \<and>
      (\<forall>sn. wd_offset (r2t_answer s (is_cmd q) r2t sn off len) = of_nat off \<and>
            wd_length (r2t_answer s (is_cmd q) r2t sn off len) = of_nat len \<and>
            (wd_final (r2t_answer s (is_cmd q) r2t sn off len) \<noteq> 0 \<longleftrightarrow> off + len = first + n)))"
proof -
  let ?s = "s\<lparr>i_MaxCmdSN := r2_MaxCmdSN r2t\<rparr>" and ?b = "unat (if seg = 0 then r2_length r2t else seg)"
  have b: "0 < ?b" using assms(10) by (simp add: unat_gt_0)
  have scsi: "i_scsi p ?s = Some q" using assms(7) by (simp add: i_scsi_def)
  have whole: "whole_or_cut ?b (iovs_len (send_iov q)) r2t"
    using assms(9,12) by (auto simp: whole_or_cut_def send_ready_def word_less_nat_alt)
  have len0: "0 < r2_length r2t" using assms(10) by (simp add: word_neq_0_conv)
  have sr: "NULL \<notin> iov_base ` set (send_iov q)" "length (send_iov q) \<le> CONFIG_INITIATOR_MAX_SG"
      "iovs_len (send_iov q) = unat (sc_trans_len (is_cmd q))"
    using assms(9) by (simp_all add: send_ready_def)
  have lim: "unat (sc_trans_len (is_cmd q)) < 2 ^ 32"
  proof -
    have "unat (sc_trans_len (is_cmd q)) < 2 ^ LENGTH(32)" by (rule unsigned_less)
    then show ?thesis by simp
  qed
  have "r2t_data_loop env p r2t (send_iov q) 0 0 ?s = Some (IReturn 0 (sent_todev p (of_nat n)
     (i_sent (2 * length ps)
        (data_messages (r2t_answer ?s (is_cmd q) r2t) (i_mem ?s) (iovs_addrs (send_iov q)) 0 ps) ?s)))"
    unfolding ps_def
    by (rule r2t_data_loop_pieces [OF scsi sr(1) refl sr(2)])
      (use assms(10-13) sr(3) lim len0 whole in
        \<open>simp_all add: first_def n_def seg_def i_sends_ok_def\<close>)
  then have run: "scsi_r2t_tx_i env p s = IReturn 0 (sent_todev p (r2_length r2t)
     (i_sent (2 * length ps)
        (data_messages (r2t_answer s (is_cmd q) r2t) (i_mem s) (iovs_addrs (send_iov q)) 0 ps) ?s))"
    using assms(6-8,10) send_ready_given [OF assms(9)] ic_ptr_of_scsi [OF assms(7)]
    by (auto simp: scsi_r2t_tx_i_def Let_def n_def r2t_def [symmetric])
  moreover have "concat (map (\<lambda>(off, len). [off..<off + len]) ps) = [first..<first + n]"
    unfolding ps_def by (rule pieces_tile [OF b])
  moreover have "0 < len \<and> (seg \<noteq> 0 \<longrightarrow> len \<le> unat seg) \<and>
      wd_offset (r2t_answer s (is_cmd q) r2t sn off len) = of_nat off \<and>
      wd_length (r2t_answer s (is_cmd q) r2t sn off len) = of_nat len \<and>
      (wd_final (r2t_answer s (is_cmd q) r2t sn off len) \<noteq> 0 \<longleftrightarrow> off + len = first + n)"
    if "(off, len) \<in> set ps" for off len sn
    using pieces_bounds [OF that [unfolded ps_def]] r2t_answer_piece [OF that [unfolded ps_def n_def first_def]]
    by (auto simp: n_def first_def split: if_splits)
  ultimately show ?thesis
    using scsi by (auto simp: sent_todev_def)
qed

theorem r2t_answer_covers_witness:
  "\<exists>s'. scsi_r2t_tx_i sample_initiator_env 90 (sample_writer (limits 4 0 8) 4 6) = IReturn 0 s' \<and>
    length (i_out s') = 4"
proof -
  have "pieces 4 6 4 = [(4, 4), (8, 2)]" by (simp add: pieces.simps)
  then show ?thesis
    using r2t_answer_covers [of 90 "sample_writer (limits 4 0 8) 4 6" writing_scsi sample_initiator_env]
      writing_ready
    by (auto simp: NULL_def limits_def sample_initiator_env_def writing_scsi_def blank_scsi_cmd_def)
qed

text \<open>
  An R2T that asks for the first bytes of a transfer, but not for all of it, and fits into one
  PDU makes the answer fail: the code then takes the scatter list of the whole transfer as it is.
\<close>

theorem r2t_from_start_fails:
  assumes "p \<noteq> NULL" "i_scsi p s = Some q" "ic_tag (i_cmd_mem s p) = sc_tag (is_cmd q)"
    and "r2_offset (ic_r2t (i_cmd_mem s p)) = 0" "r2_length (ic_r2t (i_cmd_mem s p)) \<noteq> 0"
    and "r2_length (ic_r2t (i_cmd_mem s p)) < sc_trans_len (is_cmd q)" "send_ready q"
    and "max_data_seg_length (i_sess_params s) = 0 \<or>
         r2_length (ic_r2t (i_cmd_mem s p)) \<le> max_data_seg_length (i_sess_params s)"
  shows "\<exists>s'. scsi_r2t_tx_i env p s = IReturn (-1) s'"
proof -
  let ?r2t = "ic_r2t (i_cmd_mem s p)" and ?s = "s\<lparr>i_MaxCmdSN := r2_MaxCmdSN (ic_r2t (i_cmd_mem s p))\<rparr>"
  have "i_scsi p ?s = Some q" using assms(2) by (simp add: i_scsi_def)
  moreover have "iovs_len (send_iov q) \<noteq> unat (r2_length ?r2t)"
    using assms(6,7) by (simp add: send_ready_def word_less_nat_alt)
  ultimately obtain s' where "r2t_data_loop env p ?r2t (send_iov q) 0 0 ?s = Some (IReturn (-1) s')"
    using r2t_data_loop_wrong [of p ?s q ?r2t "send_iov q" env] assms(4,5,8) by auto
  then show ?thesis
    using assms(1-3,5) send_ready_given [OF assms(7)] ic_ptr_of_scsi [OF assms(2)]
    by (auto simp: scsi_r2t_tx_i_def Let_def)
qed

theorem r2t_from_start_fails_witness:
  "\<exists>s'. scsi_r2t_tx_i sample_initiator_env 90 (sample_writer (limits 8 0 8) 0 6) = IReturn (-1) s'"
  using writing_ready
  by (intro r2t_from_start_fails [of _ _ writing_scsi])
    (simp_all add: NULL_def limits_def writing_scsi_def blank_scsi_cmd_def)

text \<open>
  C11. A write command goes out with as much data as the session allows: the command with its
  immediate data, then, if the session does not start with an R2T, data PDUs that cover exactly the
  bytes up to \<^verbatim>\<open>FirstBurstLength\<close> or the end of the transfer, in order and each within the limit of
  a segment.
\<close>

theorem write_sends_first_burst:
  fixes s :: initiator_session and p :: ptr
  defines "sp \<equiv> i_sess_params s" and "seg \<equiv> max_data_seg_length (i_sess_params s)"
  assumes "i_scsi p s = Some q" "sc_todev (is_cmd q) \<noteq> 0" "sc_bytes_todev (is_cmd q) = 0"
    and "sc_length (is_cmd q) \<le> sc_trans_len (is_cmd q)" "max_burst_length sp \<noteq> 0"
    and "unat (i_isid s) < n_num_targets env" "send_ready q" "\<forall>i. n_send_ok env i"
    and "sc = prepared_command s (is_cmd q)" "imm = unat (sc_length sc)" "goal = first_burst sp (is_cmd q)"
    and "ps = pieces (if seg = 0 then unat (sc_trans_len sc) else unat seg) (goal - imm) imm"
  shows "\<exists>s'. scsi_command_i env p s = IReturn 0 s' \<and>
    i_out s' = i_out s @ command_messages (i_mem s) (iovs_addrs (send_iov q)) sc @
      data_messages (unsolicited_answer s sc) (i_mem s) (iovs_addrs (send_iov q)) 0 ps \<and>
    map_option (sc_bytes_todev \<circ> is_cmd) (i_scsi p s') = Some (of_nat goal) \<and>
    i_CmdSN s' = i_CmdSN s + 1 \<and> imm \<le> goal \<and> goal \<le> unat (sc_trans_len (is_cmd q)) \<and>
    concat (map (\<lambda>(off, len). [off..<off + len]) ps) = [imm..<goal] \<and>
    (\<forall>(off, len)\<in>set ps. 0 < len \<and> (seg \<noteq> 0 \<longrightarrow> len \<le> unat seg))"
proof -
  let ?addrs = "iovs_addrs (send_iov q)" and ?b = "if seg = 0 then unat (sc_trans_len sc) else unat seg"
  define ms where "ms = command_messages (i_mem s) ?addrs sc @
      data_messages (unsolicited_answer s sc) (i_mem s) ?addrs 0 ps"
  have len: "sc_length sc = immediate_length sp (is_cmd q)" using assms(11) by (simp add: sp_def)
  have run: "scsi_command_i env p s = IReturn 0 ((i_sent (length ms) ms
     (upd_is_cmd p (\<lambda>_. sc\<lparr>sc_bytes_todev := of_nat goal\<rparr>) s))\<lparr>i_CmdSN := i_CmdSN s + 1\<rparr>)"
    unfolding assms(13)
  proof (rule scsi_command_i_ok [where ps = ps and imm = imm, OF assms(3-6) sp_def [THEN meta_eq_to_obj_eq]
        assms(7,8) _ _ _ assms(11)])
    show "ps = pieces (if max_data_seg_length sp = 0 then unat (sc_trans_len sc)
        else unat (max_data_seg_length sp)) (first_burst sp (is_cmd q) - imm) imm"
      using assms(13,14) by (simp only: seg_def sp_def)
  qed (use assms(9,10,12) len in \<open>simp_all add: send_ready_def ms_def i_sends_ok_def\<close>)
  have goal: "goal \<le> unat (sc_trans_len (is_cmd q))"
    using immediate_length_le [of sp "is_cmd q"]
    by (auto simp: assms(13) first_burst_def unsolicited_end_def Let_def word_le_nat_alt)
  moreover have imm: "imm \<le> goal"
    using first_burst_more(3) [of sp "is_cmd q"] by (simp add: assms(12,13) len)
  moreover have "concat (map (\<lambda>(off, len). [off..<off + len]) ps) = [imm..<goal]"
  proof (cases "?b = 0")
    case True
    then have "unat (sc_trans_len (is_cmd q)) = 0"
      using assms(11) by (cases "seg = 0") (simp_all add: unat_eq_0)
    then show ?thesis using goal imm by (simp add: assms(14))
  next
    case False
    then show ?thesis using pieces_tile [of ?b "goal - imm" imm] imm by (simp add: assms(14))
  qed
  moreover have "0 < len \<and> (seg \<noteq> 0 \<longrightarrow> len \<le> unat seg)" if "(off, len) \<in> set ps" for off len
    using pieces_bounds [OF that [unfolded assms(14)]] by auto
  ultimately show ?thesis
    using run assms(3) i_scsi_CmdSN by (auto simp: ms_def)
qed

definition first_burst_limits :: iscsi_sess_param where
  "first_burst_limits = \<lparr>max_burst_length = 16, first_burst_length = 8, max_data_seg_length = 4,
     initial_r2t = False, immediate_data = True\<rparr>"

theorem write_sends_first_burst_witness:
  "\<exists>s'. scsi_command_i sample_initiator_env 90 (sample_writer first_burst_limits 0 0) = IReturn 0 s' \<and>
    length (i_out s') = 4"
proof -
  let ?sc = "prepared_command (sample_writer first_burst_limits 0 0) (is_cmd writing_scsi)"
  have imm: "immediate_length first_burst_limits (is_cmd writing_scsi) = 4"
    by (simp add: immediate_length_def first_burst_limits_def writing_scsi_def blank_scsi_cmd_def MIN_u32_def)
  have goal: "first_burst first_burst_limits (is_cmd writing_scsi) = 8"
    unfolding first_burst_def imm
    by (simp add: unsolicited_end_def first_burst_limits_def writing_scsi_def blank_scsi_cmd_def)
  have len: "sc_length ?sc = 4" "sc_ahs_len ?sc = 0"
    by (simp add: imm, simp add: prepared_command_def writing_scsi_def blank_scsi_cmd_def)
  have "iovs_addrs (send_iov writing_scsi) \<noteq> []"
    by (simp add: send_iov_def writing_scsi_def iov_addrs_def)
  then have msgs: "length (command_messages m (iovs_addrs (send_iov writing_scsi)) ?sc) = 2" for m
    by (simp add: command_messages_def len imm)
  have ps: "pieces 4 4 4 = [(4, 4)]" by (simp add: pieces.simps)
  show ?thesis
    using write_sends_first_burst [of 90 "sample_writer first_burst_limits 0 0" writing_scsi
        sample_initiator_env, OF sample_writer_simps(1) _ _ _ _ _ writing_ready _ refl refl refl refl,
        unfolded sample_writer_simps len goal] msgs
    by (auto simp: imm ps first_burst_limits_def sample_initiator_env_def writing_scsi_def blank_scsi_cmd_def)
qed

subsection \<open>Order and completion\<close>

text \<open>
  SCSI commands and NOP-Outs wait for the login: before the full-feature phase the sending
  thread puts such a command back at the end of the queue and sends nothing.
\<close>

theorem commands_wait_for_login:
  assumes "\<not> i_full_feature s" "queue_inv (i_tx_queue s)" "queue_abs (i_tx_queue s) = p # ps" "p \<noteq> NULL"
    and "ic_type (i_cmd_mem s p) \<in> {ISCSI_SCSI_CMD, ISCSI_NOP_OUT}"
  shows "\<exists>q. tx_step env s = IReturn 0 (s\<lparr>i_tx_queue := q\<rparr>) \<and> queue_abs q = ps @ [p]"
proof -
  from queue_turn [OF assms(2,3)] obtain q1 q2 where
    q: "iscsi_queue_remove (i_tx_queue s) = (p, q1)" "iscsi_queue_insert q1 p = (0, q2)"
      "queue_abs q2 = ps @ [p]" by blast
  have "q_count (i_tx_queue s) \<noteq> 0" using assms(3) by (metis length_queue_abs list.size(3) queue_abs_Nil list.distinct(1))
  then show ?thesis
    using q assms(1,4,5)
    by (auto simp: tx_step_def iscsi_queue_depth_def early_command_def opcodes)
qed
lemma wrapped_ring_facts:
  "queue_inv wrapped_ring" "queue_abs wrapped_ring = [11, 12, 13, 14]"
  by (simp add: wrapped_ring_def queue_inv_def, code_simp)

theorem commands_wait_for_login_witness:
  "\<exists>q. tx_step sample_initiator_env (sample_initiator\<lparr>i_full_feature := False, i_tx_queue := wrapped_ring\<rparr>) =
     IReturn 0 (sample_initiator\<lparr>i_full_feature := False, i_tx_queue := q\<rparr>) \<and> queue_abs q = [12, 13, 14, 11]"
  using commands_wait_for_login [of "sample_initiator\<lparr>i_full_feature := False, i_tx_queue := wrapped_ring\<rparr>"
      11 "[12, 13, 14]" sample_initiator_env] wrapped_ring_facts
  by (simp add: sample_initiator_def NULL_def)

text \<open>
  Aborting a command changes the order of the others: those queued before it move behind those
  queued after it, and if the command is not in the queue any more (it has been sent already), the
  first command of the queue moves to its end.
\<close>

theorem abort_reorders_queue:
  assumes "initiator_abort env p s = IReturn rc s'" "queue_inv (i_tx_queue s)"
    and "NULL \<notin> set (queue_abs (i_tx_queue s))" "distinct (queue_abs (i_tx_queue s))"
    and "\<forall>x\<in>set (queue_abs (i_tx_queue s)). ic_tag (i_cmd_mem s x) = ic_tag (i_cmd_mem s p) \<longrightarrow> x = p"
  shows "(\<forall>xs ys. queue_abs (i_tx_queue s) = xs @ p # ys \<longrightarrow> queue_abs (i_tx_queue s') = ys @ xs) \<and>
    (p \<notin> set (queue_abs (i_tx_queue s)) \<longrightarrow>
       queue_abs (i_tx_queue s') = rotate1 (queue_abs (i_tx_queue s)))"
proof -
  define s1 where "s1 = i_upd p (\<lambda>c. c\<lparr>ic_status := -1, ic_aborted := True\<rparr>) s"
  have q1: "i_tx_queue s1 = i_tx_queue s" and tag: "ic_tag (i_cmd_mem s1 x) = ic_tag (i_cmd_mem s x)" for x
    by (simp_all add: s1_def i_upd_def)
  let ?loop = "abort_loop (i_cmd_mem s1) (ic_tag (i_cmd_mem s p)) NULL (i_tx_queue s)"
  have out: "queue_abs (i_tx_queue s') = queue_abs q'" if "?loop = Some (True, q')" for q'
    using assms(1) that i_callback_queue
    by (fastforce simp: initiator_abort_def Let_def q1 tag simp flip: s1_def)
  have "queue_abs (i_tx_queue s') = ys @ xs" if "queue_abs (i_tx_queue s) = xs @ p # ys" for xs ys
  proof -
    have "\<forall>x\<in>set xs. ic_tag (i_cmd_mem s1 x) \<noteq> ic_tag (i_cmd_mem s p)"
      using assms(4,5) that by (auto simp: tag)
    then show ?thesis
      using abort_loop_found [OF assms(2) that, of NULL "i_cmd_mem s1"] assms(3,4) that out
      by (auto simp: tag)
  qed
  moreover have "queue_abs (i_tx_queue s') = rotate1 (queue_abs (i_tx_queue s))"
    if "p \<notin> set (queue_abs (i_tx_queue s))"
  proof -
    have "\<forall>x\<in>set (queue_abs (i_tx_queue s)). ic_tag (i_cmd_mem s1 x) \<noteq> ic_tag (i_cmd_mem s p)"
      using assms(5) that by (auto simp: tag)
    from abort_loop_absent [OF assms(2-4) this] obtain q' where
      "?loop = Some (True, q')" "queue_abs q' = rotate1 (queue_abs (i_tx_queue s))" by blast
    with out show ?thesis by simp
  qed
  ultimately show ?thesis by blast
qed

theorem abort_reorders_queue_witness:
  "\<exists>s'. initiator_abort sample_initiator_env 13 (sample_initiator\<lparr>i_tx_queue := wrapped_ring,
       i_cmd_mem := (\<lambda>p. blank_initiator_cmd\<lparr>ic_tag := of_nat p\<rparr>)\<rparr>) = IReturn 0 s' \<and>
     queue_abs (i_tx_queue s') = [14, 11, 12]"
proof -
  let ?s = "sample_initiator\<lparr>i_tx_queue := wrapped_ring,
       i_cmd_mem := (\<lambda>p. blank_initiator_cmd\<lparr>ic_tag := of_nat p\<rparr>)\<rparr>"
  let ?mem = "i_cmd_mem (i_upd 13 (\<lambda>c. c\<lparr>ic_status := -1, ic_aborted := True\<rparr>) ?s)"
  have "\<exists>q. abort_loop ?mem (ic_tag (?mem 13)) NULL wrapped_ring = Some (True, q) \<and> queue_abs q = [14] @ [11, 12]"
    using wrapped_ring_facts
    by (intro abort_loop_found [where p = 13]) (simp_all add: NULL_def i_upd_def blank_initiator_cmd_def)
  then have loop: "\<exists>q. abort_loop ?mem 13 NULL wrapped_ring = Some (True, q)"
    by (auto simp: i_upd_def blank_initiator_cmd_def)
  obtain s' where "initiator_abort sample_initiator_env 13 ?s = IReturn 0 s'"
    using loop cmds.del_none [OF one_entry_rel, of 13]
    by (auto simp: initiator_abort_def i_callback_def iscsi_done_i_def i_upd_def sample_initiator_def
        sample_initiator_env_def blank_initiator_cmd_def Let_def)
  moreover have "[11, 12, 13, 14] = [11, 12] @ (13 :: ptr) # [14]" by simp
  ultimately show ?thesis
    using abort_reorders_queue [of sample_initiator_env 13 ?s 0 s'] wrapped_ring_facts
    by (simp add: NULL_def blank_initiator_cmd_def) (metis append_Cons append_Nil)
qed

text \<open>
  C12. Whatever a client, the peer or one of the threads does in one step, at most one command is
  reported done, and a write command that was not aborted is reported with status 0 only when as
  many bytes have been sent as it has.
\<close>

theorem write_done_only_when_sent:
  assumes "session_step env s s'"
  shows "i_done s' = i_done s \<or>
    (\<exists>p v. i_done s' = i_done s @ [(p, v)] \<and> (v = 0 \<longrightarrow> all_sent p s'))"
  using assms
proof cases
  case (enqueue type req p rc)
  then show ?thesis using initiator_enqueue_done [of s env type req p] by (simp add: done_ok_def)
next
  case (sending rc)
  then show ?thesis using tx_step_done [of s env] by (simp add: done_ok_def)
next
  case (receiving fresh rc)
  then show ?thesis using rx_step_done [of s env fresh] by (simp add: done_ok_def)
next
  case (abort p rc)
  then show ?thesis using initiator_abort_done [of s env p] by (simp add: done_ok_def)
qed simp

theorem write_done_only_when_sent_witness:
  "\<exists>s'. session_step sample_initiator_env (sample_initiator\<lparr>i_in :=
       padded (iscsi_scsi_rsp_encap (read_response reading_target 7 3))\<rparr>) s' \<and>
     i_done s' = [(90, 0)] \<and> all_sent 90 s'"
proof -
  let ?r = "read_response reading_target 7 3" and ?s = "sample_initiator\<lparr>i_in :=
       padded (iscsi_scsi_rsp_encap (read_response reading_target 7 3))\<rparr>"
  have "\<exists>s'. rx_step sample_initiator_env 200 ?s = IReturn 0 s' \<and> completed 90 0 ?s s' \<and> i_in s' = [] \<and>
      i_scsi 90 s' = Some (sample_scsi\<lparr>is_cmd := (is_cmd sample_scsi)\<lparr>sc_status := 0\<rparr>\<rparr>)"
    by (rule rx_step_good_response [where r = ?r and A = "{100}" and m = "[7 \<mapsto> 90]" and sn = 3])
      (use one_entry_rel in \<open>simp_all add: sample_initiator_def read_response_def NULL_def i_scsi_def
        blank_initiator_cmd_def sample_scsi_def blank_scsi_cmd_def sample_initiator_env_def\<close>)
  then obtain s' where s': "rx_step sample_initiator_env 200 ?s = IReturn 0 s'" "i_done s' = [(90, 0)]"
    by (auto simp: completed_def sample_initiator_def)
  then have step: "session_step sample_initiator_env ?s s'" by (blast intro: session_step.receiving)
  show ?thesis
    using write_done_only_when_sent [OF step] s'(2) step by (auto simp: sample_initiator_def)
qed

end
