(* ===== verification/Disk_Device.thy ===== *)
theory Disk_Device
  imports Target_Data
begin

section \<open>The disk device\<close>

text \<open>
  The functions of \<^verbatim>\<open>disk-alpha.c\<close> that the target calls (\<^verbatim>\<open>device_enqueue\<close>, \<^verbatim>\<open>device_place_data\<close>,
  \<^verbatim>\<open>device_command\<close>) with their helpers, and the worker of a logical unit.  They work on the state of
  the session that the command belongs to, of which the device's own state is a part, and call
  back into the target (\<^verbatim>\<open>target_transfer_data\<close>, and \<^verbatim>\<open>device_command_done\<close> as the callback of the
  command).  Calls that go to the kernel (\<^verbatim>\<open>mmap\<close>, \<^verbatim>\<open>ioctl\<close>, opening the trace file, whether a transfer
  from or to the medium succeeds) and the address of the buffer on the stack are parameters.
  The locks of the device are free whenever a function starts, because a function that does not
  come to its end ends the run.
\<close>

record disk_env = device_env +
  e_stack :: ptr
  e_mmap :: "bool \<Rightarrow> nat \<Rightarrow> u64 \<Rightarrow> target_session \<Rightarrow> ptr \<times> target_session"
  e_msync :: "ptr \<Rightarrow> nat \<Rightarrow> target_session \<Rightarrow> int \<times> target_session"
  e_munmap :: "ptr \<Rightarrow> nat \<Rightarrow> target_session \<Rightarrow> int \<times> target_session"
  e_sg_io :: "bool \<Rightarrow> byte list \<Rightarrow> ptr \<Rightarrow> u32 \<Rightarrow> target_session \<Rightarrow> int \<times> target_session"
  e_medium_ok :: "u64 \<Rightarrow> u32 \<Rightarrow> target_session \<Rightarrow> bool"
  e_fopen_ok :: "target_session \<Rightarrow> bool"
  e_lun_stopping :: "nat \<Rightarrow> nat \<Rightarrow> target_session \<Rightarrow> bool"

definition upd_disk :: "(disk \<Rightarrow> disk) \<Rightarrow> target_session \<Rightarrow> target_session" where
  "upd_disk f s = s\<lparr>t_disk := f (t_disk s)\<rparr>"

subsection \<open>Operation codes\<close>

definition TEST_UNIT_READY :: byte where "TEST_UNIT_READY = 0x00"
definition READ_6 :: byte where "READ_6 = 0x08"
definition WRITE_6 :: byte where "WRITE_6 = 0x0a"
definition INQUIRY :: byte where "INQUIRY = 0x12"
definition MODE_SENSE :: byte where "MODE_SENSE = 0x1a"
definition READ_CAPACITY :: byte where "READ_CAPACITY = 0x25"
definition READ_10 :: byte where "READ_10 = 0x28"
definition WRITE_10 :: byte where "WRITE_10 = 0x2a"
definition VERIFY :: byte where "VERIFY = 0x2f"
definition REPORT_LUNS :: byte where "REPORT_LUNS = 0xa0"
definition ISCSI_IOCTL_TARGET_EXIT :: byte where "ISCSI_IOCTL_TARGET_EXIT = 0x26"
definition ISCSI_IOCTL_TRACING_ON :: byte where "ISCSI_IOCTL_TRACING_ON = 0x37"
definition ISCSI_IOCTL_TRACING_OFF :: byte where "ISCSI_IOCTL_TRACING_OFF = 0x38"
definition ISCSI_IOCTL_TRACING_SET :: byte where "ISCSI_IOCTL_TRACING_SET = 0x39"

lemmas disk_opcodes = TEST_UNIT_READY_def READ_6_def WRITE_6_def INQUIRY_def MODE_SENSE_def
  READ_CAPACITY_def READ_10_def WRITE_10_def VERIFY_def REPORT_LUNS_def ISCSI_IOCTL_TARGET_EXIT_def
  ISCSI_IOCTL_TRACING_ON_def ISCSI_IOCTL_TRACING_OFF_def ISCSI_IOCTL_TRACING_SET_def

text \<open>Block address and block count of the 6-byte and the 10-byte commands, on a little-endian host.\<close>

definition lba_6 :: "byte list \<Rightarrow> u32" where
  "lba_6 cdb = ntohl (load32 cdb 0) AND 0x001fffff"

definition len_6 :: "byte list \<Rightarrow> u16" where
  "len_6 cdb = (if cdb ! 4 = 0 then 256 else ucast (cdb ! 4))"

definition lba_10 :: "byte list \<Rightarrow> u32" where
  "lba_10 cdb = make32 (cdb ! 5) (cdb ! 4) (cdb ! 3) (cdb ! 2)"

definition len_10 :: "byte list \<Rightarrow> u16" where
  "len_10 cdb = make16 (cdb ! 8) (cdb ! 7)"

text \<open>Blocks to bytes, in 32 bits for a length and in 64 bits for an offset.\<close>

definition num_bytes :: "disk \<Rightarrow> u32 \<Rightarrow> u32" where
  "num_bytes d len = len * g_disk_block_len d"

definition byte_offset :: "disk \<Rightarrow> u64 \<Rightarrow> u64" where
  "byte_offset d lba = lba * ucast (g_disk_block_len d)"

definition beyond_media :: "disk \<Rightarrow> u64 \<Rightarrow> u64 \<Rightarrow> bool" where
  "beyond_media d lba len \<longleftrightarrow> lba > g_disk_num_blocks d - 1 \<or> lba + len > g_disk_num_blocks d"

subsection \<open>Completion\<close>

definition MEM_STACK :: nat where "MEM_STACK = 1"
definition MEM_MAPPED :: nat where "MEM_MAPPED = 3"
definition MEM_STAGING :: nat where "MEM_STAGING = 5"

text \<open>Bytes of the medium from an offset on.\<close>

definition medium_addrs :: "u64 \<Rightarrow> nat \<Rightarrow> nat list" where
  "medium_addrs off n = [unat off..<unat off + n]"

definition cdb_10 :: "byte \<Rightarrow> u64 \<Rightarrow> u64 \<Rightarrow> byte list" where
  "cdb_10 opcode lba len =
    (let cdb = replicate 10 0; cdb = cdb[0 := opcode]; cdb = store32 cdb 2 (htonl (ucast lba))
     in store16 cdb 7 (htons (ucast len)))"

text \<open>
  The data of a write goes to the medium, if it is not memory.  The calls for the disks behind a
  controller (\<^verbatim>\<open>DISK_CTRL\<close>) touch nothing of this state, and their failure is ignored.
\<close>

definition write_out ::
  "'e disk_env_scheme \<Rightarrow> ptr \<Rightarrow> target_session \<Rightarrow> (target_session \<Rightarrow> outcome) \<Rightarrow> outcome" where
  "write_out env p s k =
    (let c = t_cmd_mem s p; d = t_disk s;
         off = byte_offset d (tg_lba c);
         n = num_bytes d (ucast (tg_len c));
         data = map (t_mem s) (iovs_addrs (tg_scatter c))
     in if \<not> tg_is_write c then k s
        else if length (g_device_stats d) \<le> unat (sc_lun (tg_scsi c)) then Undef
        else if g_type d = DISK_RAW \<or> g_type d = DISK_SD \<and> g_direct d then
          if \<not> e_medium_ok env off n s then Exits s
          else k (upd_disk (\<lambda>d. d\<lparr>g_medium := put_mem (medium_addrs off (length data)) data (g_medium d)\<rparr>) s)
        else if g_type d = DISK_SG then
          case e_sg_io env True (cdb_10 0x2a (tg_lba c) (tg_len c))
                 (if tg_scatter c = [] then NULL else iov_base (hd (tg_scatter c))) n s of
            (rc, s) \<Rightarrow> if rc \<noteq> 0 then Exits s else k s
        else k s)"

text \<open>A new trace file.\<close>

definition set_trace_file ::
  "'e disk_env_scheme \<Rightarrow> ptr \<Rightarrow> target_session \<Rightarrow> (target_session \<Rightarrow> outcome) \<Rightarrow> outcome" where
  "set_trace_file env p s k =
    (let sc = scsi_of s p; lun = unat (ucast (sc_lun sc) :: u32)
     in if sc_cdb sc ! 0 \<noteq> ISCSI_IOCTL_TRACING_SET \<or> sc_status sc \<noteq> 0 then k s
        else if length (g_fptr (t_disk s)) \<le> lun then Undef
        else if \<not> e_fopen_ok env s then Return (-1) (upd_disk (\<lambda>d. d\<lparr>g_fptr := (g_fptr d)[lun := False]\<rparr>) s)
        else k (upd_disk (\<lambda>d. d\<lparr>g_fptr := (g_fptr d)[lun := True], g_trace := []\<rparr>) s))"

text \<open>
  The loops that give the memory of a scatter or gather list back: staging buffers go to their
  queue, whose refusal is ignored; mappings are undone.
\<close>

fun give_back :: "nat \<Rightarrow> (nat \<Rightarrow> nat) \<Rightarrow> nat \<Rightarrow> iovec list \<Rightarrow> target_session \<Rightarrow> target_session" where
  "give_back lun types i [] s = s"
| "give_back lun types i (v # vs) s =
    give_back lun types (i + 1) vs
      (if types i = MEM_STAGING
       then upd_disk (\<lambda>d. d\<lparr>g_staging_queue := (g_staging_queue d)
              [lun := snd (iscsi_queue_insert (g_staging_queue d ! lun) (iov_base v))]\<rparr>) s
       else s)"

fun unmap_all ::
  "'e disk_env_scheme \<Rightarrow> bool \<Rightarrow> (nat \<Rightarrow> nat) \<Rightarrow> (nat \<Rightarrow> nat) \<Rightarrow> nat \<Rightarrow> iovec list \<Rightarrow> target_session \<Rightarrow>
   (target_session \<Rightarrow> outcome) \<Rightarrow> outcome" where
  "unmap_all env sync types aligns i [] s k = k s"
| "unmap_all env sync types aligns i (v # vs) s k =
    (let addr = iov_base v - aligns i; len = iov_len v + aligns i
     in if types i = MEM_STACK then unmap_all env sync types aligns (i + 1) vs s k
        else if types i \<noteq> MEM_MAPPED then Exits s
        else case (if sync then e_msync env addr len s else (0, s)) of
          (rc, s) \<Rightarrow>
            if rc \<noteq> 0 then Return (-1) s
            else case e_munmap env addr len s of
              (rc, s) \<Rightarrow>
                if rc \<noteq> 0 then Return (-1) s
                else unmap_all env sync types aligns (i + 1) vs s k)"

definition clean_up ::
  "'e disk_env_scheme \<Rightarrow> ptr \<Rightarrow> target_session \<Rightarrow> (target_session \<Rightarrow> outcome) \<Rightarrow> outcome" where
  "clean_up env p s k =
    (let c = t_cmd_mem s p; d = t_disk s; lun = unat (ucast (sc_lun (tg_scsi c)) :: u32)
     in if g_type d \<in> {DISK_SG, DISK_RAW, DISK_CTRL} \<or> g_type d = DISK_SD \<and> g_direct d then
          k (give_back lun (tg_gather_type c) 0 (tg_gather c)
               (give_back lun (tg_scatter_type c) 0 (tg_scatter c) s))
        else if g_type d \<in> {DISK_FS, DISK_SD} then
          unmap_all env (g_sync d) (tg_scatter_type c) (tg_scatter_align c) 0 (tg_scatter c) s (\<lambda>s.
            unmap_all env False (tg_gather_type c) (tg_gather_align c) 0 (tg_gather c) s k)
        else k s)"

text \<open>
  The lock that is taken for the callback belongs to the statistics of the unit, an array that
  the unit's number of the command, cut to 32 bits, may miss.
\<close>

definition command_done :: "'e disk_env_scheme \<Rightarrow> ptr \<Rightarrow> target_session \<Rightarrow> outcome" where
  "command_done env p s =
    set_trace_file env p s (\<lambda>s.
      write_out env p s (\<lambda>s.
        if length (g_device_stats (t_disk s)) \<le> unat (ucast (sc_lun (scsi_of s p)) :: u32) then Undef
        else case device_command_done env p s of
          Return rc s \<Rightarrow>
            if rc \<noteq> 0 then Exits s
            else clean_up env p s (\<lambda>s.
              if sc_cdb (scsi_of s p) ! 0 = ISCSI_IOCTL_TARGET_EXIT then Exits s else Return 0 s)
        | r \<Rightarrow> r))"

subsection \<open>Memory for the data of a command\<close>

text \<open>A staging buffer from the queue of the unit.\<close>

definition take_staging :: "nat \<Rightarrow> target_session \<Rightarrow> (ptr \<Rightarrow> target_session \<Rightarrow> outcome) \<Rightarrow> outcome" where
  "take_staging lun s k =
    (case iscsi_queue_remove (g_staging_queue (t_disk s) ! lun) of
       (buf, q) \<Rightarrow> k buf (upd_disk (\<lambda>d. d\<lparr>g_staging_queue := (g_staging_queue d)[lun := q]\<rparr>) s))"

definition set_private :: "ptr \<Rightarrow> u64 \<Rightarrow> u64 \<Rightarrow> target_session \<Rightarrow> target_session" where
  "set_private p lba len = upd_cmd p (\<lambda>c. c\<lparr>tg_lba := lba, tg_len := len\<rparr>)"

text \<open>Where write data goes; \<open>k\<close> gets the address, or NULL.\<close>

definition write_allocate_space ::
  "'e disk_env_scheme \<Rightarrow> ptr \<Rightarrow> nat \<Rightarrow> u64 \<Rightarrow> u32 \<Rightarrow> nat \<Rightarrow> target_session \<Rightarrow>
   (ptr \<Rightarrow> target_session \<Rightarrow> outcome) \<Rightarrow> outcome" where
  "write_allocate_space env p lun lba len i s k =
    (let d = t_disk s;
         off = byte_offset d lba;
         n = num_bytes d len;
         finish = (\<lambda>buf s. k buf (set_private p lba (ucast len) s))
     in if g_type d = DISK_RAM then finish (g_ramdisk d ! lun + unat off) s
        else if g_type d \<in> {DISK_RAW, DISK_SG, DISK_CTRL} \<or> g_type d = DISK_SD \<and> g_direct d then
          take_staging lun s (\<lambda>buf s.
            if buf = NULL then k NULL s
            else
              let s = upd_cmd p (\<lambda>c. c\<lparr>tg_scatter_type := (tg_scatter_type c)(i := MEM_STAGING)\<rparr>) s
              in if n > CONFIG_DISK_MAX_BURST then k NULL s else finish buf s)
        else
          let align = unat (off mod 4096)
          in case e_mmap env True (unat n + align) (off - of_nat align) s of
               (buf, s) \<Rightarrow>
                 if buf = NULL then Exits s
                 else finish (buf + align) (upd_cmd p (\<lambda>c. c
                   \<lparr>tg_scatter_type := (tg_scatter_type c)(i := MEM_MAPPED),
                    tg_scatter_align := (tg_scatter_align c)(i := align)\<rparr>) s))"

text \<open>Where read data is, with the data in it.\<close>

definition read_allocate_space ::
  "'e disk_env_scheme \<Rightarrow> ptr \<Rightarrow> nat \<Rightarrow> u64 \<Rightarrow> u16 \<Rightarrow> nat \<Rightarrow> target_session \<Rightarrow>
   (ptr \<Rightarrow> target_session \<Rightarrow> outcome) \<Rightarrow> outcome" where
  "read_allocate_space env p lun lba len i s k =
    (let d = t_disk s;
         off = byte_offset d lba;
         n = num_bytes d (ucast len);
         finish = (\<lambda>buf s. k buf (set_private p lba (ucast len) s));
         staging = (\<lambda>s. upd_cmd p (\<lambda>c. c\<lparr>tg_gather_type := (tg_gather_type c)(i := MEM_STAGING)\<rparr>) s)
     in case g_type d of
          DISK_RAM \<Rightarrow> finish (g_ramdisk d ! lun + unat off) s
        | DISK_RAW \<Rightarrow>
            take_staging lun s (\<lambda>buf s.
              if buf = NULL then k NULL s
              else
                let s = staging s
                in if \<not> e_medium_ok env off n s then Exits s
                   else finish buf (s\<lparr>t_mem := put_mem [buf..<buf + unat n]
                          (map (g_medium d) (medium_addrs off (unat n))) (t_mem s)\<rparr>))
        | DISK_SG \<Rightarrow>
            take_staging lun s (\<lambda>buf s.
              if buf = NULL then k NULL s
              else case e_sg_io env False (cdb_10 0x28 lba (ucast len)) buf n (staging s) of
                (rc, s) \<Rightarrow> if rc \<noteq> 0 then k NULL s else finish buf s)
        | DISK_CTRL \<Rightarrow>
            take_staging lun s (\<lambda>buf s. if buf = NULL then k NULL s else finish buf (staging s))
        | _ \<Rightarrow>
            let align = unat (off mod 4096)
            in case e_mmap env False (unat n + align) (off - of_nat align) s of
                 (buf, s) \<Rightarrow>
                   if buf = NULL then Exits s
                   else finish (buf + align) (upd_cmd p (\<lambda>c. c
                     \<lparr>tg_gather_type := (tg_gather_type c)(i := MEM_MAPPED),
                      tg_gather_align := (tg_gather_align c)(i := align)\<rparr>) s))"

subsection \<open>Reading\<close>

text \<open>\<open>k\<close> gets the number of bytes to send, or -1.\<close>

definition disk_read ::
  "'e disk_env_scheme \<Rightarrow> ptr \<Rightarrow> nat \<Rightarrow> u64 \<Rightarrow> u16 \<Rightarrow> target_session \<Rightarrow>
   (int \<Rightarrow> target_session \<Rightarrow> outcome) \<Rightarrow> outcome" where
  "disk_read env p lun lba len s k =
    (let d = t_disk s; n = num_bytes d (ucast len)
     in if len = 0 then k (-1) s
        else if beyond_media d lba (ucast len) then k (-1) s
        else if n > CONFIG_DISK_MAX_BURST then k (-1) s
        else read_allocate_space env p lun lba len 0 s (\<lambda>buf s.
          if buf = NULL then k (-1) s
          else k (int (unat n)) (upd_cmd p (\<lambda>c. c\<lparr>tg_gather := [\<lparr>iov_base = buf, iov_len = unat n\<rparr>]\<rparr>) s)))"

subsection \<open>Writing\<close>

text \<open>The loop that copies immediate data; \<open>None\<close> is the assertion that the list is long enough.\<close>

fun copy_immediate :: "iovec list \<Rightarrow> byte list \<Rightarrow> (nat \<Rightarrow> byte) \<Rightarrow> (nat \<Rightarrow> byte) option" where
  "copy_immediate [] bs m = (if bs = [] then Some m else None)"
| "copy_immediate (v # vs) bs m =
    (if bs = [] then Some m
     else let n = min (iov_len v) (length bs)
          in copy_immediate vs (drop n bs) (put_mem (take n (iov_addrs v)) (take n bs) m))"

text \<open>The buffer was cleared before the data was read into it.\<close>

definition immediate_bytes :: "target_cmd \<Rightarrow> nat \<Rightarrow> byte list" where
  "immediate_bytes c n =
    take n (tg_immediate c @ replicate (CONFIG_TARGET_MAX_IMMEDIATE - length (tg_immediate c)) 0)"

text \<open>The label \<open>transfer\<close>.\<close>

definition start_transfer ::
  "'e disk_env_scheme \<Rightarrow> ptr \<Rightarrow> target_session \<Rightarrow> (int \<Rightarrow> target_session \<Rightarrow> outcome) \<Rightarrow> outcome" where
  "start_transfer env p s k =
    (let c = t_cmd_mem s p; n = unat (sc_length (tg_scsi c)); checked = (\<lambda>r.
           case r of Return rc s \<Rightarrow> k (if rc \<noteq> 0 then -1 else 0) s | r \<Rightarrow> r)
     in if CONFIG_TARGET_MAX_IMMEDIATE < n then Undef
        else case copy_immediate (tg_scatter c) (immediate_bytes c n) (t_mem s) of
          None \<Rightarrow> Exits s
        | Some m \<Rightarrow>
            let s = s\<lparr>t_mem := m\<rparr>;
                s = upd_scsi p (\<lambda>sc. sc\<lparr>sc_bytes_todev := sc_length sc\<rparr>) s;
                sc = scsi_of s p
            in if sc_todev sc \<noteq> 0 \<and> sc_trans_len sc - sc_bytes_todev sc \<noteq> 0
               then checked (target_transfer_data env p s)
               else checked (command_done env p s))"

definition prepare_write ::
  "'e disk_env_scheme \<Rightarrow> ptr \<Rightarrow> nat \<Rightarrow> u64 \<Rightarrow> u32 \<Rightarrow> target_session \<Rightarrow>
   (int \<Rightarrow> target_session \<Rightarrow> outcome) \<Rightarrow> outcome" where
  "prepare_write env p lun lba len s k =
    (let d = t_disk s;
         scatter = (\<lambda>buf n s. upd_cmd p (\<lambda>c. c\<lparr>tg_scatter := [\<lparr>iov_base = buf, iov_len = n\<rparr>]\<rparr>) s)
     in if sc_cdb (scsi_of s p) ! 0 = ISCSI_IOCTL_TRACING_SET
        then start_transfer env p (scatter (g_tracefile d) CONFIG_MAX_FILENAME s) k
        else if beyond_media d lba (ucast len) then k (-1) s
        else write_allocate_space env p lun lba len 0 s (\<lambda>buf s.
          if buf = NULL then k (-1) s
          else start_transfer env p (scatter buf (unat (num_bytes d len)) s) k))"

subsection \<open>Execution of a command\<close>

definition DATA_LEN :: nat where "DATA_LEN = 4096"

text \<open>The array \<^verbatim>\<open>data\<close> of \<^verbatim>\<open>device_command\<close> lies on the stack.\<close>

definition stack_data :: "'e disk_env_scheme \<Rightarrow> target_session \<Rightarrow> byte list" where
  "stack_data env s = map (t_mem s) [e_stack env..<e_stack env + DATA_LEN]"

definition set_data :: "'e disk_env_scheme \<Rightarrow> byte list \<Rightarrow> target_session \<Rightarrow> target_session" where
  "set_data env data s = s\<lparr>t_mem := put_mem [e_stack env..<e_stack env + DATA_LEN] data (t_mem s)\<rparr>"

definition set_scsi_status :: "ptr \<Rightarrow> byte \<Rightarrow> u32 \<Rightarrow> target_session \<Rightarrow> target_session" where
  "set_scsi_status p st len = upd_scsi p (\<lambda>sc. sc\<lparr>sc_status := st, sc_length := len\<rparr>)"

text \<open>
  The label \<^verbatim>\<open>done\<close>.  A length that was taken over from the command and is larger than the array makes
  the target send what lies behind it.
\<close>

definition finish_command :: "'e disk_env_scheme \<Rightarrow> ptr \<Rightarrow> bool \<Rightarrow> target_session \<Rightarrow> outcome" where
  "finish_command env p override_gather s =
    (let sc = scsi_of s p; n = unat (sc_length sc)
     in if sc_fromdev sc \<noteq> 0 \<and> sc_length sc \<noteq> 0 \<and> \<not> override_gather then
          if DATA_LEN < n then Undef
          else command_done env p (upd_cmd p (\<lambda>c. c
            \<lparr>tg_gather := [\<lparr>iov_base = e_stack env, iov_len = n\<rparr>],
             tg_gather_type := (tg_gather_type c)(0 := MEM_STACK)\<rparr>) s)
        else command_done env p s)"

definition add_trace :: "bool \<Rightarrow> nat \<Rightarrow> u32 \<Rightarrow> u16 \<Rightarrow> target_session \<Rightarrow> target_session" where
  "add_trace writing lun lba len s =
    (let d = t_disk s
     in if g_fptr d ! lun \<and> g_tracing d
        then upd_disk (\<lambda>d. d\<lparr>g_trace := g_trace d @
               [(writing, byte_offset d (ucast lba), num_bytes d (ucast len))]\<rparr>) s
        else s)"

text \<open>The data of the commands that are answered from the stack.\<close>

definition string_bytes :: "string \<Rightarrow> byte list" where
  "string_bytes = map (\<lambda>c. of_nat (of_char c))"

definition inquiry_data :: "byte list \<Rightarrow> byte list \<Rightarrow> byte list" where
  "inquiry_data cdb data =
    (let data = memcpy data 0 (replicate (unat (cdb ! 4)) 0);
         data = data[0 := 0];
         data = data[2 := data ! 2 OR 0x02];
         data = data[4 := cdb ! 4 - 4];
         data = data[7 := data ! 7 OR 0x40];
         data = data[7 := data ! 7 OR 0x20];
         data = data[7 := data ! 7 OR 0x02];
         data = memcpy data 8 (string_bytes ''Intel   '' @ [0]);
         data = memcpy data 16 (string_bytes ''iSCSI Reference '' @ [0])
     in memcpy data 32 (string_bytes ''2   '' @ [0]))"

definition no_device_data :: "byte list \<Rightarrow> byte list \<Rightarrow> byte list" where
  "no_device_data cdb data =
    (let data = memcpy data 0 (replicate (unat (cdb ! 4)) 0); data = data[0 := 0x60]
     in data[0 := data ! 0 OR 0x7f])"

definition capacity_data :: "disk \<Rightarrow> byte list \<Rightarrow> byte list" where
  "capacity_data d data =
    store32 (store32 data 0 (htonl (ucast (g_disk_num_blocks d - 1)))) 4 (htonl (g_disk_block_len d))"

definition mode_sense_data :: "disk \<Rightarrow> byte list \<Rightarrow> byte list \<Rightarrow> byte list" where
  "mode_sense_data d cdb data =
    (let data = memcpy data 0 (replicate (4 + unat (cdb ! 4)) 0);
         data = data[0 := 0x19];
         data = data[4 := 0x03];
         data = data[5 := 0x16];
         data = store32 data 16 (ucast (htons (ucast (g_disk_block_len d))))
     in data[24 := 0x80])"

fun lun_list :: "nat \<Rightarrow> nat \<Rightarrow> byte list \<Rightarrow> byte list" where
  "lun_list i 0 data = data"
| "lun_list i (Suc n) data =
    (let data = data[8 + 8 * i := 0] in lun_list (i + 1) n (data[8 + 8 * i + 1 := of_nat i]))"

definition report_luns_data :: "disk \<Rightarrow> u32 \<Rightarrow> byte list \<Rightarrow> byte list" where
  "report_luns_data d trans_len data =
    (let data = memcpy data 0 (replicate (unat trans_len) 0);
         data = store32 data 0 (htonl (g_disk_num_luns d * 8))
     in lun_list 0 (unat (g_disk_num_luns d)) data)"

text \<open>
  The unit of a command as \<^verbatim>\<open>device_command\<close> sees it is cut to one byte.  A failed assertion ends the
  process.
\<close>

definition device_command :: "'e disk_env_scheme \<Rightarrow> ptr \<Rightarrow> target_session \<Rightarrow> outcome" where
  "device_command env p s =
    (let c = t_cmd_mem s p;
         sc = tg_scsi c;
         cdb = sc_cdb sc;
         op = cdb ! 0;
         d = t_disk s;
         lun8 = (ucast (sc_lun sc) :: byte);
         lun = unat lun8;
         data = stack_data env s;
         answer = (\<lambda>data len. finish_command env p False
           (upd_scsi p (\<lambda>sc. sc\<lparr>sc_fromdev := 1\<rparr>) (set_scsi_status p 0 len (set_data env data s))));
         good = (\<lambda>s. finish_command env p False (set_scsi_status p 0 0 s));
         bad = finish_command env p False (set_scsi_status p 2 0 s);
         read_ok = (\<lambda>rc s. finish_command env p True
           (upd_scsi p (\<lambda>sc. sc\<lparr>sc_fromdev := 1\<rparr>) (set_scsi_status p 0 (word_of_int rc) s)));
         is_write = upd_cmd p (\<lambda>c. c\<lparr>tg_is_write := True\<rparr>);
         no_length = upd_scsi p (\<lambda>sc. sc\<lparr>sc_length := 0\<rparr>);
         status = (\<lambda>st. upd_scsi p (\<lambda>sc. sc\<lparr>sc_status := st\<rparr>))
     in if tg_gather c \<noteq> [] \<or> tg_scatter c \<noteq> [] \<or> tg_send_data c then Exits s
        else if ucast lun8 \<ge> g_disk_num_luns d \<and> op = INQUIRY then answer (no_device_data cdb data) (sc_trans_len sc)
        else if ucast lun8 \<ge> g_disk_num_luns d
        then finish_command env p False (upd_scsi p (\<lambda>sc. sc\<lparr>sc_fromdev := 0\<rparr>) (set_scsi_status p 1 0 s))
        else if op = TEST_UNIT_READY then good s
        else if op = INQUIRY then answer (inquiry_data cdb data) (sc_trans_len sc)
        else if op = READ_CAPACITY then answer (capacity_data d data) 8
        else if op = WRITE_6 then
          prepare_write env p lun (ucast (lba_6 cdb)) (ucast (len_6 cdb))
            (add_trace True lun (lba_6 cdb) (len_6 cdb) s) (\<lambda>rc s.
              Return 0 (is_write (no_length (if rc \<noteq> 0 then status 1 s else s))))
        else if op = READ_6 then
          disk_read env p lun (ucast (lba_6 cdb)) (len_6 cdb)
            (add_trace False lun (lba_6 cdb) (len_6 cdb) s) (\<lambda>rc s.
              if rc = -1 then finish_command env p False (set_scsi_status p 2 0 s) else read_ok rc s)
        else if op = WRITE_10 then
          prepare_write env p lun (ucast (lba_10 cdb)) (ucast (len_10 cdb))
            (add_trace True lun (lba_10 cdb) (len_10 cdb) (is_write s)) (\<lambda>rc s.
              Return 0 (no_length (if rc \<noteq> 0 then status 2 s else s)))
        else if op = READ_10 then
          disk_read env p lun (ucast (lba_10 cdb)) (len_10 cdb)
            (add_trace False lun (lba_10 cdb) (len_10 cdb) s) (\<lambda>rc s.
              if rc = -1 then Exits s else read_ok rc s)
        else if op = VERIFY then finish_command env p False (status 0 s)
        else if op = MODE_SENSE then answer (mode_sense_data d cdb data) (ucast (cdb ! 4))
        else if op = REPORT_LUNS then
          if DATA_LEN < unat (sc_trans_len sc) \<or> DATA_LEN < 8 + 8 * unat (g_disk_num_luns d) then Undef
          else
            let n = 8 + 8 * g_disk_num_luns d;
                s = set_data env (report_luns_data d (sc_trans_len sc) data) s
            in finish_command env p False (upd_scsi p (\<lambda>sc. sc
                 \<lparr>sc_fromdev := 1, sc_status := 0, sc_trans_len := n, sc_length := n\<rparr>) s)
        else if op = ISCSI_IOCTL_TARGET_EXIT then good s
        else if op = ISCSI_IOCTL_TRACING_ON then good (upd_disk (\<lambda>d. d\<lparr>g_tracing := True\<rparr>) s)
        else if op = ISCSI_IOCTL_TRACING_OFF then good (upd_disk (\<lambda>d. d\<lparr>g_tracing := False\<rparr>) s)
        else if op = ISCSI_IOCTL_TRACING_SET then
          prepare_write env p lun 0 0 (upd_disk (\<lambda>d. d\<lparr>g_tracing := True\<rparr>) s) (\<lambda>rc s.
            if rc \<noteq> 0 then finish_command env p False (set_scsi_status p 2 0 s)
            else Return 0 (no_length s))
        else bad)"

subsection \<open>Queueing\<close>

text \<open>The distances between the blocks of successive commands.\<close>

definition jump_stats :: "bool \<Rightarrow> u32 \<Rightarrow> u16 \<Rightarrow> device_stats \<Rightarrow> device_stats" where
  "jump_stats writing lba len ds =
    (let next = ucast (lba + ucast len) :: u64
     in if writing then
          ds\<lparr>ds_jumps_write := ds_jumps_write ds + abs_jump (ucast lba) (ds_last_wr_lba ds),
             ds_jumps := ds_jumps ds + abs_jump (ucast lba) (ds_last_lba ds),
             ds_last_wr_lba := next, ds_last_lba := next\<rparr>
        else
          ds\<lparr>ds_jumps_read := ds_jumps_read ds + abs_jump (ucast lba) (ds_last_rd_lba ds),
             ds_jumps := ds_jumps ds + abs_jump (ucast lba) (ds_last_lba ds),
             ds_last_rd_lba := next, ds_last_lba := next\<rparr>)"

definition is_write_op :: "byte \<Rightarrow> bool" where "is_write_op op \<longleftrightarrow> op = WRITE_6 \<or> op = WRITE_10"
definition is_read_op :: "byte \<Rightarrow> bool" where "is_read_op op \<longleftrightarrow> op = READ_6 \<or> op = READ_10"

text \<open>\<^verbatim>\<open>-x\<close> lets the target crash after a number of commands.\<close>

definition count_down :: "target_session \<Rightarrow> (target_session \<Rightarrow> outcome) \<Rightarrow> outcome" where
  "count_down s k =
    (if g_crash (t_disk s) = -1 then k s
     else
       let s = upd_disk (\<lambda>d. d\<lparr>g_crash := g_crash d - 1\<rparr>) s
       in if g_crash (t_disk s) \<le> 0 then Exits s else k s)"

text \<open>The first worker of the unit that has nothing to do gets the work flag.\<close>

fun wake_one :: "bool list \<Rightarrow> bool list" where
  "wake_one [] = []"
| "wake_one (w # ws) = (if w then w # wake_one ws else True # ws)"

definition device_enqueue :: "'e disk_env_scheme \<Rightarrow> ptr \<Rightarrow> target_session \<Rightarrow> outcome" where
  "device_enqueue env p s =
    count_down s (\<lambda>s.
      let c = t_cmd_mem s p;
          cdb = sc_cdb (tg_scsi c);
          op = cdb ! 0;
          six = (op = WRITE_6 \<or> op = READ_6);
          lba = (if six then lba_6 cdb else lba_10 cdb);
          len = (if six then len_6 cdb else len_10 cdb);
          lun = sc_lun (tg_scsi c);
          counted = (\<not> tg_done c \<and> (is_write_op op \<or> is_read_op op))
      in if counted \<and> length (g_device_stats (t_disk s)) \<le> unat lun then Undef
         else
           let s = (if counted then upd_disk (\<lambda>d. d\<lparr>g_device_stats := (g_device_stats d)
                     [unat lun := jump_stats (is_write_op op) lba len (g_device_stats d ! unat lun)]\<rparr>) s
                    else s)
           in if lun \<ge> ucast (g_disk_num_luns (t_disk s)) then device_command env p s
              else case iscsi_queue_insert (g_cmd_queue (t_disk s) ! unat lun) p of
                (rc, q) \<Rightarrow>
                  if rc \<noteq> 0 then Exits s
                  else Return 0 (upd_disk (\<lambda>d. d
                    \<lparr>g_cmd_queue := (g_cmd_queue d)[unat lun := q],
                     g_work := (g_work d)[unat lun := wake_one (g_work d ! unat lun)]\<rparr>) s))"

subsection \<open>Write data arrives\<close>

text \<open>A length of 0 tells that all data is there.\<close>

definition device_place_data :: "'e disk_env_scheme \<Rightarrow> ptr \<Rightarrow> u32 \<Rightarrow> u32 \<Rightarrow> target_session \<Rightarrow> outcome" where
  "device_place_data env p off len s =
    (if len = 0 then
       case device_enqueue env p (upd_cmd p (\<lambda>c. c\<lparr>tg_done := True\<rparr>) s) of
         Return rc s \<Rightarrow> if rc \<noteq> 0 then Return (-1) s else Return 0 s
       | r \<Rightarrow> r
     else
       let scatter = tg_scatter (t_cmd_mem s p)
       in case modify_iov scatter 0 (length scatter) (unat off) (unat len) of
         (rc, arr, i, n) \<Rightarrow>
           let vs = take n (drop i arr)
           in if rc \<noteq> 0 then Return (-1) s
              else if (\<exists>v\<in>set vs. iov_base v = NULL) \<or> iovs_len vs \<noteq> unat len then Exits s
              else case sock_recv (unat len) s of
                (None, s) \<Rightarrow> Exits s
              | (Some bytes, s) \<Rightarrow>
                  Return (sint len) (s\<lparr>t_mem := put_mem (iovs_addrs vs) bytes (t_mem s)\<rparr>))"

subsection \<open>The worker of a logical unit\<close>

text \<open>One command of the queue; the result of the command is not looked at.\<close>

definition lun_worker_step :: "'e disk_env_scheme \<Rightarrow> nat \<Rightarrow> target_session \<Rightarrow> outcome" where
  "lun_worker_step env lun s =
    (case iscsi_queue_remove (g_cmd_queue (t_disk s) ! lun) of
       (p, q) \<Rightarrow>
         let s = upd_disk (\<lambda>d. d\<lparr>g_cmd_queue := (g_cmd_queue d)[lun := q]\<rparr>) s;
             ignore = (\<lambda>r. case r of Return rc s \<Rightarrow> Return 0 s | r \<Rightarrow> r)
         in if p = NULL then Return 0 s
            else if tg_done (t_cmd_mem s p) then ignore (command_done env p s)
            else ignore (device_command env p s))"

partial_function (option) lun_worker_loop ::
  "'e disk_env_scheme \<Rightarrow> nat \<Rightarrow> nat \<Rightarrow> target_session \<Rightarrow> outcome option" where
  [code]: "lun_worker_loop env lun i s =
    (if e_lun_stopping env lun i s then Some (Return 0 s)
     else if \<not> (g_work (t_disk s) ! lun ! i) \<and> iscsi_queue_depth (g_cmd_queue (t_disk s) ! lun) = 0
     then Some (Blocks s)
     else case lun_worker_step env lun s of
       Return rc s \<Rightarrow> lun_worker_loop env lun i
         (upd_disk (\<lambda>d. d\<lparr>g_work := (g_work d)[lun := (g_work d ! lun)[i := False]]\<rparr>) s)
     | r \<Rightarrow> Some r)"

subsection \<open>The disk as the device of a target\<close>

text \<open>
  The target calls the device through its parameters; the device calls back into functions of
  the target that do not call the device again (\<^verbatim>\<open>target_transfer_data\<close> does so only for a command
  without outstanding data, which \<^verbatim>\<open>prepare_write\<close> does not hand over).
\<close>

definition with_disk :: "'e disk_env_scheme \<Rightarrow> 'e disk_env_scheme" where
  "with_disk env = env\<lparr>e_enqueue := device_enqueue env, e_place_data := device_place_data env\<rparr>"

end
