(* ===== verification/Disk_Access.thy ===== *)
theory Disk_Access
  imports Disk_Device Target_Read
begin

section \<open>Access to a RAM disk\<close>

text \<open>
  A RAM disk is a region of memory.  Seen from outside it is a string of bytes, from which reads
  take a section and in which writes replace one; the address arithmetic of the code is shown to
  stay exact on a disk whose size fits 64 bits.
\<close>

subsection \<open>The disk as a string of bytes\<close>

definition disk_size :: "disk \<Rightarrow> nat" where
  "disk_size d = unat (g_disk_num_blocks d) * unat (g_disk_block_len d)"

definition disk_addrs :: "disk \<Rightarrow> nat list" where
  "disk_addrs d = [g_ramdisk d ! 0..<g_ramdisk d ! 0 + disk_size d]"

definition content :: "target_session \<Rightarrow> byte list" where
  "content s = map (t_mem s) (disk_addrs (t_disk s))"

text \<open>What the device looks like after its initialisation.\<close>

definition ram_disk :: "disk \<Rightarrow> bool" where
  "ram_disk d \<longleftrightarrow> g_type d = DISK_RAM \<and> g_disk_num_luns d = 1 \<and>
     length (g_ramdisk d) = CONFIG_DISK_MAX_LUNS \<and> length (g_device_stats d) = CONFIG_DISK_MAX_LUNS \<and>
     length (g_cmd_queue d) = CONFIG_DISK_MAX_LUNS \<and> length (g_fptr d) = CONFIG_DISK_MAX_LUNS \<and>
     g_ramdisk d ! 0 \<noteq> NULL \<and> g_disk_block_len d \<in> {512, 1024, 2048, 4096} \<and>
     g_disk_num_blocks d \<noteq> 0 \<and> disk_size d < 2 ^ 64"

text \<open>Blocks that lie on the disk, and where they are.\<close>

definition on_disk :: "disk \<Rightarrow> u32 \<Rightarrow> u16 \<Rightarrow> bool" where
  "on_disk d lba len \<longleftrightarrow> unat lba < unat (g_disk_num_blocks d) \<and>
     unat lba + unat len \<le> unat (g_disk_num_blocks d)"

definition block_start :: "disk \<Rightarrow> u32 \<Rightarrow> nat" where
  "block_start d lba = unat lba * unat (g_disk_block_len d)"

definition block_bytes :: "disk \<Rightarrow> u16 \<Rightarrow> nat" where
  "block_bytes d len = unat len * unat (g_disk_block_len d)"

text \<open>A section of a list, and a list with a section replaced.\<close>

definition bytes_at :: "nat \<Rightarrow> nat \<Rightarrow> 'a list \<Rightarrow> 'a list" where
  "bytes_at off n xs = take n (drop off xs)"

definition bytes_put :: "nat \<Rightarrow> 'a list \<Rightarrow> 'a list \<Rightarrow> 'a list" where
  "bytes_put off ys xs = take off xs @ ys @ drop (off + length ys) xs"

lemma length_bytes_at [simp]: "off + n \<le> length xs \<Longrightarrow> length (bytes_at off n xs) = n"
  by (simp add: bytes_at_def)

lemma length_bytes_put [simp]: "off + length ys \<le> length xs \<Longrightarrow> length (bytes_put off ys xs) = length xs"
  by (simp add: bytes_put_def)

lemma bytes_at_bytes_put: "off + length ys \<le> length xs \<Longrightarrow> bytes_at off (length ys) (bytes_put off ys xs) = ys"
  by (simp add: bytes_at_def bytes_put_def)

lemma nth_bytes_put:
  "off + length ys \<le> length xs \<Longrightarrow> i < length xs \<Longrightarrow>
   bytes_put off ys xs ! i = (if off \<le> i \<and> i < off + length ys then ys ! (i - off) else xs ! i)"
  by (auto simp: bytes_put_def nth_append)

lemma bytes_at_bytes_put_other:
  assumes "off + length ys \<le> length xs" "off' + n \<le> length xs" "off' + n \<le> off \<or> off + length ys \<le> off'"
  shows "bytes_at off' n (bytes_put off ys xs) = bytes_at off' n xs"
  using assms by (intro nth_equalityI) (auto simp: bytes_at_def nth_bytes_put)

lemma map_put_mem_bytes_at:
  assumes "distinct D" "off + length bs \<le> length D"
  shows "map (put_mem (bytes_at off (length bs) D) bs m) D = bytes_put off bs (map m D)"
proof (rule nth_equalityI)
  fix i assume i: "i < length (map (put_mem (bytes_at off (length bs) D) bs m) D)"
  show "map (put_mem (bytes_at off (length bs) D) bs m) D ! i = bytes_put off bs (map m D) ! i"
  proof (cases "off \<le> i \<and> i < off + length bs")
    case True
    then have "D ! i = bytes_at off (length bs) D ! (i - off)"
      using assms(2) True unfolding bytes_at_def by (subst nth_take) auto
    moreover have "put_mem (bytes_at off (length bs) D) bs m (bytes_at off (length bs) D ! (i - off)) = bs ! (i - off)"
      using assms True by (intro put_mem_nth) (auto simp: bytes_at_def)
    ultimately show ?thesis using True i assms by (simp add: nth_bytes_put)
  next
    case False
    have "D ! i \<notin> set (bytes_at off (length bs) D)"
    proof
      assume "D ! i \<in> set (bytes_at off (length bs) D)"
      then obtain j where "j < length bs" "off + j < length D" "D ! i = D ! (off + j)"
        by (auto simp: bytes_at_def in_set_conv_nth)
      then have "i = off + j" using assms(1) i by (simp add: nth_eq_iff_index_eq)
      with False \<open>j < length bs\<close> show False by simp
    qed
    moreover have "bytes_put off bs (map m D) ! i = m (D ! i)"
      using False i assms(2) by (subst nth_bytes_put) auto
    ultimately show ?thesis using i by (simp add: put_mem_other)
  qed
qed (use assms in simp)

subsection \<open>Changes of the device\<close>

lemma upd_disk_simps [simp]:
  "t_disk (upd_disk f s) = f (t_disk s)" "t_mem (upd_disk f s) = t_mem s"
  "t_cmd_mem (upd_disk f s) = t_cmd_mem s" "t_out (upd_disk f s) = t_out s"
  "t_sends (upd_disk f s) = t_sends s" "t_slock (upd_disk f s) = t_slock s"
  "t_sess_params (upd_disk f s) = t_sess_params s" "t_cmds (upd_disk f s) = t_cmds s"
  "t_header_q (upd_disk f s) = t_header_q s" "t_cmd_q (upd_disk f s) = t_cmd_q s"
  "t_StatSN (upd_disk f s) = t_StatSN s" "t_ExpCmdSN (upd_disk f s) = t_ExpCmdSN s"
  "t_MaxCmdSN (upd_disk f s) = t_MaxCmdSN s" "t_in (upd_disk f s) = t_in s"
  "t_UsePhaseCollapsedRead (upd_disk f s) = t_UsePhaseCollapsedRead s"
  "scsi_of (upd_disk f s) p = scsi_of s p"
  by (simp_all add: upd_disk_def scsi_of_def)

subsection \<open>Address arithmetic\<close>

lemma unat_ucast_up_simp:
  "LENGTH('a) \<le> LENGTH('b) \<Longrightarrow> unat (ucast w :: 'b::len word) = unat w" for w :: "'a::len word"
proof -
  assume "LENGTH('a) \<le> LENGTH('b)"
  then have "(2 :: nat) ^ LENGTH('a) \<le> 2 ^ LENGTH('b)" by (simp add: power_increasing)
  moreover have "unat w < 2 ^ LENGTH('a)" by (rule unsigned_less)
  ultimately have "unat w < 2 ^ LENGTH('b)" by (metis less_le_trans)
  then show ?thesis by (simp add: unsigned_ucast_eq take_bit_nat_eq_self)
qed

lemma ucast_16_32_64: "ucast (ucast w :: u32) = (ucast w :: u64)" for w :: u16
  by (simp add: word_unat_eq_iff unat_ucast_up_simp)

lemma block_len_bounds: "ram_disk d \<Longrightarrow> 0 < unat (g_disk_block_len d) \<and> unat (g_disk_block_len d) \<le> 4096"
  by (auto simp: ram_disk_def)

lemma num_bytes_exact:
  assumes "ram_disk d"
  shows "unat (num_bytes d (ucast len)) = block_bytes d len"
proof -
  have "unat len < 2 ^ LENGTH(16)" by (rule unsigned_less)
  then have "unat len * unat (g_disk_block_len d) \<le> 2 ^ 16 * 4096"
    using block_len_bounds [OF assms] by (intro mult_le_mono) auto
  then have "unat (ucast len :: u32) * unat (g_disk_block_len d) < 2 ^ LENGTH(32)"
    by (simp add: unat_ucast_up_simp)
  then show ?thesis
    unfolding num_bytes_def block_bytes_def
    by (subst unat_mult_lem [THEN iffD1]) (simp_all add: unat_ucast_up_simp)
qed

lemma byte_offset_exact:
  assumes "ram_disk d" "on_disk d lba len"
  shows "unat (byte_offset d (ucast lba)) = block_start d lba"
proof -
  have "unat lba * unat (g_disk_block_len d) \<le> disk_size d"
    using assms(2) by (simp add: on_disk_def disk_size_def)
  then have "unat (ucast lba :: u64) * unat (ucast (g_disk_block_len d) :: u64) < 2 ^ LENGTH(64)"
    using assms(1) by (simp add: unat_ucast_up_simp ram_disk_def)
  then show ?thesis
    unfolding byte_offset_def block_start_def
    by (subst unat_mult_lem [THEN iffD1]) (simp_all add: unat_ucast_up_simp)
qed

lemma beyond_media_iff:
  assumes "ram_disk d"
  shows "beyond_media d (ucast lba) (ucast len) \<longleftrightarrow> \<not> on_disk d lba len"
proof -
  let ?n = "g_disk_num_blocks d"
  have l: "unat lba < 2 ^ LENGTH(32)" "unat len < 2 ^ LENGTH(16)" by (rule unsigned_less)+
  have pos: "0 < unat ?n" using assms by (simp add: ram_disk_def unat_gt_0)
  have "unat (?n - 1) = unat ?n - 1"
    using assms by (simp add: ram_disk_def unat_minus_one)
  then have "ucast lba > ?n - 1 \<longleftrightarrow> unat ?n \<le> unat lba"
    using pos by (auto simp: word_less_nat_alt unat_ucast_up_simp)
  moreover have "unat (ucast lba + ucast len :: u64) = unat lba + unat len"
    using l by (subst unat_add_lem [THEN iffD1]) (simp_all add: unat_ucast_up_simp)
  then have "ucast lba + ucast len > ?n \<longleftrightarrow> unat ?n < unat lba + unat len"
    by (simp add: word_less_nat_alt)
  ultimately show ?thesis
    unfolding beyond_media_def on_disk_def by auto
qed

lemma blocks_on_disk:
  assumes "on_disk d lba len"
  shows "block_start d lba + block_bytes d len \<le> disk_size d"
proof -
  have "(unat lba + unat len) * unat (g_disk_block_len d) \<le> disk_size d"
    using assms by (simp add: on_disk_def disk_size_def)
  then show ?thesis by (simp add: block_start_def block_bytes_def add_mult_distrib)
qed

text \<open>The vector that a command gets for its blocks.\<close>

definition block_iov :: "disk \<Rightarrow> u32 \<Rightarrow> u16 \<Rightarrow> iovec" where
  "block_iov d lba len = \<lparr>iov_base = g_ramdisk d ! 0 + block_start d lba, iov_len = block_bytes d len\<rparr>"

lemma block_iov_addrs:
  assumes "on_disk d lba len"
  shows "iovs_addrs [block_iov d lba len] = bytes_at (block_start d lba) (block_bytes d len) (disk_addrs d)"
  using blocks_on_disk [OF assms]
  by (simp add: iovs_addrs_def iov_addrs_def block_iov_def bytes_at_def disk_addrs_def take_upt drop_upt)

lemma length_disk_addrs [simp]: "length (disk_addrs d) = disk_size d"
  by (simp add: disk_addrs_def)

lemma distinct_disk_addrs [simp]: "distinct (disk_addrs d)"
  by (simp add: disk_addrs_def)

end
