(* ===== verification/Disk_Commands.thy ===== *)
theory Disk_Commands
  imports Disk_Access
begin

section \<open>Commands of a RAM disk\<close>

text \<open>
  The commands of \<^verbatim>\<open>device_command\<close> on a RAM disk, from the command's descriptor block to the
  response of the target, in terms of the disk as a string of bytes.
\<close>

subsection \<open>Completion\<close>

lemma upd_cmd_more_simps [simp]:
  "t_cmds (upd_cmd p f s) = t_cmds s" "t_header_q (upd_cmd p f s) = t_header_q s"
  "t_cmd_q (upd_cmd p f s) = t_cmd_q s" "t_in (upd_cmd p f s) = t_in s"
  "scsi_of (upd_cmd p f s) p = tg_scsi (f (t_cmd_mem s p))"
  by (simp_all add: upd_cmd_def scsi_of_def)

text \<open>Commands with no side effects of their own at the end.\<close>

definition plain_op :: "byte \<Rightarrow> bool" where
  "plain_op op \<longleftrightarrow> op \<noteq> ISCSI_IOCTL_TRACING_SET \<and> op \<noteq> ISCSI_IOCTL_TARGET_EXIT"

lemma command_done_ram:
  assumes "ram_disk (t_disk s)" "sc_lun (scsi_of s p) = 0" "plain_op (sc_cdb (scsi_of s p) ! 0)"
    and "device_command_done env p s = command_release env p t" "releasable s p"
    and "t_cmds t = t_cmds s" "t_header_q t = t_header_q s" "t_cmd_q t = t_cmd_q s"
    and "sc_tag (scsi_of t p) = sc_tag (scsi_of s p)" "sc_cdb (scsi_of t p) = sc_cdb (scsi_of s p)"
    and "t_disk t = t_disk s"
  shows "\<exists>s'. command_done env p s = Return 0 s' \<and> t_out s' = t_out t \<and> t_mem s' = t_mem t \<and>
    t_disk s' = t_disk s \<and> t_slock s' = t_slock t"
proof -
  have "releasable t p" using assms(5) releasable_cong [OF assms(6-9)] by simp
  then obtain s' where s': "command_release env p t = Return 0 s'" "t_out s' = t_out t"
      "t_mem s' = t_mem t" "t_disk s' = t_disk t" "t_cmd_mem s' = t_cmd_mem t" "t_slock s' = t_slock t"
    using command_release_ok by blast
  have "sc_cdb (scsi_of s' p) = sc_cdb (scsi_of s p)" using s'(5) assms(10) by (simp add: scsi_of_def)
  then show ?thesis
    using assms(1-4,11) s'
    by (auto simp: command_done_def set_trace_file_def write_out_def clean_up_def ram_disk_def
        plain_op_def Let_def scsi_of_def CONFIG_DISK_MAX_LUNS_def)
qed

subsection \<open>READ(10)\<close>

text \<open>A command as \<^verbatim>\<open>scsi_command_t\<close> hands it over.\<close>

definition fresh_cmd :: "target_session \<Rightarrow> ptr \<Rightarrow> bool" where
  "fresh_cmd s p \<longleftrightarrow> tg_gather (t_cmd_mem s p) = [] \<and> tg_scatter (t_cmd_mem s p) = [] \<and>
     \<not> tg_send_data (t_cmd_mem s p) \<and> sc_lun (scsi_of s p) = 0"

lemma disk_read_ram:
  assumes "ram_disk (t_disk s)" "on_disk (t_disk s) lba len" "len \<noteq> 0"
    and "block_bytes (t_disk s) len \<le> unat CONFIG_DISK_MAX_BURST"
  shows "disk_read env p 0 (ucast lba) len s k =
    k (int (block_bytes (t_disk s) len))
      (upd_cmd p (\<lambda>c. c\<lparr>tg_gather := [block_iov (t_disk s) lba len]\<rparr>) (set_private p (ucast lba) (ucast len) s))"
proof -
  have "\<not> num_bytes (t_disk s) (ucast len) > CONFIG_DISK_MAX_BURST"
    using assms(4) num_bytes_exact [OF assms(1), of len] by (simp add: word_less_nat_alt)
  then show ?thesis
    using assms num_bytes_exact [OF assms(1), of len] byte_offset_exact [OF assms(1,2)]
      beyond_media_iff [OF assms(1), of lba len]
    by (simp add: disk_read_def read_allocate_space_def ram_disk_def Let_def block_iov_def NULL_def)
qed

lemma add_trace_simps [simp]:
  "t_mem (add_trace w lun lba len s) = t_mem s" "t_cmd_mem (add_trace w lun lba len s) = t_cmd_mem s"
  "t_out (add_trace w lun lba len s) = t_out s" "t_sends (add_trace w lun lba len s) = t_sends s"
  "t_slock (add_trace w lun lba len s) = t_slock s" "t_in (add_trace w lun lba len s) = t_in s"
  "t_sess_params (add_trace w lun lba len s) = t_sess_params s" "t_cmds (add_trace w lun lba len s) = t_cmds s"
  "t_header_q (add_trace w lun lba len s) = t_header_q s" "t_cmd_q (add_trace w lun lba len s) = t_cmd_q s"
  "t_StatSN (add_trace w lun lba len s) = t_StatSN s" "t_ExpCmdSN (add_trace w lun lba len s) = t_ExpCmdSN s"
  "t_MaxCmdSN (add_trace w lun lba len s) = t_MaxCmdSN s"
  "t_UsePhaseCollapsedRead (add_trace w lun lba len s) = t_UsePhaseCollapsedRead s"
  "scsi_of (add_trace w lun lba len s) p = scsi_of s p"
  by (simp_all add: add_trace_def Let_def)

text \<open>The disk up to its bookkeeping: the trace, the statistics and the queues of commands.\<close>

definition same_disk :: "disk \<Rightarrow> disk \<Rightarrow> bool" where
  "same_disk d d' \<longleftrightarrow>
     d' = d\<lparr>g_trace := g_trace d', g_cmd_queue := g_cmd_queue d', g_work := g_work d',
            g_device_stats := g_device_stats d'\<rparr> \<and>
     length (g_cmd_queue d') = length (g_cmd_queue d) \<and>
     length (g_device_stats d') = length (g_device_stats d)"

lemma same_disk_refl [simp]: "same_disk d d"
  by (simp add: same_disk_def)

lemma same_disk_trans: "same_disk d d' \<Longrightarrow> same_disk d' d'' \<Longrightarrow> same_disk d d''"
  unfolding same_disk_def by (cases d; cases d'; cases d'') simp

lemma same_disk_trace [simp]:
  "same_disk (t_disk s) (t_disk (add_trace w lun lba len s))"
  "g_cmd_queue (t_disk (add_trace w lun lba len s)) = g_cmd_queue (t_disk s)"
  "g_crash (t_disk (add_trace w lun lba len s)) = g_crash (t_disk s)"
  by (simp_all add: same_disk_def add_trace_def Let_def)

lemma same_disk_facts:
  assumes "same_disk d d'"
  shows "ram_disk d' = ram_disk d" "on_disk d' lba len = on_disk d lba len" "disk_addrs d' = disk_addrs d"
    "block_start d' lba = block_start d lba" "block_bytes d' len = block_bytes d len"
    "block_iov d' lba len = block_iov d lba len" "disk_size d' = disk_size d"
    "g_ramdisk d' = g_ramdisk d" "g_crash d' = g_crash d"
proof -
  obtain x q w st where d': "d' = d\<lparr>g_trace := x, g_cmd_queue := q, g_work := w, g_device_stats := st\<rparr>"
    and l: "length q = length (g_cmd_queue d)" "length st = length (g_device_stats d)"
    using assms by (auto simp: same_disk_def)
  show "ram_disk d' = ram_disk d" "on_disk d' lba len = on_disk d lba len" "disk_addrs d' = disk_addrs d"
    "block_start d' lba = block_start d lba" "block_bytes d' len = block_bytes d len"
    "block_iov d' lba len = block_iov d lba len" "disk_size d' = disk_size d"
    "g_ramdisk d' = g_ramdisk d" "g_crash d' = g_crash d"
    by (simp_all add: d' l ram_disk_def on_disk_def disk_addrs_def block_start_def block_bytes_def
        block_iov_def disk_size_def)
qed

lemma content_same: "t_mem s' = t_mem s \<Longrightarrow> same_disk (t_disk s) (t_disk s') \<Longrightarrow> content s' = content s"
  by (simp add: content_def same_disk_facts)

definition read_pieces :: "target_session \<Rightarrow> u16 \<Rightarrow> (nat \<times> nat) list" where
  "read_pieces s len =
    pieces (unat (max_data_seg_length (t_sess_params s))) (block_bytes (t_disk s) len) 0"

lemma device_command_read10:
  fixes s :: target_session and p :: ptr
  defines "sc \<equiv> scsi_of s p"
  defines "lba \<equiv> lba_10 (sc_cdb sc)" and "len \<equiv> len_10 (sc_cdb sc)"
    and "seg \<equiv> max_data_seg_length (t_sess_params s)"
  assumes "ram_disk (t_disk s)" "fresh_cmd s p" "sc_cdb sc ! 0 = READ_10" "on_disk (t_disk s) lba len" "len \<noteq> 0"
    and "block_bytes (t_disk s) len \<le> unat CONFIG_DISK_MAX_BURST"
    and "unat (sc_trans_len sc) = block_bytes (t_disk s) len" "sc_todev sc = 0"
    and "seg \<noteq> 0" "unat (sc_trans_len sc) + unat seg \<le> 2 ^ 32"
    and "\<not> t_slock s" "\<not> t_UsePhaseCollapsedRead s" "releasable s p"
    and "sends_ok env (2 * length (read_pieces s len) + 1) s"
  shows "\<exists>s'. device_command env p s = Return 0 s' \<and>
    t_out s' = t_out s @ read_messages s sc (iovs_addrs [block_iov (t_disk s) lba len]) 0 (read_pieces s len) @
      [iscsi_scsi_rsp_encap (read_response s (sc_tag sc) (of_nat (length (read_pieces s len))))] \<and>
    t_mem s' = t_mem s \<and> same_disk (t_disk s) (t_disk s') \<and> \<not> t_slock s'"
proof -
  let ?n = "block_bytes (t_disk s) len" and ?v = "block_iov (t_disk s) lba len"
  define s0 where "s0 = add_trace False 0 lba len s"
  have d0: "same_disk (t_disk s) (t_disk s0)" by (simp add: s0_def)
  note f0 = same_disk_facts [OF d0]
  define s1 where "s1 = upd_cmd p (\<lambda>c. c\<lparr>tg_gather := [?v]\<rparr>) (set_private p (ucast lba) (ucast len) s0)"
  define t where "t = upd_scsi p (\<lambda>sc. sc\<lparr>sc_fromdev := 1\<rparr>) (set_scsi_status p 0 (of_nat ?n) s1)"
  have n: "(of_nat ?n :: u32) = sc_trans_len sc"
    using assms(11) by (metis of_nat_unat ucast_id)
  have tf: "t_disk t = t_disk s0" "t_mem t = t_mem s" "t_out t = t_out s" "t_sends t = t_sends s"
      "t_slock t = t_slock s" "t_sess_params t = t_sess_params s" "t_cmds t = t_cmds s"
      "t_header_q t = t_header_q s" "t_cmd_q t = t_cmd_q s" "t_StatSN t = t_StatSN s"
      "t_ExpCmdSN t = t_ExpCmdSN s" "t_MaxCmdSN t = t_MaxCmdSN s"
      "t_UsePhaseCollapsedRead t = t_UsePhaseCollapsedRead s"
      "tg_gather (t_cmd_mem t p) = [?v]" "\<not> tg_send_data (t_cmd_mem t p)"
      "scsi_of t p = sc\<lparr>sc_status := 0, sc_length := sc_trans_len sc, sc_fromdev := 1\<rparr>"
    using assms(6) n by (simp_all add: t_def s1_def s0_def set_private_def set_scsi_status_def upd_scsi_def
        fresh_cmd_def sc_def scsi_of_def)
  have "\<not> g_disk_num_luns (t_disk s) \<le> 0" using assms(5) by (simp add: ram_disk_def)
  then have cmd: "device_command env p s = command_done env p t"
    using assms(6-9) disk_read_ram [of s0 lba len env p] assms(5,10) f0
    by (simp add: device_command_def fresh_cmd_def sc_def [symmetric] lba_def [symmetric]
        len_def [symmetric] disk_opcodes Let_def scsi_of_def [symmetric] s0_def [symmetric] s1_def [symmetric]
        finish_command_def t_def [symmetric])
  have pos: "0 < sc_trans_len sc"
  proof -
    have "0 < ?n" using assms(9) block_len_bounds [OF assms(5)] by (simp add: block_bytes_def unat_gt_0)
    then show ?thesis using assms(11) by (simp add: word_less_nat_alt)
  qed
  have gather: "NULL \<notin> iov_base ` set [?v]" "iovs_len [?v] = unat (sc_trans_len sc)"
    using assms(5,11) by (simp_all add: block_iov_def ram_disk_def NULL_def iovs_len_def)
  obtain u where u: "device_command_done env p t = command_release env p u"
      "t_out u = t_out t @ read_messages t (scsi_of t p) (iovs_addrs [?v]) 0 (read_pieces s len) @
      [iscsi_scsi_rsp_encap (read_response t (sc_tag sc) (of_nat (length (read_pieces s len))))]"
      "t_cmds u = t_cmds t" "t_header_q u = t_header_q t" "t_cmd_q u = t_cmd_q t"
      "sc_tag (scsi_of u p) = sc_tag sc" "sc_cdb (scsi_of u p) = sc_cdb sc" "t_mem u = t_mem t"
      "t_disk u = t_disk t" "\<not> t_slock u"
    using device_command_done_read [of "read_pieces s len" t p env] assms(11-18) pos gather
    by (auto simp: tf read_pieces_def seg_def sends_ok_def)
  have "\<exists>s'. command_done env p t = Return 0 s' \<and> t_out s' = t_out u \<and> t_mem s' = t_mem u \<and>
    t_disk s' = t_disk t \<and> t_slock s' = t_slock u"
    using assms(5-7,17) u releasable_cong [of t s p]
    by (intro command_done_ram) (simp_all add: tf f0 fresh_cmd_def sc_def [symmetric] plain_op_def disk_opcodes)
  moreover have "read_messages t (scsi_of t p) A sn ps = read_messages s sc A sn ps" for A sn ps
    using assms(16) by (intro read_messages_cong) (simp_all add: tf)
  moreover have "read_response t tag k = read_response s tag k" for tag k
    by (simp add: read_response_def tf)
  ultimately show ?thesis using cmd u(2,8,10) d0 by (auto simp: tf)
qed

text \<open>The data that a sequence of headers and their data segments carries.\<close>

fun payload :: "byte list list \<Rightarrow> byte list" where
  "payload (h # data # ms) = data @ payload ms"
| "payload ms = []"

lemma payload_read_messages:
  "0 < b \<Longrightarrow> off + n = length A \<Longrightarrow>
   payload (read_messages s sc A sn (pieces b n off)) = map (t_mem s) (drop off A)"
proof (induction b n off arbitrary: sn rule: pieces.induct)
  case (1 b n off)
  show ?case
  proof (cases "n = 0")
    case False
    have "take (min n b) (drop off A) @ drop (off + min n b) A = drop off A"
      by (metis append_take_drop_id drop_drop add.commute)
    then have "map (t_mem s) (take (min n b) (drop off A)) @ map (t_mem s) (drop (off + min n b) A) =
        map (t_mem s) (drop off A)"
      by (metis map_append)
    then show ?thesis using 1 False by (subst pieces.simps) simp
  qed (use 1 in simp)
qed

lemma read10_payload:
  assumes "on_disk (t_disk s) lba len" "max_data_seg_length (t_sess_params s) \<noteq> 0"
  shows "payload (read_messages s sc (iovs_addrs [block_iov (t_disk s) lba len]) 0 (read_pieces s len)) =
    bytes_at (block_start (t_disk s) lba) (block_bytes (t_disk s) len) (content s)"
proof -
  have "length (iovs_addrs [block_iov (t_disk s) lba len]) = block_bytes (t_disk s) len"
    by (simp add: block_iov_def iovs_len_def)
  then show ?thesis
    using assms payload_read_messages [of "unat (max_data_seg_length (t_sess_params s))" 0 "block_bytes (t_disk s) len"
        "iovs_addrs [block_iov (t_disk s) lba len]" s sc 0]
    unfolding read_pieces_def block_iov_addrs [OF assms(1)]
    by (simp add: unat_gt_0 content_def bytes_at_def take_map drop_map)
qed

subsection \<open>WRITE(10)\<close>

lemma copy_immediate_one:
  "length bs \<le> iov_len v \<Longrightarrow> copy_immediate [v] bs m = Some (put_mem (take (length bs) (iov_addrs v)) bs m)"
  by simp

text \<open>The command with its vector on the disk, and its immediate data copied there.\<close>

definition write_begun :: "ptr \<Rightarrow> u32 \<Rightarrow> u16 \<Rightarrow> target_session \<Rightarrow> target_session" where
  "write_begun p lba len s =
    (let v = block_iov (t_disk s) lba len; imm = tg_immediate (t_cmd_mem s p);
         s = add_trace True 0 lba len (upd_cmd p (\<lambda>c. c\<lparr>tg_is_write := True\<rparr>) s);
         s = upd_cmd p (\<lambda>c. c\<lparr>tg_scatter := [v]\<rparr>) (set_private p (ucast lba) (ucast len) s)
     in upd_scsi p (\<lambda>sc. sc\<lparr>sc_bytes_todev := sc_length sc\<rparr>)
          (s\<lparr>t_mem := put_mem (take (length imm) (iov_addrs v)) imm (t_mem s)\<rparr>))"

lemma write_begun_facts [simp]:
  "t_out (write_begun p lba len s) = t_out s" "t_sends (write_begun p lba len s) = t_sends s"
  "t_slock (write_begun p lba len s) = t_slock s" "t_sess_params (write_begun p lba len s) = t_sess_params s"
  "t_cmds (write_begun p lba len s) = t_cmds s" "t_header_q (write_begun p lba len s) = t_header_q s"
  "t_cmd_q (write_begun p lba len s) = t_cmd_q s" "t_StatSN (write_begun p lba len s) = t_StatSN s"
  "t_ExpCmdSN (write_begun p lba len s) = t_ExpCmdSN s" "t_MaxCmdSN (write_begun p lba len s) = t_MaxCmdSN s"
  "t_in (write_begun p lba len s) = t_in s"
  "t_UsePhaseCollapsedRead (write_begun p lba len s) = t_UsePhaseCollapsedRead s"
  "scsi_of (write_begun p lba len s) p = (scsi_of s p)\<lparr>sc_bytes_todev := sc_length (scsi_of s p)\<rparr>"
  "tg_scatter (t_cmd_mem (write_begun p lba len s) p) = [block_iov (t_disk s) lba len]"
  "tg_gather (t_cmd_mem (write_begun p lba len s) p) = tg_gather (t_cmd_mem s p)"
  "tg_send_data (t_cmd_mem (write_begun p lba len s) p) = tg_send_data (t_cmd_mem s p)"
  "tg_done (t_cmd_mem (write_begun p lba len s) p) = tg_done (t_cmd_mem s p)"
  "tg_is_write (t_cmd_mem (write_begun p lba len s) p)"
  "same_disk (t_disk s) (t_disk (write_begun p lba len s))"
  "g_cmd_queue (t_disk (write_begun p lba len s)) = g_cmd_queue (t_disk s)"
  by (simp_all add: write_begun_def Let_def upd_scsi_def set_private_def scsi_of_def)
    (simp_all add: upd_cmd_def add_trace_def Let_def upd_disk_def same_disk_def)

lemma write_begun_mem:
  "t_mem (write_begun p lba len s) =
     put_mem (take (length (tg_immediate (t_cmd_mem s p))) (iov_addrs (block_iov (t_disk s) lba len)))
       (tg_immediate (t_cmd_mem s p)) (t_mem s)"
  by (simp add: write_begun_def Let_def upd_scsi_def set_private_def)

lemma content_put:
  assumes "on_disk d lba len" "off + length bs \<le> block_bytes d len"
    and "t_mem s' = put_mem (take (length bs) (drop off (iovs_addrs [block_iov d lba len]))) bs (t_mem s)"
    and "same_disk d (t_disk s)" "same_disk d (t_disk s')"
  shows "content s' = bytes_put (block_start d lba + off) bs (content s)"
proof -
  have "take (length bs) (drop off (iovs_addrs [block_iov d lba len])) =
      bytes_at (block_start d lba + off) (length bs) (disk_addrs d)"
    using assms(2) unfolding block_iov_addrs [OF assms(1)]
    by (simp add: bytes_at_def drop_take min_def add.commute)
  then show ?thesis
    using map_put_mem_bytes_at [of "disk_addrs d" "block_start d lba + off" bs "t_mem s"]
      blocks_on_disk [OF assms(1)] assms(2,3)
    by (simp add: content_def same_disk_facts [OF assms(4)] same_disk_facts [OF assms(5)])
qed

lemma write_begun_content:
  assumes "on_disk (t_disk s) lba len" "length (tg_immediate (t_cmd_mem s p)) \<le> block_bytes (t_disk s) len"
  shows "content (write_begun p lba len s) =
    bytes_put (block_start (t_disk s) lba) (tg_immediate (t_cmd_mem s p)) (content s)"
  using content_put [OF assms(1), of 0 "tg_immediate (t_cmd_mem s p)" "write_begun p lba len s" s] assms(2)
  by (simp add: write_begun_mem iovs_addrs_def)

lemma prepare_write_ram:
  fixes s :: target_session and p :: ptr
  defines "sc \<equiv> scsi_of s p"
  assumes "ram_disk (t_disk s)" "on_disk (t_disk s) lba len" "sc_cdb sc ! 0 \<noteq> ISCSI_IOCTL_TRACING_SET"
    and "length (tg_immediate (t_cmd_mem s p)) = unat (sc_length sc)"
    and "unat (sc_length sc) \<le> CONFIG_TARGET_MAX_IMMEDIATE" "unat (sc_length sc) \<le> block_bytes (t_disk s) len"
    and "s0 = add_trace True 0 lba len (upd_cmd p (\<lambda>c. c\<lparr>tg_is_write := True\<rparr>) s)"
    and "s1 = write_begun p lba len s"
  shows "prepare_write env p 0 (ucast lba) (ucast len) s0 k =
    (case (if sc_todev sc \<noteq> 0 \<and> sc_trans_len sc - sc_length sc \<noteq> 0
           then target_transfer_data env p s1 else command_done env p s1) of
       Return rc s \<Rightarrow> k (if rc \<noteq> 0 then -1 else 0) s | r \<Rightarrow> r)"
proof -
  have d0: "same_disk (t_disk s) (t_disk s0)" 
    using same_disk_trace(1) [of "upd_cmd p (\<lambda>c. c\<lparr>tg_is_write := True\<rparr>) s"] by (simp add: assms(8))
  note f0 = same_disk_facts [OF d0]
  have ram0: "ram_disk (t_disk s0)" using f0 assms(2) by simp
  let ?v = "block_iov (t_disk s) lba len" and ?imm = "tg_immediate (t_cmd_mem s p)"
  have c0: "scsi_of s0 p = sc" "tg_immediate (t_cmd_mem s0 p) = ?imm"
    by (simp_all add: assms(8) sc_def scsi_of_def)
  have n0: "unat (num_bytes (t_disk s0) (ucast len)) = block_bytes (t_disk s) len"
    using num_bytes_exact [OF ram0] f0 by simp
  have off0: "unat (byte_offset (t_disk s0) (ucast lba)) = block_start (t_disk s) lba"
    using byte_offset_exact [OF ram0, of lba len] f0 assms(3) by simp
  have in0: "\<not> beyond_media (t_disk s0) (ucast lba) (ucast (ucast len :: u32))"
    using beyond_media_iff [OF ram0, of lba len] f0 assms(3) by (simp add: ucast_16_32_64)
  have base0: "g_ramdisk (t_disk s0) ! 0 = g_ramdisk (t_disk s) ! 0"
    using f0(8) by simp
  define s2 where "s2 = upd_cmd p (\<lambda>c. c\<lparr>tg_scatter := [?v]\<rparr>) (set_private p (ucast lba) (ucast len) s0)"
  have prep: "prepare_write env p 0 (ucast lba) (ucast len) s0 k = start_transfer env p s2 k"
    using assms(2,4) ram0 c0(1) in0 n0 off0 base0
    by (simp add: prepare_write_def write_allocate_space_def Let_def ram_disk_def NULL_def s2_def
        block_iov_def ucast_16_32_64)
  have c2: "tg_scatter (t_cmd_mem s2 p) = [?v]" "tg_immediate (t_cmd_mem s2 p) = ?imm"
      "tg_scsi (t_cmd_mem s2 p) = sc" "t_mem s2 = t_mem s"
    using c0 by (simp_all add: s2_def set_private_def scsi_of_def assms(8))
  have s1: "upd_scsi p (\<lambda>sc. sc\<lparr>sc_bytes_todev := sc_length sc\<rparr>)
      (s2\<lparr>t_mem := put_mem (take (length ?imm) (iov_addrs ?v)) ?imm (t_mem s)\<rparr>) = s1"
    by (simp add: assms(8,9) s2_def write_begun_def Let_def set_private_def upd_cmd_def)
  have copy: "copy_immediate [?v] ?imm (t_mem s) = Some (put_mem (take (length ?imm) (iov_addrs ?v)) ?imm (t_mem s))"
    using assms(5,7) by (intro copy_immediate_one) (simp add: block_iov_def)
  have imm: "immediate_bytes (t_cmd_mem s2 p) (unat (sc_length sc)) = ?imm"
    using c2(2) assms(5) by (simp add: immediate_bytes_def)
  have "scsi_of s1 p = sc\<lparr>sc_bytes_todev := sc_length sc\<rparr>" by (simp add: assms(9) sc_def)
  then show ?thesis
    using assms(6) c2 copy imm s1
    unfolding prep start_transfer_def Let_def by simp
qed

text \<open>What a command looks like whose write can begin.\<close>

definition write_10_ok :: "target_session \<Rightarrow> ptr \<Rightarrow> bool" where
  "write_10_ok s p \<longleftrightarrow>
     (let sc = scsi_of s p; d = t_disk s
      in ram_disk d \<and> fresh_cmd s p \<and> sc_cdb sc ! 0 = WRITE_10 \<and>
         on_disk d (lba_10 (sc_cdb sc)) (len_10 (sc_cdb sc)) \<and>
         length (tg_immediate (t_cmd_mem s p)) = unat (sc_length sc) \<and>
         unat (sc_length sc) \<le> CONFIG_TARGET_MAX_IMMEDIATE \<and>
         unat (sc_length sc) \<le> block_bytes d (len_10 (sc_cdb sc)) \<and>
         sc_status sc = 0 \<and> sc_fromdev sc = 0)"

lemma code_nonzero: "((if rc \<noteq> 0 then - 1 else 0 :: int) \<noteq> 0) = (rc \<noteq> 0)" for rc :: int
  by simp

lemma device_command_write10:
  fixes s :: target_session and p :: ptr
  defines "sc \<equiv> scsi_of s p"
  assumes "write_10_ok s p" "s1 = write_begun p (lba_10 (sc_cdb sc)) (len_10 (sc_cdb sc)) s"
  shows "device_command env p s =
    (case (if sc_todev sc \<noteq> 0 \<and> sc_trans_len sc - sc_length sc \<noteq> 0
           then target_transfer_data env p s1 else command_done env p s1) of
       Return rc s \<Rightarrow> Return 0 (upd_scsi p (\<lambda>sc. sc\<lparr>sc_length := 0\<rparr>)
         (if rc \<noteq> 0 then upd_scsi p (\<lambda>sc. sc\<lparr>sc_status := 2\<rparr>) s else s))
     | r \<Rightarrow> r)"
proof -
  have "\<not> g_disk_num_luns (t_disk s) \<le> 0" using assms(2) by (simp add: write_10_ok_def ram_disk_def Let_def)
  then have "device_command env p s = prepare_write env p 0 (ucast (lba_10 (sc_cdb sc))) (ucast (len_10 (sc_cdb sc)))
      (add_trace True 0 (lba_10 (sc_cdb sc)) (len_10 (sc_cdb sc)) (upd_cmd p (\<lambda>c. c\<lparr>tg_is_write := True\<rparr>) s))
      (\<lambda>rc s. Return 0 (upd_scsi p (\<lambda>sc. sc\<lparr>sc_length := 0\<rparr>)
         (if rc \<noteq> 0 then upd_scsi p (\<lambda>sc. sc\<lparr>sc_status := 2\<rparr>) s else s)))"
    using assms(2)
    by (simp add: device_command_def write_10_ok_def fresh_cmd_def sc_def [symmetric] disk_opcodes Let_def
        scsi_of_def [symmetric])
  also have "\<dots> = (case (if sc_todev sc \<noteq> 0 \<and> sc_trans_len sc - sc_length sc \<noteq> 0
           then target_transfer_data env p s1 else command_done env p s1) of
       Return rc s \<Rightarrow> Return 0 (upd_scsi p (\<lambda>sc. sc\<lparr>sc_length := 0\<rparr>)
         (if (if rc \<noteq> 0 then -1 else 0 :: int) \<noteq> 0 then upd_scsi p (\<lambda>sc. sc\<lparr>sc_status := 2\<rparr>) s else s))
     | r \<Rightarrow> r)"
    unfolding sc_def
    by (rule prepare_write_ram)
      (use assms(2,3) in \<open>simp_all add: write_10_ok_def sc_def Let_def disk_opcodes\<close>)
  finally show ?thesis unfolding code_nonzero .
qed

text \<open>All data came with the command.\<close>

lemma upd_scsi_simps [simp]:
  "t_out (upd_scsi p f s) = t_out s" "t_mem (upd_scsi p f s) = t_mem s" "t_disk (upd_scsi p f s) = t_disk s"
  "t_slock (upd_scsi p f s) = t_slock s"
  by (simp_all add: upd_scsi_def)

lemma write10_immediate:
  fixes s :: target_session and p :: ptr
  defines "sc \<equiv> scsi_of s p" and "imm \<equiv> tg_immediate (t_cmd_mem s p)"
  assumes "write_10_ok s p" "sc_trans_len sc = sc_length sc" "releasable s p"
    and "\<not> t_slock s" "\<not> t_UsePhaseCollapsedRead s" "e_send_ok env (t_sends s)"
  shows "\<exists>s'. device_command env p s = Return 0 s' \<and>
    t_out s' = t_out s @ [iscsi_scsi_rsp_encap (status_response s sc)] \<and>
    content s' = bytes_put (block_start (t_disk s) (lba_10 (sc_cdb sc))) imm (content s) \<and>
    same_disk (t_disk s) (t_disk s') \<and> \<not> t_slock s'"
proof -
  let ?lba = "lba_10 (sc_cdb sc)" and ?len = "len_10 (sc_cdb sc)"
  define s1 where "s1 = write_begun p ?lba ?len s"
  have w: "ram_disk (t_disk s)" "fresh_cmd s p" "sc_cdb sc ! 0 = WRITE_10" "on_disk (t_disk s) ?lba ?len"
      "length imm = unat (sc_length sc)" "unat (sc_length sc) \<le> block_bytes (t_disk s) ?len"
      "sc_status sc = 0" "sc_fromdev sc = 0"
    using assms(3) by (simp_all add: write_10_ok_def sc_def imm_def Let_def)
  have sc1: "scsi_of s1 p = sc\<lparr>sc_bytes_todev := sc_length sc\<rparr>" by (simp add: s1_def sc_def)
  have d1: "same_disk (t_disk s) (t_disk s1)" by (simp add: s1_def)
  obtain u where u: "device_command_done env p s1 = command_release env p u"
      "t_out u = t_out s @ [iscsi_scsi_rsp_encap (status_response s1 (scsi_of s1 p))]"
      "t_cmds u = t_cmds s1" "t_header_q u = t_header_q s1" "t_cmd_q u = t_cmd_q s1"
      "sc_tag (scsi_of u p) = sc_tag (scsi_of s1 p)" "sc_cdb (scsi_of u p) = sc_cdb (scsi_of s1 p)"
      "t_mem u = t_mem s1" "t_disk u = t_disk s1" "\<not> t_slock u"
    using device_command_done_status [of s1 p env] assms(4,6-8) w(2,7,8)
    by (auto simp: s1_def sc_def fresh_cmd_def)
  have "releasable s1 p"
    using assms(5) by (subst releasable_cong [of _ s]) (simp_all add: s1_def)
  then obtain s2 where s2: "command_done env p s1 = Return 0 s2" "t_out s2 = t_out u" "t_mem s2 = t_mem u"
      "t_disk s2 = t_disk s1" "t_slock s2 = t_slock u"
    using command_done_ram [of s1 p env u] w(1-3) u same_disk_facts(1) [OF d1]
    by (auto simp: sc1 fresh_cmd_def sc_def [symmetric] plain_op_def disk_opcodes)
  have "status_response s1 (scsi_of s1 p) = status_response s sc"
    by (simp add: status_response_def read_response_def sc1) (simp add: s1_def)
  moreover have "content s1 = bytes_put (block_start (t_disk s) ?lba) imm (content s)"
    using write_begun_content [OF w(4), of p] w(5,6) by (simp add: s1_def imm_def)
  moreover have "content s2 = content s1" using s2 u by (simp add: content_def)
  ultimately show ?thesis
    using device_command_write10 [OF assms(3), of s1 env, folded sc_def] s2 u(2,10) d1 assms(4)
    by (simp add: s1_def [symmetric]) (simp add: content_def)
qed

end
