(* ===== verification/Disk_Writes.thy ===== *)
theory Disk_Writes
  imports Disk_Commands
begin

section \<open>Write data on its way to the disk\<close>

text \<open>
  Data PDUs of a write command, from their headers in the target (\<^verbatim>\<open>execute_t\<close>'s case of write data)
  through \<^verbatim>\<open>device_place_data\<close> into the blocks of the command, and the completion by a worker of the
  unit after the last of them.
\<close>

subsection \<open>One piece\<close>

lemma sock_recv_padded:
  "t_in s = padded m @ rest \<Longrightarrow> length m < 2 ^ 31 \<Longrightarrow> sock_recv (length m) s = (Some m, s\<lparr>t_in := rest\<rparr>)"
  by (simp add: sock_recv_def padded_def Let_def)

lemma device_place_data_piece:
  assumes "tg_scatter (t_cmd_mem s p) = [v]" "iov_base v \<noteq> NULL" "data \<noteq> []"
    and "len = of_nat (length data)" "length data < 2 ^ 24" "unat off + length data \<le> iov_len v"
    and "t_in s = padded data @ rest"
  shows "device_place_data env p off len s = Return (int (length data))
    (s\<lparr>t_in := rest, t_mem := put_mem (take (length data) (drop (unat off) (iovs_addrs [v]))) data (t_mem s)\<rparr>)"
proof -
  have l: "unat len = length data" using assms(4,5) by (simp add: of_nat_inverse [OF refl])
  then have len: "len \<noteq> 0" "sint len = int (length data)"
    using assms(3-5) by (auto simp: signed_of_nat signed_take_bit_int_eq_self)
  have "iovs_len [v] = iov_len v" by (simp add: iovs_len_def)
  have len0: "unat off < iov_len v" using assms(3,6) by (cases data) simp_all
  with len0 obtain arr i n where m: "modify_iov [v] 0 1 (unat off) (length data) = (0, arr, i, n)"
      "iovs_addrs (take n (drop i arr)) = take (length data) (drop (unat off) (iovs_addrs [v]))"
      "NULL \<notin> iov_base ` set (take n (drop i arr))"
    using modify_iov_view [of "unat off" 1 0 "[v]" "length data"] assms(2,6) len0 by auto
  have "iovs_len (take n (drop i arr)) = length data"
    using arg_cong [OF m(2), of length] assms(6) \<open>iovs_len [v] = iov_len v\<close> by simp
  then show ?thesis
    using m assms(1,5) len l sock_recv_padded [OF assms(7)]
    by (auto simp: device_place_data_def Let_def image_iff)
qed

text \<open>The signal that all data is there puts the command into the queue of its unit.\<close>

definition queued :: "ptr \<Rightarrow> target_session \<Rightarrow> target_session" where
  "queued p s = upd_disk (\<lambda>d. d\<lparr>g_cmd_queue := (g_cmd_queue d)[0 := snd (iscsi_queue_insert (g_cmd_queue d ! 0) p)],
     g_work := (g_work d)[0 := wake_one (g_work d ! 0)]\<rparr>) s"

lemma same_disk_queued: "same_disk (t_disk s) (t_disk (queued p s))"
  by (simp add: same_disk_def queued_def)

definition queue_room :: "disk \<Rightarrow> bool" where
  "queue_room d \<longleftrightarrow> queue_inv (g_cmd_queue d ! 0) \<and> q_count (g_cmd_queue d ! 0) < q_depth (g_cmd_queue d ! 0)"

lemma device_enqueue_done:
  assumes "ram_disk (t_disk s)" "g_crash (t_disk s) = -1" "queue_room (t_disk s)"
    and "tg_done (t_cmd_mem s p)" "sc_lun (scsi_of s p) = 0"
  shows "device_enqueue env p s = Return 0 (queued p s)"
proof -
  obtain q where "iscsi_queue_insert (g_cmd_queue (t_disk s) ! 0) p = (0, q)"
    using assms(3) insert_room [of "g_cmd_queue (t_disk s) ! 0" p]
    by (cases "iscsi_queue_insert (g_cmd_queue (t_disk s) ! 0) p") (auto simp: queue_room_def)
  then show ?thesis
    using assms by (simp add: device_enqueue_def count_down_def Let_def ram_disk_def scsi_of_def queued_def
        upd_disk_def)
qed

lemma device_place_data_end:
  assumes "ram_disk (t_disk s)" "g_crash (t_disk s) = -1" "queue_room (t_disk s)" "sc_lun (scsi_of s p) = 0"
  shows "device_place_data env p 0 0 s = Return 0 (queued p (upd_cmd p (\<lambda>c. c\<lparr>tg_done := True\<rparr>) s))"
  using device_enqueue_done [of "upd_cmd p (\<lambda>c. c\<lparr>tg_done := True\<rparr>) s" p env] assms
  by (simp add: device_place_data_def scsi_of_def)

subsection \<open>A data PDU\<close>

text \<open>
  A write command whose data is under way: its tag is in the table, its vector on the disk, and it
  was asked for by R2T (or the session asks for all data that way).
\<close>

definition receiving :: "ptr \<Rightarrow> iovec \<Rightarrow> target_session \<Rightarrow> bool" where
  "receiving p v s \<longleftrightarrow>
     (\<exists>A m. hash_rel (t_cmds s) A m \<and> m (sc_tag (scsi_of s p)) = Some p) \<and> p \<noteq> NULL \<and>
     tg_ready (t_cmd_mem s p) \<and> tg_scatter (t_cmd_mem s p) = [v] \<and> iov_base v \<noteq> NULL \<and>
     (tg_r2t_flag (t_cmd_mem s p) \<or> initial_r2t (t_sess_params s)) \<and> sc_lun (scsi_of s p) = 0 \<and>
     unat (sc_trans_len (scsi_of s p)) \<le> iov_len v \<and>
     ram_disk (t_disk s) \<and> g_crash (t_disk s) = -1 \<and> queue_room (t_disk s)"

definition data_taken :: "ptr \<Rightarrow> iovec \<Rightarrow> u32 \<Rightarrow> byte list \<Rightarrow> byte list \<Rightarrow> target_session \<Rightarrow> target_session" where
  "data_taken p v off data rest s =
     upd_scsi p (\<lambda>sc. sc\<lparr>sc_bytes_todev := sc_bytes_todev sc + of_nat (length data)\<rparr>)
       (s\<lparr>t_in := rest, t_mem := put_mem (take (length data) (drop (unat off) (iov_addrs v))) data (t_mem s)\<rparr>)"

lemma data_taken_simps [simp]:
  "t_in (data_taken p v off data rest s) = rest"
  "t_mem (data_taken p v off data rest s) =
     put_mem (take (length data) (drop (unat off) (iov_addrs v))) data (t_mem s)"
  "t_disk (data_taken p v off data rest s) = t_disk s" "t_out (data_taken p v off data rest s) = t_out s"
  "t_sess_params (data_taken p v off data rest s) = t_sess_params s"
  "t_sends (data_taken p v off data rest s) = t_sends s" "t_slock (data_taken p v off data rest s) = t_slock s"
  "t_UsePhaseCollapsedRead (data_taken p v off data rest s) = t_UsePhaseCollapsedRead s"
  "t_StatSN (data_taken p v off data rest s) = t_StatSN s" "t_ExpCmdSN (data_taken p v off data rest s) = t_ExpCmdSN s"
  "t_MaxCmdSN (data_taken p v off data rest s) = t_MaxCmdSN s"
  "t_cmds (data_taken p v off data rest s) = t_cmds s" "t_header_q (data_taken p v off data rest s) = t_header_q s"
  "t_cmd_q (data_taken p v off data rest s) = t_cmd_q s"
  "t_cmd_mem (data_taken p v off data rest s) p = (t_cmd_mem s p)\<lparr>tg_scsi := (tg_scsi (t_cmd_mem s p))
     \<lparr>sc_bytes_todev := sc_bytes_todev (tg_scsi (t_cmd_mem s p)) + of_nat (length data)\<rparr>\<rparr>"
  "scsi_of (data_taken p v off data rest s) p = (scsi_of s p)
     \<lparr>sc_bytes_todev := sc_bytes_todev (scsi_of s p) + of_nat (length data)\<rparr>"
  by (simp_all add: data_taken_def upd_scsi_def scsi_of_def upd_cmd_def)

lemma receiving_taken [simp]: "receiving p v (data_taken p v off data rest s) = receiving p v s"
  by (simp add: receiving_def)

lemma with_disk_simps [simp]:
  "e_enqueue (with_disk env) = device_enqueue env" "e_place_data (with_disk env) = device_place_data env"
  "e_send_ok (with_disk env) = e_send_ok env"
  by (simp_all add: with_disk_def)

lemma place_write_data_piece:
  fixes s :: target_session and p :: ptr and data :: "byte list"
  defines "sc \<equiv> scsi_of s p" and "n \<equiv> (of_nat (length data) :: u32)"
  assumes "receiving p v s" "data \<noteq> []" "length data < 2 ^ 24" "t_in s = padded data @ rest"
    and "wd_length d = n" "unat (wd_offset d) + length data \<le> unat (sc_trans_len sc)"
  shows "place_write_data (with_disk env) p d s =
    (let s = data_taken p v (wd_offset d) data rest s
     in Return 0 (if sc_trans_len sc - (sc_bytes_todev sc + n) = 0
                  then queued p (upd_cmd p (\<lambda>c. c\<lparr>tg_done := True\<rparr>) s) else s))"
proof -
  let ?s = "data_taken p v (wd_offset d) data rest s"
  have r: "tg_scatter (t_cmd_mem s p) = [v]" "iov_base v \<noteq> NULL" "unat (sc_trans_len sc) \<le> iov_len v"
    using assms(3) by (simp_all add: receiving_def sc_def)
  have "device_place_data env p (wd_offset d) (wd_length d) s = Return (int (length data))
      (s\<lparr>t_in := rest, t_mem := put_mem (take (length data) (drop (unat (wd_offset d)) (iov_addrs v))) data (t_mem s)\<rparr>)" (is "_ = Return _ ?t")
    using r(3) assms(8) device_place_data_piece [OF r(1,2) assms(4) _ assms(5) _ assms(6), of "wd_length d" "wd_offset d" env]
    by (simp add: assms(7) n_def iovs_addrs_def)
  moreover have "upd_scsi p (\<lambda>sc. sc\<lparr>sc_bytes_todev := sc_bytes_todev sc + wd_length d\<rparr>) ?t = ?s"
    by (simp add: data_taken_def assms(7) n_def)
  moreover have "(word_of_int (int (length data)) :: u32) = wd_length d" by (simp add: assms(7) n_def)
  moreover have "device_place_data env p 0 0 ?s = Return 0 (queued p (upd_cmd p (\<lambda>c. c\<lparr>tg_done := True\<rparr>) ?s))"
    using assms(3) by (intro device_place_data_end) (simp_all add: receiving_def)
  moreover have "tg_r2t_flag (t_cmd_mem ?s p) \<or> initial_r2t (t_sess_params ?s)"
    using assms(3) by (simp add: receiving_def)
  ultimately show ?thesis
    unfolding place_write_data_def by (simp only: with_disk_simps outcome.case Let_def) (auto simp: sc_def n_def)
qed

lemma write_data_t_piece:
  fixes s :: target_session and p :: ptr and data :: "byte list"
  defines "sc \<equiv> scsi_of s p" and "n \<equiv> (of_nat (length data) :: u32)"
  assumes "receiving p v s" "data \<noteq> []" "length data < 2 ^ 24" "t_in s = padded data @ rest"
    and "wd_length d = n" "wd_tag d = sc_tag sc" "unat (wd_offset d) + length data \<le> unat (sc_trans_len sc)"
    and "unat (sc_bytes_todev sc) + length data \<le> unat (sc_trans_len sc)"
    and "max_data_seg_length (t_sess_params s) = 0 \<or> n \<le> max_data_seg_length (t_sess_params s)"
    and "sc_trans_len sc = sc_bytes_todev sc + n \<Longrightarrow> wd_final d \<noteq> 0"
  shows "write_data_t (with_disk env) (iscsi_write_data_encap d) s =
    (let s = data_taken p v (wd_offset d) data rest s
     in Return 0 (if sc_trans_len sc = sc_bytes_todev sc + n
                  then queued p (upd_cmd p (\<lambda>c. c\<lparr>tg_done := True\<rparr>) s) else s))"
proof -
  obtain A m where h: "hash_rel (t_cmds s) A m" "m (sc_tag sc) = Some p"
    using assms(3) by (auto simp: receiving_def sc_def)
  have get: "hash_get (t_cmds s) (sc_tag sc) = Some (p, t_cmds s)"
    using cmds.get_rel [OF h(1), of "sc_tag sc"] h(2) by simp
  have un: "unat n = length data" using assms(5) by (simp add: n_def of_nat_inverse [OF refl])
  have small: "wd_length d < 0x1000000" using un assms(5,7) by (simp add: word_less_nat_alt)
  let ?d = "write_data_wire d blank_write_data"
  have dec: "iscsi_write_data_decap (iscsi_write_data_encap d) blank_write_data = (0, ?d)"
    by (rule write_data.decap_encap [OF small])
  have fd: "wd_length ?d = n" "wd_tag ?d = sc_tag sc" "wd_offset ?d = wd_offset d"
      "sc_trans_len sc = sc_bytes_todev sc + n \<Longrightarrow> wd_final ?d = 1"
    using assms(7,8,12) by (simp_all add: write_data_wire_def)
  have "\<not> sc_bytes_todev sc + n > sc_trans_len sc"
    using assms(10) un add_words_eq [of "sc_bytes_todev sc" n "sc_trans_len sc"] by (simp add: word_less_nat_alt)
  moreover have "place_write_data (with_disk env) p ?d s =
    (let s = data_taken p v (wd_offset d) data rest s
     in Return 0 (if sc_trans_len sc - (sc_bytes_todev sc + n) = 0
                  then queued p (upd_cmd p (\<lambda>c. c\<lparr>tg_done := True\<rparr>) s) else s))"
    using place_write_data_piece [OF assms(3-6), of ?d env] fd(1,3) assms(9) by (simp add: sc_def n_def)
  ultimately show ?thesis
    using assms(3,11) fd get
    by (auto simp: write_data_t_def dec Let_def receiving_def sc_def [symmetric])
qed

subsection \<open>All pieces\<close>

fun write_rounds :: "'e device_env_scheme \<Rightarrow> header list \<Rightarrow> target_session \<Rightarrow> outcome" where
  "write_rounds env [] s = Return 0 s"
| "write_rounds env (h # hs) s =
    (case write_data_t env h s of
       Return rc s \<Rightarrow> if rc \<noteq> 0 then Return rc s else write_rounds env hs s
     | r \<Rightarrow> r)"

text \<open>A header that announces the piece of \<open>len\<close> bytes at \<open>off\<close> of a transfer of \<open>total\<close> bytes.\<close>

definition announces :: "u32 \<Rightarrow> nat \<Rightarrow> nat \<times> nat \<Rightarrow> iscsi_write_data_t \<Rightarrow> bool" where
  "announces tag whole pc d \<longleftrightarrow> wd_tag d = tag \<and> wd_offset d = of_nat (fst pc) \<and>
     wd_length d = of_nat (snd pc) \<and> (fst pc + snd pc = whole \<longrightarrow> wd_final d \<noteq> 0)"

definition data_complete :: "ptr \<Rightarrow> byte list \<Rightarrow> (nat \<Rightarrow> byte) \<Rightarrow> target_session \<Rightarrow> target_session" where
  "data_complete p rest m s = queued p (upd_cmd p (\<lambda>c. c\<lparr>tg_done := True,
     tg_scsi := (tg_scsi c)\<lparr>sc_bytes_todev := sc_trans_len (tg_scsi c)\<rparr>\<rparr>) (s\<lparr>t_in := rest, t_mem := m\<rparr>))"

lemma data_complete_last:
  assumes "sc_trans_len (scsi_of s p) = sc_bytes_todev (scsi_of s p) + of_nat (length data)"
  shows "queued p (upd_cmd p (\<lambda>c. c\<lparr>tg_done := True\<rparr>) (data_taken p v off data rest s)) =
    data_complete p rest (put_mem (take (length data) (drop (unat off) (iov_addrs v))) data (t_mem s)) s"
  using assms by (cases "t_cmd_mem s p") (simp add: data_complete_def data_taken_def upd_scsi_def upd_cmd_def
      scsi_of_def queued_def upd_disk_def)

lemma data_complete_taken [simp]:
  "data_complete p rest m (data_taken p v off data rest' s) = data_complete p rest m s"
  by (cases "t_cmd_mem s p") (simp add: data_complete_def data_taken_def upd_scsi_def upd_cmd_def queued_def
      upd_disk_def)

lemma write_rounds_pieces:
  assumes "0 < b" "b < 2 ^ 24" "receiving p v s" "0 < n"
    and "off = unat (sc_bytes_todev (scsi_of s p))" "off + n = unat (sc_trans_len (scsi_of s p))"
    and "length bs = off + n"
    and "max_data_seg_length (t_sess_params s) = 0 \<or> b \<le> unat (max_data_seg_length (t_sess_params s))"
    and "list_all2 (announces (sc_tag (scsi_of s p)) (off + n)) (pieces b n off) ds"
    and "t_in s = on_wire (map (\<lambda>(o', l). bytes_at o' l bs) (pieces b n off)) @ rest"
  shows "write_rounds (with_disk env) (map iscsi_write_data_encap ds) s =
    Return 0 (data_complete p rest (store_pieces (pieces b n off) (iov_addrs v) bs (t_mem s)) s)"
  using assms
proof (induction b n off arbitrary: s ds rule: pieces.induct)
  case (1 b n off)
  note a = 1(2-)
  let ?k = "min n b" and ?sc = "scsi_of s p"
  have ps: "pieces b n off = (off, ?k) # pieces b (n - ?k) (off + ?k)" using a(1,4) by (simp add: pieces_step)
  obtain d ds' where ds: "ds = d # ds'" and d: "announces (sc_tag ?sc) (off + n) (off, ?k) d"
    and ds': "list_all2 (announces (sc_tag ?sc) (off + n)) (pieces b (n - ?k) (off + ?k)) ds'"
    using a(9) unfolding ps by (auto simp: list_all2_Cons1)
  define data where "data = bytes_at off ?k bs"
  define rest' where "rest' = on_wire (map (\<lambda>(o', l). bytes_at o' l bs) (pieces b (n - ?k) (off + ?k))) @ rest"
  have k: "0 < ?k" "?k < 2 ^ 24" using a(1,2,4) by (simp_all add: min_def)
  have len1: "length data = ?k" using a(7) by (simp add: data_def)
  then have len: "length data = ?k" "data \<noteq> []" "length data < 2 ^ 24"
    using k by auto
  have lim: "unat (sc_trans_len ?sc) < 2 ^ LENGTH(32)" by (rule unsigned_less)
  have w: "unat (of_nat off :: u32) = off" "unat (of_nat ?k :: u32) = ?k"
    using a(6) lim by (auto intro!: of_nat_inverse)
  have last: "sc_trans_len ?sc = sc_bytes_todev ?sc + of_nat (length data) \<longleftrightarrow> n \<le> b"
  proof -
    have "unat (sc_bytes_todev ?sc + of_nat (length data)) = off + ?k"
      unfolding len(1) using add_words_eq [of "sc_bytes_todev ?sc" "of_nat ?k" "sc_trans_len ?sc"]
      unfolding w(2) a(5) [symmetric] a(6) [symmetric] by simp
    then have "sc_trans_len ?sc = sc_bytes_todev ?sc + of_nat (length data) \<longleftrightarrow> off + n = off + ?k"
      by (simp only: word_unat_eq_iff a(6) [symmetric])
    then show ?thesis by (simp add: min_def)
  qed
  let ?s = "data_taken p v (wd_offset d) data rest' s"
  have piece: "write_data_t (with_disk env) (iscsi_write_data_encap d) s =
    (let s' = ?s in Return 0 (if sc_trans_len ?sc = sc_bytes_todev ?sc + of_nat (length data)
              then queued p (upd_cmd p (\<lambda>c. c\<lparr>tg_done := True\<rparr>) s') else s'))"
  proof (rule write_data_t_piece [OF a(3) len(2,3)])
    show "t_in s = padded data @ rest'" using a(10) by (simp add: ps data_def rest'_def)
    show "wd_length d = of_nat (length data)" "wd_tag d = sc_tag ?sc"
      using d len(1) by (simp_all add: announces_def)
    show "unat (wd_offset d) + length data \<le> unat (sc_trans_len ?sc)"
      using d len(1) w(1) a(6) by (simp add: announces_def)
    show "unat (sc_bytes_todev ?sc) + length data \<le> unat (sc_trans_len ?sc)"
      using len(1) a(5,6) by simp
    show "max_data_seg_length (t_sess_params s) = 0 \<or> of_nat (length data) \<le> max_data_seg_length (t_sess_params s)"
      using a(8) w(2) len(1) by (auto simp: word_le_nat_alt)
    assume "sc_trans_len ?sc = sc_bytes_todev ?sc + of_nat (length data)"
    then have "?k = n" using last by simp
    then show "wd_final d \<noteq> 0" using d by (simp add: announces_def)
  qed
  have mem: "t_mem ?s = put_mem (take ?k (drop off (iov_addrs v))) (take ?k (drop off bs)) (t_mem s)"
    using d w(1) len(1) by (simp add: announces_def data_def bytes_at_def)
  show ?case
  proof (cases "n \<le> b")
    case True
    then have "pieces b (n - ?k) (off + ?k) = []" by simp
    then show ?thesis
      using True piece last data_complete_last [of s p data v "wd_offset d" rest'] ds' mem
      by (simp add: ds ps rest'_def)
  next
    case False
    have "write_rounds (with_disk env) (map iscsi_write_data_encap ds') ?s =
      Return 0 (data_complete p rest (store_pieces (pieces b (n - ?k) (off + ?k)) (iov_addrs v) bs (t_mem ?s)) ?s)"
    proof (rule 1(1))
      show "off + ?k = unat (sc_bytes_todev (scsi_of ?s p))"
        using a(5,6) w(2) len(1) add_words_eq [of "sc_bytes_todev ?sc" "of_nat ?k" "sc_trans_len ?sc"] by simp
    qed (use False a ds' in \<open>auto simp: rest'_def\<close>)
    then show ?thesis using False piece last mem by (simp add: ds ps)
  qed
qed

subsection \<open>The worker completes the command\<close>

lemma worker_takes:
  assumes "ram_disk (t_disk s)" "queue_inv (g_cmd_queue (t_disk s) ! 0)"
    and "queue_abs (g_cmd_queue (t_disk s) ! 0) = p # ps" "p \<noteq> NULL"
  shows "\<exists>d. lun_worker_step env 0 s = (case (if tg_done (t_cmd_mem s p) then command_done env p (upd_disk (\<lambda>_. d) s)
      else device_command env p (upd_disk (\<lambda>_. d) s)) of Return rc s \<Rightarrow> Return 0 s | r \<Rightarrow> r) \<and>
    same_disk (t_disk s) d \<and> queue_inv (g_cmd_queue d ! 0) \<and> queue_abs (g_cmd_queue d ! 0) = ps"
proof -
  obtain x q where r: "iscsi_queue_remove (g_cmd_queue (t_disk s) ! 0) = (x, q)" by fastforce
  have q: "x = p" "queue_inv q" "queue_abs q = ps"
    using ring.rm_some [OF assms(2,3) r] by auto
  let ?d = "(t_disk s)\<lparr>g_cmd_queue := (g_cmd_queue (t_disk s))[0 := q]\<rparr>"
  have "upd_disk (\<lambda>d. d\<lparr>g_cmd_queue := (g_cmd_queue d)[0 := q]\<rparr>) s = upd_disk (\<lambda>_. ?d) s"
    by (simp add: upd_disk_def)
  moreover have "same_disk (t_disk s) ?d" by (simp add: same_disk_def)
  moreover have "g_cmd_queue ?d ! 0 = q" using assms(1) by (simp add: ram_disk_def CONFIG_DISK_MAX_LUNS_def)
  ultimately show ?thesis
    using r q assms(4) by (intro exI [of _ ?d]) (simp add: lun_worker_step_def Let_def)
qed

lemma worker_completes_write:
  fixes s :: target_session and p :: ptr
  defines "sc \<equiv> scsi_of s p"
  assumes "ram_disk (t_disk s)" "queue_inv (g_cmd_queue (t_disk s) ! 0)"
    and "queue_abs (g_cmd_queue (t_disk s) ! 0) = [p]" "p \<noteq> NULL" "tg_done (t_cmd_mem s p)"
    and "sc_lun sc = 0" "plain_op (sc_cdb sc ! 0)" "releasable s p"
    and "\<not> tg_send_data (t_cmd_mem s p)" "\<not> t_slock s" "\<not> t_UsePhaseCollapsedRead s"
    and "e_send_ok env (t_sends s)" "sc_status sc = 0" "sc_fromdev sc = 0" "sc_bytes_todev sc = sc_trans_len sc"
  shows "\<exists>s'. lun_worker_step env 0 s = Return 0 s' \<and>
    t_out s' = t_out s @ [iscsi_scsi_rsp_encap (status_response s sc)] \<and>
    t_mem s' = t_mem s \<and> same_disk (t_disk s) (t_disk s')"
proof -
  obtain d where d: "lun_worker_step env 0 s =
      (case command_done env p (upd_disk (\<lambda>_. d) s) of Return rc s \<Rightarrow> Return 0 s | r \<Rightarrow> r)"
      "same_disk (t_disk s) d"
    using worker_takes [OF assms(2-5)] assms(6) by auto
  let ?s = "upd_disk (\<lambda>_. d) s"
  obtain u where u: "device_command_done env p ?s = command_release env p u"
      "t_out u = t_out s @ [iscsi_scsi_rsp_encap (status_response ?s sc)]"
      "t_cmds u = t_cmds ?s" "t_header_q u = t_header_q ?s" "t_cmd_q u = t_cmd_q ?s"
      "sc_tag (scsi_of u p) = sc_tag (scsi_of ?s p)" "sc_cdb (scsi_of u p) = sc_cdb (scsi_of ?s p)"
      "t_mem u = t_mem ?s" "t_disk u = t_disk ?s" "\<not> t_slock u"
    using device_command_done_status [of ?s p env] assms(10-16) by (auto simp: sc_def)
  have "releasable ?s p" using assms(9) by (subst releasable_cong [of _ s]) simp_all
  then obtain s' where "command_done env p ?s = Return 0 s'" "t_out s' = t_out u" "t_mem s' = t_mem u"
      "t_disk s' = t_disk ?s"
    using command_done_ram [of ?s p env u] assms(2,7,8) u same_disk_facts(1) [OF d(2)] by (auto simp: sc_def)
  moreover have "status_response ?s sc = status_response s sc"
    by (simp add: status_response_def read_response_def)
  ultimately show ?thesis using d u(2,8) by auto
qed

subsection \<open>From the command to the response\<close>

lemma target_transfer_data_r2t:
  fixes s :: target_session and p :: ptr
  defines "sc \<equiv> scsi_of s p" and "burst \<equiv> max_burst_length (t_sess_params s)"
  assumes "ps = pieces (unat burst) (unat (sc_trans_len sc) - unat (sc_bytes_todev sc)) (unat (sc_bytes_todev sc))"
    and "\<not> t_slock s" "initial_r2t (t_sess_params s)" "burst \<noteq> 0"
    and "unat (sc_bytes_todev sc) < unat (sc_trans_len sc)" "sends_ok env (length ps) s"
  shows "target_transfer_data env p s =
    Return 0 (upd_cmd p (\<lambda>c. c\<lparr>tg_ready := True\<rparr>) (sent (length ps) (r2t_headers s p ps) (with_r2t_flag p s)))"
proof -
  let ?r = "sc_trans_len sc - sc_bytes_todev sc"
  have r: "unat ?r = unat (sc_trans_len sc) - unat (sc_bytes_todev sc)"
    using assms(7) by (simp add: unat_sub word_le_nat_alt)
  have nz: "?r \<noteq> 0" "unat ?r \<noteq> 0" using assms(7) r by auto
  have "unat (sc_trans_len sc) < 2 ^ LENGTH(32)" by (rule unsigned_less)
  then have "r2t_loop env p ?r 0 s = Some (Inr (let ms = r2t_headers s p ps in sent (length ms) ms (with_r2t_flag p s)))"
    using r2t_loop_pieces [of s "unat burst" "unat ?r" ?r "unat (sc_bytes_todev sc)" p 0 env] assms(3-8) r nz
    by (simp add: sc_def burst_def unat_gt_0)
  then show ?thesis
    using nz assms(5) by (simp add: target_transfer_data_def sc_def [symmetric] Let_def r2t_headers_def)
qed

text \<open>The command after its R2Ts have gone out.\<close>

definition write_asked :: "ptr \<Rightarrow> u32 \<Rightarrow> u16 \<Rightarrow> (nat \<times> nat) list \<Rightarrow> target_session \<Rightarrow> target_session" where
  "write_asked p lba len ps s = upd_scsi p (\<lambda>sc. sc\<lparr>sc_length := 0\<rparr>)
     (upd_cmd p (\<lambda>c. c\<lparr>tg_ready := True\<rparr>)
       (sent (length ps) (r2t_headers s p ps) (with_r2t_flag p (write_begun p lba len s))))"

lemma write_asked_simps [simp]:
  "t_out (write_asked p lba len ps s) = t_out s @ r2t_headers s p ps"
  "t_in (write_asked p lba len ps s) = t_in s" "t_cmds (write_asked p lba len ps s) = t_cmds s"
  "t_disk (write_asked p lba len ps s) = t_disk (write_begun p lba len s)"
  "t_mem (write_asked p lba len ps s) = t_mem (write_begun p lba len s)"
  "t_sess_params (write_asked p lba len ps s) = t_sess_params s"
  "t_header_q (write_asked p lba len ps s) = t_header_q s" "t_cmd_q (write_asked p lba len ps s) = t_cmd_q s"
  "t_slock (write_asked p lba len ps s) = t_slock s"
  "t_UsePhaseCollapsedRead (write_asked p lba len ps s) = t_UsePhaseCollapsedRead s"
  "t_StatSN (write_asked p lba len ps s) = t_StatSN s" "t_ExpCmdSN (write_asked p lba len ps s) = t_ExpCmdSN s"
  "t_MaxCmdSN (write_asked p lba len ps s) = t_MaxCmdSN s"
  by (simp_all add: write_asked_def upd_scsi_def) (simp_all add: with_r2t_flag_def sent_def)

lemma write_asked_cmd [simp]:
  "scsi_of (write_asked p lba len ps s) p = (scsi_of s p)\<lparr>sc_bytes_todev := sc_length (scsi_of s p), sc_length := 0\<rparr>"
  "tg_ready (t_cmd_mem (write_asked p lba len ps s) p)" "tg_r2t_flag (t_cmd_mem (write_asked p lba len ps s) p)"
  "tg_scatter (t_cmd_mem (write_asked p lba len ps s) p) = [block_iov (t_disk s) lba len]"
  "tg_send_data (t_cmd_mem (write_asked p lba len ps s) p) = tg_send_data (t_cmd_mem s p)"
  using write_begun_facts(13) [of p lba len s]
  by (simp_all add: write_asked_def upd_scsi_def with_r2t_flag_def sent_def scsi_of_def)

lemma write10_asks:
  fixes s :: target_session and p :: ptr
  defines "sc \<equiv> scsi_of s p"
  assumes "ps = pieces (unat (max_burst_length (t_sess_params s))) (unat (sc_trans_len sc) - unat (sc_length sc)) (unat (sc_length sc))"
    and "write_10_ok s p" "sc_todev sc \<noteq> 0" "unat (sc_length sc) < unat (sc_trans_len sc)" "\<not> t_slock s"
    and "initial_r2t (t_sess_params s)" "max_burst_length (t_sess_params s) \<noteq> 0" "sends_ok env (length ps) s"
  shows "device_command env p s = Return 0 (write_asked p (lba_10 (sc_cdb sc)) (len_10 (sc_cdb sc)) ps s)"
proof -
  define s0 where "s0 = write_begun p (lba_10 (sc_cdb sc)) (len_10 (sc_cdb sc)) s"
  have "target_transfer_data env p s0 = Return 0 (upd_cmd p (\<lambda>c. c\<lparr>tg_ready := True\<rparr>)
      (sent (length ps) (r2t_headers s0 p ps) (with_r2t_flag p s0)))"
    using assms(2,5-9) by (intro target_transfer_data_r2t) (simp_all add: sends_ok_def s0_def sc_def)
  moreover have "r2t_headers s0 p ps = r2t_headers s p ps"
    by (simp add: r2t_headers_def r2t_pdu_def s0_def sc_def)
  moreover have "sc_trans_len sc - sc_length sc \<noteq> 0" using assms(5) by auto
  ultimately show ?thesis
    using device_command_write10 [OF assms(3) refl, of env] assms(4)
    by (simp add: s0_def [symmetric] sc_def [symmetric] write_asked_def)
qed

text \<open>Once its data is there, the command is in the queue and its blocks hold the data.\<close>

lemma data_complete_simps [simp]:
  "t_out (data_complete p rest m s) = t_out s" "t_in (data_complete p rest m s) = rest"
  "t_mem (data_complete p rest m s) = m" "t_disk (data_complete p rest m s) = t_disk (queued p s)"
  "scsi_of (data_complete p rest m s) p = (scsi_of s p)\<lparr>sc_bytes_todev := sc_trans_len (scsi_of s p)\<rparr>"
  "tg_done (t_cmd_mem (data_complete p rest m s) p)"
  "tg_send_data (t_cmd_mem (data_complete p rest m s) p) = tg_send_data (t_cmd_mem s p)"
  "t_cmds (data_complete p rest m s) = t_cmds s" "t_header_q (data_complete p rest m s) = t_header_q s"
  "t_cmd_q (data_complete p rest m s) = t_cmd_q s" "t_slock (data_complete p rest m s) = t_slock s"
  "t_UsePhaseCollapsedRead (data_complete p rest m s) = t_UsePhaseCollapsedRead s"
  "t_StatSN (data_complete p rest m s) = t_StatSN s" "t_ExpCmdSN (data_complete p rest m s) = t_ExpCmdSN s"
  "t_MaxCmdSN (data_complete p rest m s) = t_MaxCmdSN s"
  by (simp_all add: data_complete_def queued_def scsi_of_def)

lemma put_rest:
  assumes "length as = length bs" "k \<le> length bs"
  shows "put_mem (drop k as) (drop k bs) (put_mem (take k as) (take k bs) m) = put_mem as bs m"
  using put_mem_append [of "take k as" "take k bs" "drop k as" "drop k bs"] assms by simp

lemma write10_by_r2t:
  fixes s :: target_session and p :: ptr
  defines "sc \<equiv> scsi_of s p" and "imm \<equiv> tg_immediate (t_cmd_mem s p)"
    and "seg \<equiv> max_data_seg_length (t_sess_params s)"
  assumes "ps = pieces (unat (max_burst_length (t_sess_params s))) (unat (sc_trans_len sc) - length imm) (length imm)"
    and "qs = pieces b (unat (sc_trans_len sc) - length imm) (length imm)"
    and "write_10_ok s p" "sc_todev sc \<noteq> 0" "unat (sc_trans_len sc) = block_bytes (t_disk s) (len_10 (sc_cdb sc))"
    and "length imm < unat (sc_trans_len sc)" "length bs = unat (sc_trans_len sc)" "take (length imm) bs = imm"
    and "initial_r2t (t_sess_params s)" "max_burst_length (t_sess_params s) \<noteq> 0"
    and "0 < b" "b < 2 ^ 24" "seg = 0 \<or> b \<le> unat seg"
    and "hash_rel (t_cmds s) A m" "m (sc_tag sc) = Some p" "p \<noteq> NULL" "releasable s p"
    and "\<not> t_slock s" "\<not> t_UsePhaseCollapsedRead s" "\<forall>i. e_send_ok env i"
    and "g_crash (t_disk s) = -1" "queue_room (t_disk s)" "queue_abs (g_cmd_queue (t_disk s) ! 0) = []"
    and "list_all2 (announces (sc_tag sc) (unat (sc_trans_len sc))) qs ds"
    and "t_in s = on_wire (map (\<lambda>(o', l). bytes_at o' l bs) qs) @ rest"
  shows "\<exists>s1 s2 s3. device_command env p s = Return 0 s1 \<and> t_out s1 = t_out s @ r2t_headers s p ps \<and>
    write_rounds (with_disk env) (map iscsi_write_data_encap ds) s1 = Return 0 s2 \<and> t_out s2 = t_out s1 \<and>
    lun_worker_step env 0 s2 = Return 0 s3 \<and>
    t_out s3 = t_out s2 @ [iscsi_scsi_rsp_encap (status_response s sc)] \<and> t_in s2 = rest \<and>
    content s3 = bytes_put (block_start (t_disk s) (lba_10 (sc_cdb sc))) bs (content s)"
proof -
  let ?lba = "lba_10 (sc_cdb sc)" and ?len = "len_10 (sc_cdb sc)" and ?k = "length imm"
  let ?v = "block_iov (t_disk s) ?lba ?len" and ?n = "unat (sc_trans_len sc)"
  have w: "ram_disk (t_disk s)" "fresh_cmd s p" "sc_cdb sc ! 0 = WRITE_10" "on_disk (t_disk s) ?lba ?len"
      "unat (sc_length sc) = ?k" "sc_status sc = 0" "sc_fromdev sc = 0" "sc_lun sc = 0"
    using assms(6) by (simp_all add: write_10_ok_def fresh_cmd_def sc_def imm_def Let_def)
  let ?s1 = "write_asked p ?lba ?len ps s"
  have cmd: "device_command env p s = Return 0 ?s1"
    using write10_asks [of ps s p env] assms(4,6,7,9,12,13,21,23) w(5) by (simp add: sc_def sends_ok_def)
  have d0: "same_disk (t_disk s) (t_disk ?s1)" by simp
  have receiving: "receiving p ?v ?s1"
    using assms(8,17-19,24,25) w(1,8) same_disk_facts(1,9) [OF d0]
    by (auto simp: receiving_def sc_def queue_room_def block_iov_def ram_disk_def NULL_def)
  have whole: "?k + (?n - ?k) = ?n" using assms(9) by simp
  have rounds: "write_rounds (with_disk env) (map iscsi_write_data_encap ds) ?s1 =
    Return 0 (data_complete p rest (store_pieces qs (iov_addrs ?v) bs (t_mem ?s1)) ?s1)" (is "_ = Return 0 ?s2")
    unfolding assms(5)
  proof (rule write_rounds_pieces [OF assms(14,15) receiving])
    show "list_all2 (announces (sc_tag (scsi_of ?s1 p)) (?k + (?n - ?k))) (pieces b (?n - ?k) ?k) ds"
      using assms(27) unfolding assms(5) whole by (simp add: sc_def)
    show "t_in ?s1 = on_wire (map (\<lambda>(o', l). bytes_at o' l bs) (pieces b (?n - ?k) ?k)) @ rest"
      using assms(28) unfolding assms(5) by simp
  qed (use assms(9,10,16) w(5) whole in \<open>simp_all add: sc_def seg_def\<close>)
  have D: "length (iov_addrs ?v) = ?n" using assms(8) by (simp add: iov_addrs_def block_iov_def)
  have "store_pieces qs (iov_addrs ?v) bs (t_mem ?s1) = put_mem (drop ?k (iov_addrs ?v)) (drop ?k bs) (t_mem ?s1)"
    unfolding assms(5) using assms(9,10,14) D by (intro store_pieces_all) simp_all
  moreover have "t_mem ?s1 = put_mem (take ?k (iov_addrs ?v)) (take ?k bs) (t_mem s)"
    by (simp add: write_begun_mem assms(11) imm_def [symmetric])
  ultimately have mem2: "t_mem ?s2 = put_mem (iov_addrs ?v) bs (t_mem s)"
    using put_rest [of "iov_addrs ?v" bs ?k] D assms(9,10) by simp
  have dq: "same_disk (t_disk s) (t_disk ?s2)"
    using same_disk_trans [OF d0 same_disk_queued [of ?s1 p]] by simp
  have qq: "queue_inv (g_cmd_queue (t_disk ?s2) ! 0)" "queue_abs (g_cmd_queue (t_disk ?s2) ! 0) = [p]"
    using assms(25,26) w(1) insert_room [of "g_cmd_queue (t_disk s) ! 0" p]
    by (simp_all add: queued_def queue_room_def ram_disk_def CONFIG_DISK_MAX_LUNS_def)
  have rel: "releasable ?s2 p" using assms(20) by (subst releasable_cong [of _ s]) simp_all
  obtain s3 where s3: "lun_worker_step env 0 ?s2 = Return 0 s3"
      "t_out s3 = t_out ?s2 @ [iscsi_scsi_rsp_encap (status_response ?s2 (scsi_of ?s2 p))]"
      "t_mem s3 = t_mem ?s2" "same_disk (t_disk ?s2) (t_disk s3)"
    using worker_completes_write [of ?s2 p env] assms(19,21-23) w same_disk_facts(1) [OF dq] qq rel
    by (auto simp: plain_op_def disk_opcodes sc_def fresh_cmd_def)
  have "status_response ?s2 (scsi_of ?s2 p) = status_response s sc"
    by (simp add: status_response_def read_response_def sc_def)
  moreover have "content s3 = bytes_put (block_start (t_disk s) ?lba) bs (content s)"
    using content_put [OF w(4), of 0 bs s3 s] assms(8,10) s3(3) mem2 same_disk_trans [OF dq s3(4)] D
    by (simp add: iovs_addrs_def)
  ultimately show ?thesis using cmd rounds s3 by auto
qed

end
