(* ===== verification/Disk_Invariants.thy ===== *)
theory Disk_Invariants
  imports Disk_Access Target_Invariants
begin

section \<open>What a RAM disk keeps\<close>

text \<open>
  The device keeps its geometry, its arrays and its command queue in order whatever commands
  arrive, and it writes to no memory but the blocks of the disk, the buffer on the stack of
  \<^verbatim>\<open>device_command\<close> and the name of the trace file.  Because write data arrives in the scatter list that
  a command got earlier, the invariant covers the scatter lists of all commands.
\<close>

subsection \<open>The invariant\<close>

definition disk_ok :: "disk \<Rightarrow> bool" where
  "disk_ok d \<longleftrightarrow> ram_disk d \<and> queue_inv (g_cmd_queue d ! 0)"

definition geometry :: "disk \<Rightarrow> u64 \<times> u32 \<times> ptr \<times> ptr" where
  "geometry d = (g_disk_num_blocks d, g_disk_block_len d, g_ramdisk d ! 0, g_tracefile d)"

definition writable :: "disk \<Rightarrow> nat set" where
  "writable d = set (disk_addrs d) \<union> {g_tracefile d..<g_tracefile d + CONFIG_MAX_FILENAME}"

definition stack_addrs :: "'e disk_env_scheme \<Rightarrow> nat set" where
  "stack_addrs env = {e_stack env..<e_stack env + DATA_LEN}"

definition scatters :: "target_session \<Rightarrow> ptr \<Rightarrow> iovec list" where
  "scatters s p = tg_scatter (t_cmd_mem s p)"

lemma scatters_upd:
  "(\<And>c. tg_scatter (f c) = tg_scatter c) \<Longrightarrow> scatters (upd_cmd p f s) = scatters s"
  "scatters (upd_cmd p (\<lambda>_. c) s) = (scatters s)(p := tg_scatter c)"
  by (auto simp: scatters_def upd_cmd_def fun_eq_iff)

definition disk_safe :: "'e disk_env_scheme \<Rightarrow> disk \<Rightarrow> (nat \<Rightarrow> byte) \<Rightarrow> target_session \<Rightarrow> bool" where
  "disk_safe env d0 m0 s \<longleftrightarrow> disk_ok (t_disk s) \<and> geometry (t_disk s) = geometry d0 \<and>
     (\<forall>p. set (iovs_addrs (scatters s p)) \<subseteq> writable d0) \<and>
     (\<forall>a. a \<notin> writable d0 \<union> stack_addrs env \<longrightarrow> t_mem s a = m0 a)"

lemma writable_geometry: "geometry d = geometry d' \<Longrightarrow> writable d = writable d'"
  by (simp add: geometry_def writable_def disk_addrs_def disk_size_def)

interpretation disk: session_invariant "disk_safe env d0 m0" for env d0 m0
proof unfold_locales
  fix p s and f :: "target_cmd \<Rightarrow> target_cmd"
  assume "\<And>c. tg_scatter (f c) = tg_scatter c"
  then have "scatters (upd_cmd p f s) = scatters s" by (rule scatters_upd)
  then show "disk_safe env d0 m0 (upd_cmd p f s) = disk_safe env d0 m0 s" by (simp add: disk_safe_def)
qed (simp_all add: disk_safe_def set_params_def scatters_def upd_cmd_def iovs_addrs_def)

subsection \<open>Steps\<close>

lemma safe_mem:
  assumes "disk_safe env d0 m0 s" "\<And>a. a \<notin> writable d0 \<union> stack_addrs env \<Longrightarrow> m a = t_mem s a"
  shows "disk_safe env d0 m0 (s\<lparr>t_mem := m\<rparr>)"
  using assms by (auto simp: disk_safe_def scatters_def)

lemma safe_disk:
  assumes "disk_safe env d0 m0 s" "disk_ok (f (t_disk s))" "geometry (f (t_disk s)) = geometry (t_disk s)"
  shows "disk_safe env d0 m0 (upd_disk f s)"
  using assms by (auto simp: disk_safe_def upd_disk_def scatters_def)

lemma safe_scatter:
  assumes "disk_safe env d0 m0 s" "set (iov_addrs v) \<subseteq> writable d0" "\<And>c. tg_scatter (f c) = [v]"
  shows "disk_safe env d0 m0 (upd_cmd p f s)"
  using assms by (auto simp: disk_safe_def upd_cmd_def iovs_addrs_def scatters_def)

lemma safe_put:
  assumes "disk_safe env d0 m0 s" "set as \<subseteq> writable d0 \<union> stack_addrs env"
  shows "disk_safe env d0 m0 (s\<lparr>t_mem := put_mem as bs (t_mem s)\<rparr>)"
  by (rule safe_mem [OF assms(1)]) (use assms(2) in \<open>auto intro: put_mem_other\<close>)

lemma safe_set_data [simp]: "disk_safe env d0 m0 s \<Longrightarrow> disk_safe env d0 m0 (set_data env data s)"
  unfolding set_data_def by (rule safe_put) (auto simp: stack_addrs_def)

lemma safe_ok: "disk_safe env d0 m0 s \<Longrightarrow> disk_ok (t_disk s)"
  by (simp add: disk_safe_def)

lemma safe_ram: "disk_safe env d0 m0 s \<Longrightarrow> ram_disk (t_disk s)"
  by (simp add: disk_safe_def disk_ok_def)

lemma safe_type: "disk_safe env d0 m0 s \<Longrightarrow> g_type (t_disk s) = DISK_RAM"
  using safe_ram by (auto simp: ram_disk_def)

text \<open>Changes of the device's state that its invariant does not see.\<close>

lemma disk_ok_simps [simp]:
  "disk_ok (d\<lparr>g_fptr := (g_fptr d)[i := b]\<rparr>) = disk_ok d"
  "disk_ok (d\<lparr>g_fptr := (g_fptr d)[i := b], g_trace := t\<rparr>) = disk_ok d"
  "disk_ok (d\<lparr>g_trace := t\<rparr>) = disk_ok d" "disk_ok (d\<lparr>g_tracing := b\<rparr>) = disk_ok d"
  "disk_ok (d\<lparr>g_crash := k\<rparr>) = disk_ok d"
  "disk_ok (d\<lparr>g_device_stats := (g_device_stats d)[i := x]\<rparr>) = disk_ok d"
  "disk_ok (d\<lparr>g_work := w\<rparr>) = disk_ok d"
  by (simp_all add: disk_ok_def ram_disk_def disk_size_def)

lemma geometry_simps [simp]:
  "geometry (d\<lparr>g_fptr := x\<rparr>) = geometry d" "geometry (d\<lparr>g_trace := t\<rparr>) = geometry d"
  "geometry (d\<lparr>g_tracing := b\<rparr>) = geometry d" "geometry (d\<lparr>g_crash := k\<rparr>) = geometry d"
  "geometry (d\<lparr>g_device_stats := y\<rparr>) = geometry d" "geometry (d\<lparr>g_work := w\<rparr>) = geometry d"
  "geometry (d\<lparr>g_cmd_queue := q\<rparr>) = geometry d"
  by (simp_all add: geometry_def)

lemma queue_inv_kept:
  assumes "queue_inv q"
  shows "queue_inv (snd (iscsi_queue_insert q x))" "queue_inv (snd (iscsi_queue_remove q))"
proof -
  show "queue_inv (snd (iscsi_queue_insert q x))"
    using assms insert_room(2) [OF assms] insert_full [of q x]
    by (cases "q_count q = q_depth q") (auto simp: queue_inv_def)
  show "queue_inv (snd (iscsi_queue_remove q))"
    using assms remove_some(2) [OF assms] remove_empty [of q] by (cases "q_count q = 0") auto
qed

lemma disk_ok_queue:
  assumes "disk_ok d" "queue_inv q"
  shows "disk_ok (d\<lparr>g_cmd_queue := (g_cmd_queue d)[i := q]\<rparr>)"
  using assms by (cases i) (simp_all add: disk_ok_def ram_disk_def disk_size_def CONFIG_DISK_MAX_LUNS_def)

subsection \<open>Completion\<close>

lemma set_trace_file_keeps:
  assumes "disk_safe env d0 m0 s" "\<And>s. disk_safe env d0 m0 s \<Longrightarrow> ends_in (disk_safe env d0 m0) (k s)"
  shows "ends_in (disk_safe env d0 m0) (set_trace_file env' p s k)"
  unfolding set_trace_file_def
  by (intro walk assms(2) safe_disk) (use assms(1) safe_ok in \<open>auto intro!: safe_disk\<close>)

lemma write_out_keeps:
  assumes "disk_safe env d0 m0 s" "\<And>s. disk_safe env d0 m0 s \<Longrightarrow> ends_in (disk_safe env d0 m0) (k s)"
  shows "ends_in (disk_safe env d0 m0) (write_out env' p s k)"
  using assms safe_type [OF assms(1)] by (simp add: write_out_def Let_def)

lemma command_done_keeps:
  assumes "disk_safe env d0 m0 s"
  shows "ends_in (disk_safe env d0 m0) (command_done env' p s)"
proof -
  have "ends_in (disk_safe env d0 m0) (clean_up env' p s k)"
    if "disk_safe env d0 m0 s" "ends_in (disk_safe env d0 m0) (k s)" for s k
    using that safe_type [OF that(1)] by (simp add: clean_up_def Let_def)
  then show ?thesis
    unfolding command_done_def
    by (intro set_trace_file_keeps [OF assms] write_out_keeps walk disk.device_command_done_keeps) simp_all
qed

lemma finish_command_keeps:
  assumes "disk_safe env d0 m0 s"
  shows "ends_in (disk_safe env d0 m0) (finish_command env' p b s)"
  unfolding finish_command_def by (intro walk command_done_keeps) (simp_all add: assms)

subsection \<open>Reads and writes\<close>

lemma safe_trace [simp]: "disk_safe env d0 m0 s \<Longrightarrow> disk_safe env d0 m0 (add_trace w lun lba len s)"
  unfolding add_trace_def Let_def by (auto intro!: safe_disk safe_ok)

lemma safe_private [simp]: "disk_safe env d0 m0 (set_private p lba len s) = disk_safe env d0 m0 s"
  by (simp add: set_private_def)

lemma safe_status [simp]: "disk_safe env d0 m0 (set_scsi_status p st len s) = disk_safe env d0 m0 s"
  by (simp add: set_scsi_status_def)

lemma disk_read_keeps:
  assumes "disk_safe env d0 m0 s" "\<And>rc s. disk_safe env d0 m0 s \<Longrightarrow> ends_in (disk_safe env d0 m0) (k rc s)"
  shows "ends_in (disk_safe env d0 m0) (disk_read env' p lun lba len s k)"
  using assms safe_type [OF assms(1)] by (simp add: disk_read_def read_allocate_space_def Let_def)

lemma copy_immediate_other:
  "copy_immediate vs bs m = Some m' \<Longrightarrow> a \<notin> set (iovs_addrs vs) \<Longrightarrow> m' a = m a"
proof (induction vs bs m rule: copy_immediate.induct)
  case (2 v vs bs m)
  then have "a \<notin> set (take (min (iov_len v) (length bs)) (iov_addrs v))"
    by (auto simp: iovs_addrs_def dest: in_set_takeD)
  then show ?case using 2 by (auto simp: iovs_addrs_def put_mem_other Let_def split: if_splits)
qed (auto split: if_splits)

lemma start_transfer_keeps:
  assumes "disk_safe env d0 m0 s" "\<And>rc s. disk_safe env d0 m0 s \<Longrightarrow> ends_in (disk_safe env d0 m0) (k rc s)"
  shows "ends_in (disk_safe env d0 m0) (start_transfer env' p s k)"
proof -
  have m: "disk_safe env d0 m0 (upd_scsi p f (s\<lparr>t_mem := m\<rparr>))"
    if "copy_immediate (tg_scatter (t_cmd_mem s p)) bs (t_mem s) = Some m" for m bs f
  proof -
    have "set (iovs_addrs (tg_scatter (t_cmd_mem s p))) \<subseteq> writable d0"
      using assms(1) by (auto simp: disk_safe_def scatters_def)
    then have "disk_safe env d0 m0 (s\<lparr>t_mem := m\<rparr>)"
      by (intro safe_mem [OF assms(1)] copy_immediate_other [OF that]) auto
    then show ?thesis by simp
  qed
  show ?thesis
    unfolding start_transfer_def Let_def
    by (intro walk disk.target_transfer_data_keeps command_done_keeps m assms(2)) (use assms(1) in simp_all)
qed

lemma block_iov_writable:
  assumes "ram_disk d" "on_disk d lba len" "geometry d = geometry d0"
  shows "set (iov_addrs (block_iov d lba len)) \<subseteq> writable d0"
proof -
  have "set (iov_addrs (block_iov d lba len)) \<subseteq> set (disk_addrs d)"
    using blocks_on_disk [OF assms(2)] by (auto simp: iov_addrs_def block_iov_def disk_addrs_def)
  then show ?thesis using writable_geometry [OF assms(3)] by (auto simp: writable_def)
qed

lemma prepare_write_keeps:
  assumes "disk_safe env d0 m0 s" "\<And>rc s. disk_safe env d0 m0 s \<Longrightarrow> ends_in (disk_safe env d0 m0) (k rc s)"
    and "lun = 0" "lba = ucast (l :: u32)" "len = ucast (n :: u16)"
  shows "ends_in (disk_safe env d0 m0) (prepare_write env' p lun lba len s k)"
proof -
  let ?d = "t_disk s"
  have d: "ram_disk ?d" "geometry ?d = geometry d0" using assms(1) safe_ram by (simp_all add: disk_safe_def)
  have trace: "disk_safe env d0 m0 (upd_cmd p (\<lambda>c. c\<lparr>tg_scatter :=
      [\<lparr>iov_base = g_tracefile ?d, iov_len = CONFIG_MAX_FILENAME\<rparr>]\<rparr>) s)"
    using d(2) by (intro safe_scatter [OF assms(1)]) (auto simp: iov_addrs_def writable_def geometry_def)
  have blocks: "disk_safe env d0 m0 (upd_cmd p (\<lambda>c. c\<lparr>tg_scatter := [\<lparr>iov_base = g_ramdisk ?d ! 0 +
      unat (byte_offset ?d lba), iov_len = unat (num_bytes ?d len)\<rparr>]\<rparr>) (set_private p a b s))"
    if "\<not> beyond_media ?d lba (ucast len)" for a b
  proof -
    have on: "on_disk ?d l n"
      using that beyond_media_iff [OF d(1), of l n] by (simp add: assms(4,5) ucast_16_32_64)
    then have "\<lparr>iov_base = g_ramdisk ?d ! 0 + unat (byte_offset ?d lba), iov_len = unat (num_bytes ?d len)\<rparr> =
        block_iov ?d l n"
      using byte_offset_exact [OF d(1) on] num_bytes_exact [OF d(1), of n]
      by (simp add: block_iov_def assms(4,5))
    then show ?thesis
      using block_iov_writable [OF d(1) on d(2)] assms(1) by (intro safe_scatter) simp_all
  qed
  show ?thesis
    unfolding prepare_write_def write_allocate_space_def Let_def
    by (intro walk start_transfer_keeps assms(2))
      (use assms(1,3) trace blocks d(1) in \<open>simp_all add: ram_disk_def start_transfer_keeps assms(2)\<close>)
qed

subsection \<open>The entry points of the device\<close>

lemma first_unit:
  assumes "ram_disk d" "\<not> ucast (lun :: byte) \<ge> g_disk_num_luns d"
  shows "unat lun = 0"
proof -
  have "unat (ucast lun :: u32) < unat (1 :: u32)"
    using assms unfolding ram_disk_def word_le_nat_alt by simp
  then show ?thesis by (simp add: unat_ucast_up_simp)
qed

lemma tracing_set_keeps:
  assumes "disk_safe env d0 m0 s" "\<And>rc s. disk_safe env d0 m0 s \<Longrightarrow> ends_in (disk_safe env d0 m0) (k rc s)"
    and "lun = 0"
  shows "ends_in (disk_safe env d0 m0) (prepare_write env' p lun 0 0 s k)"
  using prepare_write_keeps [of env d0 m0 s k lun 0 0 0 0 env' p] assms by simp

lemma device_command_keeps:
  assumes "disk_safe env d0 m0 s"
  shows "ends_in (disk_safe env d0 m0) (device_command env p s)"
  unfolding device_command_def Let_def
  by (intro walk finish_command_keeps disk_read_keeps tracing_set_keeps
      prepare_write_keeps [OF _ _ _ refl refl] safe_trace first_unit [OF safe_ram [OF assms]])
    (use assms in \<open>auto intro!: safe_disk safe_ok simp: disk.command_fields\<close>)

lemma count_down_keeps:
  assumes "disk_safe env d0 m0 s" "\<And>s. disk_safe env d0 m0 s \<Longrightarrow> ends_in (disk_safe env d0 m0) (k s)"
  shows "ends_in (disk_safe env d0 m0) (count_down s k)"
  unfolding count_down_def Let_def
  by (intro walk assms(2) safe_disk) (use assms(1) safe_ok in \<open>auto intro!: safe_disk\<close>)

lemma enqueued_ok:
  assumes "disk_ok d" "\<not> ucast (g_disk_num_luns d) \<le> (lun :: u64)"
    and "iscsi_queue_insert (g_cmd_queue d ! unat lun) p = (rc, q)"
  shows "disk_ok (d\<lparr>g_cmd_queue := (g_cmd_queue d)[unat lun := q]\<rparr>)"
proof -
  have "unat lun < unat (ucast (g_disk_num_luns d) :: u64)" using assms(2) unfolding word_le_nat_alt by simp
  then have "unat lun = 0" using assms(1) by (simp add: disk_ok_def ram_disk_def)
  then have "queue_inv (g_cmd_queue d ! unat lun)" using assms(1) by (simp add: disk_ok_def)
  from queue_inv_kept(1) [OF this, of p] assms(3) have "queue_inv q" by simp
  with assms(1) show ?thesis by (rule disk_ok_queue)
qed

lemma counted_enqueued_ok:
  assumes "disk_ok d" "\<not> ucast (g_disk_num_luns d) \<le> (lun :: u64)"
    and "iscsi_queue_insert (g_cmd_queue d ! unat lun) p = (rc, q)"
  shows "disk_ok (d\<lparr>g_device_stats := (g_device_stats d)[i := x], g_cmd_queue := (g_cmd_queue d)[unat lun := q]\<rparr>)"
  using enqueued_ok [of "d\<lparr>g_device_stats := (g_device_stats d)[i := x]\<rparr>" lun p rc q] assms by simp

lemma device_enqueue_keeps:
  assumes "disk_safe env d0 m0 s"
  shows "ends_in (disk_safe env d0 m0) (device_enqueue env p s)"
  unfolding device_enqueue_def Let_def
  by (intro walk device_command_keeps count_down_keeps [OF assms])
    (auto intro!: safe_disk safe_ok intro: enqueued_ok counted_enqueued_ok)

text \<open>Write data goes into the scatter list of its command.\<close>

lemma modify_iov_within:
  assumes "modify_iov vs 0 (length vs) off want = (0, arr, i, n)"
  shows "set (iovs_addrs (take n (drop i arr))) \<subseteq> set (iovs_addrs vs)"
proof -
  have "off < iovs_len vs" "off + want \<le> iovs_len vs"
    using modify_iov_fails [of "length vs" 0 vs off want] assms
    by (simp_all) (metis fst_conv linorder_not_le zero_neq_neg_one)+
  then have "iovs_addrs (take n (drop i arr)) = take want (drop off (iovs_addrs vs))"
    using modify_iov_view [of off "length vs" 0 vs want] assms by auto
  then show ?thesis by (auto dest: in_set_takeD in_set_dropD)
qed

lemma device_place_data_keeps:
  assumes "disk_safe env d0 m0 s"
  shows "ends_in (disk_safe env d0 m0) (device_place_data env p off len s)"
proof (cases "len = 0")
  case True
  then show ?thesis
    unfolding device_place_data_def if_P [OF True]
    by (intro walk device_enqueue_keeps) (use assms in simp_all)
next
  case False
  let ?vs = "tg_scatter (t_cmd_mem s p)"
  have w: "set (iovs_addrs ?vs) \<subseteq> writable d0" using assms by (auto simp: disk_safe_def scatters_def)
  have put: "disk_safe env d0 m0 (s'\<lparr>t_mem := put_mem (iovs_addrs (take n (drop i arr))) bytes (t_mem s')\<rparr>)"
    if "modify_iov ?vs 0 (length ?vs) (unat off) (unat len) = (0, arr, i, n)" "disk_safe env d0 m0 s'"
    for arr i n bytes s'
    using modify_iov_within [OF that(1)] w that(2) by (intro safe_put) auto
  have recv: "disk_safe env d0 m0 s'" if "sock_recv (unat len) s = (r, s')" for r s'
    using assms disk.received_kept [OF that, of env d0 m0] by simp
  show ?thesis
    unfolding device_place_data_def if_not_P [OF False] Let_def
    by (intro walk) (use assms recv in \<open>auto intro!: put\<close>)
qed

lemma lun_worker_step_keeps:
  assumes "disk_safe env d0 m0 s"
  shows "ends_in (disk_safe env d0 m0) (lun_worker_step env 0 s)"
proof -
  have q: "disk_ok (t_disk s\<lparr>g_cmd_queue := (g_cmd_queue (t_disk s))[0 := q]\<rparr>)"
    if "iscsi_queue_remove (g_cmd_queue (t_disk s) ! 0) = (p, q)" for p q
    using queue_inv_kept(2) [of "g_cmd_queue (t_disk s) ! 0"] that safe_ok [OF assms]
    by (intro disk_ok_queue) (simp_all add: disk_ok_def)
  show ?thesis
    unfolding lun_worker_step_def Let_def
    by (intro walk command_done_keeps device_command_keeps safe_disk q safe_ok)
      (use assms q in \<open>auto intro!: safe_disk\<close>)
qed

lemma device_keeps_disk: "device_keeps (disk_safe env d0 m0) (with_disk env)"
  unfolding device_keeps_def with_disk_def
  by (auto intro: device_enqueue_keeps device_place_data_keeps)


subsection \<open>Runs\<close>

text \<open>
  The target and the worker of the unit take turns, and the connection brings whatever it likes.
\<close>

inductive disk_step :: "'e disk_env_scheme \<Rightarrow> target_session \<Rightarrow> target_session \<Rightarrow> bool" for env where
  execute: "execute_t (with_disk env) hp s = Return rc s' \<Longrightarrow> disk_step env s s'"
| work: "lun_worker_step env 0 s = Return rc s' \<Longrightarrow> disk_step env s s'"
| receive: "disk_step env s (s\<lparr>t_in := bytes\<rparr>)"

inductive_cases disk_stepE: "disk_step env s s'"

lemma disk_step_keeps:
  assumes "disk_step env s s'" "disk_safe env d0 m0 s"
  shows "disk_safe env d0 m0 s'"
  using assms(1)
proof cases
  case (execute hp rc)
  then show ?thesis using disk.execute_keeps [OF device_keeps_disk assms(2), of hp] by simp
next
  case (work rc)
  then show ?thesis using lun_worker_step_keeps [OF assms(2)] by simp
next
  case (receive bytes)
  then show ?thesis using assms(2) by (simp add: disk_safe_def scatters_def)
qed

lemma disk_steps_keep: "(disk_step env)\<^sup>*\<^sup>* s s' \<Longrightarrow> disk_safe env d0 m0 s \<Longrightarrow> disk_safe env d0 m0 s'"
  by (induction rule: rtranclp_induct) (auto intro: disk_step_keeps)

end
