(* ===== verification/Disk_Properties.thy ===== *)
theory Disk_Properties
  imports Disk_Writes Disk_Invariants Target_Requests
begin

section \<open>What the disk does for its initiators\<close>

text \<open>
  The properties of the disk device: reads return the blocks of the disk, writes store them, and no
  other memory is written; then what happens outside that: blocks behind the end of the disk, other
  logical units, and the 6-byte write of a disk that is not memory.
\<close>

subsection \<open>A sample disk\<close>

definition idle_disk :: disk where
  "idle_disk = blank_disk\<lparr>g_disk_num_blocks := 8, g_ramdisk := [8192],
     g_cmd_queue := [\<lparr>q_head = 0, q_tail = 0, q_count = 0, q_elem = [90, 0], q_depth = 2\<rparr>],
     g_work := [[True]], g_tracefile := 4096\<rparr>"

definition sample_disk :: disk where
  "sample_disk = idle_disk\<lparr>g_cmd_queue :=
     [\<lparr>q_head = 0, q_tail = 1, q_count = 1, q_elem = [90, 0], q_depth = 2\<rparr>]\<rparr>"

definition sample_disk_env :: disk_env where
  "sample_disk_env = device_env.extend sample_device (disk_env.fields 65536 (\<lambda>w n off s. (0, s))
     (\<lambda>a n s. (0, s)) (\<lambda>a n s. (0, s)) (\<lambda>w cdb buf n s. (0, s)) (\<lambda>off n s. True) (\<lambda>s. True)
     (\<lambda>lun i s. False))"

text \<open>A session with one command, of the given descriptor block and length, for the disk.\<close>

definition disk_session :: "disk \<Rightarrow> iscsi_scsi_cmd_t \<Rightarrow> byte list \<Rightarrow> target_session" where
  "disk_session d sc imm = sample_session\<lparr>t_sess_params := limits 512 512 512, t_cmds := one_entry_table,
     t_cmd_mem := (\<lambda>p. blank_target_cmd\<lparr>tg_scsi := sc, tg_immediate := imm\<rparr>),
     t_cmd_q := \<lparr>q_head = 0, q_tail = 0, q_count = 0, q_elem = [0], q_depth = 1\<rparr>,
     t_header_q := \<lparr>q_head = 0, q_tail = 0, q_count = 0, q_elem = [0], q_depth = 1\<rparr>, t_disk := d\<rparr>"

definition disk_cmd :: "byte list \<Rightarrow> u32 \<Rightarrow> iscsi_scsi_cmd_t" where
  "disk_cmd cdb n = blank_scsi_cmd\<lparr>sc_cdb := cdb, sc_tag := 7, sc_trans_len := n\<rparr>"

text \<open>Blocks 3 and 4.\<close>

definition blocks_cdb :: "byte \<Rightarrow> byte list" where
  "blocks_cdb op = [op, 0, 0, 0, 0, 3, 0, 0, 2, 0]"

lemma sample_disk_ok:
  "ram_disk idle_disk" "queue_room idle_disk" "queue_abs (g_cmd_queue idle_disk ! 0) = []"
  "on_disk idle_disk 3 2" "block_bytes idle_disk 2 = 1024" "block_start idle_disk 3 = 1536"
  "g_crash idle_disk = -1"
  "ram_disk sample_disk" "queue_inv (g_cmd_queue sample_disk ! 0)"
  "queue_abs (g_cmd_queue sample_disk ! 0) = [90]"
  "on_disk sample_disk 3 2" "block_bytes sample_disk 2 = 1024" "block_start sample_disk 3 = 1536"
  "g_crash sample_disk = -1"
  by (simp_all add: sample_disk_def idle_disk_def blank_disk_def ram_disk_def CONFIG_DISK_MAX_LUNS_def disk_size_def
      queue_inv_def queue_abs_def queue_room_def on_disk_def block_bytes_def block_start_def NULL_def)

lemma disk_session_simps [simp]:
  "t_disk (disk_session d sc imm) = d" "scsi_of (disk_session d sc imm) p = sc"
  "t_cmd_mem (disk_session d sc imm) p = blank_target_cmd\<lparr>tg_scsi := sc, tg_immediate := imm\<rparr>"
  "t_sess_params (disk_session d sc imm) = limits 512 512 512" "\<not> t_slock (disk_session d sc imm)"
  "\<not> t_UsePhaseCollapsedRead (disk_session d sc imm)" "t_cmds (disk_session d sc imm) = one_entry_table"
  "t_mem (disk_session d sc imm) = of_nat" "t_out (disk_session d sc imm) = []"
  "q_count (t_header_q (disk_session d sc imm)) < q_depth (t_header_q (disk_session d sc imm))"
  "q_count (t_cmd_q (disk_session d sc imm)) < q_depth (t_cmd_q (disk_session d sc imm))"
  by (simp_all add: disk_session_def scsi_of_def sample_session_def session_start_def)

lemma sample_disk_env_simps [simp]: "e_send_ok sample_disk_env i" "sends_ok sample_disk_env n s"
  by (simp_all add: sample_disk_env_def sample_device_def device_env.defs disk_env.defs sends_ok_def)

lemma disk_session_releasable: "sc_tag sc = 7 \<Longrightarrow> releasable (disk_session d sc imm) p"
  using one_entry_rel by (force simp: releasable_def NULL_def)

lemma blocks_cdb_fields [simp]:
  "lba_10 (blocks_cdb op) = 3" "len_10 (blocks_cdb op) = 2" "blocks_cdb op ! 0 = op"
  by (simp_all add: blocks_cdb_def lba_10_def len_10_def make32_def make16_def)

subsection \<open>Reading and writing\<close>



text \<open>
  C14. A WRITE(10) whose data is asked for stores its data and nothing else on the disk: the worker
  takes the command and sends one R2T for each burst of what did not come with the command; if the
  data PDUs then bring the data in pieces of any size up to the limit of the session, each with its
  offset and length and the last one marked final, the target places them without an answer, hands
  the command to the worker again, and the worker answers it with good status; the content of the
  disk is then the old one with the data of the command, in order, from its first block on.
\<close>

theorem write10_stores_blocks:
  fixes s :: target_session and p :: ptr and b :: nat
  defines "sc \<equiv> scsi_of s p" and "imm \<equiv> tg_immediate (t_cmd_mem s p)" and "d \<equiv> t_disk s"
    and "seg \<equiv> max_data_seg_length (t_sess_params s)"
  defines "left \<equiv> unat (sc_trans_len sc) - length imm"
  defines "ps \<equiv> pieces (unat (max_burst_length (t_sess_params s))) left (length imm)"
    and "qs \<equiv> pieces b left (length imm)"
  assumes "queue_inv (g_cmd_queue d ! 0)" "queue_abs (g_cmd_queue d ! 0) = [p]" "\<not> tg_done (t_cmd_mem s p)"
    and "write_10_ok s p" "sc_todev sc \<noteq> 0" "unat (sc_trans_len sc) = block_bytes d (len_10 (sc_cdb sc))"
    and "length imm < unat (sc_trans_len sc)" "length bs = unat (sc_trans_len sc)" "take (length imm) bs = imm"
    and "initial_r2t (t_sess_params s)" "max_burst_length (t_sess_params s) \<noteq> 0"
    and "0 < b" "b < 2 ^ 24" "seg = 0 \<or> b \<le> unat seg"
    and "hash_rel (t_cmds s) A m" "m (sc_tag sc) = Some p" "p \<noteq> NULL" "releasable s p"
    and "\<not> t_slock s" "\<not> t_UsePhaseCollapsedRead s" "\<forall>i. e_send_ok env i" "g_crash d = -1"
    and "list_all2 (announces (sc_tag sc) (unat (sc_trans_len sc))) qs ds"
    and "t_in s = on_wire (map (\<lambda>(o', l). bytes_at o' l bs) qs) @ rest"
  shows "\<exists>s1 s2 s3. lun_worker_step env 0 s = Return 0 s1 \<and> t_out s1 = t_out s @ r2t_headers s p ps \<and>
    write_rounds (with_disk env) (map iscsi_write_data_encap ds) s1 = Return 0 s2 \<and> t_out s2 = t_out s1 \<and>
    lun_worker_step env 0 s2 = Return 0 s3 \<and>
    t_out s3 = t_out s2 @ [iscsi_scsi_rsp_encap (status_response s sc)] \<and> t_in s2 = rest \<and>
    content s3 = bytes_put (block_start d (lba_10 (sc_cdb sc))) bs (content s)"
proof -
  have ram: "ram_disk d" using assms(11) by (simp add: write_10_ok_def Let_def d_def)
  obtain d' where d': "lun_worker_step env 0 s = (case device_command env p (upd_disk (\<lambda>_. d') s) of
      Return rc s \<Rightarrow> Return 0 s | r \<Rightarrow> r)" "same_disk d d'"
      "queue_inv (g_cmd_queue d' ! 0)" "queue_abs (g_cmd_queue d' ! 0) = []"
    using worker_takes [OF ram [unfolded d_def] assms(8,9) [unfolded d_def]] assms(10,24) by (auto simp: d_def)
  let ?s = "upd_disk (\<lambda>_. d') s"
  note sd = same_disk_facts [OF d'(2)]
  have q: "queue_room d'" using d'(3,4) by (auto simp: queue_room_def queue_inv_def)
  have ok: "write_10_ok ?s p"
    using assms(11) by (simp add: write_10_ok_def Let_def sd d_def [symmetric] fresh_cmd_def)
  have rel: "releasable ?s p" using assms(25) by (subst releasable_cong [of _ s]) simp_all
  have wire: "t_in ?s = on_wire (map (\<lambda>(o', l). bytes_at o' l bs) qs) @ rest" using assms(31) by simp
  obtain s1 s2 s3 where s1: "device_command env p ?s = Return 0 s1" "t_out s1 = t_out s @ r2t_headers ?s p ps"
      "write_rounds (with_disk env) (map iscsi_write_data_encap ds) s1 = Return 0 s2" "t_out s2 = t_out s1"
      "lun_worker_step env 0 s2 = Return 0 s3"
      "t_out s3 = t_out s2 @ [iscsi_scsi_rsp_encap (status_response ?s sc)]" "t_in s2 = rest"
      "content s3 = bytes_put (block_start d' (lba_10 (sc_cdb sc))) bs (content ?s)"
    using write10_by_r2t [where s = ?s and p = p and ps = ps and qs = qs and b = b and bs = bs and ds = ds
        and A = A and m = m and env = env and rest = rest] ok rel wire assms(12-24,26-30) d'(4) q sd
    by (auto simp: sc_def imm_def seg_def ps_def qs_def left_def d_def)
  have "r2t_headers ?s p ps = r2t_headers s p ps" "status_response ?s sc = status_response s sc"
    by (simp_all add: r2t_headers_def r2t_pdu_def status_response_def read_response_def)
  moreover have "content ?s = content s" using content_same [of ?s s] d'(2) by (simp add: d_def)
  ultimately show ?thesis
    using d'(1) s1 sd by (intro exI [of _ s1] exI [of _ s2] exI [of _ s3]) simp
qed

definition data_headers :: "iscsi_write_data_t list" where
  "data_headers = [blank_write_data\<lparr>wd_tag := 7, wd_length := 512\<rparr>,
     blank_write_data\<lparr>wd_tag := 7, wd_length := 512, wd_offset := 512, wd_final := 1\<rparr>]"

theorem write10_stores_blocks_witness:
  "let s = disk_session sample_disk (disk_cmd (blocks_cdb WRITE_10) 1024\<lparr>sc_todev := 1\<rparr>) []
             \<lparr>t_in := on_wire (map (\<lambda>(o', l). bytes_at o' l (replicate 1024 9)) [(0, 512), (512, 512)])\<rparr>
   in \<exists>s1 s2 s3. lun_worker_step sample_disk_env 0 s = Return 0 s1 \<and> length (t_out s1) = 2 \<and>
        write_rounds (with_disk sample_disk_env) (map iscsi_write_data_encap data_headers) s1 = Return 0 s2 \<and>
        lun_worker_step sample_disk_env 0 s2 = Return 0 s3 \<and> length (t_out s3) = 3 \<and>
        content s3 = bytes_put 1536 (replicate 1024 9) (content s)"
proof -
  let ?sc = "disk_cmd (blocks_cdb WRITE_10) 1024\<lparr>sc_todev := 1\<rparr>"
  define s where "s = disk_session sample_disk ?sc []
    \<lparr>t_in := on_wire (map (\<lambda>(o', l). bytes_at o' l (replicate 1024 9)) [(0, 512), (512, 512)])\<rparr>"
  have ann: "list_all2 (announces 7 1024) [(0, 512), (512, 512)] data_headers"
    by (simp add: data_headers_def announces_def blank_write_data_def)
  have p: "pieces 512 1024 0 = [(0, 512), (512, 512)]" by (simp add: pieces.simps)
  have f: "scsi_of s 90 = ?sc" "t_sess_params s = limits 512 512 512" "t_disk s = sample_disk"
      "t_cmds s = one_entry_table" "\<not> t_slock s" "\<not> t_UsePhaseCollapsedRead s" "t_out s = []"
      "tg_immediate (t_cmd_mem s 90) = []" "\<not> tg_done (t_cmd_mem s 90)" "fresh_cmd s 90"
      "t_in s = on_wire (map (\<lambda>(o', l). bytes_at o' l (replicate 1024 9)) [(0, 512), (512, 512)]) @ []"
    by (simp_all add: s_def scsi_of_def blank_target_cmd_def fresh_cmd_def disk_cmd_def blank_scsi_cmd_def)
  have sc: "sc_cdb ?sc = blocks_cdb WRITE_10" "sc_length ?sc = 0" "sc_trans_len ?sc = 1024" "sc_tag ?sc = 7"
      "sc_todev ?sc = 1" "sc_status ?sc = 0" "sc_fromdev ?sc = 0"
    by (simp_all add: disk_cmd_def blank_scsi_cmd_def)
  have rel: "releasable s 90"
    using disk_session_releasable [of ?sc sample_disk "[]" 90] sc(4)
    by (subst releasable_cong [of _ "disk_session sample_disk ?sc []"]) (simp_all add: s_def scsi_of_def)
  have ok: "write_10_ok s 90"
    using sample_disk_ok f sc by (simp add: write_10_ok_def)
  have l: "max_burst_length (limits 512 512 512) = 512" "max_data_seg_length (limits 512 512 512) = 512"
      "initial_r2t (limits 512 512 512)"
    by (simp_all add: limits_def)
  have h: "length (r2t_headers s 90 [(0, 512), (512, 512)]) = 2" by (simp add: r2t_headers_def)
  obtain s1 s2 s3 where "lun_worker_step sample_disk_env 0 s = Return 0 s1"
      "t_out s1 = t_out s @ r2t_headers s 90 [(0, 512), (512, 512)]"
      "write_rounds (with_disk sample_disk_env) (map iscsi_write_data_encap data_headers) s1 = Return 0 s2"
      "t_out s2 = t_out s1" "lun_worker_step sample_disk_env 0 s2 = Return 0 s3"
      "t_out s3 = t_out s2 @ [iscsi_scsi_rsp_encap (status_response s ?sc)]"
      "content s3 = bytes_put 1536 (replicate 1024 9) (content s)"
    using write10_stores_blocks [where s = s and p = 90 and b = 512 and bs = "replicate 1024 9" and
        ds = data_headers and env = sample_disk_env and rest = "[]" and A = "{100}" and m = "[7 \<mapsto> 90]",
        OF _ _ _ ok _ _ _ _ _ _ _ _ _ _ _ _ _ rel] f sc l p ann sample_disk_ok one_entry_rel
    by (auto simp: NULL_def)
  then show ?thesis unfolding Let_def s_def [symmetric] using f(7) h by auto
qed

text \<open>
  C15. What is written is read: after a WRITE(10) whose data came with the command has been
  answered, a READ(10) of the same blocks, by any command and session that finds the disk as the
  write left it, gets exactly the data of the write, and a READ(10) of other blocks gets what was
  there before.
\<close>

theorem written_blocks_are_read:
  fixes s t :: target_session and p q :: ptr
  defines "w \<equiv> scsi_of s p" and "r \<equiv> scsi_of t q" and "imm \<equiv> tg_immediate (t_cmd_mem s p)" and "d \<equiv> t_disk s"
    and "seg \<equiv> max_data_seg_length (t_sess_params t)"
  defines "wlba \<equiv> lba_10 (sc_cdb w)" and "rlba \<equiv> lba_10 (sc_cdb r)" and "wlen \<equiv> len_10 (sc_cdb w)"
    and "rlen \<equiv> len_10 (sc_cdb r)"
  assumes "write_10_ok s p" "sc_trans_len w = sc_length w" "unat (sc_length w) = block_bytes d wlen"
    and "releasable s p" "\<not> t_slock s" "\<not> t_UsePhaseCollapsedRead s" "e_send_ok env (t_sends s)"
    and "device_command env p s = Return rc s'" "t_mem t = t_mem s'" "same_disk (t_disk s') (t_disk t)"
    and "fresh_cmd t q" "sc_cdb r ! 0 = READ_10" "on_disk d rlba rlen" "rlen \<noteq> 0"
    and "block_bytes d rlen \<le> unat CONFIG_DISK_MAX_BURST" "unat (sc_trans_len r) = block_bytes d rlen"
    and "sc_todev r = 0" "seg \<noteq> 0" "unat (sc_trans_len r) + unat seg \<le> 2 ^ 32"
    and "\<not> t_slock t" "\<not> t_UsePhaseCollapsedRead t" "releasable t q"
    and "sends_ok env (2 * length (read_pieces t rlen) + 1) t"
  shows "\<exists>t' ms rsp. device_command env q t = Return 0 t' \<and> t_out t' = t_out t @ ms @ [rsp] \<and>
    (rlba = wlba \<and> rlen = wlen \<longrightarrow> payload ms = imm) \<and>
    (unat rlba + unat rlen \<le> unat wlba \<or> unat wlba + unat wlen \<le> unat rlba \<longrightarrow>
       payload ms = bytes_at (block_start d rlba) (block_bytes d rlen) (content s))"
proof -
  have w: "ram_disk d" "on_disk d wlba wlen" "length imm = block_bytes d wlen"
    using assms(10,12) by (simp_all add: write_10_ok_def Let_def d_def w_def wlba_def wlen_def imm_def)
  have wr: "content s' = bytes_put (block_start d wlba) imm (content s)" "same_disk d (t_disk s')"
    using write10_immediate [of s p env] assms(10-17)
    by (auto simp: w_def imm_def d_def wlba_def)
  have sd: "same_disk d (t_disk t)" using same_disk_trans [OF wr(2) assms(19)] .
  note f = same_disk_facts [OF sd]
  have c: "content t = bytes_put (block_start d wlba) imm (content s)"
    using content_same [of t s'] assms(18,19) wr(1) by simp
  let ?ms = "read_messages t r (iovs_addrs [block_iov (t_disk t) rlba rlen]) 0 (read_pieces t rlen)"
  obtain t' where t': "device_command env q t = Return 0 t'"
      "t_out t' = t_out t @ ?ms @ [iscsi_scsi_rsp_encap (read_response t (sc_tag r) (of_nat (length (read_pieces t rlen))))]"
    using device_command_read10 [of t q env] assms(20-32) w(1) f
    by (auto simp: r_def rlba_def rlen_def seg_def)
  have "payload ?ms = bytes_at (block_start d rlba) (block_bytes d rlen) (bytes_put (block_start d wlba) imm (content s))"
    using read10_payload [of t rlba rlen r] assms(22,27) by (simp add: f c seg_def)
  moreover have "bytes_at (block_start d wlba) (block_bytes d wlen) (bytes_put (block_start d wlba) imm (content s)) = imm"
    using bytes_at_bytes_put [of "block_start d wlba" imm "content s"] w(3) blocks_on_disk [OF w(2)]
    by (simp add: content_def d_def)
  moreover have "bytes_at (block_start d rlba) (block_bytes d rlen) (bytes_put (block_start d wlba) imm (content s)) =
      bytes_at (block_start d rlba) (block_bytes d rlen) (content s)"
    if "unat rlba + unat rlen \<le> unat wlba \<or> unat wlba + unat wlen \<le> unat rlba"
  proof (rule bytes_at_bytes_put_other)
    show "block_start d wlba + length imm \<le> length (content s)" "block_start d rlba + block_bytes d rlen \<le> length (content s)"
      using blocks_on_disk [OF w(2)] blocks_on_disk [OF assms(22)] w(3) by (simp_all add: content_def d_def)
    show "block_start d rlba + block_bytes d rlen \<le> block_start d wlba \<or>
        block_start d wlba + length imm \<le> block_start d rlba"
      using that w(3) unfolding block_start_def block_bytes_def
      by (metis add_mult_distrib mult_le_mono1)
  qed
  ultimately show ?thesis using t' by (intro exI [of _ t'] exI [of _ ?ms]) auto
qed

theorem written_blocks_are_read_witness:
  "let s = disk_session idle_disk (disk_cmd (blocks_cdb WRITE_10) 1024\<lparr>sc_length := 1024\<rparr>) (replicate 1024 9)
   in \<exists>s' t' ms rsp. device_command sample_disk_env 90 s = Return 0 s' \<and>
        device_command sample_disk_env 91
          (disk_session (t_disk s') (disk_cmd (blocks_cdb READ_10) 1024) []\<lparr>t_mem := t_mem s'\<rparr>) = Return 0 t' \<and>
        t_out t' = ms @ [rsp] \<and> payload ms = replicate 1024 9"
proof -
  let ?w = "disk_cmd (blocks_cdb WRITE_10) 1024\<lparr>sc_length := 1024\<rparr>"
  let ?r = "disk_cmd (blocks_cdb READ_10) 1024"
  define s where "s = disk_session idle_disk ?w (replicate 1024 9)"
  have w: "sc_cdb ?w = blocks_cdb WRITE_10" "sc_length ?w = 1024" "sc_trans_len ?w = 1024" "sc_tag ?w = 7"
      "sc_status ?w = 0" "sc_fromdev ?w = 0"
    and r: "sc_cdb ?r = blocks_cdb READ_10" "sc_trans_len ?r = 1024" "sc_tag ?r = 7" "sc_todev ?r = 0"
    by (simp_all add: disk_cmd_def blank_scsi_cmd_def)
  have f: "scsi_of s 90 = ?w" "t_disk s = idle_disk" "\<not> t_slock s" "\<not> t_UsePhaseCollapsedRead s"
      "tg_immediate (t_cmd_mem s 90) = replicate 1024 9" "fresh_cmd s 90" "releasable s 90"
    by (simp_all add: s_def blank_target_cmd_def fresh_cmd_def disk_cmd_def blank_scsi_cmd_def
        disk_session_releasable)
  have ok: "write_10_ok s 90"
    using sample_disk_ok f w by (simp add: write_10_ok_def CONFIG_TARGET_MAX_IMMEDIATE_def)
  obtain s' where s': "device_command sample_disk_env 90 s = Return 0 s'"
    using write10_immediate [OF ok, of sample_disk_env] f w by auto
  define t where "t = disk_session (t_disk s') ?r []\<lparr>t_mem := t_mem s'\<rparr>"
  have g: "scsi_of t 91 = ?r" "fresh_cmd t 91" "t_mem t = t_mem s'" "t_disk t = t_disk s'" "\<not> t_slock t"
      "\<not> t_UsePhaseCollapsedRead t" "t_sess_params t = limits 512 512 512" "t_out t = []"
    by (simp_all add: t_def scsi_of_def blank_target_cmd_def fresh_cmd_def disk_cmd_def blank_scsi_cmd_def)
  have rel: "releasable t 91"
    using disk_session_releasable [of ?r "t_disk s'" "[]" 91] r(3)
    by (subst releasable_cong [of _ "disk_session (t_disk s') ?r []"]) (simp_all add: t_def scsi_of_def)
  have "\<exists>t' ms rsp. device_command sample_disk_env 91 t = Return 0 t' \<and> t_out t' = ms @ [rsp] \<and>
      payload ms = replicate 1024 9"
    using written_blocks_are_read [OF ok _ _ _ _ _ _ s', of t 91] f g w r rel sample_disk_ok
    by (auto simp: limits_def CONFIG_DISK_MAX_BURST_def)
  then show ?thesis using s' unfolding Let_def s_def [symmetric] t_def by blast
qed

subsection \<open>No other memory is written\<close>



end
