(* ===== verification/Disk_Errors.thy ===== *)
theory Disk_Errors
  imports Disk_Properties
begin

section \<open>Commands that the disk does not carry out\<close>

text \<open>
  Blocks behind the end of the disk, other logical units, and the 6-byte write of a disk that is not
  memory: what the code does there, which is in each case not what the protocol asks for.
\<close>

subsection \<open>Blocks that are not on the disk\<close>

text \<open>
  C40. A READ(10) of no blocks, of blocks that reach behind the end of the disk, or of more than
  \<^verbatim>\<open>CONFIG_DISK_MAX_BURST\<close> bytes ends the whole target process: no response is sent.
\<close>

theorem bad_read10_ends_target:
  fixes s :: target_session and p :: ptr
  defines "sc \<equiv> scsi_of s p" and "d \<equiv> t_disk s"
  defines "lba \<equiv> lba_10 (sc_cdb sc)" and "len \<equiv> len_10 (sc_cdb sc)"
  assumes "ram_disk d" "fresh_cmd s p" "sc_cdb sc ! 0 = READ_10"
    and "len = 0 \<or> \<not> on_disk d lba len \<or> unat CONFIG_DISK_MAX_BURST < block_bytes d len"
  shows "\<exists>s'. device_command env p s = Exits s' \<and> t_out s' = t_out s"
proof -
  let ?s = "add_trace False 0 lba len s"
  have sd: "same_disk d (t_disk ?s)" by (simp add: d_def)
  note f = same_disk_facts [OF sd]
  have "unat (num_bytes (t_disk ?s) (ucast len)) = block_bytes d len"
    using num_bytes_exact [of "t_disk ?s" len] assms(5) f by simp
  then have big: "num_bytes (t_disk ?s) (ucast len) > CONFIG_DISK_MAX_BURST"
    if "unat CONFIG_DISK_MAX_BURST < block_bytes d len" using that by (simp add: word_less_nat_alt)
  have "beyond_media (t_disk ?s) (ucast lba) (ucast len) = (\<not> on_disk d lba len)"
    using beyond_media_iff [of "t_disk ?s" lba len] assms(5) f by simp
  then have bad: "disk_read env p 0 (ucast lba) len ?s k = k (-1) ?s" for k
    using assms(8) big by (auto simp: disk_read_def Let_def)
  have "\<not> g_disk_num_luns d \<le> 0" using assms(5) by (simp add: ram_disk_def)
  then have "device_command env p s = Exits ?s"
    using assms(6,7) bad
    by (simp add: device_command_def fresh_cmd_def sc_def [symmetric] lba_def [symmetric] d_def [symmetric]
        len_def [symmetric] disk_opcodes Let_def scsi_of_def [symmetric])
  then show ?thesis by simp
qed

theorem bad_read10_ends_target_witness:
  "\<exists>s'. device_command sample_disk_env 90 (disk_session sample_disk (disk_cmd [READ_10, 0, 0, 0, 0, 8, 0, 0, 1, 0] 512) [])
     = Exits s'"
proof -
  let ?cdb = "[READ_10, 0, 0, 0, 0, 8, 0, 0, 1, 0]"
  have "lba_10 ?cdb = 8" "len_10 ?cdb = 1" by (simp_all add: lba_10_def len_10_def make32_def make16_def)
  moreover have "\<not> on_disk sample_disk 8 1" by (simp add: on_disk_def sample_disk_def idle_disk_def)
  ultimately show ?thesis
    using bad_read10_ends_target [of "disk_session sample_disk (disk_cmd ?cdb 512) []" 90 sample_disk_env] sample_disk_ok
    by (auto simp: disk_cmd_def fresh_cmd_def blank_target_cmd_def blank_scsi_cmd_def)
qed

text \<open>
  A WRITE(10) of blocks that reach behind the end of the disk writes nothing, but is never
  answered either: the worker ends with status 2 (CHECK CONDITION) in the command and neither sends
  a response nor gives the command back.
\<close>

theorem bad_write10_unanswered:
  fixes s :: target_session and p :: ptr
  defines "sc \<equiv> scsi_of s p" and "d \<equiv> t_disk s"
  assumes "ram_disk d" "fresh_cmd s p" "sc_cdb sc ! 0 = WRITE_10"
    and "\<not> on_disk d (lba_10 (sc_cdb sc)) (len_10 (sc_cdb sc))"
  shows "\<exists>s'. device_command env p s = Return 0 s' \<and> t_out s' = t_out s \<and> t_mem s' = t_mem s \<and>
    t_cmds s' = t_cmds s \<and> t_cmd_q s' = t_cmd_q s \<and> t_header_q s' = t_header_q s \<and>
    sc_status (scsi_of s' p) = 2"
proof -
  let ?lba = "lba_10 (sc_cdb sc)" and ?len = "len_10 (sc_cdb sc)"
  let ?s = "add_trace True 0 ?lba ?len (upd_cmd p (\<lambda>c. c\<lparr>tg_is_write := True\<rparr>) s)"
  have sd: "same_disk d (t_disk ?s)"
    using same_disk_trace(1) [of "upd_cmd p (\<lambda>c. c\<lparr>tg_is_write := True\<rparr>) s"] by (simp add: d_def)
  note f = same_disk_facts [OF sd]
  have "beyond_media (t_disk ?s) (ucast ?lba) (ucast ?len)"
    using beyond_media_iff [of "t_disk ?s" ?lba ?len] assms(3,6) f by simp
  then have bad: "prepare_write env p 0 (ucast ?lba) (ucast ?len) ?s k = k (-1) ?s" for k
    using assms(5) by (simp add: prepare_write_def Let_def sc_def scsi_of_def disk_opcodes ucast_16_32_64)
  have "\<not> g_disk_num_luns d \<le> 0" using assms(3) by (simp add: ram_disk_def)
  then have "device_command env p s = Return 0
      (upd_scsi p (\<lambda>sc. sc\<lparr>sc_length := 0\<rparr>) (upd_scsi p (\<lambda>sc. sc\<lparr>sc_status := 2\<rparr>) ?s))"
    using assms(4,5) bad
    by (simp add: device_command_def fresh_cmd_def sc_def [symmetric] d_def [symmetric] disk_opcodes Let_def
        scsi_of_def [symmetric])
  then show ?thesis by (simp add: upd_scsi_def)
qed

theorem bad_write10_unanswered_witness:
  "\<exists>s'. device_command sample_disk_env 90 (disk_session sample_disk (disk_cmd [WRITE_10, 0, 0, 0, 0, 7, 0, 0, 2, 0] 1024) [])
     = Return 0 s' \<and> t_out s' = [] \<and> sc_status (scsi_of s' 90) = 2"
proof -
  let ?cdb = "[WRITE_10, 0, 0, 0, 0, 7, 0, 0, 2, 0]"
  have "lba_10 ?cdb = 7" "len_10 ?cdb = 2" by (simp_all add: lba_10_def len_10_def make32_def make16_def)
  moreover have "\<not> on_disk sample_disk 7 2" by (simp add: on_disk_def sample_disk_def idle_disk_def)
  ultimately show ?thesis
    using bad_write10_unanswered [of "disk_session sample_disk (disk_cmd ?cdb 1024) []" 90 sample_disk_env] sample_disk_ok
    by (auto simp: disk_cmd_def fresh_cmd_def blank_target_cmd_def blank_scsi_cmd_def)
qed

subsection \<open>Other logical units\<close>

lemma ucast_low:
  "(ucast w :: u32) = 0 \<Longrightarrow> (ucast w :: byte) = 0" for w :: u64
proof -
  assume "(ucast w :: u32) = 0"
  then have "unat (ucast w :: u32) = 0" by simp
  then have "unat w mod 2 ^ 32 = 0" by (simp add: unsigned_ucast_eq take_bit_eq_mod)
  then have "2 ^ 32 dvd unat w" by presburger
  then have "2 ^ 8 dvd unat w" by (rule dvd_trans [rotated]) (simp add: le_imp_power_dvd)
  then have "unat w mod 2 ^ 8 = 0" by simp
  then have "unat (ucast w :: byte) = 0" by (simp add: unsigned_ucast_eq take_bit_eq_mod)
  then show ?thesis by (simp add: unat_eq_0)
qed

lemma command_done_other_unit:
  assumes "ram_disk (t_disk s)" "(ucast (sc_lun (scsi_of s p)) :: u32) \<noteq> 0"
  shows "command_done env p s = Undef"
proof -
  have n: "\<not> unat (ucast (sc_lun (scsi_of s p)) :: u32) < 1" "\<not> unat (sc_lun (scsi_of s p)) < 1"
    using assms(2) by (auto simp: unat_eq_0)
  then show ?thesis
    using assms(1)
    by (auto simp: command_done_def set_trace_file_def write_out_def Let_def ram_disk_def scsi_of_def
        CONFIG_DISK_MAX_LUNS_def)
qed

lemma finish_other_unit:
  assumes "ram_disk (t_disk s)" "(ucast (sc_lun (scsi_of s p)) :: u32) \<noteq> 0"
  shows "finish_command env p g s = Undef"
  using assms by (simp add: finish_command_def Let_def command_done_other_unit scsi_of_def)

text \<open>
  The device knows one unit, but answers for others too, and then leaves its arrays: every
  command whose unit number has a last byte other than 0 makes \<^verbatim>\<open>device_command\<close> take a lock behind the
  end of \<^verbatim>\<open>g_device_stats\<close>, whatever the command asks for, also through \<^verbatim>\<open>device_enqueue\<close>; and reads and
  writes for any other unit than 0 are counted behind the end of that array.
\<close>

theorem other_units_undefined:
  fixes s :: target_session and p :: ptr
  defines "c \<equiv> t_cmd_mem s p" and "lun \<equiv> sc_lun (scsi_of s p)" and "op \<equiv> sc_cdb (scsi_of s p) ! 0"
  assumes "ram_disk (t_disk s)" "g_crash (t_disk s) = -1" "lun \<noteq> 0"
    and "tg_gather c = []" "tg_scatter c = []" "\<not> tg_send_data c"
  shows "((ucast lun :: byte) \<noteq> 0 \<longrightarrow> device_command env p s = Undef \<and> device_enqueue env p s = Undef) \<and>
    (\<not> tg_done c \<and> op \<in> {READ_6, WRITE_6, READ_10, WRITE_10} \<longrightarrow> device_enqueue env p s = Undef)"
proof -
  have cmd: "device_command env p s = Undef" if b: "(ucast lun :: byte) \<noteq> 0"
  proof -
    have "(ucast lun :: u32) \<noteq> 0" using b ucast_low [of lun] by auto
    moreover have "(1 :: u32) \<le> ucast (ucast lun :: byte)"
      using b unfolding word_le_nat_alt by (simp add: unat_ucast_up_simp unat_gt_0 Suc_le_eq)
    then have "g_disk_num_luns (t_disk s) \<le> ucast (ucast lun :: byte)"
      using assms(4) by (simp add: ram_disk_def)
    ultimately show ?thesis
      using assms(4,7-9)
      by (simp add: finish_other_unit device_command_def c_def lun_def scsi_of_def Let_def set_scsi_status_def set_data_def upd_scsi_def)
  qed
  have "1 \<le> unat lun" using assms(6) by (simp add: Suc_le_eq unat_gt_0)
  then have "ucast (g_disk_num_luns (t_disk s)) \<le> lun" "length (g_device_stats (t_disk s)) \<le> unat lun"
    using assms(4) by (simp_all add: ram_disk_def word_le_nat_alt CONFIG_DISK_MAX_LUNS_def)
  then have enq: "device_enqueue env p s =
      (if \<not> tg_done c \<and> (is_write_op op \<or> is_read_op op) then Undef else device_command env p s)"
    using assms(5) by (simp add: device_enqueue_def count_down_def lun_def c_def op_def scsi_of_def Let_def)
  then show ?thesis using cmd by (auto simp: is_write_op_def is_read_op_def)
qed

theorem other_units_undefined_witness:
  "device_command sample_disk_env 90 (disk_session sample_disk (disk_cmd [TEST_UNIT_READY, 0, 0, 0, 0, 0] 0\<lparr>sc_lun := 1\<rparr>) [])
     = Undef"
  using other_units_undefined [of "disk_session sample_disk (disk_cmd [TEST_UNIT_READY, 0, 0, 0, 0, 0] 0\<lparr>sc_lun := 1\<rparr>) []"
      90 sample_disk_env] sample_disk_ok
  by (simp add: blank_target_cmd_def)

subsection \<open>Writes to a disk that is not memory\<close>

text \<open>A raw device with one unit and a free staging buffer.\<close>

definition raw_disk :: "disk \<Rightarrow> ptr \<Rightarrow> bool" where
  "raw_disk d buf \<longleftrightarrow> g_type d = DISK_RAW \<and> g_disk_num_luns d = 1 \<and> length (g_device_stats d) = 1 \<and>
     length (g_staging_queue d) = 1 \<and> buf \<noteq> NULL \<and> fst (iscsi_queue_remove (g_staging_queue d ! 0)) = buf"

definition write_blocks :: "byte list \<Rightarrow> u32 \<Rightarrow> u16 \<Rightarrow> bool" where
  "write_blocks cdb lba len \<longleftrightarrow> cdb ! 0 = WRITE_6 \<and> lba = lba_6 cdb \<and> len = len_6 cdb \<or>
     cdb ! 0 = WRITE_10 \<and> lba = lba_10 cdb \<and> len = len_10 cdb"

lemma command_done_raw:
  fixes s :: target_session and p :: ptr
  defines "sc \<equiv> scsi_of s p" and "c \<equiv> t_cmd_mem s p" and "d \<equiv> t_disk s"
  assumes "g_type d = DISK_RAW" "length (g_device_stats d) = 1" "sc_lun sc = 0" "plain_op (sc_cdb sc ! 0)"
    and "tg_scatter c = [v]" "map (t_mem s) (iov_addrs v) = bs"
    and "tg_is_write c \<Longrightarrow> e_medium_ok env (byte_offset d (tg_lba c)) (num_bytes d (ucast (tg_len c))) s"
    and "\<not> tg_send_data c" "\<not> t_slock s" "\<not> t_UsePhaseCollapsedRead s" "e_send_ok env (t_sends s)"
    and "sc_fromdev sc = 0" "sc_status sc = 0" "sc_bytes_todev sc = sc_trans_len sc" "releasable s p"
  shows "\<exists>s'. command_done env p s = Return 0 s' \<and>
    t_out s' = t_out s @ [iscsi_scsi_rsp_encap (status_response s sc)] \<and>
    g_medium (t_disk s') = (if tg_is_write c then put_mem (medium_addrs (byte_offset d (tg_lba c)) (length bs)) bs (g_medium d)
      else g_medium d)"
proof -
  define s1 where "s1 = (if tg_is_write c then upd_disk (\<lambda>x. x\<lparr>g_medium :=
      put_mem (medium_addrs (byte_offset d (tg_lba c)) (length bs)) bs (g_medium x)\<rparr>) s else s)"
  have s1: "t_cmd_mem s1 = t_cmd_mem s" "t_out s1 = t_out s" "t_sends s1 = t_sends s" "t_slock s1 = t_slock s"
      "t_UsePhaseCollapsedRead s1 = t_UsePhaseCollapsedRead s" "scsi_of s1 p = sc" "t_cmds s1 = t_cmds s"
      "t_header_q s1 = t_header_q s" "t_cmd_q s1 = t_cmd_q s" "g_type (t_disk s1) = DISK_RAW"
      "length (g_device_stats (t_disk s1)) = 1" "status_response s1 sc' = status_response s sc'" for sc'
    using assms(4,5) by (simp_all add: s1_def sc_def d_def status_response_def read_response_def)
  have out: "write_out env p s k = k s1" for k
    using assms(4-6,8-10) by (cases "tg_is_write (t_cmd_mem s p)")
      (simp_all add: write_out_def Let_def c_def d_def s1_def sc_def scsi_of_def iovs_addrs_def)
  obtain u where u: "device_command_done env p s1 = command_release env p u"
      "t_out u = t_out s @ [iscsi_scsi_rsp_encap (status_response s sc)]"
      "t_cmds u = t_cmds s1" "t_header_q u = t_header_q s1" "t_cmd_q u = t_cmd_q s1"
      "sc_tag (scsi_of u p) = sc_tag sc" "sc_cdb (scsi_of u p) = sc_cdb sc" "t_disk u = t_disk s1"
    using device_command_done_status [of s1 p env] assms(11-17) s1 by (auto simp: c_def)
  have "releasable u p" using assms(18) u s1 by (subst releasable_cong [of _ s]) (simp_all add: sc_def)
  then obtain s2 where s2: "command_release env p u = Return 0 s2" "t_out s2 = t_out u" "t_disk s2 = t_disk u"
      "t_cmd_mem s2 = t_cmd_mem u"
    using command_release_ok by blast
  let ?c = "t_cmd_mem s2 p" and ?lun = "unat (ucast (sc_lun (scsi_of s2 p)) :: u32)"
  define s3 where "s3 = give_back ?lun (tg_gather_type ?c) 0 (tg_gather ?c)
    (give_back ?lun (tg_scatter_type ?c) 0 (tg_scatter ?c) s2)"
  have gb: "t_out (give_back l ty i vs x) = t_out x \<and> t_cmd_mem (give_back l ty i vs x) = t_cmd_mem x \<and>
      g_medium (t_disk (give_back l ty i vs x)) = g_medium (t_disk x)" for l ty i vs x
    by (induction l ty i vs x rule: give_back.induct) simp_all
  have "sc_cdb (tg_scsi (t_cmd_mem s3 p)) = sc_cdb sc" using u(7) s2(4) by (simp add: s3_def gb scsi_of_def)
  then have "command_done env p s = Return 0 s3"
    using assms(6,7) out u s1 s2
    by (simp add: command_done_def set_trace_file_def clean_up_def Let_def plain_op_def sc_def scsi_of_def s3_def)
  then show ?thesis
    by (intro exI [of _ s3]) (simp add: s3_def gb s2 u s1_def d_def)
qed

text \<open>
  On a raw device the data that comes with a 6-byte write is lost: the command is answered with
  good status, but the device is not written, because the command is marked as a write only after
  \<^verbatim>\<open>prepare_write\<close> has completed it.  The same command in its 10-byte form stores the data.
\<close>

theorem raw_write6_loses_data:
  fixes s :: target_session and p :: ptr
  defines "c \<equiv> t_cmd_mem s p" and "d \<equiv> t_disk s" and "sc \<equiv> scsi_of s p" and "cdb \<equiv> sc_cdb (scsi_of s p)"
    and "imm \<equiv> tg_immediate (t_cmd_mem s p)"
  assumes "raw_disk d buf" "write_blocks cdb lba len" "fresh_cmd s p" "\<not> tg_is_write c"
    and "\<not> beyond_media d (ucast lba) (ucast len)" "num_bytes d (ucast len) \<le> CONFIG_DISK_MAX_BURST"
    and "length imm = unat (num_bytes d (ucast len))" "sc_length sc = num_bytes d (ucast len)"
    and "length imm \<le> CONFIG_TARGET_MAX_IMMEDIATE" "sc_trans_len sc = sc_length sc"
    and "sc_status sc = 0" "sc_fromdev sc = 0" "\<not> t_slock s" "\<not> t_UsePhaseCollapsedRead s"
    and "releasable s p" "\<forall>i. e_send_ok env i" "\<forall>off n s. e_medium_ok env off n s" "\<not> g_tracing d"
  shows "\<exists>s'. device_command env p s = Return 0 s' \<and>
    t_out s' = t_out s @ [iscsi_scsi_rsp_encap (status_response s sc)] \<and>
    g_medium (t_disk s') = (if cdb ! 0 = WRITE_10
      then put_mem (medium_addrs (byte_offset d (ucast lba)) (length imm)) imm (g_medium d) else g_medium d)"
proof -
  let ?w = "cdb ! 0 = WRITE_10" and ?v = "\<lparr>iov_base = buf, iov_len = length imm\<rparr>"
  obtain q where q: "iscsi_queue_remove (g_staging_queue d ! 0) = (buf, q)" and buf: "buf \<noteq> NULL"
    using assms(6) by (cases "iscsi_queue_remove (g_staging_queue d ! 0)") (auto simp: raw_disk_def)
  define s0 where "s0 = (if ?w then upd_cmd p (\<lambda>c. c\<lparr>tg_is_write := True\<rparr>) s else s)"
  define s2 where "s2 = upd_cmd p (\<lambda>c. c\<lparr>tg_scatter := [?v]\<rparr>) (set_private p (ucast lba) (ucast len)
      (upd_cmd p (\<lambda>c. c\<lparr>tg_scatter_type := (tg_scatter_type c)(0 := MEM_STAGING)\<rparr>)
        (upd_disk (\<lambda>d. d\<lparr>g_staging_queue := (g_staging_queue d)[0 := q]\<rparr>) s0)))"
  define s1 where "s1 = upd_scsi p (\<lambda>sc. sc\<lparr>sc_bytes_todev := sc_length sc\<rparr>)
    (s2\<lparr>t_mem := put_mem (iov_addrs ?v) imm (t_mem s)\<rparr>)"
  have s0: "t_disk s0 = d" "t_mem s0 = t_mem s" "tg_scsi (t_cmd_mem s0 p) = sc" "tg_immediate (t_cmd_mem s0 p) = imm"
    by (simp_all add: s0_def d_def sc_def imm_def scsi_of_def)
  have prep: "prepare_write env p 0 (ucast lba) (ucast len) s0 k =
      (case command_done env p s1 of Return rc s \<Rightarrow> k (if rc \<noteq> 0 then -1 else 0) s | r \<Rightarrow> r)" for k
  proof -
    have "cdb ! 0 \<noteq> ISCSI_IOCTL_TRACING_SET" using assms(7) by (auto simp: write_blocks_def disk_opcodes)
    then have 1: "prepare_write env p 0 (ucast lba) (ucast len) s0 k = start_transfer env p s2 k"
      using assms(6,10,11,12) s0 q buf
      by (simp add: prepare_write_def write_allocate_space_def take_staging_def raw_disk_def Let_def s2_def
          scsi_of_def cdb_def sc_def ucast_16_32_64 not_less [symmetric])
    have f: "tg_scatter (t_cmd_mem s2 p) = [?v]" "tg_immediate (t_cmd_mem s2 p) = imm" "tg_scsi (t_cmd_mem s2 p) = sc"
        "t_mem s2 = t_mem s" "scsi_of s1 p = sc\<lparr>sc_bytes_todev := sc_length sc\<rparr>"
      using s0 by (simp_all add: s2_def s1_def set_private_def upd_scsi_def scsi_of_def)
    have n: "unat (sc_length sc) = length imm" using assms(12,13) by simp
    have "immediate_bytes (t_cmd_mem s2 p) (length imm) = imm" by (simp add: immediate_bytes_def f(2))
    moreover have "copy_immediate [?v] imm (t_mem s) = Some (put_mem (iov_addrs ?v) imm (t_mem s))"
      by (simp add: iov_addrs_def)
    ultimately show ?thesis
      using assms(14,15) f n unfolding 1 start_transfer_def Let_def by (simp add: s1_def)
  qed
  have c1: "tg_scatter (t_cmd_mem s1 p) = [?v]" "tg_is_write (t_cmd_mem s1 p) = ?w" "tg_lba (t_cmd_mem s1 p) = ucast lba"
      "tg_len (t_cmd_mem s1 p) = ucast len" "\<not> tg_send_data (t_cmd_mem s1 p)"
      "scsi_of s1 p = sc\<lparr>sc_bytes_todev := sc_length sc\<rparr>"
    using assms(8,9) by (simp_all add: s1_def s2_def s0_def set_private_def upd_scsi_def scsi_of_def c_def
        fresh_cmd_def sc_def)
  have t1: "t_out s1 = t_out s" "t_slock s1 = t_slock s" "t_UsePhaseCollapsedRead s1 = t_UsePhaseCollapsedRead s"
      "t_cmds s1 = t_cmds s" "t_header_q s1 = t_header_q s" "t_cmd_q s1 = t_cmd_q s"
      "t_mem s1 = put_mem (iov_addrs ?v) imm (t_mem s)" "t_disk s1 = d\<lparr>g_staging_queue := (g_staging_queue d)[0 := q]\<rparr>"
      "status_response s1 x = status_response s x" for x
    by (simp_all add: s1_def s2_def s0_def set_private_def upd_scsi_def d_def status_response_def read_response_def)
  have rel: "releasable s1 p"
    using assms(20) c1(6) by (subst releasable_cong [of _ s]) (simp_all add: t1 sc_def)
  have "map (t_mem s1) (iov_addrs ?v) = imm" by (simp add: t1 put_mem_same iov_addrs_def)
  then obtain s' where s': "command_done env p s1 = Return 0 s'"
      "t_out s' = t_out s @ [iscsi_scsi_rsp_encap (status_response s (scsi_of s1 p))]"
      "g_medium (t_disk s') = (if ?w then put_mem (medium_addrs (byte_offset d (ucast lba)) (length imm)) imm (g_medium d)
         else g_medium d)"
    using command_done_raw [of s1 p ?v imm env] assms(6-8,15-22) c1 t1 rel
    by (auto simp: raw_disk_def plain_op_def write_blocks_def disk_opcodes fresh_cmd_def sc_def cdb_def byte_offset_def)
  have "status_response s (scsi_of s1 p) = status_response s sc"
    by (simp add: status_response_def read_response_def c1)
  moreover have "\<exists>s2. device_command env p s = Return 0 s2 \<and> t_out s2 = t_out s' \<and> t_disk s2 = t_disk s'"
    using assms(6-8,23) prep s'(1)
    by (auto simp: device_command_def fresh_cmd_def raw_disk_def write_blocks_def disk_opcodes Let_def
        scsi_of_def [symmetric] cdb_def d_def add_trace_def s0_def upd_scsi_def)
  ultimately show ?thesis using s' by auto
qed

definition sample_raw :: disk where
  "sample_raw = idle_disk\<lparr>g_type := DISK_RAW, g_tracing := False,
     g_staging_queue := [\<lparr>q_head = 0, q_tail = 0, q_count = 1, q_elem = [16384], q_depth = 1\<rparr>]\<rparr>"

theorem raw_write6_loses_data_witness:
  "\<exists>s'. device_command sample_disk_env 90
       (disk_session sample_raw (disk_cmd [WRITE_6, 0, 0, 3, 1, 0] 512\<lparr>sc_length := 512\<rparr>) (replicate 512 9)) = Return 0 s' \<and>
     length (t_out s') = 1 \<and> g_medium (t_disk s') = g_medium sample_raw"
proof -
  let ?cdb = "[WRITE_6, 0, 0, 3, 1, 0]"
  let ?sc = "disk_cmd ?cdb 512\<lparr>sc_length := 512\<rparr>"
  let ?s = "disk_session sample_raw ?sc (replicate 512 9)"
  have sc: "sc_cdb ?sc = ?cdb" "sc_length ?sc = 512" "sc_trans_len ?sc = 512" "sc_tag ?sc = 7"
      "sc_status ?sc = 0" "sc_fromdev ?sc = 0" "sc_lun ?sc = 0"
    by (simp_all add: disk_cmd_def blank_scsi_cmd_def)
  have "lba_6 ?cdb = 3" "len_6 ?cdb = 1"
    by (simp_all add: lba_6_def len_6_def load32_def ntohl_def byte_of_def make32_def WRITE_6_def)
  then have w: "write_blocks ?cdb 3 1" by (simp add: write_blocks_def)
  have r: "raw_disk sample_raw 16384" "\<not> g_tracing sample_raw" "num_bytes sample_raw 1 = 512"
      "\<not> beyond_media sample_raw 3 1"
    by (simp_all add: raw_disk_def sample_raw_def idle_disk_def blank_disk_def NULL_def iscsi_queue_remove_def
        iscsi_queue_depth_def num_bytes_def beyond_media_def Let_def)
  have m: "\<forall>off n s. e_medium_ok sample_disk_env off n s"
    by (simp add: sample_disk_env_def device_env.defs disk_env.defs)
  have f: "fresh_cmd ?s 90" "\<not> tg_is_write (t_cmd_mem ?s 90)" "tg_immediate (t_cmd_mem ?s 90) = replicate 512 9"
    by (simp_all add: fresh_cmd_def blank_target_cmd_def sc)
  show ?thesis
    using raw_write6_loses_data [of ?s 16384 90 3 1 sample_disk_env] w r m f sc disk_session_releasable [of ?sc]
    by (auto simp: CONFIG_DISK_MAX_BURST_def CONFIG_TARGET_MAX_IMMEDIATE_def disk_opcodes)
qed

end
