(* ===== verification/Osd_Codec.thy ===== *)
theory Osd_Codec
  imports Session_Base
begin

section \<open>The descriptor block of object commands\<close>

text \<open>
  Commands of an object-based storage device are 128 bytes long: \<^verbatim>\<open>OSD_ENCAP_CDB\<close> and
  \<^verbatim>\<open>OSD_DECAP_CDB\<close> of \<^verbatim>\<open>osd.h\<close> write and read them, and \<^verbatim>\<open>osd_command_build\<close> of \<^verbatim>\<open>osd_ops.c\<close> puts them into a SCSI
  command, the first 16 bytes as its descriptor block and the rest into an additional header
  segment.
\<close>

subsection \<open>Arguments\<close>

definition CONFIG_OSD_CDB_LEN :: nat where "CONFIG_OSD_CDB_LEN = 128"
definition INODE_LEN :: nat where "INODE_LEN = 1024"

definition OSD_CREATE_GROUP :: u16 where "OSD_CREATE_GROUP = 0x880B"
definition OSD_REMOVE_GROUP :: u16 where "OSD_REMOVE_GROUP = 0x880C"
definition OSD_CREATE :: u16 where "OSD_CREATE = 0x8802"
definition OSD_REMOVE :: u16 where "OSD_REMOVE = 0x880A"
definition OSD_READ :: u16 where "OSD_READ = 0x8805"
definition OSD_WRITE :: u16 where "OSD_WRITE = 0x8806"
definition OSD_GET_ATTR :: u16 where "OSD_GET_ATTR = 0x880E"
definition OSD_SET_ATTR :: u16 where "OSD_SET_ATTR = 0x880F"

lemmas osd_actions = OSD_CREATE_GROUP_def OSD_REMOVE_GROUP_def OSD_CREATE_def OSD_REMOVE_def
  OSD_READ_def OSD_WRITE_def OSD_GET_ATTR_def OSD_SET_ATTR_def

record osd_args_t =
  oa_opcode :: byte
  oa_control :: byte
  oa_security :: byte
  oa_add_cdb_len :: byte
  oa_service_action :: u16
  oa_options_byte :: byte
  oa_second_options_byte :: byte
  oa_GroupID :: u32
  oa_UserID :: u64
  oa_SessionID :: u32
  oa_length :: u64
  oa_offset :: u64
  oa_set_attributes_list_length :: u32
  oa_get_attributes_page :: u32
  oa_get_attributes_list_length :: u32
  oa_get_attributes_allocation_length :: u32

definition blank_osd_args :: osd_args_t where
  "blank_osd_args = \<lparr>oa_opcode = 0, oa_control = 0, oa_security = 0, oa_add_cdb_len = 0,
     oa_service_action = 0, oa_options_byte = 0, oa_second_options_byte = 0, oa_GroupID = 0,
     oa_UserID = 0, oa_SessionID = 0, oa_length = 0, oa_offset = 0, oa_set_attributes_list_length = 0,
     oa_get_attributes_page = 0, oa_get_attributes_list_length = 0,
     oa_get_attributes_allocation_length = 0\<rparr>"

subsection \<open>Encoding\<close>

definition OSD_ENCAP_CDB :: "osd_args_t \<Rightarrow> byte list \<Rightarrow> byte list" where
  "OSD_ENCAP_CDB a cdb =
    (let cdb = cdb[0 := oa_opcode a];
         cdb = cdb[1 := oa_control a];
         cdb = cdb[6 := oa_security a];
         cdb = cdb[7 := oa_add_cdb_len a];
         cdb = store16 cdb 8 (htons (oa_service_action a));
         cdb = cdb[10 := oa_options_byte a];
         cdb = cdb[11 := oa_second_options_byte a];
         cdb = store32 cdb 12 (htonl (oa_GroupID a));
         cdb = store64 cdb 16 (bswap_64 (oa_UserID a));
         cdb = store32 cdb 24 (htonl (oa_SessionID a));
         cdb = store64 cdb 28 (bswap_64 (oa_length a));
         cdb = store64 cdb 36 (bswap_64 (oa_offset a));
         cdb = store32 cdb 44 (htonl (oa_get_attributes_page a));
         cdb = store32 cdb 48 (htonl (oa_get_attributes_list_length a));
         cdb = store32 cdb 52 (htonl (oa_get_attributes_allocation_length a))
     in store32 cdb 72 (htonl (oa_set_attributes_list_length a)))"

text \<open>\<open>ext\<close> are the bytes that \<^verbatim>\<open>EXT_CDB\<close> points to.\<close>

definition OSD_DECAP_CDB :: "byte list \<Rightarrow> byte list \<Rightarrow> osd_args_t" where
  "OSD_DECAP_CDB cdb ext =
    \<lparr>oa_opcode = cdb ! 0, oa_control = cdb ! 1, oa_security = cdb ! 6, oa_add_cdb_len = cdb ! 7,
     oa_service_action = ntohs (load16 cdb 8), oa_options_byte = cdb ! 10,
     oa_second_options_byte = cdb ! 11, oa_GroupID = ntohl (load32 cdb 12),
     oa_UserID = bswap_64 (load64 ext 0), oa_SessionID = ntohl (load32 ext 8),
     oa_length = bswap_64 (load64 ext 12), oa_offset = bswap_64 (load64 ext 20),
     oa_set_attributes_list_length = ntohl (load32 ext 56),
     oa_get_attributes_page = ntohl (load32 ext 28),
     oa_get_attributes_list_length = ntohl (load32 ext 32),
     oa_get_attributes_allocation_length = ntohl (load32 ext 36)\<rparr>"

text \<open>
  The SCSI command: \<open>send_len\<close> and \<open>recv_len\<close> are the lengths of the caller's buffers.  The structure is
  cleared first, so the segments start from zeros; a segment that is longer than what was
  written into it is not possible here.
\<close>

definition bidi_segment :: "u64 \<Rightarrow> byte list" where
  "bidi_segment recv_len =
    (let seg = replicate 8 0;
         seg = store32 seg 0 (ucast (htons 8));
         seg = seg[2 := 0x02]
     in store32 seg 4 (htonl (ucast recv_len)))"

definition cdb_segment :: "byte list \<Rightarrow> byte list" where
  "cdb_segment cdb =
    (let seg = replicate 4 0;
         seg = store16 seg 0 (htons (of_nat (CONFIG_OSD_CDB_LEN - 15)));
         seg = seg[2 := 0x01]
     in seg @ drop 16 cdb)"

definition osd_command_build :: "osd_args_t \<Rightarrow> u64 \<Rightarrow> u64 \<Rightarrow> u64 \<Rightarrow> iscsi_scsi_cmd_t" where
  "osd_command_build a send_len recv_len lun =
    (let cdb = OSD_ENCAP_CDB a (replicate CONFIG_OSD_CDB_LEN 0);
         bidi = (send_len \<noteq> 0 \<and> recv_len \<noteq> 0);
         ahs = (if bidi then bidi_segment recv_len else []) @ cdb_segment cdb;
         sc = blank_scsi_cmd
           \<lparr>sc_ahs := memcpy (sc_ahs blank_scsi_cmd) 0 ahs, sc_cdb := cdb,
            sc_ahs_len := of_nat ((if bidi then 8 else 0) + (CONFIG_OSD_CDB_LEN - 15))\<rparr>;
         sc = (if bidi then sc\<lparr>sc_fromdev := 1, sc_todev := 1, sc_length := ucast send_len,
                              sc_trans_len := ucast send_len, sc_bidi_trans_len := ucast recv_len\<rparr>
               else if send_len \<noteq> 0 then
                 sc\<lparr>sc_todev := 1, sc_length := ucast send_len, sc_trans_len := ucast send_len\<rparr>
               else if recv_len \<noteq> 0 then sc\<lparr>sc_fromdev := 1, sc_trans_len := ucast recv_len\<rparr>
               else sc)
     in sc\<lparr>sc_lun := lun\<rparr>)"

subsection \<open>Reading what was written\<close>

lemma make64_bytes: "make64 (byte_of w 0) (byte_of w 1) (byte_of w 2) (byte_of w 3) (byte_of w 4)
    (byte_of w 5) (byte_of w 6) (byte_of w 7) = w" for w :: u64
proof (rule bit_word_eqI)
  fix n assume "n < LENGTH(64)"
  then have "n < 64" by simp
  then show "bit (make64 (byte_of w 0) (byte_of w 1) (byte_of w 2) (byte_of w 3) (byte_of w 4)
      (byte_of w 5) (byte_of w 6) (byte_of w 7)) n = bit w n"
    by (cases rule: word64_cases) (auto simp: bit_make64 bit_byte_of)
qed

lemma bswap_bswap [wire]: "bswap_64 (bswap_64 w) = w"
  using make64_bytes [of w] by (subst bswap_64_def) (simp add: wire)

lemma load64_store64 [wire]: "k + 7 < length h \<Longrightarrow> load64 (store64 h k w) k = w"
  using make64_bytes [of w] by (simp add: load64_def wire)

lemma load64_store32 [wire]:
  "k + 3 < j \<or> j + 7 < k \<Longrightarrow> k + 3 < length h \<Longrightarrow> load64 (store32 h k w) j = load64 h j"
  by (auto simp: load64_def nth_store32)

lemma load64_other [wire]:
  "k + 7 < j \<or> j + 7 < k \<Longrightarrow> k + 7 < length h \<Longrightarrow> load64 (store64 h k w) j = load64 h j"
  by (auto simp: load64_def nth_store64)

lemma load16_store64 [wire]:
  "k + 7 < j \<or> j + 1 < k \<Longrightarrow> k + 7 < length h \<Longrightarrow> load16 (store64 h k w) j = load16 h j"
  by (auto simp: load16_def nth_store64)

lemma length_OSD_ENCAP_CDB [simp]: "length (OSD_ENCAP_CDB a cdb) = length cdb"
  by (simp add: OSD_ENCAP_CDB_def Let_def wire)

text \<open>The second half of the block, seen from its start, and any copy of its first 60 bytes.\<close>

lemma load_drop:
  "load32 (drop k h) j = load32 h (k + j)" "load64 (drop k h) j = load64 h (k + j)"
  if "k \<le> length h" for h :: header
  using that by (simp_all add: load32_def load64_def add.assoc)

lemma OSD_DECAP_cong:
  assumes "\<And>j. j < 16 \<Longrightarrow> cdb ! j = cdb' ! j" "\<And>j. j < 60 \<Longrightarrow> ext ! j = ext' ! j"
  shows "OSD_DECAP_CDB cdb ext = OSD_DECAP_CDB cdb' ext'"
  unfolding OSD_DECAP_CDB_def load16_def load32_def load64_def by (simp add: assms)

lemma OSD_DECAP_ENCAP:
  assumes "length cdb = CONFIG_OSD_CDB_LEN"
  shows "OSD_DECAP_CDB (OSD_ENCAP_CDB a cdb) (drop 16 (OSD_ENCAP_CDB a cdb)) = a"
  using assms
  by (simp add: OSD_DECAP_CDB_def load_drop CONFIG_OSD_CDB_LEN_def)
    (simp add: OSD_ENCAP_CDB_def Let_def wire)

end
