(* ===== verification/Osd_Device.thy ===== *)
theory Osd_Device
  imports Disk_Device Osd_Codec
begin

section \<open>The object-based storage device\<close>

text \<open>
  The functions of \<^verbatim>\<open>osd.c\<close> that the target calls, and the worker of a logical unit.  As for the
  disk, they work on the session of the command, of which the device's state is a part.  Parameters
  are what the system decides: the addresses that \<^verbatim>\<open>iscsi_malloc_atomic\<close> and the stack give, the results of
  \<^verbatim>\<open>rand()\<close>, whether a call of the file system on a name is allowed, the results of \<^verbatim>\<open>write\<close> and the success of
  \<^verbatim>\<open>read\<close>, whether the shell can run \<^verbatim>\<open>rm\<close>, and whether the program that samples the counters of the
  system succeeds.
\<close>

record osd_env = device_env +
  o_stack :: ptr
  o_malloc :: "int \<Rightarrow> target_session \<Rightarrow> ptr"
  o_rand :: "nat \<Rightarrow> nat"
  o_allow :: "string \<Rightarrow> target_session \<Rightarrow> bool"
  o_written :: "string \<Rightarrow> nat \<Rightarrow> target_session \<Rightarrow> int"
  o_read_ok :: "string \<Rightarrow> target_session \<Rightarrow> bool"
  o_shell_ok :: "string \<Rightarrow> target_session \<Rightarrow> bool"
  o_sample_ok :: "target_session \<Rightarrow> bool"
  o_lun_stopping :: "nat \<Rightarrow> target_session \<Rightarrow> bool"

definition MEM_HEAP :: nat where "MEM_HEAP = 2"
definition CONFIG_OSD_MAX_LUNS :: nat where "CONFIG_OSD_MAX_LUNS = 8"
definition CONFIG_LUN_SIZE :: u32 where "CONFIG_LUN_SIZE = 2047 * 1048576"

text \<open>The array of statistics has an entry for each of the possible units.\<close>

definition lun_stats_ok :: "u64 \<Rightarrow> bool" where
  "lun_stats_ok lun \<longleftrightarrow> unat lun < CONFIG_OSD_MAX_LUNS"

subsection \<open>Completion\<close>

fun known_types :: "(nat \<Rightarrow> nat) \<Rightarrow> nat \<Rightarrow> iovec list \<Rightarrow> bool" where
  "known_types types i [] \<longleftrightarrow> True"
| "known_types types i (v # vs) \<longleftrightarrow> types i \<in> {MEM_STACK, MEM_HEAP, MEM_MAPPED} \<and> known_types types (i + 1) vs"

definition osd_command_done :: "'e osd_env_scheme \<Rightarrow> ptr \<Rightarrow> target_session \<Rightarrow> outcome" where
  "osd_command_done env p s =
    (case device_command_done env p s of
       Return rc s \<Rightarrow>
         if rc \<noteq> 0 then Return (-1) s
         else
           let c = t_cmd_mem s p
           in if \<not> known_types (tg_scatter_type c) 0 (tg_scatter c) \<or>
                \<not> known_types (tg_gather_type c) 0 (tg_gather c)
              then Exits s
              else if sc_cdb (tg_scsi c) ! 0 = 0x26 then Exits s
              else Return 0 s
     | r \<Rightarrow> r)"

subsection \<open>Services\<close>

definition next_rand :: "'e osd_env_scheme \<Rightarrow> target_session \<Rightarrow> nat \<times> target_session" where
  "next_rand env s =
    (let d = t_osd s
     in (o_rand env (o_rands d) mod 1048576 * 1024 + 1, s\<lparr>t_osd := d\<lparr>o_rands := o_rands d + 1\<rparr>\<rparr>))"

text \<open>The jump to \<^verbatim>\<open>create_group_again\<close>; the first result is the group, or \<open>None\<close> if \<^verbatim>\<open>mkdir\<close> fails.\<close>

partial_function (option) create_group_loop ::
  "'e osd_env_scheme \<Rightarrow> u64 \<Rightarrow> osd_args_t \<Rightarrow> u32 \<Rightarrow> target_session \<Rightarrow> (u32 option \<times> target_session) option" where
  [code]: "create_group_loop env lun a gid s =
    (let base = o_base (t_osd s); dir = group_path base lun gid
     in case fs_mkdir (o_allow env dir s) (lun_path base lun) dir (t_osd s) of
          Done d \<Rightarrow> Some (Some gid, s\<lparr>t_osd := d\<rparr>)
        | Exists \<Rightarrow>
            if oa_GroupID a = 0
            then case next_rand env s of (r, s) \<Rightarrow> create_group_loop env lun a (of_nat r) s
            else Some (Some gid, s)
        | Refused \<Rightarrow> Some (None, s))"

definition create_object ::
  "'e osd_env_scheme \<Rightarrow> bool \<Rightarrow> u64 \<Rightarrow> u32 \<Rightarrow> string \<Rightarrow> target_session \<Rightarrow> (target_session \<Rightarrow> outcome) \<Rightarrow> outcome" where
  "create_object env trunc lun gid f s k =
    (case fs_create (o_allow env f s) trunc (group_path (o_base (t_osd s)) lun gid) f (t_osd s) of
       Done d \<Rightarrow> k (s\<lparr>t_osd := d\<rparr>)
     | _ \<Rightarrow> Exits s)"

definition osd_write_object ::
  "'e osd_env_scheme \<Rightarrow> u64 \<Rightarrow> osd_args_t \<Rightarrow> byte list \<Rightarrow> target_session \<Rightarrow>
   (target_session \<Rightarrow> outcome) \<Rightarrow> outcome" where
  "osd_write_object env lun a buf s k =
    (let f = object_path (o_base (t_osd s)) lun (oa_GroupID a) (oa_UserID a);
         n = unat (oa_length a)
     in create_object env False lun (oa_GroupID a) f s (\<lambda>s.
          if 2 ^ 63 \<le> unat (oa_offset a) then Exits s
          else if length buf < n then Undef
          else
            let rc = o_written env f n s;
                s = s\<lparr>t_osd := fs_write f (unat (oa_offset a)) (take (nat rc) (take n buf)) (t_osd s)\<rparr>
            in if rc \<noteq> int n \<or> 2 ^ 31 \<le> n then Exits s
               else if \<not> lun_stats_ok lun then Undef
               else k s))"

definition osd_read_object ::
  "'e osd_env_scheme \<Rightarrow> ptr \<Rightarrow> osd_args_t \<Rightarrow> target_session \<Rightarrow> (target_session \<Rightarrow> outcome) \<Rightarrow> outcome" where
  "osd_read_object env p a s k =
    (let lun = sc_lun (scsi_of s p);
         f = object_path (o_base (t_osd s)) lun (oa_GroupID a) (oa_UserID a);
         n = unat (oa_length a);
         addr = o_malloc env (sint (ucast (oa_length a) :: u32)) s
     in if addr = NULL then Exits s
        else
          let s = upd_cmd p (\<lambda>c. c\<lparr>tg_gather_type := (tg_gather_type c)(0 := MEM_HEAP)\<rparr>) s
          in create_object env False lun (oa_GroupID a) f s (\<lambda>s.
            if 2 ^ 63 \<le> unat (oa_offset a) then Exits s
            else if \<not> o_read_ok env f s \<or> 2 ^ 31 \<le> n then Undef
            else
              let bytes = fs_read f (unat (oa_offset a)) n (t_osd s);
                  bytes = bytes @ replicate (n - length bytes) 0;
                  s = s\<lparr>t_mem := put_mem [addr..<addr + n] bytes (t_mem s)\<rparr>;
                  s = upd_cmd p (\<lambda>c. c\<lparr>tg_gather := [\<lparr>iov_base = addr, iov_len = n\<rparr>],
                        tg_scsi := (tg_scsi c)\<lparr>sc_status := 0, sc_fromdev := 1\<rparr>\<rparr>) s
              in if \<not> lun_stats_ok lun then Undef else k s))"

text \<open>
  The switch over the service action; \<open>k\<close> gets the arguments (with the object that was created) and the
  values of the variables \<^verbatim>\<open>GroupID\<close> and \<^verbatim>\<open>UserID\<close>.  \<open>buf\<close> is where the data of a write is.
\<close>

definition osd_service ::
  "'e osd_env_scheme \<Rightarrow> ptr \<Rightarrow> osd_args_t \<Rightarrow> byte list \<Rightarrow> target_session \<Rightarrow>
   (osd_args_t \<Rightarrow> u32 \<Rightarrow> u64 \<Rightarrow> target_session \<Rightarrow> outcome) \<Rightarrow> outcome" where
  "osd_service env p a buf s k =
    (let lun = sc_lun (scsi_of s p);
         base = o_base (t_osd s);
         op = oa_service_action a;
         gid = oa_GroupID a
     in if op = OSD_CREATE_GROUP then
          case (if gid = 0 then (case next_rand env s of (r, s) \<Rightarrow> (of_nat r, s)) else (gid, s)) of
            (g, s) \<Rightarrow>
              case create_group_loop env lun a g s of
                None \<Rightarrow> Diverges
              | Some (None, s) \<Rightarrow> Exits s
              | Some (Some g, s) \<Rightarrow> k a g 0 s
        else if op = OSD_REMOVE_GROUP then
          let dir = group_path base lun gid
          in case fs_rmdir (o_allow env dir s) dir (t_osd s) of
               Done d \<Rightarrow> k a 0 0 (s\<lparr>t_osd := d\<rparr>)
             | _ \<Rightarrow> Exits s
        else if op = OSD_CREATE then
          case (if oa_UserID a = 0 then (case next_rand env s of (r, s) \<Rightarrow> (of_nat r, s)) else (oa_UserID a, s)) of
            (u, s) \<Rightarrow> create_object env True lun gid (object_path base lun gid u) s (k (a\<lparr>oa_UserID := u\<rparr>) 0 u)
        else if op = OSD_REMOVE then
          let f = object_path base lun gid (oa_UserID a)
          in if \<not> o_shell_ok env f s then Exits s
             else k a 0 0 (upd_scsi p (\<lambda>sc. sc\<lparr>sc_status := 0\<rparr>) (s\<lparr>t_osd := fs_remove_matching f (t_osd s)\<rparr>))
        else if op = OSD_WRITE then osd_write_object env lun a buf s (k a 0 0)
        else if op = OSD_READ then osd_read_object env p a s (k a 0 0)
        else if op = OSD_GET_ATTR \<or> op = OSD_SET_ATTR then k a 0 0 s
        else Exits s)"

subsection \<open>Attributes\<close>

text \<open>The loop over the list of attributes to set, which starts at the begin of \<open>buf\<close>.\<close>

function set_attrs ::
  "'e osd_env_scheme \<Rightarrow> u64 \<Rightarrow> osd_args_t \<Rightarrow> byte list \<Rightarrow> nat \<Rightarrow> target_session \<Rightarrow>
   (target_session \<Rightarrow> outcome) \<Rightarrow> outcome" where
  "set_attrs env lun a buf i s k =
    (if unat (oa_set_attributes_list_length a) \<le> i then k s
     else if length buf < i + 10 then Undef
     else
       let page = ntohl (load32 buf i);
           attr = ntohl (load32 buf (i + 4));
           len = unat (ntohs (load16 buf (i + 8)));
           base = o_base (t_osd s);
           f = attr_path base lun (oa_GroupID a) (oa_UserID a) page attr
       in create_object env False lun (oa_GroupID a) f s (\<lambda>s.
            if length buf < i + 10 + len then Undef
            else
              let rc = o_written env f len s;
                  s = s\<lparr>t_osd := fs_write f 0 (take (nat rc) (take len (drop (i + 10) buf))) (t_osd s)\<rparr>
              in if rc \<noteq> int len then Exits s else set_attrs env lun a buf (i + 10 + len) s k))"
  by pat_completeness auto
termination
  by (relation "measure (\<lambda>(env, lun, a, buf, i, s, k). unat (oa_set_attributes_list_length a) - i)") auto

text \<open>
  One attribute for the reply: its page, index, length and value.  \<open>out\<close> is what \<^verbatim>\<open>get_data\<close> holds
  so far, in a buffer of \<^verbatim>\<open>get_attributes_allocation_length\<close> bytes.
\<close>

definition attr_known :: "u32 \<Rightarrow> u32 \<Rightarrow> bool" where
  "attr_known page index \<longleftrightarrow> (page, index) \<in> {(0x40000001, 1), (1, 1), (1, 2), (0x30000000, 1)}"

definition attr_header :: "u32 \<Rightarrow> u32 \<Rightarrow> u16 \<Rightarrow> byte list" where
  "attr_header page index len =
     store16 (store32 (store32 (replicate 10 0) 0 (htonl page)) 4 (htonl index)) 8 (htons len)"

definition attr_value ::
  "'e osd_env_scheme \<Rightarrow> u64 \<Rightarrow> osd_args_t \<Rightarrow> u32 \<Rightarrow> u64 \<Rightarrow> u32 \<Rightarrow> u32 \<Rightarrow> target_session \<Rightarrow> byte list option" where
  "attr_value env lun a gid uid page index s =
    (if page = 0x30000000 then
       let f = attr_path (o_base (t_osd s)) lun (oa_GroupID a) (oa_UserID a) page index;
           bytes = fs_read f 0 INODE_LEN (t_osd s)
       in if osd_file (t_osd s) f = None \<or> \<not> o_allow env f s \<or> \<not> o_read_ok env f s \<or> length bytes \<noteq> INODE_LEN
          then None else Some bytes
     else if page = 1 \<and> index = 2 then Some (store64 (replicate 8 0) 0 (bswap_64 uid))
     else Some (store32 (replicate 4 0) 0 (htonl gid)))"

definition add_attr ::
  "'e osd_env_scheme \<Rightarrow> u64 \<Rightarrow> osd_args_t \<Rightarrow> u32 \<Rightarrow> u64 \<Rightarrow> u32 \<Rightarrow> u32 \<Rightarrow> byte list \<Rightarrow> target_session \<Rightarrow>
   (byte list \<Rightarrow> outcome) \<Rightarrow> outcome" where
  "add_attr env lun a gid uid page index out s k =
    (let room = unat (oa_get_attributes_allocation_length a)
     in if \<not> attr_known page index then Exits s
        else if room < length out + 10 then Undef
        else case attr_value env lun a gid uid page index s of
          None \<Rightarrow> Exits s
        | Some v \<Rightarrow>
            if room < length out + 10 + length v then Undef
            else k (out @ attr_header page index (of_nat (length v)) @ v))"

function get_attrs ::
  "'e osd_env_scheme \<Rightarrow> u64 \<Rightarrow> osd_args_t \<Rightarrow> u32 \<Rightarrow> u64 \<Rightarrow> byte list \<Rightarrow> nat \<Rightarrow> byte list \<Rightarrow> target_session \<Rightarrow>
   (byte list \<Rightarrow> outcome) \<Rightarrow> outcome" where
  "get_attrs env lun a gid uid buf i out s k =
    (if unat (oa_get_attributes_list_length a) \<le> i then k out
     else if length buf < i + 8 then Undef
     else add_attr env lun a gid uid (ntohl (load32 buf i)) (ntohl (load32 buf (i + 4))) out s (\<lambda>out.
            get_attrs env lun a gid uid buf (i + 8) out s k))"
  by pat_completeness auto
termination
  by (relation "measure (\<lambda>(env, lun, a, gid, uid, buf, i, out, s, k). unat (oa_get_attributes_list_length a) - i)") auto

declare set_attrs.simps [simp del] get_attrs.simps [simp del]

text \<open>A request for a whole page gets one attribute.\<close>

definition page_index :: "u32 \<Rightarrow> u32" where
  "page_index page = (if page = 1 then 2 else 1)"

definition get_page ::
  "'e osd_env_scheme \<Rightarrow> u64 \<Rightarrow> osd_args_t \<Rightarrow> u32 \<Rightarrow> u64 \<Rightarrow> byte list \<Rightarrow> target_session \<Rightarrow>
   (byte list \<Rightarrow> outcome) \<Rightarrow> outcome" where
  "get_page env lun a gid uid out s k =
    (let page = oa_get_attributes_page a
     in if page = 0 then k out else add_attr env lun a gid uid page (page_index page) out s k)"

subsection \<open>Execution\<close>

text \<open>The attributes, if any, follow the data in the gather list.\<close>

definition reply_attrs :: "'e osd_env_scheme \<Rightarrow> ptr \<Rightarrow> osd_args_t \<Rightarrow> ptr \<Rightarrow> byte list \<Rightarrow> target_session \<Rightarrow> outcome" where
  "reply_attrs env p a addr out s =
    (let n = length out;
         finish = (\<lambda>s. osd_command_done env p (upd_scsi p (\<lambda>sc. sc\<lparr>sc_status := 0\<rparr>) s));
         done_ok = (\<lambda>s. case finish s of Return rc s \<Rightarrow> if rc \<noteq> 0 then Return (-1) s else Return 0 s | r \<Rightarrow> r)
     in if n = 0 then done_ok s
        else if n \<noteq> unat (oa_get_attributes_allocation_length a) then Exits s
        else done_ok (upd_cmd p (\<lambda>c. c
               \<lparr>tg_scsi := (tg_scsi c)\<lparr>sc_fromdev := 1\<rparr>,
                tg_gather_type := (tg_gather_type c)(length (tg_gather c) := MEM_HEAP),
                tg_gather := tg_gather c @ [\<lparr>iov_base = addr, iov_len = n\<rparr>]\<rparr>)
               (s\<lparr>t_mem := put_mem [addr..<addr + n] out (t_mem s)\<rparr>)))"

text \<open>What follows the service: attributes are set, attributes are collected, and the answer goes out.\<close>

definition exec_attributes ::
  "'e osd_env_scheme \<Rightarrow> ptr \<Rightarrow> u64 \<Rightarrow> byte list \<Rightarrow> osd_args_t \<Rightarrow> u32 \<Rightarrow> u64 \<Rightarrow> target_session \<Rightarrow> outcome" where
  "exec_attributes env p lun buf a gid uid s =
    (let set_len = unat (oa_set_attributes_list_length a);
         get_len = unat (oa_get_attributes_list_length a);
         wants = (get_len \<noteq> 0 \<or> oa_get_attributes_page a \<noteq> 0)
     in set_attrs env lun a buf 0 s (\<lambda>s.
          let addr = (if wants then o_malloc env (sint (oa_get_attributes_allocation_length a)) s else NULL)
          in if wants \<and> addr = NULL then Exits s
             else get_attrs env lun a gid uid (drop set_len buf) 0 [] s (\<lambda>out.
               get_page env lun a gid uid out s (\<lambda>out. reply_attrs env p a addr out s))))"

text \<open>The lists of attributes and then the data of a write lie one after the other in the buffer.\<close>

definition exec_upper :: "'e osd_env_scheme \<Rightarrow> ptr \<Rightarrow> target_session \<Rightarrow> outcome" where
  "exec_upper env p s =
    (let sc = scsi_of s p; lun = sc_lun sc;
         buf = (case tg_scatter (t_cmd_mem s p) of [] \<Rightarrow> [] | v # vs \<Rightarrow> map (t_mem s) (iov_addrs v))
     in case sc_ext_cdb sc of
          None \<Rightarrow> Return (-1) s
        | Some x \<Rightarrow>
            if length (sc_ahs sc) < x + 60 then Undef
            else
              let a = OSD_DECAP_CDB (sc_cdb sc) (drop x (sc_ahs sc));
                  lists = unat (oa_set_attributes_list_length a) + unat (oa_get_attributes_list_length a)
              in osd_service env p a (drop lists buf) s (exec_attributes env p lun buf))"

definition exec_lower :: "'e osd_env_scheme \<Rightarrow> ptr \<Rightarrow> target_session \<Rightarrow> outcome" where
  "exec_lower env p s =
    (let c = t_cmd_mem s p; sc = tg_scsi c; n = unat (sc_length sc);
         transfer = (\<lambda>s.
           let sc = scsi_of s p
           in if sc_todev sc \<noteq> 0 \<and> sc_trans_len sc - sc_bytes_todev sc \<noteq> 0 then
                case target_transfer_data env p s of
                  Return rc s \<Rightarrow> if rc \<noteq> 0 then Return (-1) s else Return 0 s
                | r \<Rightarrow> r
              else
                case exec_upper env p s of
                  Return rc s \<Rightarrow> if rc \<noteq> 0 then Exits s else Return 0 s
                | r \<Rightarrow> r)
     in if sc_todev sc = 0 then transfer s
        else
          let addr = o_malloc env (sint (sc_trans_len sc)) s
          in if addr = NULL then Return (-1) s
             else if unat (sc_trans_len sc) < n \<or> CONFIG_TARGET_MAX_IMMEDIATE < n then Undef
             else transfer (upd_cmd p (\<lambda>c. c
                    \<lparr>tg_scsi := (tg_scsi c)\<lparr>sc_bytes_todev := sc_length (tg_scsi c)\<rparr>,
                     tg_scatter := [\<lparr>iov_base = addr, iov_len = unat (sc_trans_len sc)\<rparr>],
                     tg_scatter_type := (tg_scatter_type c)(0 := MEM_HEAP)\<rparr>)
                    (s\<lparr>t_mem := put_mem [addr..<addr + n] (immediate_bytes c n) (t_mem s)\<rparr>)))"

subsection \<open>Commands\<close>

text \<open>
  \<^verbatim>\<open>read_counters\<close> of \<^verbatim>\<open>target.c\<close>, with the array \<^verbatim>\<open>data\<close> of the command.  After the counters of the system it
  prints those of the device, two of them multiplied by \<^verbatim>\<open>g_disk_block_len[BASE_DEVICE_ID]\<close>: this
  device declares the array with one element, and \<^verbatim>\<open>BASE_DEVICE_ID\<close> is 1.
\<close>

definition read_counters :: "'e osd_env_scheme \<Rightarrow> target_session \<Rightarrow> unit option" where
  "read_counters env s = (if o_sample_ok env s then None else Some ())"

definition osd_stack_data :: "'e osd_env_scheme \<Rightarrow> target_session \<Rightarrow> byte list" where
  "osd_stack_data env s = map (t_mem s) [o_stack env..<o_stack env + DATA_LEN]"

definition osd_set_data :: "'e osd_env_scheme \<Rightarrow> byte list \<Rightarrow> target_session \<Rightarrow> target_session" where
  "osd_set_data env data s = s\<lparr>t_mem := put_mem [o_stack env..<o_stack env + DATA_LEN] data (t_mem s)\<rparr>"

definition osd_finish_command :: "'e osd_env_scheme \<Rightarrow> ptr \<Rightarrow> target_session \<Rightarrow> outcome" where
  "osd_finish_command env p s =
    (let sc = scsi_of s p; n = unat (sc_length sc)
     in if sc_fromdev sc \<noteq> 0 \<and> sc_length sc \<noteq> 0 then
          if DATA_LEN < n then Undef
          else osd_command_done env p (upd_cmd p (\<lambda>c. c
            \<lparr>tg_gather := [\<lparr>iov_base = o_stack env, iov_len = n\<rparr>],
             tg_gather_type := (tg_gather_type c)(0 := MEM_STACK)\<rparr>) s)
        else osd_command_done env p s)"

definition osd_inquiry_data :: "byte list \<Rightarrow> byte list \<Rightarrow> byte list" where
  "osd_inquiry_data cdb data =
    (let data = memcpy data 0 (replicate (unat (cdb ! 4)) 0);
         data = data[0 := 0x0e];
         data = data[2 := data ! 2 OR 0x02];
         data = data[4 := cdb ! 4 - 4];
         data = data[7 := data ! 7 OR 0x40];
         data = data[7 := data ! 7 OR 0x20];
         data = data[7 := data ! 7 OR 0x02];
         data = memcpy data 8 (string_bytes ''Intel'' @ [0]);
         data = memcpy data 16 (string_bytes ''iSCSI OSD'' @ [0])
     in memcpy data 32 (string_bytes ''0'' @ [0]))"

definition osd_capacity_data :: "byte list \<Rightarrow> byte list" where
  "osd_capacity_data data = store32 (store32 data 0 (htonl (CONFIG_LUN_SIZE div 512))) 4 (htonl 512)"

text \<open>As in the disk, the number of the unit is cut to one byte here.\<close>

definition osd_device_command :: "'e osd_env_scheme \<Rightarrow> ptr \<Rightarrow> target_session \<Rightarrow> outcome" where
  "osd_device_command env p s =
    (let sc = scsi_of s p;
         cdb = sc_cdb sc;
         op = cdb ! 0;
         lun8 = (ucast (sc_lun sc) :: byte);
         data = osd_stack_data env s;
         answer = (\<lambda>data len s. osd_finish_command env p
           (upd_scsi p (\<lambda>sc. sc\<lparr>sc_fromdev := 1\<rparr>) (set_scsi_status p 0 len (osd_set_data env data s))));
         status = (\<lambda>st. upd_scsi p (\<lambda>sc. sc\<lparr>sc_status := st\<rparr>));
         good = (\<lambda>s. osd_finish_command env p (set_scsi_status p 0 0 s))
     in if ucast lun8 \<ge> o_num_luns (t_osd s) \<and> op = INQUIRY then answer (no_device_data cdb data) (sc_trans_len sc) s
        else if ucast lun8 \<ge> o_num_luns (t_osd s)
        then osd_finish_command env p (upd_scsi p (\<lambda>sc. sc\<lparr>sc_fromdev := 0\<rparr>) (set_scsi_status p 2 0 s))
        else if op = TEST_UNIT_READY then if sc_trans_len sc \<noteq> 0 then Exits (status 0 s) else good s
        else if op = INQUIRY then answer (osd_inquiry_data cdb data) (sc_trans_len sc) s
        else if op = READ_CAPACITY then answer (osd_capacity_data data) 8 s
        else if op = 0x7f then
          case exec_lower env p (status 0 s) of
            Return rc s \<Rightarrow> if rc \<noteq> 0 then osd_finish_command env p (status 2 s) else Return 0 s
          | r \<Rightarrow> r
        else if op = 0x03 then good s
        else if op = 0x24 then
          case read_counters env s of
            Some _ \<Rightarrow> osd_finish_command env p (status 2 (osd_set_data env (replicate DATA_LEN 0) s))
          | None \<Rightarrow> Undef
        else if op = 0x26 then good s
        else osd_finish_command env p (set_scsi_status p 2 0 s))"

subsection \<open>Queueing\<close>

definition osd_device_enqueue :: "'e osd_env_scheme \<Rightarrow> ptr \<Rightarrow> target_session \<Rightarrow> outcome" where
  "osd_device_enqueue env p s =
    (let lun = sc_lun (scsi_of s p); d = t_osd s
     in if lun \<ge> ucast (o_num_luns d) then osd_device_command env p s
        else case iscsi_queue_insert (o_queue d ! unat lun) p of
          (rc, q) \<Rightarrow>
            if rc \<noteq> 0 then Return (-1) s
            else Return 0 (s\<lparr>t_osd := d\<lparr>o_queue := (o_queue d)[unat lun := q]\<rparr>\<rparr>))"

text \<open>A length of 0 tells that all data is there.\<close>

definition osd_device_place_data ::
  "'e osd_env_scheme \<Rightarrow> ptr \<Rightarrow> u32 \<Rightarrow> u32 \<Rightarrow> target_session \<Rightarrow> outcome" where
  "osd_device_place_data env p off len s =
    (if len = 0 then exec_upper env p s
     else
       let scatter = tg_scatter (t_cmd_mem s p)
       in case modify_iov scatter 0 (length scatter) (unat off) (unat len) of
         (rc, arr, i, n) \<Rightarrow>
           let vs = take n (drop i arr)
           in if rc \<noteq> 0 then Return (-1) s
              else if (\<exists>v\<in>set vs. iov_base v = NULL) \<or> iovs_len vs \<noteq> unat len then Return (-1) s
              else case sock_recv (unat len) s of
                (None, s) \<Rightarrow> Return (-1) s
              | (Some bytes, s) \<Rightarrow>
                  Return (sint len) (s\<lparr>t_mem := put_mem (iovs_addrs vs) bytes (t_mem s)\<rparr>))"

subsection \<open>The worker of a logical unit\<close>

definition osd_worker_step :: "'e osd_env_scheme \<Rightarrow> nat \<Rightarrow> target_session \<Rightarrow> outcome" where
  "osd_worker_step env lun s =
    (case iscsi_queue_remove (o_queue (t_osd s) ! lun) of
       (p, q) \<Rightarrow>
         let s = s\<lparr>t_osd := (t_osd s)\<lparr>o_queue := (o_queue (t_osd s))[lun := q]\<rparr>\<rparr>
         in if p = NULL then Return (-1) s else osd_device_command env p s)"

partial_function (option) osd_worker_loop ::
  "'e osd_env_scheme \<Rightarrow> nat \<Rightarrow> target_session \<Rightarrow> outcome option" where
  [code]: "osd_worker_loop env lun s =
    (if o_lun_stopping env lun s then Some (Return 0 s)
     else if iscsi_queue_depth (o_queue (t_osd s) ! lun) = 0 then Some (Blocks s)
     else case osd_worker_step env lun s of
       Return rc s \<Rightarrow> if rc \<noteq> 0 then Some (Return (-1) s) else osd_worker_loop env lun s
     | r \<Rightarrow> Some r)"

definition with_osd :: "'e osd_env_scheme \<Rightarrow> 'e osd_env_scheme" where
  "with_osd env = env\<lparr>e_enqueue := osd_device_enqueue env, e_place_data := osd_device_place_data env\<rparr>"

end
