(* ===== verification/Osd_Store.thy ===== *)
theory Osd_Store
  imports Osd_State
begin

section \<open>Objects as a map\<close>

text \<open>
  What the files of the device stand for: a map from unit, group and object to bytes, and one from
  these and a page and an index to the value of an attribute.  The names of the files are shown to
  tell all of them apart, so that a call of the file system on one file changes one entry.
\<close>

subsection \<open>Names tell objects apart\<close>

definition hex_val :: "char \<Rightarrow> nat" where
  "hex_val c = (if is_digit c then digit_val c else of_char c - 87)"

definition hex_digits_val :: "string \<Rightarrow> nat" where
  "hex_digits_val s = foldl (\<lambda>v c. 16 * v + hex_val c) 0 s"

definition special :: "char \<Rightarrow> bool" where
  "special c \<longleftrightarrow> c = CHR ''/'' \<or> c = CHR ''.''"

lemma hex_digit_facts: "n < 16 \<Longrightarrow> hex_val (hex_digit n) = n" "n < 16 \<Longrightarrow> \<not> special (hex_digit n)"
proof -
  assume n: "n < 16"
  have code: "(of_char (hex_digit n) :: nat) = (if n < 10 then 48 + n else 87 + n)" using n by (simp add: hex_digit_def)
  show "hex_val (hex_digit n) = n"
    using n code by (auto simp: hex_val_def is_digit_def digit_val_def)
  have "(of_char (hex_digit n) :: nat) \<noteq> of_char (CHR ''/'')" "(of_char (hex_digit n) :: nat) \<noteq> of_char (CHR ''.'')"
    using n unfolding code by auto
  then show "\<not> special (hex_digit n)" by (auto simp: special_def)
qed

lemma hex_digits_val_nat_hex: "hex_digits_val (nat_hex n) = n"
proof (induction n rule: nat_hex.induct)
  case (1 n)
  show ?case
  proof (cases "n < 16")
    case True
    then show ?thesis by (subst nat_hex.simps) (simp add: hex_digits_val_def hex_digit_facts)
  next
    case False
    then show ?thesis using 1 by (subst nat_hex.simps) (simp add: hex_digits_val_def hex_digit_facts)
  qed
qed

lemma nat_hex_inj [simp]: "nat_hex m = nat_hex n \<longleftrightarrow> m = n"
  by (metis hex_digits_val_nat_hex)

lemma nat_dec_inj [simp]: "nat_dec m = nat_dec n \<longleftrightarrow> m = n"
  by (metis digits_val_nat_dec)

lemma nat_hex_plain: "\<forall>c\<in>set (nat_hex n). \<not> special c"
proof (induction n rule: nat_hex.induct)
  case (1 n)
  then show ?case by (subst nat_hex.simps) (auto simp: hex_digit_facts)
qed

lemma nat_dec_plain: "\<forall>c\<in>set (nat_dec n). \<not> special c"
  using nat_dec_digits [of n] by (auto simp: is_digit_def special_def)

lemma split_at:
  assumes "c \<notin> set xs" "c \<notin> set xs'"
  shows "xs @ c # ys = xs' @ c # ys' \<longleftrightarrow> xs = xs' \<and> ys = ys'"
  using assms
proof (induction xs arbitrary: xs')
  case Nil
  then show ?case by (cases xs') auto
next
  case (Cons x xs)
  then show ?case by (cases xs') auto
qed

lemma no_slash [simp]: "CHR ''/'' \<notin> set (nat_hex n)" "CHR ''/'' \<notin> set (nat_dec n)"
    "CHR ''.'' \<notin> set (nat_hex n)" "CHR ''.'' \<notin> set (nat_dec n)"
  using nat_hex_plain [of n] nat_dec_plain [of n] by (auto simp: special_def)

lemma object_path_inj [simp]:
  "object_path b l g u = object_path b l' g' u' \<longleftrightarrow> l = l' \<and> g = g' \<and> u = u'"
  by (auto simp: object_path_def group_path_def lun_path_def split_at word_unat_eq_iff)

lemma attr_path_inj [simp]:
  "attr_path b l g u i j = attr_path b l' g' u' i' j' \<longleftrightarrow> l = l' \<and> g = g' \<and> u = u' \<and> i = i' \<and> j = j'"
  by (auto simp: attr_path_def object_path_def group_path_def lun_path_def split_at word_unat_eq_iff)

lemma object_path_not_attr [simp]: "object_path b l g u \<noteq> attr_path b l' g' u' i j"
    "attr_path b l' g' u' i j \<noteq> object_path b l g u"
proof -
  have "nat_hex m \<noteq> nat_hex n @ CHR ''.'' # ys" for m n ys
  proof
    assume "nat_hex m = nat_hex n @ CHR ''.'' # ys"
    then have "CHR ''.'' \<in> set (nat_hex m)" by simp
    then show False by simp
  qed
  then have "object_path b l g u \<noteq> attr_path b l' g' u' i j"
    by (auto simp: attr_path_def object_path_def group_path_def lun_path_def split_at)
  then show "object_path b l g u \<noteq> attr_path b l' g' u' i j" "attr_path b l' g' u' i j \<noteq> object_path b l g u"
    by simp_all
qed

subsection \<open>The objects of a device\<close>

definition objects :: "osd \<Rightarrow> u64 \<times> u32 \<times> u64 \<Rightarrow> byte list option" where
  "objects d = (\<lambda>(l, g, u). osd_file d (object_path (o_base d) l g u))"

definition attributes :: "osd \<Rightarrow> (u64 \<times> u32 \<times> u64) \<times> u32 \<times> u32 \<Rightarrow> byte list option" where
  "attributes d = (\<lambda>((l, g, u), i, j). osd_file d (attr_path (o_base d) l g u i j))"

lemma objects_upd:
  assumes "osd_file d' = (osd_file d)(object_path (o_base d) l g u := v)" "o_base d' = o_base d"
  shows "objects d' = (objects d)((l, g, u) := v)" "attributes d' = attributes d"
  using assms by (auto simp: objects_def attributes_def fun_eq_iff)

lemma attributes_upd:
  assumes "osd_file d' = (osd_file d)(attr_path (o_base d) l g u i j := v)" "o_base d' = o_base d"
  shows "attributes d' = (attributes d)(((l, g, u), i, j) := v)" "objects d' = objects d"
  using assms by (auto simp: objects_def attributes_def fun_eq_iff)

text \<open>The calls of the file system.\<close>

definition old_bytes :: "byte list option \<Rightarrow> byte list" where
  "old_bytes v = (case v of None \<Rightarrow> [] | Some bs \<Rightarrow> bs)"

definition can_create :: "string \<Rightarrow> string \<Rightarrow> osd \<Rightarrow> bool" where
  "can_create parent f d \<longleftrightarrow> parent \<in> set (o_dirs d) \<and> f \<notin> set (o_dirs d)"

lemma fs_create_done:
  assumes "can_create parent f d"
  shows "\<exists>d'. fs_create True trunc parent f d = Done d' \<and>
    osd_file d' = (osd_file d)(f \<mapsto> if trunc then [] else old_bytes (osd_file d f)) \<and>
    o_base d' = o_base d \<and> o_dirs d' = o_dirs d \<and> o_queue d' = o_queue d \<and> o_num_luns d' = o_num_luns d"
  using assms
  by (auto simp: fs_create_def can_create_def osd_file_def update_conv' old_bytes_def fun_eq_iff)

lemma fs_write_upd:
  assumes "osd_file d f = Some old"
  shows "osd_file (fs_write f off bs d) = (osd_file d)(f \<mapsto> if bs = [] then old else splice off bs old)"
    "o_base (fs_write f off bs d) = o_base d" "o_dirs (fs_write f off bs d) = o_dirs d"
    "o_queue (fs_write f off bs d) = o_queue d" "o_num_luns (fs_write f off bs d) = o_num_luns d"
  using assms by (auto simp: fs_write_def osd_file_def update_conv' fun_eq_iff)

text \<open>What is written can be read: a write and a read of the same place.\<close>

lemma read_splice: "take (length bs) (drop off (splice off bs old)) = bs"
  by (simp add: splice_def)

lemma nth_splice:
  "i < length (splice off bs old) \<Longrightarrow> splice off bs old ! i =
    (if off \<le> i \<and> i < off + length bs then bs ! (i - off) else if i < length old then old ! i else 0)"
  by (auto simp: splice_def nth_append min_def)

lemma length_splice: "length (splice off bs old) = max (off + length bs) (length old)"
  by (auto simp: splice_def)

end
