(* ===== verification/Osd_Exec.thy ===== *)
theory Osd_Exec
  imports Osd_Store Osd_Device Disk_Commands
begin

section \<open>Object commands without attributes\<close>

text \<open>
  From the arguments of a command, as they are in its header, to the answer of the target: what
  \<^verbatim>\<open>exec_upper\<close> does to the objects of the device when the file system does what it is asked for.
\<close>

subsection \<open>Arguments and data of a command\<close>

definition osd_args_of :: "target_session \<Rightarrow> ptr \<Rightarrow> osd_args_t option" where
  "osd_args_of s p =
    (let sc = scsi_of s p
     in case sc_ext_cdb sc of
          None \<Rightarrow> None
        | Some x \<Rightarrow>
            if length (sc_ahs sc) < x + 60 then None
            else Some (OSD_DECAP_CDB (sc_cdb sc) (drop x (sc_ahs sc))))"

lemma osd_args_of_cong:
  "sc_ext_cdb (scsi_of t q) = sc_ext_cdb (scsi_of s p) \<Longrightarrow> sc_ahs (scsi_of t q) = sc_ahs (scsi_of s p) \<Longrightarrow>
   sc_cdb (scsi_of t q) = sc_cdb (scsi_of s p) \<Longrightarrow> osd_args_of t q = osd_args_of s p"
  by (simp only: osd_args_of_def Let_def)

definition no_attributes :: "osd_args_t \<Rightarrow> bool" where
  "no_attributes a \<longleftrightarrow> oa_set_attributes_list_length a = 0 \<and> oa_get_attributes_list_length a = 0 \<and>
     oa_get_attributes_page a = 0"

definition data_in :: "target_session \<Rightarrow> ptr \<Rightarrow> byte list" where
  "data_in s p = (case tg_scatter (t_cmd_mem s p) of [] \<Rightarrow> [] | v # vs \<Rightarrow> map (t_mem s) (iov_addrs v))"

definition osd_reply :: "'e osd_env_scheme \<Rightarrow> ptr \<Rightarrow> target_session \<Rightarrow> outcome" where
  "osd_reply env p s =
    (case osd_command_done env p (upd_scsi p (\<lambda>sc. sc\<lparr>sc_status := 0\<rparr>) s) of
       Return rc s \<Rightarrow> if rc \<noteq> 0 then Return (-1) s else Return 0 s
     | r \<Rightarrow> r)"

lemma no_attributes_simps [simp]:
  assumes "no_attributes a"
  shows "set_attrs env lun a buf 0 s k = k s" "get_attrs env lun a gid uid buf 0 out s k' = k' out"
    "get_page env lun a gid uid out s k' = k' out" "unat (oa_set_attributes_list_length a) = 0"
    "unat (oa_get_attributes_list_length a) = 0" "oa_get_attributes_page a = 0"
    "reply_attrs env p a addr [] s = osd_reply env p s"
  using assms
  by (simp_all add: no_attributes_def set_attrs.simps get_attrs.simps get_page_def reply_attrs_def osd_reply_def)

lemma exec_attributes_none [simp]:
  "no_attributes a \<Longrightarrow> exec_attributes env p lun buf a gid uid = osd_reply env p"
  by (simp add: exec_attributes_def Let_def fun_eq_iff)

lemma exec_upper_service:
  assumes "osd_args_of s p = Some a" "no_attributes a"
  shows "exec_upper env p s =
    osd_service env p a (data_in s p) s (exec_attributes env p (sc_lun (scsi_of s p)) (data_in s p))"
  using assms
  by (simp add: exec_upper_def osd_args_of_def Let_def data_in_def [symmetric] split: option.splits if_splits)

lemma osd_service_rw:
  "oa_service_action a = OSD_WRITE \<Longrightarrow>
     osd_service env p a buf s k = osd_write_object env (sc_lun (scsi_of s p)) a buf s (k a 0 0)"
  "oa_service_action a = OSD_READ \<Longrightarrow> osd_service env p a buf s k = osd_read_object env p a s (k a 0 0)"
  by (simp_all add: osd_service_def Let_def osd_actions)

lemma exec_upper_plain:
  assumes "osd_args_of s p = Some a" "no_attributes a"
  shows "oa_service_action a = OSD_WRITE \<Longrightarrow>
      exec_upper env p s = osd_write_object env (sc_lun (scsi_of s p)) a (data_in s p) s (osd_reply env p)"
    and "oa_service_action a = OSD_READ \<Longrightarrow> exec_upper env p s = osd_read_object env p a s (osd_reply env p)"
  using exec_upper_service [OF assms, of env] assms(2) by (simp_all add: osd_service_rw)

subsection \<open>The services on objects\<close>

definition overwritten :: "nat \<Rightarrow> byte list \<Rightarrow> byte list \<Rightarrow> byte list" where
  "overwritten off bs old = (if bs = [] then old else splice off bs old)"

text \<open>The parts of the device that no command changes, and those that only the queues change.\<close>

definition same_osd :: "osd \<Rightarrow> osd \<Rightarrow> bool" where
  "same_osd d d' \<longleftrightarrow> o_base d' = o_base d \<and> o_dirs d' = o_dirs d \<and> o_queue d' = o_queue d \<and>
     o_num_luns d' = o_num_luns d"

text \<open>An object that can be opened: its group is there, and the system allows it.\<close>

definition openable :: "'e osd_env_scheme \<Rightarrow> target_session \<Rightarrow> u64 \<Rightarrow> osd_args_t \<Rightarrow> bool" where
  "openable env s lun a \<longleftrightarrow>
     (let b = o_base (t_osd s); f = object_path b lun (oa_GroupID a) (oa_UserID a)
      in can_create (group_path b lun (oa_GroupID a)) f (t_osd s) \<and> (\<forall>t. o_allow env f t) \<and>
         (\<forall>n t. o_written env f n t = int n) \<and> (\<forall>t. o_read_ok env f t) \<and>
         unat (oa_offset a) < 2 ^ 63 \<and> unat (oa_length a) < 2 ^ 31 \<and> lun_stats_ok lun)"

lemma osd_write_object_ok:
  assumes "openable env s lun a" "unat (oa_length a) \<le> length buf"
  defines "key \<equiv> (lun, oa_GroupID a, oa_UserID a)"
  shows "\<exists>d'. osd_write_object env lun a buf s k = k (s\<lparr>t_osd := d'\<rparr>) \<and>
    objects d' = (objects (t_osd s))(key \<mapsto> overwritten (unat (oa_offset a)) (take (unat (oa_length a)) buf)
      (old_bytes (objects (t_osd s) key))) \<and>
    attributes d' = attributes (t_osd s) \<and> same_osd (t_osd s) d'"
proof -
  let ?d = "t_osd s" and ?n = "unat (oa_length a)" and ?off = "unat (oa_offset a)"
  let ?f = "object_path (o_base ?d) lun (oa_GroupID a) (oa_UserID a)"
  note o = assms(1) [unfolded openable_def Let_def]
  obtain d1 where d1: "fs_create True False (group_path (o_base ?d) lun (oa_GroupID a)) ?f ?d = Done d1"
      "osd_file d1 = (osd_file ?d)(?f \<mapsto> old_bytes (osd_file ?d ?f))" "same_osd ?d d1"
    using fs_create_done [of "group_path (o_base ?d) lun (oa_GroupID a)" ?f ?d False] o
    by (auto simp: same_osd_def)
  let ?d2 = "fs_write ?f ?off (take ?n buf) d1"
  have old: "osd_file d1 ?f = Some (old_bytes (osd_file ?d ?f))" using d1(2) by simp
  have d2: "osd_file ?d2 = (osd_file ?d)(?f \<mapsto> overwritten ?off (take ?n buf) (old_bytes (osd_file ?d ?f)))"
      "same_osd ?d ?d2"
    using fs_write_upd [OF old, of ?off "take ?n buf"] d1(2,3) by (simp_all add: overwritten_def same_osd_def)
  have "osd_write_object env lun a buf s k = k (s\<lparr>t_osd := ?d2\<rparr>)"
    using o d1(1) assms(2) by (simp add: osd_write_object_def create_object_def Let_def)
  moreover have "objects ?d key = osd_file ?d ?f" by (simp add: objects_def key_def)
  ultimately show ?thesis
    using objects_upd [OF d2(1)] d2(2) by (intro exI [of _ ?d2]) (simp add: key_def same_osd_def)
qed

text \<open>What a read gets: zeros behind the end of the object.\<close>

definition object_bytes :: "nat \<Rightarrow> nat \<Rightarrow> byte list \<Rightarrow> byte list" where
  "object_bytes off n bs = take n (drop off bs) @ replicate (n - (length bs - off)) 0"

lemma length_object_bytes [simp]: "length (object_bytes off n bs) = n"
  by (simp add: object_bytes_def min_def)

definition with_read_data :: "ptr \<Rightarrow> nat \<Rightarrow> nat \<Rightarrow> target_cmd \<Rightarrow> target_cmd" where
  "with_read_data p addr n c = c\<lparr>tg_gather_type := (tg_gather_type c)(0 := MEM_HEAP),
     tg_gather := [\<lparr>iov_base = addr, iov_len = n\<rparr>], tg_scsi := (tg_scsi c)\<lparr>sc_status := 0, sc_fromdev := 1\<rparr>\<rparr>"

lemma osd_read_object_ok:
  fixes s :: target_session and p :: ptr and a :: osd_args_t
  defines "lun \<equiv> sc_lun (scsi_of s p)" and "n \<equiv> unat (oa_length a)"
  defines "key \<equiv> (lun, oa_GroupID a, oa_UserID a)"
  defines "old \<equiv> old_bytes (objects (t_osd s) key)"
  assumes "openable env s lun a" "\<And>k t. o_malloc env k t = addr" "addr \<noteq> NULL"
  shows "\<exists>d'. osd_read_object env p a s k =
      k (upd_cmd p (with_read_data p addr n) (s\<lparr>t_osd := d',
         t_mem := put_mem [addr..<addr + n] (object_bytes (unat (oa_offset a)) n old) (t_mem s)\<rparr>)) \<and>
    objects d' = (objects (t_osd s))(key \<mapsto> old) \<and> attributes d' = attributes (t_osd s) \<and> same_osd (t_osd s) d'"
proof -
  let ?d = "t_osd s"
  let ?f = "object_path (o_base ?d) lun (oa_GroupID a) (oa_UserID a)"
  note o = assms(5) [unfolded openable_def Let_def]
  obtain d1 where d1: "fs_create True False (group_path (o_base ?d) lun (oa_GroupID a)) ?f ?d = Done d1"
      "osd_file d1 = (osd_file ?d)(?f \<mapsto> old_bytes (osd_file ?d ?f))" "same_osd ?d d1"
    using fs_create_done [of "group_path (o_base ?d) lun (oa_GroupID a)" ?f ?d False] o
    by (auto simp: same_osd_def)
  have old: "old = old_bytes (osd_file ?d ?f)" by (simp add: old_def objects_def key_def)
  have read: "fs_read ?f (unat (oa_offset a)) n d1 = take n (drop (unat (oa_offset a)) old)"
    using d1(2) by (simp add: fs_read_def old)
  have bytes: "take n (drop (unat (oa_offset a)) old) @
      replicate (n - length (take n (drop (unat (oa_offset a)) old))) 0 = object_bytes (unat (oa_offset a)) n old"
    by (simp add: object_bytes_def min_def)
  let ?s1 = "upd_cmd p (\<lambda>c. c\<lparr>tg_gather_type := (tg_gather_type c)(0 := MEM_HEAP)\<rparr>) s"
  have s1: "t_osd ?s1 = ?d" "t_mem ?s1 = t_mem s" by simp_all
  have ok: "\<And>t. o_allow env ?f t = True" "\<And>t. o_read_ok env ?f t = True" "\<not> 2 ^ 63 \<le> unat (oa_offset a)"
      "\<not> 2 ^ 31 \<le> n" "lun_stats_ok lun" "o_base d1 = o_base ?d"
    using o d1(3) by (simp_all add: n_def same_osd_def)
  have "osd_read_object env p a s k =
      k (upd_cmd p (\<lambda>c. c\<lparr>tg_gather := [\<lparr>iov_base = addr, iov_len = n\<rparr>],
          tg_scsi := (tg_scsi c)\<lparr>sc_status := 0, sc_fromdev := 1\<rparr>\<rparr>)
        (?s1\<lparr>t_osd := d1, t_mem := put_mem [addr..<addr + n] (object_bytes (unat (oa_offset a)) n old) (t_mem s)\<rparr>))"
    unfolding osd_read_object_def create_object_def Let_def lun_def [symmetric] n_def [symmetric]
    using assms(6,7) d1(1) ok by (simp add: s1 read bytes [simplified] del: upd_cmd_simps)
  also have "\<dots> = k (upd_cmd p (with_read_data p addr n) (s\<lparr>t_osd := d1,
         t_mem := put_mem [addr..<addr + n] (object_bytes (unat (oa_offset a)) n old) (t_mem s)\<rparr>))"
    by (simp add: with_read_data_def upd_cmd_def)
  finally have "osd_read_object env p a s k =
      k (upd_cmd p (with_read_data p addr n) (s\<lparr>t_osd := d1,
         t_mem := put_mem [addr..<addr + n] (object_bytes (unat (oa_offset a)) n old) (t_mem s)\<rparr>))" .
  then show ?thesis
    using objects_upd [OF d1(2)] d1(3)
    by (intro exI [of _ d1]) (simp add: key_def old [symmetric] same_osd_def)
qed

subsection \<open>The answer\<close>

definition osd_plain_cmd :: "target_cmd \<Rightarrow> bool" where
  "osd_plain_cmd c \<longleftrightarrow> known_types (tg_scatter_type c) 0 (tg_scatter c) \<and>
     known_types (tg_gather_type c) 0 (tg_gather c) \<and> sc_cdb (tg_scsi c) ! 0 \<noteq> 0x26"

lemma osd_command_done_ok:
  assumes "device_command_done env p s = command_release env p t" "releasable s p" "osd_plain_cmd (t_cmd_mem s p)"
    and "t_cmds t = t_cmds s" "t_header_q t = t_header_q s" "t_cmd_q t = t_cmd_q s"
    and "sc_tag (scsi_of t p) = sc_tag (scsi_of s p)" "sc_cdb (scsi_of t p) = sc_cdb (scsi_of s p)"
    and "t_cmd_mem t p = (t_cmd_mem s p)\<lparr>tg_send_data := True, tg_scsi := scsi_of t p\<rparr>" "t_osd t = t_osd s"
  shows "\<exists>s'. osd_command_done env p s = Return 0 s' \<and> t_out s' = t_out t \<and> t_mem s' = t_mem t \<and>
    t_osd s' = t_osd s \<and> t_slock s' = t_slock t"
proof -
  have "releasable t p" using assms(2) releasable_cong [OF assms(4-7)] by simp
  then obtain s' where s': "command_release env p t = Return 0 s'" "t_out s' = t_out t"
      "t_mem s' = t_mem t" "t_osd s' = t_osd t" "t_cmd_mem s' = t_cmd_mem t" "t_slock s' = t_slock t"
    using command_release_ok by blast
  have "tg_scatter (t_cmd_mem t p) = tg_scatter (t_cmd_mem s p)"
      "tg_gather (t_cmd_mem t p) = tg_gather (t_cmd_mem s p)"
      "tg_scatter_type (t_cmd_mem t p) = tg_scatter_type (t_cmd_mem s p)"
      "tg_gather_type (t_cmd_mem t p) = tg_gather_type (t_cmd_mem s p)"
    by (subst assms(9), simp)+
  then have "osd_plain_cmd (t_cmd_mem s' p)"
    using assms(3,8) s'(5) by (simp add: osd_plain_cmd_def scsi_of_def)
  then show ?thesis
    using assms(1,10) s' by (auto simp: osd_command_done_def osd_plain_cmd_def Let_def)
qed

lemma osd_reply_status:
  fixes s :: target_session and p :: ptr
  defines "sc \<equiv> scsi_of s p"
  assumes "\<not> tg_send_data (t_cmd_mem s p)" "\<not> t_slock s" "\<not> t_UsePhaseCollapsedRead s"
    and "e_send_ok env (t_sends s)" "sc_fromdev sc = 0" "sc_todev sc \<noteq> 0 \<Longrightarrow> sc_bytes_todev sc = sc_trans_len sc"
    and "releasable s p" "osd_plain_cmd (t_cmd_mem s p)"
  shows "\<exists>s'. osd_reply env p s = Return 0 s' \<and>
    t_out s' = t_out s @ [iscsi_scsi_rsp_encap (status_response s (sc\<lparr>sc_status := 0\<rparr>))] \<and>
    t_mem s' = t_mem s \<and> t_osd s' = t_osd s \<and> \<not> t_slock s'"
proof -
  let ?s = "upd_scsi p (\<lambda>sc. sc\<lparr>sc_status := 0\<rparr>) s"
  have sc: "scsi_of ?s p = sc\<lparr>sc_status := 0\<rparr>" by (simp add: sc_def scsi_of_def upd_scsi_def)
  have f: "t_cmd_mem ?s p = (t_cmd_mem s p)\<lparr>tg_scsi := sc\<lparr>sc_status := 0\<rparr>\<rparr>" "t_sends ?s = t_sends s"
      "t_UsePhaseCollapsedRead ?s = t_UsePhaseCollapsedRead s" "t_osd ?s = t_osd s"
    by (simp_all add: sc_def scsi_of_def upd_scsi_def)
  have resp: "status_response ?s c = status_response s c" for c
    by (simp add: status_response_def read_response_def upd_scsi_def)
  have rel: "releasable ?s p"
    using assms(8) by (subst releasable_cong [of _ s]) (simp_all add: upd_scsi_def scsi_of_def)
  have plain: "osd_plain_cmd (t_cmd_mem ?s p)"
    using assms(9) by (simp add: f osd_plain_cmd_def sc_def scsi_of_def)
  obtain u where u: "device_command_done env p ?s = command_release env p u"
      "t_out u = t_out ?s @ [iscsi_scsi_rsp_encap (status_response ?s (scsi_of ?s p))]"
      "t_cmds u = t_cmds ?s" "t_header_q u = t_header_q ?s" "t_cmd_q u = t_cmd_q ?s"
      "sc_tag (scsi_of u p) = sc_tag (scsi_of ?s p)" "sc_cdb (scsi_of u p) = sc_cdb (scsi_of ?s p)"
      "t_mem u = t_mem ?s" "t_osd u = t_osd ?s" "\<not> t_slock u"
      "t_cmd_mem u p = (t_cmd_mem ?s p)\<lparr>tg_send_data := True, tg_scsi := scsi_of u p\<rparr>"
    using device_command_done_status [of ?s p env] assms(2-7) by (auto simp: f sc)
  show ?thesis
    using osd_command_done_ok [OF u(1) rel plain u(3-7,11,9)] u(2,8,10)
    by (auto simp: osd_reply_def sc resp f)
qed

lemma osd_reply_data:
  fixes s :: target_session and p :: ptr
  defines "sc \<equiv> scsi_of s p" and "gather \<equiv> tg_gather (t_cmd_mem s p)"
    and "seg \<equiv> max_data_seg_length (t_sess_params s)"
  assumes "ps = pieces (unat seg) (unat (sc_trans_len sc)) 0"
    and "\<not> tg_send_data (t_cmd_mem s p)" "\<not> t_slock s" "\<not> t_UsePhaseCollapsedRead s"
    and "sends_ok env (2 * length ps + 1) s"
    and "sc_fromdev sc \<noteq> 0" "sc_todev sc = 0" "0 < sc_trans_len sc"
    and "gather \<noteq> []" "NULL \<notin> iov_base ` set gather" "iovs_len gather = unat (sc_trans_len sc)"
    and "unat (sc_trans_len sc) + unat seg \<le> 2 ^ 32" "seg \<noteq> 0"
    and "releasable s p" "osd_plain_cmd (t_cmd_mem s p)"
  shows "\<exists>s'. osd_reply env p s = Return 0 s' \<and>
    t_out s' = t_out s @ read_messages s sc (iovs_addrs gather) 0 ps @
      [iscsi_scsi_rsp_encap (read_response s (sc_tag sc) (of_nat (length ps)))] \<and>
    t_mem s' = t_mem s \<and> t_osd s' = t_osd s \<and> \<not> t_slock s'"
proof -
  let ?s = "upd_scsi p (\<lambda>sc. sc\<lparr>sc_status := 0\<rparr>) s"
  have sc: "scsi_of ?s p = sc\<lparr>sc_status := 0\<rparr>" by (simp add: sc_def scsi_of_def upd_scsi_def)
  have f: "t_cmd_mem ?s p = (t_cmd_mem s p)\<lparr>tg_scsi := sc\<lparr>sc_status := 0\<rparr>\<rparr>" "t_sends ?s = t_sends s"
      "t_UsePhaseCollapsedRead ?s = t_UsePhaseCollapsedRead s" "t_osd ?s = t_osd s"
      "t_sess_params ?s = t_sess_params s" "t_ExpCmdSN ?s = t_ExpCmdSN s" "t_MaxCmdSN ?s = t_MaxCmdSN s"
      "t_StatSN ?s = t_StatSN s"
    by (simp_all add: sc_def scsi_of_def upd_scsi_def)
  have rel: "releasable ?s p"
    using assms(17) by (subst releasable_cong [of _ s]) (simp_all add: upd_scsi_def scsi_of_def)
  have plain: "osd_plain_cmd (t_cmd_mem ?s p)"
    using assms(18) by (simp add: f osd_plain_cmd_def sc_def scsi_of_def)
  have gather: "tg_gather (t_cmd_mem ?s p) = gather" by (simp add: f gather_def)
  have ok: "sends_ok env (2 * length ps + 1) ?s" using assms(8) by (simp add: sends_ok_def f)
  obtain u where u: "device_command_done env p ?s = command_release env p u"
      "t_out u = t_out ?s @ read_messages ?s (scsi_of ?s p) (iovs_addrs gather) 0 ps @
        [iscsi_scsi_rsp_encap (read_response ?s (sc_tag (scsi_of ?s p)) (of_nat (length ps)))]"
      "t_cmds u = t_cmds ?s" "t_header_q u = t_header_q ?s" "t_cmd_q u = t_cmd_q ?s"
      "sc_tag (scsi_of u p) = sc_tag (scsi_of ?s p)" "sc_cdb (scsi_of u p) = sc_cdb (scsi_of ?s p)"
      "t_mem u = t_mem ?s" "t_osd u = t_osd ?s" "\<not> t_slock u"
      "t_cmd_mem u p = (t_cmd_mem ?s p)\<lparr>tg_send_data := True, tg_scsi := scsi_of u p\<rparr>"
    using device_command_done_read [of ps ?s p env] assms(4-16) ok
    unfolding gather sc f seg_def [symmetric] upd_scsi_simps
    by (auto simp: gather_def [symmetric])
  have "read_messages ?s (scsi_of ?s p) A sn qs = read_messages s sc A sn qs" for A sn qs
    using assms(7) by (intro read_messages_cong) (simp_all add: f sc)
  moreover have "read_response ?s t k = read_response s t k" for t k
    by (simp add: read_response_def f)
  ultimately show ?thesis
    using osd_command_done_ok [OF u(1) rel plain u(3-7,11,9)] u(2,8,10)
    by (auto simp: osd_reply_def sc f)
qed

end
