(* ===== verification/Osd_Commands.thy ===== *)
theory Osd_Commands
  imports Osd_Exec
begin

section \<open>Object commands from the queue to the answer\<close>

text \<open>
  The worker of a unit takes a command, \<^verbatim>\<open>device_command\<close> finds an extended descriptor block, and
  \<^verbatim>\<open>exec_lower\<close> brings the data that came with the command to where \<^verbatim>\<open>exec_upper\<close> expects it.
\<close>

subsection \<open>A command whose turn it is\<close>

definition with_queue :: "nat \<Rightarrow> iscsi_queue \<Rightarrow> target_session \<Rightarrow> target_session" where
  "with_queue l q s = s\<lparr>t_osd := (t_osd s)\<lparr>o_queue := (o_queue (t_osd s))[l := q]\<rparr>\<rparr>"

lemma with_queue_simps [simp]:
  "t_cmd_mem (with_queue l q s) = t_cmd_mem s" "t_mem (with_queue l q s) = t_mem s"
  "t_out (with_queue l q s) = t_out s" "t_sends (with_queue l q s) = t_sends s"
  "t_slock (with_queue l q s) = t_slock s" "t_sess_params (with_queue l q s) = t_sess_params s"
  "t_cmds (with_queue l q s) = t_cmds s" "t_header_q (with_queue l q s) = t_header_q s"
  "t_cmd_q (with_queue l q s) = t_cmd_q s" "t_StatSN (with_queue l q s) = t_StatSN s"
  "t_ExpCmdSN (with_queue l q s) = t_ExpCmdSN s" "t_MaxCmdSN (with_queue l q s) = t_MaxCmdSN s"
  "t_UsePhaseCollapsedRead (with_queue l q s) = t_UsePhaseCollapsedRead s"
  "scsi_of (with_queue l q s) p = scsi_of s p" "osd_args_of (with_queue l q s) p = osd_args_of s p"
  "o_num_luns (t_osd (with_queue l q s)) = o_num_luns (t_osd s)"
  by (simp_all add: with_queue_def scsi_of_def osd_args_of_def)

lemma with_queue_objects [simp]:
  "objects (t_osd (with_queue l q s)) = objects (t_osd s)"
  "attributes (t_osd (with_queue l q s)) = attributes (t_osd s)"
  "openable env (with_queue l q s) lun a = openable env s lun a"
  by (simp_all add: with_queue_def objects_def attributes_def osd_file_def openable_def can_create_def)

definition next_cmd :: "target_session \<Rightarrow> nat \<Rightarrow> ptr \<Rightarrow> bool" where
  "next_cmd s l p \<longleftrightarrow> queue_inv (o_queue (t_osd s) ! l) \<and> (\<exists>ps. queue_abs (o_queue (t_osd s) ! l) = p # ps) \<and> p \<noteq> NULL"

lemma osd_worker_takes:
  assumes "next_cmd s l p"
  shows "\<exists>q. osd_worker_step env l s = osd_device_command env p (with_queue l q s)"
proof -
  obtain ps where ps: "queue_abs (o_queue (t_osd s) ! l) = p # ps" using assms by (auto simp: next_cmd_def)
  obtain x q where r: "iscsi_queue_remove (o_queue (t_osd s) ! l) = (x, q)" by fastforce
  have "x = p" using ring.rm_some [OF _ ps r] assms by (auto simp: next_cmd_def)
  then show ?thesis
    using r assms by (intro exI [of _ q]) (simp add: osd_worker_step_def with_queue_def next_cmd_def)
qed

text \<open>What a command for an object looks like, and a session that can answer it.\<close>

definition extended_cmd :: "target_session \<Rightarrow> ptr \<Rightarrow> osd_args_t \<Rightarrow> bool" where
  "extended_cmd s p a \<longleftrightarrow>
     (let c = t_cmd_mem s p; sc = tg_scsi c
      in osd_args_of s p = Some a \<and> sc_cdb sc ! 0 = 0x7f \<and>
         unat (sc_lun sc) < unat (o_num_luns (t_osd s)) \<and> unat (sc_lun sc) < CONFIG_OSD_MAX_LUNS \<and>
         tg_scatter c = [] \<and> tg_gather c = [] \<and> \<not> tg_send_data c)"

definition object_cmd :: "target_session \<Rightarrow> ptr \<Rightarrow> osd_args_t \<Rightarrow> bool" where
  "object_cmd s p a \<longleftrightarrow> extended_cmd s p a \<and> no_attributes a"

definition can_answer :: "target_session \<Rightarrow> ptr \<Rightarrow> bool" where
  "can_answer s p \<longleftrightarrow> \<not> t_slock s \<and> \<not> t_UsePhaseCollapsedRead s \<and> releasable s p"

definition status_ok :: "ptr \<Rightarrow> target_session \<Rightarrow> target_session" where
  "status_ok p = upd_scsi p (\<lambda>sc. sc\<lparr>sc_status := 0\<rparr>)"

lemma status_ok_simps [simp]:
  "t_mem (status_ok p s) = t_mem s" "t_out (status_ok p s) = t_out s" "t_sends (status_ok p s) = t_sends s"
  "t_slock (status_ok p s) = t_slock s" "t_sess_params (status_ok p s) = t_sess_params s"
  "t_cmds (status_ok p s) = t_cmds s" "t_header_q (status_ok p s) = t_header_q s"
  "t_cmd_q (status_ok p s) = t_cmd_q s" "t_StatSN (status_ok p s) = t_StatSN s"
  "t_ExpCmdSN (status_ok p s) = t_ExpCmdSN s" "t_MaxCmdSN (status_ok p s) = t_MaxCmdSN s"
  "t_UsePhaseCollapsedRead (status_ok p s) = t_UsePhaseCollapsedRead s" "t_osd (status_ok p s) = t_osd s"
  "t_cmd_mem (status_ok p s) p = (t_cmd_mem s p)\<lparr>tg_scsi := (scsi_of s p)\<lparr>sc_status := 0\<rparr>\<rparr>"
  "scsi_of (status_ok p s) p = (scsi_of s p)\<lparr>sc_status := 0\<rparr>"
  "openable env (status_ok p s) lun a = openable env s lun a"
  by (simp_all add: status_ok_def upd_scsi_def scsi_of_def openable_def)

lemma object_command:
  assumes "extended_cmd s p a"
  shows "osd_device_command env p s =
    (case exec_lower env p (status_ok p s) of
       Return rc s \<Rightarrow> if rc \<noteq> 0 then osd_finish_command env p (upd_scsi p (\<lambda>sc. sc\<lparr>sc_status := 2\<rparr>) s) else Return 0 s
     | r \<Rightarrow> r)"
proof -
  let ?lun = "sc_lun (scsi_of s p)"
  have l: "unat ?lun < unat (o_num_luns (t_osd s))" "unat ?lun < 8" and op: "sc_cdb (scsi_of s p) ! 0 = 0x7f"
    using assms by (simp_all add: extended_cmd_def Let_def scsi_of_def CONFIG_OSD_MAX_LUNS_def)
  have "unat (ucast ?lun :: byte) = unat ?lun" using l(2) by (simp add: unsigned_ucast_eq take_bit_nat_eq_self)
  then have "\<not> ucast (ucast ?lun :: byte) \<ge> o_num_luns (t_osd s)"
    using l(1) by (simp add: word_le_nat_alt unat_ucast_up_simp)
  then show ?thesis
    using op by (simp add: osd_device_command_def Let_def disk_opcodes status_ok_def)
qed

subsection \<open>Reading\<close>

lemma exec_lower_read:
  assumes "sc_todev (scsi_of s p) = 0"
  shows "exec_lower env p s =
    (case exec_upper env p s of Return rc s \<Rightarrow> if rc \<noteq> 0 then Exits s else Return 0 s | r \<Rightarrow> r)"
  using assms by (simp add: exec_lower_def Let_def scsi_of_def)

definition object_pieces :: "target_session \<Rightarrow> ptr \<Rightarrow> (nat \<times> nat) list" where
  "object_pieces s p = pieces (unat (max_data_seg_length (t_sess_params s))) (unat (sc_trans_len (scsi_of s p))) 0"

definition object_key :: "target_session \<Rightarrow> ptr \<Rightarrow> osd_args_t \<Rightarrow> u64 \<times> u32 \<times> u64" where
  "object_key s p a = (sc_lun (scsi_of s p), oa_GroupID a, oa_UserID a)"

lemma exec_upper_read:
  fixes s :: target_session and p :: ptr and a :: osd_args_t
  defines "sc \<equiv> scsi_of s p" and "seg \<equiv> max_data_seg_length (t_sess_params s)" and "ps \<equiv> object_pieces s p"
    and "old \<equiv> old_bytes (objects (t_osd s) (object_key s p a))"
  assumes "object_cmd s p a" "can_answer s p" "oa_service_action a = OSD_READ" "openable env s (sc_lun sc) a"
    and "\<And>k t. o_malloc env k t = addr" "addr \<noteq> NULL"
    and "unat (sc_trans_len sc) = unat (oa_length a)" "0 < sc_trans_len sc" "sc_todev sc = 0"
    and "seg \<noteq> 0" "unat (sc_trans_len sc) + unat seg \<le> 2 ^ 32" "sends_ok env (2 * length ps + 1) s"
  shows "\<exists>s' ms. exec_upper env p s = Return 0 s' \<and>
    t_out s' = t_out s @ ms @ [iscsi_scsi_rsp_encap (read_response s (sc_tag sc) (of_nat (length ps)))] \<and>
    length ms = 2 * length ps \<and> payload ms = object_bytes (unat (oa_offset a)) (unat (oa_length a)) old \<and>
    objects (t_osd s') = (objects (t_osd s))(object_key s p a \<mapsto> old) \<and> attributes (t_osd s') = attributes (t_osd s)"
proof -
  let ?n = "unat (oa_length a)" and ?off = "unat (oa_offset a)"
  note c = assms(5) [unfolded object_cmd_def extended_cmd_def Let_def]
  let ?bytes = "object_bytes ?off ?n old"
  obtain d' where d': "osd_read_object env p a s (osd_reply env p) = osd_reply env p
        (upd_cmd p (with_read_data p addr ?n) (s\<lparr>t_osd := d', t_mem := put_mem [addr..<addr + ?n] ?bytes (t_mem s)\<rparr>))"
      "objects d' = (objects (t_osd s))(object_key s p a \<mapsto> old)" "attributes d' = attributes (t_osd s)"
    using osd_read_object_ok [of env s p a addr "osd_reply env p"] assms(8-10)
    by (auto simp: sc_def old_def object_key_def)
  define t where "t = upd_cmd p (with_read_data p addr ?n)
    (s\<lparr>t_osd := d', t_mem := put_mem [addr..<addr + ?n] ?bytes (t_mem s)\<rparr>)"
  have t: "scsi_of t p = sc\<lparr>sc_status := 0, sc_fromdev := 1\<rparr>" "tg_gather (t_cmd_mem t p) = [\<lparr>iov_base = addr, iov_len = ?n\<rparr>]"
      "t_sess_params t = t_sess_params s" "t_slock t = t_slock s" "t_UsePhaseCollapsedRead t = t_UsePhaseCollapsedRead s"
      "t_sends t = t_sends s" "t_out t = t_out s" "t_osd t = d'" "tg_send_data (t_cmd_mem t p) = tg_send_data (t_cmd_mem s p)"
      "t_ExpCmdSN t = t_ExpCmdSN s" "t_MaxCmdSN t = t_MaxCmdSN s" "t_StatSN t = t_StatSN s"
      "t_mem t = put_mem [addr..<addr + ?n] ?bytes (t_mem s)"
    by (simp_all add: t_def with_read_data_def sc_def scsi_of_def upd_cmd_def)
  have plain: "osd_plain_cmd (t_cmd_mem t p)"
    using c by (simp add: t_def with_read_data_def osd_plain_cmd_def upd_cmd_def)
  have rel: "releasable t p"
    using assms(6) by (subst releasable_cong [of _ s]) (simp_all add: can_answer_def t_def with_read_data_def upd_cmd_def scsi_of_def)
  let ?ms = "read_messages t (scsi_of t p) [addr..<addr + ?n] 0 ps"
  obtain s' where s': "osd_reply env p t = Return 0 s'"
      "t_out s' = t_out t @ ?ms @ [iscsi_scsi_rsp_encap (read_response t (sc_tag sc) (of_nat (length ps)))]"
      "t_osd s' = d'"
    using osd_reply_data [of ps t p env, OF _ _ _ _ _ _ _ _ _ _ _ _ _ rel plain] assms(6,10-16) c
    by (auto simp: t seg_def ps_def object_pieces_def sc_def [symmetric] can_answer_def iovs_addrs_def iov_addrs_def iovs_len_def sends_ok_def)
  have "payload ?ms = map (t_mem t) [addr..<addr + ?n]"
    using payload_read_messages [of "unat seg" 0 ?n "[addr..<addr + ?n]" t "scsi_of t p" 0] assms(11,14)
    by (simp add: ps_def object_pieces_def seg_def [symmetric] sc_def [symmetric] unat_gt_0)
  also have "\<dots> = ?bytes" unfolding t(13) by (rule put_mem_same) simp_all
  finally have "payload ?ms = ?bytes" .
  moreover have "read_response t tag k = read_response s tag k" for tag k by (simp add: read_response_def t)
  moreover have "exec_upper env p s = osd_reply env p t"
    using exec_upper_plain(2) [of s p a env] assms(7) c d'(1) by (simp add: t_def)
  ultimately show ?thesis
    using s' d'(2,3) by (intro exI [of _ s'] exI [of _ ?ms]) (simp add: t)
qed

subsection \<open>Writing\<close>

text \<open>The data came with the command: it is copied into a buffer.\<close>

definition write_buffer :: "ptr \<Rightarrow> ptr \<Rightarrow> target_session \<Rightarrow> target_session" where
  "write_buffer p addr s =
    (let c = t_cmd_mem s p; n = unat (sc_length (tg_scsi c))
     in upd_cmd p (\<lambda>c. c
          \<lparr>tg_scsi := (tg_scsi c)\<lparr>sc_bytes_todev := sc_length (tg_scsi c)\<rparr>,
           tg_scatter := [\<lparr>iov_base = addr, iov_len = unat (sc_trans_len (scsi_of s p))\<rparr>],
           tg_scatter_type := (tg_scatter_type c)(0 := MEM_HEAP)\<rparr>)
          (s\<lparr>t_mem := put_mem [addr..<addr + n] (immediate_bytes c n) (t_mem s)\<rparr>))"

lemma exec_lower_write:
  fixes s :: target_session and p :: ptr
  defines "sc \<equiv> scsi_of s p"
  assumes "sc_todev sc \<noteq> 0" "sc_trans_len sc = sc_length sc" "\<And>k t. o_malloc env k t = addr" "addr \<noteq> NULL"
    and "unat (sc_length sc) \<le> CONFIG_TARGET_MAX_IMMEDIATE"
  shows "exec_lower env p s =
    (case exec_upper env p (write_buffer p addr s) of
       Return rc s \<Rightarrow> if rc \<noteq> 0 then Exits s else Return 0 s | r \<Rightarrow> r)"
proof -
  let ?t = "write_buffer p addr s"
  have t: "scsi_of ?t p = sc\<lparr>sc_bytes_todev := sc_length sc\<rparr>"
    by (simp add: write_buffer_def Let_def sc_def scsi_of_def)
  have "exec_lower env p s =
    (let sc = scsi_of ?t p
     in if sc_todev sc \<noteq> 0 \<and> sc_trans_len sc - sc_bytes_todev sc \<noteq> 0 then
          case target_transfer_data env p ?t of
            Return rc s \<Rightarrow> if rc \<noteq> 0 then Return (-1) s else Return 0 s | r \<Rightarrow> r
        else case exec_upper env p ?t of Return rc s \<Rightarrow> if rc \<noteq> 0 then Exits s else Return 0 s | r \<Rightarrow> r)"
    using assms(2-6) unfolding exec_lower_def write_buffer_def Let_def
    by (simp add: sc_def scsi_of_def del: upd_cmd_simps)
  then show ?thesis using assms(3) by (simp add: t)
qed

lemma exec_upper_write:
  fixes s :: target_session and p :: ptr and a :: osd_args_t
  defines "sc \<equiv> scsi_of s p" and "imm \<equiv> tg_immediate (t_cmd_mem s p)"
    and "old \<equiv> old_bytes (objects (t_osd s) (object_key s p a))"
  assumes "object_cmd s p a" "can_answer s p" "oa_service_action a = OSD_WRITE" "openable env s (sc_lun sc) a"
    and "length imm = unat (sc_length sc)" "unat (oa_length a) = length imm"
    and "sc_fromdev sc = 0" "sc_trans_len sc = sc_length sc" "e_send_ok env (t_sends s)"
  shows "\<exists>s'. exec_upper env p (write_buffer p addr s) = Return 0 s' \<and>
    t_out s' = t_out s @ [iscsi_scsi_rsp_encap (status_response s (sc\<lparr>sc_status := 0\<rparr>))] \<and>
    objects (t_osd s') = (objects (t_osd s))(object_key s p a \<mapsto> overwritten (unat (oa_offset a)) imm old) \<and>
    attributes (t_osd s') = attributes (t_osd s)"
proof -
  let ?n = "unat (oa_length a)"
  note c = assms(4) [unfolded object_cmd_def extended_cmd_def Let_def]
  define t where "t = write_buffer p addr s"
  have imm: "immediate_bytes (t_cmd_mem s p) (unat (sc_length sc)) = imm"
    using assms(8) by (simp add: immediate_bytes_def imm_def)
  have t: "scsi_of t p = sc\<lparr>sc_bytes_todev := sc_length sc\<rparr>" "t_osd t = t_osd s" "t_sends t = t_sends s"
      "t_slock t = t_slock s" "t_UsePhaseCollapsedRead t = t_UsePhaseCollapsedRead s" "t_out t = t_out s"
      "tg_send_data (t_cmd_mem t p) = tg_send_data (t_cmd_mem s p)"
      "t_mem t = put_mem [addr..<addr + ?n] imm (t_mem s)"
      "t_ExpCmdSN t = t_ExpCmdSN s" "t_MaxCmdSN t = t_MaxCmdSN s" "t_StatSN t = t_StatSN s"
    using imm assms(8,9)
    by (simp_all add: t_def write_buffer_def Let_def upd_cmd_def scsi_of_def sc_def)
  have data: "data_in t p = imm"
    using assms(8,9,11) unfolding data_in_def t(8)
    by (simp add: t_def write_buffer_def Let_def iov_addrs_def put_mem_same sc_def scsi_of_def)
  have args: "osd_args_of t p = Some a"
    using c osd_args_of_cong [of t p s p] by (simp add: t(1) sc_def)
  have "openable env t (sc_lun (scsi_of t p)) a" using assms(7) by (simp add: openable_def t)
  then obtain d' where d': "osd_write_object env (sc_lun (scsi_of t p)) a imm t (osd_reply env p) = osd_reply env p (t\<lparr>t_osd := d'\<rparr>)"
      "objects d' = (objects (t_osd s))(object_key s p a \<mapsto> overwritten (unat (oa_offset a)) imm old)"
      "attributes d' = attributes (t_osd s)"
    using osd_write_object_ok [of env t "sc_lun (scsi_of t p)" a imm "osd_reply env p"] assms(9)
    by (auto simp: t old_def object_key_def sc_def)
  let ?t = "t\<lparr>t_osd := d'\<rparr>"
  have cmd: "t_cmd_mem ?t p = t_cmd_mem t p" "scsi_of ?t p = scsi_of t p" by (simp_all add: scsi_of_def)
  have plain: "osd_plain_cmd (t_cmd_mem ?t p)"
    using c by (simp add: t_def write_buffer_def Let_def osd_plain_cmd_def upd_cmd_def)
  have rel: "releasable ?t p"
    using assms(5) by (subst releasable_cong [of _ s]) (simp_all add: can_answer_def t_def write_buffer_def Let_def upd_cmd_def scsi_of_def)
  obtain s' where s': "osd_reply env p ?t = Return 0 s'"
      "t_out s' = t_out s @ [iscsi_scsi_rsp_encap (status_response ?t ((scsi_of t p)\<lparr>sc_status := 0\<rparr>))]" "t_osd s' = d'"
    using osd_reply_status [of ?t p env, OF _ _ _ _ _ _ rel plain] assms(5,10-12) c
    by (auto simp: t cmd can_answer_def)
  have "status_response ?t ((scsi_of t p)\<lparr>sc_status := 0\<rparr>) = status_response s (sc\<lparr>sc_status := 0\<rparr>)"
    by (simp add: status_response_def read_response_def t)
  moreover have "exec_upper env p t = osd_reply env p ?t"
    using exec_upper_plain(1) [OF args, of env] assms(6) c d'(1) by (simp add: data)
  ultimately show ?thesis
    using s' d'(2,3) by (intro exI [of _ s']) (simp add: t_def)
qed

subsection \<open>From the queue\<close>

lemma object_cmd_with [simp]:
  "extended_cmd (with_queue l q s) p a = extended_cmd s p a" "object_cmd (with_queue l q s) p a = object_cmd s p a" "can_answer (with_queue l q s) p = can_answer s p"
  "object_key (with_queue l q s) p a = object_key s p a" "object_pieces (with_queue l q s) p = object_pieces s p"
  by (simp_all add: object_cmd_def extended_cmd_def can_answer_def object_key_def object_pieces_def Let_def)
    (simp add: releasable_def)

lemma object_cmd_status_ok [simp]:
  "extended_cmd (status_ok p s) p a = extended_cmd s p a" "object_cmd (status_ok p s) p a = object_cmd s p a" "can_answer (status_ok p s) p = can_answer s p"
  "object_key (status_ok p s) p a = object_key s p a" "object_pieces (status_ok p s) p = object_pieces s p"
proof -
  have "osd_args_of (status_ok p s) p = osd_args_of s p" by (rule osd_args_of_cong) simp_all
  then show "extended_cmd (status_ok p s) p a = extended_cmd s p a"
    by (simp add: extended_cmd_def Let_def scsi_of_def)
  then show "object_cmd (status_ok p s) p a = object_cmd s p a" by (simp add: object_cmd_def)
  show "can_answer (status_ok p s) p = can_answer s p" by (simp add: can_answer_def releasable_def)
qed (simp_all add: object_key_def object_pieces_def)

lemma read_response_cong:
  "t_StatSN t = t_StatSN s \<Longrightarrow> t_ExpCmdSN t = t_ExpCmdSN s \<Longrightarrow> t_MaxCmdSN t = t_MaxCmdSN s \<Longrightarrow>
   read_response t tag k = read_response s tag k"
  by (simp add: read_response_def)

lemma worker_executes:
  assumes "next_cmd s l p" "extended_cmd s p a"
  shows "\<exists>q. osd_worker_step env l s =
    (case exec_lower env p (status_ok p (with_queue l q s)) of
       Return rc s \<Rightarrow> if rc \<noteq> 0 then osd_finish_command env p (upd_scsi p (\<lambda>sc. sc\<lparr>sc_status := 2\<rparr>) s) else Return 0 s
     | r \<Rightarrow> r)"
proof -
  obtain q where "osd_worker_step env l s = osd_device_command env p (with_queue l q s)"
    using osd_worker_takes [OF assms(1)] by blast
  then show ?thesis using object_command [of "with_queue l q s" p a env] assms(2) by auto
qed

lemma worker_reads_object:
  fixes s :: target_session and p :: ptr and a :: osd_args_t
  defines "sc \<equiv> scsi_of s p" and "seg \<equiv> max_data_seg_length (t_sess_params s)" and "ps \<equiv> object_pieces s p"
    and "old \<equiv> old_bytes (objects (t_osd s) (object_key s p a))"
  assumes "next_cmd s l p" "object_cmd s p a" "can_answer s p" "oa_service_action a = OSD_READ"
    and "openable env s (sc_lun sc) a" "\<And>k t. o_malloc env k t = addr" "addr \<noteq> NULL"
    and "unat (sc_trans_len sc) = unat (oa_length a)" "0 < sc_trans_len sc" "sc_todev sc = 0"
    and "seg \<noteq> 0" "unat (sc_trans_len sc) + unat seg \<le> 2 ^ 32" "sends_ok env (2 * length ps + 1) s"
  shows "\<exists>s' ms. osd_worker_step env l s = Return 0 s' \<and>
    t_out s' = t_out s @ ms @ [iscsi_scsi_rsp_encap (read_response s (sc_tag sc) (of_nat (length ps)))] \<and>
    length ms = 2 * length ps \<and> payload ms = object_bytes (unat (oa_offset a)) (unat (oa_length a)) old \<and>
    objects (t_osd s') = (objects (t_osd s))(object_key s p a \<mapsto> old) \<and> attributes (t_osd s') = attributes (t_osd s)"
proof -
  have ext: "extended_cmd s p a" using assms(6) by (simp add: object_cmd_def)
  obtain q where q: "osd_worker_step env l s = (case exec_lower env p (status_ok p (with_queue l q s)) of
       Return rc s \<Rightarrow> if rc \<noteq> 0 then osd_finish_command env p (upd_scsi p (\<lambda>sc. sc\<lparr>sc_status := 2\<rparr>) s) else Return 0 s
     | r \<Rightarrow> r)"
    using worker_executes [OF assms(5) ext] by blast
  define t where "t = status_ok p (with_queue l q s)"
  have sc: "scsi_of t p = sc\<lparr>sc_status := 0\<rparr>" by (simp add: t_def sc_def)
  obtain s' ms where s': "exec_upper env p t = Return 0 s'"
      "t_out s' = t_out s @ ms @ [iscsi_scsi_rsp_encap (read_response t (sc_tag sc) (of_nat (length ps)))]"
      "length ms = 2 * length ps" "payload ms = object_bytes (unat (oa_offset a)) (unat (oa_length a)) old"
      "objects (t_osd s') = (objects (t_osd s))(object_key s p a \<mapsto> old)" "attributes (t_osd s') = attributes (t_osd s)"
    using exec_upper_read [of t p a env addr] assms(6-17)
    unfolding sc by (auto simp: t_def ps_def old_def seg_def sc_def sends_ok_def)
  have "exec_lower env p t = Return 0 s'" using exec_lower_read [of t p env] s'(1) assms(14) by (simp add: sc)
  then have "osd_worker_step env l s = Return 0 s'" using q by (simp add: t_def)
  moreover have "read_response t tag k = read_response s tag k" for tag k
    by (rule read_response_cong) (simp_all add: t_def)
  ultimately show ?thesis using s' by (intro exI [of _ s'] exI [of _ ms]) simp
qed

lemma worker_writes_object:
  fixes s :: target_session and p :: ptr and a :: osd_args_t
  defines "sc \<equiv> scsi_of s p" and "imm \<equiv> tg_immediate (t_cmd_mem s p)"
    and "old \<equiv> old_bytes (objects (t_osd s) (object_key s p a))"
  assumes "next_cmd s l p" "object_cmd s p a" "can_answer s p" "oa_service_action a = OSD_WRITE"
    and "openable env s (sc_lun sc) a" "\<And>k t. o_malloc env k t = addr" "addr \<noteq> NULL"
    and "length imm = unat (sc_length sc)" "unat (oa_length a) = length imm" "length imm \<le> CONFIG_TARGET_MAX_IMMEDIATE"
    and "sc_fromdev sc = 0" "sc_todev sc \<noteq> 0" "sc_trans_len sc = sc_length sc" "e_send_ok env (t_sends s)"
  shows "\<exists>s'. osd_worker_step env l s = Return 0 s' \<and>
    t_out s' = t_out s @ [iscsi_scsi_rsp_encap (status_response s (sc\<lparr>sc_status := 0\<rparr>))] \<and>
    objects (t_osd s') = (objects (t_osd s))(object_key s p a \<mapsto> overwritten (unat (oa_offset a)) imm old) \<and>
    attributes (t_osd s') = attributes (t_osd s)"
proof -
  have ext: "extended_cmd s p a" using assms(5) by (simp add: object_cmd_def)
  obtain q where q: "osd_worker_step env l s = (case exec_lower env p (status_ok p (with_queue l q s)) of
       Return rc s \<Rightarrow> if rc \<noteq> 0 then osd_finish_command env p (upd_scsi p (\<lambda>sc. sc\<lparr>sc_status := 2\<rparr>) s) else Return 0 s
     | r \<Rightarrow> r)"
    using worker_executes [OF assms(4) ext] by blast
  define t where "t = status_ok p (with_queue l q s)"
  have sc: "scsi_of t p = sc\<lparr>sc_status := 0\<rparr>" by (simp add: t_def sc_def)
  have imm: "tg_immediate (t_cmd_mem t p) = imm" by (simp add: t_def imm_def)
  obtain s' where s': "exec_upper env p (write_buffer p addr t) = Return 0 s'"
      "t_out s' = t_out s @ [iscsi_scsi_rsp_encap (status_response t (sc\<lparr>sc_status := 0\<rparr>))]"
      "objects (t_osd s') = (objects (t_osd s))(object_key s p a \<mapsto> overwritten (unat (oa_offset a)) imm old)"
      "attributes (t_osd s') = attributes (t_osd s)"
    using exec_upper_write [of t p a env addr] assms(5-17)
    unfolding sc imm by (auto simp: t_def old_def sc_def)
  have "exec_lower env p t = Return 0 s'"
    using exec_lower_write [of t p env addr] s'(1) assms(9-16) by (simp add: sc)
  then have "osd_worker_step env l s = Return 0 s'" using q by (simp add: t_def)
  moreover have "status_response t c = status_response s c" for c
    by (simp add: status_response_def read_response_def t_def)
  ultimately show ?thesis using s' by (intro exI [of _ s']) simp
qed

end
