(* ===== verification/Osd_Ops.thy ===== *)
theory Osd_Ops
  imports Osd_Codec
begin

section \<open>The client of an object-based device\<close>

text \<open>
  The functions of \<^verbatim>\<open>osd_ops.c\<close>.  Each fills in the arguments of a command and hands them to \<^verbatim>\<open>osd_exec\<close>,
  a parameter of the functions as it is in the code: from the arguments, the bytes to send, what
  the receive buffer holds and the state of the transport it makes a return code, the new contents
  of the receive buffer and the new state.  What a local buffer holds before it is filled is a
  parameter, and so is the success of \<^verbatim>\<open>iscsi_malloc_atomic\<close>.  \<open>None\<close> is an access behind the end of a
  buffer.  A list of buffers to send from or to receive into is the bytes that it describes.
\<close>

type_synonym 'd osd_exec = "osd_args_t \<Rightarrow> byte list \<Rightarrow> byte list \<Rightarrow> 'd \<Rightarrow> int \<times> byte list \<times> 'd"

subsection \<open>The attributes of a reply\<close>

text \<open>The result is the return value and what \<open>val\<close> points to.\<close>

function extract_loop ::
  "u32 \<Rightarrow> u32 \<Rightarrow> u16 \<Rightarrow> byte list \<Rightarrow> nat \<Rightarrow> nat \<Rightarrow> byte list \<Rightarrow> (int \<times> byte list) option" where
  "extract_loop page index len data n i val =
    (if n \<le> i then Some (int i, val)
     else if length data < i + 4 then None
     else if ntohl (load32 data i) \<noteq> page then Some (-1, val)
     else if length data < i + 8 then None
     else if ntohl (load32 data (i + 4)) \<noteq> index then Some (-1, val)
     else if length data < i + 10 then None
     else if ntohs (load16 data (i + 8)) \<noteq> len then Some (-1, val)
     else if length data < i + 10 + unat len \<or> length val < unat len then None
     else extract_loop page index len data n (i + 10 + unat len)
            (take (unat len) (drop (i + 10) data) @ drop (unat len) val))"
  by pat_completeness auto

termination by (relation "measure (\<lambda>(page, index, len, data, n, i, val). n - i)") auto

declare extract_loop.simps [simp del]

definition extract_attribute ::
  "u32 \<Rightarrow> u32 \<Rightarrow> u16 \<Rightarrow> byte list \<Rightarrow> nat \<Rightarrow> byte list \<Rightarrow> (int \<times> byte list) option" where
  "extract_attribute page index len data n val = extract_loop page index len data n 0 val"

subsection \<open>Creating\<close>

definition object_args :: "u16 \<Rightarrow> u32 \<Rightarrow> u64 \<Rightarrow> osd_args_t" where
  "object_args action gid uid =
     blank_osd_args\<lparr>oa_opcode := 0x7f, oa_service_action := action, oa_GroupID := gid, oa_UserID := uid\<rparr>"

definition id_bytes :: "u64 \<Rightarrow> byte list" where "id_bytes uid = store64 (replicate 8 0) 0 uid"
definition gid_bytes :: "u32 \<Rightarrow> byte list" where "gid_bytes gid = store32 (replicate 4 0) 0 gid"

text \<open>The result is the return code, the identifier, and the state.\<close>

definition take_id :: "byte list \<Rightarrow> u64 \<Rightarrow> 'd \<Rightarrow> (int \<times> u64 \<times> 'd) option" where
  "take_id buf uid d =
    (case extract_attribute 0x1 0x2 8 buf 18 (id_bytes uid) of
       None \<Rightarrow> None
     | Some (rc, val) \<Rightarrow>
         if rc = -1 then Some (-1, load64 val 0, d) else Some (0, bswap_64 (load64 val 0), d))"

definition create_args :: "u32 \<Rightarrow> u64 \<Rightarrow> osd_args_t" where
  "create_args gid uid = (object_args OSD_CREATE gid uid)
     \<lparr>oa_get_attributes_page := 1, oa_get_attributes_allocation_length := 18\<rparr>"

definition osd_create :: "'d osd_exec \<Rightarrow> byte list \<Rightarrow> u32 \<Rightarrow> u64 \<Rightarrow> 'd \<Rightarrow> (int \<times> u64 \<times> 'd) option" where
  "osd_create osd_exec junk gid uid d =
    (case osd_exec (create_args gid uid) [] (take 18 junk) d of
       (rc, buf, d) \<Rightarrow> if rc \<noteq> 0 then Some (-1, uid, d) else take_id buf uid d)"

text \<open>The attribute and the reply use the same buffer of 1024 bytes.\<close>

definition attr_list :: "u32 \<Rightarrow> u32 \<Rightarrow> u32 \<Rightarrow> byte list" where
  "attr_list page index len =
     store16 (store32 (store32 (replicate 10 0) 0 (htonl page)) 4 (htonl index)) 8 (htons (ucast len))"

definition osd_create_and_set ::
  "'d osd_exec \<Rightarrow> u32 \<Rightarrow> u64 \<Rightarrow> u32 \<Rightarrow> u32 \<Rightarrow> u32 \<Rightarrow> byte list option \<Rightarrow> 'd \<Rightarrow> (int \<times> u64 \<times> 'd) option" where
  "osd_create_and_set osd_exec gid uid page index len value d =
    (let buffer = replicate 1024 0; a = create_args gid uid;
         run = (\<lambda>a send buffer.
           case osd_exec a send (take 18 buffer) d of
             (rc, recv, d) \<Rightarrow>
               if rc \<noteq> 0 then Some (-1, uid, d) else take_id (recv @ drop (length recv) buffer) uid d)
     in case value of
          None \<Rightarrow> run a [] buffer
        | Some v \<Rightarrow>
            if length v < unat len \<or> 1024 < 10 + unat len then None
            else
              let send = attr_list page index len @ take (unat len) v
              in run (a\<lparr>oa_set_attributes_list_length := 10 + len\<rparr>) send (send @ drop (length send) buffer))"

definition osd_create_group ::
  "'d osd_exec \<Rightarrow> byte list \<Rightarrow> u32 \<Rightarrow> 'd \<Rightarrow> (int \<times> u32 \<times> 'd) option" where
  "osd_create_group osd_exec junk gid d =
    (let a = (object_args OSD_CREATE_GROUP gid 0)
               \<lparr>oa_get_attributes_page := 0x40000001, oa_get_attributes_allocation_length := 14\<rparr>
     in case osd_exec a [] (take 14 junk) d of
          (rc, buf, d) \<Rightarrow>
            if rc \<noteq> 0 then Some (-1, gid, d)
            else case extract_attribute 0x40000001 0x1 4 buf 14 (gid_bytes gid) of
              None \<Rightarrow> None
            | Some (rc, val) \<Rightarrow>
                if rc = -1 then Some (-1, load32 val 0, d) else Some (0, ntohl (load32 val 0), d))"

subsection \<open>Removing, writing and reading\<close>

definition osd_remove_group :: "'d osd_exec \<Rightarrow> u32 \<Rightarrow> 'd \<Rightarrow> int \<times> 'd" where
  "osd_remove_group osd_exec gid d =
    (case osd_exec (object_args OSD_REMOVE_GROUP gid 0) [] [] d of
       (rc, buf, d) \<Rightarrow> (if rc \<noteq> 0 then -1 else 0, d))"

definition osd_remove :: "'d osd_exec \<Rightarrow> u32 \<Rightarrow> u64 \<Rightarrow> 'd \<Rightarrow> int \<times> 'd" where
  "osd_remove osd_exec gid uid d =
    (case osd_exec (object_args OSD_REMOVE gid uid) [] [] d of
       (rc, buf, d) \<Rightarrow> (if rc \<noteq> 0 then -1 else 0, d))"

definition osd_write :: "'d osd_exec \<Rightarrow> u32 \<Rightarrow> u64 \<Rightarrow> u64 \<Rightarrow> u64 \<Rightarrow> byte list \<Rightarrow> 'd \<Rightarrow> (int \<times> 'd) option" where
  "osd_write osd_exec gid uid offset len send_data d =
    (let a = (object_args OSD_WRITE gid uid)\<lparr>oa_offset := offset, oa_length := len\<rparr>
     in if length send_data < unat len then None
        else case osd_exec a (take (unat len) send_data) [] d of
          (rc, buf, d) \<Rightarrow> Some (if rc \<noteq> 0 then -1 else 0, d))"

text \<open>The second result is the receive buffer.\<close>

definition osd_read ::
  "'d osd_exec \<Rightarrow> u32 \<Rightarrow> u64 \<Rightarrow> u64 \<Rightarrow> u64 \<Rightarrow> byte list \<Rightarrow> 'd \<Rightarrow> (int \<times> byte list \<times> 'd) option" where
  "osd_read osd_exec gid uid offset len recv_data d =
    (let a = (object_args OSD_READ gid uid)\<lparr>oa_offset := offset, oa_length := len\<rparr>
     in if length recv_data < unat len then None
        else case osd_exec a [] (take (unat len) recv_data) d of
          (rc, buf, d) \<Rightarrow> Some (if rc \<noteq> 0 then -1 else 0, buf @ drop (unat len) recv_data, d))"

subsection \<open>Single attributes\<close>

text \<open>The sum \<^verbatim>\<open>10+len\<close> wraps; a buffer that became too small by that is overrun.\<close>

definition osd_set_one_attr ::
  "'d osd_exec \<Rightarrow> (u32 \<Rightarrow> bool) \<Rightarrow> u32 \<Rightarrow> u64 \<Rightarrow> u32 \<Rightarrow> u32 \<Rightarrow> u32 \<Rightarrow> byte list \<Rightarrow> 'd \<Rightarrow> (int \<times> 'd) option" where
  "osd_set_one_attr osd_exec malloc_ok gid uid page index len value d =
    (let a = (object_args OSD_SET_ATTR gid uid)
               \<lparr>oa_length := ucast (10 + len), oa_set_attributes_list_length := 10 + len\<rparr>
     in if \<not> malloc_ok (10 + len) then Some (-1, d)
        else if unat (10 + len) < 10 + unat len \<or> length value < unat len then None
        else case osd_exec a (attr_list page index len @ take (unat len) value) [] d of
          (rc, buf, d) \<Rightarrow> Some (if rc \<noteq> 0 then -1 else 0, d))"

text \<open>
  The value is taken from where it is in a reply with one attribute; the page, the index and the
  length that come with it are not looked at, and \<^verbatim>\<open>*len\<close> is not set.
\<close>

definition osd_get_one_attr ::
  "'d osd_exec \<Rightarrow> (u32 \<Rightarrow> bool) \<Rightarrow> byte list \<Rightarrow> u32 \<Rightarrow> u64 \<Rightarrow> u32 \<Rightarrow> u32 \<Rightarrow> u32 \<Rightarrow> 'd \<Rightarrow>
   (int \<times> byte list option \<times> 'd) option" where
  "osd_get_one_attr osd_exec malloc_ok junk gid uid page index alloc_len d =
    (let a = (object_args OSD_GET_ATTR gid uid)\<lparr>oa_get_attributes_allocation_length := 10 + alloc_len\<rparr>;
         a = (if index \<noteq> 0 then a\<lparr>oa_length := 8, oa_get_attributes_list_length := 8\<rparr>
              else a\<lparr>oa_get_attributes_page := page\<rparr>);
         send = (if index \<noteq> 0 then take 8 (attr_list page index 0) else [])
     in if \<not> malloc_ok (10 + alloc_len) then Some (-1, None, d)
        else case osd_exec a send (take (unat (10 + alloc_len)) junk) d of
          (rc, buf, d) \<Rightarrow>
            if rc \<noteq> 0 then Some (-1, None, d)
            else if length buf < 10 + unat alloc_len then None
            else Some (0, Some (take (unat alloc_len) (drop 10 buf)), d))"

subsection \<open>Commands over iSCSI\<close>

text \<open>
  \<^verbatim>\<open>osd_command\<close> is an \<^verbatim>\<open>osd_exec\<close>: the initiator gets the command and the two buffers, and gives back its
  return code, the status of the command and the receive buffer.
\<close>

definition osd_command ::
  "(iscsi_scsi_cmd_t \<Rightarrow> byte list \<Rightarrow> byte list \<Rightarrow> 'd \<Rightarrow> int \<times> byte \<times> byte list \<times> 'd) \<Rightarrow> u64 \<Rightarrow> 'd osd_exec" where
  "osd_command initiator_command lun a send recv d =
    (let sc = osd_command_build a (of_nat (length send)) (of_nat (length recv)) lun
     in case initiator_command sc send recv d of
          (rc, status, buf, d) \<Rightarrow> (if rc \<noteq> 0 \<or> status \<noteq> 0 then -1 else 0, buf, d))"

definition osd_command_async ::
  "(iscsi_scsi_cmd_t \<Rightarrow> byte list \<Rightarrow> byte list \<Rightarrow> 'd \<Rightarrow> int \<times> 'd) \<Rightarrow> u64 \<Rightarrow> osd_args_t \<Rightarrow> byte list \<Rightarrow> byte list \<Rightarrow>
   'd \<Rightarrow> int \<times> 'd" where
  "osd_command_async initiator_enqueue lun a send recv d =
    (let sc = osd_command_build a (of_nat (length send)) (of_nat (length recv)) lun
     in case initiator_enqueue sc send recv d of (rc, d) \<Rightarrow> (if rc \<noteq> 0 then -1 else 0, d))"

subsection \<open>What the client reads out of a reply\<close>

definition id_reply :: "u64 \<Rightarrow> byte list" where
  "id_reply uid = attr_list 1 2 8 @ id_bytes (bswap_64 uid)"

lemma length_attr_list [simp]: "length (attr_list page index len) = 10" "length (id_bytes uid) = 8"
  "length (id_reply uid) = 18"
  by (simp_all add: attr_list_def id_bytes_def id_reply_def wire)

lemma attr_list_fields:
  "ntohl (load32 (attr_list page index len) 0) = page" "ntohl (load32 (attr_list page index len) 4) = index"
  "ntohs (load16 (attr_list page index len) 8) = ucast len"
  by (simp_all add: attr_list_def wire)

lemma load_append:
  "i + 3 < length xs \<Longrightarrow> load32 (xs @ ys) i = load32 xs i" "i + 1 < length xs \<Longrightarrow> load16 (xs @ ys) i = load16 xs i"
  by (simp_all add: load32_def load16_def nth_append)

lemma take_id_reply: "take_id (id_reply uid) old d = Some (0, uid, d)"
proof -
  have f: "ntohl (load32 (id_reply uid) 0) = 1" "ntohl (load32 (id_reply uid) 4) = 2"
      "ntohs (load16 (id_reply uid) 8) = 8"
    unfolding id_reply_def by (simp_all add: load_append attr_list_fields)
  have v: "take 8 (drop 10 (id_reply uid)) = id_bytes (bswap_64 uid)" by (simp add: id_reply_def)
  have "extract_attribute 1 2 8 (id_reply uid) 18 (id_bytes old) = Some (18, id_bytes (bswap_64 uid))"
    unfolding extract_attribute_def
    by (subst extract_loop.simps, subst extract_loop.simps) (simp add: f v)
  moreover have "bswap_64 (load64 (id_bytes (bswap_64 uid)) 0) = uid" by (simp add: id_bytes_def wire)
  ultimately show ?thesis by (simp add: take_id_def)
qed

end
