(* ===== verification/Osd_Services.thy ===== *)
theory Osd_Services
  imports Osd_Commands Osd_Ops
begin

section \<open>Creating and removing objects\<close>

text \<open>
  What the services that create and remove objects do to the files of the device, and what a client learns
  from their answers.
\<close>

lemma exec_upper_args:
  assumes "osd_args_of s p = Some a"
  shows "exec_upper env p s =
    osd_service env p a
      (drop (unat (oa_set_attributes_list_length a) + unat (oa_get_attributes_list_length a)) (data_in s p)) s
      (exec_attributes env p (sc_lun (scsi_of s p)) (data_in s p))"
  using assms
  by (simp add: exec_upper_def osd_args_of_def Let_def data_in_def [symmetric] split: option.splits if_splits)

subsection \<open>Creation\<close>

text \<open>The identifier that the device gives an object: the one that is asked for, or a random one.\<close>

definition chosen_id :: "'e osd_env_scheme \<Rightarrow> target_session \<Rightarrow> osd_args_t \<Rightarrow> u64" where
  "chosen_id env s a = (if oa_UserID a = 0 then of_nat (fst (next_rand env s)) else oa_UserID a)"

definition creatable :: "'e osd_env_scheme \<Rightarrow> target_session \<Rightarrow> u64 \<Rightarrow> u32 \<Rightarrow> u64 \<Rightarrow> bool" where
  "creatable env s lun gid uid \<longleftrightarrow>
     (let b = o_base (t_osd s); f = object_path b lun gid uid
      in can_create (group_path b lun gid) f (t_osd s) \<and> (\<forall>t. o_allow env f t))"

lemma osd_file_more [simp]: "osd_file (d\<lparr>o_rands := r\<rparr>) f = osd_file d f"
  by (simp add: osd_file_def)

lemma can_create_more [simp]: "can_create g f (d\<lparr>o_rands := r\<rparr>) = can_create g f d"
  by (simp add: can_create_def)

lemma osd_service_create:
  assumes "oa_service_action a = OSD_CREATE" "creatable env s lun (oa_GroupID a) u"
    and "lun = sc_lun (scsi_of s p)" "u = chosen_id env s a"
  shows "\<exists>d'. osd_service env p a buf s k = k (a\<lparr>oa_UserID := u\<rparr>) 0 u (s\<lparr>t_osd := d'\<rparr>) \<and>
    objects d' = (objects (t_osd s))((lun, oa_GroupID a, u) \<mapsto> []) \<and> attributes d' = attributes (t_osd s)"
proof -
  define s1 where "s1 = (if oa_UserID a = 0 then snd (next_rand env s) else s)"
  have s1: "o_base (t_osd s1) = o_base (t_osd s)" "osd_file (t_osd s1) = osd_file (t_osd s)"
      "\<And>g f. can_create g f (t_osd s1) = can_create g f (t_osd s)" "s1\<lparr>t_osd := d\<rparr> = s\<lparr>t_osd := d\<rparr>" for d
    by (simp_all add: s1_def next_rand_def Let_def fun_eq_iff)
  let ?f = "object_path (o_base (t_osd s)) lun (oa_GroupID a) u"
  note c = assms(2) [unfolded creatable_def Let_def]
  obtain d' where d': "fs_create True True (group_path (o_base (t_osd s)) lun (oa_GroupID a)) ?f (t_osd s1) = Done d'"
      "osd_file d' = (osd_file (t_osd s))(?f \<mapsto> [])" "o_base d' = o_base (t_osd s)"
    using fs_create_done [of "group_path (o_base (t_osd s)) lun (oa_GroupID a)" ?f "t_osd s1" True] c s1 by auto
  have "osd_service env p a buf s k = create_object env True lun (oa_GroupID a) ?f s1 (k (a\<lparr>oa_UserID := u\<rparr>) 0 u)"
    using assms(1,3,4)
    by (simp add: osd_service_def Let_def osd_actions s1_def chosen_id_def split: prod.split)
  also have "\<dots> = k (a\<lparr>oa_UserID := u\<rparr>) 0 u (s\<lparr>t_osd := d'\<rparr>)"
    using c d'(1) s1 by (simp add: create_object_def)
  finally show ?thesis using objects_upd [OF d'(2,3)] by (intro exI [of _ d']) simp
qed

text \<open>The reply to a client that wants to know the identifier.\<close>

definition with_reply_data :: "ptr \<Rightarrow> nat \<Rightarrow> target_cmd \<Rightarrow> target_cmd" where
  "with_reply_data addr n c = c\<lparr>tg_scsi := (tg_scsi c)\<lparr>sc_fromdev := 1\<rparr>,
     tg_gather_type := (tg_gather_type c)(length (tg_gather c) := MEM_HEAP),
     tg_gather := tg_gather c @ [\<lparr>iov_base = addr, iov_len = n\<rparr>]\<rparr>"

lemma exec_attributes_id:
  assumes "oa_set_attributes_list_length a = 0" "oa_get_attributes_list_length a = 0"
    and "oa_get_attributes_page a = 1" "oa_get_attributes_allocation_length a = 18"
    and "\<And>k t. o_malloc env k t = addr" "addr \<noteq> NULL"
  shows "exec_attributes env p lun buf a gid uid s =
    osd_reply env p (upd_cmd p (with_reply_data addr 18)
      (s\<lparr>t_mem := put_mem [addr..<addr + 18] (id_reply uid) (t_mem s)\<rparr>))"
proof -
  let ?out = "id_reply uid"
  have out: "attr_header 1 2 (of_nat 8) @ store64 (replicate 8 0) 0 (bswap_64 uid) = ?out"
    by (simp add: attr_header_def id_reply_def attr_list_def id_bytes_def)
  have v: "attr_value env lun a gid uid 1 2 s = Some (store64 (replicate 8 0) 0 (bswap_64 uid))"
    by (simp add: attr_value_def)
  have "get_page env lun a gid uid [] s k = k ?out" for k
    using assms(3,4) out
    by (simp add: get_page_def page_index_def add_attr_def attr_known_def v wire Let_def)
  then have "exec_attributes env p lun buf a gid uid s = reply_attrs env p a addr ?out s"
    using assms by (simp add: exec_attributes_def Let_def set_attrs.simps get_attrs.simps)
  also have "\<dots> = osd_reply env p (upd_cmd p (with_reply_data addr 18)
      (s\<lparr>t_mem := put_mem [addr..<addr + 18] ?out (t_mem s)\<rparr>))"
    using assms(4) unfolding reply_attrs_def osd_reply_def Let_def
    by (simp add: with_reply_data_def [abs_def])
  finally show ?thesis .
qed

lemma openable_parts:
  "creatable env (with_queue l q s) lun gid u = creatable env s lun gid u"
  "creatable env (status_ok p s) lun gid u = creatable env s lun gid u"
  by (simp_all add: creatable_def with_queue_def can_create_def)

lemma chosen_id_simps [simp]:
  "chosen_id env (with_queue l q s) a = chosen_id env s a" "chosen_id env (status_ok p s) a = chosen_id env s a"
  by (simp_all add: chosen_id_def next_rand_def with_queue_def Let_def)

lemma worker_creates_object:
  fixes env :: "'e osd_env_scheme" and s :: target_session and p :: ptr and a :: osd_args_t
  defines "sc \<equiv> scsi_of s p" and "seg \<equiv> max_data_seg_length (t_sess_params s)" and "ps \<equiv> object_pieces s p"
    and "uid \<equiv> chosen_id env s a"
  assumes "next_cmd s l p" "extended_cmd s p a" "can_answer s p" "a = create_args gid uid0"
    and "creatable env s (sc_lun sc) gid uid" "\<And>k t. o_malloc env k t = addr" "addr \<noteq> NULL"
    and "sc_trans_len sc = 18" "sc_todev sc = 0"
    and "seg \<noteq> 0" "18 + unat seg \<le> 2 ^ 32" "sends_ok env (2 * length ps + 1) s"
  shows "\<exists>s' ms. osd_worker_step env l s = Return 0 s' \<and>
    t_out s' = t_out s @ ms @ [iscsi_scsi_rsp_encap (read_response s (sc_tag sc) (of_nat (length ps)))] \<and>
    length ms = 2 * length ps \<and> payload ms = id_reply uid \<and>
    objects (t_osd s') = (objects (t_osd s))((sc_lun sc, gid, uid) \<mapsto> []) \<and> attributes (t_osd s') = attributes (t_osd s)"
proof -
  obtain q where q: "osd_worker_step env l s = (case exec_lower env p (status_ok p (with_queue l q s)) of
       Return rc s \<Rightarrow> if rc \<noteq> 0 then osd_finish_command env p (upd_scsi p (\<lambda>sc. sc\<lparr>sc_status := 2\<rparr>) s) else Return 0 s
     | r \<Rightarrow> r)"
    using worker_executes [OF assms(5,6)] by blast
  define t where "t = status_ok p (with_queue l q s)"
  have a: "oa_service_action a = OSD_CREATE" "oa_GroupID a = gid" "oa_set_attributes_list_length a = 0"
      "oa_get_attributes_list_length a = 0" "oa_get_attributes_page a = 1" "oa_get_attributes_allocation_length a = 18"
    by (simp_all add: assms(8) create_args_def object_args_def blank_osd_args_def)
  have sc: "scsi_of t p = sc\<lparr>sc_status := 0\<rparr>" by (simp add: t_def sc_def)
  have ext: "extended_cmd t p a" using assms(6) by (simp add: t_def)
  note c = ext [unfolded extended_cmd_def Let_def]
  let ?K = "exec_attributes env p (sc_lun (scsi_of t p)) (data_in t p)"
  obtain d' where d': "osd_service env p a (data_in t p) t ?K = ?K (a\<lparr>oa_UserID := uid\<rparr>) 0 uid (t\<lparr>t_osd := d'\<rparr>)"
      "objects d' = (objects (t_osd s))((sc_lun sc, gid, uid) \<mapsto> [])" "attributes d' = attributes (t_osd s)"
    using osd_service_create [of a env t "sc_lun (scsi_of t p)" uid p "data_in t p" ?K] assms(9) a
    by (auto simp: t_def sc_def openable_parts uid_def)
  define u where "u = upd_cmd p (with_reply_data addr 18)
    (t\<lparr>t_osd := d', t_mem := put_mem [addr..<addr + 18] (id_reply uid) (t_mem t)\<rparr>)"
  have up: "exec_upper env p t = osd_reply env p u"
    using exec_upper_args [of t p a env] c d'(1) a assms(10,11)
    by (simp add: exec_attributes_id [where addr = addr] u_def)
  have g: "tg_gather (t_cmd_mem t p) = []" "tg_scatter (t_cmd_mem t p) = []" "\<not> tg_send_data (t_cmd_mem t p)"
    using c by simp_all
  have u: "scsi_of u p = sc\<lparr>sc_status := 0, sc_fromdev := 1\<rparr>" "tg_gather (t_cmd_mem u p) = [\<lparr>iov_base = addr, iov_len = 18\<rparr>]"
      "t_sess_params u = t_sess_params s" "t_slock u = t_slock s" "t_UsePhaseCollapsedRead u = t_UsePhaseCollapsedRead s"
      "t_sends u = t_sends s" "t_out u = t_out s" "t_osd u = d'" "\<not> tg_send_data (t_cmd_mem u p)"
      "t_StatSN u = t_StatSN s" "t_ExpCmdSN u = t_ExpCmdSN s" "t_MaxCmdSN u = t_MaxCmdSN s"
      "t_mem u = put_mem [addr..<addr + 18] (id_reply uid) (t_mem s)"
    using g sc by (simp_all add: u_def with_reply_data_def scsi_of_def) (simp_all add: t_def)
  have plain: "osd_plain_cmd (t_cmd_mem u p)"
    using c g by (simp add: u_def with_reply_data_def osd_plain_cmd_def scsi_of_def)
  have rel: "releasable u p"
    using assms(7) by (subst releasable_cong [of _ s]) (simp_all add: can_answer_def u(1) sc_def u_def t_def with_reply_data_def)
  let ?A = "[addr..<addr + 18]"
  let ?ms = "read_messages u (scsi_of u p) ?A 0 ps"
  obtain s' where s': "osd_reply env p u = Return 0 s'"
      "t_out s' = t_out u @ ?ms @ [iscsi_scsi_rsp_encap (read_response u (sc_tag sc) (of_nat (length ps)))]" "t_osd s' = d'"
    using osd_reply_data [of ps u p env, OF _ _ _ _ _ _ _ _ _ _ _ _ _ rel plain] assms(7,11-16)
    by (auto simp: u seg_def ps_def object_pieces_def sc_def [symmetric] can_answer_def iovs_addrs_def iov_addrs_def iovs_len_def sends_ok_def)
  have "payload ?ms = map (t_mem u) ?A"
    using payload_read_messages [of "unat seg" 0 18 ?A u "scsi_of u p" 0] assms(12,14)
    by (simp add: ps_def object_pieces_def seg_def [symmetric] sc_def [symmetric] unat_gt_0)
  also have "\<dots> = id_reply uid" unfolding u(13) by (rule put_mem_same) simp_all
  finally have "payload ?ms = id_reply uid" .
  moreover have "read_response u tag k = read_response s tag k" for tag k by (rule read_response_cong) (simp_all add: u)
  moreover have "exec_lower env p t = Return 0 s'"
    using exec_lower_read [of t p env] up s'(1) assms(13) by (simp add: sc)
  ultimately show ?thesis
    using q s' d'(2,3) by (intro exI [of _ s'] exI [of _ ?ms]) (simp add: t_def [symmetric] u)
qed

subsection \<open>Removal\<close>

text \<open>
  The shell removes every file whose name begins with the object's: the object, its attributes, and
  whatever other object has a number whose hexadecimal digits begin with those of this one.
\<close>

definition id_extends :: "u64 \<Rightarrow> u64 \<Rightarrow> bool" where
  "id_extends uid uid' \<longleftrightarrow> take (length (nat_hex (unat uid))) (nat_hex (unat uid')) = nat_hex (unat uid)"

lemma id_extends_self [simp]: "id_extends uid uid"
  by (simp add: id_extends_def)

lemma matches_append: "matches pre (pre' @ f) \<longleftrightarrow> matches ys f" if "pre = pre' @ ys"
  by (simp add: that matches_def)

lemma matches_iff: "matches pre f \<longleftrightarrow> (\<exists>r. f = pre @ r \<and> CHR ''/'' \<notin> set r)"
proof
  assume "matches pre f"
  then have "f = pre @ drop (length pre) f" "CHR ''/'' \<notin> set (drop (length pre) f)"
    by (auto simp: matches_def) (metis append_take_drop_id)
  then show "\<exists>r. f = pre @ r \<and> CHR ''/'' \<notin> set r" by blast
qed (auto simp: matches_def)

lemma id_extends_iff: "id_extends u u' \<longleftrightarrow> (\<exists>r. nat_hex (unat u') = nat_hex (unat u) @ r)"
proof
  assume "id_extends u u'"
  then have "nat_hex (unat u') = nat_hex (unat u) @ drop (length (nat_hex (unat u))) (nat_hex (unat u'))"
    unfolding id_extends_def by (metis append_take_drop_id)
  then show "\<exists>r. nat_hex (unat u') = nat_hex (unat u) @ r" by blast
qed (auto simp: id_extends_def)

lemma no_slash_append: "nat_hex n = xs @ r \<Longrightarrow> CHR ''/'' \<notin> set r" "nat_hex n = xs @ r \<Longrightarrow> CHR ''.'' \<notin> set r"
  using no_slash(1,3) [of n] by auto

lemma matches_object:
  "matches (object_path b l g u) (object_path b l' g' u') \<longleftrightarrow> l' = l \<and> g' = g \<and> id_extends u u'"
proof -
  have "matches (object_path b l g u) (object_path b l' g' u') \<longleftrightarrow>
      l' = l \<and> g' = g \<and> (\<exists>r. nat_hex (unat u') = nat_hex (unat u) @ r \<and> CHR ''/'' \<notin> set r)"
    by (auto simp: matches_iff object_path_def group_path_def lun_path_def split_at word_unat_eq_iff)
  then show ?thesis using no_slash_append(1) by (auto simp: id_extends_iff)
qed

lemma hex_then_dot: "nat_hex m @ CHR ''.'' # t = nat_hex n @ r \<Longrightarrow> \<exists>r'. nat_hex m = nat_hex n @ r'"
proof -
  assume "nat_hex m @ CHR ''.'' # t = nat_hex n @ r"
  then obtain us where "nat_hex m = nat_hex n @ us \<or> nat_hex m @ us = nat_hex n \<and> CHR ''.'' # t = us @ r"
    by (auto simp: append_eq_append_conv2)
  moreover have "us = []" if "nat_hex m @ us = nat_hex n" "CHR ''.'' # t = us @ r"
  proof (rule ccontr)
    assume "us \<noteq> []"
    then have "CHR ''.'' \<in> set us" using that(2) by (cases us) auto
    then have "CHR ''.'' \<in> set (nat_hex n)" by (simp flip: that(1))
    then show False by simp
  qed
  ultimately show ?thesis by (metis append_Nil2)
qed

lemma matches_attr:
  "matches (object_path b l g u) (attr_path b l' g' u' i j) \<longleftrightarrow> l' = l \<and> g' = g \<and> id_extends u u'"
proof
  assume "matches (object_path b l g u) (attr_path b l' g' u' i j)"
  then show "l' = l \<and> g' = g \<and> id_extends u u'"
    using hex_then_dot [of "unat u'" _ "unat u"]
    by (auto simp: matches_iff attr_path_def object_path_def group_path_def lun_path_def split_at
        word_unat_eq_iff id_extends_iff)
next
  assume "l' = l \<and> g' = g \<and> id_extends u u'"
  then show "matches (object_path b l g u) (attr_path b l' g' u' i j)"
    using no_slash_append(1) [of "unat u'" "nat_hex (unat u)"]
    by (auto simp: matches_iff attr_path_def object_path_def group_path_def lun_path_def id_extends_iff)
qed

lemma osd_file_remove:
  "osd_file (fs_remove_matching pre d) f = (if matches pre f then None else osd_file d f)"
proof -
  have "map_of (filter (\<lambda>(f, bs). \<not> matches pre f) xs) f = (if matches pre f then None else map_of xs f)" for xs :: "(string \<times> byte list) list"
    by (induction xs) auto
  then show ?thesis by (simp add: osd_file_def fs_remove_matching_def)
qed

lemma fs_remove_objects:
  "objects (fs_remove_matching (object_path (o_base d) l g u) d) =
     (\<lambda>(l', g', u'). if l' = l \<and> g' = g \<and> id_extends u u' then None else objects d (l', g', u'))"
  "attributes (fs_remove_matching (object_path (o_base d) l g u) d) =
     (\<lambda>((l', g', u'), i). if l' = l \<and> g' = g \<and> id_extends u u' then None else attributes d ((l', g', u'), i))"
proof -
  have b: "o_base (fs_remove_matching pre d) = o_base d" for pre by (simp add: fs_remove_matching_def)
  show "objects (fs_remove_matching (object_path (o_base d) l g u) d) =
     (\<lambda>(l', g', u'). if l' = l \<and> g' = g \<and> id_extends u u' then None else objects d (l', g', u'))"
    by (simp add: objects_def b osd_file_remove matches_object fun_eq_iff)
  show "attributes (fs_remove_matching (object_path (o_base d) l g u) d) =
     (\<lambda>((l', g', u'), i). if l' = l \<and> g' = g \<and> id_extends u u' then None else attributes d ((l', g', u'), i))"
    by (auto simp: attributes_def b osd_file_remove matches_attr fun_eq_iff)
qed

lemma osd_service_remove:
  assumes "oa_service_action a = OSD_REMOVE"
  shows "osd_service env p a buf s k =
    (let f = object_path (o_base (t_osd s)) (sc_lun (scsi_of s p)) (oa_GroupID a) (oa_UserID a)
     in if \<not> o_shell_ok env f s then Exits s
        else k a 0 0 (status_ok p (s\<lparr>t_osd := fs_remove_matching f (t_osd s)\<rparr>)))"
  using assms by (simp add: osd_service_def Let_def osd_actions status_ok_def)

lemma worker_removes_object:
  fixes s :: target_session and p :: ptr and a :: osd_args_t
  defines "sc \<equiv> scsi_of s p"
  assumes "next_cmd s l p" "object_cmd s p a" "can_answer s p" "oa_service_action a = OSD_REMOVE"
    and "\<And>f t. o_shell_ok env f t" "sc_fromdev sc = 0" "sc_todev sc = 0" "e_send_ok env (t_sends s)"
  shows "\<exists>s'. osd_worker_step env l s = Return 0 s' \<and>
    t_out s' = t_out s @ [iscsi_scsi_rsp_encap (status_response s (sc\<lparr>sc_status := 0\<rparr>))] \<and>
    objects (t_osd s') = (\<lambda>(l', g', u'). if l' = sc_lun sc \<and> g' = oa_GroupID a \<and> id_extends (oa_UserID a) u'
      then None else objects (t_osd s) (l', g', u')) \<and>
    attributes (t_osd s') = (\<lambda>((l', g', u'), i). if l' = sc_lun sc \<and> g' = oa_GroupID a \<and> id_extends (oa_UserID a) u'
      then None else attributes (t_osd s) ((l', g', u'), i))"
proof -
  have ext: "extended_cmd s p a" using assms(3) by (simp add: object_cmd_def)
  obtain q where q: "osd_worker_step env l s = (case exec_lower env p (status_ok p (with_queue l q s)) of
       Return rc s \<Rightarrow> if rc \<noteq> 0 then osd_finish_command env p (upd_scsi p (\<lambda>sc. sc\<lparr>sc_status := 2\<rparr>) s) else Return 0 s
     | r \<Rightarrow> r)"
    using worker_executes [OF assms(2) ext] by blast
  define t where "t = status_ok p (with_queue l q s)"
  have sc: "scsi_of t p = sc\<lparr>sc_status := 0\<rparr>" by (simp add: t_def sc_def)
  have cmd: "object_cmd t p a" using assms(3) by (simp add: t_def)
  note c = cmd [unfolded object_cmd_def extended_cmd_def Let_def]
  let ?f = "object_path (o_base (t_osd t)) (sc_lun sc) (oa_GroupID a) (oa_UserID a)"
  define u where "u = status_ok p (t\<lparr>t_osd := fs_remove_matching ?f (t_osd t)\<rparr>)"
  have up: "exec_upper env p t = osd_reply env p u"
    using exec_upper_service [of t p a env] c assms(6)
    by (simp add: u_def sc Let_def osd_service_remove [OF assms(5)])
  have cmdm: "t_cmd_mem (t\<lparr>t_osd := d\<rparr>) p = t_cmd_mem t p" "scsi_of (t\<lparr>t_osd := d\<rparr>) p = scsi_of t p" for d
    by (simp_all add: scsi_of_def)
  have u: "scsi_of u p = sc\<lparr>sc_status := 0\<rparr>" "t_slock u = t_slock s" "t_UsePhaseCollapsedRead u = t_UsePhaseCollapsedRead s"
      "t_sends u = t_sends s" "t_out u = t_out s" "t_osd u = fs_remove_matching ?f (t_osd t)"
      "tg_send_data (t_cmd_mem u p) = tg_send_data (t_cmd_mem t p)"
      "t_StatSN u = t_StatSN s" "t_ExpCmdSN u = t_ExpCmdSN s" "t_MaxCmdSN u = t_MaxCmdSN s"
    by (simp_all add: u_def cmdm sc) (simp_all add: t_def)
  have plain: "osd_plain_cmd (t_cmd_mem u p)"
    using c by (simp add: u_def osd_plain_cmd_def cmdm) (simp add: scsi_of_def)
  have rel: "releasable u p"
    using assms(4) by (subst releasable_cong [of _ s]) (simp_all add: can_answer_def u(1) sc_def, simp_all add: u_def t_def)
  obtain s' where s': "osd_reply env p u = Return 0 s'"
      "t_out s' = t_out u @ [iscsi_scsi_rsp_encap (status_response u (sc\<lparr>sc_status := 0\<rparr>))]" "t_osd s' = t_osd u"
    using osd_reply_status [of u p env, OF _ _ _ _ _ _ rel plain] assms(4,7-9) c
    by (auto simp: u can_answer_def)
  have "status_response u x = status_response s x" for x
    by (simp add: status_response_def read_response_def u)
  moreover have "exec_lower env p t = Return 0 s'"
    using exec_lower_read [of t p env] up s'(1) assms(8) by (simp add: sc)
  moreover have same: "objects (t_osd t) = objects (t_osd s)" "attributes (t_osd t) = attributes (t_osd s)"
    by (simp_all add: t_def)
  ultimately show ?thesis
    using q s' fs_remove_objects [of "t_osd t" "sc_lun sc" "oa_GroupID a" "oa_UserID a", unfolded same]
    by (intro exI [of _ s']) (simp add: t_def [symmetric] u)
qed

subsection \<open>Refusal\<close>

definition known_actions :: "u16 list" where
  "known_actions = [OSD_CREATE_GROUP, OSD_REMOVE_GROUP, OSD_CREATE, OSD_REMOVE, OSD_WRITE, OSD_READ,
     OSD_GET_ATTR, OSD_SET_ATTR]"

text \<open>Commands that a client may send by mistake: an unknown action, or one on a group that is not there.\<close>

definition user_error :: "target_session \<Rightarrow> ptr \<Rightarrow> osd_args_t \<Rightarrow> bool" where
  "user_error s p a \<longleftrightarrow> oa_service_action a \<notin> set known_actions \<or>
     oa_service_action a \<in> {OSD_CREATE, OSD_WRITE, OSD_READ, OSD_REMOVE_GROUP} \<and>
     group_path (o_base (t_osd s)) (sc_lun (scsi_of s p)) (oa_GroupID a) \<notin> set (o_dirs (t_osd s))"

lemma create_object_refused:
  "group_path (o_base (t_osd s)) lun gid \<notin> set (o_dirs (t_osd s)) \<Longrightarrow> create_object env trunc lun gid f s k = Exits s"
  by (simp add: create_object_def fs_create_def)

lemma osd_service_refused:
  assumes "user_error s p a"
  shows "\<exists>s'. osd_service env p a buf s k = Exits s'"
proof (cases "oa_service_action a \<in> set known_actions")
  case False
  then show ?thesis by (simp add: osd_service_def Let_def known_actions_def)
next
  case True
  then have g: "oa_service_action a \<in> {OSD_CREATE, OSD_WRITE, OSD_READ, OSD_REMOVE_GROUP}"
      "group_path (o_base (t_osd s)) (sc_lun (scsi_of s p)) (oa_GroupID a) \<notin> set (o_dirs (t_osd s))"
    using assms by (auto simp: user_error_def)
  have r: "o_base (t_osd (snd (next_rand env s))) = o_base (t_osd s)" "o_dirs (t_osd (snd (next_rand env s))) = o_dirs (t_osd s)"
    by (simp_all add: next_rand_def Let_def)
  have up: "t_osd (upd_cmd p h s) = t_osd s" for h by simp
  consider "oa_service_action a = OSD_CREATE" | "oa_service_action a = OSD_WRITE"
    | "oa_service_action a = OSD_READ" | "oa_service_action a = OSD_REMOVE_GROUP"
    using g(1) by auto
  then show ?thesis
  proof cases
    case 1
    then show ?thesis
      using g(2) r
      by (cases "next_rand env s") (simp add: osd_service_def Let_def osd_actions create_object_refused)
  next
    case 2
    then show ?thesis
      using g(2) by (simp add: osd_service_rw osd_write_object_def Let_def create_object_refused)
  next
    case 3
    then show ?thesis
      using g(2) by (simp add: osd_service_rw osd_read_object_def Let_def create_object_refused up)
  next
    case 4
    then show ?thesis
      using g(2) by (simp add: osd_service_def Let_def osd_actions fs_rmdir_def)
  qed
qed

lemma worker_refuses:
  assumes "next_cmd s l p" "extended_cmd s p a" "sc_todev (scsi_of s p) = 0" "user_error s p a"
  shows "\<exists>s'. osd_worker_step env l s = Exits s'"
proof -
  obtain q where q: "osd_worker_step env l s = (case exec_lower env p (status_ok p (with_queue l q s)) of
       Return rc s \<Rightarrow> if rc \<noteq> 0 then osd_finish_command env p (upd_scsi p (\<lambda>sc. sc\<lparr>sc_status := 2\<rparr>) s) else Return 0 s
     | r \<Rightarrow> r)"
    using worker_executes [OF assms(1,2)] by blast
  define t where "t = status_ok p (with_queue l q s)"
  have "osd_args_of t p = osd_args_of (with_queue l q s) p"
    by (rule osd_args_of_cong) (simp_all add: t_def)
  then have "osd_args_of t p = Some a" using assms(2) by (simp add: extended_cmd_def Let_def)
  moreover have "user_error t p a" using assms(4) by (simp add: user_error_def t_def) (simp add: with_queue_def)
  ultimately obtain s' where "exec_upper env p t = Exits s'"
    using exec_upper_args [of t p a env] osd_service_refused [of t p a] by metis
  moreover have "sc_todev (scsi_of t p) = 0" using assms(3) by (simp add: t_def)
  ultimately show ?thesis using q exec_lower_read [of t p env] by (simp add: t_def)
qed

end
