(* ===== verification/Osd_Wire.thy ===== *)
theory Osd_Wire
  imports Target_Requests Disk_Writes Osd_Exec
begin

section \<open>Object commands on the wire\<close>

text \<open>
  The descriptor block of an object command travels in two parts: its first 16 bytes in the header
  of the command PDU, the others in an additional header segment.
\<close>

lemma length_bidi_segment [simp]: "length (bidi_segment n) = 8"
  by (simp add: bidi_segment_def Let_def wire)

lemma length_cdb_segment [simp]: "length cdb = CONFIG_OSD_CDB_LEN \<Longrightarrow> length (cdb_segment cdb) = 116"
  by (simp add: cdb_segment_def Let_def wire CONFIG_OSD_CDB_LEN_def)

lemma load16_append:
  "k = length xs \<Longrightarrow> load16 (xs @ ys) k = load16 ys 0" "i + 1 < length xs \<Longrightarrow> load16 (xs @ ys) i = load16 xs i"
  by (simp_all add: load16_def nth_append)

lemma load16_take: "i + 1 < n \<Longrightarrow> load16 (take n xs) i = load16 xs i"
  by (simp add: load16_def)

lemma bidi_segment_fields:
  "ntohs (load16 (bidi_segment n) 0) = 8" "bidi_segment n ! 2 = 2"
  by (simp_all add: bidi_segment_def Let_def wire)

lemma cdb_segment_fields:
  "ntohs (load16 (cdb_segment cdb) 0) = 113" "cdb_segment cdb ! 2 = 1" "j < 60 \<Longrightarrow> cdb_segment cdb ! (4 + j) = drop 16 cdb ! j"
proof -
  let ?h = "(store16 (replicate 4 0) 0 (htons 113))[2 := 1] :: byte list"
  have l: "length ?h = 4" by (simp add: wire)
  have c: "cdb_segment cdb = ?h @ drop 16 cdb" by (simp add: cdb_segment_def Let_def CONFIG_OSD_CDB_LEN_def)
  show "ntohs (load16 (cdb_segment cdb) 0) = 113"
    unfolding c using l by (simp add: load16_append wire)
  show "cdb_segment cdb ! 2 = 1" unfolding c using l by (simp add: nth_append)
  show "cdb_segment cdb ! (4 + j) = drop 16 cdb ! j" unfolding c using l by (simp add: nth_append)
qed

text \<open>The loop over the segments at the one with the descriptor block, which is the last.\<close>

lemma ahs_loop_cdb:
  assumes "length cdb = CONFIG_OSD_CDB_LEN" "k = length pre"
  shows "ahs_loop (pre @ take 113 (cdb_segment cdb) @ post) (k + 113) k sc = Some (Inl (True, sc\<lparr>sc_ext_cdb := Some (k + 4)\<rparr>))"
proof -
  let ?A = "pre @ take 113 (cdb_segment cdb) @ post"
  have l: "length (take 113 (cdb_segment cdb)) = 113" using assms(1) by simp
  have at: "load16 ?A k = load16 (cdb_segment cdb) 0" "?A ! (k + 2) = cdb_segment cdb ! 2"
    using assms(2) l by (simp_all add: load16_def nth_append)
  show ?thesis
    using l assms(2) at
    by (subst ahs_loop.simps, subst ahs_loop.simps) (simp add: Let_def cdb_segment_fields)
qed

text \<open>The additional header as it arrives in the command structure of the target.\<close>

definition osd_ahs :: "byte list \<Rightarrow> byte list" where
  "osd_ahs cdb = take 113 (cdb_segment cdb)"

lemma build_ahs:
  fixes a :: osd_args_t and n m lun :: u64
  defines "cdb \<equiv> OSD_ENCAP_CDB a (replicate CONFIG_OSD_CDB_LEN 0)" and "c \<equiv> osd_command_build a n m lun"
    and "pre \<equiv> if n \<noteq> 0 \<and> m \<noteq> 0 then bidi_segment m else []"
  shows "take (unat (sc_ahs_len c)) (sc_ahs c) = pre @ osd_ahs cdb" "unat (sc_ahs_len c) = length pre + 113"
    "length (sc_ahs c) = 128" "sc_cdb c = cdb" "length cdb = CONFIG_OSD_CDB_LEN"
proof -
  show l: "length cdb = CONFIG_OSD_CDB_LEN" by (simp add: cdb_def)
  show len: "unat (sc_ahs_len c) = length pre + 113"
    by (simp add: c_def pre_def osd_command_build_def Let_def CONFIG_OSD_CDB_LEN_def)
  show "sc_cdb c = cdb" by (simp add: c_def cdb_def osd_command_build_def Let_def)
  have ahs: "sc_ahs c = memcpy (replicate 128 0) 0 (pre @ cdb_segment cdb)"
    by (simp add: c_def cdb_def pre_def osd_command_build_def Let_def blank_scsi_cmd_def CONFIG_ISCSI_MAX_AHS_LEN_def)
  have "length (pre @ cdb_segment cdb) \<le> 124" using l by (simp add: pre_def)
  then show "length (sc_ahs c) = 128" unfolding ahs by (simp add: wire)
  show "take (unat (sc_ahs_len c)) (sc_ahs c) = pre @ osd_ahs cdb"
    unfolding ahs len using l by (simp add: memcpy_def osd_ahs_def)
qed

lemma ahs_loop_built:
  assumes "length cdb = CONFIG_OSD_CDB_LEN" "pre = (if bidi then bidi_segment m else [])"
  shows "\<exists>x sc'. ahs_loop (pre @ osd_ahs cdb @ post) (length pre + 113) 0 sc = Some (Inl (True, sc')) \<and>
    sc_ext_cdb sc' = Some x \<and> x = length pre + 4 \<and> sc_ahs sc' = sc_ahs sc \<and> sc_cdb sc' = sc_cdb sc \<and>
    sc_lun sc' = sc_lun sc \<and> sc_trans_len sc' = sc_trans_len sc"
proof (cases bidi)
  case True
  let ?A = "bidi_segment m @ osd_ahs cdb @ post"
  have at: "load16 ?A 0 = load16 (bidi_segment m) 0" "?A ! 2 = bidi_segment m ! 2"
    by (simp_all add: load16_append nth_append)
  have "?A ! Suc (Suc 0) = 2" using at(2) bidi_segment_fields(2) [of m] by (simp add: numeral_2_eq_2)
  with at(1) have "ahs_loop ?A (8 + 113) 0 sc = ahs_loop ?A (8 + 113) 8 (sc\<lparr>sc_bidi_trans_len := ntohl (load32 ?A 4)\<rparr>)"
    using assms(1) by (subst ahs_loop.simps) (simp add: bidi_segment_fields osd_ahs_def Let_def)
  then show ?thesis
    using ahs_loop_cdb [OF assms(1), of 8 "bidi_segment m" post] True assms(2) by (simp add: osd_ahs_def)
next
  case False
  then show ?thesis
    using ahs_loop_cdb [OF assms(1), of 0 "[]" post sc] assms(2) by (simp add: osd_ahs_def)
qed

text \<open>What the device makes of it.\<close>

lemma decap_built:
  fixes a :: osd_args_t and pre post :: "byte list"
  defines "cdb \<equiv> OSD_ENCAP_CDB a (replicate CONFIG_OSD_CDB_LEN 0)"
  assumes "sc_cdb (scsi_of s p) = take 16 cdb" "sc_ahs (scsi_of s p) = pre @ osd_ahs cdb @ post"
    and "sc_ext_cdb (scsi_of s p) = Some (length pre + 4)"
  shows "osd_args_of s p = Some a"
proof -
  have l: "length cdb = CONFIG_OSD_CDB_LEN" by (simp add: cdb_def)
  let ?x = "length pre + 4"
  have ext: "drop ?x (sc_ahs (scsi_of s p)) ! j = drop 16 cdb ! j" if "j < 60" for j
    using that l unfolding assms(3)
    by (simp add: nth_append osd_ahs_def cdb_segment_fields(3) [symmetric])
  have "OSD_DECAP_CDB (sc_cdb (scsi_of s p)) (drop ?x (sc_ahs (scsi_of s p))) = OSD_DECAP_CDB cdb (drop 16 cdb)"
    by (rule OSD_DECAP_cong) (use ext assms(2) in simp_all)
  also have "\<dots> = a" by (simp add: cdb_def OSD_DECAP_ENCAP)
  finally show ?thesis
    using l assms(3,4) by (simp add: osd_args_of_def Let_def osd_ahs_def)
qed

lemma read_ahs_built:
  fixes a :: osd_args_t and n m lun :: u64 and c :: iscsi_scsi_cmd_t and s :: target_session
  defines "b \<equiv> osd_command_build a n m lun"
  assumes "sc_cdb c = sc_cdb b" "sc_ahs c = sc_ahs b" "sc_ahs_len c = sc_ahs_len b"
    and "scsi_of s p = snd (iscsi_scsi_cmd_decap (iscsi_scsi_cmd_encap c) blank_scsi_cmd)"
    and "t_in s = on_wire [take (unat (sc_ahs_len c)) (sc_ahs c)] @ rest"
  shows "\<exists>s'. (\<forall>k. read_ahs env p s k = k s') \<and> t_in s' = rest \<and> osd_args_of s' p = Some a"
proof -
  let ?cdb = "OSD_ENCAP_CDB a (replicate CONFIG_OSD_CDB_LEN 0)"
  define pre where "pre = (if n \<noteq> 0 \<and> m \<noteq> 0 then bidi_segment m else [])"
  let ?sent = "pre @ osd_ahs ?cdb"
  note b = build_ahs(1-4) [where a = a and n = n and m = m and lun = lun, folded b_def pre_def] build_ahs(5) [of a]
  have c: "take (unat (sc_ahs_len c)) (sc_ahs c) = ?sent" "unat (sc_ahs_len c) = length ?sent"
    using b assms(3,4) by (simp_all add: osd_ahs_def)
  have "length pre \<le> 8" by (simp add: pre_def)
  with b(5) have l: "length ?sent \<le> 121" "length (osd_ahs ?cdb) = 113" by (simp_all add: osd_ahs_def)
  have sc: "scsi_of s p = scsi_cmd_wire c blank_scsi_cmd"
    using assms(5) by (simp add: scsi_cmd.decap_encap)
  have f: "unat (sc_ahs_len (scsi_of s p)) = length ?sent" "sc_cdb (scsi_of s p) = take 16 ?cdb"
    using c(2) b(4,5) assms(2) by (simp_all add: sc scsi_cmd_wire_def CONFIG_OSD_CDB_LEN_def)
  have recv: "sock_recv (length ?sent) s = (Some ?sent, s\<lparr>t_in := rest\<rparr>)"
    using assms(6) [unfolded c(1)] l by (intro sock_recv_padded) simp_all
  define s1 where "s1 = upd_scsi p (sc_ahs_update (put_bytes ?sent)) (s\<lparr>t_in := rest\<rparr>)"
  have s1: "scsi_of s1 p = (scsi_of s p)\<lparr>sc_ahs := put_bytes ?sent (sc_ahs (scsi_of s p))\<rparr>" "t_in s1 = rest"
    by (simp_all add: s1_def upd_scsi_def scsi_of_def)
  let ?post = "drop (length ?sent) (sc_ahs (scsi_of s p))"
  have ahs: "sc_ahs (scsi_of s1 p) = pre @ osd_ahs ?cdb @ ?post" by (simp add: s1 put_bytes_def)
  obtain x sc' where x: "ahs_loop (pre @ osd_ahs ?cdb @ ?post) (length pre + 113) 0 (scsi_of s1 p) = Some (Inl (True, sc'))"
      "sc_ext_cdb sc' = Some x" "x = length pre + 4" "sc_ahs sc' = sc_ahs (scsi_of s1 p)" "sc_cdb sc' = sc_cdb (scsi_of s1 p)"
    using ahs_loop_built [OF b(5) pre_def, of ?post "scsi_of s1 p"] by blast
  let ?s = "upd_scsi p (\<lambda>_. sc') s1"
  have s2: "scsi_of ?s p = sc'" "t_in ?s = rest" using s1(2) by (simp_all add: upd_scsi_def scsi_of_def)
  have len: "length ?sent = length pre + 113" using l(2) by simp
  have "read_ahs env p s k = k ?s" for k
    using x(1) f(1) recv l(1) len unfolding read_ahs_def ahs [symmetric]
    by (simp add: Let_def CONFIG_ISCSI_MAX_AHS_LEN_def s1_def [symmetric])
  moreover have "osd_args_of ?s p = Some a"
    by (rule decap_built) (use s2(1) x(2-5) ahs f(2) s1(1) in simp_all)
  ultimately show ?thesis using s2(2) by blast
qed

end
