(* ===== verification/Osd_Properties.thy ===== *)
theory Osd_Properties
  imports Osd_Services Osd_Wire Disk_Properties
begin

section \<open>What the object device does for its clients\<close>

text \<open>
  The properties of the object-based device: the arguments of a command arrive, objects behave as
  a map from numbers to strings of bytes, and the ways in which they do not.
\<close>

subsection \<open>A sample device\<close>

definition sample_osd :: osd where
  "sample_osd = \<lparr>o_num_luns = 1, o_base = ''/o'', o_dirs = [group_path ''/o'' 0 1], o_files = [],
     o_queue = [\<lparr>q_head = 0, q_tail = 1, q_count = 1, q_elem = [90, 0], q_depth = 2\<rparr>], o_rands = 0\<rparr>"

definition sample_osd_env :: osd_env where
  "sample_osd_env = device_env.extend sample_device (osd_env.fields 65536 (\<lambda>n s. 1048576) (\<lambda>n. n)
     (\<lambda>f s. True) (\<lambda>f n s. int n) (\<lambda>f s. True) (\<lambda>f s. True) (\<lambda>s. True) (\<lambda>l s. False))"

definition osd_sc :: "osd_args_t \<Rightarrow> iscsi_scsi_cmd_t" where
  "osd_sc a = (let cdb = OSD_ENCAP_CDB a (replicate CONFIG_OSD_CDB_LEN 0)
     in blank_scsi_cmd\<lparr>sc_cdb := take 16 cdb, sc_ahs := [] @ osd_ahs cdb @ replicate 15 0, sc_ext_cdb := Some 4,
          sc_tag := 7\<rparr>)"

definition osd_session :: "iscsi_scsi_cmd_t \<Rightarrow> byte list \<Rightarrow> target_session" where
  "osd_session sc imm = (disk_session idle_disk sc imm)\<lparr>t_osd := sample_osd\<rparr>"

lemma osd_session_simps [simp]:
  "t_osd (osd_session sc imm) = sample_osd" "scsi_of (osd_session sc imm) p = sc"
  "t_cmd_mem (osd_session sc imm) p = blank_target_cmd\<lparr>tg_scsi := sc, tg_immediate := imm\<rparr>"
  "t_sess_params (osd_session sc imm) = limits 512 512 512" "t_out (osd_session sc imm) = []"
  "sc_tag sc = 7 \<Longrightarrow> can_answer (osd_session sc imm) p"
proof -
  have "releasable (osd_session sc imm) p = releasable (disk_session idle_disk sc imm) p"
    by (simp add: osd_session_def releasable_def scsi_of_def)
  then show "sc_tag sc = 7 \<Longrightarrow> can_answer (osd_session sc imm) p"
    using disk_session_releasable [of sc idle_disk imm p] by (simp add: can_answer_def) (simp add: osd_session_def)
qed (simp_all add: osd_session_def scsi_of_def)

lemma sample_osd_env_simps [simp]:
  "e_send_ok sample_osd_env i" "sends_ok sample_osd_env n s" "o_malloc sample_osd_env k t = 1048576"
  "o_allow sample_osd_env f t" "o_written sample_osd_env f m t = int m" "o_read_ok sample_osd_env f t"
  "o_shell_ok sample_osd_env f t" "o_rand sample_osd_env m = m"
  by (simp_all add: sample_osd_env_def sample_device_def device_env.defs osd_env.defs sends_ok_def)

lemma sample_next: "next_cmd (osd_session sc imm) 0 90"
  by (simp add: next_cmd_def sample_osd_def queue_inv_def queue_abs_def NULL_def)

lemma osd_sc_args [simp]:
  "osd_args_of (osd_session (osd_sc a\<lparr>sc_trans_len := n, sc_todev := d, sc_length := m\<rparr>) imm) p = Some a"
  by (rule decap_built [where pre = "[]" and post = "replicate 15 0"])
    (simp_all add: osd_sc_def Let_def)

lemma osd_sc_fields [simp]:
  "sc_tag (osd_sc a) = 7" "sc_lun (osd_sc a) = 0" "sc_fromdev (osd_sc a) = 0" "sc_todev (osd_sc a) = 0"
  "sc_cdb (osd_sc a) ! 0 = oa_opcode a"
  by (simp_all add: osd_sc_def Let_def blank_scsi_cmd_def CONFIG_OSD_CDB_LEN_def)
    (simp add: OSD_ENCAP_CDB_def Let_def wire)

lemma sample_extended:
  "oa_opcode a = 0x7f \<Longrightarrow> extended_cmd (osd_session (osd_sc a\<lparr>sc_trans_len := n, sc_todev := d, sc_length := m\<rparr>) imm) p a"
  by (simp add: extended_cmd_def Let_def blank_target_cmd_def sample_osd_def CONFIG_OSD_MAX_LUNS_def)

lemma group_not_object: "object_path b l g u \<noteq> group_path b l' g' "
proof
  have two: "object_path b l g u = b @ ''/lun_'' @ nat_dec (unat l) @ ''/0x'' @ nat_hex (unat g) @ ''/0x'' @ nat_hex (unat u)"
    by (simp add: object_path_def group_path_def lun_path_def)
  assume "object_path b l g u = group_path b l' g'"
  then have "nat_hex (unat g) @ ''/0x'' @ nat_hex (unat u) = nat_hex (unat g')"
    unfolding two by (simp add: group_path_def lun_path_def split_at)
  then have "CHR ''/'' \<in> set (nat_hex (unat g'))" by (metis Un_iff list.set_intros(1) set_append)
  then show False by simp
qed

lemma sample_can_create: "can_create (group_path ''/o'' 0 1) (object_path ''/o'' 0 1 u) sample_osd"
  by (simp add: can_create_def sample_osd_def group_not_object)

definition io_args :: "u16 \<Rightarrow> osd_args_t" where
  "io_args action = (object_args action 1 5)\<lparr>oa_offset := 2, oa_length := 3\<rparr>"

lemma io_args_simps [simp]:
  "no_attributes (io_args action)" "oa_service_action (io_args action) = action" "oa_opcode (io_args action) = 0x7f"
  "oa_GroupID (io_args action) = 1" "oa_UserID (io_args action) = 5" "oa_offset (io_args action) = 2"
  "oa_length (io_args action) = 3"
  by (simp_all add: io_args_def object_args_def blank_osd_args_def no_attributes_def)

lemma sample_openable: "openable sample_osd_env (osd_session sc imm) 0 (io_args action)"
  using sample_can_create by (simp add: openable_def Let_def lun_stats_ok_def CONFIG_OSD_MAX_LUNS_def) (simp add: sample_osd_def)

subsection \<open>Commands\<close>

text \<open>
  C17. The arguments of an object command survive the wire: a command built by
  \<^verbatim>\<open>osd_command_build\<close> from any arguments, for any buffers, and sent as header and additional header
  segments, is parsed by the target so that the device decodes exactly these arguments, in spite
  of the segment's length, which is three bytes shorter than what was written into it.
\<close>

theorem osd_args_survive_wire:
  fixes a :: osd_args_t and n m lun :: u64 and c :: iscsi_scsi_cmd_t and s :: target_session
  defines "b \<equiv> osd_command_build a n m lun"
  assumes "sc_cdb c = sc_cdb b" "sc_ahs c = sc_ahs b" "sc_ahs_len c = sc_ahs_len b"
    and "scsi_of s p = snd (iscsi_scsi_cmd_decap (iscsi_scsi_cmd_encap c) blank_scsi_cmd)"
    and "t_in s = on_wire [take (unat (sc_ahs_len c)) (sc_ahs c)] @ rest"
  shows "\<exists>s'. (\<forall>k. read_ahs env p s k = k s') \<and> t_in s' = rest \<and> osd_args_of s' p = Some a"
  using assms(2-6) unfolding b_def by (rule read_ahs_built)

theorem osd_args_survive_wire_witness:
  "let c = osd_command_build (io_args OSD_WRITE) 3 18 0;
       s = (osd_session (snd (iscsi_scsi_cmd_decap (iscsi_scsi_cmd_encap c) blank_scsi_cmd)) [])
             \<lparr>t_in := on_wire [take (unat (sc_ahs_len c)) (sc_ahs c)]\<rparr>
   in \<exists>s'. t_in s' = [] \<and> osd_args_of s' 90 = Some (io_args OSD_WRITE)"
proof -
  let ?c = "osd_command_build (io_args OSD_WRITE) 3 18 0"
  let ?s = "(osd_session (snd (iscsi_scsi_cmd_decap (iscsi_scsi_cmd_encap ?c) blank_scsi_cmd)) [])
             \<lparr>t_in := on_wire [take (unat (sc_ahs_len ?c)) (sc_ahs ?c)]\<rparr>"
  have "scsi_of ?s 90 = snd (iscsi_scsi_cmd_decap (iscsi_scsi_cmd_encap ?c) blank_scsi_cmd)"
    by (simp add: scsi_of_def)
  then show ?thesis
    using osd_args_survive_wire [where s = ?s and c = ?c and p = 90 and rest = "[]" and env = sample_osd_env]
    by fastforce
qed

text \<open>
  C18. A write whose data came with the command changes one entry of the map of objects: its
  turn come, the worker stores the data at the offset, behind zeros if the object was shorter, and
  leaves every other object and all attributes as they were; the client gets good status.
\<close>

theorem osd_write_updates_object:
  fixes s :: target_session and p :: ptr and a :: osd_args_t
  defines "sc \<equiv> scsi_of s p" and "imm \<equiv> tg_immediate (t_cmd_mem s p)"
    and "old \<equiv> old_bytes (objects (t_osd s) (object_key s p a))"
  assumes "next_cmd s l p" "object_cmd s p a" "can_answer s p" "oa_service_action a = OSD_WRITE"
    and "openable env s (sc_lun sc) a" "\<And>k t. o_malloc env k t = addr" "addr \<noteq> NULL"
    and "length imm = unat (sc_length sc)" "unat (oa_length a) = length imm" "length imm \<le> CONFIG_TARGET_MAX_IMMEDIATE"
    and "sc_fromdev sc = 0" "sc_todev sc \<noteq> 0" "sc_trans_len sc = sc_length sc" "e_send_ok env (t_sends s)"
  shows "\<exists>s'. osd_worker_step env l s = Return 0 s' \<and>
    t_out s' = t_out s @ [iscsi_scsi_rsp_encap (status_response s (sc\<lparr>sc_status := 0\<rparr>))] \<and>
    objects (t_osd s') = (objects (t_osd s))(object_key s p a \<mapsto> overwritten (unat (oa_offset a)) imm old) \<and>
    attributes (t_osd s') = attributes (t_osd s)"
  unfolding sc_def imm_def old_def
  by (rule worker_writes_object) (use assms in \<open>simp_all\<close>)

theorem osd_write_updates_object_witness:
  "let s = osd_session (osd_sc (io_args OSD_WRITE)\<lparr>sc_trans_len := 3, sc_todev := 1, sc_length := 3\<rparr>) [7, 8, 9]
   in \<exists>s'. osd_worker_step sample_osd_env 0 s = Return 0 s' \<and> length (t_out s') = 1 \<and>
        objects (t_osd s') (0, 1, 5) = Some [0, 0, 7, 8, 9]"
proof -
  let ?s = "osd_session (osd_sc (io_args OSD_WRITE)\<lparr>sc_trans_len := 3, sc_todev := 1, sc_length := 3\<rparr>) [7, 8, 9]"
  have "objects (t_osd ?s) (object_key ?s 90 (io_args OSD_WRITE)) = None"
    by (simp add: objects_def osd_file_def sample_osd_def object_key_def)
  then have old: "overwritten 2 [7, 8, 9] (old_bytes (objects (t_osd ?s) (object_key ?s 90 (io_args OSD_WRITE)))) = [0, 0, 7, 8, 9]"
    by (simp add: overwritten_def splice_def old_bytes_def numeral_2_eq_2)
  have "object_cmd ?s 90 (io_args OSD_WRITE)" using sample_extended by (simp add: object_cmd_def)
  then obtain s' where "osd_worker_step sample_osd_env 0 ?s = Return 0 s'" "length (t_out s') = 1"
      "objects (t_osd s') = (objects (t_osd ?s))(object_key ?s 90 (io_args OSD_WRITE) \<mapsto> [0, 0, 7, 8, 9])"
    using osd_write_updates_object [where s = ?s and p = 90 and a = "io_args OSD_WRITE" and l = 0 and
        env = sample_osd_env and addr = 1048576] sample_next sample_openable old
    by (auto simp: NULL_def CONFIG_TARGET_MAX_IMMEDIATE_def blank_target_cmd_def)
  then show ?thesis by (auto simp: object_key_def)
qed

text \<open>
  C19. What is written is read: after such a write, a read of any object of the device, by any
  session that finds the objects as the write left them, gets in the data segments of its PDUs
  the bytes that are asked for, with zeros behind the end of the object; for the object that was
  written these are the bytes of the write if offset and length are the same, and for any other
  object those that were there before.  An object that is read exists from then on.
\<close>

theorem osd_written_is_read:
  fixes s t :: target_session and p q :: ptr and a b :: osd_args_t
  defines "imm \<equiv> tg_immediate (t_cmd_mem s p)" and "r \<equiv> scsi_of t q" and "ps \<equiv> object_pieces t q"
    and "w \<equiv> scsi_of s p" and "key \<equiv> object_key s p a"
  assumes "next_cmd s l p" "object_cmd s p a" "can_answer s p" "oa_service_action a = OSD_WRITE"
    and "openable env s (sc_lun w) a" "\<And>k t. o_malloc env k t = addr" "addr \<noteq> NULL"
    and "length imm = unat (sc_length w)" "unat (oa_length a) = length imm" "length imm \<le> CONFIG_TARGET_MAX_IMMEDIATE"
    and "sc_fromdev w = 0" "sc_todev w \<noteq> 0" "sc_trans_len w = sc_length w" "e_send_ok env (t_sends s)"
    and "osd_worker_step env l s = Return rc s'" "objects (t_osd t) = objects (t_osd s')"
    and "next_cmd t l' q" "object_cmd t q b" "can_answer t q" "oa_service_action b = OSD_READ"
    and "openable env t (sc_lun r) b" "unat (sc_trans_len r) = unat (oa_length b)" "0 < sc_trans_len r" "sc_todev r = 0"
    and "max_data_seg_length (t_sess_params t) \<noteq> 0"
    and "unat (sc_trans_len r) + unat (max_data_seg_length (t_sess_params t)) \<le> 2 ^ 32"
    and "sends_ok env (2 * length ps + 1) t"
  shows "\<exists>t' ms. osd_worker_step env l' t = Return 0 t' \<and>
    t_out t' = t_out t @ ms @ [iscsi_scsi_rsp_encap (read_response t (sc_tag r) (of_nat (length ps)))] \<and>
    payload ms = (if object_key t q b \<noteq> key
      then object_bytes (unat (oa_offset b)) (unat (oa_length b)) (old_bytes (objects (t_osd s) (object_key t q b)))
      else if oa_offset b = oa_offset a \<and> oa_length b = oa_length a then imm
      else object_bytes (unat (oa_offset b)) (unat (oa_length b))
        (overwritten (unat (oa_offset a)) imm (old_bytes (objects (t_osd s) key)))) \<and>
    object_key t q b \<in> dom (objects (t_osd t'))"
proof -
  obtain s1 where "osd_worker_step env l s = Return 0 s1"
      and o1: "objects (t_osd s1) = (objects (t_osd s))(key \<mapsto>
        overwritten (unat (oa_offset a)) imm (old_bytes (objects (t_osd s) key)))"
    using worker_writes_object [of s l p a env addr] assms(6-19) by (auto simp: key_def imm_def w_def)
  then have o: "objects (t_osd t) = (objects (t_osd s))(key \<mapsto>
      overwritten (unat (oa_offset a)) imm (old_bytes (objects (t_osd s) key)))"
    using assms(20,21) by simp
  let ?old = "old_bytes (objects (t_osd t) (object_key t q b))"
  obtain t' ms where t': "osd_worker_step env l' t = Return 0 t'"
      "t_out t' = t_out t @ ms @ [iscsi_scsi_rsp_encap (read_response t (sc_tag r) (of_nat (length ps)))]"
      "payload ms = object_bytes (unat (oa_offset b)) (unat (oa_length b)) ?old"
      "objects (t_osd t') = (objects (t_osd t))(object_key t q b \<mapsto> ?old)"
    using worker_reads_object [of t l' q b env addr] assms(11,12,22-32) by (auto simp: r_def ps_def)
  have "object_bytes (unat (oa_offset a)) (unat (oa_length a)) (overwritten (unat (oa_offset a)) imm x) = imm"
    if "imm \<noteq> []" for x
    using that assms(14) read_splice [of imm "unat (oa_offset a)" x]
    by (simp add: object_bytes_def overwritten_def length_splice)
  moreover have "imm \<noteq> []" if "oa_length b = oa_length a"
  proof -
    have "0 < unat (sc_trans_len r)" using assms(28) by (simp add: word_less_nat_alt)
    then show ?thesis using that assms(14,27) by auto
  qed
  ultimately have "payload ms = imm"
    if "object_key t q b = key" "oa_offset b = oa_offset a" "oa_length b = oa_length a"
    using that t'(3) by (simp add: o old_bytes_def)
  then show ?thesis
    using t' by (intro exI [of _ t'] exI [of _ ms]) (auto simp: o old_bytes_def)
qed

definition written_osd :: osd where
  "written_osd = sample_osd\<lparr>o_files := [(object_path ''/o'' 0 1 5, [0, 0, 7, 8, 9])]\<rparr>"

lemma sample_no_files: "objects sample_osd = (\<lambda>k. None)" "attributes sample_osd = (\<lambda>k. None)"
  by (simp_all add: objects_def attributes_def osd_file_def sample_osd_def fun_eq_iff)

lemma written_osd_objects: "objects written_osd = (objects sample_osd)((0, 1, 5) \<mapsto> [0, 0, 7, 8, 9])"
  by (auto simp: sample_no_files) (auto simp: objects_def osd_file_def written_osd_def sample_osd_def fun_eq_iff)

theorem osd_written_is_read_witness:
  "let t = (osd_session (osd_sc (io_args OSD_READ)\<lparr>sc_trans_len := 3, sc_todev := 0, sc_length := 0\<rparr>) [])
             \<lparr>t_osd := written_osd\<rparr>
   in \<exists>t' ms rsp. osd_worker_step sample_osd_env 0 t = Return 0 t' \<and> t_out t' = ms @ [rsp] \<and> payload ms = [7, 8, 9]"
proof -
  let ?s = "osd_session (osd_sc (io_args OSD_WRITE)\<lparr>sc_trans_len := 3, sc_todev := 1, sc_length := 3\<rparr>) [7, 8, 9]"
  let ?r = "osd_sc (io_args OSD_READ)\<lparr>sc_trans_len := 3, sc_todev := 0, sc_length := 0\<rparr>"
  let ?t = "(osd_session ?r [])\<lparr>t_osd := written_osd\<rparr>"
  have ws: "object_cmd ?s 90 (io_args OSD_WRITE)" using sample_extended by (simp add: object_cmd_def)
  have key: "object_key ?s 90 (io_args OSD_WRITE) = (0, 1, 5)" by (simp add: object_key_def)
  have data: "overwritten 2 [7, 8, 9] (old_bytes (objects sample_osd (0, 1, 5))) = [0, 0, 7, 8, 9]"
    by (simp add: sample_no_files overwritten_def splice_def old_bytes_def numeral_2_eq_2)
  obtain s' where s': "osd_worker_step sample_osd_env 0 ?s = Return 0 s'" "objects (t_osd s') = objects written_osd"
    using worker_writes_object [where s = ?s and p = 90 and a = "io_args OSD_WRITE" and l = 0 and
        env = sample_osd_env and addr = 1048576] sample_next sample_openable ws key data
    by (auto simp: NULL_def CONFIG_TARGET_MAX_IMMEDIATE_def blank_target_cmd_def written_osd_objects)
  have f: "scsi_of ?t 90 = ?r" "t_cmd_mem ?t 90 = t_cmd_mem (osd_session ?r []) 90" "t_sess_params ?t = limits 512 512 512"
      "t_out ?t = []"
    by (simp_all add: scsi_of_def)
  have args: "osd_args_of ?t 90 = osd_args_of (osd_session ?r []) 90" by (rule osd_args_of_cong) (simp_all add: f(1))
  have "extended_cmd (osd_session ?r []) 90 (io_args OSD_READ)" by (rule sample_extended) simp
  then have cmd: "object_cmd ?t 90 (io_args OSD_READ)"
    using args by (simp add: object_cmd_def extended_cmd_def Let_def written_osd_def)
  have next': "next_cmd ?t 0 90"
    using sample_next [of ?r "[]"] by (simp add: next_cmd_def written_osd_def)
  have ans: "can_answer ?t 90"
    using osd_session_simps(6) [of ?r "[]" 90] by (simp add: can_answer_def releasable_def scsi_of_def)
  have op: "openable sample_osd_env ?t 0 (io_args OSD_READ)"
    using sample_openable [of ?r "[]" OSD_READ] by (simp add: openable_def Let_def written_osd_def can_create_def)
  have same: "object_key ?t 90 (io_args OSD_READ) = (0, 1, 5)" by (simp add: object_key_def f(1))
  have "\<exists>t' ms. osd_worker_step sample_osd_env 0 ?t = Return 0 t' \<and>
      t_out t' = t_out ?t @ ms @ [iscsi_scsi_rsp_encap (read_response ?t (sc_tag ?r) (of_nat (length (object_pieces ?t 90))))] \<and>
      payload ms = [7, 8, 9]"
    using osd_written_is_read [where s = ?s and t = ?t and p = 90 and q = 90 and a = "io_args OSD_WRITE" and
        b = "io_args OSD_READ" and l = 0 and l' = 0 and env = sample_osd_env and addr = 1048576 and rc = 0 and s' = s']
      sample_next sample_openable ws key s' cmd next' ans op same f
    by (auto simp: NULL_def CONFIG_TARGET_MAX_IMMEDIATE_def blank_target_cmd_def limits_def)
  then show ?thesis by (auto simp: f(4) simp del: append_assoc)
qed

text \<open>
  C20. A client learns the number of the object it creates: \<^verbatim>\<open>osd_create\<close> asks for the attribute with the
  number, the device creates the object under the number that the client wants or, if that is 0,
  under a random one, and sends the attribute; from the data that arrives \<^verbatim>\<open>osd_create\<close> returns exactly
  this number.  The object is empty afterwards, even if one of that number existed, and nothing
  else has changed.
\<close>

theorem osd_create_tells_number:
  fixes env :: "'e osd_env_scheme" and s :: target_session and p :: ptr and gid :: u32 and uid0 :: u64
  defines "a \<equiv> create_args gid uid0" and "sc \<equiv> scsi_of s p" and "ps \<equiv> object_pieces s p"
    and "uid \<equiv> chosen_id env s (create_args gid uid0)"
  assumes "next_cmd s l p" "extended_cmd s p a" "can_answer s p" "creatable env s (sc_lun sc) gid uid"
    and "\<And>k t. o_malloc env k t = addr" "addr \<noteq> NULL" "sc_trans_len sc = 18" "sc_todev sc = 0"
    and "max_data_seg_length (t_sess_params s) \<noteq> 0" "18 + unat (max_data_seg_length (t_sess_params s)) \<le> 2 ^ 32"
    and "sends_ok env (2 * length ps + 1) s"
  shows "\<exists>s' ms. osd_worker_step env l s = Return 0 s' \<and>
    t_out s' = t_out s @ ms @ [iscsi_scsi_rsp_encap (read_response s (sc_tag sc) (of_nat (length ps)))] \<and>
    (\<forall>(osd_exec :: 'd osd_exec) junk d d'. osd_exec a [] (take 18 junk) d = (0, payload ms, d') \<longrightarrow>
       osd_create osd_exec junk gid uid0 d = Some (0, uid, d')) \<and>
    objects (t_osd s') = (objects (t_osd s))((sc_lun sc, gid, uid) \<mapsto> []) \<and> attributes (t_osd s') = attributes (t_osd s)"
proof -
  obtain s' ms where s': "osd_worker_step env l s = Return 0 s'"
      "t_out s' = t_out s @ ms @ [iscsi_scsi_rsp_encap (read_response s (sc_tag sc) (of_nat (length ps)))]"
      "payload ms = id_reply uid" "objects (t_osd s') = (objects (t_osd s))((sc_lun sc, gid, uid) \<mapsto> [])"
      "attributes (t_osd s') = attributes (t_osd s)"
    using worker_creates_object [of s l p a gid uid0 env addr] assms(5-15)
    by (auto simp: a_def sc_def ps_def uid_def)
  have "osd_create osd_exec junk gid uid0 d = Some (0, uid, d')"
    if "osd_exec a [] (take 18 junk) d = (0, payload ms, d')" for osd_exec :: "'d osd_exec" and junk d d'
    using that s'(3) take_id_reply [of uid uid0 d'] by (simp add: osd_create_def a_def)
  then show ?thesis using s' by (intro exI [of _ s'] exI [of _ ms]) simp
qed

theorem osd_create_tells_number_witness:
  "let a = create_args 1 0; s = osd_session (osd_sc a\<lparr>sc_trans_len := 18, sc_todev := 0, sc_length := 0\<rparr>) []
   in \<exists>s' ms rsp. osd_worker_step sample_osd_env 0 s = Return 0 s' \<and> t_out s' = ms @ [rsp] \<and>
        osd_create (\<lambda>a send recv d. (0, payload ms, d)) [] 1 0 () = Some (0, 1, ()) \<and>
        objects (t_osd s') (0, 1, 1) = Some []"
proof -
  let ?a = "create_args 1 0"
  let ?s = "osd_session (osd_sc ?a\<lparr>sc_trans_len := 18, sc_todev := 0, sc_length := 0\<rparr>) []"
  have "oa_opcode ?a = 0x7f" by (simp add: create_args_def object_args_def)
  then have ext: "extended_cmd ?s 90 ?a" by (rule sample_extended)
  have id: "chosen_id sample_osd_env ?s ?a = 1"
    by (simp add: chosen_id_def create_args_def object_args_def next_rand_def Let_def sample_osd_def)
  have cr: "creatable sample_osd_env ?s 0 1 1"
    using sample_can_create [of 1] by (simp add: creatable_def Let_def) (simp add: sample_osd_def)
  show ?thesis
    using osd_create_tells_number [where s = ?s and p = 90 and l = 0 and env = sample_osd_env and addr = 1048576
        and gid = 1 and ?uid0.0 = 0, where 'd = unit] sample_next ext cr id
    by (fastforce simp: NULL_def limits_def)
qed

text \<open>
  C25. Removing an object removes too much: the worker answers OSD_REMOVE with good status, and gone
  are not only the object and its attributes but every object of the group whose number in
  hexadecimal digits begins with the digits of this one, with its attributes; all others stay.
\<close>

theorem osd_remove_takes_prefixed:
  fixes s :: target_session and p :: ptr and a :: osd_args_t
  defines "sc \<equiv> scsi_of s p"
  assumes "next_cmd s l p" "object_cmd s p a" "can_answer s p" "oa_service_action a = OSD_REMOVE"
    and "\<And>f t. o_shell_ok env f t" "sc_fromdev sc = 0" "sc_todev sc = 0" "e_send_ok env (t_sends s)"
  shows "\<exists>s'. osd_worker_step env l s = Return 0 s' \<and>
    t_out s' = t_out s @ [iscsi_scsi_rsp_encap (status_response s (sc\<lparr>sc_status := 0\<rparr>))] \<and>
    objects (t_osd s') = (\<lambda>(l', g', u'). if l' = sc_lun sc \<and> g' = oa_GroupID a \<and> id_extends (oa_UserID a) u'
      then None else objects (t_osd s) (l', g', u')) \<and>
    attributes (t_osd s') = (\<lambda>((l', g', u'), i). if l' = sc_lun sc \<and> g' = oa_GroupID a \<and> id_extends (oa_UserID a) u'
      then None else attributes (t_osd s) ((l', g', u'), i))"
  unfolding sc_def by (rule worker_removes_object) (use assms in \<open>simp_all\<close>)

lemma hex_sample: "id_extends 1 0x10" "nat_hex 1 = ''1''" "nat_hex 16 = ''10''"
  by (simp_all add: id_extends_def nat_hex.simps hex_digit_def char_of_def bit_Suc_0_iff)

theorem osd_remove_takes_prefixed_witness:
  "let s = (osd_session (osd_sc (object_args OSD_REMOVE 1 1)\<lparr>sc_trans_len := 0, sc_todev := 0, sc_length := 0\<rparr>) [])
             \<lparr>t_osd := sample_osd\<lparr>o_files := [(object_path ''/o'' 0 1 0x10, [5])]\<rparr>\<rparr>
   in objects (t_osd s) (0, 1, 0x10) = Some [5] \<and>
      (\<exists>s'. osd_worker_step sample_osd_env 0 s = Return 0 s' \<and> objects (t_osd s') (0, 1, 0x10) = None)"
proof -
  let ?a = "object_args OSD_REMOVE 1 1"
  let ?sc = "osd_sc ?a\<lparr>sc_trans_len := 0, sc_todev := 0, sc_length := 0\<rparr>"
  let ?d = "sample_osd\<lparr>o_files := [(object_path ''/o'' 0 1 0x10, [5])]\<rparr>"
  let ?s = "(osd_session ?sc [])\<lparr>t_osd := ?d\<rparr>"
  have a: "oa_opcode ?a = 0x7f" "no_attributes ?a" "oa_service_action ?a = OSD_REMOVE" "oa_GroupID ?a = 1" "oa_UserID ?a = 1"
    by (simp_all add: object_args_def no_attributes_def blank_osd_args_def)
  have f: "scsi_of ?s 90 = ?sc" by (simp add: scsi_of_def)
  have args: "osd_args_of ?s 90 = osd_args_of (osd_session ?sc []) 90" by (rule osd_args_of_cong) (simp_all add: f)
  have "extended_cmd (osd_session ?sc []) 90 ?a" using a(1) by (rule sample_extended)
  then have cmd: "object_cmd ?s 90 ?a" using args a(2) by (simp add: object_cmd_def extended_cmd_def Let_def)
  have n: "next_cmd ?s 0 90" using sample_next [of ?sc "[]"] by (simp add: next_cmd_def)
  have ans: "can_answer ?s 90"
    using osd_session_simps(6) [of ?sc "[]" 90] by (simp add: can_answer_def releasable_def scsi_of_def)
  have "objects (t_osd ?s) (0, 1, 0x10) = Some [5]" by (simp add: objects_def osd_file_def sample_osd_def)
  moreover have "\<exists>s'. osd_worker_step sample_osd_env 0 ?s = Return 0 s' \<and> objects (t_osd s') (0, 1, 0x10) = None"
    using osd_remove_takes_prefixed [where s = ?s and p = 90 and l = 0 and a = ?a and env = sample_osd_env] n cmd ans a f hex_sample(1)
    by auto
  ultimately show ?thesis by simp
qed



end
