(* ===== verification/Osdfs_State.thy ===== *)
theory Osdfs_State
  imports Osd_Ops
begin

section \<open>The state of the object-based file system\<close>

text \<open>
  \<^verbatim>\<open>osdfs.c\<close> is a file system of the Linux kernel whose inodes are the objects of an object-based device.
  This theory has its inodes, the page cache of a directory, the results of its functions, the
  calls of the kernel that it relies on, and its way to the device.  The kernel is that of version
  2.4 on a 32-bit machine, where pages have 4096 bytes, \<^verbatim>\<open>ino_t\<close> 4 bytes and \<^verbatim>\<open>nlink_t\<close> 2 bytes.
\<close>

definition PAGE_CACHE_SIZE :: nat where "PAGE_CACHE_SIZE = 4096"
definition S_IFMT :: u16 where "S_IFMT = 0xF000"
definition S_IFREG :: u16 where "S_IFREG = 0x8000"
definition S_IFDIR :: u16 where "S_IFDIR = 0x4000"
definition S_IFLNK :: u16 where "S_IFLNK = 0xA000"
definition S_IRWXUGO :: u16 where "S_IRWXUGO = 0x01FF"
definition EPERM :: int where "EPERM = 1"
definition EIO :: int where "EIO = 5"
definition ENOSPC :: int where "ENOSPC = 28"
definition ENOTEMPTY :: int where "ENOTEMPTY = 39"

definition S_ISDIR :: "u16 \<Rightarrow> bool" where
  "S_ISDIR mode \<longleftrightarrow> and mode S_IFMT = S_IFDIR"

subsection \<open>Inodes\<close>

text \<open>
  The operations that \<^verbatim>\<open>osdfs_set_ops\<close> chooses; an inode that was never set up has none.
\<close>

datatype inode_ops = No_Ops | File_Ops | Dir_Ops | Link_Ops

text \<open>
  \<open>i_pages\<close> is the content of the inode's mapping, page by page, in the page cache or behind it.  \<open>i_dirty\<close>
  is \<^verbatim>\<open>I_DIRTY\<close> of \<^verbatim>\<open>i_state\<close>; \<open>i_sync\<close>, \<open>i_noatime\<close> and \<open>i_nodiratime\<close> are what \<^verbatim>\<open>IS_SYNC\<close>, \<^verbatim>\<open>IS_NOATIME\<close> and
  \<^verbatim>\<open>IS_NODIRATIME\<close> tell of it.
\<close>

record inode =
  i_size :: int
  i_mode :: u16
  i_nlink :: u16
  i_gid :: u32
  i_uid :: u32
  i_ctime :: u32
  i_atime :: u32
  i_mtime :: u32
  generic_ip :: u32
  i_ops :: inode_ops
  i_dirty :: bool
  i_sync :: bool
  i_noatime :: bool
  i_nodiratime :: bool
  i_pages :: "nat \<Rightarrow> byte list"

definition blank_inode :: inode where
  "blank_inode = \<lparr>i_size = 0, i_mode = 0, i_nlink = 0, i_gid = 0, i_uid = 0, i_ctime = 0, i_atime = 0,
     i_mtime = 0, generic_ip = 0, i_ops = No_Ops, i_dirty = False, i_sync = False, i_noatime = False,
     i_nodiratime = False, i_pages = (\<lambda>n. replicate PAGE_CACHE_SIZE 0)\<rparr>"

text \<open>A directory entry of the kernel: its name and the number of its inode, if it has one.\<close>

record dentry =
  d_name :: "byte list"
  d_inode :: "u32 option"

text \<open>
  The global variables of \<^verbatim>\<open>osdfs.c\<close>, the inodes that the kernel has in memory, and the state \<open>fs_dev\<close> of the
  device and of what lies between.  \<open>fs_lock\<close> is the count of the semaphore \<^verbatim>\<open>g_lock\<close>.
\<close>

record 'd osdfs =
  fs_lock :: nat
  g_gid :: u32
  g_super_uid :: u64
  g_root_uid :: u64
  g_next_uid :: u64
  g_no_format :: bool
  g_error :: bool
  create_attr :: inode
  fs_inodes :: "u32 \<Rightarrow> inode option"
  fs_dev :: 'd

text \<open>
  What is decided or provided outside: the way to the device; the time; whether a page is in the cache; whether a block can
  be read, memory allocated, an inode made, and what a new inode looks like, the content of its
  object included; whether a symbolic link can be stored and an entry for the root be made; the user and the
  group of the process; and how a \<^verbatim>\<open>struct inode\<close> lies in memory.
\<close>

record 'd fs_env =
  f_exec :: "'d osd_exec"
  f_now :: "'d osdfs \<Rightarrow> u32"
  f_cached :: "u32 \<Rightarrow> nat \<Rightarrow> 'd osdfs \<Rightarrow> bool"
  f_block_ok :: "u32 \<Rightarrow> nat \<Rightarrow> 'd osdfs \<Rightarrow> bool"
  f_malloc_ok :: "u32 \<Rightarrow> bool"
  f_iget_ok :: "u32 \<Rightarrow> 'd osdfs \<Rightarrow> bool"
  f_fresh :: "u32 \<Rightarrow> 'd osdfs \<Rightarrow> inode"
  f_symlink_ok :: "u32 \<Rightarrow> 'd osdfs \<Rightarrow> bool"
  f_root_ok :: bool
  f_fsuid :: u32
  f_fsgid :: u32
  f_junk :: "byte list"
  f_image :: "inode \<Rightarrow> byte list"
  f_inode :: "byte list \<Rightarrow> inode"

text \<open>
  How a call ends: it returns a value; it accesses memory it must not; or it waits for a semaphore that
  no other call holds.
\<close>

datatype ('a, 'd) fs_result = Ret 'a "'d osdfs" | Oops | Waits "'d osdfs"

definition fs_then ::
  "('a, 'd) fs_result \<Rightarrow> ('a \<Rightarrow> 'd osdfs \<Rightarrow> ('b, 'd) fs_result) \<Rightarrow> ('b, 'd) fs_result" where
  "fs_then r k = (case r of Ret x s \<Rightarrow> k x s | Oops \<Rightarrow> Oops | Waits s \<Rightarrow> Waits s)"

lemma fs_then_simps [simp]:
  "fs_then (Ret x s) k = k x s" "fs_then Oops k = Oops" "fs_then (Waits s) k = Waits s"
  by (simp_all add: fs_then_def)

text \<open>
  Functions of the kernel that the file system calls and that call it back: the inode of a number, the
  marking of an inode as dirty, and \<^verbatim>\<open>generic_commit_write\<close>, for a page and the end of what was written to it.
\<close>

record 'd kernel = "'d fs_env" +
  f_iget :: "u32 \<Rightarrow> 'd osdfs \<Rightarrow> (bool, 'd) fs_result"
  f_mark_dirty :: "u32 \<Rightarrow> 'd osdfs \<Rightarrow> (unit, 'd) fs_result"
  f_commit_write :: "u32 \<Rightarrow> nat \<Rightarrow> nat \<Rightarrow> 'd osdfs \<Rightarrow> (unit, 'd) fs_result"

definition inode_of :: "'d osdfs \<Rightarrow> u32 \<Rightarrow> inode" where
  "inode_of s ino = (case fs_inodes s ino of None \<Rightarrow> blank_inode | Some i \<Rightarrow> i)"

definition upd_inode :: "u32 \<Rightarrow> (inode \<Rightarrow> inode) \<Rightarrow> 'd osdfs \<Rightarrow> 'd osdfs" where
  "upd_inode ino f s = s\<lparr>fs_inodes := (fs_inodes s)(ino \<mapsto> f (inode_of s ino))\<rparr>"

lemma inode_of_upd [simp]: "inode_of (upd_inode ino f s) j = (if j = ino then f (inode_of s ino) else inode_of s j)"
  by (simp add: inode_of_def upd_inode_def)

lemma upd_inode_simps [simp]:
  "fs_lock (upd_inode ino f s) = fs_lock s" "g_gid (upd_inode ino f s) = g_gid s"
  "g_next_uid (upd_inode ino f s) = g_next_uid s" "g_error (upd_inode ino f s) = g_error s"
  "fs_dev (upd_inode ino f s) = fs_dev s" "create_attr (upd_inode ino f s) = create_attr s"
  "g_super_uid (upd_inode ino f s) = g_super_uid s" "g_root_uid (upd_inode ino f s) = g_root_uid s"
  "g_no_format (upd_inode ino f s) = g_no_format s"
  by (simp_all add: upd_inode_def)

lemma inode_of_simps [simp]:
  "inode_of (s\<lparr>fs_lock := l\<rparr>) ino = inode_of s ino" "inode_of (s\<lparr>g_next_uid := u\<rparr>) ino = inode_of s ino"
  "inode_of (s\<lparr>fs_dev := d\<rparr>) ino = inode_of s ino" "inode_of (s\<lparr>create_attr := a\<rparr>) ino = inode_of s ino"
  "inode_of (s\<lparr>g_error := b\<rparr>) ino = inode_of s ino"
  by (simp_all add: inode_of_def)

subsection \<open>The semaphore\<close>

text \<open>\<^verbatim>\<open>ISCSI_LOCK_ELSE(&g_lock, return -1)\<close> and \<^verbatim>\<open>ISCSI_UNLOCK_ELSE\<close>.\<close>

definition fs_down :: "'d osdfs \<Rightarrow> ('d osdfs \<Rightarrow> ('a, 'd) fs_result) \<Rightarrow> ('a, 'd) fs_result" where
  "fs_down s k = (if fs_lock s = 0 then Waits s else k (s\<lparr>fs_lock := fs_lock s - 1\<rparr>))"

definition fs_up :: "'d osdfs \<Rightarrow> 'd osdfs" where
  "fs_up s = s\<lparr>fs_lock := fs_lock s + 1\<rparr>"

subsection \<open>The way to the device\<close>

datatype scsi_direction = SCSI_DATA_NONE | SCSI_DATA_READ | SCSI_DATA_WRITE | SCSI_DATA_UNKNOWN

text \<open>
  \<open>scsi_wait_req\<close> of the kernel gets the descriptor block, the direction and the buffer, and makes a
  result, the new contents of the buffer and a new state.  \<open>same\<close> tells whether the buffers for both
  directions are one; then the longer of the two lists is what it holds.  \<open>junk\<close> is what the array \<^verbatim>\<open>cdb\<close>
  of 256 bytes holds before it is filled.
\<close>

definition osd_exec_via_scsi ::
  "nat \<Rightarrow> (byte list \<Rightarrow> scsi_direction \<Rightarrow> byte list \<Rightarrow> 'd \<Rightarrow> int \<times> byte list \<times> 'd) \<Rightarrow> byte list \<Rightarrow> bool \<Rightarrow> 'd osd_exec" where
  "osd_exec_via_scsi MAX_COMMAND_SIZE scsi_wait_req junk same a send recv d =
    (let op = oa_service_action a;
         run = (\<lambda>dir buf.
           case scsi_wait_req (take CONFIG_OSD_CDB_LEN (OSD_ENCAP_CDB a junk)) dir buf d of
             (rc, buf, d) \<Rightarrow>
               (if rc \<noteq> 0 then -1 else 0,
                if dir = SCSI_DATA_READ \<or> dir = SCSI_DATA_UNKNOWN then take (length recv) buf else recv, d))
     in if MAX_COMMAND_SIZE < CONFIG_OSD_CDB_LEN then (-1, recv, d)
        else if op = OSD_WRITE \<or> op = OSD_SET_ATTR then run SCSI_DATA_WRITE send
        else if op = OSD_CREATE \<and> oa_set_attributes_list_length a \<noteq> 0 then
          if \<not> same then (-1, recv, d)
          else run SCSI_DATA_UNKNOWN (if length recv > length send then recv else send)
        else if op \<in> {OSD_CREATE, OSD_CREATE_GROUP, OSD_READ, OSD_GET_ATTR} then run SCSI_DATA_READ recv
        else if op = OSD_REMOVE \<or> op = OSD_REMOVE_GROUP then run SCSI_DATA_NONE []
        else (-1, recv, d))"

subsection \<open>Inodes on the device\<close>

text \<open>The image of an inode in a buffer of \<^verbatim>\<open>INODE_LEN\<close> bytes.\<close>

definition inode_buffer :: "('d, 'e) fs_env_scheme \<Rightarrow> inode \<Rightarrow> byte list" where
  "inode_buffer env i = memcpy (replicate INODE_LEN 0) 0 (f_image env i)"

definition osdfs_write_inode :: "('d, 'e) fs_env_scheme \<Rightarrow> u32 \<Rightarrow> bool \<Rightarrow> 'd osdfs \<Rightarrow> (unit, 'd) fs_result" where
  "osdfs_write_inode env ino sync s =
    (let i = inode_of s ino
     in if INODE_LEN < length (f_image env i) then Oops
        else if sync \<or> \<not> i_sync i then
          case osd_set_one_attr (f_exec env) (f_malloc_ok env) (g_gid s) (ucast ino) 0x30000000 1
                 (of_nat INODE_LEN) (inode_buffer env i) (fs_dev s) of
            None \<Rightarrow> Oops
          | Some (rc, d) \<Rightarrow> Ret () (s\<lparr>fs_dev := d, g_error := (if rc \<noteq> 0 then True else g_error s)\<rparr>)
        else Ret () s)"

definition osdfs_dirty_inode :: "('d, 'e) fs_env_scheme \<Rightarrow> u32 \<Rightarrow> 'd osdfs \<Rightarrow> (unit, 'd) fs_result" where
  "osdfs_dirty_inode env ino s =
    (if i_sync (inode_of s ino) then
       case osdfs_write_inode env ino True s of
         Ret _ s \<Rightarrow> Ret () (upd_inode ino (\<lambda>i. i\<lparr>i_dirty := False\<rparr>) s)
       | r \<Rightarrow> r
     else Ret () s)"

definition osdfs_set_ops :: "inode \<Rightarrow> inode" where
  "osdfs_set_ops i =
    (let kind = and (i_mode i) S_IFMT
     in if kind = S_IFREG then i\<lparr>i_ops := File_Ops\<rparr>
        else if kind = S_IFDIR then i\<lparr>i_ops := Dir_Ops\<rparr>
        else if kind = S_IFLNK then i\<lparr>i_ops := Link_Ops\<rparr>
        else i)"

definition inode_from :: "inode \<Rightarrow> inode \<Rightarrow> inode" where
  "inode_from a i = i\<lparr>i_size := i_size a, i_mode := i_mode a, i_nlink := i_nlink a, i_gid := i_gid a,
     i_uid := i_uid a, i_ctime := i_ctime a, i_atime := i_atime a, i_mtime := i_mtime a, generic_ip := generic_ip a\<rparr>"

text \<open>
  The inode whose number is the next one to give out is the one being created.  The others come from
  the device; a failure leaves the inode as it is.
\<close>

definition osdfs_read_inode :: "('d, 'e) fs_env_scheme \<Rightarrow> u32 \<Rightarrow> 'd osdfs \<Rightarrow> (unit, 'd) fs_result" where
  "osdfs_read_inode env ino s =
    (if ucast ino = g_next_uid s then Ret () (upd_inode ino (\<lambda>i. osdfs_set_ops (inode_from (create_attr s) i)) s)
     else
       case osd_get_one_attr (f_exec env) (f_malloc_ok env) (f_junk env) (g_gid s) (ucast ino) 0x30000000 0
              (of_nat INODE_LEN) (fs_dev s) of
         None \<Rightarrow> Oops
       | Some (rc, v, d) \<Rightarrow>
           let s = s\<lparr>fs_dev := d\<rparr>
           in case v of
                None \<Rightarrow> Ret () s
              | Some bytes \<Rightarrow>
                  if \<not> f_malloc_ok env (of_nat INODE_LEN) then Oops
                  else Ret () (upd_inode ino (\<lambda>i. osdfs_set_ops (inode_from (f_inode env bytes) i)) s))"

subsection \<open>What the kernel's functions are documented to do\<close>

text \<open>
  \<^verbatim>\<open>iget\<close> returns the inode in memory, or a new one that \<^verbatim>\<open>read_inode\<close> of the file system fills.
  \<^verbatim>\<open>mark_inode_dirty\<close> calls \<^verbatim>\<open>dirty_inode\<close> of the file system and then sets \<^verbatim>\<open>I_DIRTY\<close>.
  \<^verbatim>\<open>generic_commit_write\<close> makes the file grow to the end of what was written.  The properties of the file
  system assume no more of the kernel than this.
\<close>

definition kernel_iget :: "('d, 'e) fs_env_scheme \<Rightarrow> u32 \<Rightarrow> 'd osdfs \<Rightarrow> (bool, 'd) fs_result" where
  "kernel_iget env ino s =
    (if fs_inodes s ino \<noteq> None then Ret True s
     else if \<not> f_iget_ok env ino s then Ret False s
     else fs_then (osdfs_read_inode env ino (s\<lparr>fs_inodes := (fs_inodes s)(ino \<mapsto> f_fresh env ino s)\<rparr>)) (\<lambda>_ s. Ret True s))"

definition kernel_mark_dirty :: "('d, 'e) fs_env_scheme \<Rightarrow> u32 \<Rightarrow> 'd osdfs \<Rightarrow> (unit, 'd) fs_result" where
  "kernel_mark_dirty env ino s =
    fs_then (osdfs_dirty_inode env ino s) (\<lambda>_ s. Ret () (upd_inode ino (\<lambda>i. i\<lparr>i_dirty := True\<rparr>) s))"

definition kernel_commit_write ::
  "('d, 'e) fs_env_scheme \<Rightarrow> u32 \<Rightarrow> nat \<Rightarrow> nat \<Rightarrow> 'd osdfs \<Rightarrow> (unit, 'd) fs_result" where
  "kernel_commit_write env ino n till s =
    (let pos = int (n * PAGE_CACHE_SIZE + till)
     in if pos > i_size (inode_of s ino)
        then kernel_mark_dirty env ino (upd_inode ino (\<lambda>i. i\<lparr>i_size := pos\<rparr>) s)
        else Ret () s)"

definition documented :: "'d kernel \<Rightarrow> bool" where
  "documented env \<longleftrightarrow> f_iget env = kernel_iget env \<and> f_mark_dirty env = kernel_mark_dirty env \<and>
     f_commit_write env = kernel_commit_write env"

subsection \<open>Calls\<close>

definition mark_inode_dirty :: "'d kernel \<Rightarrow> u32 \<Rightarrow> 'd osdfs \<Rightarrow> ('d osdfs \<Rightarrow> ('a, 'd) fs_result) \<Rightarrow> ('a, 'd) fs_result" where
  "mark_inode_dirty env ino s k = fs_then (f_mark_dirty env ino s) (\<lambda>_. k)"

definition commit_write ::
  "'d kernel \<Rightarrow> u32 \<Rightarrow> nat \<Rightarrow> nat \<Rightarrow> 'd osdfs \<Rightarrow> ('d osdfs \<Rightarrow> ('a, 'd) fs_result) \<Rightarrow> ('a, 'd) fs_result" where
  "commit_write env ino n till s k = fs_then (f_commit_write env ino n till s) (\<lambda>_. k)"

end
