(* ===== verification/Osdfs_Dir.thy ===== *)
theory Osdfs_Dir
  imports Osdfs_State
begin

section \<open>Directories\<close>

text \<open>
  A directory is a file of records, each the name with its terminating 0, the number of the inode and
  another 0.  No record crosses a page; a 0 where a name should begin ends the records of its page.
  Here are the functions of \<^verbatim>\<open>osdfs.c\<close> that add, delete, count, look up and list the records.
\<close>

subsection \<open>Pages\<close>

definition dir_pages :: "inode \<Rightarrow> nat" where
  "dir_pages i = unat (word_of_int ((i_size i + int PAGE_CACHE_SIZE - 1) div int PAGE_CACHE_SIZE) :: u32)"

text \<open>A page that is not in the cache is read; the time of the access is set before it.\<close>

definition osdfs_readpage :: "'d kernel \<Rightarrow> u32 \<Rightarrow> nat \<Rightarrow> 'd osdfs \<Rightarrow> (int, 'd) fs_result" where
  "osdfs_readpage env ino n s =
    (if g_error s then Ret (-1) s
     else
       let i = inode_of s ino;
           read = (\<lambda>s. Ret (if f_block_ok env ino n s then 0 else - EIO) s)
       in if \<not> i_noatime i \<and> \<not> i_nodiratime i
          then mark_inode_dirty env ino (upd_inode ino (\<lambda>i. i\<lparr>i_atime := f_now env s\<rparr>) s) read
          else read s)"

text \<open>The result is the content of the page, \<open>None\<close> if there is an error.\<close>

definition osdfs_get_page :: "'d kernel \<Rightarrow> u32 \<Rightarrow> nat \<Rightarrow> 'd osdfs \<Rightarrow> (byte list option, 'd) fs_result" where
  "osdfs_get_page env ino n s =
    (if f_cached env ino n s then Ret (Some (i_pages (inode_of s ino) n)) s
     else case osdfs_readpage env ino n s of
       Ret rc s \<Rightarrow> Ret (if rc \<noteq> 0 then None else Some (i_pages (inode_of s ino) n)) s
     | Oops \<Rightarrow> Oops
     | Waits s \<Rightarrow> Waits s)"

text \<open>None of the callers looks for an error before it uses the page.\<close>

definition with_page ::
  "'d kernel \<Rightarrow> u32 \<Rightarrow> nat \<Rightarrow> 'd osdfs \<Rightarrow> (byte list \<Rightarrow> 'd osdfs \<Rightarrow> ('a, 'd) fs_result) \<Rightarrow> ('a, 'd) fs_result" where
  "with_page env ino n s k =
    (case osdfs_get_page env ino n s of
       Ret (Some p) s \<Rightarrow> k p s
     | Waits s \<Rightarrow> Waits s
     | _ \<Rightarrow> Oops)"

definition set_page :: "u32 \<Rightarrow> nat \<Rightarrow> byte list \<Rightarrow> 'd osdfs \<Rightarrow> 'd osdfs" where
  "set_page ino n p = upd_inode ino (\<lambda>i. i\<lparr>i_pages := (i_pages i)(n := p)\<rparr>)"

text \<open>The string at \<open>ptr\<close>, if it ends within the page.\<close>

definition c_string :: "byte list \<Rightarrow> nat \<Rightarrow> byte list option" where
  "c_string p ptr =
    (let n = takeWhile (\<lambda>b. b \<noteq> 0) (drop ptr p)
     in if ptr + length n < length p then Some n else None)"

definition rec_len :: "byte list \<Rightarrow> nat" where
  "rec_len name = length name + 2 + 4"

subsection \<open>Adding\<close>

definition entry_bytes :: "byte list \<Rightarrow> u32 \<Rightarrow> byte list" where
  "entry_bytes name ino = name @ [0] @ store32 (replicate 4 0) 0 ino @ [0]"

text \<open>
  \<^verbatim>\<open>osdfs_get_block\<close> is called with the page instead of a buffer head; what it writes there is cleared
  right after.
\<close>

definition put_entry ::
  "'d kernel \<Rightarrow> u32 \<Rightarrow> nat \<Rightarrow> nat \<Rightarrow> u32 \<Rightarrow> byte list \<Rightarrow> u16 \<Rightarrow> byte list \<Rightarrow> 'd osdfs \<Rightarrow> (int, 'd) fs_result" where
  "put_entry env dir n offset entry_ino name mode p s =
    (let p = (if offset = 0 then replicate PAGE_CACHE_SIZE 0 else p);
         len = rec_len name
     in if offset + len > PAGE_CACHE_SIZE then Oops
        else
          let s = set_page dir n (memcpy p offset (entry_bytes name entry_ino)) s;
              s = upd_inode dir (\<lambda>i. i\<lparr>i_mtime := f_now env s, i_ctime := f_now env s\<rparr>) s;
              s = (if S_ISDIR mode then upd_inode dir (\<lambda>i. i\<lparr>i_nlink := i_nlink i + 1\<rparr>) s else s)
          in commit_write env dir n (offset + len) s (\<lambda>s. Ret 0 (fs_up s)))"

definition entry_add ::
  "'d kernel \<Rightarrow> u32 \<Rightarrow> u32 \<Rightarrow> byte list \<Rightarrow> u16 \<Rightarrow> 'd osdfs \<Rightarrow> (int, 'd) fs_result" where
  "entry_add env dir entry_ino name mode s =
    fs_down s (\<lambda>s.
      let i = inode_of s dir;
          len = rec_len name;
          offset = nat (i_size i mod int PAGE_CACHE_SIZE);
          offset = (if offset + len \<ge> PAGE_CACHE_SIZE then 0 else offset);
          n = (if offset = 0 then dir_pages i + 1 else dir_pages i) - 1
      in with_page env dir n s (put_entry env dir n offset entry_ino name mode))"

subsection \<open>Searching\<close>

text \<open>The first record of the name from \<open>ptr\<close> on; the outer \<open>None\<close> is an access behind the page.\<close>

function find_record :: "byte list \<Rightarrow> byte list \<Rightarrow> nat \<Rightarrow> nat option option" where
  "find_record p name ptr =
    (if PAGE_CACHE_SIZE \<le> ptr \<or> p ! ptr = 0 then Some None
     else case c_string p ptr of
       None \<Rightarrow> None
     | Some n \<Rightarrow> if n = name then Some (Some ptr) else find_record p name (ptr + rec_len n))"
  by pat_completeness auto
termination by (relation "measure (\<lambda>(p, name, ptr). PAGE_CACHE_SIZE - ptr)") (auto simp: rec_len_def)

function count_records :: "byte list \<Rightarrow> nat \<Rightarrow> nat option" where
  "count_records p ptr =
    (if PAGE_CACHE_SIZE \<le> ptr \<or> p ! ptr = 0 then Some 0
     else case c_string p ptr of
       None \<Rightarrow> None
     | Some n \<Rightarrow> map_option Suc (count_records p (ptr + rec_len n)))"
  by pat_completeness auto
termination by (relation "measure (\<lambda>(p, ptr). PAGE_CACHE_SIZE - ptr)") (auto simp: rec_len_def)

declare find_record.simps [simp del] count_records.simps [simp del]

function entry_num_loop :: "'d kernel \<Rightarrow> u32 \<Rightarrow> nat \<Rightarrow> nat \<Rightarrow> nat \<Rightarrow> 'd osdfs \<Rightarrow> (int, 'd) fs_result" where
  "entry_num_loop env dir pages i num s =
    (if pages \<le> i then Ret (int num) (fs_up s)
     else with_page env dir i s (\<lambda>p s.
       case count_records p 0 of
         None \<Rightarrow> Oops
       | Some k \<Rightarrow> entry_num_loop env dir pages (i + 1) (num + k) s))"
  by pat_completeness auto
termination by (relation "measure (\<lambda>(env, dir, pages, i, num, s). pages - i)") auto

definition entry_num :: "'d kernel \<Rightarrow> u32 \<Rightarrow> 'd osdfs \<Rightarrow> (int, 'd) fs_result" where
  "entry_num env dir s = fs_down s (\<lambda>s. entry_num_loop env dir (dir_pages (inode_of s dir)) 0 0 s)"

text \<open>The pages are searched from the last one to the first; the result is the inode that was found.\<close>

fun lookup_loop :: "'d kernel \<Rightarrow> u32 \<Rightarrow> byte list \<Rightarrow> nat \<Rightarrow> 'd osdfs \<Rightarrow> (u32 option, 'd) fs_result" where
  "lookup_loop env dir name 0 s = Ret None s"
| "lookup_loop env dir name (Suc i) s =
    with_page env dir i s (\<lambda>p s.
      case find_record p name 0 of
        None \<Rightarrow> Oops
      | Some None \<Rightarrow> lookup_loop env dir name i s
      | Some (Some ptr) \<Rightarrow>
          if PAGE_CACHE_SIZE < ptr + length name + 5 then Oops
          else
            let ino = load32 p (ptr + length name + 1)
            in fs_then (f_iget env ino s) (\<lambda>ok s. Ret (if ok then Some ino else None) s))"

definition osdfs_lookup :: "'d kernel \<Rightarrow> u32 \<Rightarrow> byte list \<Rightarrow> 'd osdfs \<Rightarrow> (u32 option, 'd) fs_result" where
  "osdfs_lookup env dir name s =
    (let i = inode_of s dir;
         search = (\<lambda>s. lookup_loop env dir name (dir_pages (inode_of s dir)) s)
     in if \<not> i_noatime i \<and> \<not> i_nodiratime i
        then mark_inode_dirty env dir (upd_inode dir (\<lambda>i. i\<lparr>i_atime := f_now env s\<rparr>) s) search
        else search s)"

subsection \<open>Deleting\<close>

text \<open>
  The records behind move down; \<^verbatim>\<open>memcpy\<close> is used for it, which the kernel makes go upwards.
\<close>

definition cut_record :: "byte list \<Rightarrow> nat \<Rightarrow> nat \<Rightarrow> byte list" where
  "cut_record p ptr len = take ptr p @ drop (ptr + len) p @ replicate len 0"

definition set_mtime :: "'d kernel \<Rightarrow> u32 \<Rightarrow> 'd osdfs \<Rightarrow> 'd osdfs" where
  "set_mtime env dir s = upd_inode dir (\<lambda>i. i\<lparr>i_mtime := f_now env s, i_ctime := f_now env s\<rparr>) s"

definition entry_gone :: "'d kernel \<Rightarrow> u32 \<Rightarrow> u16 \<Rightarrow> 'd osdfs \<Rightarrow> (int, 'd) fs_result" where
  "entry_gone env dir mode s =
    (let s = set_mtime env dir s;
         s = (if S_ISDIR mode then upd_inode dir (\<lambda>i. i\<lparr>i_nlink := i_nlink i - 1\<rparr>) s else s)
     in mark_inode_dirty env dir s (\<lambda>s. Ret 0 (fs_up s)))"

definition record_found ::
  "'d kernel \<Rightarrow> u32 \<Rightarrow> nat \<Rightarrow> byte list \<Rightarrow> nat \<Rightarrow> byte list \<Rightarrow> u16 \<Rightarrow> 'd osdfs \<Rightarrow> (int, 'd) fs_result" where
  "record_found env dir i p ptr name mode s =
    (let len = rec_len name
     in if PAGE_CACHE_SIZE < ptr + len then Oops
        else
          let s = set_mtime env dir (set_page dir i (cut_record p ptr len) s);
              x = inode_of s dir
          in if i = dir_pages x - 1 then
               let size = i_size x - int len
               in commit_write env dir i (nat (size mod int PAGE_CACHE_SIZE))
                    (upd_inode dir (\<lambda>x. x\<lparr>i_size := size\<rparr>) s) (entry_gone env dir mode)
             else commit_write env dir i PAGE_CACHE_SIZE s (entry_gone env dir mode))"

function entry_del_loop ::
  "'d kernel \<Rightarrow> u32 \<Rightarrow> byte list \<Rightarrow> u16 \<Rightarrow> nat \<Rightarrow> nat \<Rightarrow> 'd osdfs \<Rightarrow> (int, 'd) fs_result" where
  "entry_del_loop env dir name mode pages i s =
    (if pages \<le> i then Ret (-1) (fs_up s)
     else with_page env dir i s (\<lambda>p s.
       case find_record p name 0 of
         None \<Rightarrow> Oops
       | Some (Some ptr) \<Rightarrow> record_found env dir i p ptr name mode s
       | Some None \<Rightarrow> entry_del_loop env dir name mode pages (i + 1) s))"
  by pat_completeness auto
termination by (relation "measure (\<lambda>(env, dir, name, mode, pages, i, s). pages - i)") auto

declare entry_num_loop.simps [simp del] entry_del_loop.simps [simp del]

definition entry_del :: "'d kernel \<Rightarrow> u32 \<Rightarrow> byte list \<Rightarrow> u16 \<Rightarrow> 'd osdfs \<Rightarrow> (int, 'd) fs_result" where
  "entry_del env dir name mode s = fs_down s (\<lambda>s. entry_del_loop env dir name mode (dir_pages (inode_of s dir)) 0 s)"

subsection \<open>Listing\<close>

text \<open>
  \<open>accept k\<close> tells whether \<^verbatim>\<open>filldir\<close> takes its \<open>k\<close>-th entry.  The results are the entries that it took and whether the
  listing goes on.  \<open>skip\<close> is the variable \<^verbatim>\<open>offset\<close>.
\<close>

datatype listing = Goes_On | Stops int

function list_records ::
  "byte list \<Rightarrow> nat \<Rightarrow> (nat \<Rightarrow> bool) \<Rightarrow> int \<Rightarrow> (byte list \<times> u32) list \<Rightarrow> nat \<Rightarrow> (int \<times> (byte list \<times> u32) list \<times> listing) option" where
  "list_records p limit accept skip out ptr =
    (if limit \<le> ptr \<or> p ! ptr = 0 then Some (skip, out, Goes_On)
     else case c_string p ptr of
       None \<Rightarrow> None
     | Some n \<Rightarrow>
         if skip > 0 then list_records p limit accept (skip - 1) out (ptr + rec_len n)
         else if PAGE_CACHE_SIZE < ptr + length n + 5 then None
         else
           let ino = load32 p (ptr + length n + 1)
           in if ino > 0xfff123 \<or> ino < 0xabc123 then Some (skip, out, Stops (-1))
              else if \<not> accept (length out) then Some (skip, out, Stops 0)
              else list_records p limit accept skip (out @ [(n, ino)]) (ptr + rec_len n))"
  by pat_completeness auto
termination by (relation "measure (\<lambda>(p, limit, accept, skip, out, ptr). limit - ptr)") (auto simp: rec_len_def)

function list_pages ::
  "'d kernel \<Rightarrow> u32 \<Rightarrow> (nat \<Rightarrow> bool) \<Rightarrow> nat \<Rightarrow> nat \<Rightarrow> int \<Rightarrow> (byte list \<times> u32) list \<Rightarrow> 'd osdfs \<Rightarrow>
   ((byte list \<times> u32) list \<times> listing, 'd) fs_result" where
  "list_pages env dir accept pages i skip out s =
    (if pages \<le> i then Ret (out, Goes_On) s
     else with_page env dir i s (\<lambda>p s.
       let x = inode_of s dir;
           limit = (if i = dir_pages x - 1 then nat (i_size x mod int PAGE_CACHE_SIZE) else PAGE_CACHE_SIZE)
       in case list_records p limit accept skip out 0 of
            None \<Rightarrow> Oops
          | Some (skip, out, Goes_On) \<Rightarrow> list_pages env dir accept pages (i + 1) skip out s
          | Some (skip, out, Stops rc) \<Rightarrow> Ret (out, Stops rc) s))"
  by pat_completeness auto
termination by (relation "measure (\<lambda>(env, dir, accept, pages, i, skip, out, s). pages - i)") auto

declare list_records.simps [simp del] list_pages.simps [simp del]

text \<open>
  \<open>f_pos\<close> and \<open>remembered\<close> are the position of the open file and what \<^verbatim>\<open>private_data\<close> remembers of the number of
  entries.  The result is the return value, the entries filled in, and the two variables.
\<close>

definition osdfs_readdir ::
  "'d kernel \<Rightarrow> u32 \<Rightarrow> u32 \<Rightarrow> (nat \<Rightarrow> bool) \<Rightarrow> int \<Rightarrow> int \<Rightarrow> 'd osdfs \<Rightarrow>
   (int \<times> (byte list \<times> u32) list \<times> int \<times> int, 'd) fs_result" where
  "osdfs_readdir env dir parent accept f_pos remembered s =
    (case entry_num env dir s of
       Oops \<Rightarrow> Oops
     | Waits s \<Rightarrow> Waits s
     | Ret num s \<Rightarrow>
         let moved = (f_pos \<noteq> 0 \<and> remembered > num);
             pos = (if moved then f_pos - (remembered - num) else f_pos);
             remembered = (if moved \<or> f_pos = 0 then num else remembered);
             dot = (if pos = 0 then [([0x2e], dir)] else []);
             dots = (if pos \<in> {0, 1} then [([0x2e, 0x2e], parent)] else []);
             result = (\<lambda>rc out. (rc, out, pos + int (length out), remembered));
             set_atime = (\<lambda>s. upd_inode dir (\<lambda>i. i\<lparr>i_atime := f_now env s\<rparr>) s);
             dirty = (\<lambda>s. let i = inode_of s dir in \<not> i_noatime i \<and> \<not> i_nodiratime i)
         in if dot \<noteq> [] \<and> \<not> accept 0 then Ret (-1, [], pos + 1, remembered) s
            else if dots \<noteq> [] \<and> \<not> accept (length dot) then Ret (-1, dot, pos + int (length dot) + 1, remembered) s
            else case list_pages env dir accept (dir_pages (inode_of s dir)) 0 (pos - 2) (dot @ dots) s of
              Oops \<Rightarrow> Oops
            | Waits s \<Rightarrow> Waits s
            | Ret (out, Stops rc) s \<Rightarrow>
                if rc \<noteq> 0 then Ret (result rc out) s
                else if dirty s then mark_inode_dirty env dir (set_atime s) (Ret (result 0 out))
                else Ret (result 0 out) (set_atime s)
            | Ret (out, Goes_On) s \<Rightarrow>
                if out = [] \<and> dirty s then mark_inode_dirty env dir (set_atime s) (Ret (result 0 out))
                else Ret (result 0 out) s)"

end
