(* ===== verification/Osdfs_Records.thy ===== *)
theory Osdfs_Records
  imports Osdfs_Dir
begin

section \<open>The records of a page\<close>

text \<open>
  What a page of a directory stands for: a list of entries, a name and the number of an inode each.  The
  searches of \<open>Osdfs_Dir\<close> over such a page are list functions on its entries.
\<close>

type_synonym entry = "byte list \<times> u32"

definition name_ok :: "byte list \<Rightarrow> bool" where
  "name_ok n \<longleftrightarrow> n \<noteq> [] \<and> 0 \<notin> set n"

definition entries_ok :: "entry list \<Rightarrow> bool" where
  "entries_ok es \<longleftrightarrow> (\<forall>(n, ino) \<in> set es. name_ok n)"

fun page_records :: "entry list \<Rightarrow> byte list" where
  "page_records [] = []"
| "page_records ((n, ino) # es) = entry_bytes n ino @ page_records es"

definition page_used :: "entry list \<Rightarrow> nat" where
  "page_used es = length (page_records es)"

text \<open>There is always a 0 left behind the records.\<close>

definition page_holds :: "byte list \<Rightarrow> entry list \<Rightarrow> bool" where
  "page_holds p es \<longleftrightarrow> page_used es < PAGE_CACHE_SIZE \<and> entries_ok es \<and>
     p = page_records es @ replicate (PAGE_CACHE_SIZE - page_used es) 0"

text \<open>What a search sees of a page: the records before the first 0 in the place of a name.\<close>

definition page_shows :: "byte list \<Rightarrow> entry list \<Rightarrow> bool" where
  "page_shows p es \<longleftrightarrow> length p = PAGE_CACHE_SIZE \<and> entries_ok es \<and> (\<exists>rest. p = page_records es @ 0 # rest)"

lemma length_entry_bytes [simp]: "length (entry_bytes n ino) = rec_len n"
  by (simp add: entry_bytes_def rec_len_def wire)

lemma page_used_simps [simp]:
  "page_used [] = 0" "page_used ((n, ino) # es) = rec_len n + page_used es"
  "page_used (es @ fs) = page_used es + page_used fs"
proof -
  show "page_used (es @ fs) = page_used es + page_used fs"
    by (induction es) (auto simp: page_used_def)
qed (simp_all add: page_used_def)

lemma page_records_append [simp]: "page_records (es @ fs) = page_records es @ page_records fs"
  by (induction es) auto

lemma length_page_records [simp]: "length (page_records es) = page_used es"
  by (simp add: page_used_def)

lemma entries_ok_simps [simp]:
  "entries_ok []" "entries_ok ((n, ino) # es) \<longleftrightarrow> name_ok n \<and> entries_ok es"
  "entries_ok (es @ fs) \<longleftrightarrow> entries_ok es \<and> entries_ok fs"
  by (auto simp: entries_ok_def)

lemma page_used_pos: "es \<noteq> [] \<Longrightarrow> 0 < page_used es"
  by (cases es) (auto simp: rec_len_def)

lemma page_holds_length: "page_holds p es \<Longrightarrow> length p = PAGE_CACHE_SIZE"
  by (simp add: page_holds_def)

lemma page_holds_shows: "page_holds p es \<Longrightarrow> page_shows p es"
proof -
  assume h: "page_holds p es"
  then obtain k where "PAGE_CACHE_SIZE - page_used es = Suc k" by (metis Suc_diff_Suc page_holds_def)
  then show "page_shows p es" using h by (auto simp: page_holds_def page_shows_def)
qed

lemma page_holds_empty: "page_holds (replicate PAGE_CACHE_SIZE 0) []"
  by (simp add: page_holds_def PAGE_CACHE_SIZE_def)

subsection \<open>One record\<close>

lemma c_string_at:
  assumes "name_ok n" "p = pre @ n @ 0 # rest" "ptr = length pre"
  shows "c_string p ptr = Some n"
proof -
  have "takeWhile (\<lambda>b. b \<noteq> 0) (n @ 0 # rest) = n"
    using assms(1) by (subst takeWhile_append2) (auto simp: name_ok_def)
  then show ?thesis using assms(2,3) by (simp add: c_string_def)
qed

lemma load32_at: "load32 (pre @ store32 (replicate 4 0) 0 ino @ rest) (length pre) = ino"
proof -
  have "load32 (pre @ xs @ rest) (length pre) = load32 xs 0" if "length xs = 4" for xs
    using that by (simp add: load32_def nth_append numeral_2_eq_2)
  then show ?thesis by (simp add: wire)
qed

text \<open>A page split at a record.\<close>

lemma at_record:
  assumes "page_shows p (es @ (n, ino) # fs)"
  shows "page_used es + rec_len n < PAGE_CACHE_SIZE" "p ! page_used es \<noteq> 0"
    "c_string p (page_used es) = Some n" "load32 p (page_used es + length n + 1) = ino" "name_ok n"
proof -
  obtain rest where p: "p = page_records es @ n @ 0 # store32 (replicate 4 0) 0 ino @ [0] @ page_records fs @ 0 # rest"
    using assms by (auto simp: page_shows_def entry_bytes_def)
  show n: "name_ok n" using assms by (simp add: page_shows_def)
  have "length p = PAGE_CACHE_SIZE" using assms by (simp add: page_shows_def)
  then show "page_used es + rec_len n < PAGE_CACHE_SIZE" unfolding p by (simp add: rec_len_def wire)
  show "p ! page_used es \<noteq> 0"
    using n p by (cases n) (auto simp: nth_append name_ok_def)
  show "c_string p (page_used es) = Some n" by (rule c_string_at [OF n p]) simp
  have "load32 ((page_records es @ n @ [0]) @ store32 (replicate 4 0) 0 ino @ [0] @ page_records fs @ 0 # rest)
      (length (page_records es @ n @ [0])) = ino" by (rule load32_at)
  moreover have "length (page_records es @ n @ [0]) = page_used es + length n + 1" by simp
  ultimately show "load32 p (page_used es + length n + 1) = ino" unfolding p by simp
qed

lemma at_end:
  assumes "page_shows p es"
  shows "p ! page_used es = 0" "page_used es < PAGE_CACHE_SIZE"
  using assms by (auto simp: page_shows_def nth_append)

subsection \<open>Searches\<close>

fun position_of :: "byte list \<Rightarrow> entry list \<Rightarrow> nat option" where
  "position_of name [] = None"
| "position_of name ((n, ino) # es) = (if n = name then Some 0 else map_option ((+) (rec_len n)) (position_of name es))"

lemma position_of_None: "position_of name es = None \<longleftrightarrow> map_of es name = None"
  by (induction es) auto

lemma find_record_from:
  assumes "page_shows p (es @ fs)"
  shows "find_record p name (page_used es) = Some (map_option ((+) (page_used es)) (position_of name fs))"
  using assms
proof (induction fs arbitrary: es)
  case Nil
  then show ?case using at_end [of p es] by (subst find_record.simps) simp
next
  case (Cons e fs)
  obtain n ino where e: "e = (n, ino)" by force
  note r = at_record [OF Cons.prems [unfolded e]]
  have "find_record p name (page_used es + rec_len n) = Some (map_option ((+) (page_used es + rec_len n)) (position_of name fs))"
    using Cons.IH [of "es @ [e]"] Cons.prems by (simp add: e)
  then show ?case using r
    by (subst find_record.simps) (cases "position_of name fs"; simp add: e)
qed

lemma find_record_shows: "page_shows p es \<Longrightarrow> find_record p name 0 = Some (position_of name es)"
  using find_record_from [of p "[]" es name] by (cases "position_of name es") auto

lemma count_records_from:
  "page_shows p (es @ fs) \<Longrightarrow> count_records p (page_used es) = Some (length fs)"
proof (induction fs arbitrary: es)
  case Nil
  then show ?case using at_end [of p es] by (subst count_records.simps) simp
next
  case (Cons e fs)
  obtain n ino where e: "e = (n, ino)" by force
  note r = at_record [OF Cons.prems [unfolded e]]
  have "count_records p (page_used es + rec_len n) = Some (length fs)"
    using Cons.IH [of "es @ [e]"] Cons.prems by (simp add: e)
  then show ?case using r by (subst count_records.simps) (simp add: e)
qed

lemma count_records_shows: "page_shows p es \<Longrightarrow> count_records p 0 = Some (length es)"
  using count_records_from [of p "[]" es] by simp

lemma position_split:
  "position_of name es = Some k \<Longrightarrow>
   \<exists>es1 ino es2. es = es1 @ (name, ino) # es2 \<and> page_used es1 = k \<and> map_of es1 name = None \<and> map_of es name = Some ino"
proof (induction es arbitrary: k)
  case (Cons e es)
  obtain n i where e: "e = (n, i)" by force
  show ?case
  proof (cases "n = name")
    case True
    then show ?thesis using Cons.prems e by (intro exI [of _ "[]"]) simp
  next
    case False
    then obtain k' where k': "position_of name es = Some k'" "k = rec_len n + k'"
      using Cons.prems e by auto
    obtain es1 ino es2 where "es = es1 @ (name, ino) # es2" "page_used es1 = k'" "map_of es1 name = None"
        "map_of es name = Some ino"
      using Cons.IH [OF k'(1)] by blast
    then show ?thesis using False k' e by (intro exI [of _ "(n, i) # es1"]) auto
  qed
qed simp

subsection \<open>Changes\<close>

lemma page_add:
  assumes "page_holds p es" "name_ok n" "page_used es + rec_len n < PAGE_CACHE_SIZE"
  shows "page_holds (memcpy p (page_used es) (entry_bytes n ino)) (es @ [(n, ino)])"
proof -
  have "memcpy p (page_used es) (entry_bytes n ino) = page_records es @ entry_bytes n ino @
      replicate (PAGE_CACHE_SIZE - page_used es - rec_len n) 0"
    using assms by (simp add: page_holds_def memcpy_def)
  then show ?thesis using assms by (simp add: page_holds_def diff_diff_add)
qed

lemma page_cut:
  assumes "page_holds p (es @ (n, ino) # fs)"
  shows "page_holds (cut_record p (page_used es) (rec_len n)) (es @ fs)"
proof -
  have "cut_record p (page_used es) (rec_len n) =
      page_records es @ page_records fs @ replicate (PAGE_CACHE_SIZE - page_used es - page_used fs) 0"
    using assms by (simp add: page_holds_def cut_record_def replicate_add [symmetric])
  then show ?thesis using assms by (simp add: page_holds_def diff_diff_add)
qed

subsection \<open>Listing\<close>

text \<open>The numbers that \<^verbatim>\<open>osdfs_readdir\<close> takes for sound.\<close>

definition inos_ok :: "entry list \<Rightarrow> bool" where
  "inos_ok es \<longleftrightarrow> (\<forall>(n, ino) \<in> set es. 0xabc123 \<le> ino \<and> ino \<le> 0xfff123)"

lemma list_records_from:
  assumes "page_shows p (es @ fs)" "inos_ok fs" "page_used (es @ fs) \<le> limit" "limit \<le> PAGE_CACHE_SIZE"
    and "\<And>k. accept k" "skip \<le> 0"
  shows "list_records p limit accept skip out (page_used es) = Some (skip, out @ fs, Goes_On)"
  using assms(1-3)
proof (induction fs arbitrary: es out)
  case Nil
  then show ?case using at_end [of p es] by (subst list_records.simps) simp
next
  case (Cons e fs)
  obtain n ino where e: "e = (n, ino)" by force
  note r = at_record [OF Cons.prems(1) [unfolded e]]
  have ino: "0xabc123 \<le> ino" "ino \<le> 0xfff123" "inos_ok fs" using Cons.prems(2) by (auto simp: inos_ok_def e)
  have "list_records p limit accept skip (out @ [(n, ino)]) (page_used es + rec_len n) = Some (skip, (out @ [(n, ino)]) @ fs, Goes_On)"
    using Cons.IH [of "es @ [e]" "out @ [(n, ino)]"] Cons.prems ino(3) by (simp add: e)
  moreover have "page_used es < limit" using Cons.prems(3) by (simp add: e rec_len_def)
  moreover have "page_used es + length n + 5 \<le> PAGE_CACHE_SIZE" using r(1) by (simp add: rec_len_def)
  ultimately show ?case using r ino assms(5,6)
    by (subst list_records.simps) (simp add: e not_less)
qed

lemma list_records_shows:
  "page_shows p es \<Longrightarrow> inos_ok es \<Longrightarrow> page_used es \<le> limit \<Longrightarrow> limit \<le> PAGE_CACHE_SIZE \<Longrightarrow>
   (\<And>k. accept k) \<Longrightarrow> skip \<le> 0 \<Longrightarrow> list_records p limit accept skip out 0 = Some (skip, out @ es, Goes_On)"
  using list_records_from [of p "[]" es] by simp

end
