(* ===== verification/Osdfs_Ops.thy ===== *)
theory Osdfs_Ops
  imports Osdfs_Dir
begin

section \<open>The operations of the file system\<close>

text \<open>
  What the kernel calls for files and directories, and the mounting and unmounting of a file
  system.  Operations that fill in the inode of a directory entry return the entry.
\<close>

subsection \<open>Making files\<close>

definition new_attr :: "'d kernel \<Rightarrow> u16 \<Rightarrow> 'd osdfs \<Rightarrow> inode" where
  "new_attr env mode s = blank_inode\<lparr>i_mode := mode, i_uid := f_fsuid env, i_gid := f_fsgid env,
     i_ctime := f_now env s, i_atime := f_now env s, i_mtime := f_now env s,
     i_nlink := (if and mode S_IFMT = S_IFDIR then 2 else 1)\<rparr>"

text \<open>
  The second half: in a synchronous directory the object is made on the device now, otherwise when
  the kernel writes the inode back; then the entry is added.
\<close>

definition mknod_entry :: "'d kernel \<Rightarrow> u32 \<Rightarrow> dentry \<Rightarrow> u32 \<Rightarrow> 'd osdfs \<Rightarrow> (int \<times> dentry, 'd) fs_result" where
  "mknod_entry env dir e ino s =
    (if ino \<noteq> 1 then
       fs_then (entry_add env dir ino (d_name e) (i_mode (inode_of s ino)) s) (\<lambda>rc s.
         if rc \<noteq> 0 then Ret (-1, e) (fs_up s) else Ret (0, e) (s\<lparr>g_next_uid := g_next_uid s + 1\<rparr>))
     else Ret (0, e) (s\<lparr>g_next_uid := g_next_uid s + 1\<rparr>))"

definition osdfs_mknod :: "'d kernel \<Rightarrow> u32 \<Rightarrow> dentry \<Rightarrow> u16 \<Rightarrow> 'd osdfs \<Rightarrow> (int \<times> dentry, 'd) fs_result" where
  "osdfs_mknod env dir e mode s =
    (let s = s\<lparr>create_attr := new_attr env mode s\<rparr>;
         ino = (ucast (g_next_uid s) :: u32)
     in fs_then (f_iget env ino s) (\<lambda>ok s.
          if \<not> ok then Ret (- ENOSPC, e) (fs_up s)
          else
            let e = e\<lparr>d_inode := Some ino\<rparr>
            in if i_sync (inode_of s dir) then
                 if INODE_LEN < length (f_image env (create_attr s)) then Oops
                 else case osd_create_and_set (f_exec env) (g_gid s) (g_next_uid s) 0x30000000 1 (of_nat INODE_LEN)
                             (Some (inode_buffer env (create_attr s))) (fs_dev s) of
                   None \<Rightarrow> Oops
                 | Some (rc, uid, d) \<Rightarrow>
                     let s = s\<lparr>g_next_uid := uid, fs_dev := d\<rparr>
                     in if rc \<noteq> 0 then Ret (-1, e) (fs_up s) else mknod_entry env dir e ino s
               else mark_inode_dirty env ino s (\<lambda>s. mknod_entry env dir e ino s)))"

definition osdfs_create :: "'d kernel \<Rightarrow> u32 \<Rightarrow> dentry \<Rightarrow> u16 \<Rightarrow> 'd osdfs \<Rightarrow> (int \<times> dentry, 'd) fs_result" where
  "osdfs_create env dir e mode s =
    (if g_error s then Ret (-1, e) s
     else fs_then (osdfs_mknod env dir e (or mode S_IFREG) s) (\<lambda>(rc, e) s.
       Ret (if rc \<noteq> 0 then -1 else 0, e) s))"

text \<open>A failure is reported as success.\<close>

definition osdfs_mkdir :: "'d kernel \<Rightarrow> u32 \<Rightarrow> dentry \<Rightarrow> u16 \<Rightarrow> 'd osdfs \<Rightarrow> (int \<times> dentry, 'd) fs_result" where
  "osdfs_mkdir env dir e mode s =
    fs_then (osdfs_mknod env dir e (or mode S_IFDIR) s) (\<lambda>(rc, e) s. Ret (0, e) s)"

definition osdfs_symlink :: "'d kernel \<Rightarrow> u32 \<Rightarrow> dentry \<Rightarrow> 'd osdfs \<Rightarrow> (int \<times> dentry, 'd) fs_result" where
  "osdfs_symlink env dir e s =
    fs_then (osdfs_mknod env dir e (or S_IRWXUGO S_IFLNK) s) (\<lambda>(rc, e) s.
      if rc \<noteq> 0 then Ret (-1, e) s
      else case d_inode e of
        None \<Rightarrow> Oops
      | Some ino \<Rightarrow> Ret (if f_symlink_ok env ino s then 0 else -1, e) s)"

subsection \<open>Links\<close>

text \<open>The mode is taken from the inode of the new entry.\<close>

definition osdfs_link :: "'d kernel \<Rightarrow> dentry \<Rightarrow> u32 \<Rightarrow> dentry \<Rightarrow> 'd osdfs \<Rightarrow> (int \<times> dentry, 'd) fs_result" where
  "osdfs_link env old dir e s =
    (case d_inode old of
       None \<Rightarrow> Oops
     | Some ino \<Rightarrow>
         if S_ISDIR (i_mode (inode_of s ino)) then Ret (- EPERM, e) s
         else case d_inode e of
           None \<Rightarrow> Oops
         | Some j \<Rightarrow>
             fs_then (entry_add env dir ino (d_name e) (i_mode (inode_of s j)) s) (\<lambda>rc s.
               if rc \<noteq> 0 then Ret (-1, e) s
               else mark_inode_dirty env ino
                 (upd_inode ino (\<lambda>i. i\<lparr>i_ctime := f_now env s, i_nlink := i_nlink i + 1\<rparr>) s)
                 (Ret (0, e\<lparr>d_inode := Some ino\<rparr>))))"

text \<open>The entry goes, and with its last link the object.\<close>

definition drop_link :: "'d kernel \<Rightarrow> u32 \<Rightarrow> u32 \<Rightarrow> 'd osdfs \<Rightarrow> (int, 'd) fs_result" where
  "drop_link env dir ino s =
    (let s = upd_inode ino (\<lambda>i. i\<lparr>i_nlink := i_nlink i - 1\<rparr>) s
     in if i_nlink (inode_of s ino) \<noteq> 0 then
          mark_inode_dirty env ino (upd_inode ino (\<lambda>i. i\<lparr>i_ctime := i_ctime (inode_of s dir)\<rparr>) s) (Ret 0)
        else case osd_remove (f_exec env) (g_gid s) (ucast ino) (fs_dev s) of
          (rc, d) \<Rightarrow> Ret (if rc \<noteq> 0 then -1 else 0) (s\<lparr>fs_dev := d\<rparr>))"

definition osdfs_unlink :: "'d kernel \<Rightarrow> u32 \<Rightarrow> dentry \<Rightarrow> 'd osdfs \<Rightarrow> (int, 'd) fs_result" where
  "osdfs_unlink env dir e s =
    (case d_inode e of
       None \<Rightarrow> Oops
     | Some ino \<Rightarrow>
         let remove = (\<lambda>s.
           fs_then (entry_del env dir (d_name e) (i_mode (inode_of s ino)) s) (\<lambda>rc s.
             if rc \<noteq> 0 then Ret (-1) s else drop_link env dir ino s))
         in if S_ISDIR (i_mode (inode_of s ino)) then
              fs_then (entry_num env ino s) (\<lambda>n s.
                if n \<noteq> 0 then Ret (- ENOTEMPTY) s
                else remove (upd_inode ino (\<lambda>i. i\<lparr>i_nlink := i_nlink i - 1\<rparr>) s))
            else remove s)"

text \<open>The old entry goes first.\<close>

definition osdfs_rename :: "'d kernel \<Rightarrow> u32 \<Rightarrow> dentry \<Rightarrow> u32 \<Rightarrow> dentry \<Rightarrow> 'd osdfs \<Rightarrow> (int, 'd) fs_result" where
  "osdfs_rename env old_dir old new_dir e s =
    (case d_inode old of
       None \<Rightarrow> Oops
     | Some ino \<Rightarrow>
         let add = (\<lambda>s.
           fs_then (entry_add env new_dir ino (d_name e) (i_mode (inode_of s ino)) s) (\<lambda>rc s.
             Ret (if rc \<noteq> 0 then -1 else 0) s))
         in fs_then (entry_del env old_dir (d_name old) (i_mode (inode_of s ino)) s) (\<lambda>rc s.
              if rc \<noteq> 0 then Ret (-1) s
              else if d_inode e \<noteq> None then
                fs_then (osdfs_unlink env new_dir e s) (\<lambda>rc s. if rc \<noteq> 0 then Ret (-1) s else add s)
              else add s))"

subsection \<open>Synchronisation\<close>

definition osdfs_sync_inode :: "'d kernel \<Rightarrow> u32 \<Rightarrow> 'd osdfs \<Rightarrow> (int, 'd) fs_result" where
  "osdfs_sync_inode env ino s = fs_then (osdfs_write_inode env ino True s) (\<lambda>_ s. Ret 0 s)"

text \<open>\<open>err\<close> is what the kernel makes of the inode's buffers; \<open>datasync\<close> is \<^verbatim>\<open>I_DIRTY_DATASYNC\<close> of its state.\<close>

definition osdfs_fsync_inode :: "'d kernel \<Rightarrow> int \<Rightarrow> bool \<Rightarrow> bool \<Rightarrow> u32 \<Rightarrow> 'd osdfs \<Rightarrow> (int, 'd) fs_result" where
  "osdfs_fsync_inode env err only_data datasync ino s =
    (if \<not> i_dirty (inode_of s ino) \<or> only_data \<and> \<not> datasync then Ret err s
     else fs_then (osdfs_sync_inode env ino s) (\<lambda>rc s. Ret (if err \<noteq> 0 \<or> rc \<noteq> 0 then - EIO else 0) s))"

subsection \<open>Mounting\<close>

text \<open>
  The options are separated by commas; \<open>None\<close> is an option that does not fit into its array of 64
  characters.  The only one there is may be followed by anything.
\<close>

function parse_options :: "string \<Rightarrow> bool \<Rightarrow> bool option option" where
  "parse_options ptr no_format =
    (if ptr = [] then Some (Some no_format)
     else
       let opt = takeWhile (\<lambda>c. c \<noteq> CHR '','') ptr
       in if length opt \<ge> 64 then None
          else if take 9 opt = ''no_format'' then parse_options (drop (length opt + 1) ptr) True
          else Some None)"
  by pat_completeness auto
termination by (relation "measure (\<lambda>(ptr, no_format). length ptr)") auto

declare parse_options.simps [simp del]

definition root_attr :: "'d kernel \<Rightarrow> 'd osdfs \<Rightarrow> inode" where
  "root_attr env s = blank_inode\<lparr>i_mode := or S_IFDIR 0x01ED, i_atime := f_now env s, i_ctime := f_now env s,
     i_mtime := f_now env s, i_nlink := 2, generic_ip := 0xff00\<rparr>"

text \<open>A new file system: its group, the object that remembers the next number, and the root directory.\<close>

definition osdfs_format :: "'d kernel \<Rightarrow> byte list \<Rightarrow> 'd osdfs \<Rightarrow> (bool, 'd) fs_result" where
  "osdfs_format env junk s =
    (case osd_create_group (f_exec env) junk (g_gid s) (fs_dev s) of
       None \<Rightarrow> Oops
     | Some (rc, gid, d) \<Rightarrow>
         let s = s\<lparr>g_gid := gid, fs_dev := d\<rparr>
         in if rc \<noteq> 0 then Ret False s
            else case osd_create (f_exec env) junk (g_gid s) (g_super_uid s) (fs_dev s) of
              None \<Rightarrow> Oops
            | Some (rc, uid, d) \<Rightarrow>
                let s = s\<lparr>g_super_uid := uid, fs_dev := d\<rparr>
                in if rc \<noteq> 0 then Ret False s
                   else case osd_create (f_exec env) junk (g_gid s) (g_root_uid s) (fs_dev s) of
                     None \<Rightarrow> Oops
                   | Some (rc, uid, d) \<Rightarrow>
                       let s = s\<lparr>g_root_uid := uid, fs_dev := d\<rparr>
                       in if rc \<noteq> 0 then Ret False s
                          else if INODE_LEN < length (f_image env (root_attr env s)) then Oops
                          else case osd_set_one_attr (f_exec env) (f_malloc_ok env) (g_gid s) (g_root_uid s) 0x30000000 1
                                      (of_nat INODE_LEN) (inode_buffer env (root_attr env s)) (fs_dev s) of
                            None \<Rightarrow> Oops
                          | Some (rc, d) \<Rightarrow> Ret (rc = 0) (s\<lparr>fs_dev := d\<rparr>))"

text \<open>The next number, as the memory of a little-endian machine has it.\<close>

definition uid_image :: "u64 \<Rightarrow> byte list" where
  "uid_image uid = store64 (replicate 8 0) 0 uid"

definition osdfs_read_super :: "'d kernel \<Rightarrow> byte list \<Rightarrow> string \<Rightarrow> 'd osdfs \<Rightarrow> (bool, 'd) fs_result" where
  "osdfs_read_super env junk data s =
    (case parse_options data (g_no_format s) of
       None \<Rightarrow> Oops
     | Some None \<Rightarrow> Ret False (s\<lparr>g_no_format := (g_no_format s \<or> take 9 data = ''no_format'')\<rparr>)
     | Some (Some no_format) \<Rightarrow>
         let s = s\<lparr>g_no_format := no_format\<rparr>
         in fs_then
             (if \<not> no_format then osdfs_format env junk s
              else case osd_read (f_exec env) (g_gid s) (g_super_uid s) 0 8 (uid_image (g_next_uid s)) (fs_dev s) of
                None \<Rightarrow> Oops
              | Some (rc, buf, d) \<Rightarrow> Ret (rc = 0) (s\<lparr>g_next_uid := load64 buf 0, fs_dev := d\<rparr>))
             (\<lambda>ok s. if \<not> ok then Ret False s
               else fs_then (f_iget env (ucast (g_root_uid s)) s) (\<lambda>ok s. Ret (ok \<and> f_root_ok env) s)))"

definition osdfs_put_super :: "'d kernel \<Rightarrow> 'd osdfs \<Rightarrow> (unit, 'd) fs_result" where
  "osdfs_put_super env s =
    (case osd_write (f_exec env) (g_gid s) (g_super_uid s) 0 8 (uid_image (g_next_uid s)) (fs_dev s) of
       None \<Rightarrow> Oops
     | Some (rc, d) \<Rightarrow> Ret () (s\<lparr>fs_dev := d\<rparr>))"

end
