(* ===== verification/Osdfs_Directory.thy ===== *)
theory Osdfs_Directory
  imports Osdfs_Records Osdfs_Ops
begin

section \<open>A directory as a list of pages of entries\<close>

text \<open>
  The functions of \<open>Osdfs_Dir\<close> on a directory whose pages hold known lists of entries.  The directory is
  not a synchronous one, and its pages can be read.  Its size is either \<open>tight\<close>, at the end of the last
  entry, as \<^verbatim>\<open>entry_add\<close> leaves it, or \<open>full\<close>, at the end of the last page, as the deletion of the only entry of
  the page behind it leaves it.
\<close>

subsection \<open>What reading leaves alone\<close>

text \<open>Reading a page can set the time of the last access and mark the inode as dirty, no more.\<close>

definition same_content :: "inode \<Rightarrow> inode \<Rightarrow> bool" where
  "same_content i j \<longleftrightarrow> (\<exists>t b. j = i\<lparr>i_atime := t, i_dirty := b\<rparr>)"

definition same_fs :: "u32 \<Rightarrow> 'd osdfs \<Rightarrow> 'd osdfs \<Rightarrow> bool" where
  "same_fs dir s s' \<longleftrightarrow> (\<exists>t b. s' = upd_inode dir (\<lambda>i. i\<lparr>i_atime := t, i_dirty := b\<rparr>) s) \<or> s' = s"

lemma same_fs_refl [simp]: "same_fs dir s s"
  by (simp add: same_fs_def)

lemma upd_inode_twice: "upd_inode dir f (upd_inode dir g s) = upd_inode dir (\<lambda>i. f (g i)) s"
  by (simp add: upd_inode_def inode_of_def)

lemma same_fs_touch: "same_fs dir s s' \<Longrightarrow> same_fs dir s (upd_inode dir (\<lambda>i. i\<lparr>i_atime := t, i_dirty := b\<rparr>) s')"
  unfolding same_fs_def by (rule disjI1, rule exI [of _ t], rule exI [of _ b]) (auto simp: upd_inode_twice)

lemma same_fs_trans: "same_fs dir s s' \<Longrightarrow> same_fs dir s' s'' \<Longrightarrow> same_fs dir s s''"
  by (metis same_fs_def same_fs_touch)

lemma fs_inodes_upd: "fs_inodes (upd_inode ino f s) = (fs_inodes s)(ino \<mapsto> f (inode_of s ino))"
  by (simp add: upd_inode_def)

lemma same_fs_facts:
  assumes "same_fs dir s s'"
  shows "i_pages (inode_of s' j) = i_pages (inode_of s j)" "i_size (inode_of s' j) = i_size (inode_of s j)"
    "i_mode (inode_of s' j) = i_mode (inode_of s j)" "i_nlink (inode_of s' j) = i_nlink (inode_of s j)"
    "i_sync (inode_of s' j) = i_sync (inode_of s j)" "fs_lock s' = fs_lock s" "g_gid s' = g_gid s"
    "g_next_uid s' = g_next_uid s" "g_error s' = g_error s" "fs_dev s' = fs_dev s" "create_attr s' = create_attr s"
    "j \<noteq> dir \<Longrightarrow> fs_inodes s' j = fs_inodes s j" "fs_inodes s j \<noteq> None \<Longrightarrow> fs_inodes s' j \<noteq> None"
  using assms by (auto simp: same_fs_def fs_inodes_upd split: if_splits)

definition readable :: "'d kernel \<Rightarrow> u32 \<Rightarrow> 'd osdfs \<Rightarrow> bool" where
  "readable env dir s \<longleftrightarrow> documented env \<and> \<not> i_sync (inode_of s dir) \<and> \<not> g_error s \<and>
     (\<forall>n t. f_block_ok env dir n t)"

lemma readable_same: "same_fs dir s s' \<Longrightarrow> readable env dir s' = readable env dir s"
  by (simp add: readable_def same_fs_facts)

lemma mark_dirty_ok:
  "documented env \<Longrightarrow> \<not> i_sync (inode_of s ino) \<Longrightarrow>
   mark_inode_dirty env ino s k = k (upd_inode ino (\<lambda>i. i\<lparr>i_dirty := True\<rparr>) s)"
  by (simp add: documented_def mark_inode_dirty_def kernel_mark_dirty_def osdfs_dirty_inode_def)

lemma commit_write_eq:
  "documented env \<Longrightarrow> commit_write env ino n till s k =
    (let pos = int (n * PAGE_CACHE_SIZE + till)
     in if pos > i_size (inode_of s ino) then mark_inode_dirty env ino (upd_inode ino (\<lambda>i. i\<lparr>i_size := pos\<rparr>) s) k else k s)"
  by (simp add: documented_def commit_write_def mark_inode_dirty_def kernel_commit_write_def Let_def)

lemma touch_dirty:
  "upd_inode dir (\<lambda>i. i\<lparr>i_dirty := b\<rparr>) (upd_inode dir (\<lambda>i. i\<lparr>i_atime := t\<rparr>) s) =
   upd_inode dir (\<lambda>i. i\<lparr>i_atime := t, i_dirty := b\<rparr>) s"
  by (simp add: upd_inode_twice)

lemma with_page_ok:
  assumes "readable env dir s"
  obtains s' where "same_fs dir s s'" "\<And>k :: byte list \<Rightarrow> 'd osdfs \<Rightarrow> ('a, 'd) fs_result.
    with_page env dir n s k = k (i_pages (inode_of s dir) n) s'"
proof (cases "f_cached env dir n s")
  case True
  then show ?thesis by (intro that [of s]) (simp_all add: with_page_def osdfs_get_page_def)
next
  case False
  let ?i = "inode_of s dir" and ?t = "upd_inode dir (\<lambda>i. i\<lparr>i_atime := f_now env s, i_dirty := True\<rparr>) s"
  have "osdfs_readpage env dir n s = Ret 0 (if \<not> i_noatime ?i \<and> \<not> i_nodiratime ?i then ?t else s)"
    using assms False unfolding osdfs_readpage_def Let_def readable_def
    by (auto simp: mark_dirty_ok touch_dirty split: if_splits)
  then show ?thesis using False
    by (intro that [of "if \<not> i_noatime ?i \<and> \<not> i_nodiratime ?i then ?t else s"])
      (auto simp: same_fs_touch with_page_def osdfs_get_page_def)
qed

subsection \<open>Directories\<close>

text \<open>The number of pages fits \<^verbatim>\<open>unsigned long\<close>, and no name is there twice.\<close>

definition dir_holds :: "'d osdfs \<Rightarrow> u32 \<Rightarrow> entry list list \<Rightarrow> bool" where
  "dir_holds s dir ess \<longleftrightarrow> length ess < 2 ^ 20 \<and> distinct (map fst (concat ess)) \<and>
     (\<forall>k<length ess. page_holds (i_pages (inode_of s dir) k) (ess ! k))"

text \<open>What the searches see of it.\<close>

definition dir_shows :: "'d osdfs \<Rightarrow> u32 \<Rightarrow> entry list list \<Rightarrow> bool" where
  "dir_shows s dir ess \<longleftrightarrow> distinct (map fst (concat ess)) \<and>
     (\<forall>k<length ess. page_shows (i_pages (inode_of s dir) k) (ess ! k))"

lemma dir_holds_shows: "dir_holds s dir ess \<Longrightarrow> dir_shows s dir ess"
  by (simp add: dir_holds_def dir_shows_def page_holds_shows)

definition tight :: "'d osdfs \<Rightarrow> u32 \<Rightarrow> entry list list \<Rightarrow> bool" where
  "tight s dir ess \<longleftrightarrow> (if ess = [] then i_size (inode_of s dir) = 0
     else last ess \<noteq> [] \<and> i_size (inode_of s dir) = int ((length ess - 1) * PAGE_CACHE_SIZE + page_used (last ess)))"

definition full :: "'d osdfs \<Rightarrow> u32 \<Rightarrow> entry list list \<Rightarrow> bool" where
  "full s dir ess \<longleftrightarrow> ess \<noteq> [] \<and> i_size (inode_of s dir) = int (length ess * PAGE_CACHE_SIZE)"

lemma dir_holds_same: "same_fs dir s s' \<Longrightarrow> dir_holds s' dir ess = dir_holds s dir ess"
  by (simp add: dir_holds_def same_fs_facts)

lemma tight_same: "same_fs dir s s' \<Longrightarrow> tight s' dir ess = tight s dir ess"
  by (simp add: tight_def same_fs_facts)

lemma full_same: "same_fs dir s s' \<Longrightarrow> full s' dir ess = full s dir ess"
  by (simp add: full_def same_fs_facts)

lemma holds_last: "dir_holds s dir ess \<Longrightarrow> ess \<noteq> [] \<Longrightarrow> page_holds (i_pages (inode_of s dir) (length ess - 1)) (last ess)"
  by (simp add: dir_holds_def last_conv_nth)

lemma pages_of_size:
  assumes "i_size i = int (n * PAGE_CACHE_SIZE + u)" "0 < u" "u \<le> PAGE_CACHE_SIZE" "n + 1 < 2 ^ 32"
  shows "dir_pages i = n + 1"
proof -
  have "(i_size i + int PAGE_CACHE_SIZE - 1) div int PAGE_CACHE_SIZE = int (n + 1)"
    using assms(1-3) by (simp add: PAGE_CACHE_SIZE_def)
  then have "dir_pages i = unat (of_nat (n + 1) :: u32)" by (simp only: dir_pages_def of_int_of_nat_eq)
  then show ?thesis using assms(4) by (simp only: unat_of_nat) simp
qed

lemma dir_pages_length:
  assumes "dir_holds s dir ess" "tight s dir ess \<or> full s dir ess"
  shows "dir_pages (inode_of s dir) = length ess"
proof (cases "ess = []")
  case True
  then show ?thesis using assms(2) by (simp add: tight_def full_def dir_pages_def PAGE_CACHE_SIZE_def)
next
  case False
  have l: "0 < length ess" using False by simp
  have n: "length ess - 1 + 1 < 2 ^ 32" using assms(1) l by (simp add: dir_holds_def)
  have u: "page_used (last ess) < PAGE_CACHE_SIZE" using holds_last [OF assms(1) False] by (simp add: page_holds_def)
  have "\<exists>u. i_size (inode_of s dir) = int ((length ess - 1) * PAGE_CACHE_SIZE + u) \<and> 0 < u \<and> u \<le> PAGE_CACHE_SIZE"
    using assms(2)
  proof
    assume "tight s dir ess"
    then show ?thesis using False u
      by (intro exI [of _ "page_used (last ess)"]) (auto simp: tight_def page_used_pos)
  next
    assume "full s dir ess"
    then show ?thesis using l
      by (intro exI [of _ PAGE_CACHE_SIZE]) (cases "length ess"; auto simp: full_def PAGE_CACHE_SIZE_def)
  qed
  then show ?thesis using pages_of_size [of "inode_of s dir" "length ess - 1"] n l by fastforce
qed

subsection \<open>Looking up\<close>

text \<open>What \<^verbatim>\<open>iget\<close> makes of the number that was found.\<close>

definition got :: "'d kernel \<Rightarrow> u32 option \<Rightarrow> 'd osdfs \<Rightarrow> (u32 option, 'd) fs_result" where
  "got env r s = (case r of None \<Rightarrow> Ret None s | Some ino \<Rightarrow> fs_then (f_iget env ino s) (\<lambda>ok s. Ret (if ok then Some ino else None) s))"

lemma map_of_distinct_concat:
  assumes "distinct (map fst (concat ess))" "k < length ess" "map_of (ess ! k) name = Some ino"
  shows "map_of (concat (take k ess)) name = None" "map_of (concat ess) name = Some ino"
proof -
  have e: "concat ess = concat (take k ess) @ ess ! k @ concat (drop (Suc k) ess)"
    using id_take_nth_drop [OF assms(2)] by (metis concat.simps(2) concat_append)
  have "name \<in> fst ` set (ess ! k)" using assms(3) by (metis image_eqI map_of_SomeD fst_conv)
  moreover have "fst ` set (concat (take k ess)) \<inter> fst ` set (ess ! k) = {}"
    using assms(1) unfolding e map_append distinct_append set_append image_Un set_map by blast
  ultimately have "name \<notin> fst ` set (concat (take k ess))" by blast
  then show n: "map_of (concat (take k ess)) name = None" by (simp only: map_of_eq_None_iff not_False_eq_True)
  show "map_of (concat ess) name = Some ino" unfolding e using n assms(3) by (simp add: map_add_def)
qed

lemma lookup_loop_shows:
  assumes "dir_shows s dir ess" "readable env dir s" "i \<le> length ess"
  shows "\<exists>s'. same_fs dir s s' \<and> lookup_loop env dir name i s = got env (map_of (concat (take i ess)) name) s'"
  using assms
proof (induction i arbitrary: s)
  case (Suc i)
  obtain s1 where s1: "same_fs dir s s1"
      and page: "\<And>k :: byte list \<Rightarrow> 'a osdfs \<Rightarrow> (u32 option, 'a) fs_result.
        with_page env dir i s k = k (i_pages (inode_of s dir) i) s1"
    using with_page_ok [OF Suc.prems(2)] by blast
  have p: "page_shows (i_pages (inode_of s dir) i) (ess ! i)" using Suc.prems by (simp add: dir_shows_def)
  have t: "take (Suc i) ess = take i ess @ [ess ! i]" using Suc.prems(3) by (simp add: take_Suc_conv_app_nth)
  note f = find_record_shows [OF p, of name]
  show ?case
  proof (cases "position_of name (ess ! i)")
    case None
    have "dir_shows s1 dir ess" "readable env dir s1"
      using Suc.prems s1 by (simp_all add: dir_shows_def same_fs_facts readable_same)
    then obtain s' where "same_fs dir s1 s'" "lookup_loop env dir name i s1 = got env (map_of (concat (take i ess)) name) s'"
      using Suc.IH [of s1] Suc.prems(3) by auto
    moreover have "map_of (ess ! i) name = None" using None by (simp add: position_of_None)
    ultimately show ?thesis using None f s1
      by (intro exI [of _ s']) (auto simp: page t map_add_def same_fs_trans split: option.splits)
  next
    case (Some ptr)
    obtain es1 ino es2 where es: "ess ! i = es1 @ (name, ino) # es2" "page_used es1 = ptr" "map_of (ess ! i) name = Some ino"
      using position_split [OF Some] by blast
    note r = at_record [OF p [unfolded es(1)]]
    have "ptr + length name + 5 \<le> PAGE_CACHE_SIZE" using r(1) es(2) by (simp add: rec_len_def)
    moreover have "map_of (concat (take i ess)) name = None"
      using map_of_distinct_concat(1) [OF _ _ es(3)] Suc.prems by (simp add: dir_shows_def)
    ultimately show ?thesis using f s1 Some r(4) es
      by (intro exI [of _ s1]) (simp add: page t got_def fs_then_def map_add_def)
  qed
qed (auto simp: got_def)

lemma osdfs_lookup_shows:
  assumes "dir_shows s dir ess" "dir_pages (inode_of s dir) = length ess" "readable env dir s"
  shows "\<exists>s'. same_fs dir s s' \<and> osdfs_lookup env dir name s = got env (map_of (concat ess) name) s'"
proof -
  let ?i = "inode_of s dir" and ?t = "upd_inode dir (\<lambda>i. i\<lparr>i_atime := f_now env s, i_dirty := True\<rparr>) s"
  define s1 where "s1 = (if \<not> i_noatime ?i \<and> \<not> i_nodiratime ?i then ?t else s)"
  have s1: "same_fs dir s s1" by (simp add: s1_def same_fs_touch)
  then have "dir_shows s1 dir ess" "dir_pages (inode_of s1 dir) = length ess" "readable env dir s1"
    using assms by (simp_all add: dir_shows_def dir_pages_def same_fs_facts readable_same)
  moreover from this obtain s' where "same_fs dir s1 s'"
      "lookup_loop env dir name (length ess) s1 = got env (map_of (concat ess) name) s'"
    using lookup_loop_shows [of s1 dir ess env "length ess" name] by auto
  moreover have "osdfs_lookup env dir name s = lookup_loop env dir name (dir_pages (inode_of s1 dir)) s1"
    using assms(3) by (simp add: osdfs_lookup_def Let_def s1_def readable_def mark_dirty_ok touch_dirty)
  ultimately show ?thesis using s1 by (metis same_fs_trans)
qed

lemma osdfs_lookup_holds:
  assumes "dir_holds s dir ess" "tight s dir ess \<or> full s dir ess" "readable env dir s"
  shows "\<exists>s'. same_fs dir s s' \<and> osdfs_lookup env dir name s = got env (map_of (concat ess) name) s'"
  using assms by (intro osdfs_lookup_shows dir_holds_shows dir_pages_length)

subsection \<open>Counting\<close>

lemma entry_num_loop_holds:
  assumes "dir_holds s dir ess" "readable env dir s" "i \<le> length ess"
  shows "\<exists>s'. same_fs dir s s' \<and>
    entry_num_loop env dir (length ess) i num s = Ret (int (num + length (concat (drop i ess)))) (fs_up s')"
  using assms
proof (induction "length ess - i" arbitrary: i num s)
  case 0
  then show ?case by (subst entry_num_loop.simps) (auto intro!: exI [of _ s])
next
  case (Suc d)
  obtain s1 where s1: "same_fs dir s s1"
      and page: "\<And>k :: byte list \<Rightarrow> 'a osdfs \<Rightarrow> (int, 'a) fs_result.
        with_page env dir i s k = k (i_pages (inode_of s dir) i) s1"
    using with_page_ok [OF Suc.prems(2)] by blast
  have i: "i < length ess" and d: "d = length ess - (i + 1)" using Suc.hyps(2) by simp_all
  have c: "count_records (i_pages (inode_of s dir) i) 0 = Some (length (ess ! i))"
    using Suc.prems(1) i by (intro count_records_shows page_holds_shows) (simp add: dir_holds_def)
  have "dir_holds s1 dir ess" "readable env dir s1"
    using Suc.prems s1 by (simp_all add: dir_holds_same readable_same)
  then obtain s' where "same_fs dir s1 s'" "entry_num_loop env dir (length ess) (i + 1) (num + length (ess ! i)) s1 =
      Ret (int (num + length (ess ! i) + length (concat (drop (i + 1) ess)))) (fs_up s')"
    using Suc.hyps(1) [of "i + 1" s1 "num + length (ess ! i)"] d i by auto
  moreover have "drop i ess = ess ! i # drop (i + 1) ess" using i by (simp add: Cons_nth_drop_Suc)
  ultimately show ?case using s1 i c
    by (intro exI [of _ s']) (subst entry_num_loop.simps, simp add: page same_fs_trans)
qed

lemma down_up: "fs_up (s\<lparr>fs_lock := fs_lock s - 1\<rparr>) = s" if "0 < fs_lock s"
  using that by (simp add: fs_up_def)

lemma same_fs_up:
  assumes "0 < fs_lock s" "same_fs dir (s\<lparr>fs_lock := fs_lock s - 1\<rparr>) s'"
  shows "same_fs dir s (fs_up s')"
proof -
  have "fs_up (upd_inode dir f (s\<lparr>fs_lock := fs_lock s - 1\<rparr>)) = upd_inode dir f s" for f
    using assms(1) by (simp add: fs_up_def upd_inode_def inode_of_def)
  then show ?thesis using assms(2) down_up [OF assms(1)] unfolding same_fs_def by metis
qed

lemma entry_num_holds:
  assumes "dir_holds s dir ess" "tight s dir ess \<or> full s dir ess" "readable env dir s" "0 < fs_lock s"
  shows "\<exists>s'. same_fs dir s s' \<and> entry_num env dir s = Ret (int (length (concat ess))) s'"
proof -
  let ?s = "s\<lparr>fs_lock := fs_lock s - 1\<rparr>"
  have "dir_holds ?s dir ess" "readable env dir ?s"
    using assms by (simp_all add: dir_holds_def readable_def)
  then obtain s' where s': "same_fs dir ?s s'" "entry_num_loop env dir (length ess) 0 0 ?s =
      Ret (int (length (concat ess))) (fs_up s')"
    using entry_num_loop_holds [of ?s dir ess env 0 0] by auto
  have "same_fs dir s (fs_up s')" using assms(4) s'(1) by (rule same_fs_up)
  then show ?thesis using s'(2) assms dir_pages_length [OF assms(1,2)] by (auto simp: entry_num_def fs_down_def)
qed

subsection \<open>Adding\<close>

text \<open>
  Where an entry goes: to the end of the last page, or to a page of its own if there is none, if it does
  not fit there, or if the size does not tell where the last page ends.
\<close>

definition added :: "bool \<Rightarrow> entry \<Rightarrow> entry list list \<Rightarrow> entry list list" where
  "added is_tight e ess =
    (if ess = [] \<or> \<not> is_tight \<or> page_used (last ess) + rec_len (fst e) \<ge> PAGE_CACHE_SIZE then ess @ [[e]]
     else butlast ess @ [last ess @ [e]])"

lemma concat_added: "concat (added b e ess) = concat ess @ [e]"
proof (cases ess rule: rev_cases)
  case (snoc fss es)
  then show ?thesis by (simp add: added_def)
qed (simp add: added_def)

lemma last_added: "last (added b e ess) \<noteq> []"
  by (simp add: added_def)

text \<open>What else a change of the directory does; a directory as entry adds \<open>d\<close> to its number of links.\<close>

definition changed :: "u16 \<Rightarrow> u32 \<Rightarrow> u16 \<Rightarrow> 'd osdfs \<Rightarrow> 'd osdfs \<Rightarrow> bool" where
  "changed d dir mode s s' \<longleftrightarrow> fs_lock s' = fs_lock s \<and> g_gid s' = g_gid s \<and> g_next_uid s' = g_next_uid s \<and>
     g_error s' = g_error s \<and> fs_dev s' = fs_dev s \<and> create_attr s' = create_attr s \<and>
     (\<forall>j. j \<noteq> dir \<longrightarrow> fs_inodes s' j = fs_inodes s j) \<and> fs_inodes s' dir \<noteq> None \<and>
     i_mode (inode_of s' dir) = i_mode (inode_of s dir) \<and> i_sync (inode_of s' dir) = i_sync (inode_of s dir) \<and>
     i_nlink (inode_of s' dir) = (if S_ISDIR mode then i_nlink (inode_of s dir) + d else i_nlink (inode_of s dir))"

lemma changed_facts:
  "changed d dir mode s s' \<Longrightarrow> readable e dir s' = readable e dir s"
  "changed d dir mode s s' \<Longrightarrow> fs_lock s' = fs_lock s"
  by (simp_all add: changed_def readable_def)

lemma page_added:
  assumes "\<forall>k<length ess. page_holds (pg k) (ess ! k)" "name_ok (fst e)" "rec_len (fst e) < PAGE_CACHE_SIZE"
    and "n = length (added b e ess) - 1"
    and "p = memcpy (if off = 0 then replicate PAGE_CACHE_SIZE 0 else pg n) off (entry_bytes (fst e) (snd e))"
    and "off = page_used (butlast (last (added b e ess)))"
  shows "\<forall>k<length (added b e ess). page_holds ((pg(n := p)) k) (added b e ess ! k)"
proof (cases "ess = [] \<or> \<not> b \<or> page_used (last ess) + rec_len (fst e) \<ge> PAGE_CACHE_SIZE")
  case True
  then have a: "added b e ess = ess @ [[e]]" by (auto simp: added_def)
  have "page_holds p [e]" unfolding assms(5,6) a using page_add [OF page_holds_empty assms(2)] assms(3)
    by (cases e) simp
  then show ?thesis using assms(1,4) by (auto simp: a nth_append less_Suc_eq)
next
  case False
  then obtain fss es where ess: "ess = fss @ [es]" by (cases ess rule: rev_cases) auto
  have a: "added b e ess = fss @ [es @ [e]]" using False by (auto simp: added_def ess)
  have n: "n = length fss" using assms(4) by (simp add: a)
  have h: "page_holds (pg n) es" using assms(1) by (auto simp: ess n nth_append)
  moreover have "off = page_used es" using assms(6) by (simp add: a)
  moreover have "off = 0 \<Longrightarrow> pg n = replicate PAGE_CACHE_SIZE 0"
    using h \<open>off = page_used es\<close> page_used_pos [of es] by (cases "es = []") (auto simp: page_holds_def)
  ultimately have "p = memcpy (pg n) (page_used es) (entry_bytes (fst e) (snd e))" using assms(5) by auto
  then have "page_holds p (es @ [e])" using page_add [OF h assms(2)] False by (cases e) (auto simp: ess)
  then show ?thesis using assms(1) unfolding a n unfolding ess by (auto simp: nth_append less_Suc_eq)
qed

lemma size_mod:
  assumes "i_size i = int (n * PAGE_CACHE_SIZE + u)" "u < PAGE_CACHE_SIZE"
  shows "nat (i_size i mod int PAGE_CACHE_SIZE) = u"
  using assms by (simp add: PAGE_CACHE_SIZE_def)

text \<open>The size up to which the records of a tight directory reach.\<close>

lemma added_place:
  assumes "dir_holds s dir ess" "b \<longrightarrow> tight s dir ess" "\<not> b \<longrightarrow> full s dir ess"
    and "offset = (if nat (i_size (inode_of s dir) mod int PAGE_CACHE_SIZE) + rec_len (fst e) \<ge> PAGE_CACHE_SIZE then 0
       else nat (i_size (inode_of s dir) mod int PAGE_CACHE_SIZE))"
    and "n = (if offset = 0 then length ess + 1 else length ess) - 1"
  shows "n = length (added b e ess) - 1" "offset = page_used (butlast (last (added b e ess)))"
proof -
  let ?r = "nat (i_size (inode_of s dir) mod int PAGE_CACHE_SIZE)"
  have "n = length (added b e ess) - 1 \<and> offset = page_used (butlast (last (added b e ess)))"
  proof (cases "ess = [] \<or> \<not> b")
    case True
    then have "?r = 0" using assms(2,3) by (auto simp: tight_def full_def)
    then show ?thesis using True assms(4,5) by (auto simp: added_def)
  next
    case False
    then have t: "tight s dir ess" "ess \<noteq> []" using assms(2) by auto
    have u: "page_used (last ess) < PAGE_CACHE_SIZE" "0 < page_used (last ess)"
      using holds_last [OF assms(1) t(2)] t by (auto simp: page_holds_def tight_def page_used_pos)
    have "?r = page_used (last ess)" using t u(1) by (intro size_mod) (auto simp: tight_def)
    then show ?thesis using False u t(2) assms(4,5) by (auto simp: added_def)
  qed
  then show "n = length (added b e ess) - 1" "offset = page_used (butlast (last (added b e ess)))" by blast+
qed

lemma added_used:
  assumes "rec_len (fst e) < PAGE_CACHE_SIZE"
  shows "page_used (butlast (last (added b e ess))) + rec_len (fst e) = page_used (last (added b e ess))"
    "page_used (last (added b e ess)) < PAGE_CACHE_SIZE"
  using assms by (cases e; auto simp: added_def)+

lemma put_entry_ok:
  assumes "off + rec_len name \<le> PAGE_CACHE_SIZE" "documented env" "\<not> i_sync (inode_of s dir)"
    and "p' = memcpy (if off = 0 then replicate PAGE_CACHE_SIZE 0 else p) off (entry_bytes name ino)"
  shows "\<exists>s'. put_entry env dir n off ino name mode p s = Ret 0 s' \<and> changed 1 dir mode (fs_up s) s' \<and>
    i_pages (inode_of s' dir) = (i_pages (inode_of s dir))(n := p') \<and>
    i_size (inode_of s' dir) = max (i_size (inode_of s dir)) (int (n * PAGE_CACHE_SIZE + (off + rec_len name)))"
proof -
  define s2 where "s2 = (let t = set_page dir n p' s; t = upd_inode dir (\<lambda>i. i\<lparr>i_mtime := f_now env t, i_ctime := f_now env t\<rparr>) t
    in if S_ISDIR mode then upd_inode dir (\<lambda>i. i\<lparr>i_nlink := i_nlink i + 1\<rparr>) t else t)"
  define size where "size = int (n * PAGE_CACHE_SIZE + (off + rec_len name))"
  define s3 where "s3 = (if size > i_size (inode_of s2 dir)
    then upd_inode dir (\<lambda>i. i\<lparr>i_dirty := True\<rparr>) (upd_inode dir (\<lambda>i. i\<lparr>i_size := size\<rparr>) s2) else s2)"
  have s2: "i_size (inode_of s2 dir) = i_size (inode_of s dir)" "i_pages (inode_of s2 dir) = (i_pages (inode_of s dir))(n := p')"
    "\<not> i_sync (inode_of s2 dir)" "changed 1 dir mode (fs_up s) (fs_up s2)"
    using assms(3) by (auto simp: s2_def set_page_def Let_def changed_def fs_up_def fs_inodes_upd)
  have "put_entry env dir n off ino name mode p s = commit_write env dir n (off + rec_len name) s2 (\<lambda>s. Ret 0 (fs_up s))"
    using assms(1) by (simp add: put_entry_def Let_def assms(4) [symmetric] s2_def)
  also have "\<dots> = Ret 0 (fs_up s3)"
    using s2(3) assms(2) unfolding commit_write_eq [OF assms(2)] size_def [symmetric] Let_def s3_def by (simp add: mark_dirty_ok)
  finally show ?thesis using s2 unfolding size_def [symmetric]
    by (intro exI [of _ "fs_up s3"]) (auto simp: s3_def changed_def fs_up_def fs_inodes_upd)
qed

lemma dir_holds_lock [simp]:
  "dir_holds (s\<lparr>fs_lock := l\<rparr>) dir ess = dir_holds s dir ess" "readable env dir (s\<lparr>fs_lock := l\<rparr>) = readable env dir s"
  "tight (s\<lparr>fs_lock := l\<rparr>) dir ess = tight s dir ess" "full (s\<lparr>fs_lock := l\<rparr>) dir ess = full s dir ess"
  by (simp_all add: dir_holds_def readable_def tight_def full_def)

lemma entry_add_ok:
  fixes s :: "'d osdfs"
  assumes "dir_holds s dir ess" "if b then tight s dir ess else full s dir ess" "readable env dir s" "0 < fs_lock s"
    and "name_ok name" "rec_len name < PAGE_CACHE_SIZE" "map_of (concat ess) name = None" "length ess + 1 < 2 ^ 20"
  shows "\<exists>s'. entry_add env dir ino name mode s = Ret 0 s' \<and> changed 1 dir mode s s' \<and>
    dir_holds s' dir (added b (name, ino) ess) \<and> tight s' dir (added b (name, ino) ess)"
proof -
  define s0 where "s0 = s\<lparr>fs_lock := fs_lock s - 1\<rparr>"
  define r where "r = nat (i_size (inode_of s dir) mod int PAGE_CACHE_SIZE)"
  define off where "off = (if r + rec_len name \<ge> PAGE_CACHE_SIZE then 0 else r)"
  define n where "n = (if off = 0 then length ess + 1 else length ess) - 1"
  define p where "p = memcpy (if off = 0 then replicate PAGE_CACHE_SIZE 0 else i_pages (inode_of s dir) n) off (entry_bytes name ino)"
  let ?ess = "added b (name, ino) ess"
  have place: "n = length ?ess - 1" "off = page_used (butlast (last ?ess))"
    using added_place [OF assms(1), of b off "(name, ino)" n] assms(2) by (auto simp: off_def n_def r_def split: if_splits)
  have used: "off + rec_len name = page_used (last ?ess)" "page_used (last ?ess) < PAGE_CACHE_SIZE"
    using added_used [of "(name, ino)" b ess] assms(6) place(2) by simp_all
  have r0: "readable env dir s0" using assms(3) by (simp add: s0_def)
  obtain s1 where s1: "same_fs dir s0 s1"
      and page: "\<And>k :: byte list \<Rightarrow> 'd osdfs \<Rightarrow> (int, 'd) fs_result.
        with_page env dir n s0 k = k (i_pages (inode_of s0 dir) n) s1"
    using with_page_ok [OF r0] by blast
  have t: "tight s dir ess \<or> full s dir ess" using assms(2) by (auto split: if_splits)
  have i0: "inode_of s0 = inode_of s" by (simp add: s0_def fun_eq_iff)
  have "entry_add env dir ino name mode s = with_page env dir n s0 (put_entry env dir n off ino name mode)"
    using assms(4) unfolding entry_add_def fs_down_def s0_def [symmetric] Let_def i0 r_def [symmetric] off_def [symmetric]
      dir_pages_length [OF assms(1) t] n_def [symmetric] by simp
  also have "\<dots> = put_entry env dir n off ino name mode (i_pages (inode_of s dir) n) s1"
    unfolding page by (simp add: s0_def)
  finally obtain s' where s': "entry_add env dir ino name mode s = Ret 0 s'" "changed 1 dir mode (fs_up s1) s'"
      "i_pages (inode_of s' dir) = (i_pages (inode_of s dir))(n := p)"
      "i_size (inode_of s' dir) = max (i_size (inode_of s dir)) (int (n * PAGE_CACHE_SIZE + page_used (last ?ess)))"
    using put_entry_ok [where off = off and name = name and env = env and s = s1 and dir = dir and p' = p and
        p = "i_pages (inode_of s dir) n" and ino = ino and n = n and mode = mode] s1 assms(3) used
    by (auto simp: p_def same_fs_facts s0_def readable_def)
  have up: "same_fs dir s (fs_up s1)" using same_fs_up [OF assms(4)] s1 by (simp add: s0_def)
  then have "changed 1 dir mode s s'" using s'(2) same_fs_facts [OF up] by (simp add: changed_def)
  moreover have "dir_holds s' dir ?ess"
  proof -
    have pages: "\<forall>k<length ess. page_holds (i_pages (inode_of s dir) k) (ess ! k)" "distinct (map fst (concat ess))"
      using assms(1) by (simp_all add: dir_holds_def)
    have "p = memcpy (if off = 0 then replicate PAGE_CACHE_SIZE 0 else i_pages (inode_of s dir) n) off
        (entry_bytes (fst (name, ino)) (snd (name, ino)))" by (simp add: p_def)
    then have "\<forall>k<length ?ess. page_holds (i_pages (inode_of s' dir) k) (?ess ! k)"
      unfolding s'(3) using page_added [OF pages(1) _ _ place(1) _ place(2)] assms(5,6) by simp
    moreover have "distinct (map fst (concat ?ess))"
      using pages(2) assms(7) by (simp add: concat_added map_of_eq_None_iff)
    moreover have "length ?ess < 2 ^ 20" using assms(8) by (auto simp: added_def)
    ultimately show ?thesis by (simp add: dir_holds_def)
  qed
  moreover have "tight s' dir ?ess"
  proof -
    have l: "?ess \<noteq> []" "length ?ess = n + 1" "last ?ess \<noteq> []" using place(1) by (auto simp: added_def)
    have "i_size (inode_of s dir) \<le> int (n * PAGE_CACHE_SIZE + page_used (last ?ess))"
    proof (cases "length ess = n + 1")
      case True
      then have "off \<noteq> 0" using n_def by (auto split: if_splits)
      moreover from this have "b" "ess \<noteq> []" using place(2) by (auto simp: added_def split: if_splits)
      moreover from this have "tight s dir ess" using assms(2) by simp
      moreover from this have "off = page_used (last ess)"
        using place(2) True l(2) by (auto simp: added_def split: if_splits)
      ultimately show ?thesis using True used(1) by (simp add: tight_def)
    next
      case False
      then have n: "n = length ess" using l(2) by (auto simp: added_def split: if_splits)
      then show ?thesis
        using t holds_last [OF assms(1)] by (cases ess rule: rev_cases) (auto simp: tight_def full_def page_holds_def)
    qed
    then show ?thesis using l s'(4) by (simp add: tight_def max_absorb2)
  qed
  ultimately show ?thesis using s'(1) by blast
qed

end
