(* ===== verification/Osdfs_Delete.thy ===== *)
theory Osdfs_Delete
  imports Osdfs_Directory
begin

section \<open>Deleting and listing entries\<close>

text \<open>
  The deletion of an entry of a directory that is described by lists of entries, and the listing of
  such a directory.
\<close>

subsection \<open>Deleting\<close>

definition deleted :: "byte list \<Rightarrow> entry list list \<Rightarrow> entry list list" where
  "deleted name ess = map (filter (\<lambda>e. fst e \<noteq> name)) ess"

lemma concat_deleted: "concat (deleted name ess) = filter (\<lambda>e. fst e \<noteq> name) (concat ess)"
  by (simp add: deleted_def filter_concat)

lemma map_of_deleted: "map_of (concat (deleted name ess)) = (map_of (concat ess))(name := None)"
proof -
  have "map_of (filter (\<lambda>e. fst e \<noteq> name) es) = (map_of es)(name := None)" for es :: "entry list"
    by (induction es) auto
  then show ?thesis by (simp add: concat_deleted)
qed

lemma length_deleted [simp]: "length (deleted name ess) = length ess"
  by (simp add: deleted_def)

lemma filter_other: "map_of es name = None \<Longrightarrow> filter (\<lambda>e. fst e \<noteq> name) es = es"
  by (induction es) (auto split: if_splits)

text \<open>The name stands in one page.\<close>

definition in_page :: "byte list \<Rightarrow> entry list list \<Rightarrow> nat \<Rightarrow> bool" where
  "in_page name ess k \<longleftrightarrow> k < length ess \<and> map_of (ess ! k) name \<noteq> None"

lemma only_page:
  assumes "distinct (map fst (concat ess))" "in_page name ess k" "j < length ess" "j \<noteq> k"
  shows "map_of (ess ! j) name = None"
proof (rule ccontr)
  assume "map_of (ess ! j) name \<noteq> None"
  moreover have "fst ` set (ess ! i) \<inter> fst ` set (ess ! j) = {}" if "i < j" "j < length ess" for i j
  proof -
    have "ess ! i \<in> set (take j ess)" using that by (auto simp: in_set_conv_nth)
    moreover have "distinct (map fst (concat (take j ess) @ ess ! j @ concat (drop (Suc j) ess)))"
      using assms(1) id_take_nth_drop [OF that(2)] by (metis concat.simps(2) concat_append)
    ultimately show ?thesis by (fastforce simp: image_iff)
  qed
  ultimately show False using assms(2-4) unfolding in_page_def map_of_eq_None_iff
    by (metis disjoint_iff linorder_neqE_nat)
qed

lemma present_page: "map_of (concat ess) name \<noteq> None \<Longrightarrow> \<exists>k. in_page name ess k"
proof -
  assume "map_of (concat ess) name \<noteq> None"
  then obtain ino where "(name, ino) \<in> set (concat ess)" by (auto dest: map_of_SomeD)
  then obtain es where "es \<in> set ess" "(name, ino) \<in> set es" by auto
  moreover from this(1) obtain k where "k < length ess" "ess ! k = es" by (auto simp: in_set_conv_nth)
  ultimately show ?thesis by (force simp: in_page_def map_of_eq_None_iff)
qed

lemma distinct_page: "distinct (map fst (concat ess)) \<Longrightarrow> es \<in> set ess \<Longrightarrow> distinct (map fst es)"
  by (induction ess) auto

lemma page_deleted:
  assumes "distinct (map fst es)" "page_holds p es" "position_of name es = Some ptr"
  shows "page_holds (cut_record p ptr (rec_len name)) (filter (\<lambda>e. fst e \<noteq> name) es)"
    "ptr + rec_len name \<le> page_used es"
    "page_used (filter (\<lambda>e. fst e \<noteq> name) es) + rec_len name = page_used es"
proof -
  obtain es1 ino es2 where es: "es = es1 @ (name, ino) # es2" "page_used es1 = ptr" "map_of es1 name = None"
    using position_split [OF assms(3)] by blast
  have "name \<notin> fst ` set es2" using assms(1) unfolding es(1) by simp
  then have "map_of es2 name = None" by (simp only: map_of_eq_None_iff not_False_eq_True)
  then have f: "filter (\<lambda>e. fst e \<noteq> name) es = es1 @ es2" using es by (simp add: filter_other)
  show "page_holds (cut_record p ptr (rec_len name)) (filter (\<lambda>e. fst e \<noteq> name) es)"
    unfolding f using page_cut [OF assms(2) [unfolded es(1)]] es(2) by simp
  show "ptr + rec_len name \<le> page_used es" "page_used (filter (\<lambda>e. fst e \<noteq> name) es) + rec_len name = page_used es"
    unfolding f using es by simp_all
qed

lemma position_in_page: "map_of es name \<noteq> None \<Longrightarrow> \<exists>ptr. position_of name es = Some ptr"
  by (metis not_None_eq position_of_None)

lemma commit_within: "documented env \<Longrightarrow> int (n * PAGE_CACHE_SIZE + till) \<le> i_size (inode_of s dir) \<Longrightarrow> commit_write env dir n till s k = k s"
  by (simp add: commit_write_eq Let_def)

lemma entry_gone_ok:
  assumes "documented env" "\<not> i_sync (inode_of s dir)"
  shows "\<exists>s'. entry_gone env dir mode s = Ret 0 s' \<and> changed (-1) dir mode (fs_up s) s' \<and>
    i_pages (inode_of s' dir) = i_pages (inode_of s dir) \<and> i_size (inode_of s' dir) = i_size (inode_of s dir)"
proof -
  define t where "t = (if S_ISDIR mode then upd_inode dir (\<lambda>i. i\<lparr>i_nlink := i_nlink i - 1\<rparr>) (set_mtime env dir s) else set_mtime env dir s)"
  have "\<not> i_sync (inode_of t dir)" using assms(2) by (simp add: t_def set_mtime_def)
  then have "entry_gone env dir mode s = Ret 0 (fs_up (upd_inode dir (\<lambda>i. i\<lparr>i_dirty := True\<rparr>) t))"
    using assms(1) by (simp add: entry_gone_def Let_def t_def [symmetric] mark_dirty_ok)
  then show ?thesis
    by (auto simp: t_def set_mtime_def changed_def fs_up_def fs_inodes_upd)
qed

lemma changed_upd:
  "changed d dir mode (fs_up (upd_inode dir f s)) s' \<Longrightarrow> (\<And>i. i_mode (f i) = i_mode i \<and> i_sync (f i) = i_sync i \<and> i_nlink (f i) = i_nlink i) \<Longrightarrow>
   changed d dir mode (fs_up s) s'"
  by (auto simp: changed_def fs_up_def fs_inodes_upd)

lemma record_found_ok:
  fixes s :: "'d osdfs"
  assumes "ptr + rec_len name \<le> PAGE_CACHE_SIZE" "\<not> i_sync (inode_of s dir)" "dir_pages (inode_of s dir) = pages"
    and "i = pages - 1 \<Longrightarrow> int (i * PAGE_CACHE_SIZE) \<le> i_size (inode_of s dir) - int (rec_len name)"
    and "i \<noteq> pages - 1 \<Longrightarrow> int (i * PAGE_CACHE_SIZE + PAGE_CACHE_SIZE) \<le> i_size (inode_of s dir)" "documented env"
  shows "\<exists>s'. record_found env dir i p ptr name mode s = Ret 0 s' \<and> changed (-1) dir mode (fs_up s) s' \<and>
    i_pages (inode_of s' dir) = (i_pages (inode_of s dir))(i := cut_record p ptr (rec_len name)) \<and>
    i_size (inode_of s' dir) = i_size (inode_of s dir) - (if i = pages - 1 then int (rec_len name) else 0)"
proof -
  define s1 where "s1 = set_mtime env dir (set_page dir i (cut_record p ptr (rec_len name)) s)"
  define size where "size = i_size (inode_of s1 dir) - int (rec_len name)"
  define s2 where "s2 = (if i = pages - 1 then upd_inode dir (\<lambda>x. x\<lparr>i_size := size\<rparr>) s1 else s1)"
  have s1: "dir_pages (inode_of s1 dir) = pages" "i_size (inode_of s1 dir) = i_size (inode_of s dir)"
    using assms(3) by (simp_all add: s1_def set_mtime_def set_page_def dir_pages_def)
  have "record_found env dir i p ptr name mode s = entry_gone env dir mode s2"
  proof (cases "i = pages - 1")
    case True
    define t where "t = size - int (i * PAGE_CACHE_SIZE)"
    have t: "0 \<le> t" "size = t + int i * int PAGE_CACHE_SIZE"
      using assms(4) True by (simp_all add: t_def size_def s1)
    have "size mod int PAGE_CACHE_SIZE = t mod int PAGE_CACHE_SIZE" unfolding t(2) by (simp only: mod_mult_self1)
    also have "\<dots> \<le> t" using t(1) by (rule zmod_le_nonneg_dividend)
    finally have "int (i * PAGE_CACHE_SIZE + nat (size mod int PAGE_CACHE_SIZE)) \<le> size"
      unfolding t(2) by (simp add: PAGE_CACHE_SIZE_def)
    then show ?thesis using assms(1,6) True s1
      unfolding record_found_def Let_def s1_def [symmetric] size_def [symmetric] s2_def
      by (simp add: commit_within)
  next
    case False
    then show ?thesis using assms(1,5,6) s1
      unfolding record_found_def Let_def s1_def [symmetric] s2_def by (simp add: commit_within)
  qed
  moreover have "\<not> i_sync (inode_of s2 dir)"
    using assms(2) by (simp add: s2_def s1_def set_mtime_def set_page_def)
  ultimately obtain s' where s': "record_found env dir i p ptr name mode s = Ret 0 s'" "changed (-1) dir mode (fs_up s2) s'"
      "i_pages (inode_of s' dir) = i_pages (inode_of s2 dir)" "i_size (inode_of s' dir) = i_size (inode_of s2 dir)"
    using entry_gone_ok [OF assms(6)] by metis
  have "changed (-1) dir mode (fs_up s1) s'"
    using s'(2) by (cases "i = pages - 1") (auto simp: s2_def intro: changed_upd)
  then have "changed (-1) dir mode (fs_up s) s'"
    unfolding s1_def set_mtime_def set_page_def by (auto dest!: changed_upd)
  then show ?thesis using s' s1(2)
    by (intro exI [of _ s']) (simp add: s2_def size_def s1_def set_mtime_def set_page_def)
qed

lemma entry_del_loop_skips:
  fixes s :: "'d osdfs"
  assumes "dir_holds s dir ess" "readable env dir s" "i \<le> k" "k \<le> length ess"
    and "\<forall>j. i \<le> j \<and> j < k \<longrightarrow> map_of (ess ! j) name = None"
  shows "\<exists>s'. same_fs dir s s' \<and>
    entry_del_loop env dir name mode (length ess) i s = entry_del_loop env dir name mode (length ess) k s'"
  using assms
proof (induction "k - i" arbitrary: i s)
  case 0
  then show ?case by (auto intro: exI [of _ s])
next
  case (Suc d)
  obtain s1 where s1: "same_fs dir s s1"
      and page: "\<And>k :: byte list \<Rightarrow> 'd osdfs \<Rightarrow> (int, 'd) fs_result.
        with_page env dir i s k = k (i_pages (inode_of s dir) i) s1"
    using with_page_ok [OF Suc.prems(2)] by blast
  have i: "i < k" "d = k - (i + 1)" using Suc.hyps(2) by simp_all
  have f: "find_record (i_pages (inode_of s dir) i) name 0 = Some None"
    using Suc.prems i by (subst find_record_shows) (auto simp: dir_holds_def position_of_None page_holds_shows)
  have "dir_holds s1 dir ess" "readable env dir s1"
    using Suc.prems s1 by (simp_all add: dir_holds_same readable_same)
  then obtain s' where "same_fs dir s1 s'"
      "entry_del_loop env dir name mode (length ess) (i + 1) s1 = entry_del_loop env dir name mode (length ess) k s'"
    using Suc.hyps(1) [of "i + 1" s1] i Suc.prems(4,5) by auto
  then show ?case using s1 i f Suc.prems(4)
    by (intro exI [of _ s']) (subst entry_del_loop.simps, simp add: page same_fs_trans)
qed

lemma entry_del_absent:
  assumes "dir_holds s dir ess" "tight s dir ess \<or> full s dir ess" "readable env dir s" "0 < fs_lock s"
    and "map_of (concat ess) name = None"
  shows "\<exists>s'. same_fs dir s s' \<and> entry_del env dir name mode s = Ret (-1) s'"
proof -
  let ?s = "s\<lparr>fs_lock := fs_lock s - 1\<rparr>"
  have none: "\<forall>j. 0 \<le> j \<and> j < length ess \<longrightarrow> map_of (ess ! j) name = None"
    using assms(5) by (force simp: map_of_eq_None_iff in_set_conv_nth)
  obtain s' where s': "same_fs dir ?s s'"
      "entry_del_loop env dir name mode (length ess) 0 ?s = entry_del_loop env dir name mode (length ess) (length ess) s'"
    using entry_del_loop_skips [of ?s dir ess env 0 "length ess" name mode] assms none by auto
  have "entry_del_loop env dir name mode (length ess) (length ess) s' = Ret (-1) (fs_up s')"
    by (subst entry_del_loop.simps) simp
  then show ?thesis using s' same_fs_up [OF assms(4) s'(1)] assms(4) dir_pages_length [OF assms(1,2)]
    by (auto simp: entry_del_def fs_down_def)
qed

text \<open>What the deletion does to the size of the file.\<close>

definition size_after :: "byte list \<Rightarrow> entry list list \<Rightarrow> int \<Rightarrow> int" where
  "size_after name ess n = (if map_of (last ess) name \<noteq> None then n - int (rec_len name) else n)"

lemma size_bounds:
  assumes "dir_holds s dir ess" "tight s dir ess \<or> full s dir ess" "ess \<noteq> []"
  shows "int ((length ess - 1) * PAGE_CACHE_SIZE + page_used (last ess)) \<le> i_size (inode_of s dir)"
    "i < length ess - 1 \<Longrightarrow> int (i * PAGE_CACHE_SIZE + PAGE_CACHE_SIZE) \<le> i_size (inode_of s dir)"
proof -
  have l: "int ((length ess - 1) * PAGE_CACHE_SIZE + PAGE_CACHE_SIZE) = int (length ess * PAGE_CACHE_SIZE)"
    using assms(3) by (cases ess) (simp_all add: PAGE_CACHE_SIZE_def)
  show 1: "int ((length ess - 1) * PAGE_CACHE_SIZE + page_used (last ess)) \<le> i_size (inode_of s dir)"
    using assms(2,3) l holds_last [OF assms(1,3)] by (auto simp: tight_def full_def page_holds_def)
  assume "i < length ess - 1"
  then have "i * PAGE_CACHE_SIZE + PAGE_CACHE_SIZE \<le> (length ess - 1) * PAGE_CACHE_SIZE"
    by (simp add: PAGE_CACHE_SIZE_def)
  then show "int (i * PAGE_CACHE_SIZE + PAGE_CACHE_SIZE) \<le> i_size (inode_of s dir)" using 1 by linarith
qed

lemma entry_del_ok:
  fixes s :: "'d osdfs"
  assumes "dir_holds s dir ess" "tight s dir ess \<or> full s dir ess" "readable env dir s" "0 < fs_lock s"
    and "map_of (concat ess) name \<noteq> None"
  shows "\<exists>s'. entry_del env dir name mode s = Ret 0 s' \<and> changed (-1) dir mode s s' \<and>
    dir_holds s' dir (deleted name ess) \<and> i_size (inode_of s' dir) = size_after name ess (i_size (inode_of s dir))"
proof -
  let ?s = "s\<lparr>fs_lock := fs_lock s - 1\<rparr>"
  have dist: "distinct (map fst (concat ess))" using assms(1) by (simp add: dir_holds_def)
  obtain k where k: "in_page name ess k" using present_page [OF assms(5)] by blast
  then have kl: "k < length ess" by (simp add: in_page_def)
  have before: "\<forall>j. 0 \<le> j \<and> j < k \<longrightarrow> map_of (ess ! j) name = None"
    using only_page [OF dist k] kl by simp
  obtain s1 where s1: "same_fs dir ?s s1"
      "entry_del_loop env dir name mode (length ess) 0 ?s = entry_del_loop env dir name mode (length ess) k s1"
    using entry_del_loop_skips [of ?s dir ess env 0 k name mode] assms before kl by auto
  have h1: "dir_holds s1 dir ess" "readable env dir s1" "tight s1 dir ess \<or> full s1 dir ess"
    using s1(1) assms(1-3) by (simp_all add: dir_holds_same readable_same tight_same full_same)
  obtain s2 where s2: "same_fs dir s1 s2"
      and page: "\<And>f :: byte list \<Rightarrow> 'd osdfs \<Rightarrow> (int, 'd) fs_result.
        with_page env dir k s1 f = f (i_pages (inode_of s1 dir) k) s2"
    using with_page_ok [OF h1(2)] by blast
  have h2: "dir_holds s2 dir ess" "readable env dir s2" "tight s2 dir ess \<or> full s2 dir ess"
    using s2 h1 by (simp_all add: dir_holds_same readable_same tight_same full_same)
  obtain ptr where ptr: "position_of name (ess ! k) = Some ptr"
    using k position_in_page by (auto simp: in_page_def)
  have p: "page_holds (i_pages (inode_of s1 dir) k) (ess ! k)" using h1(1) kl by (simp add: dir_holds_def)
  have "distinct (map fst (ess ! k))" using distinct_page [OF dist] kl by simp
  note del = page_deleted [OF this p ptr]
  have last: "last ess = ess ! (length ess - 1)" using kl by (intro last_conv_nth) auto
  have cut: "k = length ess - 1 \<Longrightarrow> int (k * PAGE_CACHE_SIZE) \<le> i_size (inode_of s2 dir) - int (rec_len name)"
    using size_bounds(1) [OF h2(1,3)] kl del(2) last by fastforce
  have whole: "k \<noteq> length ess - 1 \<Longrightarrow> int (k * PAGE_CACHE_SIZE + PAGE_CACHE_SIZE) \<le> i_size (inode_of s2 dir)"
    using size_bounds(2) [OF h2(1,3)] kl by fastforce
  have le: "ptr + rec_len name \<le> PAGE_CACHE_SIZE" using del(2) p by (simp add: page_holds_def)
  have sync: "\<not> i_sync (inode_of s2 dir)" "documented env" using h2(2) by (simp_all add: readable_def)
  obtain s' where s': "record_found env dir k (i_pages (inode_of s1 dir) k) ptr name mode s2 = Ret 0 s'"
      "changed (-1) dir mode (fs_up s2) s'"
      "i_pages (inode_of s' dir) = (i_pages (inode_of s2 dir))(k := cut_record (i_pages (inode_of s1 dir) k) ptr (rec_len name))"
      "i_size (inode_of s' dir) = i_size (inode_of s2 dir) - (if k = length ess - 1 then int (rec_len name) else 0)"
    using record_found_ok [OF le sync(1) dir_pages_length [OF h2(1,3)] cut whole sync(2)] by blast
  have "entry_del env dir name mode s = Ret 0 s'"
    using assms(4) dir_pages_length [OF assms(1,2)] s1(2) kl find_record_shows [OF page_holds_shows [OF p], of name] ptr s'(1)
    by (subst (asm) (2) entry_del_loop.simps) (simp add: entry_del_def fs_down_def page)
  moreover have "changed (-1) dir mode s s'"
    using s'(2) same_fs_facts [OF same_fs_up [OF assms(4) same_fs_trans [OF s1(1) s2]]] by (simp add: changed_def)
  moreover have "dir_holds s' dir (deleted name ess)"
  proof -
    have "page_holds (i_pages (inode_of s' dir) j) (deleted name ess ! j)" if "j < length ess" for j
      using that del(1) h2(1) only_page [OF dist k that]
      by (cases "j = k") (auto simp: s'(3) deleted_def dir_holds_def filter_other)
    then show ?thesis using assms(1) dist
      by (auto simp: dir_holds_def concat_deleted distinct_map_filter)
  qed
  moreover have "i_size (inode_of s' dir) = size_after name ess (i_size (inode_of s dir))"
    using s'(4) s1(1) s2 k kl only_page [OF dist k, of "length ess - 1"]
    by (auto simp: size_after_def last same_fs_facts in_page_def)
  ultimately show ?thesis by blast
qed

text \<open>
  The cases of the size: a tight directory stays tight unless its last page becomes empty, and then the
  page before, which is full now, becomes the last one.
\<close>

lemma dir_holds_butlast: "dir_holds s dir ess \<Longrightarrow> dir_holds s dir (butlast ess)"
  by (cases ess rule: rev_cases) (auto simp: dir_holds_def nth_append less_Suc_eq split: if_splits)

lemma last_deleted: "ess \<noteq> [] \<Longrightarrow> last (deleted name ess) = filter (\<lambda>e. fst e \<noteq> name) (last ess)"
  by (simp add: deleted_def last_map)

lemma used_deleted:
  assumes "dir_holds s dir ess" "ess \<noteq> []" "map_of (last ess) name \<noteq> None"
  shows "page_used (last (deleted name ess)) + rec_len name = page_used (last ess)"
proof -
  have d: "distinct (map fst (last ess))"
    by (rule distinct_page [of ess]) (use assms(1,2) in \<open>simp_all add: dir_holds_def\<close>)
  show ?thesis unfolding last_deleted [OF assms(2)]
    using position_in_page [OF assms(3)] page_deleted(3) [OF d holds_last [OF assms(1,2)]] by blast
qed

lemma tight_deleted:
  assumes "dir_holds s dir ess" "tight s dir ess" "ess \<noteq> []"
    and "i_size (inode_of s' dir) = size_after name ess (i_size (inode_of s dir))"
  shows "last (deleted name ess) \<noteq> [] \<Longrightarrow> tight s' dir (deleted name ess)"
    "last (deleted name ess) = [] \<Longrightarrow> if length ess = 1 then tight s' dir [] else full s' dir (butlast (deleted name ess))"
proof -
  have ne: "deleted name ess \<noteq> []" using assms(3) by (simp add: deleted_def)
  have size: "i_size (inode_of s' dir) = int ((length ess - 1) * PAGE_CACHE_SIZE + page_used (last (deleted name ess)))"
  proof (cases "map_of (last ess) name")
    case None
    then show ?thesis using assms(2-4) by (simp add: size_after_def tight_def last_deleted filter_other)
  next
    case (Some ino)
    then show ?thesis using assms(2-4) used_deleted [OF assms(1,3), of name] by (simp add: size_after_def tight_def)
  qed
  then show "last (deleted name ess) \<noteq> [] \<Longrightarrow> tight s' dir (deleted name ess)"
    using ne by (simp add: tight_def)
  assume "last (deleted name ess) = []"
  then have "i_size (inode_of s' dir) = int ((length ess - 1) * PAGE_CACHE_SIZE)" using size by simp
  then show "if length ess = 1 then tight s' dir [] else full s' dir (butlast (deleted name ess))"
    using assms(3) by (cases ess) (auto simp: tight_def full_def deleted_def)
qed

lemma full_deleted:
  assumes "full s dir ess" "map_of (last ess) name = None"
    and "i_size (inode_of s' dir) = size_after name ess (i_size (inode_of s dir))"
  shows "full s' dir (deleted name ess)"
  using assms by (auto simp: full_def size_after_def deleted_def)

subsection \<open>Listing\<close>

text \<open>What of the entries is listed: in the last page only those before the limit that the size gives.\<close>

definition seen :: "'d osdfs \<Rightarrow> u32 \<Rightarrow> entry list list \<Rightarrow> entry list list" where
  "seen s dir ess = (if full s dir ess then butlast ess @ [[]] else ess)"

lemma seen_same: "same_fs dir s s' \<Longrightarrow> seen s' dir ess = seen s dir ess"
  by (simp add: seen_def full_same)

lemma not_tight_and_full: "dir_holds s dir ess \<Longrightarrow> tight s dir ess \<Longrightarrow> \<not> full s dir ess"
proof (cases "ess = []")
  case False
  assume "dir_holds s dir ess" "tight s dir ess"
  moreover have "length ess * PAGE_CACHE_SIZE = (length ess - 1) * PAGE_CACHE_SIZE + PAGE_CACHE_SIZE"
    using False by (cases ess) simp_all
  ultimately show ?thesis using holds_last [of s dir ess] False by (simp add: tight_def full_def page_holds_def)
qed (simp add: full_def)

lemma seen_tight: "dir_holds s dir ess \<Longrightarrow> tight s dir ess \<Longrightarrow> seen s dir ess = ess"
  by (simp add: seen_def not_tight_and_full)

lemma page_seen:
  assumes "dir_holds s dir ess" "tight s dir ess \<or> full s dir ess" "i < length ess" "inos_ok (concat ess)"
    and "\<And>k. accept k" "skip \<le> 0"
    and "limit = (if i = length ess - 1 then nat (i_size (inode_of s dir) mod int PAGE_CACHE_SIZE) else PAGE_CACHE_SIZE)"
  shows "list_records (i_pages (inode_of s dir) i) limit accept skip out 0 = Some (skip, out @ seen s dir ess ! i, Goes_On)"
proof -
  have p: "page_holds (i_pages (inode_of s dir) i) (ess ! i)" using assms(1,3) by (simp add: dir_holds_def)
  have u: "page_used (ess ! i) < PAGE_CACHE_SIZE" using p by (simp add: page_holds_def)
  have ne: "ess \<noteq> []" using assms(3) by auto
  have ok: "inos_ok (ess ! i)" using assms(3,4) by (auto simp: inos_ok_def)
  have whole: "page_used (ess ! i) \<le> limit \<Longrightarrow> limit \<le> PAGE_CACHE_SIZE \<Longrightarrow>
      list_records (i_pages (inode_of s dir) i) limit accept skip out 0 = Some (skip, out @ ess ! i, Goes_On)"
    using list_records_shows [of _ "ess ! i" limit accept skip out] page_holds_shows [OF p] ok assms(5,6) by simp
  show ?thesis
  proof (cases "i = length ess - 1")
    case True
    then have l: "last ess = ess ! i" using ne by (simp add: last_conv_nth)
    show ?thesis
    proof (cases "full s dir ess")
      case True
      then have "limit = 0" using assms(7) \<open>i = length ess - 1\<close> by (simp add: full_def PAGE_CACHE_SIZE_def)
      then show ?thesis using True \<open>i = length ess - 1\<close> ne
        by (subst list_records.simps) (simp add: seen_def nth_append)
    next
      case False
      then have t: "tight s dir ess" using assms(2) by blast
      have "limit = page_used (ess ! i)"
        using size_mod [of "inode_of s dir" "length ess - 1" "page_used (ess ! i)"] u t l ne \<open>i = length ess - 1\<close> assms(7)
        by (simp add: tight_def)
      then show ?thesis using whole u False by (simp add: seen_def)
    qed
  next
    case False
    then have "i < length ess - 1" using assms(3) by linarith
    then have "seen s dir ess ! i = ess ! i" by (simp add: seen_def nth_append nth_butlast)
    then show ?thesis using whole u False assms(7) by simp
  qed
qed

lemma length_seen [simp]: "length (seen s dir ess) = length ess"
  by (cases ess) (auto simp: seen_def full_def)

lemma list_pages_holds:
  fixes s :: "'d osdfs"
  assumes "dir_holds s dir ess" "tight s dir ess \<or> full s dir ess" "readable env dir s" "i \<le> length ess"
    and "inos_ok (concat ess)" "\<And>k. accept k" "skip \<le> 0"
  shows "\<exists>s'. same_fs dir s s' \<and>
    list_pages env dir accept (length ess) i skip out s = Ret (out @ concat (drop i (seen s dir ess)), Goes_On) s'"
  using assms(1-4)
proof (induction "length ess - i" arbitrary: i out s)
  case 0
  then show ?case by (subst list_pages.simps) (auto intro!: exI [of _ s])
next
  case (Suc d)
  obtain s1 where s1: "same_fs dir s s1"
      and page: "\<And>k :: byte list \<Rightarrow> 'd osdfs \<Rightarrow> ((byte list \<times> u32) list \<times> listing, 'd) fs_result.
        with_page env dir i s k = k (i_pages (inode_of s dir) i) s1"
    using with_page_ok [OF Suc.prems(3)] by blast
  have i: "i < length ess" "d = length ess - (i + 1)" using Suc.hyps(2) by simp_all
  have h1: "dir_holds s1 dir ess" "tight s1 dir ess \<or> full s1 dir ess" "readable env dir s1"
    using Suc.prems s1 by (simp_all add: dir_holds_same readable_same tight_same full_same)
  define limit where "limit = (if i = dir_pages (inode_of s1 dir) - 1
    then nat (i_size (inode_of s1 dir) mod int PAGE_CACHE_SIZE) else PAGE_CACHE_SIZE)"
  have "list_records (i_pages (inode_of s1 dir) i) limit accept skip out 0 = Some (skip, out @ seen s1 dir ess ! i, Goes_On)"
    by (rule page_seen [OF h1(1,2) i(1) assms(5-7)]) (simp add: limit_def dir_pages_length [OF h1(1,2)])
  then have l: "list_records (i_pages (inode_of s dir) i) limit accept skip out 0 = Some (skip, out @ seen s dir ess ! i, Goes_On)"
    using s1 by (simp add: same_fs_facts seen_same)
  obtain s' where "same_fs dir s1 s'" "list_pages env dir accept (length ess) (i + 1) skip (out @ seen s dir ess ! i) s1 =
      Ret ((out @ seen s dir ess ! i) @ concat (drop (i + 1) (seen s dir ess)), Goes_On) s'"
    using Suc.hyps(1) [of "i + 1" s1 "out @ seen s dir ess ! i"] i h1 s1 by (auto simp: seen_same)
  moreover have "drop i (seen s dir ess) = seen s dir ess ! i # drop (i + 1) (seen s dir ess)"
    using i by (simp add: Cons_nth_drop_Suc)
  ultimately show ?case using s1 i(1) l unfolding limit_def
    by (intro exI [of _ s']) (subst list_pages.simps, simp add: page same_fs_trans Let_def)
qed

text \<open>The two entries that every directory has.\<close>

definition dot_entries :: "u32 \<Rightarrow> u32 \<Rightarrow> entry list" where
  "dot_entries dir parent = [([0x2e], dir), ([0x2e, 0x2e], parent)]"

lemma readdir_list_pages:
  fixes s :: "'d osdfs"
  assumes "dir_holds s dir ess" "tight s dir ess \<or> full s dir ess" "readable env dir s" "0 < fs_lock s" "\<And>k. accept k"
  obtains s1 where "same_fs dir s s1"
    "\<And>out s'. list_pages env dir accept (length ess) 0 (-2) (dot_entries dir parent) s1 = Ret (out, Goes_On) s' \<Longrightarrow> out \<noteq> [] \<Longrightarrow>
      osdfs_readdir env dir parent accept 0 remembered s = Ret (0, out, int (length out), int (length (concat ess))) s'"
proof -
  obtain s1 where s1: "same_fs dir s s1" "entry_num env dir s = Ret (int (length (concat ess))) s1"
    using entry_num_holds [OF assms(1-4)] by blast
  have "dir_holds s1 dir ess" "tight s1 dir ess \<or> full s1 dir ess"
    using s1(1) assms(1,2) by (simp_all add: dir_holds_same tight_same full_same)
  then have "dir_pages (inode_of s1 dir) = length ess" by (rule dir_pages_length)
  then show thesis using s1 assms(5)
    by (intro that [of s1]) (simp_all add: osdfs_readdir_def dot_entries_def Let_def)
qed

lemma osdfs_readdir_holds:
  fixes s :: "'d osdfs"
  assumes "dir_holds s dir ess" "tight s dir ess \<or> full s dir ess" "readable env dir s" "0 < fs_lock s"
    and "inos_ok (concat ess)" "\<And>k. accept k" "out = dot_entries dir parent @ concat (seen s dir ess)"
  shows "\<exists>s'. same_fs dir s s' \<and> osdfs_readdir env dir parent accept 0 remembered s =
    Ret (0, out, int (length out), int (length (concat ess))) s'"
proof -
  obtain s1 where s1: "same_fs dir s s1"
    "\<And>out s'. list_pages env dir accept (length ess) 0 (-2) (dot_entries dir parent) s1 = Ret (out, Goes_On) s' \<Longrightarrow> out \<noteq> [] \<Longrightarrow>
      osdfs_readdir env dir parent accept 0 remembered s = Ret (0, out, int (length out), int (length (concat ess))) s'"
    using readdir_list_pages [of s dir ess env accept parent remembered] assms(1-4,6) by blast
  have "dir_holds s1 dir ess" "tight s1 dir ess \<or> full s1 dir ess" "readable env dir s1"
    using s1(1) assms(1-3) by (simp_all add: dir_holds_same tight_same full_same readable_same)
  then obtain s' where "same_fs dir s1 s'" "list_pages env dir accept (length ess) 0 (-2) (dot_entries dir parent) s1 =
      Ret (out, Goes_On) s'"
    using list_pages_holds [of s1 dir ess env 0 accept "-2" "dot_entries dir parent"] assms(5-7) s1(1)
    by (auto simp: seen_same)
  then show ?thesis using s1 by (intro exI [of _ s']) (auto simp: dot_entries_def assms(7) intro: same_fs_trans)
qed

end
