(* ===== verification/Osdfs_Properties.thy ===== *)
theory Osdfs_Properties
  imports Osdfs_Delete
begin

section \<open>Properties of the file system\<close>

text \<open>
  A directory is a list of entries for those who change, search and list it, as long as its last page
  is not emptied while there are others; what goes wrong after that; the making of a file; and the
  renaming that loses one.
\<close>

subsection \<open>Runs of changes\<close>

datatype dir_op = Add "byte list" u32 u16 | Del "byte list" u16

fun run_dir :: "'d kernel \<Rightarrow> u32 \<Rightarrow> dir_op list \<Rightarrow> 'd osdfs \<Rightarrow> (int list, 'd) fs_result" where
  "run_dir env dir [] s = Ret [] s"
| "run_dir env dir (Add n ino mode # ops) s =
    fs_then (entry_add env dir ino n mode s) (\<lambda>rc s. fs_then (run_dir env dir ops s) (\<lambda>rcs s. Ret (rc # rcs) s))"
| "run_dir env dir (Del n mode # ops) s =
    fs_then (entry_del env dir n mode s) (\<lambda>rc s. fs_then (run_dir env dir ops s) (\<lambda>rcs s. Ret (rc # rcs) s))"

text \<open>The specification.\<close>

fun list_run :: "dir_op list \<Rightarrow> entry list \<Rightarrow> int list \<times> entry list" where
  "list_run [] es = ([], es)"
| "list_run (Add n ino mode # ops) es = (case list_run ops (es @ [(n, ino)]) of (rcs, es) \<Rightarrow> (0 # rcs, es))"
| "list_run (Del n mode # ops) es =
    (case list_run ops (filter (\<lambda>e. fst e \<noteq> n) es) of (rcs, es') \<Rightarrow> ((if map_of es n = None then -1 else 0) # rcs, es'))"

text \<open>
  The kernel adds only names that are not there.  No page but the only one may become empty at the end.
\<close>

definition empties :: "byte list \<Rightarrow> entry list list \<Rightarrow> bool" where
  "empties n ess \<longleftrightarrow> ess \<noteq> [] \<and> last (deleted n ess) = []"

fun steady :: "dir_op list \<Rightarrow> entry list list \<Rightarrow> bool" where
  "steady [] ess \<longleftrightarrow> True"
| "steady (Add n ino mode # ops) ess \<longleftrightarrow> name_ok n \<and> rec_len n < PAGE_CACHE_SIZE \<and> map_of (concat ess) n = None \<and>
     length ess + 1 < 2 ^ 20 \<and> steady ops (added True (n, ino) ess)"
| "steady (Del n mode # ops) ess \<longleftrightarrow>
     (if empties n ess then length ess = 1 \<and> steady ops [] else steady ops (deleted n ess))"

definition dir_state :: "'d kernel \<Rightarrow> 'd osdfs \<Rightarrow> u32 \<Rightarrow> entry list list \<Rightarrow> bool" where
  "dir_state env s dir ess \<longleftrightarrow> dir_holds s dir ess \<and> tight s dir ess \<and> readable env dir s \<and> 0 < fs_lock s"

lemma dir_state_same: "same_fs dir s s' \<Longrightarrow> dir_state env s' dir ess = dir_state env s dir ess"
  by (simp add: dir_state_def dir_holds_same tight_same readable_same same_fs_facts)

lemma dir_state_add:
  assumes "dir_state env s dir ess" "name_ok n" "rec_len n < PAGE_CACHE_SIZE" "map_of (concat ess) n = None"
    and "length ess + 1 < 2 ^ 20"
  obtains s' where "entry_add env dir ino n mode s = Ret 0 s'" "dir_state env s' dir (added True (n, ino) ess)"
    "changed 1 dir mode s s'"
proof -
  obtain s' where "entry_add env dir ino n mode s = Ret 0 s'" "changed 1 dir mode s s'"
      "dir_holds s' dir (added True (n, ino) ess)" "tight s' dir (added True (n, ino) ess)"
    using entry_add_ok [of s dir ess True env n ino mode] assms by (auto simp: dir_state_def)
  then show thesis using assms(1)
    by (intro that [of s']) (simp_all add: dir_state_def changed_facts)
qed

lemma dir_state_del:
  assumes "dir_state env s dir ess" "empties n ess \<longrightarrow> length ess = 1"
  obtains s' where
    "entry_del env dir n mode s = Ret (if map_of (concat ess) n = None then -1 else 0) s'"
    "dir_state env s' dir (if empties n ess then [] else deleted n ess)"
    "map_of (concat ess) n \<noteq> None \<longrightarrow> changed (-1) dir mode s s'"
proof (cases "map_of (concat ess) n")
  case None
  obtain s' where s': "same_fs dir s s'" "entry_del env dir n mode s = Ret (-1) s'"
    using entry_del_absent [of s dir ess env n mode] assms(1) None by (auto simp: dir_state_def)
  have "map (filter (\<lambda>e. fst e \<noteq> n)) ess = ess"
    using None by (intro map_idI filter_other) (force simp: map_of_eq_None_iff)
  then have "deleted n ess = ess" by (simp add: deleted_def)
  moreover from this have "\<not> empties n ess" using assms(1) by (auto simp: empties_def dir_state_def tight_def)
  ultimately show thesis using that [of s'] s' assms(1) None by (simp add: dir_state_same)
next
  case (Some ino)
  obtain s' where s': "entry_del env dir n mode s = Ret 0 s'" "changed (-1) dir mode s s'" "dir_holds s' dir (deleted n ess)"
      "i_size (inode_of s' dir) = size_after n ess (i_size (inode_of s dir))"
    using entry_del_ok [of s dir ess env n mode] assms(1) Some by (auto simp: dir_state_def)
  have ne: "ess \<noteq> []" using Some by auto
  have r: "readable env dir s'" "0 < fs_lock s'" using s'(2) assms(1) by (simp_all add: dir_state_def changed_facts)
  note t = tight_deleted [of s dir ess s' n, OF _ _ ne s'(4)]
  have "dir_state env s' dir (if empties n ess then [] else deleted n ess)"
  proof (cases "empties n ess")
    case True
    then have "tight s' dir []" using t(2) assms by (auto simp: dir_state_def empties_def)
    then show ?thesis using True r by (simp add: dir_state_def dir_holds_def)
  next
    case False
    then show ?thesis using t(1) assms(1) ne s'(3) r by (auto simp: dir_state_def empties_def)
  qed
  then show thesis using that [of s'] s' Some by simp
qed

lemma dir_run_refines:
  "dir_state env s dir ess \<Longrightarrow> steady ops ess \<Longrightarrow>
   \<exists>s' ess'. run_dir env dir ops s = Ret (fst (list_run ops (concat ess))) s' \<and>
     dir_state env s' dir ess' \<and> concat ess' = snd (list_run ops (concat ess))"
proof (induction ops arbitrary: s ess)
  case (Cons x ops)
  show ?case
  proof (cases x)
    case (Add n ino mode)
    obtain s1 where s1: "entry_add env dir ino n mode s = Ret 0 s1" "dir_state env s1 dir (added True (n, ino) ess)"
      using dir_state_add [OF Cons.prems(1)] Cons.prems(2) Add by (metis steady.simps(2))
    then show ?thesis using Cons.IH [OF s1(2)] Cons.prems(2) Add
      by (auto simp: concat_added split: prod.splits)
  next
    case (Del n mode)
    let ?ess = "if empties n ess then [] else deleted n ess"
    have e: "empties n ess \<longrightarrow> length ess = 1" "steady ops ?ess" using Cons.prems(2) Del by (auto split: if_splits)
    obtain s1 where s1: "entry_del env dir n mode s = Ret (if map_of (concat ess) n = None then -1 else 0) s1"
        "dir_state env s1 dir ?ess"
      using dir_state_del [OF Cons.prems(1) e(1)] by metis
    have "concat ?ess = filter (\<lambda>e. fst e \<noteq> n) (concat ess)"
    proof (cases "empties n ess")
      case True
      then have "length (deleted n ess) = 1" "last (deleted n ess) = []" using e(1) by (auto simp: empties_def)
      then have "deleted n ess = [[]]" by (metis length_0_conv length_Suc_conv last.simps One_nat_def)
      then show ?thesis using True concat_deleted [of n ess] by simp
    qed (simp add: concat_deleted)
    then show ?thesis using Cons.IH [OF s1(2) e(2)] s1(1) Del by (auto split: prod.splits)
  qed
qed auto

subsection \<open>Making a file\<close>

definition usual_iget :: "'d kernel \<Rightarrow> u32 \<Rightarrow> bool" where
  "usual_iget env ino \<longleftrightarrow> (\<forall>t. f_iget_ok env ino t \<and> \<not> i_sync (f_fresh env ino t))"

lemma dir_state_cong:
  assumes "dir_state env s dir ess" "inode_of s' dir = inode_of s dir" "g_error s' = g_error s" "fs_lock s' = fs_lock s"
  shows "dir_state env s' dir ess"
  using assms by (simp add: dir_state_def dir_holds_def tight_def readable_def)

lemma lookup_state:
  assumes "dir_state env s dir ess"
  shows "\<exists>s'. same_fs dir s s' \<and> osdfs_lookup env dir name s = got env (map_of (concat ess) name) s'"
  using assms by (intro osdfs_lookup_holds) (auto simp: dir_state_def)

lemma got_known: "documented env \<Longrightarrow> fs_inodes s ino \<noteq> None \<Longrightarrow> got env (Some ino) s = Ret (Some ino) s"
  by (simp add: got_def documented_def kernel_iget_def)

lemma iget_new:
  assumes "ucast ino = g_next_uid s" "fs_inodes s ino = None" "usual_iget env ino" "documented env"
  shows "\<exists>i. f_iget env ino s = Ret True (s\<lparr>fs_inodes := (fs_inodes s)(ino \<mapsto> i)\<rparr>) \<and> \<not> i_sync i \<and>
    i_mode i = i_mode (create_attr s) \<and> i_nlink i = i_nlink (create_attr s) \<and> i_size i = i_size (create_attr s)"
proof -
  let ?i = "osdfs_set_ops (inode_from (create_attr s) (f_fresh env ino s))"
  have "f_iget env ino s = Ret True (s\<lparr>fs_inodes := (fs_inodes s)(ino \<mapsto> ?i)\<rparr>)"
    using assms by (simp add: documented_def kernel_iget_def usual_iget_def osdfs_read_inode_def upd_inode_def inode_of_def)
  moreover have "\<not> i_sync ?i \<and> i_mode ?i = i_mode (create_attr s) \<and> i_nlink ?i = i_nlink (create_attr s) \<and> i_size ?i = i_size (create_attr s)"
    using assms(3) by (auto simp: osdfs_set_ops_def inode_from_def usual_iget_def Let_def)
  ultimately show ?thesis by blast
qed

lemma create_ok:
  assumes "dir_state env s dir ess" "ucast ino = g_next_uid s" "fs_inodes s ino = None" "usual_iget env ino"
    and "ino \<noteq> dir" "ino \<noteq> 1" "name_ok (d_name e)" "rec_len (d_name e) < PAGE_CACHE_SIZE"
    and "map_of (concat ess) (d_name e) = None" "length ess + 1 < 2 ^ 20"
  shows "\<exists>s'. osdfs_create env dir e mode s = Ret (0, e\<lparr>d_inode := Some ino\<rparr>) s' \<and> g_next_uid s' = g_next_uid s + 1 \<and>
    dir_state env s' dir (added True (d_name e, ino) ess) \<and>
    (\<exists>i. fs_inodes s' ino = Some i \<and> i_mode i = or mode S_IFREG \<and> i_size i = 0 \<and> i_dirty i \<and>
       i_nlink i = (if S_ISDIR (or mode S_IFREG) then 2 else 1)) \<and>
    (\<forall>j. j \<noteq> dir \<and> j \<noteq> ino \<longrightarrow> fs_inodes s' j = fs_inodes s j)"
proof -
  let ?m = "or mode S_IFREG" and ?e = "e\<lparr>d_inode := Some ino\<rparr>"
  define s1 where "s1 = s\<lparr>create_attr := new_attr env ?m s\<rparr>"
  have ino: "(ucast (g_next_uid s1) :: u32) = ino"
    by (rule bit_word_eqI) (simp add: s1_def bit_simps flip: assms(2))
  have doc: "documented env" using assms(1) by (simp add: dir_state_def readable_def)
  obtain i where i: "f_iget env ino s1 = Ret True (s1\<lparr>fs_inodes := (fs_inodes s1)(ino \<mapsto> i)\<rparr>)" "\<not> i_sync i"
      "i_mode i = ?m" "i_nlink i = (if S_ISDIR ?m then 2 else 1)" "i_size i = 0"
    using iget_new [of ino s1 env] assms(2-4) doc by (auto simp: s1_def new_attr_def blank_inode_def S_ISDIR_def)
  define s2 where "s2 = s1\<lparr>fs_inodes := (fs_inodes s1)(ino \<mapsto> i)\<rparr>"
  define s3 where "s3 = upd_inode ino (\<lambda>i. i\<lparr>i_dirty := True\<rparr>) s2"
  have s3: "inode_of s3 dir = inode_of s dir" "g_error s3 = g_error s" "fs_lock s3 = fs_lock s" "g_next_uid s3 = g_next_uid s"
      "inode_of s3 ino = i\<lparr>i_dirty := True\<rparr>" "fs_inodes s3 ino = Some (i\<lparr>i_dirty := True\<rparr>)"
      "\<forall>j. j \<noteq> dir \<and> j \<noteq> ino \<longrightarrow> fs_inodes s3 j = fs_inodes s j"
    using assms(5) by (auto simp: s3_def s2_def s1_def inode_of_def fs_inodes_upd)
  have sync: "\<not> i_sync (inode_of s2 dir)" "\<not> i_sync (inode_of s2 ino)" "\<not> g_error s"
    using assms(1,5) i(2) by (auto simp: s2_def s1_def inode_of_def dir_state_def readable_def)
  have "osdfs_create env dir e mode s = fs_then (mknod_entry env dir ?e ino s3) (\<lambda>(rc, e) s. Ret (if rc \<noteq> 0 then -1 else 0, e) s)"
    using sync i(1) ino doc unfolding osdfs_create_def osdfs_mknod_def Let_def s1_def [symmetric]
    by (simp add: s2_def [symmetric] s3_def mark_dirty_ok)
  moreover obtain s4 where s4: "entry_add env dir ino (d_name e) ?m s3 = Ret 0 s4"
      "dir_state env s4 dir (added True (d_name e, ino) ess)" "changed 1 dir ?m s3 s4"
    using dir_state_add [OF dir_state_cong [OF assms(1) s3(1-3)] assms(7-10)] by blast
  ultimately have "osdfs_create env dir e mode s = Ret (0, ?e) (s4\<lparr>g_next_uid := g_next_uid s4 + 1\<rparr>)"
    using assms(6) s3(5) i(3) by (simp add: mknod_entry_def)
  moreover have "dir_state env (s4\<lparr>g_next_uid := g_next_uid s4 + 1\<rparr>) dir (added True (d_name e, ino) ess)"
    by (rule dir_state_cong [OF s4(2)]) simp_all
  moreover have "fs_inodes s4 ino = Some (i\<lparr>i_dirty := True\<rparr>)" "g_next_uid s4 = g_next_uid s"
      "\<forall>j. j \<noteq> dir \<and> j \<noteq> ino \<longrightarrow> fs_inodes s4 j = fs_inodes s j"
    using s4(3) s3(4,6,7) assms(5) by (auto simp: changed_def)
  ultimately show ?thesis using i by auto
qed

subsection \<open>Calls that bring the kernel down\<close>

text \<open>
  The kernel calls \<^verbatim>\<open>osdfs_link\<close> with a new entry that has no inode yet, whose mode the function
  reads; and in a synchronous directory the object of a new file is made by a call whose buffer is ten bytes
  too short for the image of an inode.
\<close>

lemma link_needs_inode:
  assumes "d_inode old = Some ino" "\<not> S_ISDIR (i_mode (inode_of s ino))" "d_inode e = None"
  shows "osdfs_link env old dir e s = Oops"
  using assms by (simp add: osdfs_link_def)

lemma create_and_set_overruns:
  "1024 < 10 + unat len \<Longrightarrow> osd_create_and_set exec gid uid page index len (Some v) d = None"
  by (simp add: osd_create_and_set_def)

lemma sync_mknod_oops:
  assumes "f_iget env (ucast (g_next_uid s)) (s\<lparr>create_attr := new_attr env mode s\<rparr>) = Ret True s'" "i_sync (inode_of s' dir)"
  shows "osdfs_mknod env dir e mode s = Oops"
  using assms unfolding osdfs_mknod_def Let_def by (simp add: create_and_set_overruns INODE_LEN_def)

subsection \<open>A directory whose last page was emptied\<close>

lemma last_page_emptied:
  assumes "dir_state env s dir (ess @ [[(n, i)]])" "ess \<noteq> []"
  shows "\<exists>s'. entry_del env dir n mode s = Ret 0 s' \<and> dir_holds s' dir ess \<and> full s' dir ess \<and>
    readable env dir s' \<and> 0 < fs_lock s'"
proof -
  let ?ess = "ess @ [[(n, i)]]"
  have h: "dir_holds s dir ?ess" "tight s dir ?ess" "readable env dir s" "0 < fs_lock s"
    using assms(1) by (simp_all add: dir_state_def)
  have d: "n \<notin> fst ` set (concat ess)" using h(1) by (simp add: dir_holds_def)
  have "filter (\<lambda>e. fst e \<noteq> n) es = es" if "es \<in> set ess" for es
    using d that by (intro filter_True) auto
  then have del: "deleted n ?ess = ess @ [[]]" by (simp add: deleted_def map_idI)
  have "map_of (concat ?ess) n \<noteq> None" by (simp add: map_of_eq_None_iff)
  then obtain s' where s': "entry_del env dir n mode s = Ret 0 s'" "changed (-1) dir mode s s'" "dir_holds s' dir (ess @ [[]])"
      "i_size (inode_of s' dir) = size_after n ?ess (i_size (inode_of s dir))"
    using entry_del_ok [OF h(1) disjI1 [OF h(2)] h(3,4), of n mode] unfolding del by blast
  have "full s' dir ess"
    using tight_deleted(2) [OF h(1,2) _ s'(4)] assms(2) by (simp add: del)
  moreover have "dir_holds s' dir ess" using dir_holds_butlast [OF s'(3)] by simp
  ultimately show ?thesis using s'(1,2) h(3,4) by (simp add: changed_facts)
qed

text \<open>An entry that is written behind a gap is not seen.\<close>

lemma page_gap:
  assumes "page_holds p es" "page_used es < off" "off + length bs \<le> PAGE_CACHE_SIZE"
  shows "page_shows (memcpy p off bs) es"
proof -
  obtain k where k: "off - page_used es = Suc k" using assms(2) by (metis Suc_diff_Suc)
  have "take off p = page_records es @ 0 # replicate k 0"
    using assms(1,2,3) k by (simp add: page_holds_def min_def)
  moreover have "length (memcpy p off bs) = PAGE_CACHE_SIZE"
    using assms by (simp add: page_holds_length memcpy_def)
  ultimately show ?thesis using assms(1) by (auto simp: page_shows_def page_holds_def memcpy_def)
qed

lemma gap_entry_lost:
  fixes s :: "'d osdfs"
  assumes "dir_holds s dir ess" "full s dir ess" "readable env dir s" "0 < fs_lock s"
    and "map_of (last ess) n \<noteq> None" "length m < length n" "map_of (concat ess) m = None"
  shows "\<exists>s1 s2 s3. entry_del env dir n mode s = Ret 0 s1 \<and> entry_add env dir ino m mode' s1 = Ret 0 s2 \<and>
    osdfs_lookup env dir m s2 = Ret None s3"
proof -
  have ne: "ess \<noteq> []" using assms(2) by (simp add: full_def)
  have "map_of (concat ess) n \<noteq> None"
    using assms(5) ne map_of_distinct_concat(2) [of ess "length ess - 1" n] assms(1)
    by (auto simp: dir_holds_def last_conv_nth)
  then obtain s1 where s1: "entry_del env dir n mode s = Ret 0 s1" "changed (-1) dir mode s s1" "dir_holds s1 dir (deleted n ess)"
      "i_size (inode_of s1 dir) = i_size (inode_of s dir) - int (rec_len n)"
    using entry_del_ok [OF assms(1) disjI2 [OF assms(2)] assms(3,4), of n mode] assms(5)
    by (auto simp: size_after_def)
  define k where "k = length ess - 1"
  define es where "es = last (deleted n ess)"
  define off where "off = PAGE_CACHE_SIZE - rec_len n"
  have used: "page_used es + rec_len n = page_used (last ess)" "page_used (last ess) < PAGE_CACHE_SIZE"
    using used_deleted [OF assms(1) ne assms(5)] holds_last [OF assms(1) ne] by (simp_all add: es_def page_holds_def)
  then have off: "page_used es < off" "0 < off" "off + rec_len n = PAGE_CACHE_SIZE" "off < PAGE_CACHE_SIZE"
    by (simp_all add: off_def rec_len_def)
  have fits: "off + rec_len m < PAGE_CACHE_SIZE" using assms(6) off(3) by (simp add: rec_len_def)
  have size: "i_size (inode_of s1 dir) = int (k * PAGE_CACHE_SIZE + off)"
  proof -
    have "length ess * PAGE_CACHE_SIZE = k * PAGE_CACHE_SIZE + PAGE_CACHE_SIZE" using ne by (cases ess) (simp_all add: k_def)
    then show ?thesis using s1(4) assms(2) off(3) by (simp add: full_def)
  qed
  have pages: "k + 1 < 2 ^ 32" using assms(1) by (auto simp: dir_holds_def k_def)
  have dp: "dir_pages (inode_of s1 dir) = k + 1"
    using pages_of_size [OF size off(2) _ pages] off(4) by simp
  define s0 where "s0 = s1\<lparr>fs_lock := fs_lock s1 - 1\<rparr>"
  have r1: "readable env dir s1" "0 < fs_lock s1" using s1(2) assms(3,4) by (simp_all add: changed_facts)
  have r0: "readable env dir s0" using r1(1) by (simp add: s0_def)
  obtain t where t: "same_fs dir s0 t"
      and page: "\<And>f :: byte list \<Rightarrow> 'd osdfs \<Rightarrow> (int, 'd) fs_result.
        with_page env dir k s0 f = f (i_pages (inode_of s0 dir) k) t"
    using with_page_ok [OF r0] by blast
  define p where "p = memcpy (i_pages (inode_of s1 dir) k) off (entry_bytes m ino)"
  have i0: "inode_of s0 = inode_of s1" by (simp add: s0_def fun_eq_iff)
  have "entry_add env dir ino m mode' s1 = put_entry env dir k off ino m mode' (i_pages (inode_of s0 dir) k) t"
    using r1(2) size_mod [OF size off(4)] fits off(2) dp
    unfolding entry_add_def fs_down_def s0_def [symmetric] Let_def i0 by (simp add: page i0)
  moreover obtain s2 where s2: "put_entry env dir k off ino m mode' (i_pages (inode_of s0 dir) k) t = Ret 0 s2"
      "changed 1 dir mode' (fs_up t) s2" "i_pages (inode_of s2 dir) = (i_pages (inode_of t dir))(k := p)"
      "i_size (inode_of s2 dir) = max (i_size (inode_of t dir)) (int (k * PAGE_CACHE_SIZE + (off + rec_len m)))"
    using put_entry_ok [where off = off and name = m and env = env and s = t and dir = dir and p' = p and
        p = "i_pages (inode_of s0 dir) k" and ino = ino and n = k and mode = mode'] fits off(2) t r0
    by (auto simp: p_def s0_def same_fs_facts readable_def)
  ultimately have add: "entry_add env dir ino m mode' s1 = Ret 0 s2" by simp
  have len: "length (deleted n ess) = k + 1" using ne by (simp add: k_def)
  have h: "page_holds (i_pages (inode_of s1 dir) j) (deleted n ess ! j)" if "j < length ess" for j
    using s1(3) that by (simp add: dir_holds_def)
  have "page_shows p es"
    unfolding p_def using h [of k] off(1) fits ne
    by (intro page_gap) (simp_all add: es_def last_conv_nth deleted_def k_def)
  then have "dir_shows s2 dir (deleted n ess)"
    using s1(3) h len t ne by (auto simp: dir_shows_def dir_holds_def s2(3) same_fs_facts s0_def es_def
      last_conv_nth deleted_def k_def page_holds_shows)
  moreover have "dir_pages (inode_of s2 dir) = length (deleted n ess)"
    using pages_of_size [of "inode_of s2 dir" k "off + rec_len m"] s2(4) t fits pages off(2) len size
    by (simp add: same_fs_facts s0_def)
  moreover have "readable env dir s2"
    using s2(2) readable_same [OF same_fs_up [OF r1(2), of dir t]] t r1(1) by (simp add: changed_facts s0_def)
  moreover have "map_of (concat (deleted n ess)) m = None" using assms(7) by (simp add: map_of_deleted)
  ultimately obtain s3 where "osdfs_lookup env dir m s2 = Ret None s3"
    using osdfs_lookup_shows [of s2 dir "deleted n ess" env m] by (auto simp: got_def)
  then show ?thesis using s1(1) add by blast
qed

subsection \<open>Samples\<close>

definition page_image :: "entry list \<Rightarrow> byte list" where
  "page_image es = page_records es @ replicate (PAGE_CACHE_SIZE - page_used es) 0"

definition dir_inode :: "entry list list \<Rightarrow> inode" where
  "dir_inode ess = blank_inode\<lparr>i_mode := S_IFDIR, i_nlink := 2,
     i_size := (if ess = [] then 0 else int ((length ess - 1) * PAGE_CACHE_SIZE + page_used (last ess))),
     i_pages := (\<lambda>k. if k < length ess then page_image (ess ! k) else replicate PAGE_CACHE_SIZE 0)\<rparr>"

definition sample_fs :: "(u32 \<Rightarrow> entry list list option) \<Rightarrow> unit osdfs" where
  "sample_fs m = \<lparr>fs_lock = 1, g_gid = 1, g_super_uid = 1, g_root_uid = 2, g_next_uid = 0xabc123, g_no_format = False,
     g_error = False, create_attr = blank_inode, fs_inodes = (\<lambda>j. map_option dir_inode (m j)), fs_dev = ()\<rparr>"

definition sample_base :: "unit fs_env" where
  "sample_base = \<lparr>f_exec = (\<lambda>a send recv d. (0, recv, d)), f_now = (\<lambda>s. 7), f_cached = (\<lambda>ino n s. even n),
     f_block_ok = (\<lambda>ino n s. True), f_malloc_ok = (\<lambda>n. True), f_iget_ok = (\<lambda>ino s. True),
     f_fresh = (\<lambda>ino s. blank_inode), f_symlink_ok = (\<lambda>ino s. True), f_root_ok = True, f_fsuid = 0, f_fsgid = 0,
     f_junk = [], f_image = (\<lambda>i. []), f_inode = (\<lambda>bs. blank_inode)\<rparr>"

definition sample_fs_env :: "unit kernel" where
  "sample_fs_env = fs_env.extend sample_base
     \<lparr>f_iget = kernel_iget sample_base, f_mark_dirty = kernel_mark_dirty sample_base,
      f_commit_write = kernel_commit_write sample_base\<rparr>"

text \<open>The functions of the kernel do not look at the fields that hold them.\<close>

lemma extend_fields [simp]:
  "f_exec (fs_env.extend env m) = f_exec env" "f_malloc_ok (fs_env.extend env m) = f_malloc_ok env"
  "f_iget_ok (fs_env.extend env m) = f_iget_ok env" "f_fresh (fs_env.extend env m) = f_fresh env"
  "f_image (fs_env.extend env m) = f_image env" "f_inode (fs_env.extend env m) = f_inode env"
  "f_junk (fs_env.extend env m) = f_junk env"
  by (simp_all add: fs_env.defs)

lemma kernel_extend [simp]:
  "kernel_iget (fs_env.extend env m) = kernel_iget env" "kernel_mark_dirty (fs_env.extend env m) = kernel_mark_dirty env"
  "kernel_commit_write (fs_env.extend env m) = kernel_commit_write env"
  unfolding fun_eq_iff kernel_iget_def kernel_commit_write_def kernel_mark_dirty_def osdfs_dirty_inode_def
    osdfs_write_inode_def osdfs_read_inode_def inode_buffer_def extend_fields by simp_all

lemma sample_documented: "documented sample_fs_env"
  unfolding documented_def sample_fs_env_def kernel_extend by (simp add: fs_env.defs)

lemma sample_dir_state:
  assumes "m j = Some ess" "length ess < 2 ^ 20" "distinct (map fst (concat ess))"
    and "\<forall>es \<in> set ess. page_used es < PAGE_CACHE_SIZE \<and> entries_ok es" "ess = [] \<or> last ess \<noteq> []"
  shows "dir_state sample_fs_env (sample_fs m) j ess"
proof -
  have i: "inode_of (sample_fs m) j = dir_inode ess" using assms(1) by (simp add: inode_of_def sample_fs_def)
  have "page_holds (page_image (ess ! k)) (ess ! k)" if "k < length ess" for k
    using that assms(4) by (simp add: page_holds_def page_image_def)
  then have "dir_holds (sample_fs m) j ess" using assms(2,3) by (simp add: dir_holds_def i dir_inode_def)
  moreover have "tight (sample_fs m) j ess" using assms(5) by (auto simp: tight_def i dir_inode_def)
  moreover have "readable sample_fs_env j (sample_fs m)"
    using sample_documented by (simp add: readable_def i dir_inode_def blank_inode_def)
      (simp add: sample_fs_def sample_fs_env_def fs_env.defs sample_base_def)
  ultimately show ?thesis by (simp add: dir_state_def sample_fs_def)
qed

lemmas fs_eval = rec_len_def PAGE_CACHE_SIZE_def name_ok_def

subsection \<open>The properties\<close>



text \<open>
  C22. A file that is made is found: \<^verbatim>\<open>osdfs_create\<close> gives it the next number, makes an inode with the mode
  of a regular file and nothing in it, and adds its name to the directory; looking the name up then
  gives this inode, every other name gives what it gave before, and no other inode has changed.
\<close>

theorem created_file_is_found:
  assumes "dir_state env s dir ess" "ucast ino = g_next_uid s" "fs_inodes s ino = None" "usual_iget env ino"
    and "ino \<noteq> dir" "ino \<noteq> 1" "name_ok (d_name e)" "rec_len (d_name e) < PAGE_CACHE_SIZE"
    and "map_of (concat ess) (d_name e) = None" "length ess + 1 < 2 ^ 20"
  shows "\<exists>s' t. osdfs_create env dir e mode s = Ret (0, e\<lparr>d_inode := Some ino\<rparr>) s' \<and> g_next_uid s' = g_next_uid s + 1 \<and>
    osdfs_lookup env dir (d_name e) s' = Ret (Some ino) t \<and>
    (\<forall>name. name \<noteq> d_name e \<longrightarrow> (\<exists>t. osdfs_lookup env dir name s' = got env (map_of (concat ess) name) t)) \<and>
    (\<exists>i. fs_inodes s' ino = Some i \<and> i_mode i = or mode S_IFREG \<and> i_size i = 0 \<and> i_dirty i) \<and>
    (\<forall>j. j \<noteq> dir \<and> j \<noteq> ino \<longrightarrow> fs_inodes s' j = fs_inodes s j)"
proof -
  let ?ess = "added True (d_name e, ino) ess"
  obtain s' i where s': "osdfs_create env dir e mode s = Ret (0, e\<lparr>d_inode := Some ino\<rparr>) s'" "g_next_uid s' = g_next_uid s + 1"
      "dir_state env s' dir ?ess" "fs_inodes s' ino = Some i" "i_mode i = or mode S_IFREG" "i_size i = 0" "i_dirty i"
      "\<forall>j. j \<noteq> dir \<and> j \<noteq> ino \<longrightarrow> fs_inodes s' j = fs_inodes s j"
    using create_ok [OF assms] by blast
  have m: "map_of (concat ?ess) (d_name e) = Some ino" "name \<noteq> d_name e \<Longrightarrow> map_of (concat ?ess) name = map_of (concat ess) name" for name
    using assms(9) by (simp_all add: concat_added map_add_def split: option.splits)
  obtain t where t: "same_fs dir s' t" "osdfs_lookup env dir (d_name e) s' = got env (Some ino) t"
    using lookup_state [OF s'(3), of "d_name e"] unfolding m by blast
  have "fs_inodes t ino \<noteq> None" using same_fs_facts(13) [OF t(1)] s'(4) by simp
  moreover have "documented env" using assms(1) by (simp add: dir_state_def readable_def)
  ultimately have "osdfs_lookup env dir (d_name e) s' = Ret (Some ino) t" using t(2) by (simp add: got_known)
  moreover have "\<forall>name. name \<noteq> d_name e \<longrightarrow> (\<exists>t. osdfs_lookup env dir name s' = got env (map_of (concat ess) name) t)"
    using lookup_state [OF s'(3)] m(2) by metis
  ultimately show ?thesis using s' by blast
qed

theorem created_file_is_found_witness:
  "\<exists>s' t. osdfs_create sample_fs_env 2 \<lparr>d_name = [97], d_inode = None\<rparr> 0x1a4 (sample_fs [2 \<mapsto> []]) =
      Ret (0, \<lparr>d_name = [97], d_inode = Some 0xabc123\<rparr>) s' \<and> g_next_uid s' = 0xabc124 \<and>
    osdfs_lookup sample_fs_env 2 [97] s' = Ret (Some 0xabc123) t"
proof -
  let ?s = "sample_fs [2 \<mapsto> []]" and ?e = "\<lparr>d_name = [97], d_inode = None\<rparr>"
  have "dir_state sample_fs_env ?s 2 []" by (rule sample_dir_state) simp_all
  moreover have "ucast (0xabc123 :: u32) = g_next_uid ?s" "fs_inodes ?s 0xabc123 = None" by (simp_all add: sample_fs_def)
  moreover have "usual_iget sample_fs_env 0xabc123"
    by (simp add: usual_iget_def sample_fs_env_def fs_env.defs sample_base_def blank_inode_def)
  ultimately show ?thesis
    using created_file_is_found [where env = sample_fs_env and s = ?s and dir = 2 and ess = "[]" and ino = "0xabc123" and
        e = ?e and mode = "0x1a4"] by (auto simp: fs_eval sample_fs_def)
qed

text \<open>
  C23. After the only entry of the last page is deleted, the listing of the directory leaves out every
  entry of the page before, though each of them is still found by its name; and an entry that is
  added after one of them has been deleted, with a shorter name, is lost: the addition reports
  success and the name is not found.
\<close>

theorem emptied_page_hides_entries:
  fixes s :: "'d osdfs"
  assumes "dir_state env s dir (ess @ [[(n, i)]])" "ess \<noteq> []" "inos_ok (concat ess)" "\<And>k. accept k"
    and "map_of (last ess) old \<noteq> None" "map_of (concat ess) new = None" "length new < length old"
  shows "\<exists>s1 s2 s3. entry_del env dir n mode s = Ret 0 s1 \<and>
    (\<exists>num t. osdfs_readdir env dir parent accept 0 remembered s1 = Ret (0, dot_entries dir parent @ concat (butlast ess), num) t) \<and>
    (\<forall>name. \<exists>t. osdfs_lookup env dir name s1 = got env (map_of (concat ess) name) t) \<and>
    entry_del env dir old mode1 s1 = Ret 0 s2 \<and> entry_add env dir ino new mode2 s2 = Ret 0 s3 \<and>
    (\<exists>t. osdfs_lookup env dir new s3 = Ret None t)"
proof -
  obtain s1 where s1: "entry_del env dir n mode s = Ret 0 s1" "dir_holds s1 dir ess" "full s1 dir ess" "readable env dir s1"
      "0 < fs_lock s1"
    using last_page_emptied [OF assms(1,2)] by blast
  have "concat (seen s1 dir ess) = concat (butlast ess)" using s1(3) by (simp add: seen_def)
  then have "\<exists>num t. osdfs_readdir env dir parent accept 0 remembered s1 = Ret (0, dot_entries dir parent @ concat (butlast ess), num) t"
    using osdfs_readdir_holds [OF s1(2) disjI2 [OF s1(3)] s1(4,5) assms(3,4) refl] by fastforce
  moreover have "\<forall>name. \<exists>t. osdfs_lookup env dir name s1 = got env (map_of (concat ess) name) t"
    using osdfs_lookup_holds [OF s1(2) disjI2 [OF s1(3)] s1(4)] by blast
  moreover obtain s2 s3 t where "entry_del env dir old mode1 s1 = Ret 0 s2" "entry_add env dir ino new mode2 s2 = Ret 0 s3"
      "osdfs_lookup env dir new s3 = Ret None t"
    using gap_entry_lost [OF s1(2-5) assms(5,7,6)] by blast
  ultimately show ?thesis using s1(1) by blast
qed

theorem emptied_page_hides_entries_witness:
  "let s = sample_fs [2 \<mapsto> [[([97, 97], 0xabc123), ([98], 0xabc124)], [([100], 0xabc125)]]]
   in \<exists>s1 s2 s3. entry_del sample_fs_env 2 [100] S_IFREG s = Ret 0 s1 \<and>
     (\<exists>num t. osdfs_readdir sample_fs_env 2 2 (\<lambda>k. True) 0 0 s1 = Ret (0, dot_entries 2 2, num) t) \<and>
     entry_del sample_fs_env 2 [97, 97] S_IFREG s1 = Ret 0 s2 \<and>
     entry_add sample_fs_env 2 0xabc126 [99] S_IFREG s2 = Ret 0 s3 \<and>
     (\<exists>t. osdfs_lookup sample_fs_env 2 [99] s3 = Ret None t)"
proof -
  let ?es = "[([97, 97], 0xabc123), ([98], 0xabc124)] :: entry list"
  let ?s = "sample_fs [2 \<mapsto> [?es, [([100], 0xabc125)]]]"
  have d: "dir_state sample_fs_env ?s 2 ([?es] @ [[([100], 0xabc125)]])"
    by (rule sample_dir_state) (simp_all add: fs_eval)
  have io: "inos_ok (concat [?es])" by (simp add: inos_ok_def)
  have old: "map_of (last [?es]) [97, 97] \<noteq> None" "map_of (concat [?es]) [99] = None" by simp_all
  have l: "length [99 :: byte] < length [97 :: byte, 97]" by simp
  note r = emptied_page_hides_entries [OF d list.distinct(2) io TrueI old l, of S_IFREG 2 0 S_IFREG "0xabc126" S_IFREG]
  have none: "concat (butlast [?es]) = []" by simp
  show ?thesis using r unfolding Let_def none append_Nil2 by auto
qed

text \<open>
  C24. A renaming can lose a file: if the new name is that of a directory that is not empty, the call
  fails, but the old name is already gone from its directory, and the object stays on the device
  without a name.
\<close>

theorem rename_loses_file:
  assumes "dir_state env s dir ess" "d_inode old = Some ino" "map_of (concat ess) (d_name old) = Some ino"
    and "empties (d_name old) ess \<longrightarrow> length ess = 1"
    and "d_inode e = Some j" "j \<noteq> dir" "S_ISDIR (i_mode (inode_of s j))"
    and "dir_state env s j fss" "concat fss \<noteq> []"
  shows "\<exists>s' t. osdfs_rename env dir old new_dir e s = Ret (-1) s' \<and> osdfs_lookup env dir (d_name old) s' = Ret None t \<and>
    fs_dev s' = fs_dev s"
proof -
  let ?mode = "i_mode (inode_of s ino)"
  let ?ess = "if empties (d_name old) ess then [] else deleted (d_name old) ess"
  obtain s1 where del: "entry_del env dir (d_name old) ?mode s = Ret (if map_of (concat ess) (d_name old) = None then -1 else 0) s1"
      "dir_state env s1 dir ?ess" "map_of (concat ess) (d_name old) \<noteq> None \<longrightarrow> changed (-1) dir ?mode s s1"
    by (rule dir_state_del [OF assms(1,4), where mode = ?mode])
  then have s1: "entry_del env dir (d_name old) ?mode s = Ret 0 s1" "dir_state env s1 dir ?ess" "changed (-1) dir ?mode s s1"
    using assms(3) by simp_all
  have j: "inode_of s1 j = inode_of s j" using s1(3) assms(6) by (simp add: changed_def inode_of_def)
  have "dir_state env s1 j fss"
    using s1(3) by (intro dir_state_cong [OF assms(8) j]) (simp_all add: changed_def)
  then obtain s2 where s2: "same_fs j s1 s2" "entry_num env j s1 = Ret (int (length (concat fss))) s2"
    using entry_num_holds [of s1 j fss env] by (auto simp: dir_state_def)
  have "osdfs_unlink env new_dir e s1 = Ret (- ENOTEMPTY) s2"
    using s2(2) assms(5,7,9) j by (simp add: osdfs_unlink_def)
  then have "osdfs_rename env dir old new_dir e s = Ret (-1) s2"
    using s1(1) assms(2,5) by (simp add: osdfs_rename_def Let_def ENOTEMPTY_def)
  moreover have "dir_state env s2 dir ?ess"
    using s1(2) s2(1) by (simp add: dir_state_def dir_holds_def tight_def readable_def same_fs_facts)
  moreover have "map_of (concat ?ess) (d_name old) = None" by (simp add: map_of_deleted)
  ultimately obtain t where "osdfs_lookup env dir (d_name old) s2 = Ret None t"
    using lookup_state [of env s2 dir ?ess "d_name old"] by (auto simp: got_def)
  moreover have "fs_dev s2 = fs_dev s" using s2(1) s1(3) by (simp add: same_fs_facts changed_def)
  ultimately show ?thesis using \<open>osdfs_rename env dir old new_dir e s = Ret (-1) s2\<close> by blast
qed

theorem rename_loses_file_witness:
  "let s = sample_fs [2 \<mapsto> [[([97], 0xabc123)]], 3 \<mapsto> [[([98], 0xabc124)]]]
   in \<exists>s' t. osdfs_rename sample_fs_env 2 \<lparr>d_name = [97], d_inode = Some 0xabc123\<rparr> 2 \<lparr>d_name = [99], d_inode = Some 3\<rparr> s = Ret (-1) s' \<and>
     osdfs_lookup sample_fs_env 2 [97] s' = Ret None t"
proof -
  let ?s = "sample_fs [2 \<mapsto> [[([97], 0xabc123)]], 3 \<mapsto> [[([98], 0xabc124)]]]"
  let ?old = "\<lparr>d_name = [97], d_inode = Some 0xabc123\<rparr>" and ?new = "\<lparr>d_name = [99], d_inode = Some 3\<rparr>"
  have "dir_state sample_fs_env ?s 2 [[([97], 0xabc123)]]" "dir_state sample_fs_env ?s 3 [[([98], 0xabc124)]]"
    by (rule sample_dir_state; simp add: fs_eval)+
  note d = this
  have dir: "S_ISDIR (i_mode (inode_of ?s 3))"
    by (simp add: inode_of_def sample_fs_def dir_inode_def S_ISDIR_def S_IFDIR_def S_IFMT_def)
  have "\<exists>s' t. osdfs_rename sample_fs_env 2 ?old 2 ?new ?s = Ret (-1) s' \<and>
      osdfs_lookup sample_fs_env 2 (d_name ?old) s' = Ret None t \<and> fs_dev s' = fs_dev ?s"
    by (rule rename_loses_file [OF d(1) _ _ _ _ _ dir d(2)]) simp_all
  then show ?thesis unfolding Let_def dentry.simps by blast
qed

end
