(* ===== verification/Spec2Isabelle.thy ===== *)
theory Spec2Isabelle
  imports Prelude MD5 PDU_Control PDU_Login PDU_Data PDU_Exchange Ring_Queue Hash_Table Socket
    Counters Util_Text Parameters Negotiation Session_Base Target_Session Target_Data Target_Transfer
    Target_Invariants Target_Properties Target_Requests
    Initiator_Session Initiator_Control Initiator_Data Initiator_Worker Initiator_Transfer
    Initiator_Read Initiator_Exchange Initiator_Invariants Initiator_Properties
    Disk_State Target_Read Disk_Device Disk_Access Disk_Commands Disk_Writes Disk_Invariants
    Disk_Properties Disk_Errors
    Osd_State Osd_Codec Osd_Device Osd_Store Osd_Exec Osd_Commands Osd_Ops Osd_Services Osd_Wire Osd_Properties
    Osdfs_State Osdfs_Dir Osdfs_Records Osdfs_Ops Osdfs_Directory Osdfs_Delete Osdfs_Properties
begin

text \<open>
  \<^bold>\<open>The program.\<close>  The repository is a measurement environment for storage protocols; its core, under
  \<^verbatim>\<open>src/ost-2.0.1/src\<close>, is an iSCSI initiator and target with two devices, and the clients of one of
  them.  File names below are relative to that directory.

  \<^item> The target (\<^verbatim>\<open>target.c\<close>) serves each connection with one thread, which reads a PDU, finds its
    handler and answers.  SCSI commands go to the device it is linked with: a disk (\<^verbatim>\<open>disk-alpha.c\<close>)
    or an object-based device (\<^verbatim>\<open>osd.c\<close>).  The device queues a command with \<^verbatim>\<open>device_enqueue\<close>, says with
    \<^verbatim>\<open>device_place_data\<close> where write data goes, asks for it with \<^verbatim>\<open>target_transfer_data\<close>, and ends the command
    with the callback \<^verbatim>\<open>device_command_done\<close>, which sends read data and the response.
  \<^item> The initiator (\<^verbatim>\<open>initiator.c\<close>) has a sending and a receiving thread for each session.  A client
    queues a command; the sending thread enters it in a hash table and sends it; the receiving thread
    finds the command of each PDU in that table, moves data, answers R2Ts, and calls the command's
    callback when it is complete.
  \<^item> Both use the PDU codecs (\<^verbatim>\<open>iscsi.c\<close>), the queues, hash tables and scatter/gather transfers of
    \<^verbatim>\<open>util.c\<close>, and the text parameters with their negotiation and the CHAP login (\<^verbatim>\<open>parameters.c\<close>,
    \<^verbatim>\<open>md5.c\<close>).  The device counters are in \<^verbatim>\<open>ost.c\<close>.
  \<^item> Above the initiator, \<^verbatim>\<open>osd_ops.c\<close> builds the commands of the object-based device, and \<^verbatim>\<open>osdfs.c\<close> is a
    file system for the Linux kernel whose inodes are objects.

  \<^bold>\<open>Theories, in the order of the program.\<close>

  \<^item> \<open>Prelude\<close>: machine integers, memory accesses to a header, lists cut into pieces, the
    collection \<open>wire\<close>, and the interfaces of a codec.
  \<^item> \<open>PDU_Control\<close>, \<open>PDU_Login\<close>, \<open>PDU_Data\<close>: a record for each argument structure of \<^verbatim>\<open>iscsi.h\<close> and the functions
    \<^verbatim>\<open>iscsi_*_encap\<close> and \<^verbatim>\<open>iscsi_*_decap\<close> on lists of 48 bytes.  \<open>PDU_Exchange\<close> has what both ends make of
    each other's PDUs.
  \<^item> \<open>Ring_Queue\<close>: \<^verbatim>\<open>ISCSI_QUEUE_T\<close> as the record \<open>iscsi_queue\<close>; insertion, removal and the searches.
    \<open>Hash_Table\<close>: \<^verbatim>\<open>HASH_T\<close> as \<open>hash_t\<close> over an explicit heap of elements.
    \<open>Socket\<close>: \<^verbatim>\<open>modify_iov\<close>, \<^verbatim>\<open>iscsi_sock_msg\<close>.  \<open>Util_Text\<close>: numbers and bytes as text.
    \<open>Counters\<close>: the functions of \<^verbatim>\<open>ost.c\<close>.  \<open>MD5\<close>: the digest.
  \<^item> \<open>Parameters\<close>: the parameter list and \<^verbatim>\<open>param_text_parse\<close>, entry by entry; \<open>Negotiation\<close>: what an
    exchange of offers and answers leads to.
  \<^item> \<open>Session_Base\<close>: what both ends share.  \<open>Target_Session\<close>: \<^verbatim>\<open>TARGET_SESSION_T\<close> as \<open>target_session\<close> and the
    handlers that answer alone; \<open>Target_Data\<close>: the handlers that work with the device, \<^verbatim>\<open>execute_t\<close>
    and the loop of the thread.  \<open>Target_Transfer\<close>, \<open>Target_Read\<close>, \<open>Target_Invariants\<close>, \<open>Target_Requests\<close>,
    \<open>Target_Properties\<close>: what they do.
  \<^item> \<open>Initiator_Session\<close>: the session of an initiator; \<open>Initiator_Control\<close>: text, login, logout and NOP;
    \<open>Initiator_Data\<close>: SCSI commands; \<open>Initiator_Worker\<close>: one round of each thread and the relation
    \<open>session_step\<close> that lets threads, clients and the peer take turns.  \<open>Initiator_Transfer\<close>, \<open>Initiator_Read\<close>,
    \<open>Initiator_Exchange\<close>, \<open>Initiator_Invariants\<close>, \<open>Initiator_Properties\<close>: what they do, the exchange of a read
    command with the target included.
  \<^item> \<open>Disk_State\<close>, \<open>Disk_Device\<close>: the global variables and the functions of \<^verbatim>\<open>disk-alpha.c\<close>.  \<open>Disk_Access\<close>,
    \<open>Disk_Commands\<close>, \<open>Disk_Writes\<close>, \<open>Disk_Invariants\<close>, \<open>Disk_Properties\<close>, \<open>Disk_Errors\<close>: what they do.
  \<^item> \<open>Osd_State\<close>, \<open>Osd_Codec\<close>, \<open>Osd_Device\<close>: the files, the descriptor block and the functions of \<^verbatim>\<open>osd.c\<close>;
    \<open>Osd_Ops\<close>: \<^verbatim>\<open>osd_ops.c\<close>.  \<open>Osd_Store\<close>, \<open>Osd_Exec\<close>, \<open>Osd_Commands\<close>, \<open>Osd_Services\<close>, \<open>Osd_Wire\<close>,
    \<open>Osd_Properties\<close>: what they do.
  \<^item> \<open>Osdfs_State\<close>, \<open>Osdfs_Dir\<close>, \<open>Osdfs_Ops\<close>: the inodes, directories and operations of \<^verbatim>\<open>osdfs.c\<close>.
    \<open>Osdfs_Records\<close>, \<open>Osdfs_Directory\<close>, \<open>Osdfs_Delete\<close>, \<open>Osdfs_Properties\<close>: what they do.

  Definitions have the names of the C functions.  Where one of these is long, its loops and parts
  are definitions of their own, composed as in the code.  A structure is a record whose fields
  carry the C names, with a prefix where several records share one.

  \<^bold>\<open>State and effects.\<close>  A handler is a function from a session to a result that tells how the call
  ends: it returns a code and a new session; it waits for a lock that stays taken; it runs for ever; it ends
  the process, as \<^verbatim>\<open>exit\<close> does; or it does what C leaves undefined.  The connection is a part of the session: the input that the peer has
  still to send, the bytes sent, and the sends that will fail.  The memory that scatter lists
  address, and the state of the devices, are parts of it too.  Integers are words of the width of
  the C type; a position or length is a natural number where the code cannot overflow it.  What the
  system decides (results of system calls, addresses of fresh memory, random numbers, times) is a
  parameter, as are the files and the kernel behind the devices.

  \<^bold>\<open>Interfaces.\<close>  \<open>pdu_codec\<close>, \<open>stable_codec\<close> and \<open>distinct_codecs\<close> say what a codec promises; they are
  interpreted for the codecs of \<^verbatim>\<open>iscsi.c\<close>, and the exchanges rest on them.  \<open>bounded_fifo\<close> is the contract
  of a queue, interpreted for the ring, \<open>keyed_table\<close> that of a table, interpreted for the hash table.
  \<open>connection_invariant\<close>, \<open>handler_invariant\<close> and \<open>session_invariant\<close> say what a predicate on sessions needs to
  survive every handler of the target; their interpretations give that commands are only touched by
  their handlers, that parameters stay valid, that only a login makes a session full-featured, and
  that the disk stays within its memory.

  \<^bold>\<open>What is shown.\<close>
  \<^item> Login and phases: no command reaches the device, and no session becomes full-featured, without a
    login that the handlers accept; which logins they accept is more than the protocol allows.
  \<^item> Negotiation: both ends agree on the result, values stay within their lists and bounds whatever the
    peer sends, and with CHAP only the digest of the secret is accepted.  The digest is that of
    RFC 1321.
  \<^item> Transfers: read data, R2Ts and the answers to them cover a transfer once, in order and within the
    negotiated lengths; an initiator gets the bytes the target sends; a write is reported as good only
    when it has been sent; transfers through a socket move a prefix of the message.
  \<^item> Devices: the blocks that are read are those of the disk, those written are stored, nothing else
    in memory changes; objects are a map from numbers to bytes; directories of the file system are
    lists of entries.
  \<^item> Containers: queues are bounded lists, tables are finite maps, the counters stay consistent.
  \<^item> Round trips: PDUs, descriptor blocks, blocks of the disk, objects.
  \<^item> Errors: what a peer can do to the target (end it, or block a session), commands that are not
    answered, transfers that never end, files that are lost.  These are properties of the code as it
    is; the theorems state them in the same way as the others.

  \<^bold>\<open>Loops, bounds and fuel.\<close>  Structural loops are \<open>fun\<close>, loops with a measure \<open>function\<close>.  A loop that may run
  for ever (chains of the hash table, the loops over a transfer and over additional header segments, the
  loops of the threads) is a \<open>partial_function\<close> whose value \<open>None\<close> means that it does not end; that it ends
  is a part of the theorems about it.  \<open>queue_scan\<close> has fuel: one more than the depth of the queue, as
  many steps as there are slots before the search is back at its start, which \<open>queue_scan_total\<close> shows to
  be enough.  Transfers are shorter than \<open>2 ^ 31\<close> bytes, since the code keeps lengths in \<^verbatim>\<open>int\<close>.  A page
  of a directory has 4096 bytes and a directory at most \<open>2 ^ 20\<close> pages, so that its size fits in 32 bits.

  \<^bold>\<open>Assumptions.\<close>  Hosts are little-endian.  Locks are taken and released in order, so a function that
  holds a lock from start to end is one step; a lock that the code leaves locked is modelled, as a call that
  waits.  Memory is allocated with success where the model has no parameter for it.  The files of the
  object device behave as POSIX says, unless a parameter refuses a call.  The functions of the kernel
  that \<^verbatim>\<open>osdfs.c\<close> uses for inodes and pages are parameters; the hypothesis \<open>documented\<close> says what they do.

  \<^bold>\<open>Not modelled.\<close>  Starting and stopping of threads and sessions, sockets and their listeners,
  discovery, command lines and configuration files, \<^verbatim>\<open>device_init\<close> and \<^verbatim>\<open>device_shutdown\<close>, statistics, debugging
  output: they consist of calls to the system.  \<^verbatim>\<open>driver.c\<close> and \<^verbatim>\<open>so.c\<close> connect the initiator with the
  SCSI layer and the block layer of a Linux kernel whose sources are not in the repository; nearly every line of
  them is a call into it.  In \<^verbatim>\<open>osdfs.c\<close> the one-line functions that pass generic functions of that kernel on,
  and the registration of the module, are left out.  \<^verbatim>\<open>fitness.c\<close>, \<^verbatim>\<open>research.c\<close>, \<^verbatim>\<open>tests.c\<close>, \<^verbatim>\<open>utest-alpha.c\<close> and
  \<^verbatim>\<open>utarget.c\<close> are benchmarks, tests and main programs; the Python bindings and scripts are outside the C
  program.
\<close>

end
